(* ===== verification/Lamia_Prelude.thy ===== *)
theory Lamia_Prelude
  imports
    Complex_Main
    "HOL-Library.Word"
    "HOL-Library.Multiset"
    "HOL-Library.Char_ord"
    "HOL-Library.List_Lexorder"
    "HOL-Library.Monad_Syntax"
begin

text \<open>
  The prelude of the development: the pieces of the C++ language and of its standard
  library that several components use, with the generic lemmas the component theories share.
  \<^item> \<open>outcome\<close>: what a C++ call can do, namely return, throw, or run into undefined behaviour;
  \<^item> the character classes of \<open><cctype>\<close> in the C locale, over the bytes of a \<open>std::string\<close>;
  \<^item> \<open>std::to_string\<close> on unsigned integers, \<open>std::string::find\<close>, \<open>std::getline\<close> on a string
    stream, \<open>std::vector\<close> insertion and removal by position.
  A \<open>std::string\<close> is a list of bytes, the type \<open>string\<close>; a \<open>std::size_t\<close> is a
  \<open>nat\<close> where the code cannot make it wrap, and a \<open>64 word\<close> where it can.
\<close>

named_theorems lamia_defs "unfolding equations of small accessors"

section \<open>Outcomes of C++ calls\<close>

datatype 'a outcome = Returns 'a | Throws string | Undefined string

fun outcome_bind :: "'a outcome \<Rightarrow> ('a \<Rightarrow> 'b outcome) \<Rightarrow> 'b outcome" where
  "outcome_bind (Returns x) f = f x"
| "outcome_bind (Throws m) f = Throws m"
| "outcome_bind (Undefined m) f = Undefined m"

lemma outcome_bind_Returns_iff [simp]:
  "outcome_bind m f = Returns y \<longleftrightarrow> (\<exists>x. m = Returns x \<and> f x = Returns y)"
  by (cases m) auto

lemma outcome_bind_cong [fundef_cong]:
  "m = m' \<Longrightarrow> (\<And>x. m' = Returns x \<Longrightarrow> f x = g x) \<Longrightarrow> outcome_bind m f = outcome_bind m' g"
  by (cases m') auto

declare Option.bind_cong [fundef_cong]

section \<open>Characters\<close>

abbreviation NUL :: char where "NUL \<equiv> CHR 0x00"
abbreviation tab :: char where "tab \<equiv> CHR 0x09"
abbreviation nl :: char where "nl \<equiv> CHR 0x0A"
abbreviation cr :: char where "cr \<equiv> CHR 0x0D"
abbreviation dquote :: char where "dquote \<equiv> CHR 0x22"
abbreviation squote :: char where "squote \<equiv> CHR 0x27"
abbreviation bslash :: char where "bslash \<equiv> CHR 0x5C"
abbreviation backtick :: char where "backtick \<equiv> CHR 0x60"

definition code :: "char \<Rightarrow> nat" where
  "code c = of_char c"

definition isspace :: "char \<Rightarrow> bool" where
  "isspace c \<longleftrightarrow> code c = 32 \<or> (9 \<le> code c \<and> code c \<le> 13)"

definition isdigit :: "char \<Rightarrow> bool" where
  "isdigit c \<longleftrightarrow> 48 \<le> code c \<and> code c \<le> 57"

definition isupper :: "char \<Rightarrow> bool" where
  "isupper c \<longleftrightarrow> 65 \<le> code c \<and> code c \<le> 90"

definition islower :: "char \<Rightarrow> bool" where
  "islower c \<longleftrightarrow> 97 \<le> code c \<and> code c \<le> 122"

definition isalpha :: "char \<Rightarrow> bool" where
  "isalpha c \<longleftrightarrow> isupper c \<or> islower c"

definition isalnum :: "char \<Rightarrow> bool" where
  "isalnum c \<longleftrightarrow> isalpha c \<or> isdigit c"

lemmas ctype_defs = isspace_def isdigit_def isupper_def islower_def isalpha_def isalnum_def code_def

lemma code_inject [simp]: "code a = code b \<longleftrightarrow> a = b"
  by (simp add: code_def)

lemma isspace_not_alnum: "isspace c \<Longrightarrow> \<not> isalnum c"
  by (auto simp: ctype_defs)

lemma isdigit_not_alpha: "isdigit c \<Longrightarrow> \<not> isalpha c"
  by (auto simp: ctype_defs)

section \<open>Decimal rendering of unsigned integers\<close>

definition digit_char :: "nat \<Rightarrow> char" where
  "digit_char d = char_of (48 + d)"

fun to_string_nat :: "nat \<Rightarrow> string" where
  "to_string_nat n = (if n < 10 then [digit_char n] else to_string_nat (n div 10) @ [digit_char (n mod 10)])"

declare to_string_nat.simps [simp del]

fun of_string_nat :: "nat \<Rightarrow> string \<Rightarrow> nat" where
  "of_string_nat a [] = a"
| "of_string_nat a (c # cs) = of_string_nat (10 * a + (code c - 48)) cs"

lemma code_digit_char: "d < 10 \<Longrightarrow> code (digit_char d) = 48 + d"
  by (simp add: code_def digit_char_def)

lemma of_string_nat_append: "of_string_nat a (xs @ ys) = of_string_nat (of_string_nat a xs) ys"
  by (induction xs arbitrary: a) auto

lemma of_string_to_string_nat [simp]: "of_string_nat 0 (to_string_nat n) = n"
proof (induction n rule: to_string_nat.induct)
  case (1 n)
  then show ?case
    by (cases "n < 10")
      (simp_all add: to_string_nat.simps[of n] of_string_nat_append code_digit_char)
qed

lemma to_string_nat_inject [simp]: "to_string_nat m = to_string_nat n \<longleftrightarrow> m = n"
  by (metis of_string_to_string_nat)

lemma to_string_nat_not_Nil [simp]: "to_string_nat n \<noteq> []"
  by (simp add: to_string_nat.simps[of n])

lemma isdigit_digit_char: "d < 10 \<Longrightarrow> isdigit (digit_char d)"
  by (simp add: isdigit_def code_digit_char)

lemma to_string_nat_digits: "c \<in> set (to_string_nat n) \<Longrightarrow> isdigit c"
proof (induction n arbitrary: c rule: to_string_nat.induct)
  case (1 n)
  then show ?case
    by (cases "n < 10") (auto simp: to_string_nat.simps[of n] isdigit_digit_char)
qed

section \<open>Searching in strings\<close>

text \<open>\<open>s.find(p, from)\<close>: the least position at or after \<open>from\<close> where \<open>p\<close> occurs.\<close>

fun starts_with :: "string \<Rightarrow> string \<Rightarrow> bool" where
  "starts_with [] s = True"
| "starts_with (p # ps) [] = False"
| "starts_with (p # ps) (c # cs) = (p = c \<and> starts_with ps cs)"

lemma starts_with_iff: "starts_with p s \<longleftrightarrow> (\<exists>t. s = p @ t)"
  by (induction p s rule: starts_with.induct) auto

fun find_here :: "string \<Rightarrow> string \<Rightarrow> nat option" where
  "find_here p [] = (if p = [] then Some 0 else None)"
| "find_here p (c # cs) = (if starts_with p (c # cs) then Some 0 else map_option Suc (find_here p cs))"

definition str_find :: "string \<Rightarrow> string \<Rightarrow> nat \<Rightarrow> nat option" where
  "str_find s p from = (if from \<le> length s then map_option ((+) from) (find_here p (drop from s)) else None)"

definition contains :: "string \<Rightarrow> string \<Rightarrow> bool" where
  "contains s p \<longleftrightarrow> str_find s p 0 \<noteq> None"

text \<open>\<open>s.substr(from, n)\<close> for \<open>from \<le> s.size()\<close>.\<close>

definition substr :: "string \<Rightarrow> nat \<Rightarrow> nat \<Rightarrow> string" where
  "substr s from n = take n (drop from s)"

lemma find_here_Some: "find_here p s = Some i \<Longrightarrow> i \<le> length s \<and> starts_with p (drop i s)"
proof (induction p s arbitrary: i rule: find_here.induct)
  case (1 p)
  then show ?case by (auto split: if_splits)
next
  case (2 p c cs)
  then show ?case by (auto split: if_splits)
qed

lemma find_here_None: "find_here p s = None \<Longrightarrow> \<not> starts_with p (drop i s) \<or> length s < i"
proof (induction p s arbitrary: i rule: find_here.induct)
  case (1 p)
  then show ?case by (cases p) (auto split: if_splits)
next
  case (2 p c cs)
  then show ?case by (cases i) (auto split: if_splits)
qed

lemma contains_iff: "contains s p \<longleftrightarrow> (\<exists>a b. s = a @ p @ b)"
proof
  assume "contains s p"
  then obtain i where "find_here p s = Some i"
    by (auto simp: contains_def str_find_def)
  then have "starts_with p (drop i s)" by (simp add: find_here_Some)
  then obtain t where "drop i s = p @ t" by (auto simp: starts_with_iff)
  then show "\<exists>a b. s = a @ p @ b" by (metis append_take_drop_id)
next
  assume "\<exists>a b. s = a @ p @ b"
  then obtain a b where s: "s = a @ p @ b" by blast
  then have "starts_with p (drop (length a) s)" "\<not> length s < length a"
    by (auto simp: starts_with_iff)
  then show "contains s p"
    using find_here_None [of p s "length a"]
    by (auto simp: contains_def str_find_def)
qed

section \<open>Lines\<close>

text \<open>The loop \<open>while (std::getline(iss, line))\<close> over a string: the pieces between newlines, with
  no last piece when the string ends with a newline or is empty.\<close>

fun getlines :: "string \<Rightarrow> string \<Rightarrow> string list" where
  "getlines cur [] = (if cur = [] then [] else [cur])"
| "getlines cur (c # cs) = (if c = nl then cur # getlines [] cs else getlines (cur @ [c]) cs)"

abbreviation lines_of :: "string \<Rightarrow> string list" where
  "lines_of s \<equiv> getlines [] s"

section \<open>Vectors\<close>

definition insert_at :: "nat \<Rightarrow> 'a \<Rightarrow> 'a list \<Rightarrow> 'a list" where
  "insert_at i x xs = take i xs @ x # drop i xs"

definition remove_at :: "nat \<Rightarrow> 'a list \<Rightarrow> 'a list" where
  "remove_at i xs = take i xs @ drop (Suc i) xs"

fun find_index :: "('a \<Rightarrow> bool) \<Rightarrow> 'a list \<Rightarrow> nat option" where
  "find_index P [] = None"
| "find_index P (x # xs) = (if P x then Some 0 else map_option Suc (find_index P xs))"

lemma find_index_SomeD: "find_index P xs = Some i \<Longrightarrow> i < length xs \<and> P (xs ! i) \<and> (\<forall>j<i. \<not> P (xs ! j))"
proof (induction xs arbitrary: i)
  case Nil
  then show ?case by simp
next
  case (Cons x xs)
  show ?case
  proof (cases "P x")
    case True
    with Cons.prems show ?thesis by auto
  next
    case False
    with Cons.prems obtain k where "find_index P xs = Some k" "i = Suc k" by auto
    with Cons.IH [of k] False show ?thesis by (auto simp: nth_Cons split: nat.split)
  qed
qed

lemma find_index_None_iff: "find_index P xs = None \<longleftrightarrow> (\<forall>x\<in>set xs. \<not> P x)"
  by (induction xs) auto

lemma length_insert_at [simp]: "length (insert_at i x xs) = Suc (length xs)"
  by (simp add: insert_at_def)

lemma length_remove_at [simp]: "i < length xs \<Longrightarrow> length (remove_at i xs) = length xs - 1"
  by (simp add: remove_at_def)

lemma mset_insert_at [simp]: "mset (insert_at i x xs) = add_mset x (mset xs)"
proof -
  have "mset (take i xs) + mset (drop i xs) = mset xs"
    by (metis append_take_drop_id mset_append)
  then show ?thesis by (simp add: insert_at_def)
qed

lemma set_insert_at [simp]: "set (insert_at i x xs) = insert x (set xs)"
  by (metis mset_insert_at set_mset_add_mset_insert set_mset_mset)

lemma mset_remove_at: "i < length xs \<Longrightarrow> mset (remove_at i xs) = mset xs - {#xs ! i#}"
proof -
  assume i: "i < length xs"
  have "mset xs = mset (take i xs @ xs ! i # drop (Suc i) xs)"
    using i by (simp add: id_take_nth_drop [symmetric])
  then show ?thesis by (simp add: remove_at_def)
qed

lemma distinct_remove_at: "i < length xs \<Longrightarrow> distinct xs \<Longrightarrow> distinct (remove_at i xs)"
  by (simp add: remove_at_def set_take_disj_set_drop_if_distinct)

lemma set_remove_at: "i < length xs \<Longrightarrow> distinct xs \<Longrightarrow> set (remove_at i xs) = set xs - {xs ! i}"
proof -
  assume i: "i < length xs" and d: "distinct xs"
  then have "count (mset xs) (xs ! i) = 1"
    by (simp add: distinct_count_atmost_1)
  with i d have "set_mset (mset (remove_at i xs)) = set_mset (mset xs) - {xs ! i}"
    by (auto simp: mset_remove_at set_mset_def count_greater_zero_iff
        distinct_count_atmost_1 split: if_splits)
  then show ?thesis by simp
qed

lemma insert_at_remove_at_nth:
  "i < length xs \<Longrightarrow> j < length xs \<Longrightarrow> insert_at j x (remove_at i xs) ! j = x"
  by (simp add: insert_at_def nth_append)

section \<open>Durations\<close>

text \<open>\<open>duration_cast\<close> to a coarser unit and a comparison with a limit.\<close>

lemma le_div_iff_mult_le: "0 < h \<Longrightarrow> n \<le> x div h \<longleftrightarrow> n * h \<le> (x :: int)"
proof
  assume "0 < h" "n \<le> x div h"
  then have "n * h \<le> (x div h) * h" by simp
  also have "\<dots> \<le> x" using \<open>0 < h\<close> by (simp add: minus_mod_eq_div_mult [symmetric])
  finally show "n * h \<le> x" .
next
  assume "0 < h" "n * h \<le> x"
  then have "n * h div h \<le> x div h" by (intro zdiv_mono1)
  then show "n \<le> x div h" using \<open>0 < h\<close> by simp
qed

section \<open>Loops\<close>

text \<open>The interface of a model loop: \<open>run\<close> repeats \<open>step\<close> until \<open>fin\<close>, and each round
  decreases \<open>rest\<close>. Every loop of the development written as a recursive function over a state is
  an instance; the client gets that the loop ends, and the invariant rule.\<close>

locale loop =
  fixes step :: "'s \<Rightarrow> 's" and run :: "'s \<Rightarrow> 's" and fin :: "'s \<Rightarrow> bool" and rest :: "'s \<Rightarrow> nat"
  assumes run_unfold: "run s = (if fin s then s else run (step s))"
    and progress: "\<not> fin s \<Longrightarrow> rest (step s) < rest s"
begin

lemma run_ends: "fin (run s)"
proof (induction "rest s" arbitrary: s rule: less_induct)
  case less
  then show ?case by (cases "fin s") (auto simp: run_unfold [of s] progress)
qed

lemma run_invariant:
  assumes "I s" and "\<And>s. I s \<Longrightarrow> \<not> fin s \<Longrightarrow> I (step s)"
  shows "I (run s)"
  using assms(1)
proof (induction "rest s" arbitrary: s rule: less_induct)
  case less
  then show ?case by (cases "fin s") (auto simp: run_unfold [of s] progress assms(2))
qed

lemma run_rounds: "\<exists>n \<le> rest s. run s = (step ^^ n) s"
proof (induction "rest s" arbitrary: s rule: less_induct)
  case less
  show ?case
  proof (cases "fin s")
    case True
    then have "run s = (step ^^ 0) s" by (simp add: run_unfold [of s])
    then show ?thesis by blast
  next
    case False
    with less progress obtain n where "n \<le> rest (step s)" "run (step s) = (step ^^ n) (step s)"
      by blast
    with False progress [of s] have "Suc n \<le> rest s" "run s = (step ^^ Suc n) s"
      by (auto simp: run_unfold [of s] funpow_swap1)
    then show ?thesis by blast
  qed
qed

end

section \<open>Sessions\<close>

text \<open>The interface of a component driven by a list of operations: the operations allowed by \<open>ok\<close> keep
  \<open>inv\<close>, so every session of them does.\<close>

locale session =
  fixes step :: "'e \<Rightarrow> 's \<Rightarrow> 's" and ok :: "'e \<Rightarrow> bool" and inv :: "'s \<Rightarrow> bool"
  assumes inv_step: "ok e \<Longrightarrow> inv s \<Longrightarrow> inv (step e s)"
begin

lemma inv_run: "inv s \<Longrightarrow> \<forall>e\<in>set es. ok e \<Longrightarrow> inv (fold step es s)"
  by (induction es arbitrary: s) (simp_all add: inv_step)

end

text \<open>The answers to a list of operations, and when a component gives those of a simpler one.\<close>

fun answers :: "('o \<Rightarrow> 's \<Rightarrow> 'a \<times> 's) \<Rightarrow> 'o list \<Rightarrow> 's \<Rightarrow> 'a list" where
  "answers step [] s = []"
| "answers step (e # es) s = fst (step e s) # answers step es (snd (step e s))"

locale simulation =
  fixes step :: "'o \<Rightarrow> 's \<Rightarrow> 'a \<times> 's" and spec :: "'o \<Rightarrow> 'm \<Rightarrow> 'a \<times> 'm"
    and ok :: "'o \<Rightarrow> bool" and rel :: "'s \<Rightarrow> 'm \<Rightarrow> bool"
  assumes same_answer: "rel s m \<Longrightarrow> ok e \<Longrightarrow> fst (step e s) = fst (spec e m)"
    and rel_step: "rel s m \<Longrightarrow> ok e \<Longrightarrow> rel (snd (step e s)) (snd (spec e m))"
begin

lemma same_answers: "rel s m \<Longrightarrow> \<forall>e\<in>set es. ok e \<Longrightarrow> answers step es s = answers spec es m"
  by (induction es arbitrary: s m) (simp_all add: same_answer rel_step)

end

end
