(* ===== verification/Lamia_Core.thy ===== *)
theory Lamia_Core
  imports Lamia_Prelude
begin

text \<open>
  The base module of the language, \<open>src/language/lamia.core.cppm\<close>: the fixed-capacity \<open>Error\<close>,
  the move-only tagged union \<open>Result\<close>, the block allocator \<open>MemoryPool\<close> and the
  initialisation flag. Each class is a record of its data members and each member
  function takes the object and returns the object after the call. The heap is a
  parameter: \<open>alloc i\<close> is the address of the storage of the \<open>i\<close>-th block of a pool.
\<close>

section \<open>Error\<close>

definition message_capacity :: nat where
  "message_capacity = 256"

record Error =
  ecode :: int
  message :: "char list"

definition Error_default :: Error where
  "Error_default = \<lparr>ecode = 0, message = replicate message_capacity NUL\<rparr>"

text \<open>The copying loop of \<open>set_message\<close>: \<open>i\<close> runs over the buffer and the list over the
  bytes of the C string, whose end is its terminator.\<close>

fun set_message_loop :: "char list \<Rightarrow> nat \<Rightarrow> string \<Rightarrow> char list" where
  "set_message_loop buf i [] = buf[i := NUL]"
| "set_message_loop buf i (c # cs) =
     (if i < message_capacity - 1 \<and> c \<noteq> NUL then set_message_loop (buf[i := c]) (i + 1) cs
      else buf[i := NUL])"

definition set_message :: "Error \<Rightarrow> string option \<Rightarrow> Error" where
  "set_message e msg =
     (case msg of
        None \<Rightarrow> e\<lparr>message := (message e)[0 := NUL]\<rparr>
      | Some m \<Rightarrow> e\<lparr>message := set_message_loop (message e) 0 m\<rparr>)"

definition Error_new :: "int \<Rightarrow> string option \<Rightarrow> Error" where
  "Error_new c msg = set_message (Error_default\<lparr>ecode := c\<rparr>) msg"

definition Error_ok :: "Error \<Rightarrow> bool" where
  "Error_ok e \<longleftrightarrow> ecode e = 0"

text \<open>What a reader of the buffer as a C string sees.\<close>

definition c_str :: "char list \<Rightarrow> string" where
  "c_str buf = takeWhile (\<lambda>c. c \<noteq> NUL) buf"

lemma length_set_message_loop [simp]: "length (set_message_loop buf i m) = length buf"
  by (induction buf i m rule: set_message_loop.induct) auto

lemma take_list_update_ge: "i \<le> j \<Longrightarrow> take i (xs[j := x]) = take i xs"
  by (simp add: take_update_cancel)

lemma c_str_update_NUL:
  "NUL \<notin> set (take i buf) \<Longrightarrow> i < length buf \<Longrightarrow> c_str (buf[i := NUL]) = take i buf"
proof -
  assume a: "NUL \<notin> set (take i buf)" and i: "i < length buf"
  have "buf[i := NUL] = take i buf @ NUL # drop (Suc i) buf"
    by (rule upd_conv_take_nth_drop [OF i])
  moreover have "takeWhile (\<lambda>c. c \<noteq> NUL) (take i buf @ NUL # drop (Suc i) buf) = take i buf"
    using a by (subst takeWhile_append2) auto
  ultimately show ?thesis by (simp add: c_str_def)
qed

lemma c_str_set_message_loop:
  assumes "length buf = message_capacity" "i \<le> message_capacity - 1" "NUL \<notin> set (take i buf)"
  shows "c_str (set_message_loop buf i m) = take i buf @ take (message_capacity - 1 - i) (c_str m)"
  using assms
proof (induction buf i m rule: set_message_loop.induct)
  case (1 buf i)
  then have "c_str (set_message_loop buf i []) = take i buf"
    by (simp add: c_str_update_NUL message_capacity_def)
  then show ?case by (simp add: c_str_def)
next
  case (2 buf i c cs)
  show ?case
  proof (cases "i < message_capacity - 1 \<and> c \<noteq> NUL")
    case True
    let ?b = "buf[i := c]"
    have len: "i < length buf" using True 2 by (simp add: message_capacity_def)
    have t: "take (Suc i) ?b = take i buf @ [c]"
      using len by (simp add: take_Suc_conv_app_nth)
    have n: "NUL \<notin> set (take (i + 1) ?b)" using t True 2 by auto
    have "c_str (set_message_loop ?b (i + 1) cs)
        = take (i + 1) ?b @ take (message_capacity - 1 - (i + 1)) (c_str cs)"
      using 2 True n by (intro "2.IH") auto
    moreover have "take (message_capacity - 1 - i) (c_str (c # cs))
        = c # take (message_capacity - 1 - (i + 1)) (c_str cs)"
      using True by (auto simp: c_str_def take_Cons' Suc_diff_Suc)
    ultimately show ?thesis using True t by simp
  next
    case False
    have "take (message_capacity - 1 - i) (c_str (c # cs)) = []"
      using False 2 by (auto simp: c_str_def)
    moreover have "set_message_loop buf i (c # cs) = buf[i := NUL]"
      using False by auto
    ultimately show ?thesis using 2 by (simp add: c_str_update_NUL message_capacity_def)
  qed
qed

lemma length_message_Error_new [simp]: "length (message (Error_new c msg)) = message_capacity"
  by (simp add: Error_new_def set_message_def Error_default_def split: option.split)

lemma ecode_Error_new [simp]: "ecode (Error_new c msg) = c"
  by (simp add: Error_new_def set_message_def Error_default_def split: option.split)

lemma Error_new_message:
  "c_str (message (Error_new c (Some m))) = take (message_capacity - 1) (c_str m)"
  by (simp add: Error_new_def set_message_def Error_default_def c_str_set_message_loop)

text \<open>Building an error never writes outside its 256-byte buffer and always leaves a
  terminated C string: the first 255 bytes of the message up to its own terminator.\<close>

theorem error_message_truncated:
  "length (message (Error_new c (Some m))) = message_capacity
   \<and> NUL \<in> set (message (Error_new c (Some m)))
   \<and> c_str (message (Error_new c (Some m))) = take (message_capacity - 1) (c_str m)"
proof -
  let ?b = "message (Error_new c (Some m))"
  have "length (c_str ?b) < length ?b"
    by (simp add: Error_new_message message_capacity_def)
  moreover have "c_str ?b = ?b" if "NUL \<notin> set ?b"
    unfolding c_str_def using that by (intro takeWhile_eq_all_conv [THEN iffD2]) auto
  ultimately have "NUL \<in> set ?b" by force
  then show ?thesis by (simp add: Error_new_message)
qed

section \<open>Result\<close>

text \<open>The union of \<open>Result\<close> holds a live value, a live error, or nothing; reading the member that
  is not live is undefined behaviour.\<close>

record ('t, 'e) Result =
  r_is_ok :: bool
  r_active :: bool
  r_slot :: "('e + 't) option"

definition Result_default :: "('t, 'e) Result" where
  "Result_default = \<lparr>r_is_ok = True, r_active = False, r_slot = None\<rparr>"

definition Result_ok :: "'t \<Rightarrow> ('t, 'e) Result" where
  "Result_ok v = \<lparr>r_is_ok = True, r_active = True, r_slot = Some (Inr v)\<rparr>"

definition Result_err :: "'e \<Rightarrow> ('t, 'e) Result" where
  "Result_err e = \<lparr>r_is_ok = False, r_active = True, r_slot = Some (Inl e)\<rparr>"

definition Result_destroy :: "('t, 'e) Result \<Rightarrow> ('t, 'e) Result" where
  "Result_destroy r = (if \<not> r_active r then r else r\<lparr>r_slot := None, r_active := False\<rparr>)"

text \<open>The move constructor: the new object and what is left of the other.\<close>

definition Result_move :: "('t, 'e) Result \<Rightarrow> ('t, 'e) Result \<times> ('t, 'e) Result" where
  "Result_move other =
     (if r_active other
      then (\<lparr>r_is_ok = r_is_ok other, r_active = True, r_slot = r_slot other\<rparr>,
            other\<lparr>r_slot := None, r_active := False\<rparr>)
      else (\<lparr>r_is_ok = r_is_ok other, r_active = False, r_slot = None\<rparr>, other))"

text \<open>Move assignment between two distinct objects; assigning an object to itself does nothing.\<close>

definition Result_move_assign ::
  "('t, 'e) Result \<Rightarrow> ('t, 'e) Result \<Rightarrow> ('t, 'e) Result \<times> ('t, 'e) Result" where
  "Result_move_assign this other =
     (let this1 = Result_destroy this;
          this2 = this1\<lparr>r_is_ok := r_is_ok other, r_active := r_active other\<rparr>
      in if r_active this2
         then (this2\<lparr>r_slot := r_slot other\<rparr>, other\<lparr>r_slot := None, r_active := False\<rparr>)
         else (this2, other))"

definition Result_is_err :: "('t, 'e) Result \<Rightarrow> bool" where
  "Result_is_err r \<longleftrightarrow> \<not> r_is_ok r"

definition Result_value :: "('t, 'e) Result \<Rightarrow> 't outcome" where
  "Result_value r = (case r_slot r of Some (Inr v) \<Rightarrow> Returns v | _ \<Rightarrow> Undefined ''read of a dead union member'')"

definition Result_error :: "('t, 'e) Result \<Rightarrow> 'e outcome" where
  "Result_error r = (case r_slot r of Some (Inl e) \<Rightarrow> Returns e | _ \<Rightarrow> Undefined ''read of a dead union member'')"

definition Result_unwrap_or :: "('t, 'e) Result \<Rightarrow> 't \<Rightarrow> 't outcome" where
  "Result_unwrap_or r d = (if r_active r \<and> r_is_ok r then Result_value r else Returns d)"

text \<open>The invariant: an active result holds exactly the member its flag names, an inactive one
  holds nothing.\<close>

definition Result_wf :: "('t, 'e) Result \<Rightarrow> bool" where
  "Result_wf r \<longleftrightarrow>
     (if r_active r then (if r_is_ok r then \<exists>v. r_slot r = Some (Inr v) else \<exists>e. r_slot r = Some (Inl e))
      else r_slot r = None)"

lemmas Result_defs =
  Result_default_def Result_ok_def Result_err_def Result_destroy_def Result_move_def
  Result_move_assign_def Result_value_def Result_error_def Result_unwrap_or_def Result_wf_def

lemma Result_wf_new: "Result_wf Result_default" "Result_wf (Result_ok v)" "Result_wf (Result_err e)"
  by (simp_all add: Result_defs)

lemma Result_wf_move:
  assumes "Result_wf r" and "Result_move r = (new, old)"
  shows "Result_wf new \<and> Result_wf old \<and> \<not> r_active old \<and> r_slot new = r_slot r"
  using assms by (auto simp: Result_defs split: if_splits)

lemma Result_wf_move_assign:
  assumes "Result_wf this" "Result_wf r" and "Result_move_assign this r = (new, old)"
  shows "Result_wf new \<and> Result_wf old \<and> \<not> r_active old \<and> r_slot new = r_slot r"
  using assms by (auto simp: Result_defs Let_def split: if_splits)

text \<open>The specialisation \<open>Result<void, E>\<close>.\<close>

record 'e VResult =
  v_is_err :: bool
  v_active :: bool
  v_slot :: "'e option"

definition VResult_ok :: "'e VResult" where
  "VResult_ok = \<lparr>v_is_err = False, v_active = True, v_slot = None\<rparr>"

definition VResult_err :: "'e \<Rightarrow> 'e VResult" where
  "VResult_err e = \<lparr>v_is_err = True, v_active = True, v_slot = Some e\<rparr>"

definition VResult_move :: "'e VResult \<Rightarrow> 'e VResult \<times> 'e VResult" where
  "VResult_move other =
     (if v_active other \<and> v_is_err other
      then (\<lparr>v_is_err = v_is_err other, v_active = v_active other, v_slot = v_slot other\<rparr>,
            other\<lparr>v_slot := None, v_active := False\<rparr>)
      else (\<lparr>v_is_err = v_is_err other, v_active = v_active other, v_slot = None\<rparr>, other))"

definition VResult_is_ok :: "'e VResult \<Rightarrow> bool" where
  "VResult_is_ok r \<longleftrightarrow> \<not> v_is_err r"

lemma VResult_is_ok_simps [simp]: "VResult_is_ok VResult_ok" "\<not> VResult_is_ok (VResult_err e)"
  by (simp_all add: VResult_is_ok_def VResult_ok_def VResult_err_def)

section \<open>MemoryPool\<close>

text \<open>A pointer is an address, and address 0 is \<open>nullptr\<close>.\<close>

type_synonym ptr = nat

record MemoryPool =
  block_size :: nat
  block_count :: nat
  used :: "64 word"
  blocks :: "ptr list"
  free_list :: "ptr list"

text \<open>The constructor's loop from block \<open>i\<close> on.\<close>

fun pool_fill :: "(nat \<Rightarrow> ptr) \<Rightarrow> nat \<Rightarrow> nat \<Rightarrow> MemoryPool \<Rightarrow> MemoryPool" where
  "pool_fill alloc i 0 p = p"
| "pool_fill alloc i (Suc k) p =
     pool_fill alloc (i + 1) k
       (p\<lparr>blocks := blocks p @ [alloc i], free_list := free_list p @ [alloc i]\<rparr>)"

definition MemoryPool_new :: "(nat \<Rightarrow> ptr) \<Rightarrow> nat \<Rightarrow> nat \<Rightarrow> MemoryPool" where
  "MemoryPool_new alloc bsize bcount =
     pool_fill alloc 0 bcount
       \<lparr>block_size = bsize, block_count = bcount, used = 0, blocks = [], free_list = []\<rparr>"

definition allocate :: "MemoryPool \<Rightarrow> ptr \<times> MemoryPool" where
  "allocate p =
     (if free_list p = [] then (0, p)
      else (last (free_list p), p\<lparr>free_list := butlast (free_list p), used := used p + 1\<rparr>))"

definition deallocate :: "ptr \<Rightarrow> MemoryPool \<Rightarrow> MemoryPool" where
  "deallocate q p =
     (if q = 0 then p else p\<lparr>free_list := free_list p @ [q], used := used p - 1\<rparr>)"

lemma pool_fill_fields:
  "free_list (pool_fill alloc i k p) = free_list p @ map alloc [i..<i + k]"
  "blocks (pool_fill alloc i k p) = blocks p @ map alloc [i..<i + k]"
  "used (pool_fill alloc i k p) = used p"
  "block_count (pool_fill alloc i k p) = block_count p"
  by (induction alloc i k p rule: pool_fill.induct) (simp_all add: upt_conv_Cons del: upt_Suc)

lemma MemoryPool_new_fields:
  "free_list (MemoryPool_new alloc s n) = map alloc [0..<n]"
  "blocks (MemoryPool_new alloc s n) = map alloc [0..<n]"
  "used (MemoryPool_new alloc s n) = 0"
  "block_count (MemoryPool_new alloc s n) = n"
  by (simp_all add: MemoryPool_new_def pool_fill_fields)

text \<open>A client that obeys the contract: it hands back only pointers it holds. The second component
  lists the pointers it holds.\<close>

inductive pool_run :: "(nat \<Rightarrow> ptr) \<Rightarrow> nat \<Rightarrow> nat \<Rightarrow> MemoryPool \<Rightarrow> ptr list \<Rightarrow> bool"
  for alloc :: "nat \<Rightarrow> ptr" and s :: nat and n :: nat where
  run_new: "pool_run alloc s n (MemoryPool_new alloc s n) []"
| run_alloc: "pool_run alloc s n p held \<Longrightarrow> allocate p = (q, p') \<Longrightarrow> q \<noteq> 0 \<Longrightarrow>
    pool_run alloc s n p' (q # held)"
| run_fail: "pool_run alloc s n p held \<Longrightarrow> allocate p = (0, p') \<Longrightarrow> pool_run alloc s n p' held"
| run_free: "pool_run alloc s n p held \<Longrightarrow> q \<in> set held \<Longrightarrow>
    pool_run alloc s n (deallocate q p) (remove1 q held)"
| run_free_null: "pool_run alloc s n p held \<Longrightarrow> pool_run alloc s n (deallocate 0 p) held"

definition pool_inv :: "(nat \<Rightarrow> ptr) \<Rightarrow> nat \<Rightarrow> MemoryPool \<Rightarrow> ptr list \<Rightarrow> bool" where
  "pool_inv alloc n p held \<longleftrightarrow>
     mset held + mset (free_list p) = mset (map alloc [0..<n]) \<and> used p = of_nat (length held)"

lemma pool_inv_allocate:
  assumes "pool_inv alloc n p held" "free_list p \<noteq> []"
  shows "pool_inv alloc n (snd (allocate p)) (fst (allocate p) # held)"
proof -
  have "mset (free_list p) = add_mset (last (free_list p)) (mset (butlast (free_list p)))"
    using assms(2) by (cases "free_list p" rule: rev_cases) auto
  then show ?thesis
    using assms by (auto simp: pool_inv_def allocate_def)
qed

lemma pool_inv_deallocate:
  assumes "pool_inv alloc n p held" "q \<in> set held" "q \<noteq> 0"
  shows "pool_inv alloc n (deallocate q p) (remove1 q held)"
proof -
  obtain k where "mset held = add_mset q (mset k)" and k: "k = remove1 q held"
    using assms(2) by simp
  moreover from this have "length held = Suc (length k)"
    by (metis size_add_mset size_mset)
  ultimately show ?thesis
    using assms(1,3) unfolding k [symmetric] by (simp add: pool_inv_def deallocate_def)
qed

lemma pool_inv_addresses:
  assumes "pool_inv alloc n p held" "q \<in> set (held @ free_list p)"
  shows "q \<in> alloc ` {0..<n}"
proof -
  have "mset (held @ free_list p) = mset (map alloc [0..<n])"
    using assms(1) by (simp add: pool_inv_def)
  then have "set (held @ free_list p) = set (map alloc [0..<n])"
    by (rule mset_eq_setD)
  with assms(2) show ?thesis by (metis set_map set_upt)
qed

lemma pool_run_inv:
  assumes "pool_run alloc s n p held" and nz: "\<And>i. i < n \<Longrightarrow> alloc i \<noteq> 0"
  shows "pool_inv alloc n p held"
  using assms(1)
proof (induction rule: pool_run.induct)
  case run_new
  then show ?case by (simp add: pool_inv_def MemoryPool_new_fields)
next
  case (run_alloc p held q p')
  then have "free_list p \<noteq> []" by (auto simp: allocate_def split: if_splits)
  with run_alloc pool_inv_allocate [of alloc n p held] show ?case by simp
next
  case (run_fail p held p')
  show ?case
  proof (cases "free_list p = []")
    case True
    with run_fail show ?thesis by (simp add: allocate_def)
  next
    case False
    then have "last (free_list p) \<in> alloc ` {0..<n}"
      using run_fail.IH by (intro pool_inv_addresses [of alloc n p held]) auto
    with nz have "last (free_list p) \<noteq> 0" by auto
    with run_fail False show ?thesis by (simp add: allocate_def)
  qed
next
  case (run_free p held q)
  have "q \<in> alloc ` {0..<n}"
    using run_free by (intro pool_inv_addresses [of alloc n p held]) auto
  with nz have "q \<noteq> 0" by auto
  with run_free show ?case by (simp add: pool_inv_deallocate)
next
  case (run_free_null p held)
  then show ?case by (simp add: deallocate_def)
qed

lemma pool_inv_length:
  "pool_inv alloc n p held \<Longrightarrow> length held + length (free_list p) = n"
  by (metis diff_zero length_map length_upt pool_inv_def size_mset size_union)

lemma pool_inv_distinct:
  assumes "pool_inv alloc n p held" "inj_on alloc {..<n}"
  shows "distinct (held @ free_list p)"
proof -
  have "distinct (map alloc [0..<n])"
    using assms(2) by (simp add: distinct_map lessThan_atLeast0)
  moreover have "mset (held @ free_list p) = mset (map alloc [0..<n])"
    using assms(1) by (simp add: pool_inv_def)
  ultimately show ?thesis
    using mset_eq_imp_distinct_iff by blast
qed

text \<open>C6. A contract-obeying client of a pool whose blocks have distinct, non-null addresses never
  gets a block twice: the blocks it holds and the free ones are distinct, \<open>used\<close> counts what it
  holds, and \<open>allocate\<close> fails exactly when it holds all \<open>n\<close> blocks and otherwise returns one it
  does not hold.\<close>

theorem pool_hands_out_fresh_blocks:
  assumes "pool_run alloc s n p held"
    and "inj_on alloc {..<n}" and "\<And>i. i < n \<Longrightarrow> alloc i \<noteq> 0"
  shows "distinct (held @ free_list p) \<and> used p = of_nat (length held) \<and> length held \<le> n
    \<and> (fst (allocate p) = 0 \<longleftrightarrow> length held = n) \<and> fst (allocate p) \<notin> set held"
proof -
  have inv: "pool_inv alloc n p held" using assms(1,3) by (rule pool_run_inv)
  have d: "distinct (held @ free_list p)" using inv assms(2) by (rule pool_inv_distinct)
  have l: "length held + length (free_list p) = n" using inv by (rule pool_inv_length)
  have nz: "q \<noteq> 0" if "q \<in> set (held @ free_list p)" for q
    using pool_inv_addresses [OF inv that] assms(3) by auto
  show ?thesis
  proof (cases "free_list p = []")
    case True
    then show ?thesis using d l nz [of 0] inv by (auto simp: allocate_def pool_inv_def)
  next
    case False
    then have "last (free_list p) \<in> set (free_list p)" by simp
    with False d l nz [of "last (free_list p)"] inv show ?thesis
      by (auto simp: allocate_def pool_inv_def)
  qed
qed

theorem pool_hands_out_fresh_blocks_witness:
  "distinct ([20, 10] @ free_list (snd (allocate (snd (allocate (MemoryPool_new (\<lambda>i. 10 + 10 * i) 16 2))))))"
proof -
  let ?a = "\<lambda>i. 10 + 10 * i :: nat"
  let ?p = "MemoryPool_new ?a 16 2"
  have "pool_run ?a 16 2 (snd (allocate ?p)) [20]"
    by (rule run_alloc [OF run_new]) (simp_all add: allocate_def MemoryPool_new_def numeral_2_eq_2)
  then have "pool_run ?a 16 2 (snd (allocate (snd (allocate ?p)))) [10, 20]"
    by (rule run_alloc) (simp_all add: allocate_def MemoryPool_new_def numeral_2_eq_2)
  then show ?thesis
    using pool_hands_out_fresh_blocks [of ?a 16 2 "snd (allocate (snd (allocate ?p)))" "[10, 20]"]
    by (auto simp: inj_on_def)
qed

text \<open>Nothing in the pool stops a client that breaks the contract: after a second
  \<open>deallocate\<close> of the same pointer two callers are given the same block.\<close>

lemma pool_double_free_aliases:
  assumes "q \<noteq> 0"
  shows "fst (allocate (deallocate q (deallocate q p))) = q
    \<and> fst (allocate (snd (allocate (deallocate q (deallocate q p))))) = q"
  using assms by (simp add: allocate_def deallocate_def butlast_append)

lemma pool_foreign_free_wraps:
  assumes "q \<noteq> 0"
  shows "used (deallocate q (MemoryPool_new alloc s n)) = - 1"
  using assms by (simp add: deallocate_def MemoryPool_new_fields)

section \<open>Core runtime\<close>

definition core_initialize :: "bool \<Rightarrow> bool \<times> bool" where
  "core_initialize flag = (if flag then (True, flag) else (True, True))"

definition core_shutdown :: "bool \<Rightarrow> bool" where
  "core_shutdown flag = False"

definition get_version :: string where
  "get_version = ''0.5.0''"

end
