(* ===== verification/Lamia_Lexer.thy ===== *)
theory Lamia_Lexer
  imports Lamia_Core
begin

text \<open>
  The lexer of the language, class \<open>Lexer\<close> of \<open>src/language/lamia.compiler.cppm\<close>. The record
  \<open>Lexer\<close> holds its data members; \<open>lex_step\<close> is the body of the outer loop of \<open>tokenize\<close>, and the
  inner loops are functions of their own. The lemmas show that every loop ends, that the line
  and column counters always name the current offset, and that the tokens lie at increasing
  offsets of the source whose text they carry.
\<close>

section \<open>Tokens\<close>

datatype TokenType =
    T_Manifest | T_Create | T_Identifier | T_String | T_Number
  | T_Lbrace | T_Rbrace | T_Semicolon | T_Colon | T_Comma | T_Arrow | T_At
  | T_Lbracket | T_Rbracket | T_Newline | T_EndOfFile

datatype Token = Token (tk_type: TokenType) (tk_value: string) (tk_line: nat) (tk_column: nat)

section \<open>The lexer and its cursor\<close>

record Lexer =
  source :: string
  lx_tokens :: "Token list"
  lx_pos :: nat
  lx_line :: nat
  lx_column :: nat

definition Lexer_new :: "string \<Rightarrow> Lexer" where
  "Lexer_new src = \<lparr>source = src, lx_tokens = [], lx_pos = 0, lx_line = 1, lx_column = 1\<rparr>"

definition lx_at_end :: "Lexer \<Rightarrow> bool" where
  "lx_at_end l \<longleftrightarrow> length (source l) \<le> lx_pos l"

definition lx_peek :: "Lexer \<Rightarrow> char" where
  "lx_peek l = (if lx_pos l + 1 < length (source l) then source l ! (lx_pos l + 1) else NUL)"

text \<open>The character under the cursor, read only when the cursor is not at the end.\<close>

abbreviation lx_cur :: "Lexer \<Rightarrow> char" where
  "lx_cur l \<equiv> source l ! lx_pos l"

text \<open>The state after \<open>advance()\<close>; no caller uses the character it returns.\<close>

definition lx_advance :: "Lexer \<Rightarrow> Lexer" where
  "lx_advance l =
     (if lx_at_end l then l
      else if lx_cur l = nl
      then l\<lparr>lx_pos := lx_pos l + 1, lx_line := lx_line l + 1, lx_column := 1\<rparr>
      else l\<lparr>lx_pos := lx_pos l + 1, lx_column := lx_column l + 1\<rparr>)"

definition push_token :: "TokenType \<Rightarrow> string \<Rightarrow> nat \<Rightarrow> nat \<Rightarrow> Lexer \<Rightarrow> Lexer" where
  "push_token ty v n col l = l\<lparr>lx_tokens := lx_tokens l @ [Token ty v n col]\<rparr>"

definition left :: "Lexer \<Rightarrow> nat" where
  "left l = length (source l) - lx_pos l"

lemma left_advance: "\<not> lx_at_end l \<Longrightarrow> left (lx_advance l) < left l"
  by (auto simp: left_def lx_advance_def lx_at_end_def)

lemma source_advance [simp]: "source (lx_advance l) = source l"
  by (simp add: lx_advance_def)

lemma tokens_advance [simp]: "lx_tokens (lx_advance l) = lx_tokens l"
  by (simp add: lx_advance_def)

lemma pos_advance: "lx_pos (lx_advance l) = (if lx_at_end l then lx_pos l else Suc (lx_pos l))"
  by (simp add: lx_advance_def)

section \<open>The inner loops\<close>

text \<open>\<open>while (!at_end() && P(source_[pos_])) v += source_[pos_], advance();\<close>\<close>

function scan_while :: "(char \<Rightarrow> bool) \<Rightarrow> string \<Rightarrow> Lexer \<Rightarrow> string \<times> Lexer" where
  "scan_while P v l =
     (if \<not> lx_at_end l \<and> P (lx_cur l) then scan_while P (v @ [lx_cur l]) (lx_advance l) else (v, l))"
  by pat_completeness auto
termination by (relation "measure (\<lambda>(P, v, l). left l)") (auto simp: left_advance)

declare scan_while.simps [simp del]

definition skip_whitespace :: "Lexer \<Rightarrow> Lexer" where
  "skip_whitespace l = snd (scan_while (\<lambda>c. isspace c \<and> c \<noteq> nl) [] l)"

definition skip_line_comment :: "Lexer \<Rightarrow> Lexer" where
  "skip_line_comment l = snd (scan_while (\<lambda>c. c \<noteq> nl) [] l)"

function block_comment_loop :: "Lexer \<Rightarrow> Lexer" where
  "block_comment_loop l =
     (if lx_pos l + 1 < length (source l) \<and> \<not> (lx_cur l = CHR ''*'' \<and> source l ! (lx_pos l + 1) = CHR ''/'')
      then block_comment_loop (lx_advance l) else l)"
  by pat_completeness auto
termination by (relation "measure left") (auto simp: left_advance lx_at_end_def)

declare block_comment_loop.simps [simp del]

definition skip_block_comment :: "Lexer \<Rightarrow> Lexer" where
  "skip_block_comment l =
     (let l = block_comment_loop (lx_advance (lx_advance l))
      in if lx_pos l + 1 < length (source l) then lx_advance (lx_advance l) else l)"

definition unescape :: "char \<Rightarrow> char" where
  "unescape c = (if c = CHR ''n'' then nl else if c = CHR ''t'' then tab else c)"

text \<open>One round of the string loop: the character it appends and the state after it.\<close>

definition string_step :: "Lexer \<Rightarrow> char \<times> Lexer" where
  "string_step l =
     (if lx_cur l = bslash \<and> lx_pos l + 1 < length (source l)
      then (let l1 = lx_advance l in (unescape (lx_cur l1), lx_advance l1))
      else (lx_cur l, lx_advance l))"

lemma left_advance_le: "left (lx_advance l) \<le> left l"
  by (auto simp: left_def lx_advance_def)

lemma left_string_step: "\<not> lx_at_end l \<Longrightarrow> left (snd (string_step l)) < left l"
  using left_advance [of l] left_advance_le [of "lx_advance l"]
  by (auto simp: string_step_def Let_def)

function string_loop :: "string \<Rightarrow> Lexer \<Rightarrow> string \<times> Lexer" where
  "string_loop v l =
     (if \<not> lx_at_end l \<and> lx_cur l \<noteq> dquote
      then string_loop (v @ [fst (string_step l)]) (snd (string_step l)) else (v, l))"
  by pat_completeness auto
termination by (relation "measure (\<lambda>(v, l). left l)") (auto simp: left_string_step)

declare string_loop.simps [simp del]

section \<open>One round of \<open>tokenize\<close>\<close>

definition word_type :: "string \<Rightarrow> TokenType" where
  "word_type v =
     (if v = ''manifest'' then T_Manifest else if v = ''create'' then T_Create
      else if v \<noteq> [] \<and> hd v = CHR ''@'' then T_At else T_Identifier)"

definition word_start :: "char \<Rightarrow> bool" where
  "word_start c \<longleftrightarrow> isalpha c \<or> c = CHR ''_'' \<or> c = CHR ''@''"

definition word_char :: "char \<Rightarrow> bool" where
  "word_char c \<longleftrightarrow> isalnum c \<or> c = CHR ''_'' \<or> c = CHR ''@''"

definition number_char :: "char \<Rightarrow> bool" where
  "number_char c \<longleftrightarrow> isdigit c \<or> c = CHR ''.''"

definition lex_word :: "Lexer \<Rightarrow> Lexer" where
  "lex_word l = (case scan_while word_char [] l of
     (v, l') \<Rightarrow> push_token (word_type v) v (lx_line l) (lx_column l) l')"

definition lex_number :: "Lexer \<Rightarrow> Lexer" where
  "lex_number l = (case scan_while number_char [] l of
     (v, l') \<Rightarrow> push_token T_Number v (lx_line l) (lx_column l) l')"

definition lex_string :: "Lexer \<Rightarrow> Lexer" where
  "lex_string l = (case string_loop [] (lx_advance l) of
     (v, l') \<Rightarrow> push_token T_String v (lx_line l) (lx_column l)
                  (if lx_at_end l' then l' else lx_advance l'))"

text \<open>The cases of the \<open>switch\<close> that push a one-character token.\<close>

definition single_token :: "char \<Rightarrow> TokenType option" where
  "single_token c =
     (if c = CHR ''{'' then Some T_Lbrace else if c = CHR ''}'' then Some T_Rbrace
      else if c = CHR '':'' then Some T_Colon else if c = CHR '','' then Some T_Comma
      else if c = CHR ''['' then Some T_Lbracket else if c = CHR '']'' then Some T_Rbracket
      else if c = CHR '';'' then Some T_Semicolon else if c = nl then Some T_Newline
      else None)"

definition lex_switch :: "Lexer \<Rightarrow> Lexer" where
  "lex_switch l =
     (case single_token (lx_cur l) of
        Some ty \<Rightarrow> lx_advance (push_token ty [lx_cur l] (lx_line l) (lx_column l) l)
      | None \<Rightarrow>
          (if lx_cur l = CHR ''-'' \<and> lx_peek l = CHR ''>''
           then lx_advance (lx_advance (push_token T_Arrow ''->'' (lx_line l) (lx_column l) l))
           else lx_advance l))"

definition lex_step :: "Lexer \<Rightarrow> Lexer" where
  "lex_step l0 =
     (let l = skip_whitespace l0 in
      if lx_at_end l then l
      else if lx_cur l = CHR ''/'' \<and> lx_peek l = CHR ''/'' then skip_line_comment l
      else if lx_cur l = CHR ''/'' \<and> lx_peek l = CHR ''*'' then skip_block_comment l
      else if word_start (lx_cur l) then lex_word l
      else if lx_cur l = dquote then lex_string l
      else if isdigit (lx_cur l) then lex_number l
      else lex_switch l)"

section \<open>Locations\<close>

text \<open>The line and column of an offset of the source, both from 1.\<close>

definition line_at :: "string \<Rightarrow> nat \<Rightarrow> nat" where
  "line_at s p = 1 + length (filter (\<lambda>c. c = nl) (take p s))"

definition column_at :: "string \<Rightarrow> nat \<Rightarrow> nat" where
  "column_at s p = 1 + length (takeWhile (\<lambda>c. c \<noteq> nl) (rev (take p s)))"

definition located :: "Lexer \<Rightarrow> bool" where
  "located l \<longleftrightarrow> lx_pos l \<le> length (source l) \<and> lx_line l = line_at (source l) (lx_pos l)
     \<and> lx_column l = column_at (source l) (lx_pos l)"

text \<open>\<open>moves l l'\<close>: the cursor went forward over the same source and no token was pushed.\<close>

definition moves :: "Lexer \<Rightarrow> Lexer \<Rightarrow> bool" where
  "moves l l' \<longleftrightarrow> source l' = source l \<and> lx_tokens l' = lx_tokens l \<and> lx_pos l \<le> lx_pos l'
     \<and> (located l \<longrightarrow> located l')"

lemma moves_refl [simp, intro]: "moves l l"
  by (simp add: moves_def)

lemma moves_trans [trans]: "moves a b \<Longrightarrow> moves b c \<Longrightarrow> moves a c"
  by (auto simp: moves_def)

lemma movesD:
  assumes "moves l l'"
  shows "source l' = source l" "lx_tokens l' = lx_tokens l" "lx_pos l \<le> lx_pos l'"
    "located l \<Longrightarrow> located l'"
  using assms by (auto simp: moves_def)

lemma located_advance: "located l \<Longrightarrow> located (lx_advance l)"
  by (auto simp: located_def lx_advance_def lx_at_end_def line_at_def column_at_def
      take_Suc_conv_app_nth)

lemma moves_advance [intro]: "moves l (lx_advance l)"
  by (simp add: moves_def pos_advance located_advance)

lemma moves_advance2: "moves a b \<Longrightarrow> moves a (lx_advance b)"
  using moves_trans by blast

lemma moves_scan_while: "moves l (snd (scan_while P v l))"
proof (induction P v l rule: scan_while.induct)
  case (1 P v l)
  then show ?case
    by (subst scan_while.simps) (auto intro: moves_trans [OF moves_advance])
qed

lemma scan_while_text:
  "fst (scan_while P v l) = v @ takeWhile P (drop (lx_pos l) (source l))"
  "lx_pos (snd (scan_while P v l)) = lx_pos l + length (takeWhile P (drop (lx_pos l) (source l)))"
proof (induction P v l rule: scan_while.induct)
  case (1 P v l)
  have d: "drop (lx_pos l) (source l)
      = (if lx_at_end l then [] else lx_cur l # drop (Suc (lx_pos l)) (source l))"
    by (simp add: lx_at_end_def Cons_nth_drop_Suc)
  {
    case 1
    show ?case using "1.IH" by (subst scan_while.simps) (auto simp: pos_advance d)
  next
    case 2
    show ?case using "1.IH" by (subst scan_while.simps) (auto simp: pos_advance d)
  }
qed

lemma moves_block_comment_loop: "moves l (block_comment_loop l)"
proof (induction l rule: block_comment_loop.induct)
  case (1 l)
  then show ?case
    by (subst block_comment_loop.simps) (auto intro: moves_trans [OF moves_advance])
qed

lemma moves_string_step: "moves l (snd (string_step l))"
  by (auto simp: string_step_def Let_def intro: moves_advance2)

lemma moves_string_loop: "moves l (snd (string_loop v l))"
proof (induction v l rule: string_loop.induct)
  case (1 v l)
  then show ?case
    by (subst string_loop.simps) (auto intro: moves_trans [OF moves_string_step])
qed

lemma moves_skip_whitespace: "moves l (skip_whitespace l)"
  by (simp add: skip_whitespace_def moves_scan_while)

lemma moves_skip_line_comment: "moves l (skip_line_comment l)"
  by (simp add: skip_line_comment_def moves_scan_while)

lemma moves_skip_block_comment: "moves l (skip_block_comment l)"
proof -
  have "moves l (block_comment_loop (lx_advance (lx_advance l)))"
    by (meson moves_advance moves_block_comment_loop moves_trans)
  then show ?thesis by (simp add: skip_block_comment_def Let_def moves_advance2)
qed

lemmas moves_loops = moves_skip_whitespace moves_skip_line_comment moves_skip_block_comment
  moves_scan_while moves_string_loop

section \<open>What one round does\<close>

text \<open>The text of a token at offset \<open>p\<close>: a string token starts at its opening quote, every other
  token but the last is the very text at \<open>p\<close>, and the last token is at the end.\<close>

definition token_at :: "string \<Rightarrow> Token \<Rightarrow> nat \<Rightarrow> bool" where
  "token_at s t p \<longleftrightarrow> p \<le> length s \<and> tk_line t = line_at s p \<and> tk_column t = column_at s p
     \<and> (case tk_type t of
          T_EndOfFile \<Rightarrow> tk_value t = [] \<and> p = length s
        | T_String \<Rightarrow> p < length s \<and> s ! p = dquote
        | _ \<Rightarrow> tk_value t \<noteq> [] \<and> starts_with (tk_value t) (drop p s))"

text \<open>One round either pushes nothing or pushes one token that lies at an offset it passes over.\<close>

definition round_ok :: "Lexer \<Rightarrow> Lexer \<Rightarrow> bool" where
  "round_ok l l' \<longleftrightarrow> source l' = source l \<and> lx_pos l \<le> lx_pos l' \<and> located l'
     \<and> (lx_tokens l' = lx_tokens l
        \<or> (\<exists>t p. lx_tokens l' = lx_tokens l @ [t] \<and> lx_pos l \<le> p \<and> p < lx_pos l'
             \<and> tk_type t \<noteq> T_EndOfFile \<and> token_at (source l) t p))"

lemma round_ok_moves: "located l \<Longrightarrow> moves l l' \<Longrightarrow> round_ok l l'"
  by (auto simp: round_ok_def moves_def)

lemma round_ok_after: "moves l m \<Longrightarrow> round_ok m n \<Longrightarrow> round_ok l n"
  by (auto simp: round_ok_def moves_def)

lemma push_token_simps [simp]:
  "source (push_token ty v a b l) = source l"
  "lx_pos (push_token ty v a b l) = lx_pos l"
  "lx_line (push_token ty v a b l) = lx_line l"
  "lx_column (push_token ty v a b l) = lx_column l"
  "lx_tokens (push_token ty v a b l) = lx_tokens l @ [Token ty v a b]"
  "located (push_token ty v a b l) = located l"
  "lx_at_end (push_token ty v a b l) = lx_at_end l"
  by (simp_all add: push_token_def located_def lx_at_end_def)

lemma round_ok_push:
  assumes "located l" "moves l m" "lx_pos l < lx_pos m" "ty \<noteq> T_EndOfFile"
    and "token_at (source l) (Token ty v (lx_line l) (lx_column l)) (lx_pos l)"
  shows "round_ok l (push_token ty v (lx_line l) (lx_column l) m)"
  using assms by (auto simp: round_ok_def moves_def)

lemma token_at_text:
  assumes "located l" "ty \<notin> {T_EndOfFile, T_String}" "v \<noteq> []" "starts_with v (drop (lx_pos l) (source l))"
  shows "token_at (source l) (Token ty v (lx_line l) (lx_column l)) (lx_pos l)"
  using assms by (auto simp: token_at_def located_def split: TokenType.split)

lemma starts_with_takeWhile [simp]: "starts_with (takeWhile P s) s"
  by (metis starts_with_iff takeWhile_dropWhile_id)

lemma scan_word_ok:
  assumes "located l" "\<not> lx_at_end l" "P (lx_cur l)" "ty \<notin> {T_EndOfFile, T_String}"
  shows "round_ok l (push_token ty (fst (scan_while P [] l)) (lx_line l) (lx_column l) (snd (scan_while P [] l)))"
proof -
  let ?w = "takeWhile P (drop (lx_pos l) (source l))"
  have "drop (lx_pos l) (source l) = lx_cur l # drop (Suc (lx_pos l)) (source l)"
    using assms(2) by (simp add: lx_at_end_def Cons_nth_drop_Suc)
  then have w: "?w \<noteq> []" using assms(3) by simp
  show ?thesis
    using assms w
    by (intro round_ok_push) (simp_all add: moves_scan_while scan_while_text token_at_text)
qed

lemma word_type_cases: "word_type v \<notin> {T_EndOfFile, T_String}"
  by (simp add: word_type_def)

lemma round_ok_lex_word:
  "located l \<Longrightarrow> \<not> lx_at_end l \<Longrightarrow> word_start (lx_cur l) \<Longrightarrow> round_ok l (lex_word l)"
  using scan_word_ok [of l word_char "word_type (fst (scan_while word_char [] l))"] word_type_cases
  by (auto simp: lex_word_def split_beta word_start_def word_char_def isalnum_def)

lemma round_ok_lex_number:
  "located l \<Longrightarrow> \<not> lx_at_end l \<Longrightarrow> isdigit (lx_cur l) \<Longrightarrow> round_ok l (lex_number l)"
  using scan_word_ok [of l number_char T_Number]
  by (auto simp: lex_number_def split_beta number_char_def)

lemma round_ok_lex_string:
  assumes "located l" "\<not> lx_at_end l" "lx_cur l = dquote"
  shows "round_ok l (lex_string l)"
proof -
  let ?m = "snd (string_loop [] (lx_advance l))"
  let ?m' = "if lx_at_end ?m then ?m else lx_advance ?m"
  have m: "moves (lx_advance l) ?m'" using moves_string_loop by (auto intro: moves_advance2)
  then have "lx_pos l < lx_pos ?m'"
    using movesD(3) [OF m] assms(2) by (simp add: pos_advance)
  moreover have "moves l ?m'" using m moves_advance moves_trans by blast
  moreover have "token_at (source l) (Token T_String v (lx_line l) (lx_column l)) (lx_pos l)" for v
    using assms by (auto simp: token_at_def located_def lx_at_end_def)
  ultimately show ?thesis
    using assms(1) by (simp add: lex_string_def split_beta round_ok_push)
qed

lemma single_token_cases: "single_token c = Some ty \<Longrightarrow> ty \<notin> {T_EndOfFile, T_String}"
  by (auto simp: single_token_def split: if_splits)

lemma advance_push:
  "lx_advance (push_token ty v a b l) = push_token ty v a b (lx_advance l)"
  by (simp add: push_token_def lx_advance_def lx_at_end_def)

lemma round_ok_lex_switch:
  assumes "located l" "\<not> lx_at_end l"
  shows "round_ok l (lex_switch l)"
proof -
  have d: "drop (lx_pos l) (source l) = lx_cur l # drop (Suc (lx_pos l)) (source l)"
    using assms(2) by (simp add: lx_at_end_def Cons_nth_drop_Suc)
  show ?thesis
  proof (cases "single_token (lx_cur l)")
    case (Some ty)
    have "token_at (source l) (Token ty [lx_cur l] (lx_line l) (lx_column l)) (lx_pos l)"
      using assms single_token_cases [OF Some] d by (intro token_at_text) auto
    then show ?thesis
      using assms Some single_token_cases [OF Some]
      by (auto simp: lex_switch_def advance_push pos_advance intro: round_ok_push)
  next
    case None
    show ?thesis
    proof (cases "lx_cur l = CHR ''-'' \<and> lx_peek l = CHR ''>''")
      case True
      then have n: "Suc (lx_pos l) < length (source l)" "source l ! Suc (lx_pos l) = CHR ''>''"
        by (auto simp: lx_peek_def split: if_splits)
      have "drop (Suc (lx_pos l)) (source l) = CHR ''>'' # drop (Suc (Suc (lx_pos l))) (source l)"
        using n by (simp add: Cons_nth_drop_Suc [symmetric])
      then have "token_at (source l) (Token T_Arrow ''->'' (lx_line l) (lx_column l)) (lx_pos l)"
        using assms d True by (intro token_at_text) auto
      then show ?thesis
        using assms None True
        by (auto simp: lex_switch_def advance_push pos_advance intro!: round_ok_push moves_advance2)
    next
      case False
      then show ?thesis using assms None by (auto simp: lex_switch_def intro: round_ok_moves)
    qed
  qed
qed

lemma round_ok_lex_step: "located l \<Longrightarrow> round_ok l (lex_step l)"
proof -
  assume l: "located l"
  let ?m = "skip_whitespace l"
  have m: "moves l ?m" "located ?m" using l moves_skip_whitespace movesD(4) by blast+
  have "round_ok ?m (lex_step l)" if "\<not> lx_at_end ?m"
    using that m(2)
    by (simp add: lex_step_def Let_def round_ok_lex_word round_ok_lex_string round_ok_lex_number
        round_ok_lex_switch round_ok_moves moves_loops)
  moreover have "lex_step l = ?m" if "lx_at_end ?m"
    using that by (simp add: lex_step_def)
  ultimately show ?thesis
    using m l round_ok_after round_ok_moves by metis
qed

lemma lex_step_progress: "\<not> lx_at_end l \<Longrightarrow> left (lex_step l) < left l"
proof -
  assume ne: "\<not> lx_at_end l"
  have gt: "left m < left l" if "source m = source l" "lx_pos l < lx_pos m" for m
    using that ne by (auto simp: left_def lx_at_end_def)
  let ?w = "skip_whitespace l"
  have w: "source ?w = source l" "lx_pos l \<le> lx_pos ?w"
    using movesD [OF moves_skip_whitespace] by auto
  have adv: "lx_pos l < lx_pos m \<and> source m = source l" if "\<not> lx_at_end ?w" "moves (lx_advance ?w) m" for m
    using movesD [OF that(2)] that(1) w by (simp add: pos_advance)
  have scan: "lx_pos l < lx_pos (snd (scan_while P [] ?w)) \<and> source (snd (scan_while P [] ?w)) = source l"
    if "\<not> lx_at_end ?w" "P (lx_cur ?w)" for P
  proof -
    have "snd (scan_while P [] ?w) = snd (scan_while P [lx_cur ?w] (lx_advance ?w))"
      using that by (subst scan_while.simps) simp
    then show ?thesis using adv [OF that(1) moves_scan_while] by simp
  qed
  show ?thesis
  proof (cases "lx_at_end ?w")
    case True
    then have "lx_pos l < lx_pos ?w" using ne w by (auto simp: lx_at_end_def)
    then show ?thesis using True w gt by (simp add: lex_step_def)
  next
    case False
    note a = adv [OF False] and s = scan [OF False]
    have b: "moves (lx_advance ?w) (skip_block_comment ?w)"
    proof -
      have "moves (lx_advance ?w) (block_comment_loop (lx_advance (lx_advance ?w)))"
        by (meson moves_advance moves_block_comment_loop moves_trans)
      then show ?thesis by (simp add: skip_block_comment_def Let_def moves_advance2)
    qed
    have c: "lx_cur ?w = CHR ''/'' \<Longrightarrow> lx_cur ?w \<noteq> nl" by simp
    have sw: "lx_pos l < lx_pos (lex_switch ?w) \<and> source (lex_switch ?w) = source l"
      using a [OF moves_refl] a [OF moves_advance]
      by (auto simp: lex_switch_def advance_push split: option.split)
    have st: "lx_pos l < lx_pos (lex_string ?w) \<and> source (lex_string ?w) = source l"
      using a [OF moves_string_loop [of "lx_advance ?w" "[]"]]
        a [OF moves_advance2, OF moves_string_loop [of "lx_advance ?w" "[]"]]
      by (auto simp: lex_string_def split_beta)
    have wd: "lx_pos l < lx_pos (lex_word ?w) \<and> source (lex_word ?w) = source l" if "word_start (lx_cur ?w)"
      using s [of word_char] that
      by (auto simp: lex_word_def split_beta word_start_def word_char_def isalnum_def)
    have nm: "lx_pos l < lx_pos (lex_number ?w) \<and> source (lex_number ?w) = source l" if "isdigit (lx_cur ?w)"
      using s [of number_char] that by (auto simp: lex_number_def split_beta number_char_def)
    have lc: "lx_pos l < lx_pos (skip_line_comment ?w) \<and> source (skip_line_comment ?w) = source l"
      if "lx_cur ?w = CHR ''/''"
      using s [of "\<lambda>c. c \<noteq> nl"] that by (auto simp: skip_line_comment_def)
    have "lx_pos l < lx_pos (lex_step l) \<and> source (lex_step l) = source l"
      using False sw st wd nm lc a [OF b] by (simp add: lex_step_def Let_def)
    then show ?thesis using gt by blast
  qed
qed

section \<open>The whole lexer\<close>

function tokenize_loop :: "Lexer \<Rightarrow> Lexer" where
  "tokenize_loop l = (if lx_at_end l then l else tokenize_loop (lex_step l))"
  by pat_completeness auto
termination by (relation "measure left") (auto simp: lex_step_progress)

declare tokenize_loop.simps [simp del]

text \<open>\<open>tokenize()\<close>: what it returns and the object after it, whose tokens were moved out.\<close>

definition tokenize :: "Lexer \<Rightarrow> (Token list, Error) Result \<times> Lexer" where
  "tokenize l0 =
     (let l1 = l0\<lparr>lx_tokens := [], lx_pos := 0, lx_line := 1, lx_column := 1\<rparr>;
          l2 = tokenize_loop l1;
          l3 = push_token T_EndOfFile [] (lx_line l2) (lx_column l2) l2
      in (Result_ok (lx_tokens l3), l3\<lparr>lx_tokens := []\<rparr>))"

definition lex :: "string \<Rightarrow> Token list" where
  "lex s = (let l = tokenize_loop (Lexer_new s)
            in lx_tokens l @ [Token T_EndOfFile [] (lx_line l) (lx_column l)])"

interpretation scan: loop "\<lambda>(v, l). (v @ [lx_cur l], lx_advance l)" "\<lambda>(v, l). scan_while P v l"
  "\<lambda>(v, l). \<not> (\<not> lx_at_end l \<and> P (lx_cur l))" "\<lambda>(v, l). left l" for P
proof
  fix s :: "string \<times> Lexer"
  obtain v l where s: "s = (v, l)" by fastforce
  show "(case s of (v, l) \<Rightarrow> scan_while P v l) =
      (if case s of (v, l) \<Rightarrow> \<not> (\<not> lx_at_end l \<and> P (lx_cur l)) then s
       else case case s of (v, l) \<Rightarrow> (v @ [lx_cur l], lx_advance l) of (v, l) \<Rightarrow> scan_while P v l)"
    unfolding s by (subst scan_while.simps) simp
qed (auto simp: left_advance)

interpretation strings: loop "\<lambda>(v, l). (v @ [fst (string_step l)], snd (string_step l))"
  "\<lambda>(v, l). string_loop v l" "\<lambda>(v, l). \<not> (\<not> lx_at_end l \<and> lx_cur l \<noteq> dquote)" "\<lambda>(v, l). left l"
proof
  fix s :: "string \<times> Lexer"
  obtain v l where s: "s = (v, l)" by fastforce
  show "(case s of (v, l) \<Rightarrow> string_loop v l) =
      (if case s of (v, l) \<Rightarrow> \<not> (\<not> lx_at_end l \<and> lx_cur l \<noteq> dquote) then s
       else case case s of (v, l) \<Rightarrow> (v @ [fst (string_step l)], snd (string_step l)) of (v, l) \<Rightarrow> string_loop v l)"
    unfolding s by (subst string_loop.simps) simp
qed (use left_string_step in fastforce)

interpretation rounds: loop lex_step tokenize_loop lx_at_end left
  by unfold_locales (rule tokenize_loop.simps, rule lex_step_progress)

text \<open>The tokens pushed so far lie at increasing offsets behind the cursor.\<close>

definition tokens_behind :: "string \<Rightarrow> Lexer \<Rightarrow> bool" where
  "tokens_behind s l \<longleftrightarrow> source l = s \<and> located l \<and>
     (\<exists>ps. sorted_wrt (<) ps \<and> list_all2 (token_at s) (lx_tokens l) ps \<and> (\<forall>p\<in>set ps. p < lx_pos l))
     \<and> (\<forall>t\<in>set (lx_tokens l). tk_type t \<noteq> T_EndOfFile)"

lemma tokens_behind_new: "tokens_behind s (Lexer_new s)"
  by (auto simp: tokens_behind_def Lexer_new_def located_def line_at_def column_at_def)

lemma tokens_behind_step:
  assumes "tokens_behind s l"
  shows "tokens_behind s (lex_step l)"
proof -
  obtain ps where ps: "sorted_wrt (<) ps" "list_all2 (token_at s) (lx_tokens l) ps" "\<forall>p\<in>set ps. p < lx_pos l"
    and l: "source l = s" "located l" "\<forall>t\<in>set (lx_tokens l). tk_type t \<noteq> T_EndOfFile"
    using assms by (auto simp: tokens_behind_def)
  have r: "round_ok l (lex_step l)" using l by (simp add: round_ok_lex_step)
  show ?thesis
  proof (cases "lx_tokens (lex_step l) = lx_tokens l")
    case True
    with r ps l show ?thesis by (fastforce simp: tokens_behind_def round_ok_def)
  next
    case False
    with r obtain t p where t: "lx_tokens (lex_step l) = lx_tokens l @ [t]" "lx_pos l \<le> p"
      "p < lx_pos (lex_step l)" "tk_type t \<noteq> T_EndOfFile" "token_at s t p"
      using l by (auto simp: round_ok_def)
    have "sorted_wrt (<) (ps @ [p])" "list_all2 (token_at s) (lx_tokens l @ [t]) (ps @ [p])"
      "\<forall>q\<in>set (ps @ [p]). q < lx_pos (lex_step l)"
      using ps t by (auto simp: sorted_wrt_append list_all2_appendI)
    then have "\<exists>ps. sorted_wrt (<) ps \<and> list_all2 (token_at s) (lx_tokens (lex_step l)) ps
        \<and> (\<forall>q\<in>set ps. q < lx_pos (lex_step l))"
      unfolding t(1) by blast
    moreover have "source (lex_step l) = s" "located (lex_step l)"
      using r l by (auto simp: round_ok_def)
    ultimately show ?thesis using t(1,4) l by (auto simp: tokens_behind_def)
  qed
qed

lemma tokens_behind_loop: "tokens_behind s (tokenize_loop (Lexer_new s))"
  by (rule rounds.run_invariant) (simp_all add: tokens_behind_new tokens_behind_step)

lemma tokenize_Lexer_new: "fst (tokenize (Lexer_new s)) = Result_ok (lex s)"
  by (simp add: tokenize_def lex_def Lexer_new_def Let_def)

lemma lex_shape: "\<exists>toks a b. lex s = toks @ [Token T_EndOfFile [] a b] \<and> T_EndOfFile \<notin> tk_type ` set toks"
  using tokens_behind_loop [of s] by (auto simp: lex_def Let_def tokens_behind_def)

text \<open>Lexing never fails and always ends. It returns exactly one end-of-file token, the last
  one; the tokens lie at strictly increasing offsets of the source, each carries the line and
  column of its offset, and every token but a string or the end carries the very text found there.\<close>

theorem lexer_tokens_located:
  "\<exists>toks ps. fst (tokenize (Lexer_new s)) = Result_ok (toks @ [Token T_EndOfFile [] (line_at s (length s)) (column_at s (length s))])
     \<and> sorted_wrt (<) ps \<and> list_all2 (token_at s) toks ps
     \<and> T_EndOfFile \<notin> tk_type ` set toks"
proof -
  let ?l = "tokenize_loop (Lexer_new s)"
  have t: "tokens_behind s ?l" by (rule tokens_behind_loop)
  moreover have "lx_at_end ?l" by (rule rounds.run_ends)
  ultimately have p: "lx_pos ?l = length s" by (auto simp: tokens_behind_def located_def lx_at_end_def)
  have "(Lexer_new s)\<lparr>lx_tokens := [], lx_pos := 0, lx_line := 1, lx_column := 1\<rparr> = Lexer_new s"
    by (simp add: Lexer_new_def)
  then have "fst (tokenize (Lexer_new s)) =
      Result_ok (lx_tokens ?l @ [Token T_EndOfFile [] (line_at s (length s)) (column_at s (length s))])"
    using t p by (simp add: tokenize_def Let_def tokens_behind_def located_def)
  moreover obtain ps where "sorted_wrt (<) ps" "list_all2 (token_at s) (lx_tokens ?l) ps"
    "T_EndOfFile \<notin> tk_type ` set (lx_tokens ?l)"
    using t unfolding tokens_behind_def by fastforce
  ultimately show ?thesis by blast
qed

end
