(* ===== verification/Lamia_Parser.thy ===== *)
theory Lamia_Parser
  imports Lamia_Lexer
begin

text \<open>
  The syntax tree and the parser of the language, struct \<open>ASTNode\<close> and class \<open>Parser\<close> of
  \<open>src/language/lamia.compiler.cppm\<close>. Reading \<open>tokens_[pos_]\<close> past the end of the vector is
  undefined, so each operation that reads a token is in the option monad and \<open>None\<close> is that
  undefined read. The lemmas show that on a vector that ends in an end-of-file token, which is
  what the lexer returns, parsing reads only inside the vector and ends; what strict mode
  rejects; and that parsing the tokens of a list of statements gives the tree of these statements.
\<close>

section \<open>Syntax tree\<close>

datatype NodeType =
    N_Manifest | N_Create | N_RadiantHeading | N_RadiantText | N_RadiantButton
  | N_ConstellationList | N_RadiantQuote | N_GcodeBlock | N_ReturnLight | N_Startup

datatype ASTNode =
  ASTNode (n_type: NodeType) (n_name: string) (n_attributes: "(string \<times> string) list")
    (n_content: "string list") (n_children: "ASTNode list")

section \<open>The cursor over the tokens\<close>

record Parser =
  ps_tokens :: "Token list"
  ps_pos :: nat
  ps_strict :: bool

definition Parser_new :: "Token list \<Rightarrow> Parser" where
  "Parser_new ts = \<lparr>ps_tokens = ts, ps_pos = 0, ps_strict = False\<rparr>"

definition set_strict :: "bool \<Rightarrow> Parser \<Rightarrow> Parser" where
  "set_strict s p = p\<lparr>ps_strict := s\<rparr>"

definition current :: "Parser \<Rightarrow> Token option" where
  "current p = (if ps_pos p < length (ps_tokens p) then Some (ps_tokens p ! ps_pos p) else None)"

definition ps_at_end :: "Parser \<Rightarrow> bool" where
  "ps_at_end p \<longleftrightarrow> length (ps_tokens p) \<le> ps_pos p \<or> tk_type (ps_tokens p ! ps_pos p) = T_EndOfFile"

text \<open>The state after \<open>advance()\<close>; at the end it reads \<open>tokens_.back()\<close>, which an empty vector
  does not have.\<close>

definition ps_advance :: "Parser \<Rightarrow> Parser option" where
  "ps_advance p =
     (if ps_at_end p then (if ps_tokens p = [] then None else Some p)
      else Some (p\<lparr>ps_pos := ps_pos p + 1\<rparr>))"

text \<open>\<open>if (current().type == ty) advance();\<close>\<close>

definition skip_if :: "TokenType \<Rightarrow> Parser \<Rightarrow> Parser option" where
  "skip_if ty p = do { t \<leftarrow> current p; if tk_type t = ty then ps_advance p else Some p }"

function skip_nl :: "Parser \<Rightarrow> Parser" where
  "skip_nl p =
     (if \<not> ps_at_end p \<and> tk_type (ps_tokens p ! ps_pos p) = T_Newline
      then skip_nl (p\<lparr>ps_pos := ps_pos p + 1\<rparr>) else p)"
  by pat_completeness auto
termination
  by (relation "measure (\<lambda>p. length (ps_tokens p) - ps_pos p)") (auto simp: ps_at_end_def)

declare skip_nl.simps [simp del]

definition rest :: "Parser \<Rightarrow> nat" where
  "rest p = length (ps_tokens p) - ps_pos p"

lemma skip_nl_fields [simp]:
  "ps_tokens (skip_nl p) = ps_tokens p" "ps_strict (skip_nl p) = ps_strict p"
  by (induction p rule: skip_nl.induct; subst skip_nl.simps; simp)+

lemma skip_nl_pos: "ps_pos p \<le> ps_pos (skip_nl p)"
proof (induction p rule: skip_nl.induct)
  case (1 p)
  then show ?case by (subst skip_nl.simps) auto
qed

section \<open>Attribute blocks\<close>

text \<open>One round of the loop over an attribute block: the attributes and the parser after it, and
  whether the loop is left by \<open>break\<close>.\<close>

definition block_step ::
  "Parser \<Rightarrow> (string \<times> string) list \<Rightarrow> (bool \<times> Parser \<times> (string \<times> string) list) option" where
  "block_step p0 attrs =
     (let p = skip_nl p0 in
      do {
        t \<leftarrow> current p;
        if tk_type t = T_Rbrace then Some (True, p, attrs)
        else do {
          (p, attrs) \<leftarrow>
            (if tk_type t = T_Identifier then do {
               p \<leftarrow> ps_advance p;
               p \<leftarrow> skip_if T_Colon p;
               if \<not> ps_at_end p then do {
                 v \<leftarrow> current p;
                 p \<leftarrow> ps_advance p;
                 Some (p, attrs @ [(tk_value t, tk_value v)])
               } else Some (p, attrs)
             } else do { p \<leftarrow> ps_advance p; Some (p, attrs) });
          p \<leftarrow> skip_if T_Comma p;
          Some (False, p, attrs)
        }
      })"

lemma ps_advanceD:
  "ps_advance p = Some p' \<Longrightarrow>
     ps_tokens p' = ps_tokens p \<and> ps_strict p' = ps_strict p
     \<and> ps_pos p' = (if ps_at_end p then ps_pos p else Suc (ps_pos p))"
  by (auto simp: ps_advance_def split: if_splits)

lemma skip_ifD:
  "skip_if ty p = Some p' \<Longrightarrow>
     ps_tokens p' = ps_tokens p \<and> ps_strict p' = ps_strict p \<and> ps_pos p \<le> ps_pos p'"
  by (auto simp: skip_if_def dest: ps_advanceD split: bind_split_asm if_splits)

lemma currentD:
  "current p = Some t \<Longrightarrow> ps_pos p < length (ps_tokens p) \<and> t = ps_tokens p ! ps_pos p
     \<and> (ps_at_end p \<longleftrightarrow> tk_type t = T_EndOfFile)"
  by (auto simp: current_def ps_at_end_def split: if_splits)

lemma block_step_progress:
  assumes "block_step p attrs = Some (False, p', attrs')" "\<not> ps_at_end p"
  shows "ps_tokens p' = ps_tokens p \<and> ps_strict p' = ps_strict p \<and> ps_pos p < ps_pos p'"
proof -
  let ?q = "skip_nl p"
  have q: "ps_pos p < ps_pos ?q \<or> ?q = p"
    using skip_nl_pos [of "p\<lparr>ps_pos := Suc (ps_pos p)\<rparr>"]
    by (subst (1 2) skip_nl.simps) auto
  have mono: "ps_pos x \<le> ps_pos y" if "ps_advance x = Some y" for x y
    using ps_advanceD [OF that] by simp
  show ?thesis
    using assms q
    by (auto simp: block_step_def Let_def split: bind_split_asm if_splits
        dest!: ps_advanceD skip_ifD)
qed

function block_loop :: "Parser \<Rightarrow> (string \<times> string) list \<Rightarrow> (Parser \<times> (string \<times> string) list) option" where
  "block_loop p attrs =
     (if ps_at_end p then Some (p, attrs)
      else do {
        t \<leftarrow> current p;
        if tk_type t = T_Rbrace then Some (p, attrs)
        else do {
          (brk, p', attrs') \<leftarrow> block_step p attrs;
          if brk then Some (p', attrs') else block_loop p' attrs'
        }
      })"
  by pat_completeness auto
termination
proof (relation "measure (\<lambda>(p, attrs). rest p)", goal_cases)
  case 1
  then show ?case by simp
next
  case (2 p attrs t x brk y p' attrs')
  then have "block_step p attrs = Some (False, p', attrs')" by auto
  with 2 block_step_progress [OF this] show ?case by (auto simp: rest_def ps_at_end_def)
qed

declare block_loop.simps [simp del]

text \<open>The optional block \<open>{ ... }\<close> after a statement's head.\<close>

definition parse_block :: "Parser \<Rightarrow> (string \<times> string) list \<Rightarrow> (Parser \<times> (string \<times> string) list) option" where
  "parse_block p attrs = do {
     t \<leftarrow> current p;
     if tk_type t = T_Lbrace then do {
       p \<leftarrow> ps_advance p;
       (p, attrs) \<leftarrow> block_loop p attrs;
       p \<leftarrow> skip_if T_Rbrace p;
       Some (p, attrs)
     } else Some (p, attrs)
   }"

section \<open>Statements\<close>

definition widget_node_type :: "string \<Rightarrow> NodeType" where
  "widget_node_type w =
     (if w = ''RADIANT_HEADING'' then N_RadiantHeading
      else if w = ''RADIANT_TEXT'' then N_RadiantText
      else if w = ''RADIANT_BUTTON'' then N_RadiantButton
      else if w = ''CONSTELLATION_LIST'' then N_ConstellationList
      else if w = ''RADIANT_QUOTE'' then N_RadiantQuote
      else if w = ''GCODE_BLOCK'' then N_GcodeBlock
      else N_Create)"

definition parse_manifest :: "Parser \<Rightarrow> (Parser \<times> ASTNode) option" where
  "parse_manifest p = do {
     p \<leftarrow> ps_advance p;
     t \<leftarrow> current p;
     (p, name) \<leftarrow> (if tk_type t = T_Identifier then do { p \<leftarrow> ps_advance p; Some (p, tk_value t) }
                   else Some (p, []));
     (p, attrs) \<leftarrow> parse_block p [];
     Some (p, ASTNode N_Manifest name attrs [] [])
   }"

definition parse_create :: "Parser \<Rightarrow> (Parser \<times> ASTNode) option" where
  "parse_create p = do {
     p \<leftarrow> ps_advance p;
     t \<leftarrow> current p;
     (p, ty, attrs) \<leftarrow>
       (if tk_type t = T_Identifier
        then do { p \<leftarrow> ps_advance p;
                  Some (p, widget_node_type (tk_value t), [(''widget_type'', tk_value t)]) }
        else Some (p, N_Create, []));
     (p, attrs) \<leftarrow> parse_block p attrs;
     Some (p, ASTNode ty [] attrs [] [])
   }"

text \<open>One round of the loop of \<open>parse\<close>: the parser after it with the children of the root, or the
  error that strict mode returns.\<close>

definition parse_step :: "Parser \<Rightarrow> ASTNode list \<Rightarrow> (Error + Parser \<times> ASTNode list) option" where
  "parse_step p0 kids =
     (let p = skip_nl p0 in
      if ps_at_end p then Some (Inr (p, kids))
      else do {
        t \<leftarrow> current p;
        if tk_type t = T_Manifest then do { (p, n) \<leftarrow> parse_manifest p; Some (Inr (p, kids @ [n])) }
        else if tk_type t = T_Create then do { (p, n) \<leftarrow> parse_create p; Some (Inr (p, kids @ [n])) }
        else if ps_strict p then Some (Inl (Error_new 2 (Some ''strict: unknown statement'')))
        else do { p \<leftarrow> ps_advance p; Some (Inr (p, kids)) }
      })"

section \<open>Progress and safety\<close>

definition fwd :: "Parser \<Rightarrow> Parser \<Rightarrow> bool" where
  "fwd p p' \<longleftrightarrow> ps_tokens p' = ps_tokens p \<and> ps_strict p' = ps_strict p \<and> ps_pos p \<le> ps_pos p'"

lemma fwd_refl [simp]: "fwd p p"
  by (simp add: fwd_def)

lemma fwd_trans [trans]: "fwd a b \<Longrightarrow> fwd b c \<Longrightarrow> fwd a c"
  by (auto simp: fwd_def)

lemma fwd_advance: "ps_advance p = Some p' \<Longrightarrow> fwd p p'"
  using ps_advanceD by (auto simp: fwd_def)

lemma fwd_skip_if: "skip_if ty p = Some p' \<Longrightarrow> fwd p p'"
  using skip_ifD by (auto simp: fwd_def)

lemma fwd_skip_nl: "fwd p (skip_nl p)"
  by (simp add: fwd_def skip_nl_pos)

lemma fwd_block_step: "block_step p attrs = Some (brk, p', attrs') \<Longrightarrow> fwd p p'"
  using fwd_skip_nl [of p]
  by (auto simp: block_step_def Let_def fwd_def split: bind_split_asm if_splits
      dest!: ps_advanceD skip_ifD)

lemma fwd_block_loop: "block_loop p attrs = Some (p', attrs') \<Longrightarrow> fwd p p'"
proof (induction p attrs rule: block_loop.induct)
  case (1 p attrs)
  show ?case
  proof (cases "ps_at_end p \<or> (\<exists>t. current p = Some t \<and> tk_type t = T_Rbrace)")
    case True
    with "1.prems" show ?thesis by (auto simp: block_loop.simps [of p] split: if_splits)
  next
    case False
    with "1.prems" obtain t brk q b where s: "current p = Some t" "tk_type t \<noteq> T_Rbrace"
      "block_step p attrs = Some (brk, q, b)"
      "(if brk then Some (q, b) else block_loop q b) = Some (p', attrs')"
      by (auto simp: block_loop.simps [of p] split: bind_split_asm)
    have "fwd q p'" using s False "1.IH" [OF _ s(1,2,3)] by (cases brk) auto
    with fwd_block_step [OF s(3)] show ?thesis by (rule fwd_trans)
  qed
qed

lemma fwd_parse_block: "parse_block p attrs = Some (p', attrs') \<Longrightarrow> fwd p p'"
  by (auto simp: parse_block_def fwd_def split: bind_split_asm if_splits
      dest!: ps_advanceD skip_ifD fwd_block_loop)

lemma fwd_parse_manifest: "parse_manifest p = Some (p', n) \<Longrightarrow> \<exists>q. ps_advance p = Some q \<and> fwd q p'"
  by (auto simp: parse_manifest_def split: bind_split_asm if_splits
      dest!: fwd_parse_block intro: fwd_trans fwd_advance)

lemma fwd_parse_create: "parse_create p = Some (p', n) \<Longrightarrow> \<exists>q. ps_advance p = Some q \<and> fwd q p'"
  by (auto simp: parse_create_def split: bind_split_asm if_splits
      dest!: fwd_parse_block intro: fwd_trans fwd_advance)

lemma parse_step_progress:
  assumes "parse_step p kids = Some (Inr (p', kids'))"
  shows "fwd p p' \<and> (ps_at_end p' \<or> ps_pos p < ps_pos p')"
proof -
  have a: "ps_pos q < ps_pos q'" if "ps_advance q = Some r" "\<not> ps_at_end q" "fwd r q'" for q r q'
    using ps_advanceD [OF that(1)] that(2,3) by (simp add: fwd_def)
  have s: "ps_pos p \<le> ps_pos (skip_nl p)" by (rule skip_nl_pos)
  have "fwd (skip_nl p) p' \<and> (ps_at_end p' \<or> ps_pos (skip_nl p) < ps_pos p')"
    using assms
    by (auto simp: parse_step_def Let_def split: bind_split_asm if_splits
        dest!: fwd_parse_manifest fwd_parse_create dest: fwd_advance intro: fwd_trans a)
  then show ?thesis using s fwd_skip_nl fwd_trans by (metis order.strict_trans1)
qed

section \<open>The whole parser\<close>

function parse_loop :: "Parser \<Rightarrow> ASTNode list \<Rightarrow> (Error + ASTNode list) option" where
  "parse_loop p kids =
     (if ps_at_end p then Some (Inr kids)
      else do {
        r \<leftarrow> parse_step p kids;
        case r of Inl e \<Rightarrow> Some (Inl e) | Inr (p', kids') \<Rightarrow>
          if ps_at_end p' then Some (Inr kids') else parse_loop p' kids'
      })"
  by pat_completeness auto
termination
proof (relation "measure (\<lambda>(p, kids). rest p)", goal_cases)
  case 1
  then show ?case by simp
next
  case (2 p kids r x p' kids')
  then have "parse_step p kids = Some (Inr (p', kids'))" by auto
  with 2 parse_step_progress [OF this] show ?case by (auto simp: rest_def ps_at_end_def fwd_def)
qed

declare parse_loop.simps [simp del]

definition parse :: "Parser \<Rightarrow> (ASTNode, Error) Result option" where
  "parse p = do {
     r \<leftarrow> parse_loop p [];
     case r of Inl e \<Rightarrow> Some (Result_err e)
     | Inr kids \<Rightarrow> Some (Result_ok (ASTNode N_Manifest ''program'' [] [] kids))
   }"

text \<open>A cursor inside a vector that ends with an end-of-file token.\<close>

definition safe :: "Parser \<Rightarrow> bool" where
  "safe p \<longleftrightarrow> ps_pos p < length (ps_tokens p) \<and> tk_type (last (ps_tokens p)) = T_EndOfFile"

lemma safe_fwd_bound: "safe p \<Longrightarrow> \<not> ps_at_end p \<Longrightarrow> Suc (ps_pos p) < length (ps_tokens p)"
  unfolding safe_def ps_at_end_def
  by (metis Suc_lessI diff_Suc_1 last_conv_nth leD length_0_conv not_less_zero)

lemma safe_current: "safe p \<Longrightarrow> \<exists>t. current p = Some t"
  by (simp add: safe_def current_def)

lemma safe_advance: "safe p \<Longrightarrow> \<exists>p'. ps_advance p = Some p' \<and> safe p'"
  using safe_fwd_bound [of p] by (auto simp: ps_advance_def safe_def)

lemma safe_skip_nl: "safe p \<Longrightarrow> safe (skip_nl p)"
proof (induction p rule: skip_nl.induct)
  case (1 p)
  then show ?case using safe_fwd_bound [of p] by (subst skip_nl.simps) (auto simp: safe_def)
qed

lemma safe_skip_if: "safe p \<Longrightarrow> \<exists>p'. skip_if ty p = Some p' \<and> safe p'"
  using safe_current [of p] safe_advance [of p] by (auto simp: skip_if_def)

lemma safe_block_step: "safe p \<Longrightarrow> \<exists>brk p' a. block_step p attrs = Some (brk, p', a) \<and> safe p'"
proof -
  assume "safe p"
  then have q: "safe (skip_nl p)" by (rule safe_skip_nl)
  obtain t where t: "current (skip_nl p) = Some t" using safe_current [OF q] by blast
  obtain p1 where p1: "ps_advance (skip_nl p) = Some p1" "safe p1" using safe_advance [OF q] by blast
  obtain p2 where p2: "skip_if T_Colon p1 = Some p2" "safe p2" using safe_skip_if [OF p1(2)] by blast
  obtain v where v: "current p2 = Some v" using safe_current [OF p2(2)] by blast
  obtain p3 where p3: "ps_advance p2 = Some p3" "safe p3" using safe_advance [OF p2(2)] by blast
  have c: "\<exists>r. skip_if T_Comma x = Some r \<and> safe r" if "safe x" for x
    using safe_skip_if [OF that] .
  show ?thesis
    using t p1 p2 v p3 q c [OF p1(2)] c [OF p2(2)] c [OF p3(2)]
    by (auto simp: block_step_def Let_def)
qed

lemma safe_block_loop: "safe p \<Longrightarrow> \<exists>p' a. block_loop p attrs = Some (p', a) \<and> safe p'"
proof (induction p attrs rule: block_loop.induct)
  case (1 p attrs)
  obtain t where t: "current p = Some t" using safe_current [OF "1.prems"] by blast
  obtain brk p' a where b: "block_step p attrs = Some (brk, p', a)" "safe p'"
    using safe_block_step [OF "1.prems"] by blast
  show ?case
    using "1.prems" "1.IH" t b by (subst block_loop.simps) auto
qed

lemma safe_parse_block: "safe p \<Longrightarrow> \<exists>p' a. parse_block p attrs = Some (p', a) \<and> safe p'"
proof -
  assume s: "safe p"
  obtain t where t: "current p = Some t" using safe_current [OF s] by blast
  obtain p1 where p1: "ps_advance p = Some p1" "safe p1" using safe_advance [OF s] by blast
  obtain p2 a where p2: "block_loop p1 attrs = Some (p2, a)" "safe p2" using safe_block_loop [OF p1(2)] by blast
  obtain p3 where "skip_if T_Rbrace p2 = Some p3" "safe p3" using safe_skip_if [OF p2(2)] by blast
  then show ?thesis using s t p1 p2 by (auto simp: parse_block_def)
qed

lemma safe_parse_manifest: "safe p \<Longrightarrow> \<exists>p' n. parse_manifest p = Some (p', n) \<and> safe p'"
proof -
  assume s: "safe p"
  obtain p1 where p1: "ps_advance p = Some p1" "safe p1" using safe_advance [OF s] by blast
  obtain t where t: "current p1 = Some t" using safe_current [OF p1(2)] by blast
  obtain p2 where p2: "ps_advance p1 = Some p2" "safe p2" using safe_advance [OF p1(2)] by blast
  show ?thesis
    using p1 t p2 safe_parse_block [OF p1(2), of "[]"] safe_parse_block [OF p2(2), of "[]"]
    by (auto simp: parse_manifest_def)
qed

lemma safe_parse_create: "safe p \<Longrightarrow> \<exists>p' n. parse_create p = Some (p', n) \<and> safe p'"
proof -
  assume s: "safe p"
  obtain p1 where p1: "ps_advance p = Some p1" "safe p1" using safe_advance [OF s] by blast
  obtain t where t: "current p1 = Some t" using safe_current [OF p1(2)] by blast
  obtain p2 where p2: "ps_advance p1 = Some p2" "safe p2" using safe_advance [OF p1(2)] by blast
  show ?thesis
    using p1 t p2 safe_parse_block [OF p1(2), of "[]"]
      safe_parse_block [OF p2(2), of "[(''widget_type'', tk_value t)]"]
    by (auto simp: parse_create_def)
qed

lemma safe_parse_step:
  assumes "safe p"
  shows "(\<exists>e. parse_step p kids = Some (Inl e) \<and> ps_strict p)
    \<or> (\<exists>p' k. parse_step p kids = Some (Inr (p', k)) \<and> safe p')"
proof -
  have q: "safe (skip_nl p)" using assms by (rule safe_skip_nl)
  show ?thesis
    using q safe_current [OF q] safe_advance [OF q] safe_parse_manifest [OF q] safe_parse_create [OF q]
    by (auto simp: parse_step_def Let_def)
qed

lemma safe_parse_loop:
  "safe p \<Longrightarrow> \<exists>r. parse_loop p kids = Some r \<and> (\<not> ps_strict p \<longrightarrow> (\<exists>k. r = Inr k))"
proof (induction p kids rule: parse_loop.induct)
  case (1 p kids)
  from safe_parse_step [OF "1.prems", of kids] show ?case
  proof (elim disjE exE conjE)
    fix e assume "parse_step p kids = Some (Inl e)" "ps_strict p"
    then show ?thesis by (subst parse_loop.simps) auto
  next
    fix p' k assume s: "parse_step p kids = Some (Inr (p', k))" "safe p'"
    moreover have "ps_strict p' = ps_strict p"
      using parse_step_progress [OF s(1)] by (simp add: fwd_def)
    moreover have "\<exists>r. parse_loop p' k = Some r \<and> (\<not> ps_strict p' \<longrightarrow> (\<exists>k. r = Inr k))"
      if "\<not> ps_at_end p" "\<not> ps_at_end p'"
      using "1.IH" [OF that(1) s(1) refl refl that(2) s(2)] .
    ultimately show ?thesis by (subst parse_loop.simps) auto
  qed
qed

lemma parse_safe:
  "safe p \<Longrightarrow> \<exists>r. parse p = Some r \<and> (\<not> ps_strict p \<longrightarrow> r_is_ok r)"
  using safe_parse_loop [of p "[]"] by (fastforce simp: parse_def Result_ok_def split: sum.splits)

lemma safe_lex: "safe (set_strict s (Parser_new (lex src)))"
  using lex_shape [of src] by (auto simp: safe_def set_strict_def Parser_new_def)

text \<open>C1. On the tokens of any source text, in strict mode or not, the parser never reads outside
  the token vector and always ends; without strict mode it never reports an error.\<close>

theorem parser_total_on_lexed_source:
  "\<exists>r. parse (set_strict s (Parser_new (lex src))) = Some r \<and> (s \<or> r_is_ok r)"
  using parse_safe [OF safe_lex [of s src]] by (auto simp: set_strict_def)

text \<open>Without an end-of-file token the same code reads past the vector.\<close>

lemma parser_needs_end_of_file:
  "parse (Parser_new [Token T_Create ''create'' 1 1]) = None"
  by (simp add: parse_def parse_loop.simps parse_step_def parse_create_def Parser_new_def
      ps_at_end_def ps_advance_def current_def skip_nl.simps Let_def)

section \<open>The grammar\<close>

text \<open>The grammar the parser is for, as rules over tokens. An attribute is a key, an optional
  colon, any token as the value and an optional comma, with blank lines before it; a statement is
  its keyword, an optional name and a block of attributes.\<close>

abbreviation newlines :: "Token list \<Rightarrow> bool" where
  "newlines ts \<equiv> list_all (\<lambda>t. tk_type t = T_Newline) ts"

definition opt_tok :: "TokenType \<Rightarrow> Token list \<Rightarrow> bool" where
  "opt_tok ty ts \<longleftrightarrow> ts = [] \<or> (\<exists>t. ts = [t] \<and> tk_type t = ty)"

inductive attr_tokens :: "Token list \<Rightarrow> string \<times> string \<Rightarrow> bool" where
  "newlines nls \<Longrightarrow> tk_type k = T_Identifier \<Longrightarrow> opt_tok T_Colon cs \<Longrightarrow>
   tk_type v \<noteq> T_EndOfFile \<Longrightarrow> (cs = [] \<Longrightarrow> tk_type v \<noteq> T_Colon) \<Longrightarrow> opt_tok T_Comma ms \<Longrightarrow>
   attr_tokens (nls @ k # cs @ v # ms) (tk_value k, tk_value v)"

inductive attrs_tokens :: "Token list \<Rightarrow> (string \<times> string) list \<Rightarrow> bool" where
  attrs_Nil: "newlines nls \<Longrightarrow> attrs_tokens nls []"
| attrs_Cons: "attr_tokens ts a \<Longrightarrow> attrs_tokens us as \<Longrightarrow> attrs_tokens (ts @ us) (a # as)"

inductive stmt_tokens :: "Token list \<Rightarrow> ASTNode \<Rightarrow> bool" where
  stmt_manifest: "newlines nls \<Longrightarrow> tk_type m = T_Manifest \<Longrightarrow> opt_tok T_Identifier nm \<Longrightarrow>
     tk_type l = T_Lbrace \<Longrightarrow> attrs_tokens ts as \<Longrightarrow> tk_type r = T_Rbrace \<Longrightarrow>
     stmt_tokens (nls @ m # nm @ l # ts @ [r]) (ASTNode N_Manifest (concat (map tk_value nm)) as [] [])"
| stmt_create: "newlines nls \<Longrightarrow> tk_type c = T_Create \<Longrightarrow> tk_type w = T_Identifier \<Longrightarrow>
     tk_type l = T_Lbrace \<Longrightarrow> attrs_tokens ts as \<Longrightarrow> tk_type r = T_Rbrace \<Longrightarrow>
     stmt_tokens (nls @ c # w # l # ts @ [r])
       (ASTNode (widget_node_type (tk_value w)) [] ((''widget_type'', tk_value w) # as) [] [])"

inductive program_tokens :: "Token list \<Rightarrow> ASTNode list \<Rightarrow> bool" where
  program_Nil: "newlines nls \<Longrightarrow> program_tokens nls []"
| program_Cons: "stmt_tokens ts n \<Longrightarrow> program_tokens us ns \<Longrightarrow> program_tokens (ts @ us) (n # ns)"

text \<open>The parser as a zipper: the tokens read and the tokens to read.\<close>

definition cur :: "Token list \<Rightarrow> Token list \<Rightarrow> bool \<Rightarrow> Parser" where
  "cur xs ts s = \<lparr>ps_tokens = xs @ ts, ps_pos = length xs, ps_strict = s\<rparr>"

lemma cur_simps [simp]:
  "current (cur xs (t # ts) s) = Some t"
  "ps_at_end (cur xs (t # ts) s) = (tk_type t = T_EndOfFile)"
  "tk_type t \<noteq> T_EndOfFile \<Longrightarrow> ps_advance (cur xs (t # ts) s) = Some (cur (xs @ [t]) ts s)"
  "ps_strict (cur xs ts s) = s"
  by (simp_all add: cur_def current_def ps_at_end_def ps_advance_def)

lemma skip_nl_cur:
  "newlines nls \<Longrightarrow> tk_type t \<noteq> T_Newline \<Longrightarrow> skip_nl (cur xs (nls @ t # ts) s) = cur (xs @ nls) (t # ts) s"
proof (induction nls arbitrary: xs)
  case Nil
  then show ?case by (subst skip_nl.simps) (simp add: cur_def)
next
  case (Cons n nls)
  have "skip_nl (cur xs ((n # nls) @ t # ts) s) = skip_nl (cur (xs @ [n]) (nls @ t # ts) s)"
    using Cons.prems by (subst skip_nl.simps) (simp add: cur_def ps_at_end_def)
  then show ?case using Cons by simp
qed

lemma skip_if_cur:
  "opt_tok ty ts \<Longrightarrow> tk_type u \<noteq> ty \<Longrightarrow> ty \<noteq> T_EndOfFile \<Longrightarrow>
     skip_if ty (cur xs (ts @ u # us) s) = Some (cur (xs @ ts) (u # us) s)"
  by (auto simp: opt_tok_def skip_if_def)

lemma skip_if_cur0: "tk_type u \<noteq> ty \<Longrightarrow> skip_if ty (cur xs (u # us) s) = Some (cur xs (u # us) s)"
  by (simp add: skip_if_def)

lemma attr_step:
  assumes "attr_tokens ts a" and "tk_type u \<noteq> T_Comma"
  shows "block_step (cur xs (ts @ u # us) s) acc = Some (False, cur (xs @ ts) (u # us) s, acc @ [a])"
  using assms
proof cases
  case (1 nls k cs v ms)
  have "skip_nl (cur xs (ts @ u # us) s) = cur (xs @ nls) (k # cs @ v # ms @ u # us) s"
    using 1 skip_nl_cur [of nls k xs "cs @ v # ms @ u # us" s] by simp
  moreover have "skip_if T_Colon (cur (xs @ nls @ [k]) (cs @ v # ms @ u # us) s)
      = Some (cur (xs @ nls @ k # cs) (v # ms @ u # us) s)"
  proof (cases "cs = []")
    case True
    then show ?thesis using 1 by (simp add: skip_if_cur0)
  next
    case False
    then obtain c where "cs = [c]" "tk_type c = T_Colon" using 1 by (auto simp: opt_tok_def)
    then show ?thesis by (simp add: skip_if_def)
  qed
  moreover have "skip_if T_Comma (cur (xs @ nls @ k # cs @ [v]) (ms @ u # us) s)
      = Some (cur (xs @ ts) (u # us) s)"
    using 1 assms(2) skip_if_cur [of T_Comma ms u "xs @ nls @ k # cs @ [v]" us s] by simp
  ultimately show ?thesis
    using 1 by (simp add: block_step_def Let_def)
qed

lemma attr_first:
  assumes "attr_tokens ts a"
  shows "\<exists>t ts'. ts = t # ts' \<and> tk_type t \<in> {T_Newline, T_Identifier}"
  using assms
proof cases
  case (1 nls k cs v ms)
  then show ?thesis by (cases nls) auto
qed

lemma attrs_first:
  assumes "attrs_tokens ts as" and "tk_type r = T_Rbrace"
  shows "\<exists>u us'. ts @ r # us = u # us' \<and> tk_type u \<in> {T_Newline, T_Identifier, T_Rbrace}"
  using assms
proof cases
  case attrs_Nil
  then show ?thesis using assms(2) by (cases ts) auto
next
  case (attrs_Cons ts1 a us1 as1)
  then show ?thesis using attr_first [of ts1 a] by auto
qed

lemma attrs_loop:
  assumes "attrs_tokens ts as" and "tk_type r = T_Rbrace"
  shows "block_loop (cur xs (ts @ r # us) s) acc = Some (cur (xs @ ts) (r # us) s, acc @ as)"
  using assms
proof (induction ts as arbitrary: xs acc rule: attrs_tokens.induct)
  case (attrs_Nil nls)
  show ?case
  proof (cases nls)
    case Nil
    with attrs_Nil show ?thesis by (subst block_loop.simps) simp
  next
    case (Cons n nls')
    have "skip_nl (cur xs (nls @ r # us) s) = cur (xs @ nls) (r # us) s"
      using attrs_Nil by (intro skip_nl_cur) auto
    then show ?thesis using attrs_Nil Cons
      by (subst block_loop.simps) (simp add: block_step_def Let_def)
  qed
next
  case (attrs_Cons ts a us1 as)
  obtain u us' where u: "us1 @ r # us = u # us'" "tk_type u \<in> {T_Newline, T_Identifier, T_Rbrace}"
    using attrs_first [OF attrs_Cons(2,4)] by blast
  obtain t ts' where t: "ts = t # ts'" "tk_type t \<in> {T_Newline, T_Identifier}"
    using attr_first [OF attrs_Cons(1)] by blast
  have "block_step (cur xs (ts @ u # us') s) acc = Some (False, cur (xs @ ts) (u # us') s, acc @ [a])"
    using attrs_Cons(1) u(2) by (intro attr_step) auto
  then have "block_loop (cur xs ((ts @ us1) @ r # us) s) acc = block_loop (cur (xs @ ts) (us1 @ r # us) s) (acc @ [a])"
    unfolding append_assoc u(1) using t by (subst block_loop.simps) auto
  then show ?case using attrs_Cons by simp
qed

lemma parse_block_cur:
  assumes "tk_type l = T_Lbrace" "attrs_tokens ts as" "tk_type r = T_Rbrace"
  shows "parse_block (cur xs (l # ts @ r # us) s) acc = Some (cur (xs @ l # ts @ [r]) us s, acc @ as)"
  using assms attrs_loop [OF assms(2,3), of "xs @ [l]" us s acc]
  by (simp add: parse_block_def skip_if_def)

lemma stmt_step:
  assumes "stmt_tokens ts n"
  shows "parse_step (cur xs (ts @ us) s) kids = Some (Inr (cur (xs @ ts) us s, kids @ [n]))"
  using assms
proof cases
  case (stmt_manifest nls m nm l ts1 as r)
  have "skip_nl (cur xs (ts @ us) s) = cur (xs @ nls) (m # nm @ l # ts1 @ r # us) s"
    using stmt_manifest skip_nl_cur [of nls m xs "nm @ l # ts1 @ r # us" s] by simp
  moreover have "parse_manifest (cur (xs @ nls) (m # nm @ l # ts1 @ r # us) s) = Some (cur (xs @ ts) us s, n)"
  proof (cases "nm = []")
    case True
    then show ?thesis
      using stmt_manifest parse_block_cur [of l ts1 as r "xs @ nls @ [m]" us s "[]"]
      by (simp add: parse_manifest_def)
  next
    case False
    then obtain h where "nm = [h]" "tk_type h = T_Identifier"
      using stmt_manifest by (auto simp: opt_tok_def)
    then show ?thesis
      using stmt_manifest parse_block_cur [of l ts1 as r "xs @ nls @ [m, h]" us s "[]"]
      by (simp add: parse_manifest_def)
  qed
  ultimately show ?thesis using stmt_manifest by (simp add: parse_step_def Let_def)
next
  case (stmt_create nls c w l ts1 as r)
  have "skip_nl (cur xs (ts @ us) s) = cur (xs @ nls) (c # w # l # ts1 @ r # us) s"
    using stmt_create skip_nl_cur [of nls c xs "w # l # ts1 @ r # us" s] by simp
  moreover have "parse_create (cur (xs @ nls) (c # w # l # ts1 @ r # us) s) = Some (cur (xs @ ts) us s, n)"
    using stmt_create parse_block_cur [of l ts1 as r "xs @ nls @ [c, w]" us s "[(''widget_type'', tk_value w)]"]
    by (simp add: parse_create_def)
  ultimately show ?thesis using stmt_create by (simp add: parse_step_def Let_def)
qed

lemma stmt_first:
  assumes "stmt_tokens ts n"
  shows "\<exists>t ts'. ts = t # ts' \<and> tk_type t \<noteq> T_EndOfFile"
  using assms
proof cases
  case (stmt_manifest nls m nm l ts1 as r)
  then show ?thesis by (cases nls) auto
next
  case (stmt_create nls c w l ts1 as r)
  then show ?thesis by (cases nls) auto
qed

lemma program_loop:
  assumes "program_tokens ts ns" and "tk_type e = T_EndOfFile"
  shows "parse_loop (cur xs (ts @ [e]) s) kids = Some (Inr (kids @ ns))"
  using assms
proof (induction ts ns arbitrary: xs kids rule: program_tokens.induct)
  case (program_Nil nls)
  have "skip_nl (cur xs (nls @ [e]) s) = cur (xs @ nls) [e] s"
    using program_Nil by (intro skip_nl_cur) auto
  then show ?case using program_Nil
    by (subst parse_loop.simps) (simp add: parse_step_def)
next
  case (program_Cons ts n us ns)
  have "\<not> ps_at_end (cur xs ((ts @ us) @ [e]) s)" using stmt_first [OF program_Cons(1)] by auto
  moreover have "parse_step (cur xs ((ts @ us) @ [e]) s) kids
      = Some (Inr (cur (xs @ ts) (us @ [e]) s, kids @ [n]))"
    using stmt_step [OF program_Cons(1), of xs "us @ [e]"] by simp
  moreover have "parse_loop (cur (xs @ ts) (us @ [e]) s) (kids @ [n]) = Some (Inr (kids @ n # ns))"
    using program_Cons by simp
  moreover have "kids @ [n] = kids @ n # ns" if "ps_at_end (cur (xs @ ts) (us @ [e]) s)"
    using calculation(3) that by (simp add: parse_loop.simps [of "cur (xs @ ts) (us @ [e]) s"])
  ultimately show ?case by (subst parse_loop.simps) auto
qed

text \<open>C2. The parser accepts every token sequence of the grammar, strict or not, and returns the
  tree the grammar gives it: one node per statement, in order, with the attributes in order.\<close>

theorem parser_follows_grammar:
  assumes "program_tokens ts ns" and "tk_type e = T_EndOfFile"
  shows "parse (set_strict s (Parser_new (ts @ [e]))) = Some (Result_ok (ASTNode N_Manifest ''program'' [] [] ns))"
proof -
  have "set_strict s (Parser_new (ts @ [e])) = cur [] (ts @ [e]) s"
    by (simp add: set_strict_def Parser_new_def cur_def)
  then show ?thesis using program_loop [OF assms, of "[]" s "[]"] by (simp add: parse_def)
qed

theorem parser_follows_grammar_witness:
  "parse (set_strict True (Parser_new
     [Token T_Create ''create'' 1 1, Token T_Identifier ''RADIANT_TEXT'' 1 8, Token T_Lbrace ''{'' 1 21,
      Token T_Newline [nl] 1 22, Token T_Identifier ''content'' 2 3, Token T_Colon '':'' 2 10,
      Token T_String ''hi'' 2 12, Token T_Rbrace ''}'' 2 17, Token T_EndOfFile [] 2 18]))
   = Some (Result_ok (ASTNode N_Manifest ''program'' [] []
       [ASTNode N_RadiantText [] [(''widget_type'', ''RADIANT_TEXT''), (''content'', ''hi'')] [] []]))"
proof -
  let ?c = "Token T_Create ''create'' 1 1" and ?w = "Token T_Identifier ''RADIANT_TEXT'' 1 8"
  let ?l = "Token T_Lbrace ''{'' 1 21" and ?r = "Token T_Rbrace ''}'' 2 17"
  let ?as = "[Token T_Newline [nl] 1 22, Token T_Identifier ''content'' 2 3, Token T_Colon '':'' 2 10,
      Token T_String ''hi'' 2 12]"
  have "attr_tokens ?as (''content'', ''hi'')"
    using attr_tokens.intros [of "[Token T_Newline [nl] 1 22]" "Token T_Identifier ''content'' 2 3"
        "[Token T_Colon '':'' 2 10]" "Token T_String ''hi'' 2 12" "[]"]
    by (simp add: opt_tok_def)
  then have "attrs_tokens ?as [(''content'', ''hi'')]"
    using attrs_Cons [of ?as "(''content'', ''hi'')" "[]" "[]"] attrs_Nil [of "[]"] by simp
  then have "stmt_tokens (?c # ?w # ?l # ?as @ [?r])
      (ASTNode N_RadiantText [] [(''widget_type'', ''RADIANT_TEXT''), (''content'', ''hi'')] [] [])"
    using stmt_create [of "[]" ?c ?w ?l ?as "[(''content'', ''hi'')]" ?r] by (simp add: widget_node_type_def)
  then have "program_tokens (?c # ?w # ?l # ?as @ [?r])
      [ASTNode N_RadiantText [] [(''widget_type'', ''RADIANT_TEXT''), (''content'', ''hi'')] [] []]"
    using program_Cons program_Nil [of "[]"] by fastforce
  then show ?thesis
    using parser_follows_grammar [of "?c # ?w # ?l # ?as @ [?r]" _ "Token T_EndOfFile [] 2 18" True] by simp
qed

end
