(* ===== verification/Lamia_Transpiler.thy ===== *)
theory Lamia_Transpiler
  imports Lamia_Parser
begin

text \<open>
  The transpiler, the compiler that drives lexer, parser and transpiler
  (\<open>src/language/lamia.compiler.cppm\<close>), and the C functions over it
  (\<open>src/capi/lamia_capi.cppm\<close>). The lemmas show that the in-place escaping loop is the
  character-wise substitution, that it can be undone, which attributes can and which cannot add
  markup to the page, that compiling without strict mode always gives a page, and what the C
  functions write into the caller's memory.
\<close>

section \<open>Options\<close>

record TranspilerOptions =
  to_target :: string
  to_pretty_print :: bool
  to_emit_comments :: bool

record CompilerOptions =
  co_target :: string
  co_pretty_print :: bool
  co_emit_comments :: bool
  co_strict :: bool

definition TranspilerOptions_default :: TranspilerOptions where
  "TranspilerOptions_default = \<lparr>to_target = ''html'', to_pretty_print = True, to_emit_comments = False\<rparr>"

definition CompilerOptions_default :: CompilerOptions where
  "CompilerOptions_default =
     \<lparr>co_target = ''html'', co_pretty_print = True, co_emit_comments = False, co_strict = False\<rparr>"

section \<open>Escaping\<close>

text \<open>The loop of the lambda \<open>esc\<close>, which edits the string at index \<open>i\<close> in place.\<close>

definition replace1 :: "string \<Rightarrow> nat \<Rightarrow> string \<Rightarrow> string" where
  "replace1 s i r = take i s @ r @ drop (Suc i) s"

function esc_loop :: "string \<Rightarrow> nat \<Rightarrow> string" where
  "esc_loop s i =
     (if i < length s then
        (if s ! i = CHR ''<'' then esc_loop (replace1 s i ''&lt;'') (i + 4)
         else if s ! i = CHR ''>'' then esc_loop (replace1 s i ''&gt;'') (i + 4)
         else if s ! i = CHR ''&'' then esc_loop (replace1 s i ''&amp;'') (i + 5)
         else esc_loop s (i + 1))
      else s)"
  by pat_completeness auto
termination by (relation "measure (\<lambda>(s, i). length s - i)") (auto simp: replace1_def)

declare esc_loop.simps [simp del]

definition esc :: "string \<Rightarrow> string" where
  "esc s = esc_loop s 0"

definition esc_char :: "char \<Rightarrow> string" where
  "esc_char c =
     (if c = CHR ''<'' then ''&lt;'' else if c = CHR ''>'' then ''&gt;''
      else if c = CHR ''&'' then ''&amp;'' else [c])"

lemma replace1_split: "replace1 (p @ c # s) (length p) r = p @ r @ s"
  by (simp add: replace1_def)

lemma esc_loop_split: "esc_loop (p @ s) (length p) = p @ concat (map esc_char s)"
proof (induction s arbitrary: p)
  case Nil
  then show ?case by (subst esc_loop.simps) simp
next
  case (Cons c s)
  have step: "esc_loop (p @ c # s) (length p) = esc_loop ((p @ esc_char c) @ s) (length (p @ esc_char c))"
    by (subst esc_loop.simps) (auto simp: esc_char_def replace1_split numeral_eq_Suc)
  show ?case unfolding step Cons.IH by simp
qed

lemma esc_eq: "esc s = concat (map esc_char s)"
  using esc_loop_split [of "[]" s] by (simp add: esc_def)

lemma esc_no_angles: "CHR ''<'' \<notin> set (esc s)" "CHR ''>'' \<notin> set (esc s)"
  by (auto simp: esc_eq esc_char_def split: if_splits)

text \<open>What a browser makes of the three entities.\<close>

fun decode_entities :: "string \<Rightarrow> string" where
  "decode_entities [] = []"
| "decode_entities (c # cs) =
     (if starts_with ''&lt;'' (c # cs) then CHR ''<'' # decode_entities (drop 3 cs)
      else if starts_with ''&gt;'' (c # cs) then CHR ''>'' # decode_entities (drop 3 cs)
      else if starts_with ''&amp;'' (c # cs) then CHR ''&'' # decode_entities (drop 4 cs)
      else c # decode_entities cs)"

lemma escaping_undone: "decode_entities (esc s) = s"
  unfolding esc_eq
proof (induction s)
  case (Cons c s)
  then show ?case by (auto simp: esc_char_def)
qed simp

text \<open>The escaping loop terminates on every string, its result has no angle bracket, and
  decoding the entities gives the string back.\<close>

theorem escaping_round_trip:
  "decode_entities (esc s) = s \<and> CHR ''<'' \<notin> set (esc s) \<and> CHR ''>'' \<notin> set (esc s)"
  using escaping_undone esc_no_angles by simp

section \<open>Emitting nodes\<close>

definition attr :: "ASTNode \<Rightarrow> string \<Rightarrow> string" where
  "attr n k = (case map_of (n_attributes n) k of Some v \<Rightarrow> v | None \<Rightarrow> [])"

definition emit_leaf :: "TranspilerOptions \<Rightarrow> ASTNode \<Rightarrow> string" where
  "emit_leaf opts n =
     (let sp = (if to_pretty_print opts then ''    '' else []);
          nl = (if to_pretty_print opts then [nl] else [])
      in (case n_type n of
            N_RadiantHeading \<Rightarrow>
              sp @ ''<div class=\"radiant-heading\"><h1>'' @ esc (attr n ''content'') @ ''</h1></div>'' @ nl
          | N_RadiantText \<Rightarrow>
              sp @ ''<div class=\"radiant-text\"><p>'' @ esc (attr n ''content'') @ ''</p></div>'' @ nl
          | N_RadiantButton \<Rightarrow>
              sp @ ''<div class=\"radiant-button\"><button onclick=\"'' @ attr n ''action'' @ ''\">''
                 @ esc (attr n ''content'') @ ''</button></div>'' @ nl
          | N_RadiantQuote \<Rightarrow>
              sp @ ''<div class=\"radiant-quote\"><blockquote>'' @ esc (attr n ''content'') @ ''</blockquote></div>'' @ nl
          | N_GcodeBlock \<Rightarrow>
              sp @ ''<div class=\"gcode-block\"><pre>'' @ esc (attr n ''commands'') @ ''</pre></div>'' @ nl
          | N_ConstellationList \<Rightarrow>
              sp @ ''<div class=\"constellation-list\"><h3>'' @ esc (attr n ''title'') @ ''</h3><ul></ul></div>'' @ nl
          | _ \<Rightarrow> []))"

fun emit_node :: "TranspilerOptions \<Rightarrow> ASTNode \<Rightarrow> string" where
  "emit_node opts (ASTNode ty name as content kids) =
     (if ty = N_Manifest \<or> ty = N_Startup then concat (map (emit_node opts) kids)
      else emit_leaf opts (ASTNode ty name as content kids))"

definition html_head :: string where
  "html_head = ''<!DOCTYPE html>'' @ [nl] @ ''<html lang=\"en\">'' @ [nl]
     @ ''<head><meta charset=\"UTF-8\"><title>Lamia</title></head>'' @ [nl] @ ''<body>'' @ [nl]
     @ ''<div class=\"lamia-app\">'' @ [nl]"

definition html_foot :: string where
  "html_foot = ''</div>'' @ [nl] @ ''</body>'' @ [nl] @ ''</html>'' @ [nl]"

definition transpile :: "TranspilerOptions \<Rightarrow> ASTNode option \<Rightarrow> (string, Error) Result" where
  "transpile opts ast =
     (case ast of
        None \<Rightarrow> Result_err (Error_new 1 (Some ''null AST''))
      | Some r \<Rightarrow>
          Result_ok ((if to_emit_comments opts then ''<!-- Lamia 0.5.0 transpiler output -->'' @ [nl] else [])
            @ html_head @ concat (map (emit_node opts) (n_children r)) @ html_foot))"

text \<open>The target option reaches the transpiler and is never read.\<close>

lemma emit_leaf_target: "emit_leaf (opts\<lparr>to_target := t\<rparr>) n = emit_leaf opts n"
  by (simp add: emit_leaf_def)

lemma emit_node_target: "emit_node (opts\<lparr>to_target := t\<rparr>) n = emit_node opts n"
proof (induction opts n rule: emit_node.induct)
  case (1 opts ty name as content kids)
  then show ?case by (auto simp: emit_leaf_target intro!: arg_cong [where f = concat])
qed

lemma transpile_ignores_target: "transpile (opts\<lparr>to_target := t\<rparr>) ast = transpile opts ast"
  by (simp add: transpile_def emit_node_target cong: map_cong split: option.split)

section \<open>The compiler\<close>

record Compiler =
  cp_options :: CompilerOptions
  cp_ast :: "ASTNode option"

definition Compiler_new :: Compiler where
  "Compiler_new = \<lparr>cp_options = CompilerOptions_default, cp_ast = None\<rparr>"

definition returned :: "'a outcome \<Rightarrow> 'a option" where
  "returned r = (case r of Returns x \<Rightarrow> Some x | _ \<Rightarrow> None)"

text \<open>\<open>None\<close> is an undefined read.\<close>

definition compile :: "Compiler \<Rightarrow> string \<Rightarrow> ((string, Error) Result \<times> Compiler) option" where
  "compile c src =
     (let tr = fst (tokenize (Lexer_new src)) in
      if \<not> r_is_ok tr then do { e \<leftarrow> returned (Result_error tr); Some (Result_err e, c) }
      else do {
        toks \<leftarrow> returned (Result_value tr);
        ar \<leftarrow> parse (set_strict (co_strict (cp_options c)) (Parser_new toks));
        if \<not> r_is_ok ar then do { e \<leftarrow> returned (Result_error ar); Some (Result_err e, c) }
        else do {
          a \<leftarrow> returned (Result_value ar);
          let c' = c\<lparr>cp_ast := Some a\<rparr>;
              opts = \<lparr>to_target = co_target (cp_options c), to_pretty_print = co_pretty_print (cp_options c),
                      to_emit_comments = co_emit_comments (cp_options c)\<rparr>
          in Some (transpile opts (cp_ast c'), c')
        }
      })"

definition compile_source :: "string \<Rightarrow> (string, Error) Result option" where
  "compile_source src = do { (r, c) \<leftarrow> compile Compiler_new src; Some r }"

lemma Result_simps [simp]:
  "r_is_ok (Result_ok v)" "\<not> r_is_ok (Result_err e)"
  "returned (Result_value (Result_ok v)) = Some v" "returned (Result_error (Result_err e)) = Some e"
  by (simp_all add: Result_defs returned_def)

lemma parse_result_shape:
  assumes "parse p = Some r"
  shows "(\<exists>e. r = Result_err e) \<or> (\<exists>kids. r = Result_ok (ASTNode N_Manifest ''program'' [] [] kids))"
  using assms by (auto simp: parse_def split: bind_split_asm sum.splits)

text \<open>The page of a list of nodes under the default options.\<close>

definition page :: "ASTNode list \<Rightarrow> string" where
  "page kids = html_head @ concat (map (emit_node TranspilerOptions_default) kids) @ html_foot"

lemma compile_source_page:
  assumes "parse (Parser_new (lex src)) = Some (Result_ok (ASTNode N_Manifest ''program'' [] [] kids))"
  shows "compile_source src = Some (Result_ok (page kids))"
  using assms
  by (simp add: compile_source_def compile_def tokenize_Lexer_new Compiler_new_def CompilerOptions_default_def
      set_strict_def Parser_new_def transpile_def page_def TranspilerOptions_default_def Let_def)

text \<open>Compiling with the default options never fails: for every source text it returns the page
  whose body is the nodes of the parsed program.\<close>

theorem compile_source_total:
  "\<exists>kids. parse (Parser_new (lex src)) = Some (Result_ok (ASTNode N_Manifest ''program'' [] [] kids))
     \<and> compile_source src = Some (Result_ok (page kids))"
proof -
  have e: "set_strict False (Parser_new (lex src)) = Parser_new (lex src)"
    by (simp add: set_strict_def Parser_new_def)
  obtain r where r: "parse (Parser_new (lex src)) = Some r" "r_is_ok r"
    using parse_safe [OF safe_lex [of False src]] unfolding e by (auto simp: Parser_new_def)
  then obtain kids where "r = Result_ok (ASTNode N_Manifest ''program'' [] [] kids)"
    using parse_result_shape [OF r(1)] by auto
  with r(1) show ?thesis using compile_source_page by blast
qed

section \<open>Markup injection\<close>

definition angles :: "string \<Rightarrow> string" where
  "angles s = filter (\<lambda>c. c = CHR ''<'' \<or> c = CHR ''>'') s"

lemma angles_append [simp]: "angles (a @ b) = angles a @ angles b"
  by (simp add: angles_def)

lemma angles_esc [simp]: "angles (esc s) = []"
  using esc_no_angles [of s] by (auto simp: angles_def filter_empty_conv)

lemma angles_concat: "angles (concat ss) = concat (map angles ss)"
  by (induction ss) (simp_all add: angles_def)

lemma angles_simps [simp]:
  "angles [] = []"
  "angles (c # s) = (if c = CHR ''<'' \<or> c = CHR ''>'' then c # angles s else angles s)"
  by (simp_all add: angles_def)

fun no_buttons :: "ASTNode \<Rightarrow> bool" where
  "no_buttons (ASTNode ty name as content kids) \<longleftrightarrow> ty \<noteq> N_RadiantButton \<and> (\<forall>k\<in>set kids. no_buttons k)"

text \<open>The same tree with every attribute dropped.\<close>

fun without_attributes :: "ASTNode \<Rightarrow> ASTNode" where
  "without_attributes (ASTNode ty name as content kids) = ASTNode ty name [] content (map without_attributes kids)"

lemma angles_emit_leaf:
  "n_type n \<noteq> N_RadiantButton \<Longrightarrow> n_type m = n_type n \<Longrightarrow> angles (emit_leaf opts n) = angles (emit_leaf opts m)"
  by (cases "n_type n") (simp_all add: emit_leaf_def Let_def)

lemma angles_emit_node:
  "no_buttons n \<Longrightarrow> angles (emit_node opts n) = angles (emit_node opts (without_attributes n))"
proof (induction opts n rule: emit_node.induct)
  case (1 opts ty name as content kids)
  show ?case
  proof (cases "ty = N_Manifest \<or> ty = N_Startup")
    case True
    have "concat (map (\<lambda>k. angles (emit_node opts k)) kids)
        = concat (map (\<lambda>k. angles (emit_node opts (without_attributes k))) kids)"
      using 1 True by (intro arg_cong [where f = concat]) simp
    with True show ?thesis by (simp add: angles_concat comp_def)
  next
    case False
    with 1 show ?thesis
      by (simp add: angles_emit_leaf [of "ASTNode ty name as content kids"
            "ASTNode ty name [] content (map without_attributes kids)"])
  qed
qed

text \<open>In a program without button nodes no attribute value can add or remove markup: the angle
  brackets of the page are the ones of the same program with all attributes dropped.\<close>

theorem attributes_add_no_markup:
  assumes "list_all no_buttons kids"
  shows "angles (page kids) = angles (page (map without_attributes kids))"
proof -
  let ?o = TranspilerOptions_default
  have "concat (map (\<lambda>k. angles (emit_node ?o k)) kids)
      = concat (map (\<lambda>k. angles (emit_node ?o (without_attributes k))) kids)"
    using assms angles_emit_node by (intro arg_cong [where f = concat]) (auto simp: list_all_iff)
  then show ?thesis by (simp add: page_def angles_concat comp_def)
qed

theorem attributes_add_no_markup_witness:
  "angles (page [ASTNode N_RadiantText [] [(''content'', ''<b>'')] [] []])
   = angles (page [ASTNode N_RadiantText [] [] [] []])"
  using attributes_add_no_markup [of "[ASTNode N_RadiantText [] [(''content'', ''<b>'')] [] []]"] by simp

text \<open>A button's \<open>action\<close> is copied into the page as it is, so it can close the attribute and the
  tag and add an element of its own.\<close>

lemma button_action_injects_markup:
  "emit_node TranspilerOptions_default
     (ASTNode N_RadiantButton [] [(''action'', ''\"><script>x()</script><b a=\"'')] [] [])
   = ''    <div class=\"radiant-button\"><button onclick=\"\"><script>x()</script><b a=\"\"></button></div>'' @ [nl]"
  by (simp add: emit_leaf_def Let_def attr_def esc_eq TranspilerOptions_default_def)

end
