(* ===== verification/C_Api.thy ===== *)
theory C_Api
  imports Lamia_Transpiler
begin

text \<open>
  The C functions of \<open>src/capi/lamia_capi.cppm\<close>. A \<open>char const*\<close> is \<open>None\<close> for a null pointer and
  otherwise the bytes from the pointer on; the callee reads it up to its terminator. The result
  of \<open>malloc\<close> is a parameter. The lemmas trace the bytes of the source through lexer, parser and
  transpiler to show that the page has no terminator inside, so the C string is the whole page.
\<close>

section \<open>The functions\<close>

record Globals =
  g_initialized :: bool
  g_lamia_initialized :: bool

definition ensure_initialized :: "Globals \<Rightarrow> bool \<times> Globals" where
  "ensure_initialized g =
     (if g_initialized g then (True, g)
      else (case core_initialize (g_lamia_initialized g) of
              (ok, flag) \<Rightarrow> (ok, g\<lparr>g_lamia_initialized := flag, g_initialized := ok\<rparr>)))"

text \<open>The returned buffer, \<open>None\<close> for \<open>nullptr\<close>; the outer \<open>None\<close> is undefined behaviour.\<close>

definition lamia_compile_to_html ::
  "(nat \<Rightarrow> bool) \<Rightarrow> Globals \<Rightarrow> string option \<Rightarrow> (char list option \<times> Globals) option" where
  "lamia_compile_to_html malloc_ok g lamia_source =
     (case lamia_source of
        None \<Rightarrow> Some (None, g)
      | Some s \<Rightarrow>
          (case ensure_initialized g of (ok, g) \<Rightarrow>
             if \<not> ok then Some (None, g)
             else do {
               r \<leftarrow> compile_source (c_str s);
               if \<not> r_is_ok r then Some (None, g)
               else do {
                 out \<leftarrow> returned (Result_value r);
                 if \<not> malloc_ok (length out + 1) then Some (None, g)
                 else Some (Some (out @ [NUL]), g)
               }
             }))"

text \<open>The return value and the caller's buffer after the call.\<close>

definition lamia_compile_to_html_buf ::
  "Globals \<Rightarrow> string option \<Rightarrow> char list option \<Rightarrow> 32 word \<Rightarrow> (int \<times> char list option \<times> Globals) option" where
  "lamia_compile_to_html_buf g lamia_source out_buf out_size =
     (if lamia_source = None \<or> out_buf = None \<or> out_size = 0 then Some (0, out_buf, g)
      else
        (case ensure_initialized g of (ok, g) \<Rightarrow>
           if \<not> ok then Some (0, out_buf, g)
           else do {
             r \<leftarrow> compile_source (c_str (the lamia_source));
             if \<not> r_is_ok r then Some (0, out_buf, g)
             else do {
               out \<leftarrow> returned (Result_value r);
               if unat out_size \<le> length out then Some (0, out_buf, g)
               else Some (1, Some (out @ NUL # drop (length out + 1) (the out_buf)), g)
             }
           }))"

lemma ensure_initialized_ok: "ensure_initialized g = (ok, g') \<Longrightarrow> ok \<and> g_initialized g'"
  by (auto simp: ensure_initialized_def core_initialize_def split: if_splits)

section \<open>No terminator inside the page\<close>

abbreviation no_nul :: "string \<Rightarrow> bool" where
  "no_nul s \<equiv> NUL \<notin> set s"

definition clean_tokens :: "Token list \<Rightarrow> bool" where
  "clean_tokens ts \<longleftrightarrow> (\<forall>t\<in>set ts. no_nul (tk_value t))"

definition clean_lexer :: "Lexer \<Rightarrow> bool" where
  "clean_lexer l \<longleftrightarrow> no_nul (source l) \<and> clean_tokens (lx_tokens l)"

lemma no_nul_cur: "no_nul (source l) \<Longrightarrow> \<not> lx_at_end l \<Longrightarrow> lx_cur l \<noteq> NUL"
  by (metis lx_at_end_def not_le nth_mem)

lemma no_nul_scan: "no_nul (source l) \<Longrightarrow> no_nul (fst (scan_while P [] l))"
  by (auto simp: scan_while_text dest: set_takeWhileD in_set_dropD)

lemma clean_moves: "clean_lexer l \<Longrightarrow> moves l l' \<Longrightarrow> clean_lexer l'"
  by (simp add: clean_lexer_def moves_def)

lemma clean_push: "clean_lexer l \<Longrightarrow> no_nul v \<Longrightarrow> clean_lexer (push_token ty v a b l)"
  by (simp add: clean_lexer_def clean_tokens_def)

lemma clean_string_step:
  assumes "no_nul (source l)" "\<not> lx_at_end l"
  shows "fst (string_step l) \<noteq> NUL"
proof (cases "lx_cur l = bslash \<and> lx_pos l + 1 < length (source l)")
  case True
  then have "\<not> lx_at_end (lx_advance l)" using assms(2)
    by (simp add: lx_at_end_def pos_advance)
  then have "lx_cur (lx_advance l) \<noteq> NUL" using assms(1) no_nul_cur [of "lx_advance l"] by simp
  with True show ?thesis by (simp add: string_step_def Let_def unescape_def)
next
  case False
  then show ?thesis using no_nul_cur [OF assms] by (auto simp: string_step_def)
qed

lemma clean_string_loop:
  assumes "no_nul (source l)"
  shows "no_nul (fst (string_loop [] l))"
proof -
  have "(\<lambda>(v, m). no_nul v \<and> no_nul (source m)) (case ([], l) of (v, m) \<Rightarrow> string_loop v m)"
  proof (rule strings.run_invariant)
    fix s :: "string \<times> Lexer"
    assume I: "case s of (v, m) \<Rightarrow> no_nul v \<and> no_nul (source m)"
      and g: "\<not> (case s of (v, l) \<Rightarrow> \<not> (\<not> lx_at_end l \<and> lx_cur l \<noteq> dquote))"
    then show "case case s of (v, l) \<Rightarrow> (v @ [fst (string_step l)], snd (string_step l)) of
        (v, m) \<Rightarrow> no_nul v \<and> no_nul (source m)"
      using clean_string_step [of "snd s"] movesD(1) [OF moves_string_step [of "snd s"]]
      by (auto split: prod.splits)
  qed (use assms in simp)
  then show ?thesis by (auto split: prod.splits)
qed

lemma clean_lex_switch: "clean_lexer l \<Longrightarrow> \<not> lx_at_end l \<Longrightarrow> clean_lexer (lex_switch l)"
  using no_nul_cur [of l]
  by (auto simp: lex_switch_def advance_push clean_lexer_def clean_tokens_def split: option.split)

lemma clean_lex_step: "clean_lexer l \<Longrightarrow> clean_lexer (lex_step l)"
proof -
  assume "clean_lexer l"
  then have c: "clean_lexer (skip_whitespace l)" by (rule clean_moves) (rule moves_skip_whitespace)
  let ?w = "skip_whitespace l"
  have n: "no_nul (source ?w)" using c by (simp add: clean_lexer_def)
  have "clean_lexer (lex_word ?w)" "clean_lexer (lex_number ?w)"
    using n by (simp_all add: lex_word_def lex_number_def split_beta clean_push no_nul_scan
        clean_moves [OF c moves_scan_while])
  moreover have "clean_lexer (lex_string ?w)"
  proof -
    let ?m = "snd (string_loop [] (lx_advance ?w))"
    have m: "moves ?w ?m"
      using moves_advance moves_string_loop moves_trans by blast
    have "moves ?w (if lx_at_end ?m then ?m else lx_advance ?m)"
      using m moves_advance2 [OF m] by simp
    then show ?thesis
      using n by (simp add: lex_string_def split_beta clean_push clean_moves [OF c] clean_string_loop)
  qed
  moreover have "clean_lexer (skip_line_comment ?w)" "clean_lexer (skip_block_comment ?w)"
    by (auto intro: clean_moves [OF c] moves_loops)
  ultimately show ?thesis using c clean_lex_switch by (simp add: lex_step_def Let_def)
qed

lemma clean_lex: "no_nul s \<Longrightarrow> clean_tokens (lex s)"
proof -
  assume s: "no_nul s"
  have "clean_lexer (tokenize_loop (Lexer_new s))"
    by (rule rounds.run_invariant)
      (use s in \<open>simp_all add: clean_lex_step clean_lexer_def clean_tokens_def Lexer_new_def\<close>,
       use clean_lex_step in \<open>simp add: clean_lexer_def clean_tokens_def\<close>)
  then show ?thesis by (auto simp: lex_def Let_def clean_lexer_def clean_tokens_def)
qed

lemma clean_current: "current q = Some t \<Longrightarrow> clean_tokens (ps_tokens q) \<Longrightarrow> no_nul (tk_value t)"
  by (auto simp: clean_tokens_def dest!: currentD)

definition clean_attrs :: "(string \<times> string) list \<Rightarrow> bool" where
  "clean_attrs as \<longleftrightarrow> list_all (\<lambda>a. no_nul (snd a)) as"

lemma clean_block_step:
  assumes "block_step p as = Some (brk, p', as')" "clean_tokens (ps_tokens p)" "clean_attrs as"
  shows "clean_attrs as'"
  using assms
  by (auto simp: block_step_def Let_def clean_attrs_def clean_current split: bind_split_asm if_splits
      dest!: ps_advanceD skip_ifD)

lemma clean_block_loop:
  "block_loop p as = Some (p', as') \<Longrightarrow> clean_tokens (ps_tokens p) \<Longrightarrow> clean_attrs as \<Longrightarrow> clean_attrs as'"
proof (induction p as rule: block_loop.induct)
  case (1 p as)
  show ?case
  proof (cases "ps_at_end p \<or> (\<exists>t. current p = Some t \<and> tk_type t = T_Rbrace)")
    case True
    with "1.prems" show ?thesis by (auto simp: block_loop.simps [of p] split: if_splits)
  next
    case False
    with "1.prems" obtain t brk q b where s: "current p = Some t" "tk_type t \<noteq> T_Rbrace"
      "block_step p as = Some (brk, q, b)"
      "(if brk then Some (q, b) else block_loop q b) = Some (p', as')"
      by (auto simp: block_loop.simps [of p] split: bind_split_asm)
    have "clean_attrs b" using clean_block_step [OF s(3)] "1.prems" by simp
    moreover have "clean_tokens (ps_tokens q)"
      using fwd_block_step [OF s(3)] "1.prems" by (simp add: fwd_def)
    ultimately show ?thesis using s False "1.IH" [OF _ s(1,2,3)] by (cases brk) auto
  qed
qed

lemma clean_parse_block:
  "parse_block p as = Some (p', as') \<Longrightarrow> clean_tokens (ps_tokens p) \<Longrightarrow> clean_attrs as \<Longrightarrow> clean_attrs as'"
  by (auto simp: parse_block_def split: bind_split_asm if_splits dest!: ps_advanceD clean_block_loop)

definition clean_leaf :: "ASTNode \<Rightarrow> bool" where
  "clean_leaf n \<longleftrightarrow> clean_attrs (n_attributes n) \<and> n_children n = []"

lemma clean_parse_manifest:
  "parse_manifest p = Some (p', n) \<Longrightarrow> clean_tokens (ps_tokens p) \<Longrightarrow> clean_leaf n"
  by (auto simp: parse_manifest_def clean_leaf_def clean_attrs_def [of "[]"]
      split: bind_split_asm if_splits dest!: ps_advanceD clean_parse_block)

lemma clean_parse_create:
  "parse_create p = Some (p', n) \<Longrightarrow> clean_tokens (ps_tokens p) \<Longrightarrow> clean_leaf n"
  by (auto simp: parse_create_def clean_leaf_def clean_attrs_def [of "[]"] clean_attrs_def [of "[x]" for x] clean_current
      split: bind_split_asm if_splits dest!: ps_advanceD clean_parse_block)

lemma clean_parse_step:
  assumes "parse_step p kids = Some (Inr (p', kids'))" "clean_tokens (ps_tokens p)" "list_all clean_leaf kids"
  shows "list_all clean_leaf kids'"
  using assms clean_parse_manifest [of "skip_nl p"] clean_parse_create [of "skip_nl p"]
  by (auto simp: parse_step_def Let_def split: bind_split_asm if_splits)

lemma clean_parse_loop:
  "parse_loop p kids = Some (Inr ns) \<Longrightarrow> clean_tokens (ps_tokens p) \<Longrightarrow> list_all clean_leaf kids \<Longrightarrow>
     list_all clean_leaf ns"
proof (induction p kids rule: parse_loop.induct)
  case (1 p kids)
  show ?case
  proof (cases "ps_at_end p")
    case True
    with "1.prems" show ?thesis by (simp add: parse_loop.simps [of p])
  next
    case False
    with "1.prems" obtain q k where s: "parse_step p kids = Some (Inr (q, k))"
      "(if ps_at_end q then Some (Inr k) else parse_loop q k) = Some (Inr ns)"
      by (auto simp: parse_loop.simps [of p] split: bind_split_asm sum.splits)
    have "list_all clean_leaf k" using clean_parse_step [OF s(1)] "1.prems" by simp
    moreover have "clean_tokens (ps_tokens q)"
      using parse_step_progress [OF s(1)] "1.prems" by (simp add: fwd_def)
    ultimately show ?thesis using s False "1.IH" [OF False s(1) refl refl] by (auto split: if_splits)
  qed
qed

lemma clean_parse:
  assumes "parse p = Some (Result_ok (ASTNode N_Manifest ''program'' [] [] kids))" "clean_tokens (ps_tokens p)"
  shows "list_all clean_leaf kids"
  using assms clean_parse_loop [of p "[]" kids]
  by (auto simp: parse_def Result_ok_def Result_err_def split: bind_split_asm sum.splits)

lemma no_nul_esc: "no_nul s \<Longrightarrow> no_nul (esc s)"
  by (auto simp: esc_eq esc_char_def split: if_splits)

lemma no_nul_attr: "clean_attrs (n_attributes n) \<Longrightarrow> no_nul (attr n k)"
  by (cases "map_of (n_attributes n) k")
    (auto simp: attr_def clean_attrs_def list_all_iff dest!: map_of_SomeD)

lemma no_nul_emit_leaf: "clean_leaf n \<Longrightarrow> no_nul (emit_leaf opts n)"
  using no_nul_attr [of n] no_nul_esc
  by (cases "n_type n") (auto simp: emit_leaf_def Let_def clean_leaf_def)

lemma no_nul_emit_node: "clean_leaf n \<Longrightarrow> no_nul (emit_node opts n)"
  using no_nul_emit_leaf [of n opts] by (cases n) (auto simp: clean_leaf_def)

lemma no_nul_page: "list_all clean_leaf kids \<Longrightarrow> no_nul (page kids)"
  using no_nul_emit_node by (auto simp: page_def html_head_def html_foot_def list_all_iff)

lemma no_nul_c_str: "no_nul (c_str s)"
  by (auto simp: c_str_def dest: set_takeWhileD)

text \<open>The page of the C string at a pointer.\<close>

lemma c_page:
  obtains html where "compile_source (c_str s) = Some (Result_ok html)" "no_nul html"
proof -
  obtain kids where k: "parse (Parser_new (lex (c_str s))) = Some (Result_ok (ASTNode N_Manifest ''program'' [] [] kids))"
    "compile_source (c_str s) = Some (Result_ok (page kids))"
    using compile_source_page [of "c_str s"] parse_safe [OF safe_lex [of False "c_str s"]]
      parse_result_shape [of "Parser_new (lex (c_str s))"]
    by (fastforce simp: set_strict_def Parser_new_def)
  then have "list_all clean_leaf kids"
    using clean_parse clean_lex [OF no_nul_c_str] by (simp add: Parser_new_def)
  with k(2) no_nul_page that show thesis by blast
qed

section \<open>What the C functions promise\<close>

text \<open>\<open>lamia_compile_to_html\<close> on a non-null source returns null only when \<open>malloc\<close> fails;
  otherwise the C string at the returned pointer is the whole page of the source's C string, and
  the buffer has exactly its length and a terminator.\<close>

theorem capi_returns_whole_page:
  "\<exists>html g'. compile_source (c_str s) = Some (Result_ok html)
     \<and> lamia_compile_to_html malloc_ok g (Some s)
        = Some (if malloc_ok (length html + 1) then Some (html @ [NUL]) else None, g')
     \<and> c_str (html @ [NUL]) = html"
proof -
  obtain html where h: "compile_source (c_str s) = Some (Result_ok html)" "no_nul html" by (rule c_page)
  then have "c_str (html @ [NUL]) = html"
    unfolding c_str_def by (subst takeWhile_append2) auto
  moreover obtain ok g' where e: "ensure_initialized g = (ok, g')" by fastforce
  moreover have ok using ensure_initialized_ok [OF e] by simp
  ultimately show ?thesis using h by (auto simp: lamia_compile_to_html_def)
qed

text \<open>C3. \<open>lamia_compile_to_html_buf\<close> returns 1 exactly when the page and its terminator fit in
  \<open>out_size\<close> bytes. It then leaves the page as a C string in the buffer, writes no byte at or past
  \<open>out_size\<close>, and otherwise leaves the buffer as it was.\<close>

theorem capi_buffer_bounds:
  assumes "unat out_size \<le> length buf" and "out_size \<noteq> 0"
  shows "\<exists>html buf' g'. compile_source (c_str s) = Some (Result_ok html)
     \<and> lamia_compile_to_html_buf g (Some s) (Some buf) out_size
         = Some (if length html < unat out_size then 1 else 0, Some buf', g')
     \<and> length buf' = length buf \<and> drop (unat out_size) buf' = drop (unat out_size) buf
     \<and> (if length html < unat out_size then c_str buf' = html else buf' = buf)"
proof -
  obtain html where h: "compile_source (c_str s) = Some (Result_ok html)" "no_nul html" by (rule c_page)
  obtain ok g' where e: "ensure_initialized g = (ok, g')" by fastforce
  then have ok: ok using ensure_initialized_ok [OF e] by simp
  show ?thesis
  proof (cases "length html < unat out_size")
    case True
    let ?b = "html @ NUL # drop (length html + 1) buf"
    have "c_str ?b = html"
      unfolding c_str_def using h(2) by (subst takeWhile_append2) auto
    moreover have "drop (unat out_size) ?b = drop (unat out_size) buf"
      using True assms(1) by (simp add: drop_Cons')
    ultimately show ?thesis
      using True h e ok assms by (auto simp: lamia_compile_to_html_buf_def)
  next
    case False
    then show ?thesis using h e ok assms(2) by (auto simp: lamia_compile_to_html_buf_def)
  qed
qed

theorem capi_buffer_bounds_witness:
  "\<exists>r buf' g'. lamia_compile_to_html_buf \<lparr>g_initialized = False, g_lamia_initialized = False\<rparr>
     (Some ''create'') (Some [tab, tab]) 2 = Some (r, Some buf', g') \<and> length buf' = length [tab, tab]"
  using capi_buffer_bounds [of 2 "[tab, tab]" "''create''" "\<lparr>g_initialized = False, g_lamia_initialized = False\<rparr>"]
  by fastforce

end
