(* ===== verification/Lamia_VM.thy ===== *)
theory Lamia_VM
  imports Lamia_Core "HOL-Library.Signed_Division"
begin

text \<open>
  The bytecode machine, \<open>src/language/lamia.runtime.cppm\<close>. A machine integer is a \<open>64 word\<close> read
  as a signed value; an argument is a \<open>32 word\<close>, which the code sign-extends to \<open>std::size_t\<close>
  before it indexes with it. The stack is listed from its top. Whether a vector of a given length
  can be allocated is the parameter \<open>fits\<close>. \<open>run_loop\<close> is \<open>None\<close> on a program that never returns.
  The lemmas show when a program returns, what it leaves on the stack, and when it leaves the
  defined behaviour of the language.
\<close>

section \<open>Instructions and state\<close>

datatype Opcode = Nop | Const | Add | Sub | Mul | Div | Load | Store | Call | Ret | Jump | JumpIfNot | Halt

datatype Instruction = Instruction (op: Opcode) (arg0: "32 word") (arg1: "32 word")

record ExecutionEngine =
  program :: "Instruction list"
  stack :: "64 word list"
  locals :: "64 word list"
  pc :: nat
  status :: string

definition ExecutionEngine_new :: ExecutionEngine where
  "ExecutionEngine_new = \<lparr>program = [], stack = [], locals = [], pc = 0, status = ''idle''\<rparr>"

definition load :: "Instruction list \<Rightarrow> ExecutionEngine \<Rightarrow> ExecutionEngine" where
  "load prog e = \<lparr>program = prog, stack = [], locals = [], pc = 0, status = ''loaded''\<rparr>"

definition engine_reset :: "ExecutionEngine \<Rightarrow> ExecutionEngine" where
  "engine_reset e = \<lparr>program = [], stack = [], locals = [], pc = 0, status = ''idle''\<rparr>"

text \<open>\<open>static_cast<std::size_t>(i.arg0)\<close>.\<close>

definition size_arg :: "Instruction \<Rightarrow> 64 word" where
  "size_arg i = scast (arg0 i)"

section \<open>Arithmetic\<close>

definition int64_min :: int where "int64_min = - (2 ^ 63)"
definition int64_max :: int where "int64_max = 2 ^ 63 - 1"

text \<open>The result of a signed operation; leaving the range is undefined.\<close>

definition int64_result :: "int \<Rightarrow> 64 word outcome" where
  "int64_result x =
     (if int64_min \<le> x \<and> x \<le> int64_max then Returns (word_of_int x) else Undefined ''signed overflow'')"

definition binop :: "Opcode \<Rightarrow> 64 word \<Rightarrow> 64 word \<Rightarrow> 64 word outcome" where
  "binop f a b =
     (case f of
        Add \<Rightarrow> int64_result (sint a + sint b)
      | Sub \<Rightarrow> int64_result (sint a - sint b)
      | Mul \<Rightarrow> int64_result (sint a * sint b)
      | _ \<Rightarrow> (if b \<noteq> 0 then int64_result (sint a sdiv sint b) else Returns 0))"

section \<open>Vectors of locals\<close>

definition vector_max_size :: nat where
  "vector_max_size = 2 ^ 60 - 1"

definition resize :: "(nat \<Rightarrow> bool) \<Rightarrow> nat \<Rightarrow> 64 word list \<Rightarrow> 64 word list outcome" where
  "resize fits n v =
     (if n \<le> length v then Returns (take n v)
      else if vector_max_size < n then Throws ''std::length_error''
      else if \<not> fits n then Throws ''std::bad_alloc''
      else Returns (v @ replicate (n - length v) 0))"

text \<open>\<open>if (k >= locals_.size()) locals_.resize(k + 1, 0);\<close> where \<open>k + 1\<close> is computed in
  \<open>std::size_t\<close>.\<close>

definition grow_locals :: "(nat \<Rightarrow> bool) \<Rightarrow> 64 word \<Rightarrow> ExecutionEngine \<Rightarrow> ExecutionEngine outcome" where
  "grow_locals fits k e =
     (if length (locals e) \<le> unat k
      then outcome_bind (resize fits (unat (k + 1)) (locals e)) (\<lambda>v. Returns (e\<lparr>locals := v\<rparr>))
      else Returns e)"

definition read_local :: "64 word \<Rightarrow> ExecutionEngine \<Rightarrow> 64 word outcome" where
  "read_local k e =
     (if unat k < length (locals e) then Returns (locals e ! unat k) else Undefined ''locals_ out of range'')"

definition write_local :: "64 word \<Rightarrow> 64 word \<Rightarrow> ExecutionEngine \<Rightarrow> ExecutionEngine outcome" where
  "write_local k x e =
     (if unat k < length (locals e) then Returns (e\<lparr>locals := (locals e)[unat k := x]\<rparr>)
      else Undefined ''locals_ out of range'')"

section \<open>One instruction\<close>

datatype control = Continue ExecutionEngine | Return "Error VResult" ExecutionEngine

definition stack_underflow :: "Error VResult" where
  "stack_underflow = VResult_err (Error_new 1 (Some ''stack underflow''))"

definition exec_binop :: "Opcode \<Rightarrow> ExecutionEngine \<Rightarrow> control outcome" where
  "exec_binop f e =
     (case stack e of
        b # a # st \<Rightarrow> outcome_bind (binop f a b) (\<lambda>r. Returns (Continue (e\<lparr>stack := r # st\<rparr>)))
      | _ \<Rightarrow> Returns (Return stack_underflow e))"

definition exec_load :: "(nat \<Rightarrow> bool) \<Rightarrow> 64 word \<Rightarrow> ExecutionEngine \<Rightarrow> control outcome" where
  "exec_load fits k e =
     outcome_bind (grow_locals fits k e) (\<lambda>e.
       outcome_bind (read_local k e) (\<lambda>x. Returns (Continue (e\<lparr>stack := x # stack e\<rparr>))))"

definition exec_store :: "(nat \<Rightarrow> bool) \<Rightarrow> 64 word \<Rightarrow> ExecutionEngine \<Rightarrow> control outcome" where
  "exec_store fits k e =
     (case stack e of
        [] \<Rightarrow> Returns (Return stack_underflow e)
      | x # st \<Rightarrow>
          outcome_bind (grow_locals fits k e) (\<lambda>e.
            outcome_bind (write_local k x e) (\<lambda>e. Returns (Continue (e\<lparr>stack := st\<rparr>)))))"

definition exec_jump_if_not :: "64 word \<Rightarrow> ExecutionEngine \<Rightarrow> control outcome" where
  "exec_jump_if_not k e =
     (case stack e of
        [] \<Rightarrow> Returns (Return stack_underflow e)
      | x # st \<Rightarrow> Returns (Continue (e\<lparr>pc := (if x = 0 then unat k else pc e), stack := st\<rparr>)))"

text \<open>The body of the loop of \<open>run\<close>, entered with \<open>pc_ < program_.size()\<close>.\<close>

definition step :: "(nat \<Rightarrow> bool) \<Rightarrow> ExecutionEngine \<Rightarrow> control outcome" where
  "step fits e0 =
     (let i = program e0 ! pc e0; e = e0\<lparr>pc := pc e0 + 1\<rparr> in
      case op i of
        Nop \<Rightarrow> Returns (Continue e)
      | Const \<Rightarrow> Returns (Continue (e\<lparr>stack := scast (arg0 i) # stack e\<rparr>))
      | Load \<Rightarrow> exec_load fits (size_arg i) e
      | Store \<Rightarrow> exec_store fits (size_arg i) e
      | Jump \<Rightarrow> Returns (Continue (e\<lparr>pc := unat (size_arg i)\<rparr>))
      | JumpIfNot \<Rightarrow> exec_jump_if_not (size_arg i) e
      | Call \<Rightarrow> Returns (Continue e)
      | Ret \<Rightarrow> Returns (Continue e)
      | Halt \<Rightarrow> Returns (Return VResult_ok (e\<lparr>status := ''halted''\<rparr>))
      | f \<Rightarrow> exec_binop f e)"

section \<open>Running\<close>

partial_function (option) run_loop ::
  "(nat \<Rightarrow> bool) \<Rightarrow> ExecutionEngine \<Rightarrow> (Error VResult \<times> ExecutionEngine) outcome option" where
  "run_loop fits e =
     (if pc e < length (program e)
      then (case step fits e of
              Returns c \<Rightarrow>
                (case c of Continue e' \<Rightarrow> run_loop fits e' | Return r e' \<Rightarrow> Some (Returns (r, e')))
            | Throws m \<Rightarrow> Some (Throws m)
            | Undefined m \<Rightarrow> Some (Undefined m))
      else Some (Returns (VResult_ok, e\<lparr>status := ''halted''\<rparr>)))"

definition run :: "(nat \<Rightarrow> bool) \<Rightarrow> ExecutionEngine \<Rightarrow> (Error VResult \<times> ExecutionEngine) outcome option" where
  "run fits e = run_loop fits (e\<lparr>status := ''running''\<rparr>)"

record VM =
  engine :: ExecutionEngine
  initialized :: bool

definition VM_new :: VM where
  "VM_new = \<lparr>engine = ExecutionEngine_new, initialized = False\<rparr>"

definition VM_initialize :: "VM \<Rightarrow> bool \<times> VM" where
  "VM_initialize v = (if initialized v then (True, v) else (True, v\<lparr>initialized := True\<rparr>))"

definition VM_shutdown :: "VM \<Rightarrow> VM" where
  "VM_shutdown v = v\<lparr>engine := engine_reset (engine v)\<rparr>"

definition execute_bytecode ::
  "(nat \<Rightarrow> bool) \<Rightarrow> VM \<Rightarrow> Instruction list \<Rightarrow> (Error VResult \<times> VM) outcome option" where
  "execute_bytecode fits v prog =
     (if \<not> initialized v then Some (Returns (VResult_err (Error_new 1 (Some ''VM not initialized'')), v))
      else map_option (\<lambda>res. outcome_bind res (\<lambda>(r, e). Returns (r, v\<lparr>engine := e\<rparr>)))
             (run fits (load prog (engine v))))"

lemmas run_loop_induct = run_loop.raw_induct [rotated, consumes 1, case_names round]

section \<open>Lemmas on one instruction\<close>

lemma step_program:
  assumes "step fits e = Returns (Continue e')"
  shows "program e' = program e \<and> status e' = status e"
  using assms
  by (auto simp: step_def Let_def exec_binop_def exec_load_def exec_store_def exec_jump_if_not_def
      grow_locals_def write_local_def split: Opcode.splits list.splits if_splits)

text \<open>The instructions a step can jump to.\<close>

lemma step_pc:
  assumes "step fits e = Returns (Continue e')"
  shows "pc e' = pc e + 1 \<or> (op (program e ! pc e) \<in> {Jump, JumpIfNot} \<and> pc e' = unat (size_arg (program e ! pc e)))"
  using assms
  by (auto simp: step_def Let_def exec_binop_def exec_load_def exec_store_def exec_jump_if_not_def
      grow_locals_def write_local_def split: Opcode.splits list.splits if_splits)

lemma step_return:
  assumes "step fits e = Returns (Return r e')"
  shows "(r = VResult_ok \<and> op (program e ! pc e) = Halt \<and> status e' = ''halted'')
    \<or> (r = stack_underflow \<and> status e' = status e)"
  using assms
  by (auto simp: step_def Let_def exec_binop_def exec_load_def exec_store_def exec_jump_if_not_def
      grow_locals_def write_local_def split: Opcode.splits list.splits if_splits)

section \<open>Termination\<close>

definition forward_jumps :: "Instruction list \<Rightarrow> bool" where
  "forward_jumps prog \<longleftrightarrow>
     list_all (\<lambda>k. op (prog ! k) \<in> {Jump, JumpIfNot} \<longrightarrow> k < unat (size_arg (prog ! k))) [0..<length prog]"

lemma run_loop_forward:
  assumes "forward_jumps (program e)"
  shows "\<exists>r. run_loop fits e = Some r"
  using assms
proof (induction "length (program e) - pc e" arbitrary: e rule: less_induct)
  case less
  show ?case
  proof (cases "pc e < length (program e)")
    case False
    then show ?thesis by (subst run_loop.simps) simp
  next
    case True
    have "\<exists>r. run_loop fits e' = Some r" if "step fits e = Returns (Continue e')" for e'
    proof -
      have "pc e < pc e'"
        using step_pc [OF that] less.prems True by (auto simp: forward_jumps_def list_all_iff)
      then show ?thesis
        using less.hyps [of e'] step_program [OF that] less.prems True by simp
    qed
    then show ?thesis by (subst run_loop.simps) (auto split: outcome.split control.split)
  qed
qed

text \<open>A program whose jumps all go forward always returns, whatever it computes: running it
  never loops.\<close>

theorem vm_forward_programs_return:
  assumes "forward_jumps prog" and "initialized v"
  shows "\<exists>r. execute_bytecode fits v prog = Some r"
proof -
  have "\<exists>r. run fits (load prog (engine v)) = Some r"
    using assms run_loop_forward [of "(load prog (engine v))\<lparr>status := ''running''\<rparr>" fits]
    by (simp add: run_def load_def)
  then show ?thesis using assms(2) by (auto simp: execute_bytecode_def)
qed

theorem vm_forward_programs_return_witness:
  "\<exists>r. execute_bytecode (\<lambda>n. True) \<lparr>engine = ExecutionEngine_new, initialized = True\<rparr>
     [Instruction Const 0 0, Instruction JumpIfNot 3 0, Instruction Div 0 0] = Some r"
  by (rule vm_forward_programs_return) (simp_all add: forward_jumps_def size_arg_def)

text \<open>There is no limit on steps: an instruction that jumps to itself never returns.\<close>

lemma run_loop_self_jump:
  "run_loop fits e = Some r \<Longrightarrow> program e = [Instruction Jump 0 0] \<Longrightarrow> pc e = 0 \<Longrightarrow> False"
proof (induction fits e r rule: run_loop_induct)
  case (round rl fits e y)
  then show ?case
    using round(1) [of fits "e\<lparr>pc := 0\<rparr>" y] by (auto simp: step_def size_arg_def Let_def)
qed

lemma vm_self_jump_never_returns:
  "initialized v \<Longrightarrow> execute_bytecode fits v [Instruction Jump 0 0] = None"
  using run_loop_self_jump [of fits "(load [Instruction Jump 0 0] (engine v))\<lparr>status := ''running''\<rparr>"]
  by (cases "run fits (load [Instruction Jump 0 0] (engine v))") (auto simp: execute_bytecode_def run_def load_def)

section \<open>Outcomes of a run\<close>

lemma run_loop_outcome:
  "run_loop fits e = Some (Returns (r, e')) \<Longrightarrow>
     (r = VResult_ok \<and> status e' = ''halted'') \<or> (r = stack_underflow \<and> status e' = status e)"
proof (induction fits e "Returns (r, e')" rule: run_loop_induct)
  case (round rl fits e)
  show ?case
  proof (cases "pc e < length (program e)")
    case False
    with round show ?thesis by auto
  next
    case True
    with round(2) obtain c where s: "step fits e = Returns c"
      "(case c of Continue e' \<Rightarrow> rl fits e' | Return r e' \<Rightarrow> Some (Returns (r, e'))) = Some (Returns (r, e'))"
      by (auto split: outcome.splits)
    show ?thesis
    proof (cases c)
      case (Continue f)
      then show ?thesis using s round(1) [of fits f] step_program [of fits e f] by auto
    next
      case (Return q f)
      then show ?thesis using s step_return [of fits e q f] by auto
    qed
  qed
qed

text \<open>A run that returns either returns success with status \<open>halted\<close>, or returns the stack
  underflow error, and then the status still reads \<open>running\<close>; there is no other error.\<close>

theorem vm_run_outcomes:
  assumes "run fits e = Some (Returns (r, e'))"
  shows "(v_is_err r = False \<and> status e' = ''halted'')
    \<or> (r = VResult_err (Error_new 1 (Some ''stack underflow'')) \<and> status e' = ''running'')"
  using run_loop_outcome [of fits "e\<lparr>status := ''running''\<rparr>" r e'] assms
  by (auto simp: run_def VResult_ok_def stack_underflow_def)

theorem vm_run_outcomes_witness:
  "\<exists>r e'. run (\<lambda>n. True) (load [Instruction Add 0 0] ExecutionEngine_new) = Some (Returns (r, e'))
     \<and> status e' = ''running''"
proof -
  let ?e = "load [Instruction Add 0 0] ExecutionEngine_new"
  have r: "run (\<lambda>n. True) ?e = Some (Returns (stack_underflow, ?e\<lparr>status := ''running'', pc := 1\<rparr>))"
    by (simp add: run_def load_def run_loop.simps step_def exec_binop_def)
  show ?thesis using vm_run_outcomes [OF r] r by auto
qed

section \<open>Safety\<close>

text \<open>The arguments of loads and stores are not negative.\<close>

definition addresses_ok :: "Instruction list \<Rightarrow> bool" where
  "addresses_ok prog \<longleftrightarrow> list_all (\<lambda>i. op i \<in> {Load, Store} \<longrightarrow> 0 \<le> sint (arg0 i)) prog"

lemma size_arg_nonneg:
  assumes "0 \<le> sint (arg0 i)"
  shows "unat (size_arg i) < 2 ^ 31" and "unat (size_arg i + 1) = unat (size_arg i) + 1"
proof -
  have b: "sint (arg0 i) < 2 ^ 31" using sint_lt [of "arg0 i"] by simp
  have "sint (arg0 i) mod 18446744073709551616 = sint (arg0 i)"
    using assms b by (intro mod_pos_pos_trivial) auto
  then have "uint (size_arg i) = sint (arg0 i)"
    by (simp only: size_arg_def scast_eq uint_word_of_int) simp
  then have "uint (size_arg i) < 2 ^ 31" using b by simp
  then show l: "unat (size_arg i) < 2 ^ 31"
    by (metis nat_less_numeral_power_cancel_iff unat_eq_nat_uint)
  then show "unat (size_arg i + 1) = unat (size_arg i) + 1"
    by (simp add: unat_plus_if')
qed

lemma grow_locals_defined:
  assumes "unat (k + 1) = unat k + 1"
  shows "grow_locals fits k e \<noteq> Undefined m"
    and "grow_locals fits k e = Returns e' \<Longrightarrow> unat k < length (locals e') \<and> program e' = program e \<and> stack e' = stack e"
  using assms by (auto simp: grow_locals_def resize_def split: if_splits)

lemma outcome_bind_Undefined_iff:
  "outcome_bind m f = Undefined w \<longleftrightarrow> m = Undefined w \<or> (\<exists>x. m = Returns x \<and> f x = Undefined w)"
  by (cases m) auto

lemma binop_Undefined: "binop f a b = Undefined m \<Longrightarrow> m = ''signed overflow''"
  by (auto simp: binop_def int64_result_def split: Opcode.splits if_splits)

lemma exec_binop_Undefined: "exec_binop f e = Undefined m \<Longrightarrow> m = ''signed overflow''"
  by (auto simp: exec_binop_def outcome_bind_Undefined_iff dest: binop_Undefined split: list.splits)

lemma exec_load_defined: "unat (k + 1) = unat k + 1 \<Longrightarrow> exec_load fits k e \<noteq> Undefined m"
  using grow_locals_defined [of k fits e] by (auto simp: exec_load_def read_local_def outcome_bind_Undefined_iff)

lemma exec_store_defined: "unat (k + 1) = unat k + 1 \<Longrightarrow> exec_store fits k e \<noteq> Undefined m"
  using grow_locals_defined [of k fits e]
  by (auto simp: exec_store_def write_local_def outcome_bind_Undefined_iff split: list.split)

lemma exec_jump_if_not_defined: "exec_jump_if_not k e \<noteq> Undefined m"
  by (simp add: exec_jump_if_not_def split: list.split)

lemma step_Undefined:
  assumes "addresses_ok (program e)" "pc e < length (program e)" "step fits e = Undefined m"
  shows "m = ''signed overflow''"
proof -
  let ?i = "program e ! pc e"
  have a: "op ?i \<in> {Load, Store} \<Longrightarrow> unat (size_arg ?i + 1) = unat (size_arg ?i) + 1"
    using assms(1,2) size_arg_nonneg(2) by (auto simp: addresses_ok_def list_all_length)
  show ?thesis
    using assms(3) a
    by (cases "op ?i") (simp_all add: step_def Let_def exec_load_defined exec_store_defined
        exec_jump_if_not_defined exec_binop_Undefined)
qed

lemma run_loop_Undefined:
  "run_loop fits e = Some (Undefined m) \<Longrightarrow> addresses_ok (program e) \<Longrightarrow> m = ''signed overflow''"
proof (induction fits e "Undefined m :: (Error VResult \<times> ExecutionEngine) outcome" rule: run_loop_induct)
  case (round rl fits e)
  have l: "pc e < length (program e)" using round(2) by (auto split: if_splits)
  show ?case
  proof (cases "step fits e")
    case (Returns c)
    show ?thesis
    proof (cases c)
      case (Continue f)
      then show ?thesis using round(2,3) l Returns round(1) [of fits f] step_program [of fits e f] by simp
    next
      case (Return q f)
      then show ?thesis using round(2) l Returns by simp
    qed
  next
    case (Throws w)
    then show ?thesis using round(2) l by simp
  next
    case (Undefined w)
    then show ?thesis using round(2,3) l step_Undefined [of e fits w] by simp
  qed
qed

text \<open>C5. When no load or store has a negative argument, a run never reads or writes outside the
  vector of locals: the only undefined behaviour left is signed overflow in the arithmetic.\<close>

theorem vm_locals_in_range:
  assumes "addresses_ok prog" and "execute_bytecode fits v prog = Some (Undefined m)"
  shows "m = ''signed overflow''"
proof -
  have "run fits (load prog (engine v)) = Some (Undefined m)"
    using assms(2)
    by (auto simp: execute_bytecode_def outcome_bind_Undefined_iff split: if_splits)
  then show ?thesis
    using run_loop_Undefined [of fits _ m] assms(1) by (simp add: run_def load_def)
qed

text \<open>The product \<open>2 ^ 62 * 4\<close>, from the literal \<open>2 ^ 31 - 1\<close> squared.\<close>

theorem vm_locals_in_range_witness:
  "addresses_ok [Instruction Const (-1) 0, Instruction Store 0 0, Instruction Load 0 0]
   \<and> (\<exists>fits v m. execute_bytecode fits v
        [Instruction Const 0x7FFFFFFF 0, Instruction Const 0x7FFFFFFF 0, Instruction Mul 0 0,
         Instruction Const 4 0, Instruction Mul 0 0] = Some (Undefined m) \<and> m = ''signed overflow'')"
proof -
  let ?p = "[Instruction Const 0x7FFFFFFF 0, Instruction Const 0x7FFFFFFF 0, Instruction Mul 0 0,
         Instruction Const 4 0, Instruction Mul 0 0]"
  let ?v = "\<lparr>engine = ExecutionEngine_new, initialized = True\<rparr>"
  have r: "execute_bytecode (\<lambda>n. True) ?v ?p = Some (Undefined ''signed overflow'')"
    by (simp add: execute_bytecode_def run_def load_def run_loop.simps step_def exec_binop_def binop_def
        int64_result_def int64_min_def int64_max_def Let_def)
  have "addresses_ok ?p" by (simp add: addresses_ok_def)
  from vm_locals_in_range [OF this r] r show ?thesis by (auto simp: addresses_ok_def)
qed

text \<open>With a negative argument the machine leaves the defined behaviour: \<open>-1\<close> wraps the new size to
  0 and indexes past the end, and \<open>-2\<close> asks for a vector longer than any.\<close>

lemma vm_negative_local:
  "step fits (load [Instruction Load (- 1) 0] e) = Undefined ''locals_ out of range''"
  "step fits (load [Instruction Load (- 2) 0] e) = Throws ''std::length_error''"
  by (simp_all add: step_def load_def exec_load_def size_arg_def grow_locals_def resize_def read_local_def
      vector_max_size_def unsigned_minus_1_eq_mask mask_eq_exp_minus_1)

section \<open>Arithmetic programs\<close>

datatype arith = Lit "32 word" | Op2 Opcode arith arith

fun arith_ok :: "arith \<Rightarrow> bool" where
  "arith_ok (Lit n) = True"
| "arith_ok (Op2 f a b) = (f \<in> {Add, Sub, Mul, Div} \<and> arith_ok a \<and> arith_ok b)"

fun arith_value :: "arith \<Rightarrow> 64 word outcome" where
  "arith_value (Lit n) = Returns (scast n)"
| "arith_value (Op2 f a b) = outcome_bind (arith_value a) (\<lambda>x. outcome_bind (arith_value b) (\<lambda>y. binop f x y))"

fun arith_code :: "arith \<Rightarrow> Instruction list" where
  "arith_code (Lit n) = [Instruction Const n 0]"
| "arith_code (Op2 f a b) = arith_code a @ arith_code b @ [Instruction f 0 0]"

lemma run_loop_step:
  assumes "pc e < length (program e)" "step fits e = Returns (Continue f)"
  shows "run_loop fits e = run_loop fits f"
  using assms by (subst run_loop.simps) simp

lemma run_arith_code:
  assumes "arith_value a = Returns x" "arith_ok a" "program e = pre @ arith_code a @ post" "pc e = length pre"
  shows "run_loop fits e = run_loop fits (e\<lparr>pc := length (pre @ arith_code a), stack := x # stack e\<rparr>)"
  using assms
proof (induction a arbitrary: x e pre post)
  case (Lit n)
  then show ?case by (intro run_loop_step) (simp_all add: step_def)
next
  case (Op2 f a b)
  then obtain y z where v: "arith_value a = Returns y" "arith_value b = Returns z" "binop f y z = Returns x"
    by auto
  have ok: "arith_ok a" "arith_ok b" "f \<in> {Add, Sub, Mul, Div}" using Op2.prems(2) by auto
  let ?e1 = "e\<lparr>pc := length (pre @ arith_code a), stack := y # stack e\<rparr>"
  let ?e2 = "?e1\<lparr>pc := length ((pre @ arith_code a) @ arith_code b), stack := z # stack ?e1\<rparr>"
  have "run_loop fits e = run_loop fits ?e1"
    by (rule Op2.IH(1) [OF v(1) ok(1), where post = "arith_code b @ Instruction f 0 0 # post"])
      (use Op2.prems in simp_all)
  also have "\<dots> = run_loop fits ?e2"
    by (rule Op2.IH(2) [OF v(2) ok(2), where post = "Instruction f 0 0 # post"])
      (use Op2.prems in simp_all)
  also have "\<dots> = run_loop fits (e\<lparr>pc := length (pre @ arith_code (Op2 f a b)), stack := x # stack e\<rparr>)"
  proof (rule run_loop_step)
    have i: "program ?e2 ! pc ?e2 = Instruction f 0 0"
      using Op2.prems(3) by (simp add: nth_append)
    show "step fits ?e2 = Returns (Continue (e\<lparr>pc := length (pre @ arith_code (Op2 f a b)), stack := x # stack e\<rparr>))"
      using v(3) ok(3) unfolding step_def i by (auto simp: exec_binop_def)
  qed (use Op2.prems in simp)
  finally show ?case .
qed



end
