(* ===== verification/Std_Containers.thy ===== *)
theory Std_Containers
  imports Lamia_Prelude
begin

text \<open>
  The associative containers of the C++ library the components keep their state in.
  \<open>std::unordered_map\<close> is an association list with distinct keys, in an iteration order that no
  client may rely on; \<open>std::map\<close> is one sorted by its keys. The locale \<open>finite_map\<close> is what
  both promise; it is interpreted on both. \<open>std::set\<close> is a sorted list, an interpretation of
  \<open>finite_set\<close>. The components' lemmas use only the facts the interpretations give.
\<close>

section \<open>The interface\<close>

locale finite_map =
  fixes empty :: "'m" and lookup :: "'m \<Rightarrow> 'k \<Rightarrow> 'v option"
    and update :: "'k \<Rightarrow> 'v \<Rightarrow> 'm \<Rightarrow> 'm" and delete :: "'k \<Rightarrow> 'm \<Rightarrow> 'm"
    and inv :: "'m \<Rightarrow> bool" and entries :: "'m \<Rightarrow> ('k \<times> 'v) list"
  assumes lookup_empty: "lookup empty k = None" and inv_empty: "inv empty"
    and lookup_update: "inv m \<Longrightarrow> lookup (update k v m) k' = (if k' = k then Some v else lookup m k')"
    and inv_update: "inv m \<Longrightarrow> inv (update k v m)"
    and lookup_delete: "inv m \<Longrightarrow> lookup (delete k m) k' = (if k' = k then None else lookup m k')"
    and inv_delete: "inv m \<Longrightarrow> inv (delete k m)"
    and entries_lookup: "inv m \<Longrightarrow> (k, v) \<in> set (entries m) \<longleftrightarrow> lookup m k = Some v"
begin

lemma update_twice: "inv m \<Longrightarrow> lookup (update k w (update k v m)) = lookup (update k w m)"
  by (auto simp: lookup_update inv_update)

lemma delete_update: "inv m \<Longrightarrow> lookup (delete k (update k v m)) = lookup (delete k m)"
  by (auto simp: lookup_update inv_update lookup_delete)

lemma update_commute:
  "inv m \<Longrightarrow> k \<noteq> k' \<Longrightarrow> lookup (update k v (update k' w m)) = lookup (update k' w (update k v m))"
  by (auto simp: lookup_update inv_update)

lemma entries_update:
  "inv m \<Longrightarrow> (a, b) \<in> set (entries (update k v m)) \<longleftrightarrow> (if a = k then b = v else (a, b) \<in> set (entries m))"
  by (auto simp: entries_lookup inv_update lookup_update)

lemma entries_delete:
  "inv m \<Longrightarrow> (a, b) \<in> set (entries (delete k m)) \<longleftrightarrow> a \<noteq> k \<and> (a, b) \<in> set (entries m)"
  by (auto simp: entries_lookup inv_delete lookup_delete)

end

section \<open>\<open>std::unordered_map\<close>\<close>

type_synonym ('k, 'v) umap = "('k \<times> 'v) list"

fun um_assign :: "'k \<Rightarrow> 'v \<Rightarrow> ('k, 'v) umap \<Rightarrow> ('k, 'v) umap" where
  "um_assign k v [] = [(k, v)]"
| "um_assign k v ((a, b) # m) = (if a = k then (k, v) # m else (a, b) # um_assign k v m)"

definition um_erase :: "'k \<Rightarrow> ('k, 'v) umap \<Rightarrow> ('k, 'v) umap" where
  "um_erase k m = filter (\<lambda>(a, b). a \<noteq> k) m"

abbreviation um_inv :: "('k, 'v) umap \<Rightarrow> bool" where
  "um_inv m \<equiv> distinct (map fst m)"

lemma um_find_assign: "map_of (um_assign k v m) k' = (if k' = k then Some v else map_of m k')"
  by (induction k v m rule: um_assign.induct) auto

lemma um_keys_assign: "fst ` set (um_assign k v m) = insert k (fst ` set m)"
  by (induction k v m rule: um_assign.induct) auto

lemma um_inv_assign: "um_inv m \<Longrightarrow> um_inv (um_assign k v m)"
proof (induction k v m rule: um_assign.induct)
  case (2 k v a b m)
  then show ?case using um_keys_assign [of k v m] by (auto simp: image_iff)
qed simp

lemma um_find_erase: "map_of (um_erase k m) k' = (if k' = k then None else map_of m k')"
  by (induction m) (auto simp: um_erase_def)

lemma um_inv_erase: "um_inv m \<Longrightarrow> um_inv (um_erase k m)"
  unfolding um_erase_def by (rule distinct_map_filter)

lemma map_of_filter_distinct: "um_inv m \<Longrightarrow> map_of (filter P m) k = Some v \<longleftrightarrow> map_of m k = Some v \<and> P (k, v)"
  by (induction m) (auto simp: image_iff dest: map_of_SomeD)

interpretation um: finite_map "[]" map_of um_assign um_erase um_inv "\<lambda>m. m"
  by unfold_locales (simp_all add: um_find_assign um_inv_assign um_find_erase um_inv_erase)

lemmas um_simps = um.lookup_update um.lookup_delete um.inv_update um.inv_delete

section \<open>\<open>std::map\<close>\<close>

type_synonym ('k, 'v) omap = "('k \<times> 'v) list"

fun om_assign :: "'k::linorder \<Rightarrow> 'v \<Rightarrow> ('k, 'v) omap \<Rightarrow> ('k, 'v) omap" where
  "om_assign k v [] = [(k, v)]"
| "om_assign k v ((a, b) # m) =
     (if k < a then (k, v) # (a, b) # m else if k = a then (k, v) # m else (a, b) # om_assign k v m)"

abbreviation om_inv :: "('k::linorder, 'v) omap \<Rightarrow> bool" where
  "om_inv m \<equiv> sorted_wrt (<) (map fst m)"

lemma om_keys_assign: "fst ` set (om_assign k v m) = insert k (fst ` set m)"
  by (induction k v m rule: om_assign.induct) auto

lemma om_find_assign: "map_of (om_assign k v m) k' = (if k' = k then Some v else map_of m k')"
  by (induction k v m rule: om_assign.induct) auto

lemma om_inv_assign: "om_inv m \<Longrightarrow> om_inv (om_assign k v m)"
proof (induction k v m rule: om_assign.induct)
  case (2 k v a b m)
  then show ?case using om_keys_assign [of k v m] by (fastforce simp: image_iff)
qed simp

lemma om_inv_distinct: "om_inv m \<Longrightarrow> um_inv m"
  using strict_sorted_iff [of "map fst m"] by simp

lemma om_inv_erase: "om_inv m \<Longrightarrow> om_inv (um_erase k m)"
  by (induction m) (auto simp: um_erase_def)

interpretation om: finite_map "[]" map_of om_assign um_erase om_inv "\<lambda>m. m"
  by unfold_locales
    (simp_all add: om_find_assign om_inv_assign um_find_erase om_inv_erase om_inv_distinct)

lemmas om_simps = om.lookup_update om.lookup_delete om.inv_update om.inv_delete

section \<open>\<open>std::set\<close>\<close>

locale finite_set =
  fixes empty :: "'s" and elements :: "'s \<Rightarrow> 'a set"
    and insert_el :: "'a \<Rightarrow> 's \<Rightarrow> 's" and erase_el :: "'a \<Rightarrow> 's \<Rightarrow> 's" and inv :: "'s \<Rightarrow> bool"
  assumes elements_empty: "elements empty = {}" and inv_empty: "inv empty"
    and elements_insert: "inv s \<Longrightarrow> elements (insert_el x s) = insert x (elements s)"
    and elements_erase: "inv s \<Longrightarrow> elements (erase_el x s) = elements s - {x}"
    and inv_insert: "inv s \<Longrightarrow> inv (insert_el x s)" and inv_erase: "inv s \<Longrightarrow> inv (erase_el x s)"
begin

lemma inv_inserts: "inv s \<Longrightarrow> inv (fold insert_el xs s)"
  by (induction xs arbitrary: s) (auto simp: inv_insert)

lemma elements_inserts: "inv s \<Longrightarrow> elements (fold insert_el xs s) = elements s \<union> set xs"
  by (induction xs arbitrary: s) (auto simp: inv_insert elements_insert)

end

type_synonym 'a oset = "'a list"

fun os_insert :: "'a::linorder \<Rightarrow> 'a oset \<Rightarrow> 'a oset" where
  "os_insert x [] = [x]"
| "os_insert x (y # s) = (if x < y then x # y # s else if x = y then y # s else y # os_insert x s)"

definition os_erase :: "'a \<Rightarrow> 'a oset \<Rightarrow> 'a oset" where
  "os_erase x s = filter (\<lambda>y. y \<noteq> x) s"

abbreviation os_inv :: "'a::linorder oset \<Rightarrow> bool" where
  "os_inv \<equiv> sorted_wrt (<)"

lemma set_os_insert [simp]: "set (os_insert x s) = insert x (set s)"
  by (induction x s rule: os_insert.induct) auto

lemma set_os_erase [simp]: "set (os_erase x s) = set s - {x}"
  by (auto simp: os_erase_def)

lemma os_inv_insert: "os_inv s \<Longrightarrow> os_inv (os_insert x s)"
  by (induction x s rule: os_insert.induct) auto

lemma os_inv_erase: "os_inv s \<Longrightarrow> os_inv (os_erase x s)"
  by (simp add: os_erase_def sorted_wrt_filter)

interpretation os: finite_set "[]" set os_insert os_erase os_inv
  by unfold_locales (simp_all add: os_inv_insert os_inv_erase)

end
