(* ===== verification/Shared_Library.thy ===== *)
theory Shared_Library
  imports Std_Containers
begin

text \<open>
  The loader of native plug-ins, \<open>src/runtime/shared_library.cpp\<close> in its POSIX branch. The first
  section states what the code uses of \<open>std::filesystem::path\<close>; the file system and the dynamic
  loader are parameters. A throw is the outcome \<open>Throws\<close> with the message of the
  \<open>shared_library_error\<close>. The lemmas show that a resolved library always lies under a registered
  root, that mapped paths cannot climb out of their root, that no mapping ever dangles, and that
  each handle the loader returns is closed exactly once.
\<close>

section \<open>Paths\<close>

text \<open>A path is the flag of its root directory and its elements; a trailing separator is an empty
  last element, and repeated separators are one.\<close>

datatype path = Path (is_absolute: bool) (parts: "string list")

abbreviation dot :: string where "dot \<equiv> ''.''"
abbreviation dotdot :: string where "dotdot \<equiv> ''..''"

definition path_empty :: "path \<Rightarrow> bool" where
  "path_empty p \<longleftrightarrow> \<not> is_absolute p \<and> parts p = []"

definition elements :: "path \<Rightarrow> string list" where
  "elements p = (if is_absolute p then [''/''] else []) @ parts p"

fun join :: "string \<Rightarrow> string list \<Rightarrow> string" where
  "join sep [] = []"
| "join sep [x] = x"
| "join sep (x # y # xs) = x @ sep @ join sep (y # xs)"

definition path_to_string :: "path \<Rightarrow> string" where
  "path_to_string p = (if is_absolute p then ''/'' else []) @ join ''/'' (parts p)"

definition quote_path :: "path \<Rightarrow> string" where
  "quote_path p = [squote] @ path_to_string p @ [squote]"

text \<open>The order of \<open>path::compare\<close>: a root directory is greater than none, then by elements.\<close>

instantiation path :: linorder
begin

definition less_eq_path :: "path \<Rightarrow> path \<Rightarrow> bool" where
  "less_eq_path p q \<longleftrightarrow> is_absolute p < is_absolute q \<or> (is_absolute p = is_absolute q \<and> parts p \<le> parts q)"

definition less_path :: "path \<Rightarrow> path \<Rightarrow> bool" where
  "less_path p q \<longleftrightarrow> p \<le> q \<and> \<not> q \<le> (p :: path)"

instance
  by standard (auto simp: less_eq_path_def less_path_def path.expand)

end

text \<open>\<open>p / q\<close>.\<close>

definition path_append :: "path \<Rightarrow> path \<Rightarrow> path" where
  "path_append p q =
     (if is_absolute q then q
      else let base = (if parts p \<noteq> [] \<and> last (parts p) = [] then butlast (parts p) else parts p) in
        if parts q = [] then (if base = [] then p else Path (is_absolute p) (base @ [[]]))
        else Path (is_absolute p) (base @ parts q))"

definition parent_path :: "path \<Rightarrow> path" where
  "parent_path p = Path (is_absolute p) (butlast (parts p))"

definition filename :: "path \<Rightarrow> string" where
  "filename p = (if parts p = [] then [] else last (parts p))"

text \<open>The extension starts at the last dot of the file name, when that is not its first character.\<close>

definition extension :: "path \<Rightarrow> string" where
  "extension p =
     (let f = filename p; ext = takeWhile (\<lambda>c. c \<noteq> CHR ''.'') (rev f) in
      if f = dot \<or> f = dotdot \<or> CHR ''.'' \<notin> set f \<or> length ext + 1 = length f then []
      else CHR ''.'' # rev ext)"

text \<open>\<open>lexically_normal()\<close>: the elements kept so far, last first, and whether the last element
  read leaves a trailing separator.\<close>

definition norm_step :: "bool \<Rightarrow> string list \<times> bool \<Rightarrow> string \<Rightarrow> string list \<times> bool" where
  "norm_step absolute st e =
     (case st of (kept, trail) \<Rightarrow>
        if e = [] \<or> e = dot then (kept, True)
        else if e = dotdot then
          (case kept of
             [] \<Rightarrow> if absolute then ([], True) else ([dotdot], False)
           | k # ks \<Rightarrow> if k = dotdot then (dotdot # kept, False) else (ks, True))
        else (e # kept, False))"

definition lexically_normal :: "path \<Rightarrow> path" where
  "lexically_normal p =
     (if path_empty p then p
      else case foldl (norm_step (is_absolute p)) ([], False) (parts p) of
        (kept, trail) \<Rightarrow>
          let out = rev kept @ (if trail \<and> kept \<noteq> [] \<and> hd kept \<noteq> dotdot then [[]] else []) in
          Path (is_absolute p) (if out = [] \<and> \<not> is_absolute p then [dot] else out))"

section \<open>File system and loader\<close>

text \<open>What the code asks of the file system: the canonical form of an existing path or the text of
  the error, whether a path exists, and its kind.\<close>

record filesystem =
  fs_canonical :: "path \<Rightarrow> string + path"
  fs_exists :: "path \<Rightarrow> bool"
  fs_is_regular_file :: "path \<Rightarrow> bool"
  fs_is_directory :: "path \<Rightarrow> bool"

text \<open>The loader: \<open>dlopen\<close> with its flags after the handles it returned before, \<open>dlsym\<close>, whether
  \<open>dlclose\<close> succeeds, and the text of its last error. A handle is an address, 0 is null.\<close>

record loader =
  ld_dlopen :: "nat list \<Rightarrow> path \<Rightarrow> bool \<times> bool \<Rightarrow> nat"
  ld_dlsym :: "nat \<Rightarrow> string \<Rightarrow> nat"
  ld_dlclose_ok :: "nat \<Rightarrow> bool"
  ld_error :: string

definition canonical_existing_path :: "filesystem \<Rightarrow> path \<Rightarrow> path outcome" where
  "canonical_existing_path fs p =
     (case fs_canonical fs p of
        Inr c \<Rightarrow> Returns c
      | Inl msg \<Rightarrow> Throws (''Path '' @ quote_path p @ '' cannot be resolved: '' @ msg))"

definition has_shared_library_extension :: "path \<Rightarrow> bool" where
  "has_shared_library_extension p \<longleftrightarrow> extension p = ''.so''"

definition native_library_name :: "path \<Rightarrow> path outcome" where
  "native_library_name p =
     (let parent = parent_path p; stem = filename p in
      if stem = [] then Throws (''Library path '' @ quote_path p @ '' does not contain a file name'')
      else
        let already_named = has_shared_library_extension p;
            decorated = (if \<not> already_named \<and> \<not> starts_with ''lib'' stem then ''lib'' @ stem else stem);
            file_name = (if already_named then stem else decorated @ ''.so'')
        in Returns (lexically_normal (path_append parent (Path False [file_name]))))"

section \<open>Library objects\<close>

datatype binding_mode = B_lazy | B_immediate
datatype symbol_visibility = V_local | V_global

record shared_library_options =
  binding :: binding_mode
  visibility :: symbol_visibility
  allow_absolute_paths :: bool

definition default_options :: shared_library_options where
  "default_options = \<lparr>binding = B_immediate, visibility = V_local, allow_absolute_paths = False\<rparr>"

record shared_library =
  resolved_path :: path
  handle :: nat

text \<open>The handles \<open>dlopen\<close> returned and the handles passed to \<open>dlclose\<close>, latest first.\<close>

record dl_log =
  opened :: "nat list"
  closed :: "nat list"

definition shared_library_new :: shared_library where
  "shared_library_new = \<lparr>resolved_path = Path False [], handle = 0\<rparr>"

definition release_noexcept :: "shared_library \<Rightarrow> dl_log \<Rightarrow> shared_library \<times> dl_log" where
  "release_noexcept l d =
     (if handle l = 0 then (l\<lparr>resolved_path := Path False []\<rparr>, d)
      else (\<lparr>resolved_path = Path False [], handle = 0\<rparr>, d\<lparr>closed := handle l # closed d\<rparr>))"

text \<open>The move constructor; a moved-from path is left empty.\<close>

definition shared_library_move :: "shared_library \<Rightarrow> shared_library \<times> shared_library" where
  "shared_library_move other = (other, \<lparr>resolved_path = Path False [], handle = 0\<rparr>)"

text \<open>Move assignment from another object; from itself it does nothing.\<close>

definition shared_library_move_assign ::
  "shared_library \<Rightarrow> shared_library \<Rightarrow> dl_log \<Rightarrow> shared_library \<times> shared_library \<times> dl_log" where
  "shared_library_move_assign this other d =
     (case release_noexcept this d of (_, d') \<Rightarrow>
        (case shared_library_move other of (new, old) \<Rightarrow> (new, old, d')))"

text \<open>\<open>open\<close>: what it returns and the loader's log after it.\<close>

definition shared_library_open ::
  "filesystem \<Rightarrow> loader \<Rightarrow> path \<Rightarrow> shared_library_options \<Rightarrow> dl_log \<Rightarrow> shared_library outcome \<times> dl_log" where
  "shared_library_open fs ld p opts d =
     (case canonical_existing_path fs p of
        Returns c \<Rightarrow>
          if \<not> fs_is_regular_file fs c
          then (Throws (''Library path '' @ quote_path c @ '' is not a regular file''), d)
          else
            let h = ld_dlopen ld (opened d) c (binding opts = B_lazy, visibility opts = V_global) in
            if h = 0
            then (Throws (''Failed to load shared library '' @ quote_path c @ '': '' @ ld_error ld), d)
            else (Returns \<lparr>resolved_path = c, handle = h\<rparr>, d\<lparr>opened := h # opened d\<rparr>)
      | Throws m \<Rightarrow> (Throws m, d)
      | Undefined m \<Rightarrow> (Undefined m, d))"

definition is_loaded :: "shared_library \<Rightarrow> bool" where
  "is_loaded l \<longleftrightarrow> handle l \<noteq> 0"

definition raw_symbol :: "loader \<Rightarrow> shared_library \<Rightarrow> string \<Rightarrow> nat outcome" where
  "raw_symbol ld l name =
     (if handle l = 0 then Throws ''Cannot resolve a symbol from an unloaded shared library''
      else if name = [] then Throws ''Cannot resolve an empty symbol name''
      else let address = ld_dlsym ld (handle l) name in
        if address = 0
        then Throws (''Symbol '' @ [squote] @ name @ [squote] @ '' was not found in ''
               @ quote_path (resolved_path l) @ '': '' @ ld_error ld)
        else Returns address)"

text \<open>\<open>close\<close> empties the object before it calls the loader, so it is empty also when it throws.\<close>

definition shared_library_close ::
  "loader \<Rightarrow> shared_library \<Rightarrow> dl_log \<Rightarrow> unit outcome \<times> shared_library \<times> dl_log" where
  "shared_library_close ld l d =
     (if handle l = 0 then (Returns (), l\<lparr>resolved_path := Path False []\<rparr>, d)
      else
        (if ld_dlclose_ok ld (handle l) then Returns ()
         else Throws (''Failed to unload shared library '' @ quote_path (resolved_path l) @ '': '' @ ld_error ld),
         \<lparr>resolved_path = Path False [], handle = 0\<rparr>, d\<lparr>closed := handle l # closed d\<rparr>))"

section \<open>The locator\<close>

record mapped_library =
  m_root_name :: string
  m_relative_path :: path

record shared_library_locator =
  sl_roots :: "(string, path) umap"
  sl_libraries :: "(string, mapped_library) umap"

definition locator_new :: shared_library_locator where
  "locator_new = \<lparr>sl_roots = [], sl_libraries = []\<rparr>"

definition canonical_directory :: "filesystem \<Rightarrow> path \<Rightarrow> path outcome" where
  "canonical_directory fs p =
     (if path_empty p then Throws ''A shared-library root cannot be an empty path''
      else outcome_bind (canonical_existing_path fs p) (\<lambda>c.
        if \<not> fs_is_directory fs c
        then Throws (''Shared-library root '' @ quote_path c @ '' is not a directory'')
        else Returns c))"

definition normalise_relative_path :: "path \<Rightarrow> path outcome" where
  "normalise_relative_path p =
     (if path_empty p then Throws ''A shared-library relative path cannot be empty''
      else if is_absolute p then Throws (''Shared-library mapping '' @ quote_path p @ '' must be relative'')
      else let n = lexically_normal p in
        if dotdot \<in> set (elements n)
        then Throws (''Shared-library path '' @ quote_path p @ '' attempts to escape its root'')
        else Returns n)"

fun within_loop :: "string list \<Rightarrow> string list \<Rightarrow> bool" where
  "within_loop cs [] = True"
| "within_loop [] (r # rs) = False"
| "within_loop (c # cs) (r # rs) = (c = r \<and> within_loop cs rs)"

definition is_path_within_root :: "path \<Rightarrow> path \<Rightarrow> bool" where
  "is_path_within_root candidate r =
     within_loop (elements (lexically_normal candidate)) (elements (lexically_normal r))"

definition decorated_names :: "path \<Rightarrow> path list outcome" where
  "decorated_names p =
     (let n = lexically_normal p in
      outcome_bind (native_library_name n) (\<lambda>native.
        Returns (if native \<in> set [n] then [n] else [n, native])))"

definition add_root ::
  "filesystem \<Rightarrow> string \<Rightarrow> path \<Rightarrow> shared_library_locator \<Rightarrow> shared_library_locator outcome" where
  "add_root fs name p l =
     (if name = [] then Throws ''A shared-library root requires a non-empty name''
      else outcome_bind (canonical_directory fs p) (\<lambda>c.
        Returns (l\<lparr>sl_roots := um_assign name c (sl_roots l)\<rparr>)))"

definition map_library ::
  "string \<Rightarrow> string \<Rightarrow> path \<Rightarrow> shared_library_locator \<Rightarrow> shared_library_locator outcome" where
  "map_library logical root_name rel l =
     (if logical = [] then Throws ''A mapped shared library requires a non-empty logical name''
      else if root_name = []
      then Throws (''Mapped library '' @ [squote] @ logical @ [squote] @ '' requires a non-empty root name'')
      else outcome_bind (normalise_relative_path rel) (\<lambda>n.
        if map_of (sl_roots l) root_name = None
        then Throws (''Mapped library '' @ [squote] @ logical @ [squote] @ '' references unknown root ''
               @ [squote] @ root_name @ [squote])
        else Returns (l\<lparr>sl_libraries :=
               um_assign logical \<lparr>m_root_name = root_name, m_relative_path = n\<rparr> (sl_libraries l)\<rparr>)))"

definition descriptors :: "shared_library_locator \<Rightarrow> (string \<times> string \<times> path) list" where
  "descriptors l = sort_key fst (map (\<lambda>(n, m). (n, m_root_name m, m_relative_path m)) (sl_libraries l))"

definition locator_roots :: "shared_library_locator \<Rightarrow> path list" where
  "locator_roots l = sort (map snd (sl_roots l))"

definition resolve :: "filesystem \<Rightarrow> shared_library_locator \<Rightarrow> string \<Rightarrow> path outcome" where
  "resolve fs l name =
     (if name = [] then Throws ''Cannot resolve an empty logical library name''
      else case map_of (sl_libraries l) name of
        None \<Rightarrow> Throws (''No shared library is mapped as '' @ [squote] @ name @ [squote])
      | Some m \<Rightarrow>
          (case map_of (sl_roots l) (m_root_name m) of
             None \<Rightarrow> Throws (''Library '' @ [squote] @ name @ [squote] @ '' references unavailable root ''
                       @ [squote] @ m_root_name m @ [squote])
           | Some r \<Rightarrow>
               outcome_bind (canonical_existing_path fs (lexically_normal (path_append r (m_relative_path m)))) (\<lambda>c.
                 if \<not> is_path_within_root c r
                 then Throws (''Resolved library '' @ quote_path c @ '' escaped root '' @ quote_path r)
                 else Returns c)))"

text \<open>The loop over the candidates of an absolute path; the list of attempts grows in order.\<close>

fun try_absolute :: "filesystem \<Rightarrow> path list \<Rightarrow> path list \<Rightarrow> string list \<Rightarrow> path outcome" where
  "try_absolute fs roots [] attempted =
     Throws (''No loadable library matched absolute path candidates: '' @ join '', '' attempted)"
| "try_absolute fs roots (n # ns) attempted =
     (if fs_exists fs n then
        outcome_bind (canonical_existing_path fs n) (\<lambda>c.
          if list_ex (is_path_within_root c) roots then Returns c
          else Throws (''Absolute library path '' @ quote_path c
                 @ '' is outside every registered Lamia library root''))
      else try_absolute fs roots ns (attempted @ [quote_path n]))"

text \<open>The inner loop over the candidates below one root: a library, or the attempts so far.\<close>

fun try_root :: "filesystem \<Rightarrow> path \<Rightarrow> path list \<Rightarrow> string list \<Rightarrow> (path + string list) outcome" where
  "try_root fs r [] attempted = Returns (Inr attempted)"
| "try_root fs r (n # ns) attempted =
     (let candidate = lexically_normal (path_append r n) in
      if fs_exists fs candidate then
        outcome_bind (canonical_existing_path fs candidate) (\<lambda>c.
          if is_path_within_root c r then Returns (Inl c)
          else try_root fs r ns (attempted @ [quote_path candidate]))
      else try_root fs r ns (attempted @ [quote_path candidate]))"

fun try_roots :: "filesystem \<Rightarrow> path \<Rightarrow> path list \<Rightarrow> string list \<Rightarrow> path outcome" where
  "try_roots fs rel [] attempted =
     Throws (''No loadable library matched registered roots. Attempted: '' @ join '', '' attempted)"
| "try_roots fs rel (r # rs) attempted =
     outcome_bind (decorated_names rel) (\<lambda>names.
       outcome_bind (try_root fs r names attempted) (\<lambda>res.
         case res of Inl c \<Rightarrow> Returns c | Inr attempted' \<Rightarrow> try_roots fs rel rs attempted'))"

text \<open>\<open>order\<close> is the order in which the container of roots is iterated.\<close>

definition resolve_path ::
  "filesystem \<Rightarrow> ((string, path) umap \<Rightarrow> path list) \<Rightarrow> shared_library_locator \<Rightarrow> path \<Rightarrow> shared_library_options
     \<Rightarrow> path outcome" where
  "resolve_path fs order l p opts =
     (if path_empty p then Throws ''Cannot resolve an empty shared-library path''
      else outcome_bind (decorated_names p) (\<lambda>names.
        let snapshot = order (sl_roots l) in
        if is_absolute p then
          (if \<not> allow_absolute_paths opts
           then Throws (''Absolute library path '' @ quote_path p
                  @ '' was rejected because absolute loading is disabled'')
           else try_absolute fs snapshot names [])
        else outcome_bind (normalise_relative_path p) (\<lambda>rel. try_roots fs rel snapshot [])))"

definition load_library ::
  "filesystem \<Rightarrow> loader \<Rightarrow> shared_library_locator \<Rightarrow> string \<Rightarrow> shared_library_options \<Rightarrow> dl_log
     \<Rightarrow> shared_library outcome \<times> dl_log" where
  "load_library fs ld l name opts d =
     (case resolve fs l name of
        Returns p \<Rightarrow> shared_library_open fs ld p opts d
      | Throws m \<Rightarrow> (Throws m, d) | Undefined m \<Rightarrow> (Undefined m, d))"

definition open_path ::
  "filesystem \<Rightarrow> loader \<Rightarrow> ((string, path) umap \<Rightarrow> path list) \<Rightarrow> shared_library_locator \<Rightarrow> path
     \<Rightarrow> shared_library_options \<Rightarrow> dl_log \<Rightarrow> shared_library outcome \<times> dl_log" where
  "open_path fs ld order l p opts d =
     (case resolve_path fs order l p opts of
        Returns q \<Rightarrow> shared_library_open fs ld q opts d
      | Throws m \<Rightarrow> (Throws m, d) | Undefined m \<Rightarrow> (Undefined m, d))"

section \<open>Resolved libraries lie under a root\<close>

lemma within_loop_prefix: "within_loop cs rs \<longleftrightarrow> (\<exists>xs. cs = rs @ xs)"
  by (induction cs rs rule: within_loop.induct) auto

lemma canonical_existing_path_Returns [simp]:
  "canonical_existing_path fs p = Returns c \<longleftrightarrow> fs_canonical fs p = Inr c"
  by (simp add: canonical_existing_path_def split: sum.split)

lemma try_absolute_within:
  "try_absolute fs roots ns att = Returns p \<Longrightarrow> \<exists>r\<in>set roots. is_path_within_root p r"
proof (induction fs roots ns att rule: try_absolute.induct)
  case (2 fs roots n ns att)
  then show ?case by (auto simp: list_ex_iff split: if_splits)
qed simp

lemma try_root_within: "try_root fs r ns att = Returns (Inl p) \<Longrightarrow> is_path_within_root p r"
proof (induction fs r ns att rule: try_root.induct)
  case (2 fs r n ns att)
  then show ?case by (auto simp: Let_def split: if_splits)
qed simp

lemma try_roots_within:
  "try_roots fs rel rs att = Returns p \<Longrightarrow> \<exists>r\<in>set rs. is_path_within_root p r"
proof (induction fs rel rs att rule: try_roots.induct)
  case (2 fs rel r rs att)
  from "2.prems" obtain names res where n: "decorated_names rel = Returns names"
    "try_root fs r names att = Returns res"
    "(case res of Inl c \<Rightarrow> Returns c | Inr a \<Rightarrow> try_roots fs rel rs a) = Returns p"
    by auto
  show ?case
  proof (cases res)
    case (Inl c)
    then show ?thesis using n try_root_within by auto
  next
    case (Inr a)
    then show ?thesis using n "2.IH" by fastforce
  qed
qed simp

lemma resolve_within:
  "resolve fs l name = Returns p \<Longrightarrow> \<exists>k r. map_of (sl_roots l) k = Some r \<and> is_path_within_root p r"
  by (auto simp: resolve_def split: if_splits option.splits)

lemma resolve_path_within:
  assumes "resolve_path fs order l p opts = Returns q"
  shows "\<exists>r\<in>set (order (sl_roots l)). is_path_within_root q r"
  using assms try_absolute_within try_roots_within
  by (fastforce simp: resolve_path_def Let_def split: if_splits)

text \<open>Whatever the file system answers and in whatever order the roots are tried, a library the
  locator resolves, by name or by path, lies under a registered root: the elements of its normal
  form start with those of the root's.\<close>

theorem resolved_library_within_root:
  assumes "resolve fs l name = Returns q \<or> resolve_path fs order l p opts = Returns q"
    and "um_inv (sl_roots l)" and "set (order (sl_roots l)) = snd ` set (sl_roots l)"
  shows "\<exists>k r rest. map_of (sl_roots l) k = Some r
    \<and> elements (lexically_normal q) = elements (lexically_normal r) @ rest"
proof -
  have "\<exists>k r. map_of (sl_roots l) k = Some r \<and> is_path_within_root q r"
    using assms(1)
  proof
    assume "resolve_path fs order l p opts = Returns q"
    then obtain r where "r \<in> snd ` set (sl_roots l)" "is_path_within_root q r"
      using resolve_path_within assms(3) by metis
    then show ?thesis using um.entries_lookup [OF assms(2)] by force
  qed (rule resolve_within)
  then show ?thesis by (auto simp: is_path_within_root_def within_loop_prefix)
qed

theorem resolved_library_within_root_witness:
  "\<exists>k r rest. map_of [(''plugins'', Path True [''opt''])] k = Some r
    \<and> elements (lexically_normal (Path True [''opt'', ''a.so''])) = elements (lexically_normal r) @ rest"
proof -
  let ?fs = "\<lparr>fs_canonical = \<lambda>p. Inr p, fs_exists = \<lambda>p. True, fs_is_regular_file = \<lambda>p. True, fs_is_directory = \<lambda>p. True\<rparr>"
  let ?l = "\<lparr>sl_roots = [(''plugins'', Path True [''opt''])],
             sl_libraries = [(''a'', \<lparr>m_root_name = ''plugins'', m_relative_path = Path False [''a.so'']\<rparr>)]\<rparr>"
  have "resolve ?fs ?l ''a'' = Returns (Path True [''opt'', ''a.so''])"
    by (simp add: resolve_def lexically_normal_def path_append_def path_empty_def norm_step_def
        is_path_within_root_def elements_def Let_def)
  then show ?thesis
    using resolved_library_within_root [of ?fs ?l "''a''" "Path True [''opt'', ''a.so'']" "map snd"] by simp
qed

section \<open>Mapped paths cannot climb\<close>

text \<open>A name that normalisation keeps.\<close>

definition plain :: "string \<Rightarrow> bool" where
  "plain e \<longleftrightarrow> e \<noteq> [] \<and> e \<noteq> dot \<and> e \<noteq> dotdot"

lemma norm_plain:
  "list_all plain es \<Longrightarrow> es \<noteq> [] \<Longrightarrow> foldl (norm_step b) (kept, t) es = (rev es @ kept, False)"
proof (induction es arbitrary: kept t)
  case (Cons e es)
  have "norm_step b (kept, t) e = (e # kept, False)"
    using Cons.prems by (simp add: norm_step_def plain_def)
  then show ?case using Cons by (cases "es = []") simp_all
qed simp

lemma norm_step_no_dotdot:
  "e \<noteq> dotdot \<Longrightarrow> \<exists>xs t'. norm_step b (kept, t) e = (xs @ kept, t')"
  by (auto simp: norm_step_def)

lemma norm_no_dotdot:
  "dotdot \<notin> set es \<Longrightarrow> \<exists>xs t'. foldl (norm_step b) (kept, t) es = (xs @ kept, t')"
proof (induction es arbitrary: kept t)
  case (Cons e es)
  then obtain xs t' where s: "norm_step b (kept, t) e = (xs @ kept, t')"
    using norm_step_no_dotdot [of e b kept t] by auto
  obtain ys t'' where "foldl (norm_step b) (xs @ kept, t') es = (ys @ xs @ kept, t'')"
    using Cons by (metis list.set_intros(2))
  then show ?case using s by (metis append.assoc foldl_Cons)
qed simp

lemma norm_step_kept:
  "e \<noteq> dotdot \<Longrightarrow> norm_step b (kept, t) e = (k, t') \<Longrightarrow> set k \<subseteq> insert e (set kept)"
  by (auto simp: norm_step_def split: if_splits)

lemma norm_kept:
  "dotdot \<notin> set es \<Longrightarrow> foldl (norm_step b) (kept, t) es = (k, t') \<Longrightarrow> set k \<subseteq> set es \<union> set kept"
proof (induction es arbitrary: kept t)
  case (Cons e es)
  obtain k1 t1 where s: "norm_step b (kept, t) e = (k1, t1)" by fastforce
  have "e \<noteq> dotdot" using Cons.prems by auto
  then have "set k1 \<subseteq> insert e (set kept)" using s by (rule norm_step_kept)
  moreover have "set k \<subseteq> set es \<union> set k1" using Cons s by simp
  ultimately show ?case by auto
qed simp

lemma normalise_relative_pathD:
  "normalise_relative_path p = Returns n \<Longrightarrow>
     n = lexically_normal p \<and> \<not> is_absolute n \<and> dotdot \<notin> set (parts n)"
  by (auto simp: normalise_relative_path_def lexically_normal_def elements_def Let_def
      split: if_splits prod.splits)

text \<open>A relative path the loader accepts cannot leave the directory it is joined to: below any
  root without dots in its elements, the normal form of the joined path starts with the root,
  whatever dots and parent references the accepted path had.\<close>

theorem accepted_relative_path_stays_below:
  assumes "normalise_relative_path p = Returns n" and "list_all plain (parts r)" "parts r \<noteq> []"
  shows "\<exists>rest. elements (lexically_normal (path_append r n)) = elements r @ rest \<and> dotdot \<notin> set rest"
proof -
  have n: "\<not> is_absolute n" "dotdot \<notin> set (parts n)"
    using normalise_relative_pathD [OF assms(1)] by auto
  have l: "last (parts r) \<noteq> []" using assms(2,3) by (simp add: list_all_iff plain_def)
  let ?a = "is_absolute r"
  let ?es = "if parts n = [] then [[]] else parts n"
  have j: "path_append r n = Path ?a (parts r @ ?es)"
    using n l assms(3) by (simp add: path_append_def Let_def)
  have d: "dotdot \<notin> set ?es" using n by simp
  obtain xs t where f: "foldl (norm_step ?a) ([], False) (parts r @ ?es) = (xs @ rev (parts r), t)"
    using norm_no_dotdot [OF d, of ?a "rev (parts r)" False] norm_plain [OF assms(2,3), of ?a "[]" False]
    by auto
  have "dotdot \<notin> set (parts r @ ?es)" using d assms(2) by (auto simp: list_all_iff plain_def)
  from norm_kept [OF this f] have u: "dotdot \<notin> set xs" using d assms(2)
    by (auto simp: list_all_iff plain_def split: if_splits)
  have "parts (lexically_normal (path_append r n)) = parts r @ rev xs
      @ (if t \<and> xs @ rev (parts r) \<noteq> [] \<and> hd (xs @ rev (parts r)) \<noteq> dotdot then [[]] else [])"
    unfolding j using f assms(3) by (simp add: lexically_normal_def path_empty_def Let_def)
  moreover have "is_absolute (lexically_normal (path_append r n)) = ?a"
    unfolding j by (simp add: lexically_normal_def path_empty_def Let_def split: prod.split)
  ultimately show ?thesis using u by (auto simp: elements_def)
qed

theorem accepted_relative_path_stays_below_witness:
  "normalise_relative_path (Path False [''a'', dotdot, dot, ''b.so'']) = Returns (Path False [''b.so''])
   \<and> (\<exists>rest. elements (lexically_normal (path_append (Path True [''opt'']) (Path False [''b.so''])))
        = elements (Path True [''opt'']) @ rest \<and> dotdot \<notin> set rest)"
proof -
  have n: "normalise_relative_path (Path False [''a'', dotdot, dot, ''b.so'']) = Returns (Path False [''b.so''])"
    by (simp add: normalise_relative_path_def lexically_normal_def path_empty_def norm_step_def elements_def)
  from accepted_relative_path_stays_below [OF n, of "Path True [''opt'']"] n show ?thesis
    by (simp add: plain_def)
qed

section \<open>No mapping dangles\<close>

definition locator_inv :: "shared_library_locator \<Rightarrow> bool" where
  "locator_inv l \<longleftrightarrow> um_inv (sl_roots l) \<and> um_inv (sl_libraries l)
     \<and> (\<forall>k m. map_of (sl_libraries l) k = Some m \<longrightarrow>
          map_of (sl_roots l) (m_root_name m) \<noteq> None \<and> \<not> is_absolute (m_relative_path m)
          \<and> dotdot \<notin> set (parts (m_relative_path m)))"

lemma locator_inv_new: "locator_inv locator_new"
  by (simp add: locator_inv_def locator_new_def)

lemma locator_inv_add_root: "locator_inv l \<Longrightarrow> add_root fs n p l = Returns l' \<Longrightarrow> locator_inv l'"
  by (auto simp: locator_inv_def add_root_def um_simps simp del: map_of_eq_Some_iff split: if_splits)

lemma locator_inv_map_library: "locator_inv l \<Longrightarrow> map_library k n p l = Returns l' \<Longrightarrow> locator_inv l'"
  by (auto simp: locator_inv_def map_library_def um_simps simp del: map_of_eq_Some_iff
      dest!: normalise_relative_pathD split: if_splits)

text \<open>A locator built by any sequence of registrations, failed ones included.\<close>

inductive locator_built :: "filesystem \<Rightarrow> shared_library_locator \<Rightarrow> bool" for fs where
  "locator_built fs locator_new"
| "locator_built fs l \<Longrightarrow> add_root fs n p l = Returns l' \<Longrightarrow> locator_built fs l'"
| "locator_built fs l \<Longrightarrow> map_library k n p l = Returns l' \<Longrightarrow> locator_built fs l'"

lemma locator_built_inv: "locator_built fs l \<Longrightarrow> locator_inv l"
  by (induction rule: locator_built.induct)
    (auto intro: locator_inv_new locator_inv_add_root locator_inv_map_library)

text \<open>In a locator built by its own operations every mapped library names a registered root and
  a relative path without parent references, so resolving a mapped name never reports an
  unavailable root.\<close>

theorem mapped_library_never_dangles:
  assumes "locator_built fs l" and "map_of (sl_libraries l) name = Some m" and "name \<noteq> []"
  shows "\<exists>r. map_of (sl_roots l) (m_root_name m) = Some r
    \<and> resolve fs l name = outcome_bind (canonical_existing_path fs (lexically_normal (path_append r (m_relative_path m))))
        (\<lambda>c. if is_path_within_root c r then Returns c
             else Throws (''Resolved library '' @ quote_path c @ '' escaped root '' @ quote_path r))
    \<and> dotdot \<notin> set (parts (m_relative_path m))"
proof -
  have inv: "map_of (sl_roots l) (m_root_name m) \<noteq> None \<and> dotdot \<notin> set (parts (m_relative_path m))"
    using locator_built_inv [OF assms(1)] assms(2) by (auto simp: locator_inv_def)
  then obtain r where r: "map_of (sl_roots l) (m_root_name m) = Some r" by auto
  have f: "(\<lambda>c. if \<not> is_path_within_root c r then Throws (''Resolved library '' @ quote_path c @ '' escaped root '' @ quote_path r) else Returns c)
    = (\<lambda>c. if is_path_within_root c r then Returns c else Throws (''Resolved library '' @ quote_path c @ '' escaped root '' @ quote_path r))"
    by auto
  show ?thesis using r inv assms(2,3) unfolding resolve_def by (simp only: f option.case if_False) simp
qed

theorem mapped_library_never_dangles_witness:
  "\<exists>fs l m. locator_built fs l \<and> map_of (sl_libraries l) ''a'' = Some m
     \<and> map_of (sl_roots l) (m_root_name m) = Some (Path True [''opt''])"
proof -
  let ?fs = "\<lparr>fs_canonical = \<lambda>p. Inr p, fs_exists = \<lambda>p. True, fs_is_regular_file = \<lambda>p. True, fs_is_directory = \<lambda>p. True\<rparr>"
  let ?r = "Path True [''opt'']"
  let ?l1 = "\<lparr>sl_roots = [(''plugins'', ?r)], sl_libraries = []\<rparr>"
  let ?m = "\<lparr>m_root_name = ''plugins'', m_relative_path = Path False [''a.so'']\<rparr>"
  let ?l2 = "\<lparr>sl_roots = [(''plugins'', ?r)], sl_libraries = [(''a'', ?m)]\<rparr>"
  have "add_root ?fs ''plugins'' ?r locator_new = Returns ?l1"
    by (simp add: add_root_def canonical_directory_def path_empty_def canonical_existing_path_def locator_new_def)
  then have "locator_built ?fs ?l1" by (rule locator_built.intros(2) [OF locator_built.intros(1)])
  moreover have "map_library ''a'' ''plugins'' (Path False [''a.so'']) ?l1 = Returns ?l2"
    by (simp add: map_library_def normalise_relative_path_def lexically_normal_def path_empty_def norm_step_def elements_def)
  ultimately have b: "locator_built ?fs ?l2" by (rule locator_built.intros(3))
  then obtain r where "map_of (sl_roots ?l2) (m_root_name ?m) = Some r"
    using mapped_library_never_dangles [OF b, of "''a''" ?m] by auto
  with b show ?thesis by (intro exI [of _ ?fs] exI [of _ ?l2] exI [of _ ?m]) simp
qed

section \<open>Ownership of handles\<close>

text \<open>A program over library objects: it opens, moves, closes and destroys them. The state is the
  list of live objects and the loader's log.\<close>

inductive lib_step :: "filesystem \<Rightarrow> loader \<Rightarrow> shared_library list \<times> dl_log \<Rightarrow> shared_library list \<times> dl_log \<Rightarrow> bool"
  for fs ld where
  step_new: "lib_step fs ld (ls, d) (ls @ [shared_library_new], d)"
| step_open: "shared_library_open fs ld p opts d = (Returns l, d') \<Longrightarrow> lib_step fs ld (ls, d) (ls @ [l], d')"
| step_open_fails: "shared_library_open fs ld p opts d = (Throws m, d') \<Longrightarrow> lib_step fs ld (ls, d) (ls, d')"
| step_move: "i < length ls \<Longrightarrow> shared_library_move (ls ! i) = (new, old) \<Longrightarrow>
    lib_step fs ld (ls, d) (ls[i := old] @ [new], d)"
| step_assign: "i < length ls \<Longrightarrow> j < length ls \<Longrightarrow> i \<noteq> j \<Longrightarrow>
    shared_library_move_assign (ls ! i) (ls ! j) d = (new, old, d') \<Longrightarrow>
    lib_step fs ld (ls, d) (ls[i := new, j := old], d')"
| step_close: "i < length ls \<Longrightarrow> shared_library_close ld (ls ! i) d = (r, l, d') \<Longrightarrow>
    lib_step fs ld (ls, d) (ls[i := l], d')"
| step_destroy: "i < length ls \<Longrightarrow> release_noexcept (ls ! i) d = (l, d') \<Longrightarrow>
    lib_step fs ld (ls, d) (remove_at i ls, d')"

inductive_cases lib_stepE: "lib_step fs ld (ls, d) (ls', d')"

definition held :: "shared_library list \<Rightarrow> nat multiset" where
  "held ls = filter_mset (\<lambda>h. h \<noteq> 0) (mset (map handle ls))"

definition balanced :: "shared_library list \<times> dl_log \<Rightarrow> bool" where
  "balanced s \<longleftrightarrow> mset (opened (snd s)) = mset (closed (snd s)) + held (fst s) \<and> 0 \<notin> set (opened (snd s))"

lemma held_append [simp]: "held (xs @ ys) = held xs + held ys"
  by (simp add: held_def)

lemma held_single [simp]: "held [l] = (if handle l = 0 then {#} else {#handle l#})"
  by (simp add: held_def)

lemma held_split: "i < length ls \<Longrightarrow> held ls = held [ls ! i] + held (remove_at i ls)"
proof -
  assume i: "i < length ls"
  have "held ls = held (take i ls @ ls ! i # drop (Suc i) ls)"
    using i by (simp add: id_take_nth_drop [symmetric])
  then show ?thesis by (simp add: held_def remove_at_def)
qed

lemma held_update: "i < length ls \<Longrightarrow> held (ls[i := l]) = held [l] + held (remove_at i ls)"
  by (simp add: upd_conv_take_nth_drop held_def remove_at_def)

lemma shared_library_open_log:
  assumes "shared_library_open fs ld p opts d = (r, d')"
  shows "(\<exists>l. r = Returns l \<and> handle l \<noteq> 0 \<and> d' = d\<lparr>opened := handle l # opened d\<rparr>) \<or> ((\<forall>l. r \<noteq> Returns l) \<and> d' = d)"
  using assms by (auto simp: shared_library_open_def Let_def split: outcome.splits if_splits)

lemma lib_step_balanced:
  assumes "lib_step fs ld s s'" "balanced s"
  shows "balanced s'"
  using assms
proof (induction rule: lib_step.induct)
  case (step_new ls d)
  then show ?case by (simp add: balanced_def shared_library_new_def)
next
  case (step_open p opts d l d' ls)
  then show ?case using shared_library_open_log [of fs ld p opts d "Returns l" d']
    by (auto simp: balanced_def)
next
  case (step_open_fails p opts d m d' ls)
  then show ?case using shared_library_open_log [of fs ld p opts d "Throws m" d'] by auto
next
  case (step_move i ls new old d)
  then show ?case using held_split [of i ls] held_update [of i ls old]
    by (auto simp: balanced_def shared_library_move_def)
next
  case (step_assign i ls j d new old d')
  have h: "held (ls[i := new, j := old]) + held [ls ! i] = held ls"
  proof -
    have "new = ls ! j" "handle old = 0"
      using step_assign(4) by (auto simp: shared_library_move_assign_def shared_library_move_def split: prod.splits)
    then have "held (ls[i := new, j := old]) = held (remove_at j (ls[i := new]))"
      using step_assign(1-3) held_update [of j "ls[i := new]" old] by simp
    moreover have "held (ls[i := new]) = held [ls ! j] + held (remove_at j (ls[i := new]))"
      using step_assign(1-3) held_split [of j "ls[i := new]"] by simp
    moreover have "held (ls[i := new]) = held [ls ! j] + held (remove_at i ls)"
      using step_assign(1) held_update [of i ls new] \<open>new = ls ! j\<close> by simp
    moreover have "held ls = held [ls ! i] + held (remove_at i ls)"
      using held_split [OF step_assign(1)] .
    ultimately show ?thesis by simp
  qed
  have "d' = (if handle (ls ! i) = 0 then d else d\<lparr>closed := handle (ls ! i) # closed d\<rparr>)"
    using step_assign(4) by (auto simp: shared_library_move_assign_def release_noexcept_def split: prod.splits if_splits)
  then show ?case using h step_assign(5) by (auto simp: balanced_def split: if_splits)
next
  case (step_close i ls d r l d')
  then show ?case using held_split [of i ls] held_update [of i ls l]
    by (auto simp: balanced_def shared_library_close_def split: if_splits)
next
  case (step_destroy i ls d l d')
  then show ?case using held_split [of i ls]
    by (auto simp: balanced_def release_noexcept_def split: if_splits)
qed

text \<open>C7. Handles are owned: in every program of opens, moves, assignments, closes and destructions
  the handles the loader returned are those already closed together with those of the live
  objects, with multiplicity. So no handle is closed twice, none is leaked, and when no object is
  left every handle has been closed.\<close>

theorem handles_closed_exactly_once:
  assumes "(lib_step fs ld)\<^sup>*\<^sup>* ([], \<lparr>opened = [], closed = []\<rparr>) (ls, d)"
  shows "mset (opened d) = mset (closed d) + held ls \<and> (ls = [] \<longrightarrow> mset (closed d) = mset (opened d))"
proof -
  have "balanced ([], \<lparr>opened = [], closed = []\<rparr>)" by (simp add: balanced_def held_def)
  with assms have "balanced (ls, d)"
    by (induction rule: rtranclp_induct) (auto intro: lib_step_balanced)
  then show ?thesis by (auto simp: balanced_def held_def)
qed

theorem handles_closed_exactly_once_witness:
  "\<exists>fs ld d. (lib_step fs ld)\<^sup>*\<^sup>* ([], \<lparr>opened = [], closed = []\<rparr>) ([], d) \<and> opened d = [7] \<and> mset (closed d) = {#7#}"
proof -
  let ?fs = "\<lparr>fs_canonical = \<lambda>p. Inr p, fs_exists = \<lambda>p. True, fs_is_regular_file = \<lambda>p. True, fs_is_directory = \<lambda>p. True\<rparr>"
  let ?ld = "\<lparr>ld_dlopen = \<lambda>hs p f. 7, ld_dlsym = \<lambda>h s. 0, ld_dlclose_ok = \<lambda>h. True, ld_error = []\<rparr>"
  let ?l = "\<lparr>resolved_path = Path True [''a'']  , handle = 7\<rparr>"
  have "lib_step ?fs ?ld ([], \<lparr>opened = [], closed = []\<rparr>) ([] @ [?l], \<lparr>opened = [7], closed = []\<rparr>)"
    by (rule step_open [where p = "Path True [''a'']" and opts = default_options])
      (simp add: shared_library_open_def canonical_existing_path_def)
  moreover have "lib_step ?fs ?ld ([?l], \<lparr>opened = [7], closed = []\<rparr>) (remove_at 0 [?l], \<lparr>opened = [7], closed = [7]\<rparr>)"
    by (rule step_destroy) (simp_all add: release_noexcept_def)
  ultimately have r: "(lib_step ?fs ?ld)\<^sup>*\<^sup>* ([], \<lparr>opened = [], closed = []\<rparr>) ([], \<lparr>opened = [7], closed = [7]\<rparr>)"
    by (simp add: remove_at_def)
  from handles_closed_exactly_once [OF r] r show ?thesis by (intro exI [of _ ?fs] exI [of _ ?ld]) auto
qed

end
