(* ===== verification/Script_Lexer.thy ===== *)
theory Script_Lexer
  imports Lamia_Prelude
begin

text \<open>
  The lexer of the script compiler, class \<open>LamiaLexer\<close> of \<open>lamia_compiler.cpp\<close>, with the tokens of
  \<open>lamia_language_specification.hpp\<close>. Progress messages are left out. The line, column and
  position of a token are \<open>64 word\<close>, because \<open>add_token\<close> computes the last two by a subtraction that can
  wrap. The character classes are those of the C locale, where no byte from 128 on belongs to
  one. The lemmas show that the lexer ends and loses no character, and where its tokens
  report to start.
\<close>

section \<open>Tokens\<close>

datatype LamiaTokenType =
    KEYWORD | IDENTIFIER | LITERAL | OPERATOR | PUNCTUATION | COMMENT | WHITESPACE | NEWLINE
  | STRING_INTERPOLATION | TEMPLATE_LITERAL

record LamiaToken =
  type :: LamiaTokenType
  "value" :: string
  line :: "64 word"
  column :: "64 word"
  position :: "64 word"
  semantic_hint :: string
  is_ai_generated :: bool
  confidence_score :: real

record LamiaLexer =
  sc_source :: string
  sc_position :: nat
  sc_line :: "64 word"
  sc_column :: "64 word"
  sc_tokens :: "LamiaToken list"
  ai_mode_active :: bool

definition LamiaLexer_new :: "string \<Rightarrow> LamiaLexer" where
  "LamiaLexer_new src = \<lparr>sc_source = src, sc_position = 0, sc_line = 1, sc_column = 1, sc_tokens = [],
     ai_mode_active = False\<rparr>"

definition enable_ai_mode :: "LamiaLexer \<Rightarrow> LamiaLexer" where
  "enable_ai_mode l = l\<lparr>ai_mode_active := True\<rparr>"

section \<open>The cursor\<close>

definition peek_char :: "nat \<Rightarrow> LamiaLexer \<Rightarrow> char" where
  "peek_char k l = (if sc_position l + k < length (sc_source l) then sc_source l ! (sc_position l + k) else NUL)"

definition advance_char :: "LamiaLexer \<Rightarrow> LamiaLexer" where
  "advance_char l =
     (if sc_position l < length (sc_source l)
      then l\<lparr>sc_position := sc_position l + 1, sc_column := sc_column l + 1\<rparr> else l)"

definition has_more :: "LamiaLexer \<Rightarrow> bool" where
  "has_more l \<longleftrightarrow> sc_position l < length (sc_source l)"

definition add_token :: "LamiaTokenType \<Rightarrow> string \<Rightarrow> string \<Rightarrow> LamiaLexer \<Rightarrow> LamiaLexer" where
  "add_token ty v hint l = l\<lparr>sc_tokens := sc_tokens l @
     [\<lparr>type = ty, value = v, line = sc_line l, column = sc_column l - of_nat (length v),
       position = of_nat (sc_position l) - of_nat (length v), semantic_hint = hint,
       is_ai_generated = False, confidence_score = 1\<rparr>]\<rparr>"

text \<open>\<open>line_++; column_ = 1;\<close>\<close>

definition next_line :: "LamiaLexer \<Rightarrow> LamiaLexer" where
  "next_line l = l\<lparr>sc_line := sc_line l + 1, sc_column := 1\<rparr>"

definition sc_left :: "LamiaLexer \<Rightarrow> nat" where
  "sc_left l = length (sc_source l) - sc_position l"

lemma next_line_simps [simp]:
  "sc_source (next_line l) = sc_source l" "sc_position (next_line l) = sc_position l"
  "sc_tokens (next_line l) = sc_tokens l" "has_more (next_line l) = has_more l"
  "peek_char k (next_line l) = peek_char k l" "ai_mode_active (next_line l) = ai_mode_active l"
  "sc_left (next_line l) = sc_left l"
  by (simp_all add: next_line_def has_more_def peek_char_def sc_left_def)

lemma sc_left_advance: "has_more l \<Longrightarrow> sc_left (advance_char l) < sc_left l"
  by (auto simp: sc_left_def advance_char_def has_more_def)

lemma sc_left_advance_le: "sc_left (advance_char l) \<le> sc_left l"
  by (auto simp: sc_left_def advance_char_def)

section \<open>Character tables\<close>

definition is_keyword :: "string \<Rightarrow> bool" where
  "is_keyword s \<longleftrightarrow> s \<in> set
     [''create'', ''become'', ''invoke'', ''summon'',
      ''when'', ''otherwise'', ''while_shining'', ''for_each_star'', ''until_dark'',
      ''manifest'', ''return_light'', ''yield_radiance'',
      ''blueprint'', ''inherit_essence'', ''implement_facet'',
      ''await_dawn'', ''promise_light'', ''emit_signal'',
      ''render_beauty'', ''style_with'', ''bind_data'', ''handle_touch'',
      ''radiant'', ''shimmer'', ''lumina'', ''void_star'',
      ''constellation'', ''nebula'', ''galaxy'', ''prism'',
      ''crystal'', ''aurora'', ''widget'', ''theme'', ''vault'', ''portal'']"

definition is_operator_char :: "char \<Rightarrow> bool" where
  "is_operator_char c \<longleftrightarrow> c \<in> set ''+-*/%=!<>&|^~?:''"

definition is_punctuation :: "char \<Rightarrow> bool" where
  "is_punctuation c \<longleftrightarrow> c \<in> set ''()[]{},;.@#''"

definition is_three_char_operator :: "string \<Rightarrow> bool" where
  "is_three_char_operator s \<longleftrightarrow> s \<in> set [''<~>'', ''**>'', ''<<<'', ''>>>'']"

definition is_two_char_operator :: "string \<Rightarrow> bool" where
  "is_two_char_operator s \<longleftrightarrow> s \<in> set
     [''=='', ''!='', ''<='', ''>='', ''&&'', ''||'', ''++'', ''--'',
      ''+='', ''-='', ''*='', ''/='', ''%='', ''&='', ''|='', ''^='',
      ''<<'', ''>>'', ''->'', ''~>'', ''<*'', ''**'']"

section \<open>The loops of the handlers\<close>

text \<open>The loops that collect characters while \<open>P\<close> holds of the next one.\<close>

function collect :: "(char \<Rightarrow> bool) \<Rightarrow> string \<Rightarrow> LamiaLexer \<Rightarrow> string \<times> LamiaLexer" where
  "collect P v l =
     (if has_more l \<and> P (peek_char 0 l) then collect P (v @ [peek_char 0 l]) (advance_char l) else (v, l))"
  by pat_completeness auto
termination by (relation "measure (\<lambda>(P, v, l). sc_left l)") (auto simp: sc_left_advance)

function comment_loop :: "string \<Rightarrow> LamiaLexer \<Rightarrow> string \<times> LamiaLexer" where
  "comment_loop v l =
     (if sc_position l < length (sc_source l) - 1 then
        (if peek_char 0 l = CHR ''*'' \<and> peek_char 1 l = CHR ''/''
         then (v @ ''*/'', advance_char (advance_char l))
         else let l' = (if peek_char 0 l = nl then next_line l else l)
              in comment_loop (v @ [peek_char 0 l]) (advance_char l'))
      else (v, l))"
  by pat_completeness auto
termination
proof (relation "measure (\<lambda>(v, l). sc_left l)", goal_cases)
  case (2 v l l')
  then have "has_more l'" by (auto simp: has_more_def)
  with sc_left_advance [OF this] 2 show ?case by auto
qed simp

text \<open>A backslash and, when there is one, the character after it.\<close>

definition escape_pair :: "string \<Rightarrow> LamiaLexer \<Rightarrow> string \<times> LamiaLexer" where
  "escape_pair v l =
     (let v1 = v @ [peek_char 0 l]; l1 = advance_char l
      in if has_more l1 then (v1 @ [peek_char 0 l1], advance_char l1) else (v1, l1))"

definition take_char :: "string \<Rightarrow> LamiaLexer \<Rightarrow> string \<times> LamiaLexer" where
  "take_char v l = (v @ [peek_char 0 l], advance_char (if peek_char 0 l = nl then next_line l else l))"

lemma sc_left_escape_pair: "has_more l \<Longrightarrow> sc_left (snd (escape_pair v l)) < sc_left l"
  using sc_left_advance [of l] sc_left_advance_le [of "advance_char l"]
  by (auto simp: escape_pair_def Let_def)

lemma sc_left_take_char: "has_more l \<Longrightarrow> sc_left (snd (take_char v l)) < sc_left l"
  using sc_left_advance [of "next_line l"] sc_left_advance [of l] by (auto simp: take_char_def)

function string_literal_loop :: "string \<Rightarrow> bool \<Rightarrow> LamiaLexer \<Rightarrow> string \<times> bool \<times> LamiaLexer" where
  "string_literal_loop v interp l =
     (if has_more l \<and> peek_char 0 l \<noteq> dquote then
        (if peek_char 0 l = bslash
         then string_literal_loop (fst (escape_pair v l)) interp (snd (escape_pair v l))
         else if peek_char 0 l = CHR ''$'' \<and> peek_char 1 l = CHR ''{''
         then string_literal_loop (v @ [peek_char 0 l]) True (advance_char l)
         else string_literal_loop (fst (take_char v l)) interp (snd (take_char v l)))
      else (v, interp, l))"
  by pat_completeness auto
termination
  by (relation "measure (\<lambda>(v, i, l). sc_left l)")
    (auto simp: sc_left_advance sc_left_escape_pair sc_left_take_char)

function template_loop :: "string \<Rightarrow> LamiaLexer \<Rightarrow> string \<times> LamiaLexer" where
  "template_loop v l =
     (if has_more l \<and> peek_char 0 l \<noteq> backtick then
        (if peek_char 0 l = bslash then template_loop (fst (escape_pair v l)) (snd (escape_pair v l))
         else template_loop (fst (take_char v l)) (snd (take_char v l)))
      else (v, l))"
  by pat_completeness auto
termination
  by (relation "measure (\<lambda>(v, l). sc_left l)") (auto simp: sc_left_escape_pair sc_left_take_char split_beta)

text \<open>The exponent sign a number may have after its \<open>e\<close>.\<close>

definition exponent :: "string \<Rightarrow> LamiaLexer \<Rightarrow> string \<times> LamiaLexer" where
  "exponent v l =
     (let v1 = v @ [peek_char 0 l]; l1 = advance_char l
      in if has_more l1 \<and> (peek_char 0 l1 = CHR ''+'' \<or> peek_char 0 l1 = CHR ''-'')
         then (v1 @ [peek_char 0 l1], advance_char l1) else (v1, l1))"

lemma sc_left_exponent: "has_more l \<Longrightarrow> sc_left (snd (exponent v l)) < sc_left l"
  using sc_left_advance [of l] sc_left_advance_le [of "advance_char l"]
  by (auto simp: exponent_def Let_def)

function number_loop :: "string \<Rightarrow> bool \<Rightarrow> LamiaLexer \<Rightarrow> string \<times> bool \<times> LamiaLexer" where
  "number_loop v dec l =
     (if has_more l then
        (if isdigit (peek_char 0 l) then number_loop (v @ [peek_char 0 l]) dec (advance_char l)
         else if peek_char 0 l = CHR ''.'' \<and> \<not> dec then number_loop (v @ [peek_char 0 l]) True (advance_char l)
         else if peek_char 0 l = CHR ''e'' \<or> peek_char 0 l = CHR ''E''
         then number_loop (fst (exponent v l)) dec (snd (exponent v l))
         else (v, dec, l))
      else (v, dec, l))"
  by pat_completeness auto
termination
  by (relation "measure (\<lambda>(v, d, l). sc_left l)") (auto simp: sc_left_advance sc_left_exponent)

declare collect.simps [simp del] comment_loop.simps [simp del] string_literal_loop.simps [simp del]
  template_loop.simps [simp del] number_loop.simps [simp del]

section \<open>The handlers\<close>

definition handle_whitespace :: "LamiaLexer \<Rightarrow> LamiaLexer" where
  "handle_whitespace l =
     (if peek_char 0 l = nl
      then advance_char (next_line (add_token NEWLINE ([bslash] @ ''n'') [] l))
      else case collect (\<lambda>c. isspace c \<and> c \<noteq> nl) [] l of
        (ws, l') \<Rightarrow> if ws \<noteq> [] then add_token WHITESPACE ws [] l' else l')"

definition handle_single_line_comment :: "LamiaLexer \<Rightarrow> LamiaLexer" where
  "handle_single_line_comment l =
     (case collect (\<lambda>c. c \<noteq> nl) ''//'' (advance_char (advance_char l)) of
        (c, l') \<Rightarrow> add_token COMMENT c ''Single-line comment'' l')"

definition handle_multi_line_comment :: "LamiaLexer \<Rightarrow> LamiaLexer" where
  "handle_multi_line_comment l =
     (case comment_loop ''/*'' (advance_char (advance_char l)) of
        (c, l') \<Rightarrow> add_token COMMENT c ''Multi-line comment'' l')"

text \<open>The closing quote, when the source has one.\<close>

definition closing :: "string \<Rightarrow> LamiaLexer \<Rightarrow> string \<times> LamiaLexer" where
  "closing v l = (if has_more l then (v @ [peek_char 0 l], advance_char l) else (v, l))"

definition handle_string_literal :: "LamiaLexer \<Rightarrow> LamiaLexer" where
  "handle_string_literal l =
     (case string_literal_loop [dquote] False (advance_char l) of
        (v, interp, l') \<Rightarrow>
          (case closing v l' of
             (v, l') \<Rightarrow> add_token (if interp then STRING_INTERPOLATION else LITERAL) v
                          (if interp then ''Interpolated string'' else ''String literal'') l'))"

definition handle_template_literal :: "LamiaLexer \<Rightarrow> LamiaLexer" where
  "handle_template_literal l =
     (case template_loop [backtick] (advance_char l) of
        (v, l') \<Rightarrow> (case closing v l' of (v, l') \<Rightarrow> add_token TEMPLATE_LITERAL v ''Template literal'' l'))"

definition handle_number_literal :: "LamiaLexer \<Rightarrow> LamiaLexer" where
  "handle_number_literal l =
     (case (if peek_char 0 l = CHR ''.'' then number_loop [peek_char 0 l] True (advance_char l)
            else number_loop [] False l) of
        (v, dec, l') \<Rightarrow> add_token LITERAL v (if dec then ''Float literal'' else ''Integer literal'') l')"

definition handle_identifier_or_keyword :: "LamiaLexer \<Rightarrow> LamiaLexer" where
  "handle_identifier_or_keyword l =
     (case collect (\<lambda>c. isalnum c \<or> c = CHR ''_'') [] l of
        (v, l') \<Rightarrow>
          let ty = (if is_keyword v then KEYWORD else IDENTIFIER);
              hint = (if is_keyword v then ''Lamia keyword'' else ''Identifier'')
          in add_token ty v
               (hint @ (if ai_mode_active l' \<and> ty = IDENTIFIER then '' (AI suggestions available)'' else [])) l')"

definition handle_operator :: "LamiaLexer \<Rightarrow> LamiaLexer" where
  "handle_operator l =
     (let three = substr (sc_source l) (sc_position l) 3;
          two = substr (sc_source l) (sc_position l) 2
      in if sc_position l + 2 < length (sc_source l) \<and> is_three_char_operator three
         then add_token OPERATOR three ''Three-character operator'' (advance_char (advance_char (advance_char l)))
         else if sc_position l + 1 < length (sc_source l) \<and> is_two_char_operator two
         then add_token OPERATOR two ''Two-character operator'' (advance_char (advance_char l))
         else add_token OPERATOR [peek_char 0 l] ''Single-character operator'' (advance_char l))"

definition handle_punctuation :: "LamiaLexer \<Rightarrow> LamiaLexer" where
  "handle_punctuation l = add_token PUNCTUATION [peek_char 0 l] ''Punctuation'' (advance_char l)"

text \<open>The body of the loop of \<open>tokenize\<close>.\<close>

definition sc_step :: "LamiaLexer \<Rightarrow> LamiaLexer" where
  "sc_step l =
     (let c = peek_char 0 l in
      if isspace c then handle_whitespace l
      else if c = CHR ''/'' \<and> peek_char 1 l = CHR ''/'' then handle_single_line_comment l
      else if c = CHR ''/'' \<and> peek_char 1 l = CHR ''*'' then handle_multi_line_comment l
      else if c = dquote then handle_string_literal l
      else if c = backtick then handle_template_literal l
      else if isdigit c \<or> (c = CHR ''.'' \<and> isdigit (peek_char 1 l)) then handle_number_literal l
      else if isalpha c \<or> c = CHR ''_'' then handle_identifier_or_keyword l
      else if is_operator_char c then handle_operator l
      else if is_punctuation c then handle_punctuation l
      else advance_char (add_token IDENTIFIER [c] ''Unknown character'' l))"

section \<open>No character is lost\<close>

text \<open>\<open>eats l w l'\<close>: the cursor went over the text \<open>w\<close> and no token was added.\<close>

definition eats :: "LamiaLexer \<Rightarrow> string \<Rightarrow> LamiaLexer \<Rightarrow> bool" where
  "eats l w l' \<longleftrightarrow> sc_source l' = sc_source l \<and> sc_tokens l' = sc_tokens l
     \<and> sc_position l' = sc_position l + length w \<and> sc_position l' \<le> length (sc_source l)
     \<and> substr (sc_source l) (sc_position l) (length w) = w"

named_theorems eats_intros

lemma eats_Nil: "sc_position l \<le> length (sc_source l) \<Longrightarrow> eats l [] l"
  by (simp add: eats_def substr_def)

lemma eats_advance: "has_more l \<Longrightarrow> eats l [peek_char 0 l] (advance_char l)"
  by (auto simp: eats_def has_more_def peek_char_def advance_char_def substr_def
      take_Suc_conv_app_nth)

lemma eats_trans: "eats a u b \<Longrightarrow> eats b w c \<Longrightarrow> eats a (u @ w) c"
  by (auto simp: eats_def substr_def take_add ac_simps)

lemma eats_next_line [simp]:
  "eats l w (next_line m) = eats l w m" "eats (next_line l) w m = eats l w m"
  by (simp_all add: eats_def)

lemma eats_bound: "eats l w m \<Longrightarrow> sc_position m \<le> length (sc_source m)"
  by (simp add: eats_def)

lemma eats_step: "has_more l \<Longrightarrow> eats (advance_char l) w m \<Longrightarrow> eats l (peek_char 0 l # w) m"
  using eats_trans [OF eats_advance] by fastforce

lemma has_more_bound: "has_more l \<Longrightarrow> sc_position (advance_char l) \<le> length (sc_source (advance_char l))"
  using eats_bound [OF eats_advance] .

text \<open>What a collecting loop does from the value \<open>v\<close>: it appends what it eats.\<close>

definition collects :: "string \<Rightarrow> LamiaLexer \<Rightarrow> string \<Rightarrow> LamiaLexer \<Rightarrow> bool" where
  "collects v l v' l' \<longleftrightarrow> (\<exists>w. v' = v @ w \<and> eats l w l')"

lemma collects_refl: "sc_position l \<le> length (sc_source l) \<Longrightarrow> collects v l v l"
  using eats_Nil by (auto simp: collects_def)

lemma collects_step: "has_more l \<Longrightarrow> collects (v @ [peek_char 0 l]) (advance_char l) v' l' \<Longrightarrow> collects v l v' l'"
  using eats_step by (auto simp: collects_def)

lemma collects_trans: "collects a l b m \<Longrightarrow> collects b m c n \<Longrightarrow> collects a l c n"
  using eats_trans by (fastforce simp: collects_def)

lemma collects_advance: "has_more l \<Longrightarrow> collects v l (v @ [peek_char 0 l]) (advance_char l)"
  using eats_advance by (auto simp: collects_def)

lemma collects_bound: "collects v l w m \<Longrightarrow> sc_position m \<le> length (sc_source m)"
  using eats_bound by (auto simp: collects_def)

lemma collects_collect:
  "sc_position l \<le> length (sc_source l) \<Longrightarrow> collects v l (fst (collect P v l)) (snd (collect P v l))"
proof (induction P v l rule: collect.induct)
  case (1 P v l)
  then show ?case
    by (subst (1 2) collect.simps) (auto intro: collects_refl collects_step has_more_bound)
qed

lemma advance_next_line: "advance_char (next_line l) = (advance_char l)\<lparr>sc_line := sc_line l + 1, sc_column := (if has_more l then 2 else 1)\<rparr>"
  by (simp add: advance_char_def next_line_def has_more_def)

lemma collects_take_char: "has_more l \<Longrightarrow> collects v l (fst (take_char v l)) (snd (take_char v l))"
  using collects_advance [of l v] eats_advance [of "next_line l"]
  by (auto simp: take_char_def collects_def)

lemma collects_escape_pair: "has_more l \<Longrightarrow> collects v l (fst (escape_pair v l)) (snd (escape_pair v l))"
  using collects_advance [of l v] collects_trans [OF collects_advance [of l v] collects_advance]
  by (simp add: escape_pair_def Let_def)

lemma collects_exponent: "has_more l \<Longrightarrow> collects v l (fst (exponent v l)) (snd (exponent v l))"
  using collects_advance [of l v] collects_trans [OF collects_advance [of l v] collects_advance]
  by (simp add: exponent_def Let_def)

lemma collects_closing: "sc_position l \<le> length (sc_source l) \<Longrightarrow> collects v l (fst (closing v l)) (snd (closing v l))"
  using collects_advance [of l v] collects_refl [of l v] by (simp add: closing_def)

lemma collects_comment_loop:
  "sc_position l \<le> length (sc_source l) \<Longrightarrow> collects v l (fst (comment_loop v l)) (snd (comment_loop v l))"
proof (induction v l rule: comment_loop.induct)
  case (1 v l)
  show ?case
  proof (cases "sc_position l < length (sc_source l) - 1")
    case False
    then show ?thesis using 1 by (subst (1 2) comment_loop.simps) (auto intro: collects_refl)
  next
    case True
    then have m: "has_more l" "has_more (advance_char l)" by (auto simp: has_more_def advance_char_def)
    show ?thesis
    proof (cases "peek_char 0 l = CHR ''*'' \<and> peek_char 1 l = CHR ''/''")
      case star: True
      have "peek_char 0 (advance_char l) = CHR ''/''"
        using star m True by (auto simp: peek_char_def advance_char_def has_more_def)
      then have "collects v l (v @ ''*/'') (advance_char (advance_char l))"
        using collects_trans [OF collects_advance [OF m(1), of v] collects_advance [OF m(2)]] star by simp
      then show ?thesis using True star by (subst (1 2) comment_loop.simps) simp
    next
      case False
      let ?m = "if peek_char 0 l = nl then next_line l else l"
      have "collects v l (v @ [peek_char 0 l]) (advance_char ?m)"
        using collects_take_char [OF m(1), of v] by (simp add: take_char_def)
      moreover have "collects (v @ [peek_char 0 l]) (advance_char ?m)
          (fst (comment_loop (v @ [peek_char 0 l]) (advance_char ?m))) (snd (comment_loop (v @ [peek_char 0 l]) (advance_char ?m)))"
        using "1.IH" [OF True False refl] collects_bound [OF calculation] by simp
      ultimately have "collects v l (fst (comment_loop (v @ [peek_char 0 l]) (advance_char ?m)))
          (snd (comment_loop (v @ [peek_char 0 l]) (advance_char ?m)))"
        by (rule collects_trans)
      moreover have "comment_loop v l = comment_loop (v @ [peek_char 0 l]) (advance_char ?m)"
        using True False by (subst comment_loop.simps) (simp only: if_True if_False Let_def)
      ultimately show ?thesis by simp
    qed
  qed
qed

lemma collects_string_literal_loop:
  "sc_position l \<le> length (sc_source l) \<Longrightarrow>
     collects v l (fst (string_literal_loop v i l)) (snd (snd (string_literal_loop v i l)))"
proof (induction v i l rule: string_literal_loop.induct)
  case (1 v i l)
  show ?case
  proof (cases "has_more l \<and> peek_char 0 l \<noteq> dquote")
    case False
    then show ?thesis using 1 by (subst (1 2) string_literal_loop.simps) (auto intro: collects_refl)
  next
    case True
    note c = collects_trans [OF collects_escape_pair] collects_trans [OF collects_take_char]
      collects_trans [OF collects_advance]
    note b = collects_bound [OF collects_escape_pair, of l v] collects_bound [OF collects_take_char, of l v]
      has_more_bound [of l]
    show ?thesis
      using True b "1.IH" by (subst (1 2) string_literal_loop.simps) (auto intro: c)
  qed
qed

lemma collects_template_loop:
  "sc_position l \<le> length (sc_source l) \<Longrightarrow> collects v l (fst (template_loop v l)) (snd (template_loop v l))"
proof (induction v l rule: template_loop.induct)
  case (1 v l)
  show ?case
  proof (cases "has_more l \<and> peek_char 0 l \<noteq> backtick")
    case False
    then show ?thesis using 1 by (subst (1 2) template_loop.simps) (auto intro: collects_refl)
  next
    case True
    note c = collects_trans [OF collects_escape_pair] collects_trans [OF collects_take_char]
    note b = collects_bound [OF collects_escape_pair, of l v] collects_bound [OF collects_take_char, of l v]
    show ?thesis
      using True b "1.IH" by (subst (1 2) template_loop.simps) (auto intro: c)
  qed
qed

lemma collects_number_loop:
  "sc_position l \<le> length (sc_source l) \<Longrightarrow>
     collects v l (fst (number_loop v d l)) (snd (snd (number_loop v d l)))"
proof (induction v d l rule: number_loop.induct)
  case (1 v d l)
  show ?case
  proof (cases "has_more l")
    case False
    then show ?thesis using 1 by (subst (1 2) number_loop.simps) (auto intro: collects_refl)
  next
    case True
    note c = collects_trans [OF collects_exponent] collects_trans [OF collects_advance]
    note b = collects_bound [OF collects_exponent, of l v] has_more_bound [of l]
    show ?thesis
      using True b "1.IH" "1.prems" by (subst (1 2) number_loop.simps) (auto intro: c collects_refl)
  qed
qed

text \<open>The source text a token stands for; the lexer writes a line break as an escape.\<close>

definition token_text :: "LamiaToken \<Rightarrow> string" where
  "token_text t = (if type t = NEWLINE then [nl] else value t)"

text \<open>The tokens added before the character they stand for is consumed.\<close>

definition early :: "LamiaToken \<Rightarrow> bool" where
  "early t \<longleftrightarrow> type t = NEWLINE \<or> semantic_hint t = ''Unknown character''"

text \<open>One round eats a nonempty text and adds the one token that stands for it.\<close>

definition round_of :: "LamiaLexer \<Rightarrow> LamiaLexer \<Rightarrow> bool" where
  "round_of l l' \<longleftrightarrow>
     (\<exists>t m. eats l (token_text t) m \<and> token_text t \<noteq> [] \<and> value t \<noteq> [] \<and> sc_source l' = sc_source m
        \<and> sc_position l' = sc_position m \<and> sc_tokens l' = sc_tokens m @ [t]
        \<and> (\<not> early t \<longrightarrow> position t = of_nat (sc_position l)))"

lemma add_token_simps [simp]:
  "sc_source (add_token ty v h l) = sc_source l" "sc_position (add_token ty v h l) = sc_position l"
  "has_more (add_token ty v h l) = has_more l" "peek_char k (add_token ty v h l) = peek_char k l"
  by (simp_all add: add_token_def has_more_def peek_char_def)

lemma round_of_add:
  assumes "eats l v m" "v \<noteq> []" "ty \<noteq> NEWLINE"
  shows "round_of l (add_token ty v h m)"
proof -
  let ?t = "last (sc_tokens (add_token ty v h m))"
  have "token_text ?t = v" "value ?t = v" using assms(3) by (simp_all add: token_text_def add_token_def)
  moreover have "position ?t = of_nat (sc_position l)"
    using assms(1) by (simp add: add_token_def eats_def)
  moreover have "sc_tokens (add_token ty v h m) = sc_tokens m @ [?t]" by (simp add: add_token_def)
  ultimately show ?thesis using assms(1,2) unfolding round_of_def by (metis add_token_simps(1,2))
qed

lemma collects_eats: "collects u m v n \<Longrightarrow> eats l u m \<Longrightarrow> eats l v n"
  using eats_trans by (auto simp: collects_def)

lemma collects_mono: "collects u m v n \<Longrightarrow> u \<noteq> [] \<Longrightarrow> v \<noteq> []"
  by (auto simp: collects_def)

lemma eats_two:
  assumes "has_more l" "peek_char 1 l = c" "c \<noteq> NUL"
  shows "eats l [peek_char 0 l, c] (advance_char (advance_char l))"
proof -
  have "has_more (advance_char l)" "peek_char 0 (advance_char l) = c"
    using assms by (auto simp: has_more_def peek_char_def advance_char_def split: if_splits)
  then show ?thesis using eats_step [OF assms(1) eats_advance] by simp
qed

lemma round_whitespace:
  assumes "has_more l" "isspace (peek_char 0 l)"
  shows "round_of l (handle_whitespace l)"
proof (cases "peek_char 0 l = nl")
  case True
  have e: "eats l [nl] (advance_char l)" using eats_advance [OF assms(1)] True by simp
  let ?t = "last (sc_tokens (add_token NEWLINE ([bslash] @ ''n'') [] l))"
  have "token_text ?t = [nl]" "early ?t" "value ?t \<noteq> []" by (simp_all add: token_text_def early_def add_token_def)
  then show ?thesis
    using e True unfolding round_of_def handle_whitespace_def
    by (intro exI [of _ ?t] exI [of _ "advance_char l"])
      (auto simp: advance_char_def next_line_def add_token_def)
next
  case False
  let ?P = "\<lambda>c. isspace c \<and> c \<noteq> nl"
  have "collects [] l (fst (collect ?P [] l)) (snd (collect ?P [] l))"
    using assms(1) by (intro collects_collect) (simp add: has_more_def)
  moreover have "fst (collect ?P [] l) \<noteq> []"
  proof -
    have "collect ?P [] l = collect ?P [peek_char 0 l] (advance_char l)"
      using assms False by (subst collect.simps) simp
    then show ?thesis
      using collects_collect [OF has_more_bound [OF assms(1)], of "[peek_char 0 l]" ?P] collects_mono by auto
  qed
  ultimately show ?thesis
    using False by (auto simp: handle_whitespace_def split_beta collects_def intro: round_of_add)
qed

lemma round_collect:
  assumes "eats l u m" "u \<noteq> []" "ty \<noteq> NEWLINE"
  shows "round_of l (add_token ty (fst (collect P u m)) h (snd (collect P u m)))"
  using collects_eats [OF collects_collect [OF eats_bound [OF assms(1)]] assms(1)]
    collects_mono [OF collects_collect [OF eats_bound [OF assms(1)]] assms(2)]
    assms(3)
  by (rule round_of_add)

lemma round_single_line_comment:
  "has_more l \<Longrightarrow> peek_char 0 l = CHR ''/'' \<Longrightarrow> peek_char 1 l = CHR ''/'' \<Longrightarrow>
     round_of l (handle_single_line_comment l)"
  using round_collect [OF eats_two [of l "CHR ''/''"]] by (simp add: handle_single_line_comment_def split_beta)

lemma round_multi_line_comment:
  assumes "has_more l" "peek_char 0 l = CHR ''/''" "peek_char 1 l = CHR ''*''"
  shows "round_of l (handle_multi_line_comment l)"
proof -
  have e: "eats l ''/*'' (advance_char (advance_char l))" using eats_two [OF assms(1,3)] assms(2) by simp
  note c = collects_comment_loop [OF eats_bound [OF e], of "''/*''"]
  show ?thesis
    using round_of_add [OF collects_eats [OF c e] collects_mono [OF c]]
    by (simp add: handle_multi_line_comment_def split_beta)
qed

lemma round_string_literal:
  assumes "has_more l" "peek_char 0 l = dquote"
  shows "round_of l (handle_string_literal l)"
proof -
  have e: "eats l [dquote] (advance_char l)" using eats_advance [OF assms(1)] assms(2) by simp
  note c = collects_string_literal_loop [OF eats_bound [OF e], of "[dquote]" False]
  note d = collects_trans [OF c collects_closing [OF collects_bound [OF c]]]
  show ?thesis
    using round_of_add [OF collects_eats [OF d e] collects_mono [OF d]]
    by (simp add: handle_string_literal_def split_beta)
qed

lemma round_template_literal:
  assumes "has_more l" "peek_char 0 l = backtick"
  shows "round_of l (handle_template_literal l)"
proof -
  have e: "eats l [backtick] (advance_char l)" using eats_advance [OF assms(1)] assms(2) by simp
  note c = collects_template_loop [OF eats_bound [OF e], of "[backtick]"]
  note d = collects_trans [OF c collects_closing [OF collects_bound [OF c]]]
  show ?thesis
    using round_of_add [OF collects_eats [OF d e] collects_mono [OF d]]
    by (simp add: handle_template_literal_def split_beta)
qed

lemma round_number_literal:
  assumes "has_more l" "isdigit (peek_char 0 l) \<or> peek_char 0 l = CHR ''.''"
  shows "round_of l (handle_number_literal l)"
proof -
  note e = eats_advance [OF assms(1)]
  show ?thesis
  proof (cases "peek_char 0 l = CHR ''.''")
    case True
    note c = collects_number_loop [OF eats_bound [OF e], of "[peek_char 0 l]" True]
    show ?thesis
      using round_of_add [OF collects_eats [OF c e] collects_mono [OF c]] True
      by (simp add: handle_number_literal_def split_beta)
  next
    case False
    then have "number_loop [] False l = number_loop [peek_char 0 l] False (advance_char l)"
      using assms by (subst number_loop.simps) simp
    moreover note c = collects_number_loop [OF eats_bound [OF e], of "[peek_char 0 l]" False]
    ultimately show ?thesis
      using round_of_add [OF collects_eats [OF c e] collects_mono [OF c]] False
      by (simp add: handle_number_literal_def split_beta)
  qed
qed

lemma round_identifier:
  assumes "has_more l" "isalpha (peek_char 0 l) \<or> peek_char 0 l = CHR ''_''"
  shows "round_of l (handle_identifier_or_keyword l)"
proof -
  let ?P = "\<lambda>c. isalnum c \<or> c = CHR ''_''"
  have "collect ?P [] l = collect ?P [peek_char 0 l] (advance_char l)"
    using assms by (subst collect.simps) (auto simp: isalnum_def)
  then show ?thesis
    using round_collect [OF eats_advance [OF assms(1)], of _ ?P]
    by (simp add: handle_identifier_or_keyword_def split_beta Let_def)
qed

lemma substr_two:
  "i + 1 < length s \<Longrightarrow> substr s i 2 = [s ! i, s ! (i + 1)]"
  by (simp add: substr_def numeral_2_eq_2 take_Suc_conv_app_nth)

lemma substr_three:
  "i + 2 < length s \<Longrightarrow> substr s i 3 = [s ! i, s ! (i + 1), s ! (i + 2)]"
  by (simp add: substr_def numeral_3_eq_3 take_Suc_conv_app_nth)

lemma round_operator:
  assumes "has_more l"
  shows "round_of l (handle_operator l)"
proof -
  let ?i = "sc_position l" and ?s = "sc_source l"
  have three: "eats l (substr ?s ?i 3) (advance_char (advance_char (advance_char l)))" if "?i + 2 < length ?s"
    using that by (auto simp: eats_def advance_char_def substr_def)
  have two: "eats l (substr ?s ?i 2) (advance_char (advance_char l))" if "?i + 1 < length ?s"
    using that by (auto simp: eats_def advance_char_def substr_def)
  show ?thesis
    using round_of_add [OF three] round_of_add [OF two] round_of_add [OF eats_advance [OF assms]]
      substr_two [of ?i ?s] substr_three [of ?i ?s]
    by (auto simp: handle_operator_def Let_def)
qed

lemma round_unknown:
  assumes "has_more l"
  shows "round_of l (advance_char (add_token IDENTIFIER [peek_char 0 l] ''Unknown character'' l))"
proof -
  let ?t = "last (sc_tokens (add_token IDENTIFIER [peek_char 0 l] ''Unknown character'' l))"
  have "token_text ?t = [peek_char 0 l]" "early ?t" "value ?t \<noteq> []" by (simp_all add: token_text_def early_def add_token_def)
  then show ?thesis
    using eats_advance [OF assms] unfolding round_of_def
    by (intro exI [of _ ?t] exI [of _ "advance_char l"])
      (auto simp: advance_char_def add_token_def)
qed

lemma round_step: "has_more l \<Longrightarrow> round_of l (sc_step l)"
  using round_of_add [OF eats_advance, of l]
  by (auto simp: sc_step_def Let_def handle_punctuation_def
      intro: round_whitespace round_single_line_comment round_multi_line_comment round_string_literal
        round_template_literal round_number_literal round_identifier round_operator round_unknown)

lemma sc_step_progress: "has_more l \<Longrightarrow> sc_left (sc_step l) < sc_left l"
proof -
  assume m: "has_more l"
  obtain t n where "eats l (token_text t) n" "token_text t \<noteq> []" "sc_source (sc_step l) = sc_source n"
    "sc_position (sc_step l) = sc_position n"
    using round_step [OF m] by (auto simp: round_of_def)
  moreover have "\<exists>k. length (token_text t) = Suc k"
    using \<open>token_text t \<noteq> []\<close> by (cases "token_text t") auto
  ultimately show ?thesis using m by (auto simp: eats_def sc_left_def has_more_def)
qed

section \<open>The whole lexer\<close>

function sc_loop :: "LamiaLexer \<Rightarrow> LamiaLexer" where
  "sc_loop l = (if has_more l then sc_loop (sc_step l) else l)"
  by pat_completeness auto
termination by (relation "measure sc_left") (auto simp: sc_step_progress)

declare sc_loop.simps [simp del]

definition tokenize :: "LamiaLexer \<Rightarrow> LamiaToken list \<times> LamiaLexer" where
  "tokenize l0 =
     (let l = sc_loop (l0\<lparr>sc_tokens := [], sc_position := 0, sc_line := 1, sc_column := 1\<rparr>)
      in (sc_tokens l, l))"

interpretation script_rounds: loop sc_step sc_loop "\<lambda>l. \<not> has_more l" sc_left
proof
  show "sc_loop l = (if \<not> has_more l then l else sc_loop (sc_step l))" for l
    by (subst sc_loop.simps) simp
qed (simp add: sc_step_progress)

text \<open>Token \<open>i\<close> of the list reports the offset at which its text starts, or was added early.\<close>

definition placed :: "LamiaToken list \<Rightarrow> nat \<Rightarrow> bool" where
  "placed ts i \<longleftrightarrow> early (ts ! i) \<or> position (ts ! i) = of_nat (length (concat (map token_text (take i ts))))"

definition covers :: "string \<Rightarrow> LamiaLexer \<Rightarrow> bool" where
  "covers s l \<longleftrightarrow> sc_source l = s \<and> sc_position l \<le> length s
     \<and> concat (map token_text (sc_tokens l)) = take (sc_position l) s
     \<and> (\<forall>i<length (sc_tokens l). placed (sc_tokens l) i)"

lemma covers_step:
  assumes "covers s l" "has_more l"
  shows "covers s (sc_step l)"
proof -
  obtain t m where r: "eats l (token_text t) m" "sc_source (sc_step l) = sc_source m"
    "sc_position (sc_step l) = sc_position m" "sc_tokens (sc_step l) = sc_tokens m @ [t]"
    "early t \<or> position t = of_nat (sc_position l)"
    using round_step [OF assms(2)] by (auto simp: round_of_def)
  have c: "concat (map token_text (sc_tokens l)) = take (sc_position l) s" "sc_position l \<le> length s"
    "sc_source l = s" "\<forall>i<length (sc_tokens l). placed (sc_tokens l) i"
    using assms(1) by (auto simp: covers_def)
  have "take (sc_position l) s @ token_text t = take (sc_position l + length (token_text t)) s"
    using r(1) c(3) by (simp add: eats_def substr_def take_add)
  moreover have "placed (sc_tokens l @ [t]) i" if "i < Suc (length (sc_tokens l))" for i
    using that r(5) c by (cases "i < length (sc_tokens l)") (auto simp: placed_def nth_append)
  ultimately show ?thesis
    using r c by (auto simp: covers_def eats_def)
qed

lemma covers_tokenize: "covers s (snd (tokenize (LamiaLexer_new s))) \<and> \<not> has_more (snd (tokenize (LamiaLexer_new s)))"
proof -
  have e: "(LamiaLexer_new s)\<lparr>sc_tokens := [], sc_position := 0, sc_line := 1, sc_column := 1\<rparr> = LamiaLexer_new s"
    by (simp add: LamiaLexer_new_def)
  have "covers s (sc_loop (LamiaLexer_new s))"
    by (rule script_rounds.run_invariant) (simp_all add: covers_step, simp add: covers_def LamiaLexer_new_def)
  then show ?thesis using script_rounds.run_ends by (simp add: tokenize_def e Let_def)
qed

lemma tokenize_values: "t \<in> set (fst (tokenize l)) \<Longrightarrow> value t \<noteq> []"
proof -
  assume t: "t \<in> set (fst (tokenize l))"
  let ?I = "\<lambda>l. \<forall>t\<in>set (sc_tokens l). value t \<noteq> []"
  have "?I (sc_loop (l\<lparr>sc_tokens := [], sc_position := 0, sc_line := 1, sc_column := 1\<rparr>))"
  proof (rule script_rounds.run_invariant)
    fix s assume "?I s" "\<not> \<not> has_more s"
    then show "?I (sc_step s)" using round_step [of s] by (auto simp: round_of_def eats_def)
  qed simp
  with t show ?thesis by (simp add: tokenize_def Let_def)
qed


text \<open>The tokens added early report an offset too small: a leading newline one of \<open>2 ^ 64 - 2\<close>, a
  leading unknown character one of \<open>2 ^ 64 - 1\<close>.\<close>

lemma early_tokens_misplaced:
  "map position (fst (tokenize (LamiaLexer_new [nl]))) = [- 2]"
  "map position (fst (tokenize (LamiaLexer_new ''$''))) = [- 1]"
  by (simp_all add: tokenize_def LamiaLexer_new_def sc_loop.simps has_more_def sc_step_def peek_char_def
      handle_whitespace_def add_token_def next_line_def advance_char_def ctype_defs Let_def
      is_operator_char_def is_punctuation_def)

text \<open>The documented operator \<open><*>\<close> is read as two operators.\<close>

lemma crystallize_is_split:
  "map value (fst (tokenize (LamiaLexer_new ''<*>''))) = [''<*'', ''>'']"
  by (simp add: tokenize_def LamiaLexer_new_def sc_loop.simps has_more_def sc_step_def peek_char_def
      handle_operator_def add_token_def advance_char_def ctype_defs Let_def substr_def
      is_operator_char_def is_three_char_operator_def is_two_char_operator_def)

end
