(* ===== verification/Script_Language.thy ===== *)
theory Script_Language
  imports Script_Lexer Std_Containers
begin

text \<open>
  The syntax trees, the parser and the per-target rendering of the script language,
  \<open>lamia_language_specification.hpp\<close>. The class hierarchy of \<open>LamiaExpression\<close> is one datatype with a
  constructor per class, its virtual functions are functions on it, and a \<open>std::map\<close> is an
  association list sorted by its keys. Numbers of type \<open>double\<close> are a type parameter with the two
  conversions the code calls on them. A \<open>shared_ptr\<close> in a tree is taken not to be null.
\<close>

section \<open>Types\<close>

datatype LamiaType =
    RADIANT | SHIMMER | LUMINA | VOID_STAR | CONSTELLATION | NEBULA | GALAXY
  | PRISM | CRYSTAL | AURORA | WIDGET | THEME | VAULT | PORTAL

datatype NodeType =
    NT_LITERAL | NT_IDENTIFIER | NT_BINARY_OP | NT_UNARY_OP | NT_FUNCTION_CALL | NT_WIDGET_CREATION
  | NT_STYLE_APPLICATION | NT_DATA_BINDING | NT_EVENT_HANDLING | NT_CONDITIONAL | NT_LOOP
  | NT_FUNCTION_DEF | NT_CLASS_DEF | NT_IMPORT

datatype 'd literal_value = V_string string | V_double 'd | V_bool bool | V_null

text \<open>The members of \<open>LamiaFunction\<close> besides its body.\<close>

record function_info =
  fn_name :: string
  fn_parameters :: "(string \<times> LamiaType) list"
  fn_return_type :: LamiaType
  fn_ai_intent :: string
  fn_requires_ai_completion :: bool

datatype 'd LamiaExpression =
    LamiaLiteral "'d literal_value"
  | WidgetExpression (widget_name: string) (w_properties: "(string \<times> 'd LamiaExpression) list")
      (w_children: "'d LamiaExpression list") (w_theme: string)
  | LamiaFunction (fn_info: function_info) (fn_body: "'d LamiaExpression list")
  | LamiaStyle (selector: string) (s_properties: "(string \<times> 'd LamiaExpression) list") (s_theme: string)

definition WidgetExpression_new :: "string \<Rightarrow> 'd LamiaExpression" where
  "WidgetExpression_new name = WidgetExpression name [] [] ''medusa-default''"

definition LamiaFunction_new :: "string \<Rightarrow> 'd LamiaExpression" where
  "LamiaFunction_new name = LamiaFunction \<lparr>fn_name = name, fn_parameters = [], fn_return_type = VOID_STAR,
     fn_ai_intent = [], fn_requires_ai_completion = False\<rparr> []"

definition LamiaStyle_new :: "string \<Rightarrow> 'd LamiaExpression" where
  "LamiaStyle_new sel = LamiaStyle sel [] ''medusa-default''"

fun add_property :: "string \<Rightarrow> 'd LamiaExpression \<Rightarrow> 'd LamiaExpression \<Rightarrow> 'd LamiaExpression" where
  "add_property k v (WidgetExpression n ps cs t) = WidgetExpression n (om_assign k v ps) cs t"
| "add_property k v (LamiaStyle s ps t) = LamiaStyle s (om_assign k v ps) t"
| "add_property k v e = e"

fun add_child :: "'d LamiaExpression \<Rightarrow> 'd LamiaExpression \<Rightarrow> 'd LamiaExpression" where
  "add_child c (WidgetExpression n ps cs t) = WidgetExpression n ps (cs @ [c]) t"
| "add_child c e = e"

fun add_parameter :: "string \<Rightarrow> LamiaType \<Rightarrow> 'd LamiaExpression \<Rightarrow> 'd LamiaExpression" where
  "add_parameter n ty (LamiaFunction i b) =
     LamiaFunction (i\<lparr>fn_parameters := fn_parameters i @ [(n, ty)]\<rparr>) b"
| "add_parameter n ty e = e"

fun add_statement :: "'d LamiaExpression \<Rightarrow> 'd LamiaExpression \<Rightarrow> 'd LamiaExpression" where
  "add_statement s (LamiaFunction i b) = LamiaFunction i (b @ [s])"
| "add_statement s e = e"

fun set_ai_intent :: "string \<Rightarrow> 'd LamiaExpression \<Rightarrow> 'd LamiaExpression" where
  "set_ai_intent s (LamiaFunction i b) =
     LamiaFunction (i\<lparr>fn_ai_intent := s, fn_requires_ai_completion := True\<rparr>) b"
| "set_ai_intent s e = e"

fun node_type :: "'d LamiaExpression \<Rightarrow> NodeType" where
  "node_type (LamiaLiteral v) = NT_LITERAL"
| "node_type (WidgetExpression n ps cs t) = NT_WIDGET_CREATION"
| "node_type (LamiaFunction i b) = NT_FUNCTION_DEF"
| "node_type (LamiaStyle s ps t) = NT_STYLE_APPLICATION"

text \<open>\<open>std::is_arithmetic_v<bool>\<close> holds, so the constructor's test for numbers takes the booleans
  too.\<close>

fun data_type :: "'d LamiaExpression \<Rightarrow> LamiaType" where
  "data_type (LamiaLiteral (V_string s)) = RADIANT"
| "data_type (LamiaLiteral (V_double d)) = SHIMMER"
| "data_type (LamiaLiteral (V_bool b)) = SHIMMER"
| "data_type (LamiaLiteral V_null) = VOID_STAR"
| "data_type (WidgetExpression n ps cs t) = WIDGET"
| "data_type (LamiaFunction i b) = GALAXY"
| "data_type (LamiaStyle s ps t) = THEME"

lemma boolean_literal_is_not_lumina: "data_type (LamiaLiteral (V_bool b)) \<noteq> LUMINA"
  by simp

section \<open>Rendering\<close>

definition bool_text :: "bool \<Rightarrow> string" where
  "bool_text b = (if b then ''true'' else ''false'')"

fun literal_js :: "('d \<Rightarrow> string) \<Rightarrow> 'd literal_value \<Rightarrow> string" where
  "literal_js num (V_string s) = [dquote] @ s @ [dquote]"
| "literal_js num (V_double d) = num d"
| "literal_js num (V_bool b) = bool_text b"
| "literal_js num V_null = ''null''"

fun literal_native :: "('d \<Rightarrow> string) \<Rightarrow> 'd literal_value \<Rightarrow> string" where
  "literal_native num (V_string s) = ''LamiaRadiant(\"'' @ s @ ''\")''"
| "literal_native num (V_double d) = ''LamiaShimmer('' @ num d @ '')''"
| "literal_native num (V_bool b) = ''LamiaLumina('' @ bool_text b @ '')''"
| "literal_native num V_null = ''LamiaVoidStar()''"

fun comma_join :: "string list \<Rightarrow> string" where
  "comma_join [] = []"
| "comma_join [x] = x"
| "comma_join (x # y # xs) = x @ '', '' @ comma_join (y # xs)"

abbreviation quoted :: "string \<Rightarrow> string" where
  "quoted s \<equiv> [squote] @ s @ [squote]"

text \<open>The text each class renders, from the renderings of its parts.\<close>

definition widget_javascript :: "string \<Rightarrow> string \<Rightarrow> (string \<times> string) list \<Rightarrow> string list \<Rightarrow> string" where
  "widget_javascript n t ps cs =
     ''MedusaWidget.create('' @ quoted n @ '', {'' @ [nl] @ '' theme: '' @ quoted t @ '','' @ [nl]
     @ concat (map (\<lambda>(k, v). '' '' @ k @ '': '' @ v @ '','' @ [nl]) ps)
     @ (if cs \<noteq> [] then '' children: ['' @ [nl] @ concat (map (\<lambda>c. '' '' @ c @ '','' @ [nl]) cs) @ '' ]'' @ [nl] else [])
     @ ''})''"

definition function_javascript :: "function_info \<Rightarrow> string list \<Rightarrow> string" where
  "function_javascript i b =
     ''function '' @ fn_name i @ ''('' @ comma_join (map fst (fn_parameters i)) @ '') {'' @ [nl]
     @ (if fn_ai_intent i \<noteq> [] then '' // AI Intent: '' @ fn_ai_intent i @ [nl] else [])
     @ concat (map (\<lambda>s. '' '' @ s @ '';'' @ [nl]) b) @ ''}''"

definition style_javascript :: "string \<Rightarrow> string \<Rightarrow> (string \<times> string) list \<Rightarrow> string" where
  "style_javascript sel t ps =
     ''MedusaTheme.applyStyle('' @ quoted sel @ '', {'' @ [nl] @ '' theme: '' @ quoted t @ '','' @ [nl]
     @ concat (map (\<lambda>(k, v). '' '' @ quoted k @ '': '' @ v @ '','' @ [nl]) ps) @ ''})''"

fun to_javascript :: "('d \<Rightarrow> string) \<Rightarrow> 'd LamiaExpression \<Rightarrow> string" where
  "to_javascript num (LamiaLiteral v) = literal_js num v"
| "to_javascript num (WidgetExpression n ps cs t) =
     widget_javascript n t (map (\<lambda>(k, v). (k, to_javascript num v)) ps) (map (to_javascript num) cs)"
| "to_javascript num (LamiaFunction i b) = function_javascript i (map (to_javascript num) b)"
| "to_javascript num (LamiaStyle sel ps t) =
     style_javascript sel t (map (\<lambda>(k, v). (k, to_javascript num v)) ps)"

definition widget_css :: "string \<Rightarrow> string \<Rightarrow> string" where
  "widget_css n t = ''medusa-'' @ n @ ''[theme=\"'' @ t @ ''\"] { /* Generated styling */ }''"

definition function_css :: "function_info \<Rightarrow> string" where
  "function_css i = ''/* Function: '' @ fn_name i @ '' */''"

definition style_css :: "string \<Rightarrow> (string \<times> string) list \<Rightarrow> string" where
  "style_css sel ps = sel @ '' {'' @ [nl] @ concat (map (\<lambda>(k, v). '' '' @ k @ '': '' @ v @ '';'' @ [nl]) ps) @ ''}''"

fun to_css :: "('d \<Rightarrow> string) \<Rightarrow> 'd LamiaExpression \<Rightarrow> string" where
  "to_css num (LamiaLiteral v) = literal_js num v"
| "to_css num (WidgetExpression n ps cs t) = widget_css n t"
| "to_css num (LamiaFunction i b) = function_css i"
| "to_css num (LamiaStyle sel ps t) = style_css sel (map (\<lambda>(k, v). (k, to_css num v)) ps)"

definition widget_html :: "string \<Rightarrow> string \<Rightarrow> (string \<times> string) list \<Rightarrow> string list \<Rightarrow> string" where
  "widget_html n t ps cs =
     ''<medusa-'' @ n @ '' theme=\"'' @ t @ ''\"''
     @ concat (map (\<lambda>(k, v). '' '' @ k @ ''=\"'' @ v @ ''\"'') ps)
     @ (if cs = [] then '' />''
        else ''>'' @ [nl] @ concat (map (\<lambda>c. '' '' @ c @ [nl]) cs) @ ''</medusa-'' @ n @ ''>'')"

definition function_html :: "function_info \<Rightarrow> string" where
  "function_html i = ''<!-- Function: '' @ fn_name i @ '' -->''"

definition style_html :: "string \<Rightarrow> string \<Rightarrow> string" where
  "style_html t css = ''<style data-theme=\"'' @ t @ ''\">'' @ [nl] @ css @ [nl] @ ''</style>''"

fun to_html :: "('d \<Rightarrow> string) \<Rightarrow> 'd LamiaExpression \<Rightarrow> string" where
  "to_html num (LamiaLiteral v) = literal_js num v"
| "to_html num (WidgetExpression n ps cs t) =
     widget_html n t (map (\<lambda>(k, v). (k, to_html num v)) ps) (map (to_html num) cs)"
| "to_html num (LamiaFunction i b) = function_html i"
| "to_html num (LamiaStyle sel ps t) = style_html t (to_css num (LamiaStyle sel ps t))"

definition lamia_type_to_cpp_type :: "LamiaType \<Rightarrow> string" where
  "lamia_type_to_cpp_type ty =
     (case ty of
        RADIANT \<Rightarrow> ''std::string'' | SHIMMER \<Rightarrow> ''double'' | LUMINA \<Rightarrow> ''bool'' | VOID_STAR \<Rightarrow> ''void''
      | CONSTELLATION \<Rightarrow> ''std::vector<LamiaValue>'' | NEBULA \<Rightarrow> ''std::map<std::string, LamiaValue>''
      | WIDGET \<Rightarrow> ''MedusaWidget'' | _ \<Rightarrow> ''auto'')"

definition widget_native :: "string \<Rightarrow> string \<Rightarrow> (string \<times> string) list \<Rightarrow> string" where
  "widget_native n t ps =
     ''MedusaNative::'' @ n @ ''_widget widget;'' @ [nl] @ ''widget.set_theme(\"'' @ t @ ''\");'' @ [nl]
     @ concat (map (\<lambda>(k, v). ''widget.set_property(\"'' @ k @ ''\", '' @ v @ '');'' @ [nl]) ps)"

definition function_native :: "function_info \<Rightarrow> string list \<Rightarrow> string" where
  "function_native i b =
     lamia_type_to_cpp_type (fn_return_type i) @ '' '' @ fn_name i @ ''(''
     @ comma_join (map (\<lambda>(p, ty). lamia_type_to_cpp_type ty @ '' '' @ p) (fn_parameters i)) @ '') {'' @ [nl]
     @ concat (map (\<lambda>s. '' '' @ s @ '';'' @ [nl]) b) @ ''}''"

definition style_native :: "string \<Rightarrow> string \<Rightarrow> (string \<times> string) list \<Rightarrow> string" where
  "style_native sel t ps =
     ''MedusaTheme::Style style(\"'' @ sel @ ''\");'' @ [nl]
     @ ''style.set_theme_context(\"'' @ t @ ''\");'' @ [nl]
     @ concat (map (\<lambda>(k, v). ''style.set_property(\"'' @ k @ ''\", '' @ v @ '');'' @ [nl]) ps)"

fun to_medusa_native :: "('d \<Rightarrow> string) \<Rightarrow> 'd LamiaExpression \<Rightarrow> string" where
  "to_medusa_native num (LamiaLiteral v) = literal_native num v"
| "to_medusa_native num (WidgetExpression n ps cs t) =
     widget_native n t (map (\<lambda>(k, v). (k, to_medusa_native num v)) ps)"
| "to_medusa_native num (LamiaFunction i b) = function_native i (map (to_medusa_native num) b)"
| "to_medusa_native num (LamiaStyle sel ps t) =
     style_native sel t (map (\<lambda>(k, v). (k, to_medusa_native num v)) ps)"

section \<open>Targets\<close>

datatype Target = JAVASCRIPT_ES6 | JAVASCRIPT_ES5 | TYPESCRIPT | HTML5 | CSS3 | MEDUSA_NATIVE | WEBASSEMBLY

record LamiaTranspiler =
  target :: Target
  optimization_flags :: "(string, string) omap"

definition LamiaTranspiler_new :: "Target \<Rightarrow> LamiaTranspiler" where
  "LamiaTranspiler_new t = \<lparr>target = t, optimization_flags = []\<rparr>"

definition set_optimization :: "string \<Rightarrow> string \<Rightarrow> LamiaTranspiler \<Rightarrow> LamiaTranspiler" where
  "set_optimization f v tr = tr\<lparr>optimization_flags := om_assign f v (optimization_flags tr)\<rparr>"

definition transpile_to_html5 :: "('d \<Rightarrow> string) \<Rightarrow> 'd LamiaExpression \<Rightarrow> string" where
  "transpile_to_html5 num e =
     ''<!DOCTYPE html>'' @ [nl] @ ''<!-- Generated from Lamia Language -->'' @ [nl]
     @ ''<html lang=\"en\">'' @ [nl] @ ''<head>'' @ [nl] @ '' <meta charset=\"UTF-8\">'' @ [nl]
     @ '' <meta name=\"viewport\" content=\"width=device-width, initial-scale=1.0\">'' @ [nl]
     @ '' <title>Lamia Generated Page</title>'' @ [nl]
     @ '' <link rel=\"stylesheet\" href=\"medusa-theme.css\">'' @ [nl] @ ''</head>'' @ [nl] @ ''<body>'' @ [nl]
     @ to_html num e @ [nl] @ '' <script src=\"medusa-runtime.js\"></script>'' @ [nl] @ ''</body>'' @ [nl] @ ''</html>''"

definition generated :: string where
  "generated = ''Generated from Lamia Language''"

definition transpile :: "('d \<Rightarrow> string) \<Rightarrow> LamiaTranspiler \<Rightarrow> 'd LamiaExpression \<Rightarrow> string" where
  "transpile num tr e =
     (case target tr of
        JAVASCRIPT_ES6 \<Rightarrow>
          ''// '' @ generated @ [nl] @ ''// Target: JavaScript ES6'' @ [nl, nl] @ to_javascript num e
      | TYPESCRIPT \<Rightarrow>
          ''// '' @ generated @ [nl] @ ''// Target: TypeScript'' @ [nl, nl]
          @ ''import { MedusaWidget, MedusaTheme } from '' @ quoted ''@medusa/core'' @ '';'' @ [nl, nl] @ to_javascript num e
      | HTML5 \<Rightarrow> transpile_to_html5 num e
      | CSS3 \<Rightarrow>
          ''/* '' @ generated @ '' */'' @ [nl] @ ''/* Target: CSS3 with Medusa Theme */'' @ [nl, nl]
          @ ''@import url('' @ quoted ''medusa-base-theme.css'' @ '');'' @ [nl, nl] @ to_css num e
      | MEDUSA_NATIVE \<Rightarrow>
          ''// '' @ generated @ [nl] @ ''// Target: Medusa Native C++'' @ [nl, nl]
          @ ''#include \"medusa_native_runtime.hpp\"'' @ [nl, nl] @ to_medusa_native num e
      | _ \<Rightarrow> to_javascript num e)"

section \<open>Parser\<close>

record LamiaParser =
  pa_tokens :: "LamiaToken list"
  current_token :: nat
  parse_errors :: "string list"

definition LamiaParser_new :: "LamiaToken list \<Rightarrow> LamiaParser" where
  "LamiaParser_new ts = \<lparr>pa_tokens = ts, current_token = 0, parse_errors = []\<rparr>"

text \<open>\<open>peek_token().value\<close>, the only member of the token its caller reads.\<close>

definition peek_value :: "LamiaParser \<Rightarrow> string" where
  "peek_value p = (if current_token p < length (pa_tokens p) then value (pa_tokens p ! current_token p) else [])"

definition consume_token :: "LamiaParser \<Rightarrow> (LamiaToken \<times> LamiaParser) outcome" where
  "consume_token p =
     (if current_token p < length (pa_tokens p)
      then Returns (pa_tokens p ! current_token p, p\<lparr>current_token := current_token p + 1\<rparr>)
      else Throws ''Unexpected end of input'')"

text \<open>A statement of two tokens: its keyword and a name.\<close>

definition parse_named :: "(string \<Rightarrow> 'd LamiaExpression) \<Rightarrow> LamiaParser \<Rightarrow> ('d LamiaExpression \<times> LamiaParser) outcome" where
  "parse_named build p =
     outcome_bind (consume_token p) (\<lambda>(_, p).
       outcome_bind (consume_token p) (\<lambda>(t, p). Returns (build (value t), p)))"

text \<open>\<open>front()\<close> of an empty string is undefined; \<open>substr(1, length - 2)\<close> of a lone quote is
  empty.\<close>

definition parse_literal :: "(string \<Rightarrow> 'd option) \<Rightarrow> LamiaParser \<Rightarrow> ('d LamiaExpression \<times> LamiaParser) outcome" where
  "parse_literal stod p =
     outcome_bind (consume_token p) (\<lambda>(t, p).
       let v = value t in
       if v = [] then Undefined ''front of an empty string''
       else if hd v = dquote \<and> last v = dquote
       then Returns (LamiaLiteral (V_string (take (length v - 2) (drop 1 v))), p)
       else if v = ''true'' \<or> v = ''false'' then Returns (LamiaLiteral (V_bool (v = ''true'')), p)
       else case stod v of
         Some d \<Rightarrow> Returns (LamiaLiteral (V_double d), p)
       | None \<Rightarrow> Returns (LamiaLiteral (V_string v), p))"

definition parse_expression :: "(string \<Rightarrow> 'd option) \<Rightarrow> LamiaParser \<Rightarrow> ('d LamiaExpression \<times> LamiaParser) outcome" where
  "parse_expression stod p =
     (let v = peek_value p in
      if v = ''create'' then parse_named WidgetExpression_new p
      else if v = ''manifest'' then parse_named LamiaFunction_new p
      else if v = ''style_with'' then parse_named LamiaStyle_new p
      else parse_literal stod p)"

text \<open>\<open>parse\<close> turns an exception into a null tree and an entry in the error list.\<close>

definition parse :: "(string \<Rightarrow> 'd option) \<Rightarrow> LamiaParser \<Rightarrow> ('d LamiaExpression option \<times> LamiaParser) outcome" where
  "parse stod p =
     (case parse_expression stod p of
        Returns (e, p') \<Rightarrow> Returns (Some e, p')
      | Throws m \<Rightarrow> Returns (None, p\<lparr>current_token := length (pa_tokens p), parse_errors := parse_errors p @ [m]\<rparr>)
      | Undefined m \<Rightarrow> Undefined m)"

section \<open>Social media snippets\<close>

datatype EmbedStyle = MINIMAL | RICH | PREVIEW | IMMERSIVE | FLOATING | INTERACTIVE

definition embed_style_to_string :: "EmbedStyle \<Rightarrow> string" where
  "embed_style_to_string s =
     (case s of MINIMAL \<Rightarrow> ''minimal'' | RICH \<Rightarrow> ''rich'' | PREVIEW \<Rightarrow> ''preview'' | IMMERSIVE \<Rightarrow> ''immersive''
      | FLOATING \<Rightarrow> ''floating'' | INTERACTIVE \<Rightarrow> ''interactive'')"

definition generate_social_embed :: "string \<Rightarrow> EmbedStyle \<Rightarrow> string \<Rightarrow> string" where
  "generate_social_embed url style emotion =
     ''create social_embed {'' @ [nl] @ '' source: \"'' @ url @ ''\"'' @ [nl]
     @ '' embed_style: \"'' @ embed_style_to_string style @ ''\"'' @ [nl]
     @ '' responsive: true'' @ [nl] @ '' privacy_friendly: true'' @ [nl] @ '' loading: \"lazy\"'' @ [nl]
     @ (if emotion \<noteq> [] then '' emotion_overlay: \"'' @ emotion @ ''\"'' @ [nl] @ '' emotion_intensity: 0.7'' @ [nl] else [])
     @ '' fallback_message: \"Content not available\"'' @ [nl] @ '' accessibility: {'' @ [nl]
     @ '' alt_text: \"Social media content\"'' @ [nl] @ '' keyboard_navigation: true'' @ [nl]
     @ '' screen_reader_friendly: true'' @ [nl] @ '' }'' @ [nl] @ ''}'' @ [nl]"

definition generate_emotion_content :: "string \<Rightarrow> string \<Rightarrow> string" where
  "generate_emotion_content content emotion =
     ''create emotion_content {'' @ [nl] @ '' content: \"'' @ content @ ''\"'' @ [nl]
     @ '' emotion_3d: \"'' @ emotion @ ''\"'' @ [nl] @ '' animation_duration: \"2s\"'' @ [nl]
     @ '' animation_easing: \"ease-in-out\"'' @ [nl] @ '' interaction_responsive: true'' @ [nl]
     @ '' accessibility_compliant: true'' @ [nl] @ ''}'' @ [nl]"

end
