(* ===== verification/Script_Compiler.thy ===== *)
theory Script_Compiler
  imports Lamia_Transpiler Script_Language
begin

text \<open>
  The driver of the script compiler, class \<open>LamiaCompiler\<close> of \<open>lamia_compiler.cpp\<close>: the table of
  transpilers, compilation of a string and of a file to every configured target, and the page
  of documentation. The files are a map from names to contents; which names can be written, and
  the milliseconds a compilation took, are parameters. Progress messages are left out. The
  lemmas show when compilation fails, what it returns otherwise, and that compiling a file
  leaves every target's output under its name.
\<close>

section \<open>Configuration and statistics\<close>

instantiation Target :: linorder
begin

definition target_index :: "Target \<Rightarrow> nat" where
  "target_index t =
     (case t of JAVASCRIPT_ES6 \<Rightarrow> 0 | JAVASCRIPT_ES5 \<Rightarrow> 1 | TYPESCRIPT \<Rightarrow> 2 | HTML5 \<Rightarrow> 3 | CSS3 \<Rightarrow> 4
      | MEDUSA_NATIVE \<Rightarrow> 5 | WEBASSEMBLY \<Rightarrow> 6)"

definition less_eq_Target :: "Target \<Rightarrow> Target \<Rightarrow> bool" where
  "less_eq_Target a b \<longleftrightarrow> target_index a \<le> target_index b"

definition less_Target :: "Target \<Rightarrow> Target \<Rightarrow> bool" where
  "less_Target a b \<longleftrightarrow> target_index a < target_index b"

instance
proof
  fix a b :: Target
  show "a \<le> b \<Longrightarrow> b \<le> a \<Longrightarrow> a = b"
    by (cases a; cases b) (simp_all add: less_eq_Target_def target_index_def)
qed (auto simp: less_eq_Target_def less_Target_def)

end

record LamiaConfig =
  enable_ai_assistance :: bool
  enable_real_time_collaboration :: bool
  enable_auto_completion :: bool
  enable_semantic_highlighting :: bool
  default_target :: Target
  additional_targets :: "Target list"
  ai_model_endpoint :: string
  ai_confidence_threshold :: real
  prefer_human_input :: bool
  default_theme :: string
  enable_theme_hot_reload :: bool
  generate_purple_pages_docs :: bool
  enable_lazy_loading :: bool
  enable_code_splitting :: bool
  optimize_for_mobile :: bool
  max_bundle_size_kb :: int

definition LamiaConfig_default :: LamiaConfig where
  "LamiaConfig_default = \<lparr>enable_ai_assistance = True, enable_real_time_collaboration = True,
     enable_auto_completion = True, enable_semantic_highlighting = True,
     default_target = JAVASCRIPT_ES6, additional_targets = [],
     ai_model_endpoint = ''medusa://ai-service/lamia-assistant'', ai_confidence_threshold = 7 / 10,
     prefer_human_input = True, default_theme = ''medusa-professional'', enable_theme_hot_reload = True,
     generate_purple_pages_docs = True, enable_lazy_loading = True, enable_code_splitting = True,
     optimize_for_mobile = True, max_bundle_size_kb = 512\<rparr>"

record CompilationStats =
  tokens_generated :: nat
  ast_nodes_created :: nat
  lines_of_output :: nat
  warnings :: "string list"
  errors :: "string list"

record LamiaCompiler =
  lc_config :: LamiaConfig
  lc_transpilers :: "(Target, LamiaTranspiler) omap"
  lc_stats :: CompilationStats

definition add_transpiler :: "(Target, LamiaTranspiler) omap \<Rightarrow> Target \<Rightarrow> (Target, LamiaTranspiler) omap" where
  "add_transpiler m t = om_assign t (LamiaTranspiler_new t) m"

definition initialize_transpilers :: "LamiaConfig \<Rightarrow> (Target, LamiaTranspiler) omap" where
  "initialize_transpilers cfg =
     (let m = foldl add_transpiler (add_transpiler [] (default_target cfg)) (additional_targets cfg)
      in if map_of m JAVASCRIPT_ES6 = None then add_transpiler m JAVASCRIPT_ES6 else m)"

definition LamiaCompiler_new :: "LamiaConfig \<Rightarrow> LamiaCompiler" where
  "LamiaCompiler_new cfg = \<lparr>lc_config = cfg, lc_transpilers = initialize_transpilers cfg,
     lc_stats = \<lparr>tokens_generated = 0, ast_nodes_created = 0, lines_of_output = 0, warnings = [], errors = []\<rparr>\<rparr>"

section \<open>Compiling a string\<close>

text \<open>The two conversions of numbers, \<open>std::stod\<close> (\<open>None\<close> when it throws) and \<open>std::to_string\<close>.\<close>

record 'd numbers =
  stod :: "string \<Rightarrow> 'd option"
  to_string :: "'d \<Rightarrow> string"

definition compile_string :: "'d numbers \<Rightarrow> LamiaCompiler \<Rightarrow> string \<Rightarrow> Target \<Rightarrow> string outcome" where
  "compile_string num c src t =
     outcome_bind (parse (stod num) (LamiaParser_new (fst (Script_Lexer.tokenize (LamiaLexer_new src))))) (\<lambda>(ast, _).
       Returns (case ast of
           None \<Rightarrow> ''// Compilation failed''
         | Some e \<Rightarrow>
             (case map_of (lc_transpilers c) t of
                Some tr \<Rightarrow> Script_Language.transpile (to_string num) tr e
              | None \<Rightarrow> ''// Unsupported target'')))"

section \<open>Compiling a file\<close>

type_synonym files = "(string, string) umap"

definition read_file :: "files \<Rightarrow> string \<Rightarrow> string" where
  "read_file fs p = (case map_of fs p of Some s \<Rightarrow> s | None \<Rightarrow> [])"

definition write_file :: "(string \<Rightarrow> bool) \<Rightarrow> string \<Rightarrow> string \<Rightarrow> files \<Rightarrow> bool \<times> files" where
  "write_file writable p content fs = (if writable p then (True, um_assign p content fs) else (False, fs))"

text \<open>\<open>std::filesystem::path(p).filename()\<close> and \<open>stem()\<close>.\<close>

definition path_filename :: "string \<Rightarrow> string" where
  "path_filename p = rev (takeWhile (\<lambda>c. c \<noteq> CHR ''/'') (rev p))"

definition path_stem :: "string \<Rightarrow> string" where
  "path_stem p =
     (let f = path_filename p; ext = takeWhile (\<lambda>c. c \<noteq> CHR ''.'') (rev f) in
      if f = ''.'' \<or> f = ''..'' \<or> CHR ''.'' \<notin> set f \<or> length ext + 1 = length f then f
      else take (length f - length ext - 1) f)"

definition target_extension :: "Target \<Rightarrow> string" where
  "target_extension t =
     (case t of
        JAVASCRIPT_ES6 \<Rightarrow> ''.js'' | JAVASCRIPT_ES5 \<Rightarrow> ''.es5.js'' | TYPESCRIPT \<Rightarrow> ''.ts'' | HTML5 \<Rightarrow> ''.html''
      | CSS3 \<Rightarrow> ''.css'' | MEDUSA_NATIVE \<Rightarrow> ''.cpp'' | WEBASSEMBLY \<Rightarrow> ''.wasm'')"

definition generate_output_filename :: "string \<Rightarrow> Target \<Rightarrow> string" where
  "generate_output_filename input t = path_stem input @ target_extension t"

definition count_lines :: "string \<Rightarrow> nat" where
  "count_lines s = length (filter (\<lambda>c. c = nl) s) + 1"

text \<open>The three passes of \<open>html_escape\<close>: every ampersand, then every bracket of either kind.\<close>

definition replace_char :: "char \<Rightarrow> string \<Rightarrow> string \<Rightarrow> string" where
  "replace_char c r s = concat (map (\<lambda>x. if x = c then r else [x]) s)"

definition html_escape :: "string \<Rightarrow> string" where
  "html_escape s =
     replace_char (CHR ''>'') ''&gt;'' (replace_char (CHR ''<'') ''&lt;'' (replace_char (CHR ''&'') ''&amp;'' s))"

definition documentation_head :: "string \<Rightarrow> string" where
  "documentation_head input =
     ''<!DOCTYPE html>'' @ [nl] @ ''<html lang=\"en\">'' @ [nl] @ ''<head>'' @ [nl]
     @ '' <meta charset=\"UTF-8\">'' @ [nl]
     @ '' <meta name=\"viewport\" content=\"width=device-width, initial-scale=1.0\">'' @ [nl]
     @ '' <title>Purple-Pages: '' @ path_filename input @ ''</title>'' @ [nl] @ '' <style>'' @ [nl]
     @ '' body { font-family: '' @ quoted ''Courier New'' @ '', monospace; background: #1a1a2e; color: #eee; }'' @ [nl]
     @ '' .purple-header { background: linear-gradient(45deg, #8B5CF6, #A855F7); padding: 20px; }'' @ [nl]
     @ '' .code-block { background: #16213e; padding: 15px; border-left: 4px solid #8B5CF6; }'' @ [nl]
     @ '' .lamia-keyword { color: #A855F7; font-weight: bold; }'' @ [nl]
     @ '' .lamia-type { color: #06B6D4; }'' @ [nl] @ '' .lamia-string { color: #10B981; }'' @ [nl]
     @ '' </style>'' @ [nl] @ ''</head>'' @ [nl] @ ''<body>'' @ [nl]"

text \<open>The UTF-8 bytes of the pictographs in the headings.\<close>

definition crystal_ball :: string where "crystal_ball = [CHR 0xF0, CHR 0x9F, CHR 0x94, CHR 0xAE]"
definition bar_chart :: string where "bar_chart = [CHR 0xF0, CHR 0x9F, CHR 0x93, CHR 0x8A]"
definition direct_hit :: string where "direct_hit = [CHR 0xF0, CHR 0x9F, CHR 0x8E, CHR 0xAF]"

definition generate_documentation_content ::
  "'d numbers \<Rightarrow> nat \<Rightarrow> CompilationStats \<Rightarrow> string \<Rightarrow> 'd LamiaExpression \<Rightarrow> string" where
  "generate_documentation_content num ms st input e =
     documentation_head input
     @ '' <div class=\"purple-header\">'' @ [nl] @ '' <h1>'' @ crystal_ball @ '' Purple-Pages Documentation</h1>'' @ [nl]
     @ '' <p>Lamia Language: '' @ path_filename input @ ''</p>'' @ [nl] @ '' </div>'' @ [nl]
     @ '' <div class=\"content\">'' @ [nl] @ '' <h2>'' @ bar_chart @ '' Compilation Details</h2>'' @ [nl] @ '' <ul>'' @ [nl]
     @ '' <li>Tokens: '' @ to_string_nat (tokens_generated st) @ ''</li>'' @ [nl]
     @ '' <li>Compilation Time: '' @ to_string_nat ms @ ''ms</li>'' @ [nl]
     @ '' <li>Output Lines: '' @ to_string_nat (lines_of_output st) @ ''</li>'' @ [nl] @ '' </ul>'' @ [nl]
     @ '' <h2>'' @ direct_hit @ '' Generated Code</h2>'' @ [nl] @ '' <div class=\"code-block\">'' @ [nl]
     @ '' <pre>'' @ html_escape (to_javascript (to_string num) e) @ ''</pre>'' @ [nl] @ '' </div>'' @ [nl]
     @ '' </div>'' @ [nl] @ ''</body>'' @ [nl] @ ''</html>'' @ [nl]"

text \<open>The loop over the transpilers: whether all writes so far succeeded, the lines counted so far
  and the files.\<close>

fun write_targets ::
  "'d numbers \<Rightarrow> (string \<Rightarrow> bool) \<Rightarrow> string \<Rightarrow> string \<Rightarrow> 'd LamiaExpression \<Rightarrow> (Target, LamiaTranspiler) omap
     \<Rightarrow> bool \<times> nat \<times> files \<Rightarrow> bool \<times> nat \<times> files" where
  "write_targets num writable input dir e [] st = st"
| "write_targets num writable input dir e ((t, tr) # m) (ok, n, fs) =
     (let output = Script_Language.transpile (to_string num) tr e;
          (written, fs') = write_file writable (dir @ ''/'' @ generate_output_filename input t) output fs
      in write_targets num writable input dir e m
           (if written then (ok, n + count_lines output, fs') else (False, n, fs')))"

definition documentation_path :: "string \<Rightarrow> string" where
  "documentation_path dir = dir @ ''/documentation.purple.html''"

definition compile_file ::
  "'d numbers \<Rightarrow> (string \<Rightarrow> bool) \<Rightarrow> nat \<Rightarrow> string \<Rightarrow> string \<Rightarrow> LamiaCompiler \<Rightarrow> files
     \<Rightarrow> (bool \<times> LamiaCompiler \<times> files) outcome" where
  "compile_file num writable ms input dir c fs =
     (let src = read_file fs input in
      if src = [] then Returns (False, c, fs)
      else
        let lx = (if enable_ai_assistance (lc_config c) then enable_ai_mode (LamiaLexer_new src) else LamiaLexer_new src);
            toks = fst (Script_Lexer.tokenize lx);
            st = (lc_stats c)\<lparr>tokens_generated := length toks\<rparr>
        in if toks = [] then Returns (False, c\<lparr>lc_stats := st\<rparr>, fs)
           else outcome_bind (parse (stod num) (LamiaParser_new toks)) (\<lambda>(ast, pr).
             case ast of
               None \<Rightarrow> Returns (False, c\<lparr>lc_stats := st\<lparr>errors := errors st @ parse_errors pr\<rparr>\<rparr>, fs)
             | Some e \<Rightarrow>
                 (case write_targets num writable input dir e (lc_transpilers c) (True, lines_of_output st, fs) of
                    (ok, n, fs1) \<Rightarrow>
                      let st1 = st\<lparr>ast_nodes_created := 1, lines_of_output := n\<rparr>;
                          fs2 = (if generate_purple_pages_docs (lc_config c)
                                 then snd (write_file writable (documentation_path dir)
                                        (generate_documentation_content num ms st1 input e) fs1)
                                 else fs1)
                      in Returns (ok, c\<lparr>lc_stats := st1\<rparr>, fs2))))"

section \<open>Escaping\<close>

text \<open>The three passes of \<open>html_escape\<close> over the generated code compute the character-wise
  escaping of the transpiler of the language modules, so they too can be undone.\<close>

theorem html_escape_passes:
  "html_escape s = esc s \<and> decode_entities (html_escape s) = s"
proof -
  have "html_escape s = concat (map esc_char s)"
    by (induction s) (simp_all add: html_escape_def replace_char_def esc_char_def)
  then show ?thesis
    using escaping_undone by (simp add: esc_eq)
qed

section \<open>When compilation fails\<close>

definition keyword_statement :: "string \<Rightarrow> bool" where
  "keyword_statement v \<longleftrightarrow> v = ''create'' \<or> v = ''manifest'' \<or> v = ''style_with''"

definition incomplete :: "LamiaToken list \<Rightarrow> bool" where
  "incomplete ts \<longleftrightarrow> ts = [] \<or> (length ts = 1 \<and> keyword_statement (value (hd ts)))"

text \<open>The tree of a token list that is not incomplete.\<close>

definition literal_of :: "(string \<Rightarrow> 'd option) \<Rightarrow> string \<Rightarrow> 'd literal_value" where
  "literal_of num v =
     (if hd v = dquote \<and> last v = dquote then V_string (take (length v - 2) (drop 1 v))
      else if v = ''true'' then V_bool True else if v = ''false'' then V_bool False
      else case num v of Some d \<Rightarrow> V_double d | None \<Rightarrow> V_string v)"

definition program_of :: "(string \<Rightarrow> 'd option) \<Rightarrow> LamiaToken list \<Rightarrow> 'd LamiaExpression" where
  "program_of num ts =
     (let v = value (ts ! 0); w = value (ts ! 1) in
      if v = ''create'' then WidgetExpression_new w
      else if v = ''manifest'' then LamiaFunction_new w
      else if v = ''style_with'' then LamiaStyle_new w
      else LamiaLiteral (literal_of num v))"

lemma parse_named_tokens:
  "parse_named f (LamiaParser_new ts) =
     (if length ts < 2 then Throws ''Unexpected end of input''
      else Returns (f (value (ts ! 1)), \<lparr>pa_tokens = ts, current_token = 2, parse_errors = []\<rparr>))"
  by (cases ts) (auto simp: parse_named_def consume_token_def LamiaParser_new_def)

lemma parse_literal_tokens:
  assumes "ts \<noteq> []" "value (ts ! 0) \<noteq> []"
  shows "\<exists>p. parse_literal num (LamiaParser_new ts) = Returns (LamiaLiteral (literal_of num (value (ts ! 0))), p)"
  using assms
  by (auto simp: parse_literal_def consume_token_def LamiaParser_new_def literal_of_def Let_def split: option.split)

lemma parse_tokens:
  assumes "\<And>t. t \<in> set ts \<Longrightarrow> value t \<noteq> []"
  shows "\<exists>p. parse num (LamiaParser_new ts) = Returns (if incomplete ts then None else Some (program_of num ts), p)"
proof (cases "ts = []")
  case True
  then show ?thesis
    by (simp add: parse_def parse_expression_def peek_value_def parse_literal_def consume_token_def
        LamiaParser_new_def incomplete_def)
next
  case False
  then have v: "value (ts ! 0) \<noteq> []" using assms by simp
  have pk: "peek_value (LamiaParser_new ts) = value (ts ! 0)"
    using False by (simp add: peek_value_def LamiaParser_new_def)
  have l: "length ts < 2 \<longleftrightarrow> length ts = 1" using False by (cases ts) auto
  have h: "hd ts = ts ! 0" using False by (simp add: hd_conv_nth)
  show ?thesis
  proof (cases "keyword_statement (value (ts ! 0))")
    case True
    then show ?thesis using False l h
      by (auto simp: parse_def parse_expression_def pk parse_named_tokens program_of_def keyword_statement_def
          incomplete_def Let_def)
  next
    case False
    then show ?thesis
      using \<open>ts \<noteq> []\<close> parse_literal_tokens [OF \<open>ts \<noteq> []\<close> v, of num] h
      by (auto simp: parse_def parse_expression_def pk program_of_def keyword_statement_def incomplete_def Let_def)
  qed
qed

definition configured :: "LamiaConfig \<Rightarrow> Target set" where
  "configured cfg = insert JAVASCRIPT_ES6 (insert (default_target cfg) (set (additional_targets cfg)))"

lemma add_transpiler_find:
  "map_of (add_transpiler m t) u = (if u = t then Some (LamiaTranspiler_new t) else map_of m u)"
  by (simp add: add_transpiler_def om_find_assign)

lemma foldl_add_transpiler_find:
  "map_of (foldl add_transpiler m ts) u = (if u \<in> set ts then Some (LamiaTranspiler_new u) else map_of m u)"
  by (induction ts arbitrary: m) (auto simp: add_transpiler_find)

lemma initialize_transpilers_find:
  "map_of (initialize_transpilers cfg) t = (if t \<in> configured cfg then Some (LamiaTranspiler_new t) else None)"
  by (auto simp: initialize_transpilers_def Let_def add_transpiler_find foldl_add_transpiler_find configured_def)

text \<open>Compiling a string always returns a text: the failure message exactly when the source is
  empty or is a statement keyword alone, otherwise the rendering of its program for a configured
  target and the message about unsupported targets for any other.\<close>

theorem compile_string_outcomes:
  "compile_string num (LamiaCompiler_new cfg) src t =
     (let ts = fst (Script_Lexer.tokenize (LamiaLexer_new src)) in
      Returns (if incomplete ts then ''// Compilation failed''
        else if t \<in> configured cfg
        then Script_Language.transpile (to_string num) (LamiaTranspiler_new t) (program_of (stod num) ts)
        else ''// Unsupported target''))"
proof -
  let ?ts = "fst (Script_Lexer.tokenize (LamiaLexer_new src))"
  obtain p where "parse (stod num) (LamiaParser_new ?ts)
      = Returns (if incomplete ?ts then None else Some (program_of (stod num) ?ts), p)"
    using parse_tokens [of ?ts "stod num"] tokenize_values [of _ "LamiaLexer_new src"] by auto
  then show ?thesis
    by (simp add: compile_string_def LamiaCompiler_new_def initialize_transpilers_find Let_def)
qed

text \<open>The parser does not skip the white space the lexer keeps: a widget is named by the blank after
  \<open>create\<close>.\<close>

lemma widget_is_named_by_the_blank:
  "program_of num (fst (Script_Lexer.tokenize (LamiaLexer_new ''create a''))) = WidgetExpression_new '' ''"
proof -
  have "map value (fst (Script_Lexer.tokenize (LamiaLexer_new ''create a''))) = [''create'', '' '', ''a'']"
    by (simp add: Script_Lexer.tokenize_def LamiaLexer_new_def sc_loop.simps has_more_def sc_step_def peek_char_def
        handle_identifier_or_keyword_def handle_whitespace_def add_token_def advance_char_def collect.simps
        ctype_defs Let_def is_keyword_def)
  then have "value (fst (Script_Lexer.tokenize (LamiaLexer_new ''create a'')) ! 0) = ''create''"
    "value (fst (Script_Lexer.tokenize (LamiaLexer_new ''create a'')) ! 1) = '' ''"
    by (auto simp: map_eq_Cons_conv)
  then show ?thesis by (simp add: program_of_def)
qed

section \<open>The files of a compilation\<close>

lemma target_extension_inject: "target_extension a = target_extension b \<Longrightarrow> a = b"
  by (cases a; cases b) (simp_all add: target_extension_def)

lemma output_filename_inject:
  "generate_output_filename input a = generate_output_filename input b \<Longrightarrow> a = b"
  using target_extension_inject by (simp add: generate_output_filename_def)

abbreviation output_path :: "string \<Rightarrow> string \<Rightarrow> Target \<Rightarrow> string" where
  "output_path dir input t \<equiv> dir @ ''/'' @ generate_output_filename input t"

lemma write_targets_sound:
  assumes "write_targets num writable input dir e m (ok, n, fs) = (True, n', fs')" "um_inv m"
  shows "ok \<and> (\<forall>t tr. map_of m t = Some tr \<longrightarrow>
      map_of fs' (output_path dir input t) = Some (Script_Language.transpile (to_string num) tr e))
    \<and> (\<forall>q. q \<notin> output_path dir input ` set (map fst m) \<longrightarrow> map_of fs' q = map_of fs q)"
  using assms
proof (induction m arbitrary: ok n fs)
  case (Cons a m)
  obtain t tr where a: "a = (t, tr)" by fastforce
  let ?p = "output_path dir input t" and ?o = "Script_Language.transpile (to_string num) tr e"
  have w: "writable ?p"
  proof (rule ccontr)
    assume "\<not> writable ?p"
    then have "write_targets num writable input dir e m (False, n, fs) = (True, n', fs')"
      using Cons.prems(1) by (simp add: a write_file_def Let_def)
    then show False using Cons.IH [of False n fs] Cons.prems(2) by simp
  qed
  then have r: "write_targets num writable input dir e m (ok, n + count_lines ?o, um_assign ?p ?o fs) = (True, n', fs')"
    using Cons.prems(1) by (simp add: a write_file_def Let_def)
  have IH: "ok" "\<And>u v. map_of m u = Some v \<Longrightarrow>
      map_of fs' (output_path dir input u) = Some (Script_Language.transpile (to_string num) v e)"
    "\<And>q. q \<notin> output_path dir input ` set (map fst m) \<Longrightarrow> map_of fs' q = map_of (um_assign ?p ?o fs) q"
    using Cons.IH [OF r] Cons.prems(2) by auto
  have "?p \<notin> output_path dir input ` set (map fst m)"
    using Cons.prems(2) by (auto simp: a dest: output_filename_inject)
  then have "map_of fs' ?p = Some ?o" using IH(3) by (simp add: um_find_assign)
  then show ?case using IH by (auto simp: a um_find_assign)
qed simp

lemma output_not_documentation:
  assumes "path_stem input \<noteq> ''documentation.purple''"
  shows "output_path dir input t \<noteq> documentation_path dir"
proof
  assume "output_path dir input t = documentation_path dir"
  then have "rev (path_stem input @ target_extension t) = rev ''documentation.purple.html''"
    by (simp add: documentation_path_def generate_output_filename_def)
  then show False using assms by (cases t) (auto simp: target_extension_def)
qed

lemma initialize_transpilers_inv: "um_inv (initialize_transpilers cfg)"
proof -
  have "om_inv (foldl add_transpiler m ts)" if "om_inv m" for m ts
    using that by (induction ts arbitrary: m) (simp_all add: add_transpiler_def om_inv_assign)
  moreover have "om_inv (add_transpiler m t)" if "om_inv m" for m t
    using that by (simp add: add_transpiler_def om_inv_assign)
  ultimately show ?thesis
    by (intro om_inv_distinct) (auto simp: initialize_transpilers_def Let_def)
qed

text \<open>The tokens a compilation reads from its input file.\<close>

definition input_tokens :: "LamiaConfig \<Rightarrow> files \<Rightarrow> string \<Rightarrow> LamiaToken list" where
  "input_tokens cfg fs input =
     fst (Script_Lexer.tokenize (if enable_ai_assistance cfg then enable_ai_mode (LamiaLexer_new (read_file fs input))
                                 else LamiaLexer_new (read_file fs input)))"

lemma compile_file_success:
  assumes "compile_file num writable ms input dir (LamiaCompiler_new cfg) fs = Returns (True, c', fs')"
  obtains n fs1 doc where
    "write_targets num writable input dir (program_of (stod num) (input_tokens cfg fs input))
       (initialize_transpilers cfg) (True, 0, fs) = (True, n, fs1)"
    "fs' = fs1 \<or> fs' = snd (write_file writable (documentation_path dir) doc fs1)"
proof -
  let ?ts = "input_tokens cfg fs input"
  have nz: "read_file fs input \<noteq> []" using assms by (auto simp: compile_file_def Let_def)
  have tz: "?ts \<noteq> []"
    using assms by (auto simp: compile_file_def Let_def input_tokens_def LamiaCompiler_new_def split: if_splits)
  obtain p where p: "parse (stod num) (LamiaParser_new ?ts)
      = Returns (if incomplete ?ts then None else Some (program_of (stod num) ?ts), p)"
    using parse_tokens [of ?ts "stod num"] tokenize_values by (auto simp: input_tokens_def)
  have "\<not> incomplete ?ts"
    using assms nz tz p by (auto simp: compile_file_def Let_def input_tokens_def LamiaCompiler_new_def split: if_splits)
  then show thesis
    using assms nz tz p that
    by (auto simp: compile_file_def Let_def input_tokens_def LamiaCompiler_new_def split: if_splits prod.splits)
qed

text \<open>When compiling a file reports success, the output directory has, for every configured
  target, a file of its own with the rendering of the program for that target; the
  documentation does not overwrite any of them, unless the input is itself called
  \<open>documentation.purple\<close>.\<close>

theorem compile_file_writes_every_target:
  assumes "compile_file num writable ms input dir (LamiaCompiler_new cfg) fs = Returns (True, c', fs')"
    and "path_stem input \<noteq> ''documentation.purple''" and "t \<in> configured cfg"
  shows "map_of fs' (output_path dir input t)
    = Some (Script_Language.transpile (to_string num) (LamiaTranspiler_new t)
        (program_of (stod num) (input_tokens cfg fs input)))"
proof -
  obtain n fs1 doc where w: "write_targets num writable input dir (program_of (stod num) (input_tokens cfg fs input))
       (initialize_transpilers cfg) (True, 0, fs) = (True, n, fs1)"
    and f: "fs' = fs1 \<or> fs' = snd (write_file writable (documentation_path dir) doc fs1)"
    using compile_file_success [OF assms(1)] by blast
  have "map_of fs1 (output_path dir input t) = Some (Script_Language.transpile (to_string num) (LamiaTranspiler_new t)
        (program_of (stod num) (input_tokens cfg fs input)))"
    using write_targets_sound [OF w initialize_transpilers_inv] assms(3)
    by (simp add: initialize_transpilers_find)
  then show ?thesis
    using f output_not_documentation [OF assms(2), of dir t]
    by (auto simp: write_file_def um_find_assign)
qed

theorem compile_file_writes_every_target_witness:
  "\<exists>fs'. map_of fs' ''out/a.js'' = Some (Script_Language.transpile (\<lambda>d. []) (LamiaTranspiler_new JAVASCRIPT_ES6)
     (program_of (\<lambda>s. None :: unit option) (input_tokens (LamiaConfig_default\<lparr>enable_ai_assistance := False\<rparr>)
        [(''a.lamia'', ''x'')] ''a.lamia'')))"
proof -
  let ?cfg = "LamiaConfig_default\<lparr>enable_ai_assistance := False\<rparr>"
  let ?num = "\<lparr>stod = \<lambda>s. None :: unit option, to_string = \<lambda>d. []\<rparr>"
  let ?fs = "[(''a.lamia'', ''x'')]"
  have ts: "fst (Script_Lexer.tokenize (LamiaLexer_new ''x'')) = [\<lparr>type = IDENTIFIER, value = ''x'', line = 1, column = 1,
      position = 0, semantic_hint = ''Identifier'', is_ai_generated = False, confidence_score = 1\<rparr>]"
    by (simp add: Script_Lexer.tokenize_def LamiaLexer_new_def sc_loop.simps has_more_def sc_step_def peek_char_def
        handle_identifier_or_keyword_def add_token_def advance_char_def collect.simps ctype_defs Let_def is_keyword_def
        is_operator_char_def is_punctuation_def)
  have "\<exists>c' fs'. compile_file ?num (\<lambda>p. True) 0 ''a.lamia'' ''out'' (LamiaCompiler_new ?cfg) ?fs = Returns (True, c', fs')"
    by (simp add: compile_file_def read_file_def LamiaCompiler_new_def LamiaConfig_default_def ts
        parse_def parse_expression_def peek_value_def LamiaParser_new_def parse_literal_def consume_token_def
        initialize_transpilers_def add_transpiler_def write_file_def Let_def)
  then obtain c' fs' where
    r: "compile_file ?num (\<lambda>p. True) 0 ''a.lamia'' ''out'' (LamiaCompiler_new ?cfg) ?fs = Returns (True, c', fs')"
    by blast
  have "output_path ''out'' ''a.lamia'' JAVASCRIPT_ES6 = ''out/a.js''"
    by (simp add: generate_output_filename_def path_stem_def path_filename_def target_extension_def Let_def)
  moreover have "path_stem ''a.lamia'' \<noteq> ''documentation.purple''"
    by (simp add: path_stem_def path_filename_def Let_def)
  ultimately show ?thesis
    using compile_file_writes_every_target [OF r, of JAVASCRIPT_ES6] by (auto simp: configured_def)
qed

end
