(* ===== verification/Editor_Nodes.thy ===== *)
theory Editor_Nodes
  imports Std_Containers
begin

text \<open>
  The nodes, the document and the editor of \<open>lamia_wysiwyg_editor.hpp\<close>. The subclasses of
  \<open>EditorNode\<close> are the constructors of one datatype over a record of the base class's members. A
  \<open>double\<close> is a \<open>real\<close>, and \<open>num\<close> is \<open>std::to_string\<close> on it. The static counters of the two
  \<open>generate_id\<close> functions are passed explicitly.

  The base class defines \<open>shared_from_this\<close> as a new \<open>shared_ptr\<close> to \<open>this\<close>. \<open>add_child\<close> stores it in
  a \<open>weak_ptr\<close>, so the temporary is the only owner of its control block and destroys the parent
  before the child is pushed: adding a child is undefined behaviour, and the list of children is
  empty in every defined execution. Four renderers add two pointers to characters, which
  does not compile; they are modelled as the concatenation they spell.
\<close>

section \<open>Base class\<close>

datatype EditorNodeType =
    ET_RADIANT_HEADING | ET_RADIANT_TEXT | ET_RADIANT_CODE | ET_CONSTELLATION_LIST | ET_RADIANT_QUOTE
  | ET_GIPHY_EMBED | ET_YOUTUBE_EMBED | ET_TWITTER_EMBED | ET_INSTAGRAM_EMBED | ET_TIKTOK_EMBED
  | ET_EMOTION_SPARK | ET_EMOTION_GLOW | ET_EMOTION_PULSE | ET_EMOTION_FLOW | ET_EMOTION_BURST
  | ET_DRAG_DROP_BLOCK | ET_AI_COMPLETION_ZONE | ET_COLLABORATION_CURSOR | ET_LIVE_PREVIEW_PANE
  | ET_GCODE_BLOCK | ET_ZCODE_BLOCK | ET_BAMBU_INTEGRATION
  | ET_CONTAINER_BLOCK | ET_COLUMN_LAYOUT | ET_GRID_LAYOUT | ET_CUSTOM_NODE

record node_base =
  node_id :: string
  node_kind :: EditorNodeType
  content :: string
  attributes :: "(string, string) omap"
  children :: "string list"
  ai_generated :: bool
  ai_confidence :: real
  ai_context :: string
  collaboration_active :: bool
  collaborator_ids :: "string list"
  emotion_type :: string
  emotion_intensity :: real

text \<open>\<open>generate_id\<close> and the constructor: the object and the counter after it.\<close>

definition generate_node_id :: "nat \<Rightarrow> string \<times> nat" where
  "generate_node_id counter = (''lamia_node_'' @ to_string_nat (counter + 1), counter + 1)"

definition EditorNode_new :: "nat \<Rightarrow> EditorNodeType \<Rightarrow> string \<Rightarrow> node_base \<times> nat" where
  "EditorNode_new counter ty i =
     (case (if i = [] then generate_node_id counter else (i, counter)) of
        (name, counter') \<Rightarrow>
          (\<lparr>node_id = name, node_kind = ty, content = [], attributes = [], children = [], ai_generated = False,
            ai_confidence = 0, ai_context = [], collaboration_active = False, collaborator_ids = [],
            emotion_type = [], emotion_intensity = 0\<rparr>, counter'))"

definition set_content :: "string \<Rightarrow> node_base \<Rightarrow> node_base" where
  "set_content s n = n\<lparr>content := s\<rparr>"

definition set_attribute :: "string \<Rightarrow> string \<Rightarrow> node_base \<Rightarrow> node_base" where
  "set_attribute k v n = n\<lparr>attributes := om_assign k v (attributes n)\<rparr>"

definition get_attribute :: "string \<Rightarrow> string \<Rightarrow> node_base \<Rightarrow> string" where
  "get_attribute k d n = (case map_of (attributes n) k of Some v \<Rightarrow> v | None \<Rightarrow> d)"

definition add_child :: "string option \<Rightarrow> node_base \<Rightarrow> node_base outcome" where
  "add_child child n =
     (case child of None \<Rightarrow> Returns n
      | Some c \<Rightarrow> Undefined ''the parent is destroyed by its temporary shared_ptr'')"

definition remove_child :: "string \<Rightarrow> node_base \<Rightarrow> node_base" where
  "remove_child i n = n\<lparr>children := filter (\<lambda>c. c \<noteq> i) (children n)\<rparr>"

definition enable_node_ai :: "string \<Rightarrow> real \<Rightarrow> node_base \<Rightarrow> node_base" where
  "enable_node_ai ctx conf n = n\<lparr>ai_generated := True, ai_context := ctx, ai_confidence := conf\<rparr>"

definition enable_collaboration :: "string list \<Rightarrow> node_base \<Rightarrow> node_base" where
  "enable_collaboration ids n = n\<lparr>collaboration_active := True, collaborator_ids := ids\<rparr>"

definition set_3d_emotion :: "string \<Rightarrow> real \<Rightarrow> node_base \<Rightarrow> node_base" where
  "set_3d_emotion ty x n = n\<lparr>emotion_type := ty, emotion_intensity := x\<rparr>"

section \<open>Node classes\<close>

datatype EditorNode =
    RadiantHeadingNode (base: node_base) (cosmic_level: nat)
  | SocialMediaEmbedNode (base: node_base) (protocol: string) (media_id: string)
      (embed_parameters: "(string, string) omap")
  | ThreeDEmotionNode (base: node_base) (emotion_parameters: "(string, real) omap") (particle_system: string)
  | AICompletionZoneNode (base: node_base) (zone_context: string) (completion_suggestions: "string list")
      (confidence_threshold: real) (auto_complete_enabled: bool)
  | ManufacturingIntegrationNode (base: node_base) (code_type: string) (machine_config: string)
      (mf_parameters: "(string, string) omap") (bambu_integration: bool)

text \<open>\<open>set_cosmic_level\<close> on the level of a heading.\<close>

definition set_cosmic_level :: "int \<Rightarrow> nat \<Rightarrow> nat" where
  "set_cosmic_level l old = (if 1 \<le> l \<and> l \<le> 6 then nat l else old)"

text \<open>The pattern \<open>^([a-z]+)://(.+)$\<close>, whose dot matches no line terminator.\<close>

definition parse_social_url :: "string \<Rightarrow> (string \<times> string) option" where
  "parse_social_url url =
     (let p = takeWhile islower url; r = drop (length p) url; m = drop 3 r in
      if p \<noteq> [] \<and> starts_with ''://'' r \<and> m \<noteq> [] \<and> nl \<notin> set m \<and> cr \<notin> set m
      then Some (p @ ''://'', m) else None)"

definition set_social_url :: "string \<Rightarrow> string \<times> string \<Rightarrow> string \<times> string" where
  "set_social_url url old = (case parse_social_url url of Some pm \<Rightarrow> pm | None \<Rightarrow> old)"

definition add_completion_suggestion :: "real \<Rightarrow> string \<Rightarrow> real \<Rightarrow> string list \<Rightarrow> string list" where
  "add_completion_suggestion threshold s confidence ss = (if threshold \<le> confidence then ss @ [s] else ss)"

section \<open>Rendering\<close>

definition bool_str :: "bool \<Rightarrow> string" where
  "bool_str b = (if b then ''true'' else ''false'')"

definition heading_lamia :: "(real \<Rightarrow> string) \<Rightarrow> node_base \<Rightarrow> nat \<Rightarrow> string" where
  "heading_lamia num b level =
     ''create RADIANT_HEADING {'' @ [nl] @ '' id: \"'' @ node_id b @ ''\"'' @ [nl]
     @ '' cosmic_level: '' @ to_string_nat level @ [nl] @ '' content: \"'' @ content b @ ''\"'' @ [nl]
     @ (if ai_generated b then '' ai_enhanced: true'' @ [nl] @ '' ai_confidence: '' @ num (ai_confidence b) @ [nl] else [])
     @ (if emotion_type b \<noteq> []
        then '' emotion_3d: \"'' @ emotion_type b @ ''\"'' @ [nl] @ '' emotion_intensity: '' @ num (emotion_intensity b) @ [nl]
        else [])
     @ ''}''"

definition emotion_attributes :: "(real \<Rightarrow> string) \<Rightarrow> node_base \<Rightarrow> string" where
  "emotion_attributes num b =
     (if emotion_type b \<noteq> []
      then '' data-emotion-3d=\"'' @ emotion_type b @ ''\" data-emotion-intensity=\"'' @ num (emotion_intensity b) @ ''\"''
      else [])"

definition heading_html :: "(real \<Rightarrow> string) \<Rightarrow> node_base \<Rightarrow> nat \<Rightarrow> string" where
  "heading_html num b level =
     (let l = to_string_nat level in
      ''<h'' @ l @ '' id=\"'' @ node_id b @ ''\" class=\"radiant-heading cosmic-level-'' @ l @ ''\"''
      @ (if ai_generated b
         then '' data-ai-generated=\"true\" data-ai-confidence=\"'' @ num (ai_confidence b) @ ''\"'' else [])
      @ emotion_attributes num b @ ''>'' @ content b @ ''</h'' @ l @ ''>'')"

definition heading_markdown :: "(real \<Rightarrow> string) \<Rightarrow> node_base \<Rightarrow> nat \<Rightarrow> string" where
  "heading_markdown num b level =
     replicate level (CHR ''#'') @ '' '' @ content b
     @ (if ai_generated b then '' <!-- AI-generated with '' @ num (ai_confidence b) @ '' confidence -->'' else [])"

definition social_lamia :: "(real \<Rightarrow> string) \<Rightarrow> node_base \<Rightarrow> string \<Rightarrow> string \<Rightarrow> (string, string) omap \<Rightarrow> string" where
  "social_lamia num b p m ps =
     ''create SOCIAL_EMBED {'' @ [nl] @ '' id: \"'' @ node_id b @ ''\"'' @ [nl]
     @ '' protocol: \"'' @ p @ ''\"'' @ [nl] @ '' media_id: \"'' @ m @ ''\"'' @ [nl]
     @ (if ps \<noteq> []
        then '' parameters: {'' @ [nl] @ concat (map (\<lambda>(k, v). '' '' @ k @ '': \"'' @ v @ ''\"'' @ [nl]) ps) @ '' }'' @ [nl]
        else [])
     @ (if emotion_type b \<noteq> []
        then '' emotion_3d: \"'' @ emotion_type b @ ''\"'' @ [nl] @ '' emotion_intensity: '' @ num (emotion_intensity b) @ [nl]
        else [])
     @ ''}''"

definition generate_giphy_embed :: "string \<Rightarrow> string" where
  "generate_giphy_embed m =
     ''<iframe src=\"https://giphy.com/embed/'' @ m @ ''\" width=\"480\" height=\"360\" frameBorder=\"0\"''
     @ '' class=\"giphy-embed\" allowFullScreen></iframe>''"

definition generate_youtube_embed :: "string \<Rightarrow> string" where
  "generate_youtube_embed m =
     ''<iframe width=\"560\" height=\"315\" src=\"https://www.youtube.com/embed/'' @ m @ ''\"''
     @ '' frameborder=\"0\" allowfullscreen></iframe>''"

definition generate_twitter_embed :: "string \<Rightarrow> string" where
  "generate_twitter_embed m =
     ''<blockquote class=\"twitter-tweet\"><a href=\"https://twitter.com/i/status/'' @ m @ ''\"></a></blockquote>''
     @ ''<script async src=\"https://platform.twitter.com/widgets.js\"></script>''"

definition generate_instagram_embed :: "string \<Rightarrow> string" where
  "generate_instagram_embed m =
     ''<blockquote class=\"instagram-media\"><a href=\"https://www.instagram.com/p/'' @ m @ ''/\"></a></blockquote>''
     @ ''<script async src=\"//www.instagram.com/embed.js\"></script>''"

definition social_html :: "(real \<Rightarrow> string) \<Rightarrow> node_base \<Rightarrow> string \<Rightarrow> string \<Rightarrow> string" where
  "social_html num b p m =
     ''<div class=\"social-embed\" id=\"'' @ node_id b @ ''\" data-protocol=\"'' @ p @ ''\" data-media-id=\"'' @ m @ ''\"''
     @ emotion_attributes num b @ ''>''
     @ (if p = ''giphy://'' then generate_giphy_embed m
        else if p = ''ytube://'' then generate_youtube_embed m
        else if p = ''x://'' then generate_twitter_embed m
        else if p = ''insta://'' then generate_instagram_embed m else [])
     @ ''</div>''"

definition social_markdown :: "string \<Rightarrow> string \<Rightarrow> string" where
  "social_markdown p m = ''['' @ p @ m @ ''](''  @ p @ m @ '')''"

text \<open>The member \<open>emotion_type_\<close> of a 3D emotion node is its initial \<open>SPARK\<close>: no member function
  assigns it.\<close>

definition emotion_type_to_string :: string where
  "emotion_type_to_string = ''spark''"

definition emotion_lamia :: "(real \<Rightarrow> string) \<Rightarrow> node_base \<Rightarrow> (string, real) omap \<Rightarrow> string \<Rightarrow> string" where
  "emotion_lamia num b ps sys =
     ''create EMOTION_3D {'' @ [nl] @ '' id: \"'' @ node_id b @ ''\"'' @ [nl]
     @ '' type: \"'' @ emotion_type_to_string @ ''\"'' @ [nl] @ '' content: \"'' @ content b @ ''\"'' @ [nl]
     @ (if sys \<noteq> [] then '' particle_system: \"'' @ sys @ ''\"'' @ [nl] else [])
     @ (if ps \<noteq> []
        then '' parameters: {'' @ [nl] @ concat (map (\<lambda>(k, v). '' '' @ k @ '': '' @ num v @ [nl]) ps) @ '' }'' @ [nl] else [])
     @ ''}''"

definition emotion_html :: "(real \<Rightarrow> string) \<Rightarrow> node_base \<Rightarrow> (string, real) omap \<Rightarrow> string \<Rightarrow> string" where
  "emotion_html num b ps sys =
     ''<div class=\"emotion-3d\" id=\"'' @ node_id b @ ''\" data-emotion-type=\"'' @ emotion_type_to_string @ ''\"''
     @ (if sys \<noteq> [] then '' data-particle-system=\"'' @ sys @ ''\"'' else [])
     @ concat (map (\<lambda>(k, v). '' data-'' @ k @ ''=\"'' @ num v @ ''\"'') ps)
     @ ''><div class=\"emotion-content\">'' @ content b @ ''</div><canvas class=\"emotion-canvas\"></canvas></div>''"

definition emotion_markdown :: "node_base \<Rightarrow> string" where
  "emotion_markdown b = content b @ '' <!-- 3D Emotion: '' @ emotion_type_to_string @ '' -->''"

definition zone_lamia :: "(real \<Rightarrow> string) \<Rightarrow> node_base \<Rightarrow> string \<Rightarrow> string list \<Rightarrow> real \<Rightarrow> bool \<Rightarrow> string" where
  "zone_lamia num b ctx ss thr auto_complete =
     ''create AI_COMPLETION_ZONE {'' @ [nl] @ '' id: \"'' @ node_id b @ ''\"'' @ [nl]
     @ '' context: \"'' @ ctx @ ''\"'' @ [nl] @ '' auto_complete: '' @ bool_str auto_complete @ [nl]
     @ '' confidence_threshold: '' @ num thr @ [nl]
     @ (if ss \<noteq> [] then '' suggestions: ['' @ [nl] @ concat (map (\<lambda>s. '' \"'' @ s @ ''\"'' @ [nl]) ss) @ '' ]'' @ [nl] else [])
     @ ''}''"

definition zone_html :: "(real \<Rightarrow> string) \<Rightarrow> node_base \<Rightarrow> string \<Rightarrow> string list \<Rightarrow> real \<Rightarrow> bool \<Rightarrow> string" where
  "zone_html num b ctx ss thr auto_complete =
     ''<div class=\"ai-completion-zone\" id=\"'' @ node_id b @ ''\" data-ai-context=\"'' @ ctx
     @ ''\" data-auto-complete=\"'' @ bool_str auto_complete @ ''\" data-confidence-threshold=\"'' @ num thr @ ''\">''
     @ ''<div class=\"completion-input\" contenteditable=\"true\">'' @ content b @ ''</div>''
     @ (if ss \<noteq> [] then ''<div class=\"completion-suggestions\">''
          @ concat (map (\<lambda>s. ''<div class=\"suggestion\">'' @ s @ ''</div>'') ss) @ ''</div>'' else [])
     @ ''</div>''"

definition zone_markdown :: "node_base \<Rightarrow> string" where
  "zone_markdown b = content b @ '' <!-- AI Completion Zone -->''"

definition manufacturing_lamia ::
  "node_base \<Rightarrow> string \<Rightarrow> string \<Rightarrow> (string, string) omap \<Rightarrow> bool \<Rightarrow> string" where
  "manufacturing_lamia b ty cfg ps bambu =
     ''create MANUFACTURING_INTEGRATION {'' @ [nl] @ '' id: \"'' @ node_id b @ ''\"'' @ [nl]
     @ '' code_type: \"'' @ ty @ ''\"'' @ [nl] @ '' machine_config: \"'' @ cfg @ ''\"'' @ [nl]
     @ '' bambu_integration: '' @ bool_str bambu @ [nl]
     @ (if ps \<noteq> []
        then '' parameters: {'' @ [nl] @ concat (map (\<lambda>(k, v). '' '' @ k @ '': \"'' @ v @ ''\"'' @ [nl]) ps) @ '' }'' @ [nl] else [])
     @ '' code: '' @ [backtick] @ content b @ [backtick, nl] @ ''}''"

definition manufacturing_html :: "node_base \<Rightarrow> string \<Rightarrow> string \<Rightarrow> bool \<Rightarrow> string" where
  "manufacturing_html b ty cfg bambu =
     ''<div class=\"manufacturing-integration\" id=\"'' @ node_id b @ ''\" data-code-type=\"'' @ ty
     @ ''\" data-machine-config=\"'' @ cfg @ ''\" data-bambu-integration=\"'' @ bool_str bambu @ ''\">''
     @ ''<div class=\"code-header\"><span class=\"code-type\">'' @ ty @ ''</span><span class=\"machine-config\">'' @ cfg
     @ ''</span></div><pre class=\"manufacturing-code\"><code>'' @ content b @ ''</code></pre>''
     @ (if bambu then ''<div class=\"bambu-controls\"><button class=\"send-to-printer\">Send to Bambu Printer</button>''
          @ ''<button class=\"simulate-print\">Simulate Print</button></div>'' else [])
     @ ''</div>''"

definition manufacturing_markdown :: "node_base \<Rightarrow> string \<Rightarrow> bool \<Rightarrow> string" where
  "manufacturing_markdown b ty bambu =
     replicate 3 backtick @ ty @ [nl] @ content b @ [nl] @ replicate 3 backtick
     @ (if bambu then [nl] @ ''<!-- Bambu Lab Integration Enabled -->'' else [])"

fun render_lamia :: "(real \<Rightarrow> string) \<Rightarrow> EditorNode \<Rightarrow> string" where
  "render_lamia num (RadiantHeadingNode b l) = heading_lamia num b l"
| "render_lamia num (SocialMediaEmbedNode b p m ps) = social_lamia num b p m ps"
| "render_lamia num (ThreeDEmotionNode b ps s) = emotion_lamia num b ps s"
| "render_lamia num (AICompletionZoneNode b c ss t a) = zone_lamia num b c ss t a"
| "render_lamia num (ManufacturingIntegrationNode b t c ps x) = manufacturing_lamia b t c ps x"

fun render_html :: "(real \<Rightarrow> string) \<Rightarrow> EditorNode \<Rightarrow> string" where
  "render_html num (RadiantHeadingNode b l) = heading_html num b l"
| "render_html num (SocialMediaEmbedNode b p m ps) = social_html num b p m"
| "render_html num (ThreeDEmotionNode b ps s) = emotion_html num b ps s"
| "render_html num (AICompletionZoneNode b c ss t a) = zone_html num b c ss t a"
| "render_html num (ManufacturingIntegrationNode b t c ps x) = manufacturing_html b t c x"

fun render_markdown :: "(real \<Rightarrow> string) \<Rightarrow> EditorNode \<Rightarrow> string" where
  "render_markdown num (RadiantHeadingNode b l) = heading_markdown num b l"
| "render_markdown num (SocialMediaEmbedNode b p m ps) = social_markdown p m"
| "render_markdown num (ThreeDEmotionNode b ps s) = emotion_markdown b"
| "render_markdown num (AICompletionZoneNode b c ss t a) = zone_markdown b"
| "render_markdown num (ManufacturingIntegrationNode b t c ps x) = manufacturing_markdown b t x"

section \<open>Document\<close>

record EditorDocument =
  doc_id :: string
  title :: string
  root_nodes :: "EditorNode list"
  active_collaborators :: "(string, string) omap"
  ai_assistance_enabled :: bool
  ai_writing_style :: string
  ai_creativity_level :: real
  live_preview_enabled :: bool
  preview_mode :: string

definition EditorDocument_new :: "nat \<Rightarrow> string \<Rightarrow> string \<Rightarrow> EditorDocument \<times> nat" where
  "EditorDocument_new counter i t =
     (let counter' = (if i = [] then counter + 1 else counter) in
      (\<lparr>doc_id = (if i = [] then ''lamia_doc_'' @ to_string_nat counter' else i), title = t, root_nodes = [],
        active_collaborators = [], ai_assistance_enabled = False, ai_writing_style = [],
        ai_creativity_level = 1 / 2, live_preview_enabled = False, preview_mode = ''html''\<rparr>, counter'))"

definition doc_add_node :: "EditorNode option \<Rightarrow> EditorDocument \<Rightarrow> EditorDocument" where
  "doc_add_node n d = (case n of None \<Rightarrow> d | Some x \<Rightarrow> d\<lparr>root_nodes := root_nodes d @ [x]\<rparr>)"

definition doc_remove_node :: "string \<Rightarrow> EditorDocument \<Rightarrow> EditorDocument" where
  "doc_remove_node i d = d\<lparr>root_nodes := filter (\<lambda>n. node_id (base n) \<noteq> i) (root_nodes d)\<rparr>"

definition doc_enable_ai :: "string \<Rightarrow> real \<Rightarrow> EditorDocument \<Rightarrow> EditorDocument" where
  "doc_enable_ai style x d = d\<lparr>ai_assistance_enabled := True, ai_writing_style := style, ai_creativity_level := x\<rparr>"

definition doc_add_collaborator :: "string \<Rightarrow> string \<Rightarrow> EditorDocument \<Rightarrow> EditorDocument" where
  "doc_add_collaborator u n d = d\<lparr>active_collaborators := om_assign u n (active_collaborators d)\<rparr>"

definition doc_enable_live_preview :: "string \<Rightarrow> EditorDocument \<Rightarrow> EditorDocument" where
  "doc_enable_live_preview m d = d\<lparr>live_preview_enabled := True, preview_mode := m\<rparr>"

text \<open>The loop that indents a rendering by one blank per line.\<close>

definition indent :: "string \<Rightarrow> string" where
  "indent s = concat (map (\<lambda>l. '' '' @ l @ [nl]) (lines_of s))"

definition export_to_lamia :: "(real \<Rightarrow> string) \<Rightarrow> EditorDocument \<Rightarrow> string" where
  "export_to_lamia num d =
     ''create DOCUMENT {'' @ [nl] @ '' id: \"'' @ doc_id d @ ''\"'' @ [nl] @ '' title: \"'' @ title d @ ''\"'' @ [nl]
     @ (if ai_assistance_enabled d
        then '' ai_assistance: {'' @ [nl] @ '' enabled: true'' @ [nl] @ '' writing_style: \"'' @ ai_writing_style d @ ''\"'' @ [nl]
          @ '' creativity_level: '' @ num (ai_creativity_level d) @ [nl] @ '' }'' @ [nl] else [])
     @ (if active_collaborators d \<noteq> []
        then '' collaborators: ['' @ [nl]
          @ concat (map (\<lambda>(i, n). '' { id: \"'' @ i @ ''\", name: \"'' @ n @ ''\" }'' @ [nl]) (active_collaborators d))
          @ '' ]'' @ [nl] else [])
     @ (if root_nodes d \<noteq> []
        then '' nodes: ['' @ [nl] @ concat (map (indent \<circ> render_lamia num) (root_nodes d)) @ '' ]'' @ [nl] else [])
     @ ''}''"

definition export_to_html :: "(real \<Rightarrow> string) \<Rightarrow> EditorDocument \<Rightarrow> string" where
  "export_to_html num d =
     ''<!DOCTYPE html>'' @ [nl] @ ''<html lang=\"en\">'' @ [nl] @ ''<head>'' @ [nl] @ '' <meta charset=\"UTF-8\">'' @ [nl]
     @ '' <meta name=\"viewport\" content=\"width=device-width, initial-scale=1.0\">'' @ [nl]
     @ '' <title>'' @ title d @ ''</title>'' @ [nl] @ '' <link rel=\"stylesheet\" href=\"lamia-editor.css\">'' @ [nl]
     @ '' <script src=\"lamia-editor.js\"></script>'' @ [nl] @ ''</head>'' @ [nl] @ ''<body>'' @ [nl]
     @ '' <div class=\"lamia-document\" id=\"'' @ doc_id d @ ''\">'' @ [nl]
     @ concat (map (\<lambda>n. '' '' @ render_html num n @ [nl]) (root_nodes d))
     @ '' </div>'' @ [nl] @ ''</body>'' @ [nl] @ ''</html>'' @ [nl]"

definition export_to_markdown :: "(real \<Rightarrow> string) \<Rightarrow> EditorDocument \<Rightarrow> string" where
  "export_to_markdown num d =
     ''# '' @ title d @ [nl, nl] @ concat (map (\<lambda>n. render_markdown num n @ [nl, nl]) (root_nodes d))"

section \<open>Editor\<close>

text \<open>The pages the preview callback was given are a log; \<open>ed_preview\<close> tells whether one is set. The
  two counters are the static ones of \<open>generate_id\<close>.\<close>

record LamiaWYSIWYGEditor =
  current_document :: "EditorDocument option"
  node_registry :: "(string, EditorNode) omap"
  node_factories :: "(string, EditorNodeType) omap"
  ed_collaborators :: "(string, string) omap"
  ai_enabled :: bool
  ed_live_preview :: bool
  ed_preview :: bool
  preview_log :: "string list"
  node_counter :: nat
  doc_counter :: nat

definition initialize_default_nodes :: "(string, EditorNodeType) omap" where
  "initialize_default_nodes =
     om_assign ''manufacturing'' ET_GCODE_BLOCK (om_assign ''ai_completion'' ET_AI_COMPLETION_ZONE
       (om_assign ''3d_emotion'' ET_EMOTION_SPARK (om_assign ''social_embed'' ET_GIPHY_EMBED
         (om_assign ''radiant_heading'' ET_RADIANT_HEADING []))))"

definition LamiaWYSIWYGEditor_new :: LamiaWYSIWYGEditor where
  "LamiaWYSIWYGEditor_new = \<lparr>current_document = None, node_registry = [], node_factories = initialize_default_nodes,
     ed_collaborators = [], ai_enabled = False, ed_live_preview = False, ed_preview = False, preview_log = [],
     node_counter = 0, doc_counter = 0\<rparr>"

definition create_document :: "string \<Rightarrow> LamiaWYSIWYGEditor \<Rightarrow> LamiaWYSIWYGEditor" where
  "create_document t e =
     (case EditorDocument_new (doc_counter e) [] t of (d, c) \<Rightarrow> e\<lparr>current_document := Some d, doc_counter := c\<rparr>)"

definition load_document_from_lamia :: "string \<Rightarrow> LamiaWYSIWYGEditor \<Rightarrow> bool \<times> LamiaWYSIWYGEditor" where
  "load_document_from_lamia src e = (True, create_document [] e)"

definition add_node :: "(real \<Rightarrow> string) \<Rightarrow> EditorNode option \<Rightarrow> LamiaWYSIWYGEditor \<Rightarrow> LamiaWYSIWYGEditor" where
  "add_node num n e =
     (case (current_document e, n) of
        (Some d, Some x) \<Rightarrow>
          let d' = doc_add_node n d;
              e' = e\<lparr>current_document := Some d', node_registry := om_assign (node_id (base x)) x (node_registry e)\<rparr>
          in if ed_live_preview e \<and> ed_preview e then e'\<lparr>preview_log := preview_log e @ [export_to_html num d']\<rparr> else e'
      | _ \<Rightarrow> e)"

definition create_radiant_heading :: "string \<Rightarrow> int \<Rightarrow> LamiaWYSIWYGEditor \<Rightarrow> EditorNode \<times> LamiaWYSIWYGEditor" where
  "create_radiant_heading c level e =
     (case EditorNode_new (node_counter e) ET_RADIANT_HEADING [] of
        (b, k) \<Rightarrow> (RadiantHeadingNode (set_content c b) (set_cosmic_level level 1), e\<lparr>node_counter := k\<rparr>))"

definition social_type :: "string \<Rightarrow> EditorNodeType" where
  "social_type url =
     (if starts_with ''giphy://'' url then ET_GIPHY_EMBED else if starts_with ''ytube://'' url then ET_YOUTUBE_EMBED
      else if starts_with ''x://'' url then ET_TWITTER_EMBED else if starts_with ''insta://'' url then ET_INSTAGRAM_EMBED
      else ET_GIPHY_EMBED)"

definition create_social_embed :: "string \<Rightarrow> LamiaWYSIWYGEditor \<Rightarrow> EditorNode \<times> LamiaWYSIWYGEditor" where
  "create_social_embed url e =
     (case EditorNode_new (node_counter e) (social_type url) [] of
        (b, k) \<Rightarrow> (case set_social_url url ([], []) of (p, m) \<Rightarrow> (SocialMediaEmbedNode b p m [], e\<lparr>node_counter := k\<rparr>)))"

definition emotion_node_type :: "string \<Rightarrow> EditorNodeType" where
  "emotion_node_type s =
     (if s = ''spark'' then ET_EMOTION_SPARK else if s = ''glow'' then ET_EMOTION_GLOW
      else if s = ''pulse'' then ET_EMOTION_PULSE else if s = ''flow'' then ET_EMOTION_FLOW
      else if s = ''burst'' then ET_EMOTION_BURST else ET_EMOTION_SPARK)"

definition create_3d_emotion :: "string \<Rightarrow> string \<Rightarrow> LamiaWYSIWYGEditor \<Rightarrow> EditorNode \<times> LamiaWYSIWYGEditor" where
  "create_3d_emotion c ty e =
     (case EditorNode_new (node_counter e) (emotion_node_type ty) [] of
        (b, k) \<Rightarrow> (ThreeDEmotionNode (set_content c b) [] [], e\<lparr>node_counter := k\<rparr>))"

definition create_ai_completion_zone :: "string \<Rightarrow> LamiaWYSIWYGEditor \<Rightarrow> EditorNode \<times> LamiaWYSIWYGEditor" where
  "create_ai_completion_zone ctx e =
     (case EditorNode_new (node_counter e) ET_AI_COMPLETION_ZONE [] of
        (b, k) \<Rightarrow> (AICompletionZoneNode b ctx [] (7 / 10) False, e\<lparr>node_counter := k\<rparr>))"

definition create_manufacturing_node :: "string \<Rightarrow> LamiaWYSIWYGEditor \<Rightarrow> EditorNode \<times> LamiaWYSIWYGEditor" where
  "create_manufacturing_node ty e =
     (case EditorNode_new (node_counter e) (if ty = ''gcode'' then ET_GCODE_BLOCK else ET_ZCODE_BLOCK) [] of
        (b, k) \<Rightarrow> (ManufacturingIntegrationNode b ty [] [] False, e\<lparr>node_counter := k\<rparr>))"

definition enable_ai_assistance :: "LamiaWYSIWYGEditor \<Rightarrow> LamiaWYSIWYGEditor" where
  "enable_ai_assistance e =
     e\<lparr>ai_enabled := True, current_document := map_option (doc_enable_ai ''professional'' (1 / 2)) (current_document e)\<rparr>"

definition enable_live_preview :: "LamiaWYSIWYGEditor \<Rightarrow> LamiaWYSIWYGEditor" where
  "enable_live_preview e =
     e\<lparr>ed_live_preview := True, ed_preview := True,
       current_document := map_option (doc_enable_live_preview ''html'') (current_document e)\<rparr>"

definition add_collaborator :: "string \<Rightarrow> string \<Rightarrow> LamiaWYSIWYGEditor \<Rightarrow> LamiaWYSIWYGEditor" where
  "add_collaborator u n e =
     e\<lparr>ed_collaborators := om_assign u n (ed_collaborators e),
       current_document := map_option (doc_add_collaborator u n) (current_document e)\<rparr>"

definition export_document :: "(real \<Rightarrow> string) \<Rightarrow> string \<Rightarrow> LamiaWYSIWYGEditor \<Rightarrow> string" where
  "export_document num fmt e =
     (case current_document e of
        None \<Rightarrow> []
      | Some d \<Rightarrow>
          if fmt = ''lamia'' then export_to_lamia num d else if fmt = ''html'' then export_to_html num d
          else if fmt = ''markdown'' then export_to_markdown num d else [])"

section \<open>Social media addresses\<close>

lemma takeWhile_append_stop: "list_all P s \<Longrightarrow> \<not> P c \<Longrightarrow> takeWhile P (s @ c # t) = s"
  by (induction s) auto

text \<open>\<open>parse_social_url\<close> accepts exactly the addresses made of lower-case letters, \<open>://\<close> and a
  non-empty rest on one line, and splits them into a protocol and a media id that spell the
  address again.\<close>

theorem social_url_grammar:
  "parse_social_url url = Some (p, m) \<longleftrightarrow>
     (\<exists>s. url = s @ ''://'' @ m \<and> p = s @ ''://'' \<and> s \<noteq> [] \<and> list_all islower s
       \<and> m \<noteq> [] \<and> nl \<notin> set m \<and> cr \<notin> set m)" (is "_ \<longleftrightarrow> ?R")
proof
  assume "parse_social_url url = Some (p, m)"
  then obtain s where s: "s = takeWhile islower url" "s \<noteq> []" "starts_with ''://'' (drop (length s) url)"
      "p = s @ ''://''" "m = drop 3 (drop (length s) url)" "m \<noteq> []" "nl \<notin> set m" "cr \<notin> set m"
    by (auto simp: parse_social_url_def Let_def split: if_splits)
  moreover obtain t where "drop (length s) url = ''://'' @ t" using s(3) by (auto simp: starts_with_iff)
  moreover have "url = s @ drop (length s) url"
    by (metis append_take_drop_id s(1) takeWhile_eq_take)
  moreover have "list_all islower s" using s(1) by (auto simp: list_all_iff dest: set_takeWhileD)
  moreover have "m = t" using s(5) \<open>drop (length s) url = ''://'' @ t\<close> by simp
  ultimately show ?R using s by (intro exI [of _ s]) simp
next
  assume ?R
  then obtain s where s: "url = s @ ''://'' @ m" "p = s @ ''://''" "s \<noteq> []" "list_all islower s"
      "m \<noteq> []" "nl \<notin> set m" "cr \<notin> set m" by blast
  have "takeWhile islower url = s"
    using s takeWhile_append_stop [of islower s "CHR '':''" "''//'' @ m"] by (simp add: ctype_defs)
  then show "parse_social_url url = Some (p, m)" using s by (simp add: parse_social_url_def)
qed

section \<open>Sessions of the editor\<close>

text \<open>The states a client reaches with the operations of the editor: the state and the nodes created
  so far, which the client may add in any order, more than once or not at all.\<close>

inductive editor_session :: "(real \<Rightarrow> string) \<Rightarrow> LamiaWYSIWYGEditor \<Rightarrow> EditorNode list \<Rightarrow> bool"
  for num :: "real \<Rightarrow> string" where
  es_start: "editor_session num LamiaWYSIWYGEditor_new []"
| es_document: "editor_session num e ns \<Longrightarrow> editor_session num (create_document t e) ns"
| es_load: "editor_session num e ns \<Longrightarrow> editor_session num (snd (load_document_from_lamia t e)) ns"
| es_heading: "editor_session num e ns \<Longrightarrow> create_radiant_heading c l e = (n, e') \<Longrightarrow> editor_session num e' (n # ns)"
| es_social: "editor_session num e ns \<Longrightarrow> create_social_embed c e = (n, e') \<Longrightarrow> editor_session num e' (n # ns)"
| es_emotion: "editor_session num e ns \<Longrightarrow> create_3d_emotion c t e = (n, e') \<Longrightarrow> editor_session num e' (n # ns)"
| es_zone: "editor_session num e ns \<Longrightarrow> create_ai_completion_zone c e = (n, e') \<Longrightarrow> editor_session num e' (n # ns)"
| es_manufacturing:
    "editor_session num e ns \<Longrightarrow> create_manufacturing_node c e = (n, e') \<Longrightarrow> editor_session num e' (n # ns)"
| es_add: "editor_session num e ns \<Longrightarrow> n \<in> set ns \<Longrightarrow> editor_session num (add_node num (Some n) e) ns"
| es_ai: "editor_session num e ns \<Longrightarrow> editor_session num (enable_ai_assistance e) ns"
| es_preview: "editor_session num e ns \<Longrightarrow> editor_session num (enable_live_preview e) ns"
| es_collaborator: "editor_session num e ns \<Longrightarrow> editor_session num (add_collaborator u w e) ns"

text \<open>The invariant of a session: generated ids number the created nodes, and the registry maps
  the id of every node of the document to that node.\<close>

definition names_number :: "nat \<Rightarrow> EditorNode list \<Rightarrow> bool" where
  "names_number k ns \<longleftrightarrow>
     map (node_id \<circ> base) ns = map (\<lambda>i. ''lamia_node_'' @ to_string_nat i) (rev [1..<Suc k])"

definition document_nodes :: "LamiaWYSIWYGEditor \<Rightarrow> EditorNode list" where
  "document_nodes e = (case current_document e of None \<Rightarrow> [] | Some d \<Rightarrow> root_nodes d)"

definition session_inv :: "LamiaWYSIWYGEditor \<Rightarrow> EditorNode list \<Rightarrow> bool" where
  "session_inv e ns \<longleftrightarrow> names_number (node_counter e) ns \<and> set (document_nodes e) \<subseteq> set ns
     \<and> om_inv (node_registry e) \<and> set (document_nodes e) \<subseteq> snd ` set (node_registry e)
     \<and> (\<forall>(i, n) \<in> set (node_registry e). n \<in> set ns \<and> i = node_id (base n))"

lemma names_number_distinct:
  assumes "names_number k ns" shows "distinct (map (node_id \<circ> base) ns)"
  using assms unfolding names_number_def by (simp add: distinct_map inj_on_def)

lemma names_number_new:
  assumes "names_number k ns" "EditorNode_new k ty [] = (b, k')" "node_id (base n) = node_id b"
  shows "names_number k' (n # ns)"
  using assms by (auto simp: names_number_def EditorNode_new_def generate_node_id_def)

lemma session_inv_created:
  assumes "session_inv e ns" "EditorNode_new (node_counter e) ty [] = (b, k)" "node_id (base n) = node_id b"
  shows "session_inv (e\<lparr>node_counter := k\<rparr>) (n # ns)"
  using assms names_number_new [OF _ assms(2) assms(3)]
  by (fastforce simp: session_inv_def document_nodes_def)

lemma session_inv_added:
  assumes "session_inv e ns" "n \<in> set ns"
  shows "session_inv (add_node num (Some n) e) ns"
proof (cases "current_document e")
  case None
  then show ?thesis using assms by (simp add: add_node_def)
next
  case (Some d)
  let ?m = "om_assign (node_id (base n)) n (node_registry e)"
  have same: "m = n" if "m \<in> set ns" "node_id (base m) = node_id (base n)" for m
    using names_number_distinct [of _ ns] assms that
    by (auto simp: session_inv_def distinct_map inj_on_def)
  have "(i, m) \<in> set ?m \<longleftrightarrow> (if i = node_id (base n) then m = n else (i, m) \<in> set (node_registry e))" for i m
    using assms by (simp add: om.entries_update session_inv_def)
  moreover have "om_inv ?m" using assms by (simp add: om_inv_assign session_inv_def)
  moreover have "set (root_nodes d) \<subseteq> set ns \<and> set (root_nodes d) \<subseteq> snd ` set (node_registry e)
      \<and> (\<forall>i m. (i, m) \<in> set (node_registry e) \<longrightarrow> m \<in> set ns \<and> i = node_id (base m))"
    using assms Some by (auto simp: session_inv_def document_nodes_def)
  ultimately have m: "om_inv ?m" "\<forall>i m. (i, m) \<in> set ?m \<longrightarrow> m \<in> set ns \<and> i = node_id (base m)"
      "set (root_nodes d @ [n]) \<subseteq> set ns"
    and r: "\<And>m. m \<in> set (root_nodes d) \<Longrightarrow> (node_id (base m), m) \<in> set ?m" "(node_id (base n), n) \<in> set ?m"
    using assms(2) same by (auto simp: image_iff split: if_splits)
  have "set (root_nodes d @ [n]) \<subseteq> snd ` set ?m" using r by force
  then have "session_inv (e\<lparr>current_document := Some (doc_add_node (Some n) d), node_registry := ?m\<rparr>) ns"
    using assms(1) m by (simp add: session_inv_def document_nodes_def doc_add_node_def) blast
  then show ?thesis
    using Some by (auto simp: add_node_def Let_def session_inv_def document_nodes_def doc_add_node_def)
qed

lemma session_inv_modes:
  assumes "session_inv e ns"
  shows "session_inv (enable_ai_assistance e) ns" "session_inv (enable_live_preview e) ns"
    "session_inv (add_collaborator u w e) ns" "session_inv (create_document t e) ns"
  using assms
  by (auto simp: session_inv_def document_nodes_def enable_ai_assistance_def enable_live_preview_def
      add_collaborator_def create_document_def EditorDocument_new_def doc_enable_ai_def
      doc_enable_live_preview_def doc_add_collaborator_def Let_def split: option.splits)

lemmas factory_defs = create_radiant_heading_def create_social_embed_def create_3d_emotion_def
  create_ai_completion_zone_def create_manufacturing_node_def set_content_def

lemma editor_session_inv: "editor_session num e ns \<Longrightarrow> session_inv e ns"
proof (induction rule: editor_session.induct)
  case es_start
  show ?case
    by (simp add: session_inv_def LamiaWYSIWYGEditor_new_def names_number_def document_nodes_def)
next
  case (es_add e ns n)
  then show ?case by (simp add: session_inv_added)
qed (auto simp: session_inv_modes load_document_from_lamia_def factory_defs intro: session_inv_created
      split: prod.splits)

text \<open>In every session of the editor the created nodes have pairwise different ids, and the
  registry finds each node of the current document, that very node, under its id, however often
  and in whatever order the client adds nodes and replaces documents.\<close>

theorem registry_finds_every_node:
  assumes "editor_session num e ns"
  shows "distinct (map (node_id \<circ> base) ns)
    \<and> (\<forall>n \<in> set (document_nodes e). map_of (node_registry e) (node_id (base n)) = Some n)"
proof
  have inv: "session_inv e ns" using assms by (rule editor_session_inv)
  then show "distinct (map (node_id \<circ> base) ns)" by (auto simp: session_inv_def names_number_distinct)
  show "\<forall>n \<in> set (document_nodes e). map_of (node_registry e) (node_id (base n)) = Some n"
    using inv by (fastforce simp: session_inv_def om_inv_distinct)
qed

definition sample_session :: "LamiaWYSIWYGEditor \<times> EditorNode" where
  "sample_session = (case create_radiant_heading ''Stars'' 2 (create_document ''Sky'' LamiaWYSIWYGEditor_new) of
     (n, e) \<Rightarrow> (add_node (\<lambda>x. ''0.5'') (Some n) e, n))"

lemma registry_finds_every_node_witness:
  "map_of (node_registry (fst sample_session)) ''lamia_node_1'' = Some (snd sample_session)"
proof -
  let ?n = "snd sample_session"
  have *: "editor_session (\<lambda>x. ''0.5'') (fst sample_session) [?n]"
    unfolding sample_session_def
    by (cases "create_radiant_heading ''Stars'' 2 (create_document ''Sky'' LamiaWYSIWYGEditor_new)")
      (simp, rule es_add, rule es_heading, rule es_document, rule es_start, simp_all)
  have "?n \<in> set (document_nodes (fst sample_session))" "node_id (base ?n) = ''lamia_node_1''"
    by code_simp+
  then show ?thesis using registry_finds_every_node [OF *] by metis
qed

text \<open>With live preview on, adding a node shows the client exactly the HTML export of the
  document the node was appended to, and nothing else changes in what it has been shown.\<close>

theorem add_node_previews_export:
  assumes "current_document e = Some d" "ed_live_preview e" "ed_preview e"
  shows "preview_log (add_node num (Some n) e) = preview_log e @ [export_document num ''html'' (add_node num (Some n) e)]
    \<and> document_nodes (add_node num (Some n) e) = document_nodes e @ [n]"
  using assms
  by (simp add: add_node_def Let_def export_document_def document_nodes_def doc_add_node_def)

lemma add_node_previews_export_witness:
  "length (preview_log (add_node (\<lambda>x. ''0.5'') (Some (snd sample_session))
     (enable_live_preview (fst sample_session)))) = 1"
proof -
  let ?e = "enable_live_preview (fst sample_session)"
  obtain d where "current_document ?e = Some d" "ed_live_preview ?e" "ed_preview ?e" "preview_log ?e = []"
  proof -
    have "current_document ?e \<noteq> None" "ed_live_preview ?e" "ed_preview ?e" "preview_log ?e = []" by code_simp+
    then show thesis using that by blast
  qed
  from add_node_previews_export [OF this(1-3), of "\<lambda>x. ''0.5''" "snd sample_session"] this(4)
  show ?thesis by simp
qed

text \<open>The type a client asks for never reaches the rendering of a 3D emotion.\<close>

lemma every_3d_emotion_is_spark:
  "render_lamia num (fst (create_3d_emotion c ''burst'' e)) = render_lamia num (fst (create_3d_emotion c ''spark'' e))"
  "node_kind (base (fst (create_3d_emotion c ''burst'' e))) = ET_EMOTION_BURST"
  by (simp_all add: create_3d_emotion_def emotion_node_type_def EditorNode_new_def generate_node_id_def
      emotion_lamia_def set_content_def)

end
