(* ===== verification/Block_Model.thy ===== *)
theory Block_Model
  imports Editor_Nodes
begin

text \<open>
  The parts of \<open>lamia_block_editor.hpp\<close> below the editor itself: positions, the selection, the
  blocks with their renderings, and the drag and drop manager. A \<open>double\<close> is a \<open>real\<close> and
  \<open>num\<close> is \<open>std::to_string\<close> on it; the reading of the steady clock, in nanoseconds, is a parameter;
  every class is used from one thread, so its mutex is left out. The callbacks of the
  drag and drop manager are the log of what it calls them with.
\<close>

section \<open>Enumerations and positions\<close>

datatype BlockType =
    PARAGRAPH_BLOCK | HEADING_BLOCK | LIST_BLOCK | QUOTE_BLOCK | CODE_BLOCK
  | IMAGE_BLOCK | VIDEO_BLOCK | AUDIO_BLOCK | EMBED_BLOCK | GALLERY_BLOCK
  | CONTAINER_BLOCK | COLUMNS_BLOCK | ROW_BLOCK | GRID_BLOCK | SPACER_BLOCK
  | BUTTON_BLOCK | FORM_BLOCK | TABLE_BLOCK | CHART_BLOCK | MAP_BLOCK
  | AI_COMPLETION_BLOCK | AI_SUGGESTION_BLOCK | AI_TRANSLATION_BLOCK
  | GCODE_BLOCK | ZCODE_BLOCK | BAMBU_BLOCK | CUSTOM_BLOCK

datatype DragOperationType = D_MOVE | D_COPY | D_LINK | D_NEST | D_EXTRACT | D_MERGE | D_SPLIT

datatype DropZoneType =
  Z_BEFORE | Z_AFTER | Z_INSIDE | Z_REPLACE | Z_MERGE_START | Z_MERGE_END | Z_COLUMN_LEFT | Z_COLUMN_RIGHT | Z_GRID_CELL

record BlockPosition =
  parent_id :: string
  index :: nat
  path :: "nat list"
  px :: real
  py :: real
  pwidth :: real
  pheight :: real

definition position_is_valid :: "BlockPosition \<Rightarrow> bool" where
  "position_is_valid p \<longleftrightarrow> parent_id p \<noteq> [] \<or> index p = 0"

definition position_to_string :: "BlockPosition \<Rightarrow> string" where
  "position_to_string p =
     parent_id p @ '':'' @ to_string_nat (index p) @ concat (map (\<lambda>i. ''.'' @ to_string_nat i) (path p))"

text \<open>The position after \<open>BlockPosition{}\<close>, and the one \<open>update_block_positions\<close> gives block \<open>i\<close>.\<close>

definition position_zero :: BlockPosition where
  "position_zero = \<lparr>parent_id = [], index = 0, path = [], px = 0, py = 0, pwidth = 0, pheight = 0\<rparr>"

definition root_position :: "nat \<Rightarrow> BlockPosition" where
  "root_position i = position_zero\<lparr>parent_id := ''root'', index := i, path := [i]\<rparr>"

section \<open>Selection\<close>

record BlockSelection =
  selected_blocks :: "string oset"
  primary_selection :: string
  range_start :: string
  range_end :: string
  multi_select_mode :: bool

definition BlockSelection_new :: BlockSelection where
  "BlockSelection_new =
     \<lparr>selected_blocks = [], primary_selection = [], range_start = [], range_end = [], multi_select_mode = False\<rparr>"

definition select_block :: "string \<Rightarrow> bool \<Rightarrow> BlockSelection \<Rightarrow> BlockSelection" where
  "select_block i keep s =
     (let old = (if \<not> keep \<and> \<not> multi_select_mode s then [] else selected_blocks s)
      in s\<lparr>selected_blocks := os_insert i old, primary_selection := i\<rparr>)"

definition select_range :: "string \<Rightarrow> string \<Rightarrow> BlockSelection \<Rightarrow> BlockSelection" where
  "select_range a b s =
     s\<lparr>range_start := a, range_end := b, selected_blocks := os_insert b (os_insert a (selected_blocks s))\<rparr>"

definition toggle_block :: "string \<Rightarrow> BlockSelection \<Rightarrow> BlockSelection" where
  "toggle_block i s =
     (if i \<in> set (selected_blocks s)
      then let r = os_erase i (selected_blocks s) in
           s\<lparr>selected_blocks := r, primary_selection := (if primary_selection s = i \<and> r \<noteq> [] then hd r else primary_selection s)\<rparr>
      else s\<lparr>selected_blocks := os_insert i (selected_blocks s), primary_selection := i\<rparr>)"

definition clear_selection :: "BlockSelection \<Rightarrow> BlockSelection" where
  "clear_selection s = s\<lparr>selected_blocks := [], primary_selection := [], range_start := [], range_end := []\<rparr>"

definition is_selected :: "string \<Rightarrow> BlockSelection \<Rightarrow> bool" where
  "is_selected i s \<longleftrightarrow> i \<in> set (selected_blocks s)"

definition has_selection :: "BlockSelection \<Rightarrow> bool" where
  "has_selection s \<longleftrightarrow> selected_blocks s \<noteq> []"

definition set_multi_select_mode :: "bool \<Rightarrow> BlockSelection \<Rightarrow> BlockSelection" where
  "set_multi_select_mode b s = s\<lparr>multi_select_mode := b\<rparr>"

section \<open>Blocks\<close>

text \<open>Of the base class a block reads its id, its content and its children. The clock is in
  nanoseconds, \<open>animation_duration\<close> in milliseconds.\<close>

record Block =
  block_id :: string
  block_content :: string
  block_children :: "string list"
  block_type :: BlockType
  position :: BlockPosition
  metadata :: "(string, string) omap"
  style_properties :: "(string, string) omap"
  layout_mode :: string
  is_draggable :: bool
  accepts_drops :: bool
  accepted_block_types :: "BlockType list"
  animating :: bool
  animation_type :: string
  animation_start :: int
  animation_duration :: int
  ai_suggestions_enabled :: bool
  ai_suggestions :: "string list"

definition add_accepted_block_type :: "BlockType \<Rightarrow> Block \<Rightarrow> Block" where
  "add_accepted_block_type t b = b\<lparr>accepted_block_types := List.insert t (accepted_block_types b)\<rparr>"

definition initialize_block_properties :: "Block \<Rightarrow> Block" where
  "initialize_block_properties b =
     (case block_type b of
        PARAGRAPH_BLOCK \<Rightarrow> add_accepted_block_type PARAGRAPH_BLOCK b
      | COLUMNS_BLOCK \<Rightarrow>
          add_accepted_block_type IMAGE_BLOCK (add_accepted_block_type HEADING_BLOCK
            (add_accepted_block_type PARAGRAPH_BLOCK b))
      | _ \<Rightarrow> b)"

text \<open>The constructor leaves \<open>position_.index\<close> uninitialised: \<open>junk\<close> is what it holds.\<close>

definition Block_new :: "nat \<Rightarrow> nat \<Rightarrow> BlockType \<Rightarrow> string \<Rightarrow> Block \<times> nat" where
  "Block_new junk counter ty i =
     (case (if i = [] then generate_node_id counter else (i, counter)) of
        (name, counter') \<Rightarrow>
          (initialize_block_properties
             \<lparr>block_id = name, block_content = [], block_children = [], block_type = ty,
              position = position_zero\<lparr>index := junk\<rparr>, metadata = [], style_properties = [],
              layout_mode = ''normal'', is_draggable = True, accepts_drops = True, accepted_block_types = [],
              animating = False, animation_type = [], animation_start = 0, animation_duration = 300,
              ai_suggestions_enabled = False, ai_suggestions = []\<rparr>, counter'))"

definition set_metadata :: "string \<Rightarrow> string \<Rightarrow> Block \<Rightarrow> Block" where
  "set_metadata k v b = b\<lparr>metadata := om_assign k v (metadata b)\<rparr>"

definition get_metadata :: "string \<Rightarrow> string \<Rightarrow> Block \<Rightarrow> string" where
  "get_metadata k d b = (case map_of (metadata b) k of Some v \<Rightarrow> v | None \<Rightarrow> d)"

definition set_style_property :: "string \<Rightarrow> string \<Rightarrow> Block \<Rightarrow> Block" where
  "set_style_property k v b = b\<lparr>style_properties := om_assign k v (style_properties b)\<rparr>"

definition get_style_property :: "string \<Rightarrow> string \<Rightarrow> Block \<Rightarrow> string" where
  "get_style_property k d b = (case map_of (style_properties b) k of Some v \<Rightarrow> v | None \<Rightarrow> d)"

definition accepts_block_type :: "BlockType \<Rightarrow> Block \<Rightarrow> bool" where
  "accepts_block_type t b \<longleftrightarrow> accepted_block_types b = [] \<or> t \<in> set (accepted_block_types b)"

definition validate_drop :: "(Block \<Rightarrow> bool) option \<Rightarrow> Block \<Rightarrow> Block \<Rightarrow> bool" where
  "validate_drop validator dragged b \<longleftrightarrow>
     accepts_drops b \<and> accepts_block_type (block_type dragged) b
     \<and> (case validator of Some f \<Rightarrow> f dragged | None \<Rightarrow> True)"

definition start_animation :: "int \<Rightarrow> string \<Rightarrow> int \<Rightarrow> Block \<Rightarrow> Block" where
  "start_animation now ty dur b =
     b\<lparr>animating := True, animation_type := ty, animation_start := now, animation_duration := dur\<rparr>"

definition elapsed_ms :: "int \<Rightarrow> Block \<Rightarrow> int" where
  "elapsed_ms now b = (now - animation_start b) div 1000000"

definition is_animating :: "int \<Rightarrow> Block \<Rightarrow> bool" where
  "is_animating now b \<longleftrightarrow> animating b \<and> elapsed_ms now b < animation_duration b"

text \<open>A quotient by zero is infinite or not a number, and \<open>std::min\<close> then gives 1.\<close>

definition get_animation_progress :: "int \<Rightarrow> Block \<Rightarrow> real" where
  "get_animation_progress now b =
     (if \<not> animating b \<or> animation_duration b = 0 then 1
      else min 1 (real_of_int (elapsed_ms now b) / real_of_int (animation_duration b)))"

definition enable_ai_suggestions :: "bool \<Rightarrow> Block \<Rightarrow> Block" where
  "enable_ai_suggestions v b = b\<lparr>ai_suggestions_enabled := v\<rparr>"

definition add_ai_suggestion :: "string \<Rightarrow> Block \<Rightarrow> Block" where
  "add_ai_suggestion s b = (if ai_suggestions_enabled b then b\<lparr>ai_suggestions := ai_suggestions b @ [s]\<rparr> else b)"

subsection \<open>Renderings\<close>

fun block_type_to_string :: "BlockType \<Rightarrow> string" where
  "block_type_to_string PARAGRAPH_BLOCK = ''paragraph''"
| "block_type_to_string HEADING_BLOCK = ''heading''"
| "block_type_to_string LIST_BLOCK = ''list''"
| "block_type_to_string QUOTE_BLOCK = ''quote''"
| "block_type_to_string CODE_BLOCK = ''code''"
| "block_type_to_string IMAGE_BLOCK = ''image''"
| "block_type_to_string VIDEO_BLOCK = ''video''"
| "block_type_to_string AUDIO_BLOCK = ''audio''"
| "block_type_to_string EMBED_BLOCK = ''embed''"
| "block_type_to_string GALLERY_BLOCK = ''gallery''"
| "block_type_to_string CONTAINER_BLOCK = ''container''"
| "block_type_to_string COLUMNS_BLOCK = ''columns''"
| "block_type_to_string ROW_BLOCK = ''row''"
| "block_type_to_string GRID_BLOCK = ''grid''"
| "block_type_to_string SPACER_BLOCK = ''spacer''"
| "block_type_to_string BUTTON_BLOCK = ''button''"
| "block_type_to_string FORM_BLOCK = ''form''"
| "block_type_to_string TABLE_BLOCK = ''table''"
| "block_type_to_string CHART_BLOCK = ''chart''"
| "block_type_to_string MAP_BLOCK = ''map''"
| "block_type_to_string AI_COMPLETION_BLOCK = ''ai_completion''"
| "block_type_to_string AI_SUGGESTION_BLOCK = ''ai_suggestion''"
| "block_type_to_string AI_TRANSLATION_BLOCK = ''ai_translation''"
| "block_type_to_string GCODE_BLOCK = ''gcode''"
| "block_type_to_string ZCODE_BLOCK = ''zcode''"
| "block_type_to_string BAMBU_BLOCK = ''bambu''"
| "block_type_to_string CUSTOM_BLOCK = ''custom''"

definition quoted_line :: "string \<Rightarrow> string \<Rightarrow> string" where
  "quoted_line k v = '' '' @ k @ '': \"'' @ v @ ''\"'' @ [nl]"

text \<open>\<open>child\<close> renders a child.\<close>

definition block_lamia :: "(string \<Rightarrow> string) \<Rightarrow> Block \<Rightarrow> string" where
  "block_lamia child b =
     ''create BLOCK {'' @ [nl] @ quoted_line ''id'' (block_id b)
     @ quoted_line ''type'' (block_type_to_string (block_type b)) @ quoted_line ''content'' (block_content b)
     @ quoted_line ''position'' (position_to_string (position b))
     @ (if is_draggable b then '' draggable: true'' @ [nl] else [])
     @ (if accepts_drops b then '' accepts_drops: true'' @ [nl] else [])
     @ (if style_properties b \<noteq> []
        then '' style: {'' @ [nl] @ concat (map (\<lambda>(k, v). quoted_line k v) (style_properties b)) @ '' }'' @ [nl] else [])
     @ (if metadata b \<noteq> []
        then '' metadata: {'' @ [nl] @ concat (map (\<lambda>(k, v). quoted_line k v) (metadata b)) @ '' }'' @ [nl] else [])
     @ (if ai_suggestions_enabled b \<and> ai_suggestions b \<noteq> []
        then '' ai_suggestions: ['' @ [nl] @ concat (map (\<lambda>s. '' \"'' @ s @ ''\"'' @ [nl]) (ai_suggestions b)) @ '' ]'' @ [nl]
        else [])
     @ (if block_children b \<noteq> []
        then '' children: ['' @ [nl] @ concat (map (indent \<circ> child) (block_children b)) @ '' ]'' @ [nl] else [])
     @ ''}''"

definition render_block_specific_content :: "Block \<Rightarrow> string" where
  "render_block_specific_content b =
     (case block_type b of
        PARAGRAPH_BLOCK \<Rightarrow> ''<p>'' @ block_content b @ ''</p>''
      | HEADING_BLOCK \<Rightarrow> ''<h2>'' @ block_content b @ ''</h2>''
      | CODE_BLOCK \<Rightarrow> ''<pre><code>'' @ block_content b @ ''</code></pre>''
      | QUOTE_BLOCK \<Rightarrow> ''<blockquote>'' @ block_content b @ ''</blockquote>''
      | _ \<Rightarrow> ''<div>'' @ block_content b @ ''</div>'')"

text \<open>The header's buttons; the labels are the UTF-8 bytes of their symbols.\<close>

definition block_header :: string where
  "block_header =
     ''<div class=\"block-header\"> <div class=\"block-controls\">''
     @ '' <button class=\"block-drag-handle\" title=\"Drag to move\">''
     @ [CHR 0xE2, CHR 0x8B, CHR 0xAE, CHR 0xE2, CHR 0x8B, CHR 0xAE] @ ''</button>''
     @ '' <button class=\"block-settings\" title=\"Block settings\">'' @ [CHR 0xE2, CHR 0x9A, CHR 0x99] @ ''</button>''
     @ '' <button class=\"block-delete\" title=\"Delete block\">'' @ [CHR 0xC3, CHR 0x97] @ ''</button>''
     @ '' </div></div>''"

definition block_html :: "(real \<Rightarrow> string) \<Rightarrow> int \<Rightarrow> (string \<Rightarrow> string) \<Rightarrow> Block \<Rightarrow> string" where
  "block_html num now child b =
     ''<div class=\"lamia-block\" id=\"'' @ block_id b @ ''\" data-block-type=\"'' @ block_type_to_string (block_type b)
     @ ''\" data-position=\"'' @ position_to_string (position b) @ ''\"''
     @ (if is_draggable b then '' draggable=\"true\" data-draggable=\"true\"'' else [])
     @ (if accepts_drops b then '' data-accepts-drops=\"true\"'' else [])
     @ (if is_animating now b
        then '' data-animating=\"true\" data-animation-type=\"'' @ animation_type b
          @ ''\" data-animation-progress=\"'' @ num (get_animation_progress now b) @ ''\"'' else [])
     @ (if style_properties b \<noteq> []
        then '' style=\"'' @ concat (map (\<lambda>(k, v). k @ '': '' @ v @ ''; '') (style_properties b)) @ ''\"'' else [])
     @ ''>'' @ block_header
     @ ''<div class=\"block-content\">'' @ render_block_specific_content b @ ''</div>''
     @ (if block_children b \<noteq> []
        then ''<div class=\"block-children\">'' @ concat (map child (block_children b)) @ ''</div>'' else [])
     @ (if ai_suggestions_enabled b \<and> ai_suggestions b \<noteq> []
        then ''<div class=\"ai-suggestions-overlay\">''
          @ concat (map (\<lambda>s. ''<div class=\"ai-suggestion\">'' @ s @ ''</div>'') (ai_suggestions b)) @ ''</div>'' else [])
     @ ''</div>''"

section \<open>Drag and drop manager\<close>

record DragState =
  is_dragging :: bool
  dragged_block_id :: string
  dragged_block_type :: BlockType
  operation_type :: DragOperationType
  start_position :: BlockPosition
  current_position :: BlockPosition
  ai_drag_enabled :: bool
  ai_suggested_positions :: "string list"

record DropZone =
  zone_id :: string
  target_block_id :: string
  zone_type :: DropZoneType
  zone_valid :: bool
  is_highlighted :: bool
  zx :: real
  zy :: real
  zwidth :: real
  zheight :: real

datatype drag_call =
    Drag_started string BlockPosition
  | Drag_updated string BlockPosition
  | Drag_ended string string DropZoneType
  | Drag_cancelled

record DragDropManager =
  current_drag_state :: DragState
  active_drop_zones :: "DropZone list"
  current_drop_zone_id :: string
  drag_calls :: "drag_call list"

definition DragState_new :: DragState where
  "DragState_new = \<lparr>is_dragging = False, dragged_block_id = [], dragged_block_type = PARAGRAPH_BLOCK,
     operation_type = D_MOVE, start_position = position_zero, current_position = position_zero,
     ai_drag_enabled = False, ai_suggested_positions = []\<rparr>"

definition DragDropManager_new :: DragDropManager where
  "DragDropManager_new =
     \<lparr>current_drag_state = DragState_new, active_drop_zones = [], current_drop_zone_id = [], drag_calls = []\<rparr>"

definition start_drag ::
  "(string \<Rightarrow> BlockType \<Rightarrow> string list) option \<Rightarrow> string \<Rightarrow> BlockType \<Rightarrow> BlockPosition \<Rightarrow> DragOperationType
   \<Rightarrow> DragDropManager \<Rightarrow> bool \<times> DragDropManager" where
  "start_drag suggest i ty p oper m =
     (if is_dragging (current_drag_state m) then (False, m)
      else
        let s = (current_drag_state m)\<lparr>is_dragging := True, dragged_block_id := i, dragged_block_type := ty,
                  operation_type := oper, start_position := p, current_position := p\<rparr>;
            s' = (case suggest of
                    Some f \<Rightarrow> if ai_drag_enabled s then s\<lparr>ai_suggested_positions := f i ty\<rparr> else s
                  | None \<Rightarrow> s)
        in (True, m\<lparr>current_drag_state := s', drag_calls := drag_calls m @ [Drag_started i p]\<rparr>))"

definition reset_drag_state :: "DragDropManager \<Rightarrow> DragDropManager" where
  "reset_drag_state m = m\<lparr>current_drag_state := DragState_new, current_drop_zone_id := [], active_drop_zones := []\<rparr>"

definition zone_distance :: "BlockPosition \<Rightarrow> DropZone \<Rightarrow> real" where
  "zone_distance p z =
     (let dx = px p - (zx z + zwidth z / 2); dy = py p - (zy z + zheight z / 2) in sqrt (dx * dx + dy * dy))"

definition zone_contains :: "BlockPosition \<Rightarrow> DropZone \<Rightarrow> bool" where
  "zone_contains p z \<longleftrightarrow> zx z \<le> px p \<and> px p \<le> zx z + zwidth z \<and> zy z \<le> py p \<and> py p \<le> zy z + zheight z"

text \<open>The loop over the zones. \<open>best\<close> is \<open>best_distance\<close>, None for its initial value, the largest
  \<open>double\<close>, which no distance reaches.\<close>

fun scan_zones ::
  "BlockPosition \<Rightarrow> real option \<Rightarrow> string \<Rightarrow> DropZone list \<Rightarrow> string \<times> DropZone list" where
  "scan_zones p best cur [] = (cur, [])"
| "scan_zones p best cur (z # zs) =
     (let d = zone_distance p z;
          better = zone_contains p z \<and> (case best of None \<Rightarrow> True | Some x \<Rightarrow> d < x);
          best' = (if better then Some d else best);
          cur' = (if better then zone_id z else cur)
      in case scan_zones p best' cur' zs of
           (c, zs') \<Rightarrow> (c, z\<lparr>is_highlighted := (zone_id z = cur')\<rparr> # zs'))"

definition update_current_drop_zone :: "BlockPosition \<Rightarrow> DragDropManager \<Rightarrow> DragDropManager" where
  "update_current_drop_zone p m =
     (case scan_zones p None [] (active_drop_zones m) of
        (c, zs) \<Rightarrow> m\<lparr>current_drop_zone_id := c, active_drop_zones := zs\<rparr>)"

definition update_drag :: "BlockPosition \<Rightarrow> DragDropManager \<Rightarrow> DragDropManager" where
  "update_drag p m =
     (if \<not> is_dragging (current_drag_state m) then m
      else
        let m' = update_current_drop_zone p (m\<lparr>current_drag_state := (current_drag_state m)\<lparr>current_position := p\<rparr>\<rparr>)
        in m'\<lparr>drag_calls := drag_calls m' @ [Drag_updated (dragged_block_id (current_drag_state m')) p]\<rparr>)"

definition find_drop_zone :: "string \<Rightarrow> DragDropManager \<Rightarrow> DropZone option" where
  "find_drop_zone i m = List.find (\<lambda>z. zone_id z = i) (active_drop_zones m)"

text \<open>\<open>end_drag\<close> returns whether the drop succeeded; the arguments of the drag end callback, when
  it is called, are the last entry of the log.\<close>

definition end_drag :: "DragDropManager \<Rightarrow> bool \<times> DragDropManager" where
  "end_drag m =
     (if \<not> is_dragging (current_drag_state m) then (False, m)
      else
        case (if current_drop_zone_id m = [] then None else find_drop_zone (current_drop_zone_id m) m) of
          Some z \<Rightarrow>
            if zone_valid z
            then (True, reset_drag_state (m\<lparr>drag_calls := drag_calls m @
                    [Drag_ended (dragged_block_id (current_drag_state m)) (target_block_id z) (zone_type z)]\<rparr>))
            else (False, reset_drag_state m)
        | None \<Rightarrow> (False, reset_drag_state m))"

definition cancel_drag :: "DragDropManager \<Rightarrow> DragDropManager" where
  "cancel_drag m =
     (if \<not> is_dragging (current_drag_state m) then m
      else reset_drag_state (m\<lparr>drag_calls := drag_calls m @ [Drag_cancelled]\<rparr>))"

definition add_drop_zone :: "DropZone \<Rightarrow> DragDropManager \<Rightarrow> DragDropManager" where
  "add_drop_zone z m = m\<lparr>active_drop_zones := active_drop_zones m @ [z]\<rparr>"

definition remove_drop_zone :: "string \<Rightarrow> DragDropManager \<Rightarrow> DragDropManager" where
  "remove_drop_zone i m = m\<lparr>active_drop_zones := filter (\<lambda>z. zone_id z \<noteq> i) (active_drop_zones m)\<rparr>"

definition clear_drop_zones :: "DragDropManager \<Rightarrow> DragDropManager" where
  "clear_drop_zones m = m\<lparr>active_drop_zones := []\<rparr>"

definition enable_drag_suggestions :: "bool \<Rightarrow> DragDropManager \<Rightarrow> DragDropManager" where
  "enable_drag_suggestions v m = m\<lparr>current_drag_state := (current_drag_state m)\<lparr>ai_drag_enabled := v\<rparr>\<rparr>"

section \<open>The nearest zone\<close>

text \<open>\<open>nearest p z zs\<close>: the zone \<open>z\<close> of \<open>zs\<close> contains \<open>p\<close>, and no other one that does has its centre
  closer.\<close>

definition nearest :: "BlockPosition \<Rightarrow> DropZone \<Rightarrow> DropZone list \<Rightarrow> bool" where
  "nearest p z zs \<longleftrightarrow> z \<in> set zs \<and> zone_contains p z
     \<and> (\<forall>w \<in> set zs. zone_contains p w \<longrightarrow> zone_distance p z \<le> zone_distance p w)"

lemma scan_zones_from:
  "fst (scan_zones p (Some x) cur zs) = cur \<and> (\<forall>w \<in> set zs. zone_contains p w \<longrightarrow> x \<le> zone_distance p w)
   \<or> (\<exists>z. nearest p z zs \<and> zone_distance p z < x \<and> fst (scan_zones p (Some x) cur zs) = zone_id z)"
proof (induction zs arbitrary: x cur)
  case Nil
  then show ?case by simp
next
  case (Cons z zs)
  show ?case
  proof (cases "zone_contains p z \<and> zone_distance p z < x")
    case True
    from Cons.IH [of "zone_distance p z" "zone_id z"] show ?thesis
    proof
      assume "fst (scan_zones p (Some (zone_distance p z)) (zone_id z) zs) = zone_id z
        \<and> (\<forall>w\<in>set zs. zone_contains p w \<longrightarrow> zone_distance p z \<le> zone_distance p w)"
      then show ?thesis using True
        by (intro disjI2 exI [of _ z]) (simp add: nearest_def Let_def split_beta)
    next
      assume "\<exists>y. nearest p y zs \<and> zone_distance p y < zone_distance p z
        \<and> fst (scan_zones p (Some (zone_distance p z)) (zone_id z) zs) = zone_id y"
      then obtain y where "nearest p y zs" "zone_distance p y < zone_distance p z"
          "fst (scan_zones p (Some (zone_distance p z)) (zone_id z) zs) = zone_id y" by blast
      then show ?thesis using True
        by (intro disjI2 exI [of _ y]) (simp add: nearest_def Let_def split_beta)
    qed
  next
    case False
    from Cons.IH [of x cur] show ?thesis
    proof
      assume "fst (scan_zones p (Some x) cur zs) = cur
        \<and> (\<forall>w\<in>set zs. zone_contains p w \<longrightarrow> x \<le> zone_distance p w)"
      then show ?thesis using False
        by (intro disjI1) (auto simp add: Let_def split_beta)
    next
      assume "\<exists>y. nearest p y zs \<and> zone_distance p y < x \<and> fst (scan_zones p (Some x) cur zs) = zone_id y"
      then obtain y where "nearest p y zs" "zone_distance p y < x"
          "fst (scan_zones p (Some x) cur zs) = zone_id y" by blast
      then show ?thesis using False
        by (intro disjI2 exI [of _ y]) (auto simp add: nearest_def Let_def split_beta)
    qed
  qed
qed

lemma scan_zones_nearest:
  assumes "z \<in> set zs" "zone_contains p z"
  shows "\<exists>y. nearest p y zs \<and> fst (scan_zones p None cur zs) = zone_id y"
  using assms
proof (induction zs arbitrary: cur)
  case Nil
  then show ?case by simp
next
  case (Cons w zs)
  show ?case
  proof (cases "zone_contains p w")
    case True
    from scan_zones_from [of p "zone_distance p w" "zone_id w" zs] show ?thesis
    proof
      assume "fst (scan_zones p (Some (zone_distance p w)) (zone_id w) zs) = zone_id w
        \<and> (\<forall>v\<in>set zs. zone_contains p v \<longrightarrow> zone_distance p w \<le> zone_distance p v)"
      then show ?thesis using True
        by (intro exI [of _ w]) (simp add: nearest_def Let_def split_beta)
    next
      assume "\<exists>y. nearest p y zs \<and> zone_distance p y < zone_distance p w
        \<and> fst (scan_zones p (Some (zone_distance p w)) (zone_id w) zs) = zone_id y"
      then obtain y where "nearest p y zs" "zone_distance p y < zone_distance p w"
          "fst (scan_zones p (Some (zone_distance p w)) (zone_id w) zs) = zone_id y" by blast
      then show ?thesis using True
        by (intro exI [of _ y]) (simp add: nearest_def Let_def split_beta)
    qed
  next
    case False
    with Cons obtain y where "nearest p y zs" "fst (scan_zones p None cur zs) = zone_id y"
      by (metis set_ConsD)
    then show ?thesis using False
      by (intro exI [of _ y]) (auto simp add: nearest_def Let_def split_beta)
  qed
qed

lemma scan_zones_none:
  "\<forall>z \<in> set zs. \<not> zone_contains p z \<Longrightarrow> fst (scan_zones p best cur zs) = cur"
  by (induction zs arbitrary: best cur) (simp_all add: Let_def split_beta)

lemma scan_zones_keeps:
  "map (\<lambda>z. z\<lparr>is_highlighted := False\<rparr>) (snd (scan_zones p best cur zs)) = map (\<lambda>z. z\<lparr>is_highlighted := False\<rparr>) zs"
  by (induction zs arbitrary: best cur) (simp_all add: Let_def split_beta)

lemma find_same_up_to_highlight:
  assumes "map (\<lambda>z. z\<lparr>is_highlighted := False\<rparr>) zs = map (\<lambda>z. z\<lparr>is_highlighted := False\<rparr>) ws"
  shows "map_option (\<lambda>z. z\<lparr>is_highlighted := False\<rparr>) (List.find (\<lambda>z. zone_id z = i) zs)
    = map_option (\<lambda>z. z\<lparr>is_highlighted := False\<rparr>) (List.find (\<lambda>z. zone_id z = i) ws)"
  using assms
proof (induction zs arbitrary: ws)
  case Nil
  then show ?case by simp
next
  case (Cons z zs)
  then obtain w ws' where w: "ws = w # ws'" "z\<lparr>is_highlighted := False\<rparr> = w\<lparr>is_highlighted := False\<rparr>"
      "map (\<lambda>z. z\<lparr>is_highlighted := False\<rparr>) zs = map (\<lambda>z. z\<lparr>is_highlighted := False\<rparr>) ws'" by (cases ws) auto
  from w(2) have "zone_id z = zone_id w"
    by (metis DropZone.select_convs(1) DropZone.surjective DropZone.update_convs(5))
  with w Cons.IH [of ws'] show ?case by auto
qed

lemma find_by_distinct_id:
  "distinct (map zone_id zs) \<Longrightarrow> z \<in> set zs \<Longrightarrow> List.find (\<lambda>w. zone_id w = zone_id z) zs = Some z"
  by (induction zs) (auto simp: image_iff)

text \<open>Ending a drag at a point inside some drop zone hands the drop to a zone that contains the
  point and whose centre is nearest to it: the drop succeeds exactly when that zone is valid, and
  then the editor is called with the dragged block and that zone's target and type. Afterwards the
  manager is idle, with no zones.\<close>

theorem drop_reaches_nearest_zone:
  assumes "is_dragging (current_drag_state m)"
    and "distinct (map zone_id (active_drop_zones m))" "[] \<notin> zone_id ` set (active_drop_zones m)"
    and "w \<in> set (active_drop_zones m)" "zone_contains p w"
  shows "\<exists>z m'. nearest p z (active_drop_zones m) \<and> end_drag (update_drag p m) = (zone_valid z, m')
    \<and> drag_calls m' = drag_calls m @ [Drag_updated (dragged_block_id (current_drag_state m)) p]
        @ (if zone_valid z
           then [Drag_ended (dragged_block_id (current_drag_state m)) (target_block_id z) (zone_type z)] else [])
    \<and> current_drag_state m' = DragState_new \<and> active_drop_zones m' = [] \<and> current_drop_zone_id m' = []"
proof -
  let ?zs = "active_drop_zones m" and ?r = "scan_zones p None [] (active_drop_zones m)"
  obtain z where z: "nearest p z ?zs" "fst ?r = zone_id z"
    using scan_zones_nearest [OF assms(4,5)] by blast
  then have "z \<in> set ?zs" by (simp add: nearest_def)
  then have "zone_id z \<noteq> []" and "List.find (\<lambda>w. zone_id w = zone_id z) ?zs = Some z"
    using assms(2,3) find_by_distinct_id by (metis image_eqI, blast)
  then obtain y where y: "List.find (\<lambda>w. zone_id w = zone_id z) (snd ?r) = Some y"
      "y\<lparr>is_highlighted := False\<rparr> = z\<lparr>is_highlighted := False\<rparr>"
    using find_same_up_to_highlight [OF scan_zones_keeps, of "zone_id z" p None "[]" ?zs] by auto
  then have "zone_valid y = zone_valid z" "target_block_id y = target_block_id z" "zone_type y = zone_type z"
    by (metis DropZone.select_convs DropZone.surjective DropZone.update_convs(5))+
  then show ?thesis
    using z y(1) assms(1) \<open>zone_id z \<noteq> []\<close>
    by (intro exI [of _ z])
      (simp add: update_drag_def update_current_drop_zone_def end_drag_def find_drop_zone_def
        reset_drag_state_def Let_def split_beta)
qed

definition sample_zone :: DropZone where
  "sample_zone = \<lparr>zone_id = ''z'', target_block_id = ''b'', zone_type = Z_AFTER, zone_valid = True,
     is_highlighted = False, zx = 0, zy = 0, zwidth = 4, zheight = 4\<rparr>"

definition sample_drag :: DragDropManager where
  "sample_drag = snd (start_drag None ''a'' PARAGRAPH_BLOCK position_zero D_MOVE
     (add_drop_zone sample_zone DragDropManager_new))"

lemma drop_reaches_nearest_zone_witness:
  "drag_calls (snd (end_drag (update_drag position_zero sample_drag))) =
     [Drag_started ''a'' position_zero, Drag_updated ''a'' position_zero, Drag_ended ''a'' ''b'' Z_AFTER]"
proof -
  have *: "is_dragging (current_drag_state sample_drag)" "active_drop_zones sample_drag = [sample_zone]"
      "drag_calls sample_drag = [Drag_started ''a'' position_zero]"
      "dragged_block_id (current_drag_state sample_drag) = ''a''"
    by (simp_all add: sample_drag_def start_drag_def add_drop_zone_def DragDropManager_new_def DragState_new_def Let_def)
  have "zone_contains position_zero sample_zone" "zone_id sample_zone = ''z''"
    by (simp_all add: zone_contains_def sample_zone_def position_zero_def)
  then obtain z m' where "z \<in> set (active_drop_zones sample_drag)"
    and r: "end_drag (update_drag position_zero sample_drag) = (zone_valid z, m')"
      "drag_calls m' = drag_calls sample_drag @ [Drag_updated (dragged_block_id (current_drag_state sample_drag)) position_zero]
        @ (if zone_valid z
           then [Drag_ended (dragged_block_id (current_drag_state sample_drag)) (target_block_id z) (zone_type z)] else [])"
    using drop_reaches_nearest_zone [of sample_drag sample_zone position_zero] * by (auto simp: nearest_def)
  then have "z = sample_zone" using * by simp
  then show ?thesis using r * by (simp add: sample_zone_def)
qed

text \<open>The highlight of a zone is set before the later zones are compared, so a pass can leave two zones
  highlighted, of which only the later one is current. A drag also switches the suggestions off
  for the next one.\<close>

lemma passed_zone_stays_highlighted:
  assumes "zone_contains p a" "zone_contains p b" "zone_distance p b < zone_distance p a" "zone_id a \<noteq> zone_id b"
  shows "fst (scan_zones p None [] [a, b]) = zone_id b"
    and "map is_highlighted (snd (scan_zones p None [] [a, b])) = [True, True]"
  using assms by (simp_all add: Let_def)

lemma drag_switches_suggestions_off:
  "is_dragging (current_drag_state m) \<Longrightarrow> \<not> ai_drag_enabled (current_drag_state (snd (end_drag m)))"
  by (auto simp: end_drag_def reset_drag_state_def DragState_new_def split: option.splits)

end
