(* ===== verification/Block_Editor.thy ===== *)
theory Block_Editor
  imports Block_Model
begin

text \<open>
  The class \<open>BlockEditor\<close> of \<open>lamia_block_editor.hpp\<close>. A \<open>shared_ptr<Block>\<close> is the address of
  the block in \<open>heap\<close>, so the list, the registry and the client share the block, as in the code; a
  null pointer is None. \<open>notices\<close> logs the calls of the callbacks. Dropping a block inside another
  one calls \<open>add_child\<close>, which is undefined behaviour.
\<close>

section \<open>State and operations\<close>

datatype notice = Block_added string | Block_removed string

record BlockEditor =
  blocks :: "nat list"
  heap :: "nat \<Rightarrow> Block"
  selection :: BlockSelection
  drag_drop_manager :: DragDropManager
  block_registry :: "(string, nat) omap"
  focus_block_id :: string
  edit_mode :: bool
  read_only :: bool
  notices :: "notice list"

definition id_of :: "BlockEditor \<Rightarrow> nat \<Rightarrow> string" where
  "id_of e a = block_id (heap e a)"

definition BlockEditor_new :: "(nat \<Rightarrow> Block) \<Rightarrow> BlockEditor" where
  "BlockEditor_new h = \<lparr>blocks = [], heap = h, selection = BlockSelection_new,
     drag_drop_manager = DragDropManager_new, block_registry = [], focus_block_id = [], edit_mode = True,
     read_only = False, notices = []\<rparr>"

definition place_block :: "nat \<times> nat \<Rightarrow> (nat \<Rightarrow> Block) \<Rightarrow> nat \<Rightarrow> Block" where
  "place_block ia h = h(snd ia := (h (snd ia))\<lparr>position := root_position (fst ia)\<rparr>)"

definition update_block_positions :: "BlockEditor \<Rightarrow> BlockEditor" where
  "update_block_positions e = e\<lparr>heap := fold place_block (enumerate 0 (blocks e)) (heap e)\<rparr>"

definition add_block :: "nat option \<Rightarrow> nat \<Rightarrow> BlockEditor \<Rightarrow> BlockEditor outcome" where
  "add_block block pos e =
     (case block of
        None \<Rightarrow> Undefined ''null block''
      | Some a \<Rightarrow>
          let bs = (if length (blocks e) \<le> pos then blocks e @ [a] else insert_at pos a (blocks e));
              e' = update_block_positions (e\<lparr>blocks := bs, block_registry := om_assign (id_of e a) a (block_registry e)\<rparr>)
          in Returns (e'\<lparr>notices := notices e' @ [Block_added (id_of e a)]\<rparr>))"

definition find_block :: "string \<Rightarrow> BlockEditor \<Rightarrow> nat option" where
  "find_block i e = find_index (\<lambda>a. id_of e a = i) (blocks e)"

definition remove_block :: "string \<Rightarrow> BlockEditor \<Rightarrow> bool \<times> BlockEditor" where
  "remove_block i e =
     (case find_block i e of
        None \<Rightarrow> (False, e)
      | Some k \<Rightarrow>
          let e' = update_block_positions (e\<lparr>blocks := remove_at k (blocks e),
                     block_registry := um_erase i (block_registry e), selection := toggle_block i (selection e)\<rparr>)
          in (True, e'\<lparr>notices := notices e' @ [Block_removed i]\<rparr>))"

definition move_block :: "string \<Rightarrow> nat \<Rightarrow> BlockEditor \<Rightarrow> bool \<times> BlockEditor" where
  "move_block i new e =
     (case find_block i e of
        None \<Rightarrow> (False, e)
      | Some k \<Rightarrow>
          if new < length (blocks e)
          then (True, update_block_positions (e\<lparr>blocks := insert_at new (blocks e ! k) (remove_at k (blocks e))\<rparr>))
          else (False, e))"

definition get_block :: "string \<Rightarrow> BlockEditor \<Rightarrow> nat option" where
  "get_block i e = map_of (block_registry e) i"

definition set_focus_block :: "string \<Rightarrow> BlockEditor \<Rightarrow> BlockEditor" where
  "set_focus_block i e = e\<lparr>focus_block_id := i\<rparr>"

definition navigate_blocks :: "int \<Rightarrow> BlockEditor \<Rightarrow> BlockEditor" where
  "navigate_blocks direction e =
     (if focus_block_id e = [] \<or> blocks e = [] then e
      else case find_block (focus_block_id e) e of
          None \<Rightarrow> e
        | Some cur \<Rightarrow>
            let new = (if direction > 0 \<and> cur < length (blocks e) - 1 then cur + 1
                       else if direction < 0 \<and> cur > 0 then cur - 1 else cur)
            in if new \<noteq> cur \<and> new < length (blocks e)
               then let i = id_of e (blocks e ! new)
                    in e\<lparr>focus_block_id := i, selection := select_block i False (selection e)\<rparr>
               else e)"

definition select_all :: "BlockEditor \<Rightarrow> BlockEditor" where
  "select_all e = e\<lparr>selection := fold (\<lambda>a s. select_block (id_of e a) True s) (blocks e) (selection e)\<rparr>"

definition delete_selected :: "BlockEditor \<Rightarrow> BlockEditor" where
  "delete_selected e =
     (let e' = fold (\<lambda>i x. snd (remove_block i x)) (selected_blocks (selection e)) e
      in e'\<lparr>selection := clear_selection (selection e')\<rparr>)"

text \<open>The table of shortcuts: the four of the clipboard and of undo do nothing.\<close>

definition handle_keyboard_shortcut :: "string \<Rightarrow> BlockEditor \<Rightarrow> BlockEditor" where
  "handle_keyboard_shortcut s e =
     (if s = ''Ctrl+A'' then select_all e
      else if s = ''Delete'' then delete_selected e
      else if s = ''ArrowUp'' then navigate_blocks (- 1) e
      else if s = ''ArrowDown'' then navigate_blocks 1 e
      else e)"

definition handle_block_drop :: "string \<Rightarrow> string \<Rightarrow> DropZoneType \<Rightarrow> BlockEditor \<Rightarrow> BlockEditor outcome" where
  "handle_block_drop i t z e =
     (case (get_block i e, get_block t e) of
        (Some b, Some g) \<Rightarrow>
          (case (find_block i e, find_block t e) of
             (Some cur, Some tgt) \<Rightarrow>
               let finish = (\<lambda>new e. Returns (snd (move_block i (if cur < new then new - 1 else new) e)))
               in (case z of
                     Z_BEFORE \<Rightarrow> finish tgt e
                   | Z_AFTER \<Rightarrow> finish (tgt + 1) e
                   | Z_INSIDE \<Rightarrow> Undefined ''the target is destroyed by its temporary shared_ptr''
                   | Z_REPLACE \<Rightarrow> finish tgt (snd (remove_block t e))
                   | _ \<Rightarrow> Returns e)
           | _ \<Rightarrow> Returns e)
      | _ \<Rightarrow> Returns e)"

text \<open>\<open>end_drag\<close> with the callback the constructor installs.\<close>

definition finish_drag :: "BlockEditor \<Rightarrow> (bool \<times> BlockEditor) outcome" where
  "finish_drag e =
     (case end_drag (drag_drop_manager e) of
        (ok, m) \<Rightarrow>
          if ok
          then (case last (drag_calls m) of
                  Drag_ended i t z \<Rightarrow>
                    outcome_bind (handle_block_drop i t z e) (\<lambda>e'. Returns (True, e'\<lparr>drag_drop_manager := m\<rparr>))
                | _ \<Rightarrow> Returns (True, e\<lparr>drag_drop_manager := m\<rparr>))
          else Returns (False, e\<lparr>drag_drop_manager := m\<rparr>))"

definition be_export_lamia :: "(string \<Rightarrow> string) \<Rightarrow> BlockEditor \<Rightarrow> string" where
  "be_export_lamia child e =
     ''create BLOCK_DOCUMENT {'' @ [nl] @ '' blocks: ['' @ [nl]
     @ concat (map (\<lambda>a. indent (block_lamia child (heap e a))) (blocks e)) @ '' ]'' @ [nl] @ ''}''"

definition be_export_html :: "(real \<Rightarrow> string) \<Rightarrow> int \<Rightarrow> (string \<Rightarrow> string) \<Rightarrow> BlockEditor \<Rightarrow> string" where
  "be_export_html num now child e =
     ''<div class=\"lamia-block-editor\">'' @ [nl]
     @ concat (map (\<lambda>a. '' '' @ block_html num now child (heap e a) @ [nl]) (blocks e)) @ ''</div>''"

section \<open>The list of ids\<close>

definition ids :: "BlockEditor \<Rightarrow> string list" where
  "ids e = map (id_of e) (blocks e)"

lemma place_block_id [simp]: "block_id (fold place_block ps h a) = block_id (h a)"
  by (induction ps arbitrary: h) (auto simp: place_block_def)

lemma place_block_other: "a \<notin> snd ` set ps \<Longrightarrow> fold place_block ps h a = h a"
  by (induction ps arbitrary: h) (auto simp: place_block_def)

lemma place_blocks:
  "distinct (map snd ps) \<Longrightarrow> (i, a) \<in> set ps \<Longrightarrow> position (fold place_block ps h a) = root_position i"
proof (induction ps arbitrary: h)
  case (Cons q ps)
  show ?case
  proof (cases "q = (i, a)")
    case True
    then have "a \<notin> snd ` set ps" using Cons.prems by auto
    then show ?thesis using True by (simp add: place_block_other) (simp add: place_block_def)
  next
    case False
    then show ?thesis using Cons by simp
  qed
qed simp

lemma update_block_positions_simps [simp]:
  "blocks (update_block_positions e) = blocks e" "selection (update_block_positions e) = selection e"
  "block_registry (update_block_positions e) = block_registry e"
  "drag_drop_manager (update_block_positions e) = drag_drop_manager e"
  "focus_block_id (update_block_positions e) = focus_block_id e"
  "id_of (update_block_positions e) = id_of e"
  by (simp_all add: update_block_positions_def id_of_def [abs_def])

text \<open>The invariant: the ids in the list are different, the registry is exactly the map from them to
  the listed blocks, and every listed block knows its place.\<close>

definition editor_inv :: "BlockEditor \<Rightarrow> bool" where
  "editor_inv e \<longleftrightarrow> distinct (ids e) \<and> om_inv (block_registry e)
     \<and> (\<forall>i a. map_of (block_registry e) i = Some a \<longleftrightarrow> a \<in> set (blocks e) \<and> id_of e a = i)
     \<and> (\<forall>k < length (blocks e). position (heap e (blocks e ! k)) = root_position k)"

lemma editor_inv_placed:
  assumes "distinct (map (id_of e) (blocks e))" "om_inv (block_registry e)"
    and "\<forall>i a. map_of (block_registry e) i = Some a \<longleftrightarrow> a \<in> set (blocks e) \<and> id_of e a = i"
  shows "editor_inv (update_block_positions e)"
proof -
  have "distinct (blocks e)" using assms(1) by (simp add: distinct_map)
  then have "position (fold place_block (enumerate 0 (blocks e)) (heap e) (blocks e ! k)) = root_position k"
    if "k < length (blocks e)" for k
    using that by (intro place_blocks) (auto simp: in_set_enumerate_eq)
  with assms show ?thesis
    by (simp add: editor_inv_def ids_def del: One_nat_def)
      (simp add: update_block_positions_def)
qed

lemma editor_inv_fields:
  "editor_inv (e\<lparr>selection := s\<rparr>) = editor_inv e" "editor_inv (e\<lparr>focus_block_id := f\<rparr>) = editor_inv e"
  "editor_inv (e\<lparr>drag_drop_manager := m\<rparr>) = editor_inv e" "editor_inv (e\<lparr>notices := ns\<rparr>) = editor_inv e"
  by (simp_all add: editor_inv_def ids_def id_of_def [abs_def])

lemma find_block_at:
  assumes "editor_inv e" "ids e = xs @ i # ys"
  shows "find_block i e = Some (length xs)"
proof -
  have "find_index (\<lambda>a. f a = i) bs = Some (length xs)"
    if "map f bs = xs @ i # ys" "i \<notin> set xs" for f and bs :: "nat list" and xs
    using that by (induction xs arbitrary: bs) auto
  moreover have "i \<notin> set xs" using assms by (auto simp: editor_inv_def)
  ultimately show ?thesis using assms(2) by (simp add: find_block_def ids_def)
qed

lemma find_block_None_iff: "find_block i e = None \<longleftrightarrow> i \<notin> set (ids e)"
  by (auto simp: find_block_def find_index_None_iff ids_def)

lemma find_block_SomeD:
  assumes "find_block i e = Some k"
  shows "k < length (ids e)" "ids e ! k = i"
  using find_index_SomeD [of _ "blocks e" k] assms by (auto simp: find_block_def ids_def)

lemma get_block_iff: "editor_inv e \<Longrightarrow> get_block i e \<noteq> None \<longleftrightarrow> i \<in> set (ids e)"
  by (auto simp: get_block_def editor_inv_def ids_def)

lemma map_remove_at: "map f (remove_at k xs) = remove_at k (map f xs)"
  by (simp add: remove_at_def take_map drop_map)

lemma map_insert_at: "map f (insert_at k x xs) = insert_at k (f x) (map f xs)"
  by (simp add: insert_at_def take_map drop_map)

lemma set_remove_at_map:
  "k < length xs \<Longrightarrow> distinct (map f xs) \<Longrightarrow> set (remove_at k xs) = {x \<in> set xs. f x \<noteq> f (xs ! k)}"
  by (subst set_remove_at) (auto simp: distinct_map inj_on_def)

section \<open>What the operations do to the list\<close>

lemma remove_at_append [simp]: "remove_at (length xs) (xs @ y # ys) = xs @ ys"
  by (simp add: remove_at_def)

lemma editor_inv_listed:
  "editor_inv e \<Longrightarrow> i \<in> set (ids e) \<Longrightarrow> \<exists>xs ys. ids e = xs @ i # ys \<and> i \<notin> set xs \<and> i \<notin> set ys"
  by (metis editor_inv_def split_list distinct.simps(2) distinct_append not_distinct_conv_prefix)

lemma listed_at:
  assumes "ids e = xs @ i # ys"
  shows "length xs < length (blocks e)" "id_of e (blocks e ! length xs) = i"
proof -
  have "length (blocks e) = length (xs @ i # ys)" using assms by (metis ids_def length_map)
  then show len: "length xs < length (blocks e)" by simp
  show "id_of e (blocks e ! length xs) = i"
    using assms nth_map [OF len, of "id_of e"] by (simp add: ids_def)
qed

lemma remove_block_listed:
  assumes e: "editor_inv e" and i: "ids e = xs @ i # ys"
  shows "fst (remove_block i e)" "ids (snd (remove_block i e)) = xs @ ys" "editor_inv (snd (remove_block i e))"
    "selection (snd (remove_block i e)) = toggle_block i (selection e)"
    "notices (snd (remove_block i e)) = notices (update_block_positions e) @ [Block_removed i]"
proof -
  let ?k = "length xs"
  let ?e = "e\<lparr>blocks := remove_at ?k (blocks e), block_registry := um_erase i (block_registry e),
    selection := toggle_block i (selection e)\<rparr>"
  note f = find_block_at [OF e i]
  note k = listed_at [OF i]
  have d: "distinct (map (id_of e) (blocks e))" using e by (simp add: editor_inv_def ids_def)
  have id: "id_of ?e = id_of e" by (simp add: id_of_def [abs_def])
  have m: "map (id_of e) (remove_at ?k (blocks e)) = xs @ ys" using i by (simp add: map_remove_at ids_def)
  have "editor_inv (update_block_positions ?e)"
  proof (rule editor_inv_placed)
    show "distinct (map (id_of ?e) (blocks ?e))" using d i m by (simp add: id ids_def)
    show "om_inv (block_registry ?e)" using e by (simp add: editor_inv_def om_inv_erase)
    show "\<forall>j a. map_of (block_registry ?e) j = Some a \<longleftrightarrow> a \<in> set (blocks ?e) \<and> id_of ?e a = j"
      using e k d by (simp add: editor_inv_def um_find_erase set_remove_at_map id) blast
  qed
  then show "editor_inv (snd (remove_block i e))"
    using f by (simp add: remove_block_def Let_def editor_inv_fields)
  show "ids (snd (remove_block i e)) = xs @ ys"
    using f m by (simp add: remove_block_def Let_def ids_def id_of_def [abs_def] update_block_positions_def)
  show "fst (remove_block i e)" "selection (snd (remove_block i e)) = toggle_block i (selection e)"
    "notices (snd (remove_block i e)) = notices (update_block_positions e) @ [Block_removed i]"
    using f by (simp_all add: remove_block_def Let_def update_block_positions_def)
qed

lemma remove_block_unlisted: "i \<notin> set (ids e) \<Longrightarrow> remove_block i e = (False, e)"
  using find_block_None_iff [of i e] by (simp add: remove_block_def)

lemma move_block_listed:
  assumes e: "editor_inv e" and i: "ids e = xs @ i # ys" and new: "new \<le> length (xs @ ys)"
  shows "fst (move_block i new e)" "ids (snd (move_block i new e)) = insert_at new i (xs @ ys)"
    "editor_inv (snd (move_block i new e))" "selection (snd (move_block i new e)) = selection e"
proof -
  let ?k = "length xs" let ?b = "blocks e ! length xs"
  let ?e = "e\<lparr>blocks := insert_at new ?b (remove_at ?k (blocks e))\<rparr>"
  note f = find_block_at [OF e i]
  note k = listed_at [OF i]
  have d: "distinct (map (id_of e) (blocks e))" using e by (simp add: editor_inv_def ids_def)
  have id: "id_of ?e = id_of e" by (simp add: id_of_def [abs_def])
  have m: "map (id_of e) (blocks ?e) = insert_at new i (xs @ ys)"
    using i k by (simp add: map_insert_at map_remove_at ids_def)
  have len: "length (blocks e) = Suc (length (xs @ ys))"
    using i by (metis ids_def length_append length_Cons add_Suc_right length_map)
  have s: "set (blocks ?e) = set (blocks e)"
    using k d by (simp add: set_remove_at distinct_map insert_absorb)
  have "editor_inv (update_block_positions ?e)"
  proof (rule editor_inv_placed)
    have "mset (insert_at new i (xs @ ys)) = mset (ids e)" using i by simp
    moreover have "distinct (ids e)" using e by (simp add: editor_inv_def)
    ultimately have "distinct (insert_at new i (xs @ ys))" by (metis mset_eq_imp_distinct_iff)
    then show "distinct (map (id_of ?e) (blocks ?e))" unfolding id m .
    show "om_inv (block_registry ?e)" using e by (simp add: editor_inv_def)
    show "\<forall>j a. map_of (block_registry ?e) j = Some a \<longleftrightarrow> a \<in> set (blocks ?e) \<and> id_of ?e a = j"
      unfolding s id using e by (simp add: editor_inv_def)
  qed
  then show "editor_inv (snd (move_block i new e))" using f new len by (simp add: move_block_def)
  show "ids (snd (move_block i new e)) = insert_at new i (xs @ ys)"
    using f new len m by (simp add: move_block_def ids_def id_of_def [abs_def] update_block_positions_def)
  show "fst (move_block i new e)" "selection (snd (move_block i new e)) = selection e"
    using f new len by (simp_all add: move_block_def)
qed

lemma add_block_new:
  assumes e: "editor_inv e" and new: "id_of e a \<notin> set (ids e)"
  shows "\<exists>e'. add_block (Some a) pos e = Returns e' \<and> editor_inv e'
    \<and> ids e' = insert_at (min pos (length (ids e))) (id_of e a) (ids e)"
proof -
  let ?bs = "if length (blocks e) \<le> pos then blocks e @ [a] else insert_at pos a (blocks e)"
  let ?e = "e\<lparr>blocks := ?bs, block_registry := om_assign (id_of e a) a (block_registry e)\<rparr>"
  have id: "id_of ?e = id_of e" by (simp add: id_of_def [abs_def])
  have bs: "?bs = insert_at (min pos (length (blocks e))) a (blocks e)"
    by (simp add: insert_at_def)
  have m: "map (id_of e) ?bs = insert_at (min pos (length (ids e))) (id_of e a) (ids e)"
    by (simp only: bs map_insert_at) (simp add: ids_def)
  have inv: "editor_inv (update_block_positions ?e)"
  proof (rule editor_inv_placed)
    have "mset (insert_at (min pos (length (ids e))) (id_of e a) (ids e)) = mset (id_of e a # ids e)" by simp
    moreover have "distinct (id_of e a # ids e)" using e new by (simp add: editor_inv_def)
    ultimately show "distinct (map (id_of ?e) (blocks ?e))" unfolding id
      using m by (metis BlockEditor.select_convs(1) BlockEditor.surjective BlockEditor.update_convs(1,5) mset_eq_imp_distinct_iff)
    show "om_inv (block_registry ?e)" using e by (simp add: editor_inv_def om_inv_assign)
    show "\<forall>j b. map_of (block_registry ?e) j = Some b \<longleftrightarrow> b \<in> set (blocks ?e) \<and> id_of ?e b = j"
      using e new unfolding id by (auto simp: editor_inv_def om_find_assign ids_def) (metis image_eqI)
  qed
  show ?thesis
    using inv m by (auto simp: add_block_def Let_def editor_inv_fields ids_def id_of_def [abs_def]
        update_block_positions_def)
qed

section \<open>Drops\<close>

text \<open>What a drop of \<open>i\<close> on \<open>t\<close> promises for the order of the blocks.\<close>

fun drop_spec :: "DropZoneType \<Rightarrow> string \<Rightarrow> string \<Rightarrow> string list \<Rightarrow> string list" where
  "drop_spec Z_BEFORE i t xs =
     (let r = removeAll i xs in takeWhile (\<lambda>j. j \<noteq> t) r @ i # dropWhile (\<lambda>j. j \<noteq> t) r)"
| "drop_spec Z_AFTER i t xs =
     (let r = removeAll i xs in takeWhile (\<lambda>j. j \<noteq> t) r @ t # i # tl (dropWhile (\<lambda>j. j \<noteq> t) r))"
| "drop_spec Z_REPLACE i t xs =
     (let r = removeAll i xs in takeWhile (\<lambda>j. j \<noteq> t) r @ i # tl (dropWhile (\<lambda>j. j \<noteq> t) r))"
| "drop_spec z i t xs = xs"

lemma takeWhile_upto: "t \<notin> set xs \<Longrightarrow> takeWhile (\<lambda>j. j \<noteq> t) (xs @ t # ys) = xs"
  by (induction xs) auto

lemma dropWhile_upto: "t \<notin> set xs \<Longrightarrow> dropWhile (\<lambda>j. j \<noteq> t) (xs @ t # ys) = t # ys"
  by (induction xs) auto

lemmas upto_two = takeWhile_upto [of t "xs @ ys" for t xs ys, simplified]
  dropWhile_upto [of t "xs @ ys" for t xs ys, simplified]

lemma insert_at_append [simp]: "insert_at (length xs) y (xs @ ys) = xs @ y # ys"
  by (simp add: insert_at_def)

lemma insert_at_after [simp]: "insert_at (Suc (length xs)) y (xs @ x # ys) = xs @ x # y # ys"
  by (simp add: insert_at_def)

lemma insert_at_append_right: "length xs \<le> k \<Longrightarrow> insert_at k y (xs @ ys) = xs @ insert_at (k - length xs) y ys"
  by (simp add: insert_at_def)

text \<open>The two shapes of a list with two different ids in it.\<close>

lemma two_listed:
  assumes "editor_inv e" "i \<in> set (ids e)" "t \<in> set (ids e)" "i \<noteq> t"
  obtains (before) xs ys zs where "ids e = xs @ i # ys @ t # zs" "{i, t} \<inter> (set xs \<union> set ys \<union> set zs) = {}"
  | (after) xs ys zs where "ids e = xs @ t # ys @ i # zs" "{i, t} \<inter> (set xs \<union> set ys \<union> set zs) = {}"
proof -
  have d: "distinct (ids e)" using assms(1) by (simp add: editor_inv_def)
  obtain us vs where u: "ids e = us @ i # vs" using assms(2) by (meson split_list)
  then consider "t \<in> set us" | "t \<in> set vs" using assms(3,4) by auto
  then show thesis
  proof cases
    case 1
    then obtain xs ys where "us = xs @ t # ys" by (meson split_list)
    then show ?thesis using after [of xs ys vs] d u by auto
  next
    case 2
    then obtain ys zs where "vs = ys @ t # zs" by (meson split_list)
    then show ?thesis using before [of us ys zs] d u by auto
  qed
qed

lemma drop_listed:
  assumes e: "editor_inv e" and i: "i \<in> set (ids e)" and t: "t \<in> set (ids e)"
    and f: "find_block i e = Some k" "find_block t e = Some l"
  shows "handle_block_drop i t Z_BEFORE e = Returns (snd (move_block i (if k < l then l - 1 else l) e))"
    "handle_block_drop i t Z_AFTER e = Returns (snd (move_block i (if k < l + 1 then l else l + 1) e))"
    "handle_block_drop i t Z_REPLACE e =
      Returns (snd (move_block i (if k < l then l - 1 else l) (snd (remove_block t e))))"
proof -
  obtain a b where "get_block i e = Some a" "get_block t e = Some b"
    using get_block_iff [OF e] i t by (metis option.exhaust)
  with f show "handle_block_drop i t Z_BEFORE e = Returns (snd (move_block i (if k < l then l - 1 else l) e))"
    "handle_block_drop i t Z_AFTER e = Returns (snd (move_block i (if k < l + 1 then l else l + 1) e))"
    "handle_block_drop i t Z_REPLACE e =
      Returns (snd (move_block i (if k < l then l - 1 else l) (snd (remove_block t e))))"
    by (simp_all add: handle_block_drop_def)
qed

lemma drop_before:
  assumes e: "editor_inv e" and it: "i \<in> set (ids e)" "t \<in> set (ids e)" "i \<noteq> t"
  shows "\<exists>e'. handle_block_drop i t Z_BEFORE e = Returns e' \<and> editor_inv e' \<and> ids e' = drop_spec Z_BEFORE i t (ids e)"
  using e it
proof (cases rule: two_listed)
  case (before xs ys zs)
  have f: "find_block i e = Some (length xs)" "find_block t e = Some (Suc (length (xs @ ys)))"
    using find_block_at [OF e, of xs i] find_block_at [OF e, of "xs @ i # ys" t] before by simp_all
  have "insert_at (length (xs @ ys)) i (xs @ ys @ t # zs) = (xs @ ys) @ i # t # zs"
    by (metis append_assoc insert_at_append)
  then show ?thesis
    using drop_listed(1) [OF e it(1,2) f] move_block_listed(2,3) [OF e before(1), of "length (xs @ ys)"] before it(3)
    by (simp add: upto_two Let_def)
next
  case (after xs ys zs)
  have f: "find_block i e = Some (Suc (length (xs @ ys)))" "find_block t e = Some (length xs)"
    using find_block_at [OF e, of xs t] find_block_at [OF e, of "xs @ t # ys" i] after by simp_all
  show ?thesis
    using drop_listed(1) [OF e it(1,2) f] move_block_listed(2,3) [OF e, of "xs @ t # ys" i zs "length xs"] after it(3)
    by (simp add: takeWhile_upto dropWhile_upto Let_def)
qed

lemma drop_after:
  assumes e: "editor_inv e" and it: "i \<in> set (ids e)" "t \<in> set (ids e)" "i \<noteq> t"
  shows "\<exists>e'. handle_block_drop i t Z_AFTER e = Returns e' \<and> editor_inv e' \<and> ids e' = drop_spec Z_AFTER i t (ids e)"
  using e it
proof (cases rule: two_listed)
  case (before xs ys zs)
  have f: "find_block i e = Some (length xs)" "find_block t e = Some (Suc (length (xs @ ys)))"
    using find_block_at [OF e, of xs i] find_block_at [OF e, of "xs @ i # ys" t] before by simp_all
  have "insert_at (Suc (length (xs @ ys))) i (xs @ ys @ t # zs) = (xs @ ys) @ t # i # zs"
    by (metis append_assoc insert_at_after)
  then show ?thesis
    using drop_listed(2) [OF e it(1,2) f] move_block_listed(2,3) [OF e before(1), of "Suc (length (xs @ ys))"] before it(3)
    by (simp add: upto_two Let_def)
next
  case (after xs ys zs)
  have f: "find_block i e = Some (Suc (length (xs @ ys)))" "find_block t e = Some (length xs)"
    using find_block_at [OF e, of xs t] find_block_at [OF e, of "xs @ t # ys" i] after by simp_all
  show ?thesis
    using drop_listed(2) [OF e it(1,2) f] move_block_listed(2,3) [OF e, of "xs @ t # ys" i zs "Suc (length xs)"] after it(3)
    by (simp add: takeWhile_upto dropWhile_upto Let_def)
qed

lemma drop_replace:
  assumes e: "editor_inv e" and it: "i \<in> set (ids e)" "t \<in> set (ids e)" "i \<noteq> t"
  shows "\<exists>e'. handle_block_drop i t Z_REPLACE e = Returns e' \<and> editor_inv e' \<and> ids e' = drop_spec Z_REPLACE i t (ids e)"
  using e it
proof (cases rule: two_listed)
  case (before xs ys zs)
  have f: "find_block i e = Some (length xs)" "find_block t e = Some (Suc (length (xs @ ys)))"
    using find_block_at [OF e, of xs i] find_block_at [OF e, of "xs @ i # ys" t] before by simp_all
  let ?e = "snd (remove_block t e)"
  have r: "ids ?e = xs @ i # ys @ zs" "editor_inv ?e"
    using remove_block_listed(2,3) [OF e, of "xs @ i # ys" t zs] before by simp_all
  have "insert_at (length (xs @ ys)) i (xs @ ys @ zs) = (xs @ ys) @ i # zs"
    by (metis append_assoc insert_at_append)
  then show ?thesis
    using drop_listed(3) [OF e it(1,2) f] move_block_listed(2,3) [OF r(2,1), of "length (xs @ ys)"] before it(3)
    by (simp add: upto_two Let_def)
next
  case (after xs ys zs)
  have f: "find_block i e = Some (Suc (length (xs @ ys)))" "find_block t e = Some (length xs)"
    using find_block_at [OF e, of xs t] find_block_at [OF e, of "xs @ t # ys" i] after by simp_all
  let ?e = "snd (remove_block t e)"
  have r: "ids ?e = (xs @ ys) @ i # zs" "editor_inv ?e"
    using remove_block_listed(2,3) [OF e after(1)] by simp_all
  show ?thesis
    using drop_listed(3) [OF e it(1,2) f] move_block_listed(2,3) [OF r(2,1), of "length xs"] after it(3)
    by (simp add: takeWhile_upto dropWhile_upto Let_def)
qed

section \<open>Sessions\<close>

text \<open>What a client can do with an editor: allocate and edit blocks (keeping the id and the position of
  a listed one), add a block whose id is not listed, and call every other operation with any
  arguments.\<close>

inductive block_session :: "BlockEditor \<Rightarrow> bool" where
  bs_start: "block_session (BlockEditor_new h)"
| bs_alloc: "block_session e \<Longrightarrow> a \<notin> set (blocks e) \<Longrightarrow> block_session (e\<lparr>heap := (heap e)(a := b)\<rparr>)"
| bs_edit: "block_session e \<Longrightarrow> block_id b = id_of e a \<Longrightarrow> position b = position (heap e a)
    \<Longrightarrow> block_session (e\<lparr>heap := (heap e)(a := b)\<rparr>)"
| bs_add: "block_session e \<Longrightarrow> id_of e a \<notin> set (ids e) \<Longrightarrow> add_block (Some a) pos e = Returns e' \<Longrightarrow> block_session e'"
| bs_remove: "block_session e \<Longrightarrow> block_session (snd (remove_block i e))"
| bs_move: "block_session e \<Longrightarrow> block_session (snd (move_block i n e))"
| bs_select: "block_session e \<Longrightarrow> block_session (e\<lparr>selection := s\<rparr>)"
| bs_focus: "block_session e \<Longrightarrow> block_session (set_focus_block i e)"
| bs_drag: "block_session e \<Longrightarrow> block_session (e\<lparr>drag_drop_manager := m\<rparr>)"
| bs_key: "block_session e \<Longrightarrow> block_session (handle_keyboard_shortcut s e)"
| bs_drop: "block_session e \<Longrightarrow> finish_drag e = Returns (ok, e') \<Longrightarrow> block_session e'"

lemma remove_block_inv:
  assumes "editor_inv e" shows "editor_inv (snd (remove_block i e))"
proof (cases "i \<in> set (ids e)")
  case True
  then obtain xs ys where "ids e = xs @ i # ys" by (meson split_list)
  then show ?thesis using remove_block_listed(3) [OF assms] by simp
next
  case False
  then show ?thesis using assms by (simp add: remove_block_unlisted)
qed

lemma move_block_inv:
  assumes "editor_inv e" shows "editor_inv (snd (move_block i n e))"
proof (cases "i \<in> set (ids e) \<and> n < length (ids e)")
  case True
  then obtain xs ys where "ids e = xs @ i # ys" by (meson split_list)
  then show ?thesis using move_block_listed(3) [OF assms] True by simp
next
  case False
  then show ?thesis using assms find_block_None_iff [of i e]
    by (auto simp: move_block_def ids_def split: option.splits)
qed

lemma handle_block_drop_inv:
  "editor_inv e \<Longrightarrow> handle_block_drop i t z e = Returns e' \<Longrightarrow> editor_inv e'"
  by (auto simp: handle_block_drop_def Let_def intro!: move_block_inv remove_block_inv
      split: option.splits DropZoneType.splits)

lemma finish_drag_inv: "editor_inv e \<Longrightarrow> finish_drag e = Returns (ok, e') \<Longrightarrow> editor_inv e'"
  by (auto simp: finish_drag_def editor_inv_fields handle_block_drop_inv
      split: prod.splits drag_call.splits if_splits)

subsection \<open>Deleting the selection\<close>

lemma toggle_unlisted [simp]: "blocks (e\<lparr>selection := s\<rparr>) = blocks e" "ids (e\<lparr>selection := s\<rparr>) = ids e"
  by (simp_all add: ids_def id_of_def [abs_def])

lemma removes_listed:
  "editor_inv e \<Longrightarrow> editor_inv (fold (\<lambda>i x. snd (remove_block i x)) is e)
    \<and> ids (fold (\<lambda>i x. snd (remove_block i x)) is e) = filter (\<lambda>j. j \<notin> set is) (ids e)"
proof (induction "is" arbitrary: e)
  case (Cons i "is")
  show ?case
  proof (cases "i \<in> set (ids e)")
    case True
    then obtain xs ys where x: "ids e = xs @ i # ys" by (meson split_list)
    then have "i \<notin> set xs \<union> set ys" using Cons.prems by (auto simp: editor_inv_def)
    then have "filter (\<lambda>j. j \<notin> set is) (xs @ ys) = filter (\<lambda>j. j \<notin> set (i # is)) (ids e)"
      unfolding x by (auto intro!: arg_cong2 [where f = append] filter_cong)
    then show ?thesis using Cons.IH [OF remove_block_inv [OF Cons.prems]] remove_block_listed(2) [OF Cons.prems x]
      by simp
  next
    case False
    then have "filter (\<lambda>j. j \<notin> set (i # is)) (ids e) = filter (\<lambda>j. j \<notin> set is) (ids e)"
      by (intro filter_cong) auto
    then show ?thesis using False Cons.IH [OF Cons.prems] by (simp add: remove_block_unlisted)
  qed
qed simp

lemma handle_keyboard_shortcut_inv: "editor_inv e \<Longrightarrow> editor_inv (handle_keyboard_shortcut s e)"
  using removes_listed [of e "selected_blocks (selection e)"]
  by (auto simp: handle_keyboard_shortcut_def select_all_def delete_selected_def navigate_blocks_def Let_def
      editor_inv_fields split: option.splits)

lemma heap_update_inv:
  assumes "editor_inv e" and "a \<in> set (blocks e) \<Longrightarrow> block_id b = id_of e a \<and> position b = position (heap e a)"
  shows "editor_inv (e\<lparr>heap := (heap e)(a := b)\<rparr>)"
proof -
  let ?e = "e\<lparr>heap := (heap e)(a := b)\<rparr>"
  have id: "id_of ?e c = id_of e c" "position (heap ?e c) = position (heap e c)" if "c \<in> set (blocks e)" for c
    using assms(2) that by (auto simp: id_of_def)
  then have "ids ?e = ids e" by (simp add: ids_def)
  then show ?thesis using assms(1) id
    by (auto simp: editor_inv_def)
qed

lemma block_session_inv: "block_session e \<Longrightarrow> editor_inv e"
proof (induction rule: block_session.induct)
  case (bs_start h)
  show ?case by (simp add: editor_inv_def BlockEditor_new_def ids_def)
next
  case (bs_add e a pos e')
  then show ?case using add_block_new [of e a pos] by auto
qed (auto simp: remove_block_inv move_block_inv editor_inv_fields set_focus_block_def handle_keyboard_shortcut_inv
    intro: heap_update_inv finish_drag_inv)

section \<open>Properties\<close>


text \<open>C9. Dropping a block before, after or in place of another one gives exactly the order the zone
  promises: the other blocks keep their order, the dragged one stands next to the target or in
  its place, and for a replacement the target is gone. The drop keeps the list consistent.\<close>

theorem drop_reorders_blocks:
  assumes "block_session e" "i \<in> set (ids e)" "t \<in> set (ids e)" "i \<noteq> t" "z \<in> {Z_BEFORE, Z_AFTER, Z_REPLACE}"
  shows "\<exists>e'. handle_block_drop i t z e = Returns e' \<and> editor_inv e' \<and> ids e' = drop_spec z i t (ids e)"
  using drop_before drop_after drop_replace block_session_inv [OF assms(1)] assms(2-5)
  by (auto simp del: drop_spec.simps)

text \<open>The Delete shortcut removes exactly the selected blocks, keeps the others in order and leaves
  nothing selected.\<close>

theorem delete_removes_selection:
  assumes "block_session e"
  shows "ids (handle_keyboard_shortcut ''Delete'' e) = filter (\<lambda>i. \<not> is_selected i (selection e)) (ids e)
    \<and> \<not> has_selection (selection (handle_keyboard_shortcut ''Delete'' e))"
  using removes_listed [OF block_session_inv [OF assms], of "selected_blocks (selection e)"]
  by (simp add: handle_keyboard_shortcut_def delete_selected_def is_selected_def has_selection_def
      clear_selection_def Let_def)

text \<open>The arrow shortcuts walk the list: from a focused block ArrowDown moves the focus to the next one
  and, outside multi-select mode, selects exactly it, and ArrowUp comes back; at either end they do
  nothing.\<close>

theorem arrows_walk_the_list:
  assumes "block_session e" "ids e = xs @ i # j # ys" "focus_block_id e = i" "i \<noteq> []" "j \<noteq> []"
  shows "focus_block_id (handle_keyboard_shortcut ''ArrowDown'' e) = j
    \<and> (\<not> multi_select_mode (selection e) \<longrightarrow> selected_blocks (selection (handle_keyboard_shortcut ''ArrowDown'' e)) = [j])
    \<and> focus_block_id (handle_keyboard_shortcut ''ArrowUp'' (handle_keyboard_shortcut ''ArrowDown'' e)) = i
    \<and> (xs = [] \<longrightarrow> handle_keyboard_shortcut ''ArrowUp'' e = e)"
proof -
  note e = block_session_inv [OF assms(1)]
  let ?e = "e\<lparr>focus_block_id := j, selection := select_block j False (selection e)\<rparr>"
  have f: "find_block i e = Some (length xs)" "find_block j ?e = Some (Suc (length xs))"
    using find_block_at [OF e assms(2)] find_block_at [of ?e "xs @ [i]" j ys] e assms(2)
    by (simp_all add: editor_inv_fields ids_def id_of_def [abs_def])
  have b: "length (blocks e) = length xs + 2 + length ys"
    using assms(2) by (metis ids_def length_map length_append length_Cons add_Suc_right add_2_eq_Suc' add_Suc)
  have n: "id_of e (blocks e ! Suc (length xs)) = j" "id_of ?e (blocks e ! length xs) = i"
    using listed_at(2) [of e "xs @ [i]" j ys] listed_at(2) [of e xs i "j # ys"] assms(2)
    by (simp_all add: id_of_def)
  have "handle_keyboard_shortcut ''ArrowDown'' e = ?e"
    using f(1) b n(1) assms(3,4) by (auto simp: handle_keyboard_shortcut_def navigate_blocks_def Let_def)
  moreover have "focus_block_id (handle_keyboard_shortcut ''ArrowUp'' ?e) = i"
    using f(2) b n(2) assms(5) by (auto simp: handle_keyboard_shortcut_def navigate_blocks_def Let_def)
  moreover have "handle_keyboard_shortcut ''ArrowUp'' e = e" if "xs = []"
    using f(1) that assms(3) by (simp add: handle_keyboard_shortcut_def navigate_blocks_def)
  ultimately show ?thesis by (simp add: select_block_def)
qed

text \<open>Removing a block that is not selected selects the removed id, and a block dropped in place of
  itself is deleted.\<close>

lemma removed_block_becomes_selected:
  assumes "block_session e" "i \<in> set (ids e)" "\<not> is_selected i (selection e)"
  shows "is_selected i (selection (snd (remove_block i e)))" "primary_selection (selection (snd (remove_block i e))) = i"
proof -
  obtain xs ys where "ids e = xs @ i # ys" using assms(2) by (meson split_list)
  from remove_block_listed(4) [OF block_session_inv [OF assms(1)] this]
  show "is_selected i (selection (snd (remove_block i e)))" "primary_selection (selection (snd (remove_block i e))) = i"
    using assms(3) by (simp_all add: is_selected_def toggle_block_def)
qed

lemma replacing_itself_deletes:
  assumes "block_session e" "ids e = xs @ i # ys"
  shows "\<exists>e'. handle_block_drop i i Z_REPLACE e = Returns e' \<and> ids e' = xs @ ys"
proof -
  note e = block_session_inv [OF assms(1)]
  have "i \<notin> set (xs @ ys)" using e assms(2) by (simp add: editor_inv_def)
  then have "find_block i (snd (remove_block i e)) = None"
    using remove_block_listed(2) [OF e assms(2)] by (simp add: find_block_None_iff)
  then show ?thesis
    using drop_listed(3) [OF e, of i i] find_block_at [OF e assms(2)] remove_block_listed(2) [OF e assms(2)] assms(2)
    by (simp add: move_block_def)
qed

section \<open>A concrete editor\<close>

lemma session_add:
  assumes "block_session e" "id_of e a \<notin> set (ids e)"
  obtains e' where "add_block (Some a) pos e = Returns e'" "block_session e'" "id_of e' = id_of e"
    "ids e' = insert_at (min pos (length (ids e))) (id_of e a) (ids e)"
    "selection e' = selection e" "focus_block_id e' = focus_block_id e"
proof -
  obtain e' where *: "add_block (Some a) pos e = Returns e'" "ids e' = insert_at (min pos (length (ids e))) (id_of e a) (ids e)"
    using add_block_new [OF block_session_inv [OF assms(1)] assms(2)] by blast
  then have "id_of e' = id_of e" "selection e' = selection e" "focus_block_id e' = focus_block_id e"
    by (auto simp: add_block_def Let_def id_of_def [abs_def] update_block_positions_def)
  with * bs_add [OF assms *(1)] that show thesis by blast
qed

definition sample_heap :: "nat \<Rightarrow> Block" where
  "sample_heap a = fst (Block_new 0 0 PARAGRAPH_BLOCK (if a = 1 then ''b1'' else if a = 2 then ''b2'' else ''b3''))"

definition sample_editor :: "BlockEditor outcome" where
  "sample_editor = outcome_bind (add_block (Some 1) 9 (BlockEditor_new sample_heap))
     (\<lambda>e. outcome_bind (add_block (Some 2) 9 e) (add_block (Some 3) 0))"

lemma sample_editor:
  obtains e where "sample_editor = Returns e" "block_session e" "ids e = [''b3'', ''b1'', ''b2'']"
    "selection e = BlockSelection_new" "focus_block_id e = []"
proof -
  let ?e0 = "BlockEditor_new sample_heap"
  have id: "id_of ?e0 1 = ''b1''" "id_of ?e0 2 = ''b2''" "id_of ?e0 3 = ''b3''" "ids ?e0 = []"
    by (simp_all add: id_of_def BlockEditor_new_def sample_heap_def Block_new_def initialize_block_properties_def
        add_accepted_block_type_def ids_def)
  have d: "selection ?e0 = BlockSelection_new" "focus_block_id ?e0 = []" by (simp_all add: BlockEditor_new_def)
  obtain e1 where e1: "add_block (Some 1) 9 ?e0 = Returns e1" "block_session e1" "id_of e1 = id_of ?e0"
      "ids e1 = [''b1'']" "selection e1 = BlockSelection_new" "focus_block_id e1 = []"
    by (rule session_add [OF bs_start, of sample_heap 1 9]) (simp_all add: id [simplified] d insert_at_def)
  obtain e2 where e2: "add_block (Some 2) 9 e1 = Returns e2" "block_session e2" "id_of e2 = id_of ?e0"
      "ids e2 = [''b1'', ''b2'']" "selection e2 = BlockSelection_new" "focus_block_id e2 = []"
    by (rule session_add [OF e1(2), of 2 9]) (simp_all add: id e1 insert_at_def)
  obtain e3 where "add_block (Some 3) 0 e2 = Returns e3" "block_session e3" "ids e3 = [''b3'', ''b1'', ''b2'']"
      "selection e3 = BlockSelection_new" "focus_block_id e3 = []"
    by (rule session_add [OF e2(2), of 3 0]) (simp_all add: id e2 insert_at_def)
  with e1(1) e2(1) that [of e3] show thesis by (simp add: sample_editor_def)
qed


lemma drop_reorders_blocks_witness:
  "\<exists>e e'. sample_editor = Returns e \<and> handle_block_drop ''b3'' ''b2'' Z_AFTER e = Returns e' \<and> ids e' = [''b1'', ''b2'', ''b3'']"
proof -
  obtain e where e: "sample_editor = Returns e" "block_session e" "ids e = [''b3'', ''b1'', ''b2'']"
    by (rule sample_editor)
  have "\<exists>e'. handle_block_drop ''b3'' ''b2'' Z_AFTER e = Returns e' \<and> editor_inv e' \<and> ids e' = drop_spec Z_AFTER ''b3'' ''b2'' (ids e)"
    by (rule drop_reorders_blocks [OF e(2)]) (simp_all add: e(3))
  then show ?thesis using e by auto
qed

lemma delete_removes_selection_witness:
  "\<exists>e. sample_editor = Returns e
    \<and> ids (handle_keyboard_shortcut ''Delete'' (e\<lparr>selection := select_block ''b1'' False (selection e)\<rparr>)) = [''b3'', ''b2'']"
proof -
  obtain e where e: "sample_editor = Returns e" "block_session e" "ids e = [''b3'', ''b1'', ''b2'']"
      "selection e = BlockSelection_new"
    by (rule sample_editor)
  show ?thesis using delete_removes_selection [OF bs_select [OF e(2)], of "select_block ''b1'' False (selection e)"] e
    by (intro exI [of _ e]) (simp add: is_selected_def select_block_def BlockSelection_new_def)
qed

lemma arrows_walk_the_list_witness:
  "\<exists>e. sample_editor = Returns e \<and> focus_block_id (handle_keyboard_shortcut ''ArrowDown'' (set_focus_block ''b1'' e)) = ''b2''"
proof -
  obtain e where e: "sample_editor = Returns e" "block_session e" "ids e = [''b3'', ''b1'', ''b2'']"
    by (rule sample_editor)
  have "ids (set_focus_block ''b1'' e) = [''b3''] @ ''b1'' # ''b2'' # []"
    using e(3) by (simp add: ids_def id_of_def [abs_def] set_focus_block_def)
  from arrows_walk_the_list [OF bs_focus [OF e(2)] this] show ?thesis
    using e(1) by (intro exI [of _ e]) (simp add: set_focus_block_def)
qed

end
