(* ===== verification/Editor_State.thy ===== *)
theory Editor_State
  imports Editor_Nodes
begin

text \<open>
  \<open>Transaction\<close> and \<open>EditorState\<close> of \<open>lamia_extensible_architecture.hpp\<close>. The callables of a
  transaction act on what they capture, a world of any type \<open>'w\<close> the operations here are passed:
  a callable either returns or throws a \<open>std::exception\<close>, in both cases with the world it leaves
  behind. The callables do not call back into the state they are run by, whose mutex is held.
\<close>

section \<open>Transactions\<close>

datatype 'w run = Done (world: 'w) | Raised (world: 'w)

type_synonym 'w callable = "'w \<Rightarrow> 'w run"

record 'w Transaction =
  tx_id :: string
  timestamp :: int
  operations :: "'w callable list"
  undo_operations :: "'w callable list"
  description :: string
  author_id :: string
  applied :: bool

text \<open>The constructor: \<open>now\<close> is the steady clock, \<open>counter\<close> the counter of \<open>generate_id\<close>.\<close>

definition Transaction_new :: "int \<Rightarrow> nat \<Rightarrow> string \<Rightarrow> string \<Rightarrow> 'w Transaction \<times> nat" where
  "Transaction_new now counter d a =
     (\<lparr>tx_id = ''tx_'' @ to_string_nat (counter + 1), timestamp = now, operations = [], undo_operations = [],
       description = d, author_id = a, applied = False\<rparr>, counter + 1)"

definition add_operation :: "'w callable \<Rightarrow> 'w callable \<Rightarrow> 'w Transaction \<Rightarrow> 'w Transaction" where
  "add_operation f g t = t\<lparr>operations := operations t @ [f], undo_operations := undo_operations t @ [g]\<rparr>"

text \<open>The loop over the operations stops at the first exception; the one over the undo
  operations, which starts from the last, goes on.\<close>

fun run_ops :: "'w callable list \<Rightarrow> 'w \<Rightarrow> 'w run" where
  "run_ops [] w = Done w"
| "run_ops (f # fs) w = (case f w of Done w' \<Rightarrow> run_ops fs w' | Raised w' \<Rightarrow> Raised w')"

definition run_undos :: "'w callable list \<Rightarrow> 'w \<Rightarrow> 'w" where
  "run_undos gs w = fold (\<lambda>g w. world (g w)) (rev gs) w"

definition rollback :: "'w Transaction \<Rightarrow> 'w \<Rightarrow> 'w Transaction \<times> 'w" where
  "rollback t w = (t\<lparr>applied := False\<rparr>, run_undos (undo_operations t) w)"

definition apply_tx :: "'w Transaction \<Rightarrow> 'w \<Rightarrow> bool \<times> 'w Transaction \<times> 'w" where
  "apply_tx t w =
     (if applied t then (False, t, w)
      else case run_ops (operations t) w of
          Done w' \<Rightarrow> (True, t\<lparr>applied := True\<rparr>, w')
        | Raised w' \<Rightarrow> (False, rollback t w'))"

section \<open>State\<close>

record 'w EditorState =
  document :: "EditorDocument option"
  transaction_history :: "'w Transaction list"
  current_transaction_index :: nat
  state_variables :: "(string, string) omap"
  selection_start :: "string \<times> nat"
  selection_end :: "string \<times> nat"
  state_has_selection :: bool
  collaborator_cursors :: "(string, string) omap"
  collaborator_last_seen :: "(string, int) omap"

definition EditorState_new :: "EditorDocument option \<Rightarrow> 'w EditorState" where
  "EditorState_new d = \<lparr>document = d, transaction_history = [], current_transaction_index = 0,
     state_variables = [], selection_start = ([], 0), selection_end = ([], 0), state_has_selection = False,
     collaborator_cursors = [], collaborator_last_seen = []\<rparr>"

definition apply_transaction :: "'w Transaction \<Rightarrow> 'w EditorState \<Rightarrow> 'w \<Rightarrow> bool \<times> 'w EditorState \<times> 'w" where
  "apply_transaction t s w =
     (case apply_tx t w of
        (ok, t', w') \<Rightarrow>
          if \<not> ok then (False, s, w')
          else
            let h = (if current_transaction_index s < length (transaction_history s)
                     then take (current_transaction_index s) (transaction_history s) else transaction_history s) @ [t']
            in (True, s\<lparr>transaction_history := h, current_transaction_index := length h\<rparr>, w'))"

definition undo :: "'w EditorState \<Rightarrow> 'w \<Rightarrow> bool \<times> 'w EditorState \<times> 'w" where
  "undo s w =
     (if current_transaction_index s = 0 then (False, s, w)
      else
        let k = current_transaction_index s - 1 in
        case rollback (transaction_history s ! k) w of
          (t, w') \<Rightarrow> (True, s\<lparr>current_transaction_index := k, transaction_history := (transaction_history s)[k := t]\<rparr>, w'))"

definition redo :: "'w EditorState \<Rightarrow> 'w \<Rightarrow> bool \<times> 'w EditorState \<times> 'w" where
  "redo s w =
     (let k = current_transaction_index s in
      if length (transaction_history s) \<le> k then (False, s, w)
      else
        case apply_tx (transaction_history s ! k) w of
          (ok, t, w') \<Rightarrow> (True, s\<lparr>transaction_history := (transaction_history s)[k := t], current_transaction_index := k + 1\<rparr>, w'))"

definition can_undo :: "'w EditorState \<Rightarrow> bool" where
  "can_undo s \<longleftrightarrow> 0 < current_transaction_index s"

definition can_redo :: "'w EditorState \<Rightarrow> bool" where
  "can_redo s \<longleftrightarrow> current_transaction_index s < length (transaction_history s)"

definition set_selection :: "string \<Rightarrow> nat \<Rightarrow> string \<Rightarrow> nat \<Rightarrow> 'w EditorState \<Rightarrow> 'w EditorState" where
  "set_selection a i b j s = s\<lparr>selection_start := (a, i), selection_end := (b, j), state_has_selection := True\<rparr>"

definition clear_state_selection :: "'w EditorState \<Rightarrow> 'w EditorState" where
  "clear_state_selection s = s\<lparr>state_has_selection := False\<rparr>"

definition set_variable :: "string \<Rightarrow> string \<Rightarrow> 'w EditorState \<Rightarrow> 'w EditorState" where
  "set_variable k v s = s\<lparr>state_variables := om_assign k v (state_variables s)\<rparr>"

definition get_variable :: "string \<Rightarrow> string \<Rightarrow> 'w EditorState \<Rightarrow> string" where
  "get_variable k d s = (case map_of (state_variables s) k of Some v \<Rightarrow> v | None \<Rightarrow> d)"

definition update_collaborator_cursor :: "int \<Rightarrow> string \<Rightarrow> string \<Rightarrow> 'w EditorState \<Rightarrow> 'w EditorState" where
  "update_collaborator_cursor now u p s =
     s\<lparr>collaborator_cursors := om_assign u p (collaborator_cursors s),
       collaborator_last_seen := om_assign u now (collaborator_last_seen s)\<rparr>"

section \<open>Reversible transactions\<close>

text \<open>The contract of a transaction: every undo operation takes back what its operation did. A
  transaction that keeps it and is applied can be rolled back.\<close>

definition is_reversible :: "'w Transaction \<Rightarrow> bool" where
  "is_reversible t \<longleftrightarrow>
     list_all2 (\<lambda>f g. \<forall>w w'. f w = Done w' \<longrightarrow> g w' = Done w) (operations t) (undo_operations t)"

lemma run_undos_reverse:
  "list_all2 (\<lambda>f g. \<forall>w w'. f w = Done w' \<longrightarrow> g w' = Done w) fs gs \<Longrightarrow> run_ops fs w = Done w'
    \<Longrightarrow> run_undos gs w' = w"
proof (induction fs gs arbitrary: w rule: list_all2_induct)
  case Nil
  then show ?case by (simp add: run_undos_def)
next
  case (Cons f fs g gs)
  then obtain v where v: "f w = Done v" "run_ops fs v = Done w'" by (auto split: run.splits)
  then have "run_undos gs w' = v" using Cons by blast
  moreover have "world (g v) = w" using v(1) Cons.hyps(1) by simp
  ultimately show ?case by (simp add: run_undos_def)
qed

lemma rollback_reversible:
  "is_reversible t \<Longrightarrow> run_ops (operations t) w = Done w' \<Longrightarrow> run_undos (undo_operations t) w' = w"
  unfolding is_reversible_def by (rule run_undos_reverse)

lemma run_ops_append:
  "run_ops (fs @ gs) w = (case run_ops fs w of Done v \<Rightarrow> run_ops gs v | Raised v \<Rightarrow> Raised v)"
  by (induction fs arbitrary: w) (auto split: run.splits)

lemma is_reversible_applied [simp]: "is_reversible (t\<lparr>applied := b\<rparr>) = is_reversible t"
  by (simp add: is_reversible_def)

section \<open>Histories\<close>

text \<open>The runs of a state whose transactions are reversible and do not fail when they are first
  applied. \<open>w0\<close> is the world the state was created over.\<close>

inductive history_session :: "'w \<Rightarrow> 'w EditorState \<Rightarrow> 'w \<Rightarrow> bool" for w0 :: 'w where
  hs_start: "history_session w0 (EditorState_new d) w0"
| hs_apply: "history_session w0 s w \<Longrightarrow> is_reversible t \<Longrightarrow> \<not> applied t \<Longrightarrow> run_ops (operations t) w = Done v
    \<Longrightarrow> apply_transaction t s w = (ok, s', w') \<Longrightarrow> history_session w0 s' w'"
| hs_undo: "history_session w0 s w \<Longrightarrow> undo s w = (ok, s', w') \<Longrightarrow> history_session w0 s' w'"
| hs_redo: "history_session w0 s w \<Longrightarrow> redo s w = (ok, s', w') \<Longrightarrow> history_session w0 s' w'"
| hs_select: "history_session w0 s w \<Longrightarrow> history_session w0 (set_selection a i b j s) w"
| hs_clear: "history_session w0 s w \<Longrightarrow> history_session w0 (clear_state_selection s) w"
| hs_variable: "history_session w0 s w \<Longrightarrow> history_session w0 (set_variable k x s) w"
| hs_cursor: "history_session w0 s w \<Longrightarrow> history_session w0 (update_collaborator_cursor now u p s) w"

text \<open>What the history stands for: running its transactions from the first.\<close>

definition replay :: "'w Transaction list \<Rightarrow> 'w \<Rightarrow> 'w run" where
  "replay ts w = run_ops (concat (map operations ts)) w"

lemma replay_Nil [simp]: "replay [] w = Done w"
  by (simp add: replay_def)

lemma run_ops_append_Done: "run_ops (fs @ gs) w = Done v \<longleftrightarrow> (\<exists>u. run_ops fs w = Done u \<and> run_ops gs u = Done v)"
  by (simp add: run_ops_append split: run.split)

lemma replay_append: "replay (ts @ us) w = Done v \<longleftrightarrow> (\<exists>u. replay ts w = Done u \<and> replay us u = Done v)"
  by (simp add: replay_def run_ops_append_Done)

lemma replay_Cons: "replay (t # ts) w = Done v \<longleftrightarrow> (\<exists>u. run_ops (operations t) w = Done u \<and> replay ts u = Done v)"
  by (simp add: replay_def run_ops_append_Done)

lemma replay_snoc:
  "k < length h \<Longrightarrow> replay (take (Suc k) h) w = Done v \<longleftrightarrow>
     (\<exists>u. replay (take k h) w = Done u \<and> run_ops (operations (h ! k)) u = Done v)"
  by (simp add: take_Suc_conv_app_nth replay_append replay_Cons)

lemma replay_from:
  assumes "k < length h"
  shows "replay (drop k h) w = Done v \<longleftrightarrow>
    (\<exists>u. run_ops (operations (h ! k)) w = Done u \<and> replay (drop (Suc k) h) u = Done v)"
  unfolding Cons_nth_drop_Suc [OF assms, symmetric] by (rule replay_Cons)

lemma replay_update:
  "operations t = operations (ts ! k) \<Longrightarrow> replay (ts[k := t]) w = replay ts w"
  unfolding replay_def by (metis list_update_id map_update)

definition history_inv :: "'w \<Rightarrow> 'w EditorState \<Rightarrow> 'w \<Rightarrow> bool" where
  "history_inv w0 s w \<longleftrightarrow>
     (let h = transaction_history s; k = current_transaction_index s in
      k \<le> length h \<and> (\<forall>i < length h. is_reversible (h ! i) \<and> (applied (h ! i) \<longleftrightarrow> i < k))
      \<and> replay (take k h) w0 = Done w \<and> (\<exists>v. replay (drop k h) w = Done v))"

lemma history_inv_undo:
  assumes "history_inv w0 s w" "undo s w = (ok, s', w')"
  shows "history_inv w0 s' w'"
proof (cases "current_transaction_index s")
  case 0
  then show ?thesis using assms by (simp add: undo_def)
next
  case (Suc k)
  let ?h = "transaction_history s"
  have h: "k < length ?h" "\<forall>i < length ?h. is_reversible (?h ! i) \<and> (applied (?h ! i) \<longleftrightarrow> i < Suc k)"
      "replay (take (Suc k) ?h) w0 = Done w" "\<exists>v. replay (drop (Suc k) ?h) w = Done v"
    using assms(1) Suc by (auto simp: history_inv_def Let_def)
  obtain u where u: "replay (take k ?h) w0 = Done u" "run_ops (operations (?h ! k)) u = Done w"
    using h(3) replay_snoc [OF h(1)] by blast
  then have "run_undos (undo_operations (?h ! k)) w = u"
    using h(1,2) by (intro rollback_reversible) auto
  then have s': "s' = s\<lparr>current_transaction_index := k, transaction_history := ?h[k := (?h ! k)\<lparr>applied := False\<rparr>]\<rparr>"
      "w' = u"
    using assms(2) Suc by (auto simp: undo_def rollback_def Let_def)
  have "\<exists>v. replay (drop k ?h) u = Done v"
    using u(2) h(4) replay_from [OF h(1)] by blast
  then have "\<exists>v. replay (drop k (?h[k := (?h ! k)\<lparr>applied := False\<rparr>])) u = Done v"
    using replay_update [of "(?h ! k)\<lparr>applied := False\<rparr>" "drop k ?h" 0 u] h(1)
    by (simp add: drop_update_swap)
  then show ?thesis using h(1,2) u(1) unfolding s'
    by (auto simp: history_inv_def Let_def nth_list_update)
qed

lemma history_inv_redo:
  assumes "history_inv w0 s w" "redo s w = (ok, s', w')"
  shows "history_inv w0 s' w'"
proof (cases "current_transaction_index s < length (transaction_history s)")
  case False
  then show ?thesis using assms by (simp add: redo_def Let_def)
next
  case True
  let ?h = "transaction_history s" let ?k = "current_transaction_index s"
  let ?t = "(?h ! ?k)\<lparr>applied := True\<rparr>"
  have h: "\<forall>i < length ?h. is_reversible (?h ! i) \<and> (applied (?h ! i) \<longleftrightarrow> i < ?k)"
      "replay (take ?k ?h) w0 = Done w" "\<exists>v. replay (drop ?k ?h) w = Done v"
    using assms(1) by (auto simp: history_inv_def Let_def)
  obtain u where u: "run_ops (operations (?h ! ?k)) w = Done u" "\<exists>v. replay (drop (Suc ?k) ?h) u = Done v"
    using h(3) replay_from [OF True] by blast
  have s': "s' = s\<lparr>transaction_history := ?h[?k := ?t], current_transaction_index := Suc ?k\<rparr>" "w' = u"
    using assms(2) True u(1) h(1) by (auto simp: redo_def apply_tx_def Let_def)
  have "take (Suc ?k) (?h[?k := ?t]) = (take (Suc ?k) ?h)[?k := ?t]" by (rule take_update_swap)
  then have "replay (take (Suc ?k) (?h[?k := ?t])) w0 = replay (take (Suc ?k) ?h) w0"
    using replay_update [of ?t "take (Suc ?k) ?h" ?k w0] by simp
  also have "replay (take (Suc ?k) ?h) w0 = Done u" using h(2) u(1) replay_snoc [OF True] by blast
  finally show ?thesis using h(1) u(2) True unfolding s'
    by (auto simp: history_inv_def Let_def nth_list_update)
qed

lemma history_inv_apply:
  assumes "history_inv w0 s w" "is_reversible t" "\<not> applied t" "run_ops (operations t) w = Done v"
    and "apply_transaction t s w = (ok, s', w')"
  shows "history_inv w0 s' w'"
proof -
  let ?h = "transaction_history s" let ?k = "current_transaction_index s"
  have h: "?k \<le> length ?h" "\<forall>i < length ?h. is_reversible (?h ! i) \<and> (applied (?h ! i) \<longleftrightarrow> i < ?k)"
      "replay (take ?k ?h) w0 = Done w"
    using assms(1) by (auto simp: history_inv_def Let_def)
  have "(if ?k < length ?h then take ?k ?h else ?h) = take ?k ?h" using h(1) by simp
  then have s': "s' = s\<lparr>transaction_history := take ?k ?h @ [t\<lparr>applied := True\<rparr>], current_transaction_index := Suc ?k\<rparr>"
      "w' = v"
    using assms(3-5) h(1) by (auto simp: apply_transaction_def apply_tx_def Let_def)
  show ?thesis using h assms(2,4) unfolding s'
    by (auto simp: history_inv_def Let_def nth_append replay_append replay_Cons less_Suc_eq)
qed

lemma history_session_inv: "history_session w0 s w \<Longrightarrow> history_inv w0 s w"
proof (induction rule: history_session.induct)
  case (hs_start d)
  show ?case by (simp add: history_inv_def EditorState_new_def)
next
  case (hs_apply s w t v ok s' w')
  then show ?case by (meson history_inv_apply)
next
  case (hs_undo s w ok s' w')
  then show ?case by (meson history_inv_undo)
next
  case (hs_redo s w ok s' w')
  then show ?case by (meson history_inv_redo)
qed (simp_all add: history_inv_def set_selection_def clear_state_selection_def set_variable_def
    update_collaborator_cursor_def Let_def)

section \<open>Properties\<close>


text \<open>Undo followed by redo is the identity on the state and on the world.\<close>

theorem undo_then_redo:
  assumes "history_session w0 s w" "can_undo s"
  shows "\<exists>s' w'. undo s w = (True, s', w') \<and> can_redo s' \<and> redo s' w' = (True, s, w)"
proof -
  let ?h = "transaction_history s"
  obtain k where k: "current_transaction_index s = Suc k" using assms(2) by (auto simp: can_undo_def gr0_conv_Suc)
  have h: "k < length ?h" "is_reversible (?h ! k)" "applied (?h ! k)" "replay (take (Suc k) ?h) w0 = Done w"
    using history_session_inv [OF assms(1)] k by (auto simp: history_inv_def Let_def)
  then obtain u where u: "run_ops (operations (?h ! k)) u = Done w"
    using replay_snoc [OF h(1)] by blast
  then have "run_undos (undo_operations (?h ! k)) w = u"
    using h(2) by (intro rollback_reversible)
  moreover have "(?h ! k)\<lparr>applied := True\<rparr> = ?h ! k" using h(3) by (cases "?h ! k") simp
  then have "s\<lparr>transaction_history := ?h[k := (?h ! k)\<lparr>applied := True\<rparr>], current_transaction_index := Suc k\<rparr> = s"
    using k by (cases s) simp
  ultimately show ?thesis using u k h(1)
    by (simp add: undo_def redo_def rollback_def apply_tx_def can_redo_def Let_def)
qed

text \<open>A transaction that fails runs the undo operations of what it never did, and a redo that fails
  still counts as done.\<close>

definition bump :: "int callable" where "bump n = Done (n + 1)"
definition unbump :: "int callable" where "unbump n = Done (n - 1)"
definition fail :: "int callable" where "fail n = Raised n"

definition sample_tx :: "int callable \<Rightarrow> int Transaction" where
  "sample_tx f = add_operation bump unbump (add_operation f unbump (fst (Transaction_new 0 0 [] [])))"

lemma failed_transaction_undoes_too_much:
  "fst (apply_tx (sample_tx fail) 7) = False" "snd (snd (apply_tx (sample_tx fail) 7)) = 5"
  by (simp_all add: apply_tx_def sample_tx_def Transaction_new_def add_operation_def fail_def bump_def unbump_def
      rollback_def run_undos_def)

lemma failed_redo_counts:
  assumes "can_redo s" "\<not> fst (apply_tx (transaction_history s ! current_transaction_index s) w)"
  shows "fst (redo s w)" "current_transaction_index (fst (snd (redo s w))) = current_transaction_index s + 1"
  using assms by (auto simp: redo_def can_redo_def Let_def split: prod.splits)

definition sample_state :: "int EditorState" where
  "sample_state = fst (snd (apply_transaction (sample_tx bump) (EditorState_new None) 7))"

lemma sample_session: "history_session 7 sample_state 9"
proof (rule hs_apply [OF hs_start])
  show "is_reversible (sample_tx bump)" "\<not> applied (sample_tx bump)" "run_ops (operations (sample_tx bump)) 7 = Done 9"
    "apply_transaction (sample_tx bump) (EditorState_new None) 7 = (True, sample_state, 9)"
    by (simp_all add: is_reversible_def sample_tx_def sample_state_def Transaction_new_def add_operation_def bump_def
        unbump_def apply_transaction_def apply_tx_def)
qed


lemma undo_then_redo_witness:
  "\<exists>s' w'. undo sample_state 9 = (True, s', w') \<and> redo s' w' = (True, sample_state, 9)"
proof -
  have "can_undo sample_state"
    by (simp add: can_undo_def sample_state_def apply_transaction_def apply_tx_def sample_tx_def Transaction_new_def
        add_operation_def bump_def EditorState_new_def)
  then show ?thesis using undo_then_redo [OF sample_session] by blast
qed

end
