(* ===== verification/Extension_Registry.thy ===== *)
theory Extension_Registry
  imports Editor_State
begin

text \<open>
  The extensions, their registry and the extensible core of \<open>lamia_extensible_architecture.hpp\<close>. A
  callable is the function of its arguments it computes, or None when the \<open>std::function\<close> is
  empty; the rendering and validation callables of the schemas are only stored by the code and are left out. An
  extension is the metadata, flags and contributions of the object; \<open>loads\<close> tells whether its
  virtual \<open>load\<close> succeeds. Callbacks, listeners and event handlers are the log of their calls;
  none of them calls back into the registry or the core, whose mutexes are held.
\<close>

section \<open>Definitions extensions contribute\<close>

datatype ExtensionType =
    NODE_EXTENSION | MARK_EXTENSION | COMMAND_EXTENSION | KEYMAP_EXTENSION | PLUGIN_EXTENSION
  | TRANSFORMER_EXTENSION | VALIDATOR_EXTENSION | SERIALIZER_EXTENSION | AI_EXTENSION | COLLABORATION_EXTENSION

record ExtensionMetadata =
  ext_id :: string
  ext_name :: string
  ext_version :: string
  ext_author :: string
  ext_description :: string
  ext_type :: ExtensionType
  dependencies :: "string list"
  capabilities :: "string list"
  configuration :: "(string, string) omap"
  security_hash :: string
  memory_limit :: nat
  execution_timeout :: int
  sandboxed :: bool
  ai_powered :: bool
  ai_confidence_threshold :: real
  ai_model_version :: string

definition ExtensionMetadata_new :: "string \<Rightarrow> string \<Rightarrow> string \<Rightarrow> string \<Rightarrow> ExtensionType \<Rightarrow> ExtensionMetadata" where
  "ExtensionMetadata_new i n v a ty = \<lparr>ext_id = i, ext_name = n, ext_version = v, ext_author = a,
     ext_description = [], ext_type = ty, dependencies = [], capabilities = [], configuration = [],
     security_hash = [], memory_limit = 10 * 1024 * 1024, execution_timeout = 5000, sandboxed = True,
     ai_powered = False, ai_confidence_threshold = 7 / 10, ai_model_version = []\<rparr>"

record CommandDefinition =
  cmd_name :: string
  cmd_description :: string
  cmd_parameters :: "string list"
  cmd_execute :: "((string, string) omap \<Rightarrow> bool) option"
  cmd_can_execute :: "bool option"
  cmd_category :: string
  cmd_shortcuts :: "string list"
  cmd_undoable :: bool
  macro_recordable :: bool
  ai_enhanced :: bool

record SchemaNodeDefinition =
  sn_name :: string
  sn_description :: string
  allowed_content :: "string oset"
  allowed_marks :: "string oset"
  sn_attributes :: "(string, string) omap"
  is_block :: bool
  is_leaf :: bool
  sn_draggable :: bool
  ai_completable :: bool

record SchemaMarkDefinition =
  sm_name :: string
  sm_description :: string
  sm_attributes :: "(string, string) omap"
  is_inclusive :: bool
  is_spanning :: bool

definition CommandDefinition_new ::
  "string \<Rightarrow> string \<Rightarrow> string \<Rightarrow> bool \<Rightarrow> string list \<Rightarrow> ((string, string) omap \<Rightarrow> bool) \<Rightarrow> CommandDefinition" where
  "CommandDefinition_new n d c ai keys f = \<lparr>cmd_name = n, cmd_description = d, cmd_parameters = [],
     cmd_execute = Some f, cmd_can_execute = None, cmd_category = c, cmd_shortcuts = keys, cmd_undoable = True,
     macro_recordable = True, ai_enhanced = ai\<rparr>"

section \<open>Extensions\<close>

record Extension =
  ext_metadata :: ExtensionMetadata
  loaded :: bool
  enabled :: bool
  loads :: bool
  commands_of :: "CommandDefinition list"
  node_schemas_of :: "SchemaNodeDefinition list"
  mark_schemas_of :: "SchemaMarkDefinition list"

definition Extension_new :: "ExtensionMetadata \<Rightarrow> Extension" where
  "Extension_new md = \<lparr>ext_metadata = md, loaded = False, enabled = True, loads = True, commands_of = [],
     node_schemas_of = [], mark_schemas_of = []\<rparr>"

definition load_ext :: "Extension \<Rightarrow> bool \<times> Extension" where
  "load_ext x = (if loads x then (True, x\<lparr>loaded := True\<rparr>) else (False, x))"

definition unload_ext :: "Extension \<Rightarrow> Extension" where
  "unload_ext x = x\<lparr>loaded := False\<rparr>"

definition set_enabled :: "bool \<Rightarrow> Extension \<Rightarrow> Extension" where
  "set_enabled b x = x\<lparr>enabled := b\<rparr>"

text \<open>The AI extension: its callbacks, what it answers with them, and its two commands.\<close>

record AICallbacks =
  completion_callback :: "(string \<Rightarrow> string list) option"
  improvement_callback :: "(string \<Rightarrow> string) option"
  suggestion_callback :: "(string \<Rightarrow> string list) option"

definition get_completions :: "string \<Rightarrow> AICallbacks \<Rightarrow> string list" where
  "get_completions s a = (case completion_callback a of Some f \<Rightarrow> f s | None \<Rightarrow> [])"

definition get_improvement :: "string \<Rightarrow> AICallbacks \<Rightarrow> string" where
  "get_improvement s a = (case improvement_callback a of Some f \<Rightarrow> f s | None \<Rightarrow> s)"

definition get_suggestions :: "string \<Rightarrow> AICallbacks \<Rightarrow> string list" where
  "get_suggestions s a = (case suggestion_callback a of Some f \<Rightarrow> f s | None \<Rightarrow> [])"

definition ai_commands :: "CommandDefinition list" where
  "ai_commands =
     [CommandDefinition_new ''ai_complete'' ''Get AI completions for current context'' ''AI'' True [''Ctrl+Space'']
        (\<lambda>ps. map_of ps ''context'' \<noteq> None),
      CommandDefinition_new ''ai_improve'' ''Improve content with AI'' ''AI'' True [''Ctrl+Alt+I'']
        (\<lambda>ps. map_of ps ''content'' \<noteq> None)]"

definition AIExtension_new :: "ExtensionMetadata \<Rightarrow> Extension" where
  "AIExtension_new md = (Extension_new md)\<lparr>commands_of := ai_commands\<rparr>"

text \<open>The collaboration extension.\<close>

datatype collaboration_call = User_joined string | User_left string | Broadcast string string

record Collaboration =
  active_users :: "(string, string) omap"
  operation_queue :: "(string \<times> string) list"
  collaboration_calls :: "collaboration_call list"

definition add_user :: "string \<Rightarrow> string \<Rightarrow> Collaboration \<Rightarrow> Collaboration" where
  "add_user u n c = c\<lparr>active_users := om_assign u n (active_users c),
     collaboration_calls := collaboration_calls c @ [User_joined u]\<rparr>"

definition remove_user :: "string \<Rightarrow> Collaboration \<Rightarrow> Collaboration" where
  "remove_user u c = c\<lparr>active_users := um_erase u (active_users c),
     collaboration_calls := collaboration_calls c @ [User_left u]\<rparr>"

definition broadcast_operation :: "string \<Rightarrow> string \<Rightarrow> Collaboration \<Rightarrow> Collaboration" where
  "broadcast_operation oper dat c = c\<lparr>collaboration_calls := collaboration_calls c @ [Broadcast oper dat]\<rparr>"

definition handle_remote_operation :: "string \<Rightarrow> string \<Rightarrow> Collaboration \<Rightarrow> Collaboration" where
  "handle_remote_operation oper dat c = c\<lparr>operation_queue := operation_queue c @ [(oper, dat)]\<rparr>"

text \<open>The loop takes every operation off the queue and drops it.\<close>

function process_operations :: "Collaboration \<Rightarrow> Collaboration" where
  "process_operations c =
     (if operation_queue c = [] then c else process_operations (c\<lparr>operation_queue := tl (operation_queue c)\<rparr>))"
  by pat_completeness auto
termination by (relation "measure (\<lambda>c. length (operation_queue c))") auto

declare process_operations.simps [simp del]

definition collaboration_commands :: "CommandDefinition list" where
  "collaboration_commands =
     [CommandDefinition_new ''share_document'' ''Share document for collaboration'' ''Collaboration'' False []
        (\<lambda>ps. True)]"

definition CollaborationExtension_new :: "ExtensionMetadata \<Rightarrow> Extension" where
  "CollaborationExtension_new md = (Extension_new md)\<lparr>commands_of := collaboration_commands\<rparr>"

section \<open>Registry\<close>

datatype registry_call = Extension_loaded nat string | Extension_unloaded nat string

record ExtensionRegistry =
  extensions :: "(string, Extension) omap"
  commands_tab :: "(string, CommandDefinition) omap"
  node_schemas :: "(string, SchemaNodeDefinition) omap"
  mark_schemas :: "(string, SchemaMarkDefinition) omap"
  loaded_callbacks :: nat
  unloaded_callbacks :: nat
  registry_calls :: "registry_call list"

definition ExtensionRegistry_new :: ExtensionRegistry where
  "ExtensionRegistry_new = \<lparr>extensions = [], commands_tab = [], node_schemas = [], mark_schemas = [],
     loaded_callbacks = 0, unloaded_callbacks = 0, registry_calls = []\<rparr>"

definition check_dependencies :: "ExtensionMetadata \<Rightarrow> ExtensionRegistry \<Rightarrow> bool" where
  "check_dependencies md r \<longleftrightarrow> list_all (\<lambda>d. map_of (extensions r) d \<noteq> None) (dependencies md)"

text \<open>The three loops that enter contributions, and the three that remove them.\<close>

definition publish :: "('d \<Rightarrow> string) \<Rightarrow> 'd list \<Rightarrow> (string, 'd) omap \<Rightarrow> (string, 'd) omap" where
  "publish name ds m = fold (\<lambda>d. om_assign (name d) d) ds m"

definition retract :: "('d \<Rightarrow> string) \<Rightarrow> 'd list \<Rightarrow> (string, 'd) omap \<Rightarrow> (string, 'd) omap" where
  "retract name ds m = fold (\<lambda>d. um_erase (name d)) ds m"

definition register_extension :: "Extension \<Rightarrow> ExtensionRegistry \<Rightarrow> bool \<times> ExtensionRegistry" where
  "register_extension x r =
     (if \<not> check_dependencies (ext_metadata x) r then (False, r)
      else case load_ext x of
          (False, _) \<Rightarrow> (False, r)
        | (True, x') \<Rightarrow>
            let i = ext_id (ext_metadata x) in
            (True, r\<lparr>extensions := om_assign i x' (extensions r),
                     commands_tab := publish cmd_name (commands_of x') (commands_tab r),
                     node_schemas := publish sn_name (node_schemas_of x') (node_schemas r),
                     mark_schemas := publish sm_name (mark_schemas_of x') (mark_schemas r),
                     registry_calls := registry_calls r @ map (\<lambda>k. Extension_loaded k i) [0..<loaded_callbacks r]\<rparr>))"

definition unregister_extension :: "string \<Rightarrow> ExtensionRegistry \<Rightarrow> bool \<times> ExtensionRegistry" where
  "unregister_extension i r =
     (case map_of (extensions r) i of
        None \<Rightarrow> (False, r)
      | Some x \<Rightarrow>
          (True, r\<lparr>extensions := um_erase i (extensions r),
                   commands_tab := retract cmd_name (commands_of x) (commands_tab r),
                   node_schemas := retract sn_name (node_schemas_of x) (node_schemas r),
                   mark_schemas := retract sm_name (mark_schemas_of x) (mark_schemas r),
                   registry_calls := registry_calls r @ map (\<lambda>k. Extension_unloaded k i) [0..<unloaded_callbacks r]\<rparr>))"

definition get_extension :: "string \<Rightarrow> ExtensionRegistry \<Rightarrow> Extension option" where
  "get_extension i r = map_of (extensions r) i"

definition get_command :: "string \<Rightarrow> ExtensionRegistry \<Rightarrow> CommandDefinition option" where
  "get_command n r = map_of (commands_tab r) n"

definition get_node_schema :: "string \<Rightarrow> ExtensionRegistry \<Rightarrow> SchemaNodeDefinition option" where
  "get_node_schema n r = map_of (node_schemas r) n"

definition get_mark_schema :: "string \<Rightarrow> ExtensionRegistry \<Rightarrow> SchemaMarkDefinition option" where
  "get_mark_schema n r = map_of (mark_schemas r) n"

definition get_all_commands :: "ExtensionRegistry \<Rightarrow> string list" where
  "get_all_commands r = map fst (commands_tab r)"

definition get_all_extensions :: "ExtensionRegistry \<Rightarrow> string list" where
  "get_all_extensions r = map fst (extensions r)"

section \<open>Core\<close>

datatype core_event = Listener_called nat string "(string, string) omap" | Extension_handled string string "(string, string) omap"

record ExtensibleEditorCore =
  registry :: ExtensionRegistry
  core_editor :: LamiaWYSIWYGEditor
  event_listeners :: "(string, nat list) omap"
  command_history :: "(string, string list) omap"
  command_performance :: "(string, nat) omap"
  command_usage_count :: "(string, nat) omap"
  events :: "core_event list"

definition initialize_core_extensions :: "ExtensionRegistry \<Rightarrow> ExtensionRegistry" where
  "initialize_core_extensions r =
     (let ai = (ExtensionMetadata_new ''core_ai'' ''Core AI Extension'' ''1.0.0'' ''Medusa'' AI_EXTENSION)\<lparr>ai_powered := True\<rparr>;
          co = ExtensionMetadata_new ''core_collaboration'' ''Core Collaboration Extension'' ''1.0.0'' ''Medusa''
                 COLLABORATION_EXTENSION
      in snd (register_extension (CollaborationExtension_new co) (snd (register_extension (AIExtension_new ai) r))))"

definition ExtensibleEditorCore_new :: ExtensibleEditorCore where
  "ExtensibleEditorCore_new = \<lparr>registry = initialize_core_extensions ExtensionRegistry_new,
     core_editor = LamiaWYSIWYGEditor_new, event_listeners = [], command_history = [], command_performance = [],
     command_usage_count = [], events = []\<rparr>"

definition add_event_listener :: "string \<Rightarrow> nat \<Rightarrow> ExtensibleEditorCore \<Rightarrow> ExtensibleEditorCore" where
  "add_event_listener ty l c =
     c\<lparr>event_listeners := om_assign ty ((case map_of (event_listeners c) ty of Some ls \<Rightarrow> ls | None \<Rightarrow> []) @ [l]) (event_listeners c)\<rparr>"

definition emit_event :: "string \<Rightarrow> (string, string) omap \<Rightarrow> ExtensibleEditorCore \<Rightarrow> ExtensibleEditorCore" where
  "emit_event ty dat c =
     c\<lparr>events := events c
        @ map (\<lambda>l. Listener_called l ty dat) (case map_of (event_listeners c) ty of Some ls \<Rightarrow> ls | None \<Rightarrow> [])
        @ map (\<lambda>i. Extension_handled i ty dat)
            (filter (\<lambda>i. case get_extension i (registry c) of Some x \<Rightarrow> enabled x | None \<Rightarrow> False)
              (get_all_extensions (registry c)))\<rparr>"

text \<open>The data of the event, and the command itself. \<open>micros\<close> is the measured duration and \<open>secs\<close> the clock in seconds.\<close>

definition executed_data :: "string \<Rightarrow> bool \<Rightarrow> nat \<Rightarrow> (string, string) omap" where
  "executed_data n ok micros =
     om_assign ''duration_us'' (to_string_nat micros) (om_assign ''success'' (bool_str ok) (om_assign ''command'' n []))"

definition execute_command ::
  "nat \<Rightarrow> nat \<Rightarrow> string \<Rightarrow> (string, string) omap \<Rightarrow> ExtensibleEditorCore \<Rightarrow> (bool \<times> ExtensibleEditorCore) outcome" where
  "execute_command micros secs n ps c =
     (case get_command n (registry c) of
        None \<Rightarrow> Returns (False, c)
      | Some cmd \<Rightarrow>
          if cmd_can_execute cmd = Some False then Returns (False, c)
          else
            case cmd_execute cmd of
              None \<Rightarrow> Throws ''bad_function_call''
            | Some f \<Rightarrow>
                let ok = f ps;
                    c' = c\<lparr>command_performance := om_assign n micros (command_performance c),
                           command_usage_count := om_assign n
                             ((case map_of (command_usage_count c) n of Some k \<Rightarrow> k | None \<Rightarrow> 0) + 1) (command_usage_count c),
                           command_history := om_assign n
                             ((case map_of (command_history c) n of Some h \<Rightarrow> h | None \<Rightarrow> []) @ [to_string_nat secs])
                             (command_history c)\<rparr>
                in Returns (ok, emit_event ''command_executed'' (executed_data n ok micros) c'))"

section \<open>Tables of contributions\<close>

text \<open>\<open>tracks\<close>: a table holds exactly the contributions of the registered extensions, and no name is
  contributed by two of them.\<close>

definition tracks :: "('d \<Rightarrow> string) \<Rightarrow> (Extension \<Rightarrow> 'd list) \<Rightarrow> (string, Extension) omap \<Rightarrow> (string, 'd) omap \<Rightarrow> bool" where
  "tracks name offers exts m \<longleftrightarrow> om_inv m \<and> om_inv exts
     \<and> (\<forall>n d. map_of m n = Some d \<longleftrightarrow> (\<exists>i x. map_of exts i = Some x \<and> d \<in> set (offers x) \<and> name d = n))
     \<and> (\<forall>i x d j y e. map_of exts i = Some x \<longrightarrow> d \<in> set (offers x) \<longrightarrow> map_of exts j = Some y
          \<longrightarrow> e \<in> set (offers y) \<longrightarrow> name d = name e \<longrightarrow> i = j)"

lemma publish_inv: "om_inv m \<Longrightarrow> om_inv (publish name ds m)"
  unfolding publish_def by (induction ds arbitrary: m) (auto simp: om_inv_assign)

lemma publish_find:
  "distinct (map name ds) \<Longrightarrow> map_of (publish name ds m) n = Some e \<longleftrightarrow>
     e \<in> set ds \<and> name e = n \<or> n \<notin> name ` set ds \<and> map_of m n = Some e"
proof (induction ds arbitrary: m)
  case Nil
  then show ?case by (simp add: publish_def)
next
  case (Cons a ds)
  have "publish name (a # ds) m = publish name ds (om_assign (name a) a m)" by (simp add: publish_def)
  with Cons show ?case by (auto simp: om_find_assign)
qed

lemma retract_inv: "om_inv m \<Longrightarrow> om_inv (retract name ds m)"
  unfolding retract_def by (induction ds arbitrary: m) (auto simp: om_inv_erase)

lemma retract_find: "map_of (retract name ds m) n = (if n \<in> name ` set ds then None else map_of m n)"
  unfolding retract_def by (induction ds arbitrary: m) (auto simp: um_find_erase)

lemma tracks_find:
  "tracks name offers exts m \<Longrightarrow>
     map_of m n = Some d \<longleftrightarrow> (\<exists>i x. map_of exts i = Some x \<and> d \<in> set (offers x) \<and> name d = n)"
  by (simp add: tracks_def)

lemma tracks_owner:
  assumes "tracks name offers exts m" "map_of exts i = Some x" "d \<in> set (offers x)" "map_of exts j = Some y"
    and "e \<in> set (offers y)" "name d = name e"
  shows "i = j"
proof -
  have "\<forall>i x d j y e. map_of exts i = Some x \<longrightarrow> d \<in> set (offers x) \<longrightarrow> map_of exts j = Some y
          \<longrightarrow> e \<in> set (offers y) \<longrightarrow> name d = name e \<longrightarrow> i = j"
    using assms(1) unfolding tracks_def by (elim conjE)
  from this [rule_format, OF assms(2-6)] show ?thesis .
qed

lemma tracks_publish:
  assumes t: "tracks name offers exts m" and i: "map_of exts i = None"
    and d: "distinct (map name (offers x))" "\<forall>d \<in> set (offers x). map_of m (name d) = None"
  shows "tracks name offers (om_assign i x exts) (publish name (offers x) m)"
proof -
  have fresh: False
    if "d \<in> set (offers x)" "map_of exts j = Some y" "e \<in> set (offers y)" "name d = name e" for d j y e
  proof -
    have "map_of m (name e) = Some e" using tracks_find [OF t] that(2,3) by blast
    then show False using d(2) that(1,4) by auto
  qed
  have 1: "map_of (publish name (offers x) m) n = Some e \<longleftrightarrow>
      (\<exists>j y. map_of (om_assign i x exts) j = Some y \<and> e \<in> set (offers y) \<and> name e = n)" (is "_ \<longleftrightarrow> ?R") for n e
  proof
    assume "map_of (publish name (offers x) m) n = Some e"
    then consider "e \<in> set (offers x)" "name e = n" | "map_of m n = Some e"
      using publish_find [OF d(1)] by blast
    then show ?R
    proof cases
      case 1
      then show ?thesis by (intro exI [of _ i] exI [of _ x]) (simp add: om_find_assign)
    next
      case 2
      then obtain j y where "map_of exts j = Some y" "e \<in> set (offers y)" "name e = n"
        using tracks_find [OF t] by blast
      then show ?thesis using i by (intro exI [of _ j] exI [of _ y]) (auto simp: om_find_assign)
    qed
  next
    assume ?R
    then obtain j y where j: "map_of (om_assign i x exts) j = Some y" "e \<in> set (offers y)" "name e = n" by blast
    show "map_of (publish name (offers x) m) n = Some e"
    proof (cases "j = i")
      case True
      then show ?thesis using j publish_find [OF d(1)] by (auto simp: om_find_assign)
    next
      case False
      then have *: "map_of exts j = Some y" using j(1) by (simp add: om_find_assign)
      then have "map_of m n = Some e" using tracks_find [OF t] j(2,3) by blast
      moreover have "n \<notin> name ` set (offers x)"
      proof
        assume "n \<in> name ` set (offers x)"
        then obtain d where "d \<in> set (offers x)" "name d = name e" using j(3) by auto
        then show False using fresh * j(2) by blast
      qed
      ultimately show ?thesis using publish_find [OF d(1)] by blast
    qed
  qed
  have 2: "j = k" if "map_of (om_assign i x exts) j = Some y" "e \<in> set (offers y)"
      "map_of (om_assign i x exts) k = Some z" "f \<in> set (offers z)" "name e = name f" for j y e k z f
  proof (cases "j = i")
    case True
    then have "e \<in> set (offers x)" using that(1,2) by (simp add: om_find_assign)
    then show ?thesis using that(3-5) True fresh [of e k z f] by (auto simp: om_find_assign split: if_splits)
  next
    case False
    then have *: "map_of exts j = Some y" using that(1) by (simp add: om_find_assign)
    have "k \<noteq> i"
    proof
      assume "k = i"
      then have "f \<in> set (offers x)" using that(3,4) by (simp add: om_find_assign)
      then show False using fresh [OF _ * that(2)] that(5) by metis
    qed
    then show ?thesis using that tracks_owner [OF t * that(2)] by (simp add: om_find_assign)
  qed
  have "om_inv (publish name (offers x) m)" "om_inv (om_assign i x exts)"
    using t by (auto simp: tracks_def publish_inv om_inv_assign)
  then show ?thesis unfolding tracks_def using 1 2 by blast
qed

lemma tracks_retract:
  assumes t: "tracks name offers exts m" and i: "map_of exts i = Some x"
  shows "tracks name offers (um_erase i exts) (retract name (offers x) m)"
proof -
  have 1: "map_of (retract name (offers x) m) n = Some e \<longleftrightarrow>
      (\<exists>j y. map_of (um_erase i exts) j = Some y \<and> e \<in> set (offers y) \<and> name e = n)" (is "?L \<longleftrightarrow> ?R") for n e
  proof
    assume ?L
    then have n: "n \<notin> name ` set (offers x)" "map_of m n = Some e" by (auto simp: retract_find split: if_splits)
    then obtain j y where j: "map_of exts j = Some y" "e \<in> set (offers y)" "name e = n"
      using tracks_find [OF t] by blast
    then have "j \<noteq> i" using n(1) i by auto
    then show ?R using j by (intro exI [of _ j] exI [of _ y]) (simp add: um_find_erase)
  next
    assume ?R
    then obtain j y where j: "j \<noteq> i" "map_of exts j = Some y" "e \<in> set (offers y)" "name e = n"
      by (auto simp: um_find_erase split: if_splits)
    have "n \<notin> name ` set (offers x)"
    proof
      assume "n \<in> name ` set (offers x)"
      then obtain d where "d \<in> set (offers x)" "name d = name e" using j(4) by auto
      then show False using tracks_owner [OF t i _ j(2,3)] j(1) by blast
    qed
    moreover have "map_of m n = Some e" using tracks_find [OF t] j by blast
    ultimately show ?L by (simp add: retract_find)
  qed
  have 2: "j = k" if "map_of (um_erase i exts) j = Some y" "e \<in> set (offers y)"
      "map_of (um_erase i exts) k = Some z" "f \<in> set (offers z)" "name e = name f" for j y e k z f
    using that tracks_owner [OF t] by (simp add: um_find_erase split: if_splits)
  have "om_inv (retract name (offers x) m)" "om_inv (um_erase i exts)"
    using t by (auto simp: tracks_def retract_inv om_inv_erase)
  then show ?thesis unfolding tracks_def using 1 2 by blast
qed

section \<open>Sessions\<close>

text \<open>\<open>registry_session\<close>: what clients do who give every extension an id of its own and every
  contribution a name of its own. Anything may be unregistered at any time.\<close>

definition own_names :: "('d \<Rightarrow> string) \<Rightarrow> 'd list \<Rightarrow> (string, 'd) omap \<Rightarrow> bool" where
  "own_names name ds m \<longleftrightarrow> distinct (map name ds) \<and> list_all (\<lambda>d. map_of m (name d) = None) ds"

definition newcomer :: "Extension \<Rightarrow> ExtensionRegistry \<Rightarrow> bool" where
  "newcomer x r \<longleftrightarrow> map_of (extensions r) (ext_id (ext_metadata x)) = None
     \<and> own_names cmd_name (commands_of x) (commands_tab r)
     \<and> own_names sn_name (node_schemas_of x) (node_schemas r)
     \<and> own_names sm_name (mark_schemas_of x) (mark_schemas r)"

inductive registry_session :: "ExtensionRegistry \<Rightarrow> bool" where
  rs_start: "registry_session ExtensionRegistry_new"
| rs_register: "registry_session r \<Longrightarrow> newcomer x r \<Longrightarrow> registry_session (snd (register_extension x r))"
| rs_unregister: "registry_session r \<Longrightarrow> registry_session (snd (unregister_extension i r))"
| rs_callbacks: "registry_session r \<Longrightarrow> registry_session (r\<lparr>loaded_callbacks := k, unloaded_callbacks := l\<rparr>)"

definition registry_inv :: "ExtensionRegistry \<Rightarrow> bool" where
  "registry_inv r \<longleftrightarrow> tracks cmd_name commands_of (extensions r) (commands_tab r)
     \<and> tracks sn_name node_schemas_of (extensions r) (node_schemas r)
     \<and> tracks sm_name mark_schemas_of (extensions r) (mark_schemas r)
     \<and> (\<forall>i x. map_of (extensions r) i = Some x \<longrightarrow> loaded x \<and> ext_id (ext_metadata x) = i)"

lemma registry_inv_register:
  assumes r: "registry_inv r" and n: "newcomer x r"
  shows "registry_inv (snd (register_extension x r))"
proof (cases "check_dependencies (ext_metadata x) r \<and> loads x")
  case True
  let ?x = "x\<lparr>loaded := True\<rparr>" let ?i = "ext_id (ext_metadata x)"
  have *: "commands_of ?x = commands_of x" "node_schemas_of ?x = node_schemas_of x"
    "mark_schemas_of ?x = mark_schemas_of x" by simp_all
  have "tracks cmd_name commands_of (om_assign ?i ?x (extensions r)) (publish cmd_name (commands_of ?x) (commands_tab r))"
    "tracks sn_name node_schemas_of (om_assign ?i ?x (extensions r)) (publish sn_name (node_schemas_of ?x) (node_schemas r))"
    "tracks sm_name mark_schemas_of (om_assign ?i ?x (extensions r)) (publish sm_name (mark_schemas_of ?x) (mark_schemas r))"
    using r n unfolding registry_inv_def newcomer_def own_names_def list_all_iff
    by (intro tracks_publish; simp)+
  then show ?thesis using True r
    by (simp add: register_extension_def load_ext_def Let_def registry_inv_def om_find_assign)
next
  case False
  then show ?thesis using r by (auto simp: register_extension_def load_ext_def)
qed

lemma registry_inv_unregister:
  assumes "registry_inv r" shows "registry_inv (snd (unregister_extension i r))"
  using assms by (auto simp: unregister_extension_def registry_inv_def tracks_retract um_find_erase split: option.split)

lemma tracks_empty: "tracks name offers [] []"
  by (simp add: tracks_def)

lemma registry_session_inv: "registry_session r \<Longrightarrow> registry_inv r"
proof (induction rule: registry_session.induct)
  case rs_start
  show ?case by (simp add: registry_inv_def ExtensionRegistry_new_def tracks_empty)
next
  case (rs_callbacks r k l)
  then show ?case by (simp add: registry_inv_def)
qed (simp_all add: registry_inv_register registry_inv_unregister)

section \<open>Properties\<close>



text \<open>Executing a command the core offers and allows returns what the command returns, counts one more
  use of it, appends the time to its history, and tells every listener of
  \<open>command_executed\<close> and then every enabled extension, in the order of their ids; a command that
  is unknown or not allowed returns false and leaves no trace.\<close>

theorem executed_command_is_recorded:
  "(case get_command n (registry c) of
      None \<Rightarrow> execute_command us s n ps c = Returns (False, c)
    | Some cmd \<Rightarrow>
        (if cmd_can_execute cmd = Some False then execute_command us s n ps c = Returns (False, c)
         else case cmd_execute cmd of
             None \<Rightarrow> execute_command us s n ps c = Throws ''bad_function_call''
           | Some f \<Rightarrow> \<exists>c'. execute_command us s n ps c = Returns (f ps, c')
               \<and> map_of (command_usage_count c') n
                   = Some (Suc (case map_of (command_usage_count c) n of Some k \<Rightarrow> k | None \<Rightarrow> 0))
               \<and> map_of (command_history c') n
                   = Some ((case map_of (command_history c) n of Some h \<Rightarrow> h | None \<Rightarrow> []) @ [to_string_nat s])
               \<and> events c' = events c
                   @ map (\<lambda>l. Listener_called l ''command_executed'' (executed_data n (f ps) us))
                       (case map_of (event_listeners c) ''command_executed'' of Some ls \<Rightarrow> ls | None \<Rightarrow> [])
                   @ map (\<lambda>i. Extension_handled i ''command_executed'' (executed_data n (f ps) us))
                       (filter (\<lambda>i. \<exists>x. get_extension i (registry c) = Some x \<and> enabled x)
                         (get_all_extensions (registry c)))))"
proof -
  have f: "filter (\<lambda>i. case get_extension i r of Some x \<Rightarrow> enabled x | None \<Rightarrow> False) is
      = filter (\<lambda>i. \<exists>x. get_extension i r = Some x \<and> enabled x) is" for r and "is" :: "string list"
    by (intro filter_cong) (auto split: option.split)
  show ?thesis
    by (simp add: execute_command_def Let_def emit_event_def om_find_assign f split: option.split)
qed

text \<open>Processing the queue of a collaboration drops every operation unseen.\<close>

lemma process_operations_drops: "process_operations c = c\<lparr>operation_queue := []\<rparr>"
proof (induction c rule: process_operations.induct)
  case (1 c)
  then show ?case by (subst process_operations.simps) (cases c; auto)
qed

text \<open>Two extensions that contribute the same name get in each other's way: removing one takes the name
  from both. And a dependency can be removed from under its dependents.\<close>

lemma shared_name_is_lost:
  assumes "map_of (extensions r) i = Some x" "c \<in> set (commands_of x)"
  shows "get_command (cmd_name c) (snd (unregister_extension i r)) = None"
  using assms by (auto simp: unregister_extension_def get_command_def retract_find)

lemma dependency_can_be_removed:
  assumes "map_of (extensions r) i = Some x" "map_of (extensions r) d \<noteq> None" "d \<noteq> i" "d \<in> set (dependencies (ext_metadata x))"
  shows "get_extension i (snd (unregister_extension d r)) = Some x" "get_extension d (snd (unregister_extension d r)) = None"
  using assms by (auto simp: unregister_extension_def get_extension_def um_find_erase)

section \<open>The core extensions\<close>

lemma core_session: "registry_session (initialize_core_extensions ExtensionRegistry_new)"
  unfolding initialize_core_extensions_def Let_def
  by (intro rs_register rs_start)
    (simp_all add: newcomer_def own_names_def ExtensionRegistry_new_def ExtensionMetadata_new_def AIExtension_new_def
      CollaborationExtension_new_def Extension_new_def ai_commands_def collaboration_commands_def
      CommandDefinition_new_def register_extension_def check_dependencies_def load_ext_def publish_def Let_def
      om_find_assign)


end
