(* ===== verification/Gateway_Traffic.thy ===== *)
theory Gateway_Traffic
  imports Std_Containers
begin

text \<open>
  The rate limiter and the load balancer of \<open>medusa_api_gateway.hpp\<close>. Points of the steady clock
  are nanoseconds, an \<open>int\<close>, and a parameter of the check; the round-robin index is the atomic
  \<open>std::size_t\<close>, a \<open>64 word\<close>. Each class is used by one thread at a time.
\<close>

section \<open>Rate limiter\<close>

record RateLimitEntry =
  request_count :: int
  window_start :: int

record RateLimiter =
  limits :: "(string, RateLimitEntry) umap"
  max_requests_per_minute :: int

definition RateLimiter_new :: "int \<Rightarrow> RateLimiter" where
  "RateLimiter_new n = \<lparr>limits = [], max_requests_per_minute = n\<rparr>"

text \<open>A minute in nanoseconds, and the entry \<open>limits_[identifier]\<close> inserts when there is none.\<close>

definition minute :: int where "minute = 60000000000"

definition entry_of :: "string \<Rightarrow> RateLimiter \<Rightarrow> RateLimitEntry" where
  "entry_of i r = (case map_of (limits r) i of Some x \<Rightarrow> x | None \<Rightarrow> \<lparr>request_count = 0, window_start = 0\<rparr>)"

definition put_entry :: "string \<Rightarrow> RateLimitEntry \<Rightarrow> RateLimiter \<Rightarrow> RateLimiter" where
  "put_entry i x r = r\<lparr>limits := um_assign i x (limits r)\<rparr>"

definition check_limit :: "int \<Rightarrow> string \<Rightarrow> RateLimiter \<Rightarrow> bool \<times> RateLimiter" where
  "check_limit now i r =
     (let x = entry_of i r in
      if 1 \<le> (now - window_start x) div minute
      then (True, put_entry i \<lparr>request_count = 1, window_start = now\<rparr> r)
      else if max_requests_per_minute r \<le> request_count x then (False, put_entry i x r)
      else (True, put_entry i (x\<lparr>request_count := request_count x + 1\<rparr>) r))"

definition reset_limits :: "RateLimiter \<Rightarrow> RateLimiter" where
  "reset_limits r = r\<lparr>limits := []\<rparr>"

section \<open>Load balancer\<close>

record LoadBalancer =
  endpoints :: "string list"
  current_index :: "64 word"

definition LoadBalancer_new :: "string list \<Rightarrow> LoadBalancer" where
  "LoadBalancer_new es = \<lparr>endpoints = es, current_index = 0\<rparr>"

definition get_next_endpoint :: "LoadBalancer \<Rightarrow> string \<times> LoadBalancer" where
  "get_next_endpoint b =
     (if endpoints b = [] then ([], b)
      else (endpoints b ! (unat (current_index b) mod length (endpoints b)), b\<lparr>current_index := current_index b + 1\<rparr>))"

definition add_endpoint :: "string \<Rightarrow> LoadBalancer \<Rightarrow> LoadBalancer" where
  "add_endpoint x b = b\<lparr>endpoints := endpoints b @ [x]\<rparr>"

definition remove_endpoint :: "string \<Rightarrow> LoadBalancer \<Rightarrow> LoadBalancer" where
  "remove_endpoint x b = b\<lparr>endpoints := filter (\<lambda>y. y \<noteq> x) (endpoints b)\<rparr>"

section \<open>Runs of the limiter\<close>

text \<open>A client's requests as times and identifiers: the limiter after them, and those it let through.\<close>

fun checked :: "(int \<times> string) list \<Rightarrow> RateLimiter \<Rightarrow> RateLimiter" where
  "checked [] r = r"
| "checked ((t, i) # qs) r = checked qs (snd (check_limit t i r))"

fun admitted :: "(int \<times> string) list \<Rightarrow> RateLimiter \<Rightarrow> (int \<times> string) list" where
  "admitted [] r = []"
| "admitted ((t, i) # qs) r =
     (if fst (check_limit t i r) then [(t, i)] else []) @ admitted qs (snd (check_limit t i r))"

lemma checked_append: "checked (ps @ qs) r = checked qs (checked ps r)"
  by (induction ps r rule: checked.induct) auto

lemma entry_put: "entry_of j (put_entry i x r) = (if j = i then x else entry_of j r)"
  by (simp add: entry_of_def put_entry_def um_find_assign)

lemma max_put [simp]: "max_requests_per_minute (put_entry i x r) = max_requests_per_minute r"
  by (simp add: put_entry_def)

lemma window_over: "1 \<le> (d :: int) div minute \<longleftrightarrow> minute \<le> d"
  by (subst le_div_iff_mult_le) (simp_all add: minute_def)

text \<open>One check as a function of the identifier's own entry.\<close>

definition verdict :: "int \<Rightarrow> int \<Rightarrow> RateLimitEntry \<Rightarrow> bool \<times> RateLimitEntry" where
  "verdict m now x =
     (if minute \<le> now - window_start x then (True, \<lparr>request_count = 1, window_start = now\<rparr>)
      else if m \<le> request_count x then (False, x)
      else (True, x\<lparr>request_count := request_count x + 1\<rparr>))"

lemma check_limit_verdict:
  "fst (check_limit now i r) = fst (verdict (max_requests_per_minute r) now (entry_of i r))"
  "entry_of j (snd (check_limit now i r)) =
     (if j = i then snd (verdict (max_requests_per_minute r) now (entry_of i r)) else entry_of j r)"
  "max_requests_per_minute (snd (check_limit now i r)) = max_requests_per_minute r"
  by (simp_all add: check_limit_def verdict_def Let_def window_over entry_put)

text \<open>The times one identifier is let through depend on its own requests only.\<close>

fun passes :: "int \<Rightarrow> int list \<Rightarrow> RateLimitEntry \<Rightarrow> int list" where
  "passes m [] x = []"
| "passes m (t # ts) x = (if fst (verdict m t x) then [t] else []) @ passes m ts (snd (verdict m t x))"

definition own :: "string \<Rightarrow> (int \<times> string) list \<Rightarrow> int list" where
  "own i qs = map fst (filter (\<lambda>q. snd q = i) qs)"

lemma own_simps [simp]:
  "own i [] = []" "own i ((t, j) # qs) = (if j = i then [t] else []) @ own i qs" "own i (ps @ qs) = own i ps @ own i qs"
  by (simp_all add: own_def)

lemma own_admitted: "own i (admitted qs r) = passes (max_requests_per_minute r) (own i qs) (entry_of i r)"
  by (induction qs r rule: admitted.induct) (auto simp: check_limit_verdict)

lemma passes_subset: "set (passes m ts x) \<subseteq> set ts"
  by (induction m ts x rule: passes.induct) auto

lemma passes_late: "\<forall>u \<in> set ts. b \<le> u \<Longrightarrow> filter (\<lambda>u. a \<le> u \<and> u < b) (passes m ts x) = []"
  using passes_subset [of m ts x] by (fastforce simp: filter_empty_conv)

text \<open>Within the window of an entry no more pass than it has left.\<close>

lemma passes_in_window:
  "sorted ts \<Longrightarrow> length (filter (\<lambda>u. u < window_start x + minute) (passes m ts x)) \<le> nat (m - request_count x)"
proof (induction m ts x rule: passes.induct)
  case (2 m t ts x)
  show ?case
  proof (cases "minute \<le> t - window_start x")
    case True
    then have "\<forall>u \<in> set ts. window_start x + minute \<le> u" "\<not> t < window_start x + minute" using 2 by auto
    moreover have "set (passes m ts y) \<subseteq> set ts" for y by (rule passes_subset)
    ultimately have "filter (\<lambda>u. u < window_start x + minute) (passes m ts y) = []" for y
      by (fastforce simp: filter_empty_conv)
    then show ?thesis using True \<open>\<not> t < window_start x + minute\<close> by (simp add: verdict_def)
  next
    case False
    then show ?thesis using 2 by (auto simp: verdict_def)
  qed
qed simp

text \<open>Within any minute: what the open window has left, and one new window; two windows at most.\<close>

lemma length_filter_imp: "(\<And>u. P u \<Longrightarrow> Q u) \<Longrightarrow> length (filter P us) \<le> length (filter Q us)"
  by (induction us) auto

lemma passes_in_minute:
  assumes "sorted ts" "0 \<le> request_count x"
  shows "length (filter (\<lambda>u. t \<le> u \<and> u < t + minute) (passes m ts x)) \<le> 2 * nat (max 1 m)
    \<and> (t < window_start x + minute \<longrightarrow>
      length (filter (\<lambda>u. t \<le> u \<and> u < t + minute) (passes m ts x)) \<le> nat (m - request_count x) + nat (max 1 m))"
  using assms
proof (induction m ts x rule: passes.induct)
  case (2 m n ts x)
  let ?f = "\<lambda>us. filter (\<lambda>u. t \<le> u \<and> u < t + minute) us"
  let ?y = "snd (verdict m n x)"
  have s: "sorted ts" "\<forall>u \<in> set ts. n \<le> u" using 2(2) by auto
  have c: "0 \<le> request_count ?y" using 2(3) by (auto simp: verdict_def)
  have ih: "length (?f (passes m ts ?y)) \<le> 2 * nat (max 1 m)"
    "t < window_start ?y + minute \<Longrightarrow> length (?f (passes m ts ?y)) \<le> nat (m - request_count ?y) + nat (max 1 m)"
    using 2(1) [OF s(1) c] by blast+
  consider (new) "minute \<le> n - window_start x" | (full) "\<not> minute \<le> n - window_start x" "m \<le> request_count x"
    | (room) "\<not> minute \<le> n - window_start x" "\<not> m \<le> request_count x" by blast
  then show "length (?f (passes m (n # ts) x)) \<le> 2 * nat (max 1 m)
    \<and> (t < window_start x + minute \<longrightarrow> length (?f (passes m (n # ts) x)) \<le> nat (m - request_count x) + nat (max 1 m))"
  proof cases
    case new
    let ?z = "\<lparr>request_count = 1, window_start = n\<rparr>"
    have y: "verdict m n x = (True, ?z)" using new by (simp add: verdict_def)
    consider (late) "t + minute \<le> n" | (inside) "t \<le> n" "n < t + minute" | (early) "n < t" by linarith
    then show ?thesis
    proof cases
      case late
      then have "\<forall>u \<in> set ts. t + minute \<le> u" using s by auto
      then show ?thesis using late passes_late [of ts "t + minute" t m ?z] by (simp add: y)
    next
      case inside
      have "length (?f (passes m ts ?z)) \<le> length (filter (\<lambda>u. u < window_start ?z + minute) (passes m ts ?z))"
        using inside by (intro length_filter_imp) auto
      also have "\<dots> \<le> nat (m - 1)" using passes_in_window [of ts ?z m] s by simp
      finally have "Suc (length (?f (passes m ts ?z))) \<le> nat (max 1 m)" by linarith
      then show ?thesis using inside by (simp add: y)
    next
      case early
      have "\<not> t < window_start x + minute" using new early by linarith
      then show ?thesis using early ih(1) by (simp add: y)
    qed
  next
    case full
    then have "verdict m n x = (False, x)" by (simp add: verdict_def)
    then show ?thesis using ih by simp
  next
    case room
    let ?z = "x\<lparr>request_count := request_count x + 1\<rparr>"
    have y: "verdict m n x = (True, ?z)" using room by (simp add: verdict_def)
    consider (late) "t + minute \<le> n" | (inside) "t \<le> n" "n < t + minute" | (early) "n < t" by linarith
    then show ?thesis
    proof cases
      case late
      then have "\<forall>u \<in> set ts. t + minute \<le> u" using s by auto
      then show ?thesis using late passes_late [of ts "t + minute" t m ?z] by (simp add: y)
    next
      case inside
      then have "t < window_start x + minute" using room by linarith
      then have "length (?f (passes m ts ?z)) \<le> nat (m - request_count x - 1) + nat (max 1 m)"
        using ih(2) by (simp add: y)
      moreover have "Suc (nat (m - request_count x - 1)) = nat (m - request_count x)" "nat (m - request_count x) \<le> nat (max 1 m)"
        using room(2) 2(3) by linarith+
      ultimately show ?thesis using inside by (simp add: y)
    next
      case early
      then show ?thesis using ih room by (auto simp: y)
    qed
  qed
qed simp

lemma sorted_own: "sorted (map fst qs) \<Longrightarrow> sorted (own i qs)"
  by (simp add: own_def sorted_filter)

section \<open>Properties of the limiter\<close>

text \<open>Whatever the requests of all clients are, no minute sees more than twice the configured
  number of requests of one client admitted (or two, where fewer than one per minute is configured).\<close>

theorem limiter_bounds_every_minute:
  assumes "sorted (map fst qs)"
  shows "length (filter (\<lambda>(u, j). j = i \<and> t \<le> u \<and> u < t + minute) (admitted qs (RateLimiter_new n))) \<le> 2 * nat (max 1 n)"
proof -
  have "length (filter (\<lambda>(u, j). j = i \<and> t \<le> u \<and> u < t + minute) ps) = length (filter (\<lambda>u. t \<le> u \<and> u < t + minute) (own i ps))"
    for ps by (induction ps) (auto split: if_splits)
  then show ?thesis
    using passes_in_minute [OF sorted_own [OF assms], of "\<lparr>request_count = 0, window_start = 0\<rparr>"]
    by (simp add: own_admitted RateLimiter_new_def entry_of_def)
qed

lemma limiter_bounds_every_minute_witness:
  "length (filter (\<lambda>(u, j). j = ''10.0.0.1'' \<and> 0 \<le> u \<and> u < 0 + minute)
     (admitted [(0, ''10.0.0.1''), (1, ''10.0.0.2''), (2, ''10.0.0.1'')] (RateLimiter_new 1))) \<le> 2"
  using limiter_bounds_every_minute [of "[(0, ''10.0.0.1''), (1, ''10.0.0.2''), (2, ''10.0.0.1'')]" "''10.0.0.1''" 0 1]
  by simp

text \<open>The factor two is real: the window is fixed, so a client with two requests a minute gets four
  through within a second around the end of a window.\<close>

lemma limiter_burst:
  "admitted [(59500000000, c), (59600000000, c), (60000000000, c), (60100000000, c)] (RateLimiter_new 2)
     = [(59500000000, c), (59600000000, c), (60000000000, c), (60100000000, c)]"
  by (simp add: check_limit_def RateLimiter_new_def entry_of_def put_entry_def minute_def)

text \<open>A refused request found its window open, so the window is over a minute later.\<close>

lemma window_not_later:
  assumes "sorted (map fst qs)" "\<forall>q \<in> set qs. 0 \<le> fst q \<and> fst q \<le> t" "0 \<le> t"
    and "\<forall>i. window_start (entry_of i r) \<le> t"
  shows "window_start (entry_of i (checked qs r)) \<le> t"
  using assms
proof (induction qs arbitrary: r)
  case (Cons q qs)
  obtain n j where q: "q = (n, j)" by (cases q)
  have "\<forall>i. window_start (entry_of i (snd (check_limit n j r))) \<le> t"
    using Cons.prems q by (auto simp: check_limit_verdict verdict_def)
  then show ?case using Cons q by simp
qed simp

lemma checked_others: "own i qs = [] \<Longrightarrow> entry_of i (checked qs r) = entry_of i r"
  by (induction qs r rule: checked.induct) (auto simp: check_limit_verdict split: if_splits)

lemma max_checked [simp]: "max_requests_per_minute (checked qs r) = max_requests_per_minute r"
  by (induction qs r rule: checked.induct) (auto simp: check_limit_verdict)

text \<open>C16. A client that was refused is served again: its next request at least a minute after the
  refusal is admitted, whatever the other clients do in between.\<close>

theorem refused_client_is_served_again:
  assumes "sorted (map fst qs)" "\<forall>q \<in> set qs. 0 \<le> fst q \<and> fst q \<le> t"
    and "\<not> fst (check_limit t i (checked qs (RateLimiter_new n)))"
    and "own i ps = []" "0 \<le> t" "t + minute \<le> t'"
  shows "fst (check_limit t' i (checked (qs @ (t, i) # ps) (RateLimiter_new n)))"
proof -
  let ?r = "checked qs (RateLimiter_new n)"
  have "window_start (entry_of i ?r) \<le> t"
    using assms(1,2,5) by (intro window_not_later) (auto simp: RateLimiter_new_def entry_of_def)
  moreover have "snd (verdict (max_requests_per_minute ?r) t (entry_of i ?r)) = entry_of i ?r"
    using assms(3) by (auto simp: check_limit_verdict verdict_def split: if_splits)
  ultimately show ?thesis
    using assms(4,6) by (simp add: checked_append check_limit_verdict checked_others) (simp add: verdict_def)
qed

lemma refused_client_is_served_again_witness:
  "fst (check_limit 70000000000 ''a'' (checked ([(1, ''a'')] @ (2, ''a'') # [(3, ''b'')]) (RateLimiter_new 1)))"
proof (rule refused_client_is_served_again)
  show "\<not> fst (check_limit 2 ''a'' (checked [(1, ''a'')] (RateLimiter_new 1)))"
    by (simp add: check_limit_def RateLimiter_new_def entry_of_def put_entry_def minute_def)
qed (simp_all add: minute_def)

section \<open>Properties of the load balancer\<close>

fun calls :: "nat \<Rightarrow> LoadBalancer \<Rightarrow> string list" where
  "calls 0 b = []"
| "calls (Suc k) b = fst (get_next_endpoint b) # calls k (snd (get_next_endpoint b))"

lemma endpoints_next [simp]: "endpoints (snd (get_next_endpoint b)) = endpoints b"
  by (simp add: get_next_endpoint_def)

lemma calls_nth:
  assumes "endpoints b \<noteq> []" "unat (current_index b) + k \<le> 2 ^ 64"
  shows "calls k b = map (\<lambda>j. endpoints b ! ((unat (current_index b) + j) mod length (endpoints b))) [0..<k]"
  using assms
proof (induction k arbitrary: b)
  case (Suc k)
  have n: "fst (get_next_endpoint b) = endpoints b ! (unat (current_index b) mod length (endpoints b))"
    "current_index (snd (get_next_endpoint b)) = current_index b + 1"
    using Suc.prems(1) by (simp_all add: get_next_endpoint_def)
  show ?case
  proof (cases k)
    case 0
    then show ?thesis using n by simp
  next
    case (Suc l)
    then have "unat (current_index b + 1) = Suc (unat (current_index b))"
      using Suc.prems(2) by (simp add: unat_plus_if')
    then have "calls k (snd (get_next_endpoint b))
        = map (\<lambda>j. endpoints b ! ((unat (current_index b) + Suc j) mod length (endpoints b))) [0..<k]"
      using Suc.IH [of "snd (get_next_endpoint b)"] Suc.prems n by simp
    then show ?thesis using n by (simp add: upt_conv_Cons map_Suc_upt [symmetric] del: upt_Suc)
  qed
qed simp

lemma round_is_rotation:
  assumes "xs \<noteq> []" shows "map (\<lambda>j. xs ! ((i + j) mod length xs)) [0..<length xs] = rotate i xs"
  using assms by (intro nth_equalityI) (simp_all add: nth_rotate)

lemma mset_rotate_list: "mset (rotate i xs) = mset xs"
  by (simp add: rotate_drop_take) (metis append_take_drop_id mset_append union_commute)

lemma upt_rounds: "[0..<n + m] = [0..<n] @ map (\<lambda>j. n + j) [0..<m]"
  using map_add_upt [of n m] upt_add_eq_append [of 0 n m] by (simp add: add.commute)

text \<open>The load balancer is fair and leaves no endpoint out: as long as its counter does not wrap,
  any number of full rounds hands out every endpoint once per round, starting anywhere.\<close>

theorem balancer_is_fair:
  assumes "unat (current_index b) + k * length (endpoints b) \<le> 2 ^ 64" "endpoints b \<noteq> []"
  shows "mset (calls (k * length (endpoints b)) b) = repeat_mset k (mset (endpoints b))"
proof -
  let ?xs = "endpoints b" and ?i = "unat (current_index b)"
  have "mset (map (\<lambda>j. ?xs ! ((i + j) mod length ?xs)) [0..<k * length ?xs]) = repeat_mset k (mset ?xs)" for i
  proof (induction k arbitrary: i)
    case (Suc k)
    have "[0..<Suc k * length ?xs] = [0..<length ?xs] @ map (\<lambda>j. length ?xs + j) [0..<k * length ?xs]"
      unfolding mult_Suc by (rule upt_rounds)
    then have "mset (map (\<lambda>j. ?xs ! ((i + j) mod length ?xs)) [0..<Suc k * length ?xs])
        = mset (rotate i ?xs) + mset (map (\<lambda>j. ?xs ! ((i + length ?xs + j) mod length ?xs)) [0..<k * length ?xs])"
      using round_is_rotation [OF assms(2), of i] by (simp add: comp_def add.assoc)
    also have "\<dots> = mset ?xs + repeat_mset k (mset ?xs)" using Suc.IH by (simp add: mset_rotate_list)
    finally show ?case by simp
  qed simp
  then show ?thesis using calls_nth [OF assms(2) assms(1)] by simp
qed

lemma balancer_is_fair_witness:
  "mset (calls (2 * 2) (LoadBalancer_new [''a'', ''b''])) = repeat_mset 2 (mset [''a'', ''b''])"
  using balancer_is_fair [of "LoadBalancer_new [''a'', ''b'']" 2] by (simp add: LoadBalancer_new_def)

end
