(* ===== verification/Std_Numbers.thy ===== *)
theory Std_Numbers
  imports Lamia_Prelude
begin

text \<open>
  The conversions between integers and text of the C++ library the components use: \<open>std::stoi\<close>,
  \<open>std::to_string\<close> of an \<open>int\<close>, and \<open>std::hex\<close>, with the round trip of the first two over every \<open>int\<close>.
\<close>

text \<open>\<open>std::stoi\<close>: white space, a sign, digits; it throws without digits or beyond an \<open>int\<close>.\<close>

definition stoi_sign :: "string \<Rightarrow> bool \<times> string" where
  "stoi_sign s =
     (case dropWhile isspace s of
        [] \<Rightarrow> (False, [])
      | c # r \<Rightarrow> if c = CHR ''-'' then (True, r) else if c = CHR ''+'' then (False, r) else (False, c # r))"

definition stoi :: "string \<Rightarrow> int outcome" where
  "stoi s =
     (case stoi_sign s of
        (neg, r) \<Rightarrow>
          let d = takeWhile isdigit r; n = int (of_string_nat 0 d); v = (if neg then - n else n)
          in if d = [] \<or> v < - 2147483648 \<or> 2147483647 < v then Throws ''stoi'' else Returns v)"

definition to_string_int :: "int \<Rightarrow> string" where
  "to_string_int n = (if n < 0 then CHR ''-'' # to_string_nat (nat (- n)) else to_string_nat (nat n))"

definition to_int32 :: "int \<Rightarrow> int" where
  "to_int32 n = (n + 2147483648) mod 4294967296 - 2147483648"

definition hex_digit :: "nat \<Rightarrow> char" where
  "hex_digit d = (if d < 10 then digit_char d else char_of (87 + d))"

fun hex_string :: "nat \<Rightarrow> string" where
  "hex_string n = (if n < 16 then [hex_digit n] else hex_string (n div 16) @ [hex_digit (n mod 16)])"

declare hex_string.simps [simp del]

lemma stoi_sign_to_string: "stoi_sign (to_string_nat n @ s) = (False, to_string_nat n @ s)"
proof -
  obtain c d where n: "to_string_nat n = c # d" by (cases "to_string_nat n") auto
  then have "isdigit c" using to_string_nat_digits [of c n] by simp
  then have "\<not> isspace c" "c \<noteq> CHR ''-''" "c \<noteq> CHR ''+''" by (auto simp: ctype_defs)
  then show ?thesis by (simp add: stoi_sign_def n)
qed

lemma takeWhile_digits: "takeWhile isdigit (to_string_nat n) = to_string_nat n"
  using to_string_nat_digits [of _ n] by (simp add: takeWhile_eq_all_conv)

lemma stoi_to_string: "n < 2147483648 \<Longrightarrow> stoi (to_string_nat n) = Returns (int n)"
  using stoi_sign_to_string [of n "[]"] by (simp add: stoi_def takeWhile_digits Let_def)

lemma stoi_to_string_int:
  assumes "- 2147483648 \<le> n" and "n \<le> 2147483647"
  shows "stoi (to_string_int n) = Returns n"
proof (cases "n < 0")
  case True
  then have "stoi_sign (CHR ''-'' # to_string_nat (nat (- n))) = (True, to_string_nat (nat (- n)))"
    by (simp add: stoi_sign_def ctype_defs)
  then show ?thesis using True assms by (simp add: stoi_def to_string_int_def takeWhile_digits Let_def)
qed (use assms stoi_to_string [of "nat n"] in \<open>simp add: to_string_int_def\<close>)

lemma no_blank_digits: "CHR '' '' \<notin> set (to_string_nat n)" "cr \<notin> set (to_string_nat n)" "CHR '':'' \<notin> set (to_string_nat n)"
  using to_string_nat_digits [of _ n] by (force simp: ctype_defs)+

lemma to_int32_range: "- 2147483648 \<le> to_int32 n" "to_int32 n \<le> 2147483647"
  by (simp_all add: to_int32_def)

lemma no_newline_int: "nl \<notin> set (to_string_int n)"
  using to_string_nat_digits [of nl] by (auto simp: to_string_int_def ctype_defs)

lemma no_newline_hex: "nl \<notin> set (hex_string n)"
proof (induction n rule: hex_string.induct)
  case (1 n)
  have "hex_digit d \<noteq> nl" if "d < 16" for d
  proof -
    have "code (hex_digit d) = (if d < 10 then 48 + d else 87 + d)"
      using that by (simp add: hex_digit_def code_digit_char) (simp add: code_def)
    then show ?thesis by (auto simp: code_def split: if_splits)
  qed
  from this [of n] this [of "n mod 16"] show ?case using 1 by (subst hex_string.simps) auto
qed

end
