(* ===== verification/Http_Client.thy ===== *)
theory Http_Client
  imports Std_Containers Std_Numbers
begin

text \<open>
  The HTTP client of \<open>medusa_native_http_client.hpp\<close> and \<open>.cpp\<close>: the address, the request text, the
  response parser, the receiving loop, a whole request with its sockets, and the CURL interface on
  top. The operating system and OpenSSL are the functions of the record \<open>network\<close>; what is done with sockets is
  a log of events. An exception of the standard library is a \<open>Throws\<close>.
\<close>

section \<open>Numbers and blanks\<close>

abbreviation crlf :: string where "crlf \<equiv> [cr, nl]"

definition blank :: "char \<Rightarrow> bool" where
  "blank c \<longleftrightarrow> c = CHR '' '' \<or> c = tab"

definition trim_front :: "string \<Rightarrow> string" where
  "trim_front s = dropWhile blank s"

definition trim_blanks :: "string \<Rightarrow> string" where
  "trim_blanks s = rev (dropWhile blank (rev (trim_front s)))"

section \<open>Requests and responses\<close>

definition default_ciphers :: string where
  "default_ciphers =
     ''TLS_AES_256_GCM_SHA384:TLS_CHACHA20_POLY1305_SHA256:ECDHE-RSA-AES128-GCM-SHA256:ECDHE-RSA-AES256-GCM-SHA384''"

record HttpRequest =
  rq_method :: string
  rq_url :: string
  rq_headers :: "(string, string) omap"
  rq_body :: string
  verify_ssl :: bool
  cipher_list :: string

record HttpResponse =
  status_code :: int
  rs_headers :: "(string, string) omap"
  rs_body :: string
  error_message :: string
  success :: bool

definition HttpRequest_new :: HttpRequest where
  "HttpRequest_new = \<lparr>rq_method = [], rq_url = [], rq_headers = [], rq_body = [], verify_ssl = True,
     cipher_list = default_ciphers\<rparr>"

definition HttpResponse_new :: HttpResponse where
  "HttpResponse_new = \<lparr>status_code = 0, rs_headers = [], rs_body = [], error_message = [], success = False\<rparr>"

text \<open>The address. Without \<open>://\<close> the position wraps to three below \<open>2 ^ 64\<close>, where \<open>find\<close> finds nothing and
  \<open>substr\<close> throws.\<close>

definition substr_from :: "string \<Rightarrow> nat \<Rightarrow> nat \<Rightarrow> string outcome" where
  "substr_from s p n = (if p \<le> length s then Returns (substr s p n) else Throws ''basic_string::substr'')"

record address =
  ad_protocol :: string
  ad_host :: string
  ad_port :: int
  ad_path :: string

definition split_host :: "string \<Rightarrow> string \<Rightarrow> (string \<times> int) outcome" where
  "split_host protocol hp =
     (case str_find hp '':'' 0 of
        Some k \<Rightarrow> outcome_bind (stoi (drop (k + 1) hp)) (\<lambda>n. Returns (take k hp, n))
      | None \<Rightarrow> Returns (hp, if protocol = ''https'' then 443 else 80))"

definition parse_url :: "string \<Rightarrow> address outcome" where
  "parse_url url =
     (let (protocol, e) = (case str_find url ''://'' 0 of
            None \<Rightarrow> (''http'', 2 ^ 64 - 3) | Some p \<Rightarrow> (take p url, p + 3));
          (path, k) = (case str_find url ''/'' e of None \<Rightarrow> (''/'', length url) | Some k \<Rightarrow> (drop k url, k))
      in outcome_bind (substr_from url e (k - e)) (\<lambda>hp.
           outcome_bind (split_host protocol hp) (\<lambda>(h, n).
             Returns \<lparr>ad_protocol = protocol, ad_host = h, ad_port = n, ad_path = path\<rparr>)))"

definition header_text :: "(string \<times> string) list \<Rightarrow> string" where
  "header_text hs = concat (map (\<lambda>(k, v). k @ '': '' @ v @ crlf) hs)"

definition build_request :: "HttpRequest \<Rightarrow> string \<Rightarrow> string \<Rightarrow> string" where
  "build_request req host path =
     rq_method req @ '' '' @ path @ '' HTTP/1.1'' @ crlf @ ''Host: '' @ host @ crlf
     @ header_text (rq_headers req)
     @ (if rq_body req = [] then [] else ''Content-Length: '' @ to_string_nat (length (rq_body req)) @ crlf)
     @ ''Connection: close'' @ crlf @ crlf @ rq_body req"

section \<open>Parsing a response\<close>

definition status_of :: "string \<Rightarrow> int option outcome" where
  "status_of line =
     (case str_find line '' '' 0 of
        None \<Rightarrow> Returns None
      | Some a \<Rightarrow> (case str_find line '' '' (a + 1) of
            None \<Rightarrow> Returns None
          | Some b \<Rightarrow> outcome_bind (stoi (substr line (a + 1) (b - a - 1))) (\<lambda>n. Returns (Some n))))"

definition add_header :: "string \<Rightarrow> (string, string) omap \<Rightarrow> (string, string) omap" where
  "add_header line m =
     (case str_find line '':'' 0 of
        Some k \<Rightarrow> om_assign (take k line) (trim_blanks (drop (k + 1) line)) m
      | None \<Rightarrow> m)"

lemma str_find_SomeD: "str_find s p k = Some e \<Longrightarrow> k \<le> e \<and> e \<le> length s \<and> starts_with p (drop e s)"
  by (auto simp: str_find_def add.commute split: if_splits dest: find_here_Some)

function header_loop :: "string \<Rightarrow> nat \<Rightarrow> (string, string) omap \<Rightarrow> (string, string) omap" where
  "header_loop h pos m =
     (if pos < length h
      then (case str_find h crlf pos of
              None \<Rightarrow> m
            | Some e \<Rightarrow> header_loop h (e + 2) (add_header (substr h pos (e - pos)) m))
      else m)"
  by auto
termination by (relation "measure (\<lambda>(h, pos, m). length h - pos)") (auto dest: str_find_SomeD)

declare header_loop.simps [simp del]

definition parse_response :: "string \<Rightarrow> HttpResponse outcome" where
  "parse_response data =
     (case str_find data (crlf @ crlf) 0 of
        None \<Rightarrow> Returns (HttpResponse_new\<lparr>error_message := ''Invalid HTTP response''\<rparr>)
      | Some e \<Rightarrow>
          let h = take e data; r = HttpResponse_new\<lparr>rs_body := drop (e + 4) data\<rparr>; eol = str_find h crlf 0
          in outcome_bind (case eol of Some k \<Rightarrow> status_of (take k h) | None \<Rightarrow> Returns None) (\<lambda>st.
               let r = (case st of Some n \<Rightarrow> r\<lparr>status_code := n, success := 200 \<le> n \<and> n < 400\<rparr> | None \<Rightarrow> r);
                   pos = (case eol of Some k \<Rightarrow> k + 2 | None \<Rightarrow> 1)
               in Returns (r\<lparr>rs_headers := header_loop h pos []\<rparr>)))"

text \<open>The receiving loop over what \<open>recv\<close> or \<open>SSL_read\<close> writes into the buffer of 4096 bytes but one; an
  empty piece is a result that is not positive.\<close>

definition wanted_length :: "string \<Rightarrow> int option outcome" where
  "wanted_length resp =
     (case str_find resp ''Content-Length:'' 0 of
        None \<Rightarrow> Returns None
      | Some p \<Rightarrow>
          let a = (case str_find resp '' '' p of Some q \<Rightarrow> q + 1 | None \<Rightarrow> 0);
              n = (case str_find resp crlf a of Some z \<Rightarrow> z - a | None \<Rightarrow> length resp)
          in outcome_bind (stoi (substr resp a n)) (\<lambda>n. Returns (Some n)))"

fun read_response :: "string \<Rightarrow> string list \<Rightarrow> string outcome" where
  "read_response resp [] = Returns resp"
| "read_response resp (c # cs) =
     (let got = take 4095 c; resp' = resp @ got in
      if got = [] then Returns resp
      else case str_find resp' (crlf @ crlf) 0 of
          None \<Rightarrow> read_response resp' cs
        | Some e \<Rightarrow> outcome_bind (wanted_length resp') (\<lambda>w.
            case w of
              Some n \<Rightarrow> if int (length resp' - (e + 4)) < n then read_response resp' cs else Returns resp'
            | None \<Rightarrow> Returns resp'))"

section \<open>A request on the network\<close>

datatype socket_event = Opened nat | Closed nat | Sent nat string | Ssl_new nat | Ssl_freed nat

record 'a network =
  resolve :: "string \<Rightarrow> string \<Rightarrow> 'a list option"
  socket_for :: "'a \<Rightarrow> nat option"
  connects :: "nat \<Rightarrow> 'a \<Rightarrow> bool"
  new_context :: bool
  new_ssl :: "nat \<Rightarrow> bool"
  handshake :: "nat \<Rightarrow> string \<Rightarrow> bool"
  send_result :: "nat \<Rightarrow> string \<Rightarrow> int"
  recv_results :: "nat \<Rightarrow> string \<Rightarrow> string list"

record NativeHttpClient =
  ssl_ctx :: bool
  initialized :: bool
  ssl_cipher_list :: string

definition NativeHttpClient_new :: NativeHttpClient where
  "NativeHttpClient_new = \<lparr>ssl_ctx = False, initialized = False, ssl_cipher_list = default_ciphers\<rparr>"

definition client_initialize :: "NativeHttpClient \<Rightarrow> bool \<times> NativeHttpClient" where
  "client_initialize c = (True, if initialized c then c else c\<lparr>initialized := True\<rparr>)"

definition client_cleanup :: "NativeHttpClient \<Rightarrow> NativeHttpClient" where
  "client_cleanup c = c\<lparr>ssl_ctx := False, initialized := False\<rparr>"

definition set_ssl_cipher_list :: "string \<Rightarrow> NativeHttpClient \<Rightarrow> NativeHttpClient" where
  "set_ssl_cipher_list s c = c\<lparr>ssl_cipher_list := s\<rparr>"

fun try_addresses :: "'a network \<Rightarrow> 'a list \<Rightarrow> nat option \<times> socket_event list" where
  "try_addresses net [] = (None, [])"
| "try_addresses net (a # as) =
     (case socket_for net a of
        None \<Rightarrow> try_addresses net as
      | Some fd \<Rightarrow>
          if connects net fd a then (Some fd, [Opened fd])
          else (case try_addresses net as of (r, es) \<Rightarrow> (r, Opened fd # Closed fd # es)))"

definition create_socket :: "'a network \<Rightarrow> string \<Rightarrow> int \<Rightarrow> nat option \<times> socket_event list" where
  "create_socket net host port =
     (case resolve net host (to_string_int port) of None \<Rightarrow> (None, []) | Some as \<Rightarrow> try_addresses net as)"

definition ssl_connect :: "'a network \<Rightarrow> nat \<Rightarrow> string \<Rightarrow> NativeHttpClient \<Rightarrow> bool \<times> NativeHttpClient \<times> socket_event list" where
  "ssl_connect net fd host c =
     (if \<not> ssl_ctx c \<and> \<not> new_context net then (False, c, [])
      else
        let c = c\<lparr>ssl_ctx := True\<rparr> in
        if \<not> new_ssl net fd then (False, c, [])
        else if handshake net fd host then (True, c, [Ssl_new fd])
        else (False, c, [Ssl_new fd, Ssl_freed fd]))"

text \<open>One call of \<open>send\<close> or \<open>SSL_write\<close>, and the receiving loop.\<close>

definition send_http_request ::
  "'a network \<Rightarrow> nat \<Rightarrow> string \<Rightarrow> (bool \<times> string) outcome \<times> socket_event list" where
  "send_http_request net fd request =
     (let n = send_result net fd request in
      if n \<le> 0 then (Returns (False, []), [])
      else (outcome_bind (read_response [] (recv_results net fd request)) (\<lambda>r. Returns (True, r)),
            [Sent fd (take (nat n) request)]))"

definition settle_success :: "HttpResponse \<Rightarrow> HttpResponse" where
  "settle_success r =
     (if status_code r = 0 \<and> error_message r \<noteq> [] then r\<lparr>success := False\<rparr>
      else if 200 \<le> status_code r \<and> status_code r < 400 then r\<lparr>success := True\<rparr>
      else if 0 < status_code r then r\<lparr>success := False\<rparr> else r)"

definition failed_response :: "string \<Rightarrow> HttpResponse" where
  "failed_response msg = HttpResponse_new\<lparr>error_message := msg\<rparr>"

definition exchange ::
  "'a network \<Rightarrow> HttpRequest \<Rightarrow> address \<Rightarrow> nat \<Rightarrow> bool \<Rightarrow> HttpResponse outcome \<times> socket_event list" where
  "exchange net req ad fd tls =
     (let release = (if tls then [Ssl_freed fd] else []) @ [Closed fd] in
      case send_http_request net fd (build_request req (ad_host ad) (ad_path ad)) of
        (Returns (True, data), es) \<Rightarrow>
          (case parse_response data of
             Returns r \<Rightarrow> (Returns (settle_success r), es @ release)
           | Throws m \<Rightarrow> (Throws m, es)
           | Undefined m \<Rightarrow> (Undefined m, es))
      | (Returns (False, data), es) \<Rightarrow>
          (Returns (failed_response ''Failed to send/receive HTTP request''), es @ release)
      | (Throws m, es) \<Rightarrow> (Throws m, es)
      | (Undefined m, es) \<Rightarrow> (Undefined m, es))"

definition perform_request ::
  "'a network \<Rightarrow> HttpRequest \<Rightarrow> NativeHttpClient \<Rightarrow> HttpResponse outcome \<times> NativeHttpClient \<times> socket_event list" where
  "perform_request net req c =
     (let c = snd (client_initialize c) in
      case parse_url (rq_url req) of
        Throws m \<Rightarrow> (Throws m, c, [])
      | Undefined m \<Rightarrow> (Undefined m, c, [])
      | Returns ad \<Rightarrow>
          (case create_socket net (ad_host ad) (ad_port ad) of
             (None, es) \<Rightarrow> (Returns (failed_response ''Failed to create socket''), c, es)
           | (Some fd, es) \<Rightarrow>
               if ad_protocol ad = ''https'' then
                 (case ssl_connect net fd (ad_host ad) c of
                    (False, c, es') \<Rightarrow> (Returns (failed_response ''SSL connection failed''), c, es @ es' @ [Closed fd])
                  | (True, c, es') \<Rightarrow> (case exchange net req ad fd True of (r, xs) \<Rightarrow> (r, c, es @ es' @ xs)))
               else (case exchange net req ad fd False of (r, xs) \<Rightarrow> (r, c, es @ xs))))"

definition http_get ::
  "'a network \<Rightarrow> string \<Rightarrow> (string, string) omap \<Rightarrow> NativeHttpClient \<Rightarrow> HttpResponse outcome \<times> NativeHttpClient \<times> socket_event list" where
  "http_get net url hs c =
     perform_request net (HttpRequest_new\<lparr>rq_method := ''GET'', rq_url := url, rq_headers := hs\<rparr>) c"

definition http_post ::
  "'a network \<Rightarrow> string \<Rightarrow> string \<Rightarrow> (string, string) omap \<Rightarrow> NativeHttpClient
   \<Rightarrow> HttpResponse outcome \<times> NativeHttpClient \<times> socket_event list" where
  "http_post net url body hs c =
     perform_request net (HttpRequest_new\<lparr>rq_method := ''POST'', rq_url := url, rq_body := body,
       rq_headers := (if map_of hs ''Content-Type'' = None then om_assign ''Content-Type'' ''application/json'' hs else hs)\<rparr>) c"

section \<open>The CURL interface\<close>

text \<open>The state of a handle, without its two pointers the callbacks get, whose presence is a Boolean;
  what the callbacks are given is a log.\<close>

record CURL_State =
  cu_url :: string
  cu_method :: string
  cu_headers :: "(string, string) omap"
  post_data :: string
  write_data :: bool
  write_callback :: bool
  header_data :: bool
  header_callback :: bool
  cu_verify_ssl :: bool
  cu_cipher_list :: string
  response_code :: int
  client :: NativeHttpClient
  callback_log :: "string list"

definition CURL_State_new :: CURL_State where
  "CURL_State_new = \<lparr>cu_url = [], cu_method = [], cu_headers = [], post_data = [], write_data = False,
     write_callback = False, header_data = False, header_callback = False, cu_verify_ssl = True,
     cu_cipher_list = [], response_code = 0, client = snd (client_initialize NativeHttpClient_new), callback_log = []\<rparr>"

text \<open>The options with their arguments, None a null pointer; a header list in the order of its links.\<close>

datatype curl_option =
    CURLOPT_URL "string option"
  | CURLOPT_WRITEFUNCTION bool
  | CURLOPT_WRITEDATA bool
  | CURLOPT_POSTFIELDS "string option"
  | CURLOPT_CUSTOMREQUEST "string option"
  | CURLOPT_HTTPHEADER "string list"
  | CURLOPT_HEADERFUNCTION bool
  | CURLOPT_HEADERDATA bool
  | CURLOPT_SSL_VERIFYPEER int
  | CURLOPT_SSL_VERIFYHOST int
  | CURLOPT_SSL_CIPHER_LIST "string option"
  | CURLOPT_POST int
  | CURLOPT_other

definition add_header_line :: "string \<Rightarrow> (string, string) omap \<Rightarrow> (string, string) omap" where
  "add_header_line line m =
     (case str_find line '':'' 0 of
        Some k \<Rightarrow> om_assign (take k line) (trim_front (drop (k + 1) line)) m
      | None \<Rightarrow> m)"

fun curl_easy_setopt :: "curl_option \<Rightarrow> CURL_State \<Rightarrow> CURL_State" where
  "curl_easy_setopt (CURLOPT_URL u) c = (case u of Some s \<Rightarrow> c\<lparr>cu_url := s\<rparr> | None \<Rightarrow> c)"
| "curl_easy_setopt (CURLOPT_WRITEFUNCTION b) c = c\<lparr>write_callback := b\<rparr>"
| "curl_easy_setopt (CURLOPT_WRITEDATA b) c = c\<lparr>write_data := b\<rparr>"
| "curl_easy_setopt (CURLOPT_POSTFIELDS d) c =
     (case d of Some s \<Rightarrow> c\<lparr>post_data := s, cu_method := ''POST''\<rparr> | None \<Rightarrow> c)"
| "curl_easy_setopt (CURLOPT_CUSTOMREQUEST m) c = (case m of Some s \<Rightarrow> c\<lparr>cu_method := s\<rparr> | None \<Rightarrow> c)"
| "curl_easy_setopt (CURLOPT_HTTPHEADER ls) c = c\<lparr>cu_headers := fold add_header_line ls (cu_headers c)\<rparr>"
| "curl_easy_setopt (CURLOPT_HEADERFUNCTION b) c = c\<lparr>header_callback := b\<rparr>"
| "curl_easy_setopt (CURLOPT_HEADERDATA b) c = c\<lparr>header_data := b\<rparr>"
| "curl_easy_setopt (CURLOPT_SSL_VERIFYPEER v) c = c\<lparr>cu_verify_ssl := (v \<noteq> 0)\<rparr>"
| "curl_easy_setopt (CURLOPT_SSL_VERIFYHOST v) c = c"
| "curl_easy_setopt (CURLOPT_SSL_CIPHER_LIST s) c = (case s of Some t \<Rightarrow> c\<lparr>cu_cipher_list := t\<rparr> | None \<Rightarrow> c)"
| "curl_easy_setopt (CURLOPT_POST v) c = (if v \<noteq> 0 then c\<lparr>cu_method := ''POST''\<rparr> else c)"
| "curl_easy_setopt CURLOPT_other c = c"

definition CURLE_OK :: int where "CURLE_OK = 0"
definition CURLE_FAILED_INIT :: int where "CURLE_FAILED_INIT = 1"
definition CURLE_COULDNT_CONNECT :: int where "CURLE_COULDNT_CONNECT = 7"

definition request_of :: "CURL_State \<Rightarrow> HttpRequest" where
  "request_of c = \<lparr>rq_method = (if cu_method c = [] then ''GET'' else cu_method c), rq_url = cu_url c,
     rq_headers = cu_headers c, rq_body = post_data c, verify_ssl = cu_verify_ssl c, cipher_list = cu_cipher_list c\<rparr>"

definition deliver :: "HttpResponse \<Rightarrow> CURL_State \<Rightarrow> CURL_State" where
  "deliver r c = c\<lparr>callback_log := callback_log c
     @ (if write_callback c \<and> write_data c then [rs_body r] else [])
     @ (if header_callback c \<and> header_data c then map (\<lambda>(k, v). k @ '': '' @ v @ crlf) (rs_headers r) else [])\<rparr>"

definition curl_easy_perform :: "'a network \<Rightarrow> CURL_State \<Rightarrow> int outcome \<times> CURL_State \<times> socket_event list" where
  "curl_easy_perform net c =
     (if cu_url c = [] then (Returns CURLE_FAILED_INIT, c, [])
      else case perform_request net (request_of c) (client c) of
          (Returns r, cl, es) \<Rightarrow>
            let c = c\<lparr>client := cl, response_code := status_code r\<rparr> in
            if status_code r = 0 \<and> error_message r \<noteq> [] then (Returns CURLE_COULDNT_CONNECT, c, es)
            else (Returns CURLE_OK, deliver r c, es)
        | (Throws m, cl, es) \<Rightarrow> (Throws m, c\<lparr>client := cl\<rparr>, es)
        | (Undefined m, cl, es) \<Rightarrow> (Undefined m, c\<lparr>client := cl\<rparr>, es))"

definition curl_easy_strerror :: "int \<Rightarrow> string" where
  "curl_easy_strerror e =
     (if e = CURLE_OK then ''OK'' else if e = CURLE_FAILED_INIT then ''Failed initialization''
      else if e = CURLE_COULDNT_CONNECT then ''Couldn't connect to server'' else ''Unknown error'')"

text \<open>The linked lists of header lines, on a heap of nodes; \<open>a\<close> is the address \<open>new\<close> gives.\<close>

type_synonym slist_heap = "nat \<Rightarrow> (string \<times> nat option) option"

definition curl_slist_append :: "nat \<Rightarrow> nat option \<Rightarrow> string \<Rightarrow> slist_heap \<Rightarrow> nat option \<times> slist_heap" where
  "curl_slist_append a l s h = (Some a, h(a \<mapsto> (s, l)))"

partial_function (option) curl_slist_free_all :: "nat option \<Rightarrow> slist_heap \<Rightarrow> slist_heap outcome option" where
  "curl_slist_free_all l h =
     (case l of
        None \<Rightarrow> Some (Returns h)
      | Some a \<Rightarrow> (case h a of
            None \<Rightarrow> Some (Undefined ''use after free'')
          | Some x \<Rightarrow> curl_slist_free_all (snd x) (h(a := None))))"

section \<open>Searching in lines\<close>

lemma map_plus_0 [simp]: "map_option ((+) (0 :: nat)) x = x"
  by (cases x) auto

lemma starts_with_stop: "c \<notin> set p \<Longrightarrow> starts_with p (u @ c # v) \<longleftrightarrow> starts_with p u"
  by (induction p u rule: starts_with.induct) (auto simp: starts_with_iff)

lemma starts_with_append: "starts_with p s \<Longrightarrow> starts_with p (s @ t)"
  by (auto simp: starts_with_iff)

lemma find_here_skip:
  "p \<noteq> [] \<Longrightarrow> hd p \<notin> set a \<Longrightarrow> find_here p (a @ s) = map_option ((+) (length a)) (find_here p s)"
proof (induction a)
  case (Cons c a)
  then have "\<not> starts_with p (c # a @ s)" by (cases p) auto
  with Cons show ?case by (simp add: option.map_comp comp_def)
qed (simp add: option.map_ident)

lemma find_here_line:
  assumes "p \<noteq> []" "c \<notin> set p" "find_here p l = None"
  shows "find_here p (l @ c # t) = map_option ((+) (Suc (length l))) (find_here p t)"
  using assms(3)
proof (induction l)
  case Nil
  have "\<not> starts_with p (c # t)" using assms(1,2) by (cases p) auto
  then show ?case by (simp add: comp_def)
next
  case (Cons d l)
  then have "\<not> starts_with p (d # l)" "find_here p l = None" by (auto split: if_splits)
  then have "\<not> starts_with p (d # l @ c # t)"
    using starts_with_stop [OF assms(2), of "d # l" t] by simp
  with Cons \<open>find_here p l = None\<close> show ?case by (simp add: option.map_comp comp_def)
qed

lemma find_here_missing: "c \<in> set p \<Longrightarrow> c \<notin> set l \<Longrightarrow> find_here p l = None"
proof (rule ccontr)
  assume "c \<in> set p" "c \<notin> set l" "find_here p l \<noteq> None"
  then obtain i where "find_here p l = Some i" by blast
  then obtain t where "drop i l = p @ t" using find_here_Some [of p l i] by (auto simp: starts_with_iff)
  then have "c \<in> set (drop i l)" using \<open>c \<in> set p\<close> by simp
  with \<open>c \<notin> set l\<close> show False by (meson in_set_dropD)
qed

lemma find_here_hit: "p \<noteq> [] \<Longrightarrow> hd p \<notin> set a \<Longrightarrow> find_here p (a @ p @ s) = Some (length a)"
proof -
  assume p: "p \<noteq> []" "hd p \<notin> set a"
  have "find_here p (p @ s) = Some 0" using p(1) by (cases p) (auto simp: starts_with_iff)
  with find_here_skip [OF p, of "p @ s"] show ?thesis by simp
qed

lemma str_find_0: "str_find s p 0 = find_here p s"
  by (simp add: str_find_def option.map_ident)

lemma str_find_at: "str_find (a @ s) p (length a) = map_option ((+) (length a)) (find_here p s)"
  by (simp add: str_find_def)

text \<open>A message: lines that end in a carriage return and a newline, an empty line, and a body.\<close>

definition lines_text :: "string list \<Rightarrow> string" where
  "lines_text ls = concat (map (\<lambda>l. l @ crlf) ls)"

definition line_ok :: "string \<Rightarrow> bool" where
  "line_ok l \<longleftrightarrow> l \<noteq> [] \<and> cr \<notin> set l"

lemma lines_text_simps [simp]: "lines_text [] = []" "lines_text (l # ls) = l @ crlf @ lines_text ls"
  by (simp_all add: lines_text_def)

lemma lines_text_append: "lines_text (ls @ ms) = lines_text ls @ lines_text ms"
  by (simp add: lines_text_def)

lemma header_end:
  assumes "ls \<noteq> []" "\<forall>l\<in>set ls. line_ok l"
  shows "find_here (crlf @ crlf) (lines_text ls @ crlf @ body) = Some (length (lines_text ls) - 2)"
  using assms
proof (induction ls)
  case (Cons l ls)
  then have l: "cr \<notin> set l" "l \<noteq> []" by (auto simp: line_ok_def)
  show ?case
  proof (cases ls)
    case Nil
    then show ?thesis using find_here_hit [of "crlf @ crlf" l body] l by simp
  next
    case (Cons m ls')
    then have m: "cr \<notin> set m" "m \<noteq> []" using Cons.prems by (auto simp: line_ok_def)
    then obtain c m' where cm: "m = c # m'" "c \<noteq> cr" by (cases m) auto
    let ?t = "lines_text ls @ crlf @ body"
    have "find_here (crlf @ crlf) ?t = Some (length (lines_text ls) - 2)"
      using Cons.IH Cons.prems Cons by simp
    then have "find_here (crlf @ crlf) (crlf @ ?t) = Some (length (lines_text ls))"
      using cm Cons by (simp add: eval_nat_numeral)
    then show ?thesis
      using find_here_skip [of "crlf @ crlf" l "crlf @ ?t"] l Cons by simp
  qed
qed simp

lemma lines_text_last: "ls \<noteq> [] \<Longrightarrow> lines_text ls = lines_text (butlast ls) @ last ls @ crlf"
  by (metis append_butlast_last_id append_Nil2 lines_text_append lines_text_simps append_assoc)

section \<open>What the parser reads\<close>

definition status_line :: "string \<Rightarrow> nat \<Rightarrow> string \<Rightarrow> string" where
  "status_line v n phrase = v @ '' '' @ to_string_nat n @ '' '' @ phrase"

lemma status_of_line:
  assumes "CHR '' '' \<notin> set v" "n < 2147483648"
  shows "status_of (status_line v n phrase) = Returns (Some (int n))"
proof -
  let ?l = "v @ '' '' @ to_string_nat n @ '' '' @ phrase"
  have 1: "str_find ?l '' '' 0 = Some (length v)"
    using find_here_hit [of "'' ''" v] assms(1) by (simp add: str_find_0)
  have "str_find ((v @ '' '') @ to_string_nat n @ '' '' @ phrase) '' '' (length (v @ '' ''))
      = Some (length v + 1 + length (to_string_nat n))"
    unfolding str_find_at using find_here_hit [of "'' ''" "to_string_nat n" phrase] no_blank_digits by simp
  then have 2: "str_find ?l '' '' (length v + 1) = Some (length v + 1 + length (to_string_nat n))" by simp
  show ?thesis
    unfolding status_of_def status_line_def 1 option.case 2 using assms(2) by (simp add: substr_def stoi_to_string)
qed

lemma header_loop_lines:
  assumes "\<forall>l\<in>set ls. cr \<notin> set l" "cr \<notin> set z" "z \<noteq> []"
  shows "header_loop (a @ lines_text ls @ z) (length a) m = fold add_header ls m"
  using assms(1)
proof (induction ls arbitrary: a m)
  case Nil
  have "str_find (a @ z) crlf (length a) = None"
    using find_here_missing [of cr crlf z] assms(2) by (simp add: str_find_at)
  then show ?case using assms(3) by (simp add: header_loop.simps)
next
  case (Cons l ls)
  have f: "str_find (a @ lines_text (l # ls) @ z) crlf (length a) = Some (length a + length l)"
    using find_here_hit [of crlf l "lines_text ls @ z"] Cons.prems by (simp add: str_find_at)
  have "header_loop (a @ lines_text (l # ls) @ z) (length a) m
      = header_loop (a @ lines_text (l # ls) @ z) (length a + length l + 2) (add_header l m)"
    using f by (subst header_loop.simps) (simp add: substr_def)
  also have "\<dots> = header_loop ((a @ l @ crlf) @ lines_text ls @ z) (length (a @ l @ crlf)) (add_header l m)"
    by simp
  also have "\<dots> = fold add_header (l # ls) m"
    using Cons.IH [of "a @ l @ crlf" "add_header l m"] Cons.prems by (simp del: append_assoc)
  finally show ?case .
qed

text \<open>The parser on a message with a status line and at least one field: the last field is left out.\<close>

lemma parse_response_message:
  assumes v: "CHR '' '' \<notin> set v" "cr \<notin> set v" and n: "n < 2147483648" and p: "cr \<notin> set phrase"
    and fs: "fs \<noteq> []" "\<forall>l\<in>set fs. line_ok l"
  shows "parse_response (lines_text (status_line v n phrase # fs) @ crlf @ body) =
    Returns \<lparr>status_code = int n, rs_headers = fold add_header (butlast fs) [], rs_body = body,
      error_message = [], success = (200 \<le> n \<and> n < 400)\<rparr>"
proof -
  let ?s = "status_line v n phrase" and ?ls = "status_line v n phrase # fs"
  let ?d = "lines_text ?ls @ crlf @ body"
  let ?h = "?s @ crlf @ lines_text (butlast fs) @ last fs"
  have s: "cr \<notin> set ?s" "?s \<noteq> []" using v p no_blank_digits by (auto simp: status_line_def)
  have e: "str_find ?d (crlf @ crlf) 0 = Some (length ?h)"
    using header_end [of ?ls body] s fs lines_text_last [of fs] by (simp add: str_find_0 line_ok_def)
  have d: "?d = ?h @ crlf @ crlf @ body" using fs lines_text_last [of fs] by simp
  have k: "str_find ?h crlf 0 = Some (length ?s)"
    using find_here_hit [of crlf ?s] s by (simp add: str_find_0)
  have "last fs \<noteq> []" "cr \<notin> set (last fs)" using fs by (auto simp: line_ok_def)
  moreover have "\<forall>l\<in>set (butlast fs). cr \<notin> set l" using fs by (auto simp: line_ok_def dest: in_set_butlastD)
  ultimately have "header_loop ((?s @ crlf) @ lines_text (butlast fs) @ last fs) (length (?s @ crlf)) m
      = fold add_header (butlast fs) m" for m
    using header_loop_lines by blast
  then have l: "header_loop ?h (length ?s + 2) [] = fold add_header (butlast fs) []" by simp
  have split: "take (length a) (a @ crlf @ crlf @ b) = a" "drop (length a + 4) (a @ crlf @ crlf @ b) = b" for a b :: string
    by simp_all
  have t: "take (length ?h) ?d = ?h" unfolding d by (rule split)
  have t': "drop (length ?h + 4) ?d = body" unfolding d by (rule split)
  show ?thesis
    unfolding parse_response_def e option.case Let_def t t' k
    using l status_of_line [OF v(1) n, of phrase] by (simp add: HttpResponse_new_def)
qed

section \<open>Fields\<close>

definition field_line :: "string \<times> string \<Rightarrow> string" where
  "field_line f = fst f @ '': '' @ snd f"

definition field_ok :: "string \<times> string \<Rightarrow> bool" where
  "field_ok f \<longleftrightarrow> CHR '':'' \<notin> set (fst f) \<and> cr \<notin> set (fst f) \<and> cr \<notin> set (snd f)
     \<and> trim_blanks (snd f) = snd f"

lemma trim_blanks_space: "trim_blanks (CHR '' '' # v) = trim_blanks v"
  by (simp add: trim_blanks_def trim_front_def blank_def)

lemma add_header_field: "field_ok f \<Longrightarrow> add_header (field_line f) m = om_assign (fst f) (snd f) m"
  using find_here_hit [of "'':''" "fst f" "'' '' @ snd f"]
  by (simp add: add_header_def field_line_def field_ok_def str_find_0 trim_blanks_space)

lemma add_header_fields: "\<forall>f\<in>set hs. field_ok f \<Longrightarrow>
    fold add_header (map field_line hs) m = fold (\<lambda>f. om_assign (fst f) (snd f)) hs m"
  by (induction hs arbitrary: m) (simp_all add: add_header_field)

lemma field_line_ok: "field_ok f \<Longrightarrow> line_ok (field_line f)"
  by (simp add: field_ok_def line_ok_def field_line_def)

definition message :: "string \<Rightarrow> nat \<Rightarrow> string \<Rightarrow> (string \<times> string) list \<Rightarrow> string \<Rightarrow> string" where
  "message v n phrase hs body = lines_text (status_line v n phrase # map field_line hs) @ crlf @ body"

text \<open>The parser reads a response: from a message with a status line, at least one header field and a body
  it takes the status, whether that is a success, the whole body, and every field under its name with the
  value trimmed, where a later field of the same name replaces an earlier one. The last field of the
  message is not among them: the line that ends it is cut off with the header's end.\<close>

lemma message_parsed:
  assumes "CHR '' '' \<notin> set v" and "cr \<notin> set v" and "n < 2147483648" and "cr \<notin> set phrase"
    and "hs \<noteq> []" and "\<forall>f\<in>set hs. field_ok f"
  shows "parse_response (message v n phrase hs body) =
    Returns \<lparr>status_code = int n, rs_headers = fold (\<lambda>f. om_assign (fst f) (snd f)) (butlast hs) [],
      rs_body = body, error_message = [], success = (200 \<le> n \<and> n < 400)\<rparr>"
proof -
  have "\<forall>l\<in>set (map field_line hs). line_ok l" using assms(6) by (auto intro: field_line_ok)
  moreover have "\<forall>f\<in>set (butlast hs). field_ok f" using assms(6) by (auto dest: in_set_butlastD)
  ultimately show ?thesis
    using parse_response_message [of v n phrase "map field_line hs" body] assms
    by (simp add: message_def map_butlast [symmetric] add_header_fields)
qed

text \<open>A response without any header field is read as status zero.\<close>

lemma response_without_fields_has_no_status:
  "parse_response (''HTTP/1.1 204 No Content'' @ crlf @ crlf) = Returns HttpResponse_new"
  by code_simp

section \<open>Addresses\<close>

definition url_text :: "string \<Rightarrow> string \<Rightarrow> nat option \<Rightarrow> string \<Rightarrow> string" where
  "url_text protocol host port path =
     protocol @ ''://'' @ host @ (case port of None \<Rightarrow> [] | Some n \<Rightarrow> '':'' @ to_string_nat n) @ path"

text \<open>Addresses are read back: from a protocol, a host without colon and slash, a port or none, and a path
  that is empty or starts with a slash, \<open>parse_url\<close> finds the four parts in the text they make, with
  the default port of the protocol and the path \<open>/\<close> where they are left out.\<close>

theorem url_parsed:
  assumes p: "CHR '':'' \<notin> set protocol" and h: "CHR '':'' \<notin> set host" "CHR ''/'' \<notin> set host"
    and n: "\<forall>k. port = Some k \<longrightarrow> k < 2147483648" and path: "path = [] \<or> hd path = CHR ''/''"
  shows "parse_url (url_text protocol host port path) =
    Returns \<lparr>ad_protocol = protocol, ad_host = host,
      ad_port = (case port of Some k \<Rightarrow> int k | None \<Rightarrow> if protocol = ''https'' then 443 else 80),
      ad_path = (if path = [] then ''/'' else path)\<rparr>"
proof -
  define hp where "hp = host @ (case port of None \<Rightarrow> [] | Some n \<Rightarrow> '':'' @ to_string_nat n)"
  let ?u = "(protocol @ ''://'') @ hp @ path"
  have u: "url_text protocol host port path = ?u" by (simp add: url_text_def hp_def)
  have slash: "CHR ''/'' \<notin> set hp"
    using h to_string_nat_digits by (force simp: hp_def ctype_defs split: option.split)
  have 1: "str_find ?u ''://'' 0 = Some (length protocol)"
    using find_here_hit [of "''://''" protocol "hp @ path"] p by (simp add: str_find_0)
  have 2: "str_find ?u ''/'' (length (protocol @ ''://'')) =
      (if path = [] then None else Some (length (protocol @ ''://'') + length hp))"
  proof (cases path)
    case Nil
    then show ?thesis unfolding str_find_at using slash find_here_missing [of "CHR ''/''" "''/''" hp] by simp
  next
    case (Cons c q)
    then show ?thesis
      unfolding str_find_at using slash path find_here_hit [of "''/''" hp q] by simp
  qed
  have sp: "split_host protocol hp =
      Returns (host, case port of Some k \<Rightarrow> int k | None \<Rightarrow> if protocol = ''https'' then 443 else 80)"
  proof (cases port)
    case None
    then show ?thesis using h find_here_missing [of "CHR '':''" "'':''" host] by (simp add: split_host_def hp_def str_find_0)
  next
    case (Some k)
    then show ?thesis
      using h n find_here_hit [of "'':''" host "to_string_nat k"]
      by (simp add: split_host_def hp_def str_find_0 stoi_to_string)
  qed
  have 3: "str_find ?u ''/'' (length protocol + 3) =
      (if path = [] then None else Some (length protocol + 3 + length hp))"
    using 2 by (simp add: numeral_3_eq_3)
  have 4: "drop (length protocol + 3 + length hp) ?u = path" "take (length protocol) ?u = protocol"
    "substr_from ?u (length protocol + 3) (length hp) = Returns hp"
    by (simp_all add: substr_from_def substr_def numeral_3_eq_3)
  show ?thesis
    unfolding parse_url_def u 1 option.case Let_def prod.case 3 4
    using sp 4 by (cases "path = []") (simp_all del: append_assoc)
qed

lemma url_parsed_witness:
  "parse_url (url_text ''https'' ''api.example.org'' (Some 8443) ''/v1/items'') =
    Returns \<lparr>ad_protocol = ''https'', ad_host = ''api.example.org'', ad_port = 8443, ad_path = ''/v1/items''\<rparr>"
  using url_parsed [of "''https''" "''api.example.org''" "Some 8443" "''/v1/items''"] by simp

text \<open>An address without \<open>://\<close>, for which the code means to assume \<open>http\<close>, is refused with an exception.\<close>

lemma url_without_protocol_throws:
  assumes "str_find url ''://'' 0 = None" and "length url < 2 ^ 63"
  shows "parse_url url = Throws ''basic_string::substr''"
proof -
  have "length url < 2 ^ 64 - 3" using assms(2) by simp
  then have "str_find url ''/'' (2 ^ 64 - 3) = None" "\<not> 2 ^ 64 - 3 \<le> length url" by (simp_all add: str_find_def)
  then show ?thesis using assms(1) by (simp add: parse_url_def substr_from_def)
qed

section \<open>Sockets\<close>

text \<open>The open sockets and the live TLS objects after a log, None when it uses one that is not open, opens one
  twice or frees what it does not have.\<close>

fun socket_step :: "socket_event \<Rightarrow> nat set \<times> nat set \<Rightarrow> (nat set \<times> nat set) option" where
  "socket_step (Opened f) (os, s) = (if f \<in> os then None else Some (insert f os, s))"
| "socket_step (Closed f) (os, s) = (if f \<in> os then Some (os - {f}, s) else None)"
| "socket_step (Sent f d) (os, s) = (if f \<in> os then Some (os, s) else None)"
| "socket_step (Ssl_new f) (os, s) = (if f \<in> os \<and> f \<notin> s then Some (os, insert f s) else None)"
| "socket_step (Ssl_freed f) (os, s) = (if f \<in> s then Some (os, s - {f}) else None)"

fun replay :: "socket_event list \<Rightarrow> nat set \<times> nat set \<Rightarrow> (nat set \<times> nat set) option" where
  "replay [] x = Some x"
| "replay (e # es) x = (case socket_step e x of Some y \<Rightarrow> replay es y | None \<Rightarrow> None)"

lemma socket_replay_append: "replay (es @ fs) x = (case replay es x of Some y \<Rightarrow> replay fs y | None \<Rightarrow> None)"
  by (induction es x rule: replay.induct) (auto split: option.splits)

lemma try_addresses_replay:
  "try_addresses net as = (r, es) \<Longrightarrow>
     replay es ({}, {}) = Some (case r of Some fd \<Rightarrow> {fd} | None \<Rightarrow> {}, {})"
proof (induction as arbitrary: r es)
  case (Cons a as)
  then show ?case by (auto split: option.splits if_splits prod.splits)
qed simp

lemma create_socket_replay:
  "create_socket net h n = (r, es) \<Longrightarrow> replay es ({}, {}) = Some (case r of Some fd \<Rightarrow> {fd} | None \<Rightarrow> {}, {})"
  by (auto simp: create_socket_def try_addresses_replay split: option.splits)

lemma ssl_connect_replay:
  "ssl_connect net fd h c = (ok, c', es) \<Longrightarrow> replay es ({fd}, {}) = Some ({fd}, if ok then {fd} else {})"
  by (auto simp: ssl_connect_def Let_def split: if_splits)

lemma send_replay:
  "send_http_request net fd q = (r, es) \<Longrightarrow> replay es ({fd}, s) = Some ({fd}, s)"
  by (auto simp: send_http_request_def Let_def split: if_splits)

abbreviation released :: "'a outcome \<Rightarrow> nat set \<times> nat set \<Rightarrow> nat set \<times> nat set" where
  "released r left \<equiv> (case r of Returns _ \<Rightarrow> ({}, {}) | _ \<Rightarrow> left)"

lemma exchange_replay:
  "exchange net req ad fd tls = (r, es) \<Longrightarrow>
     replay es ({fd}, if tls then {fd} else {}) = Some (released r ({fd}, if tls then {fd} else {}))"
proof -
  assume ex: "exchange net req ad fd tls = (r, es)"
  obtain q xs where sr: "send_http_request net fd (build_request req (ad_host ad) (ad_path ad)) = (q, xs)"
    by fastforce
  have "replay xs ({fd}, s) = Some ({fd}, s)" for s by (rule send_replay [OF sr])
  with ex show ?thesis
    by (auto simp: exchange_def sr Let_def socket_replay_append split: outcome.splits bool.splits if_splits prod.splits)
qed


text \<open>An exception leaves the socket open: a response whose status is no number.\<close>

definition sample_network :: "string list \<Rightarrow> unit network" where
  "sample_network pieces = \<lparr>resolve = (\<lambda>h p. Some [()]), socket_for = (\<lambda>a. Some 7), connects = (\<lambda>fd a. True),
     new_context = True, new_ssl = (\<lambda>fd. True), handshake = (\<lambda>fd h. True),
     send_result = (\<lambda>fd s. int (length s)), recv_results = (\<lambda>fd s. pieces)\<rparr>"

definition sample_get :: HttpRequest where
  "sample_get = HttpRequest_new\<lparr>rq_method := ''GET'', rq_url := ''http://h/''\<rparr>"

lemma bad_status_leaks_the_socket:
  "case perform_request (sample_network [''HTTP/1.1 ok '' @ crlf @ ''A: b'' @ crlf @ crlf]) sample_get NativeHttpClient_new of
     (r, c, es) \<Rightarrow> r = Throws ''stoi'' \<and> replay es ({}, {}) = Some ({7}, {})"
  by code_simp

text \<open>The certificate switch of a request is never read.\<close>

lemma verification_is_ignored:
  "perform_request net (req\<lparr>verify_ssl := b\<rparr>) c = perform_request net req c"
proof -
  have e: "exchange net (req\<lparr>verify_ssl := b\<rparr>) = exchange net req"
    by (simp add: fun_eq_iff exchange_def build_request_def)
  show ?thesis unfolding perform_request_def e by simp
qed

section \<open>Header lists of CURL\<close>

text \<open>Appending texts in turn, at the addresses the allocator gives, and the texts in the order of the links.\<close>

fun appends :: "(nat \<times> string) list \<Rightarrow> nat option \<Rightarrow> slist_heap \<Rightarrow> nat option \<times> slist_heap" where
  "appends [] l h = (l, h)"
| "appends ((a, s) # xs) l h = (case curl_slist_append a l s h of (l, h) \<Rightarrow> appends xs l h)"

fun linked :: "(nat \<times> string) list \<Rightarrow> nat option \<Rightarrow> slist_heap \<Rightarrow> bool" where
  "linked [] l h \<longleftrightarrow> l = None"
| "linked ((a, s) # xs) l h \<longleftrightarrow> l = Some a \<and> (\<exists>n. h a = Some (s, n) \<and> linked xs n h)"

lemma linked_upd: "a \<notin> fst ` set xs \<Longrightarrow> linked xs l (h(a := x)) = linked xs l h"
  by (induction xs l h rule: linked.induct) auto

lemma linked_appends:
  "linked ys l h \<Longrightarrow> distinct (map fst (xs @ ys)) \<Longrightarrow> linked (rev xs @ ys) (fst (appends xs l h)) (snd (appends xs l h))"
proof (induction xs arbitrary: l h ys)
  case (Cons x xs)
  obtain a s where x: "x = (a, s)" by (cases x)
  have "linked ((a, s) # ys) (Some a) (h(a \<mapsto> (s, l)))"
    using Cons.prems x by (simp add: linked_upd)
  moreover have "distinct (map fst (xs @ (a, s) # ys))" using Cons.prems x by auto
  ultimately have "linked (rev xs @ (a, s) # ys) (fst (appends xs (Some a) (h(a \<mapsto> (s, l)))))
      (snd (appends xs (Some a) (h(a \<mapsto> (s, l)))))" by (rule Cons.IH)
  then show ?case by (simp add: x curl_slist_append_def)
qed simp

lemma appends_heap: "b \<notin> fst ` set xs \<Longrightarrow> snd (appends xs l h) b = h b"
  by (induction xs l h rule: appends.induct) (simp_all add: curl_slist_append_def)

lemma free_all_linked:
  "linked xs l h \<Longrightarrow> distinct (map fst xs) \<Longrightarrow>
     curl_slist_free_all l h = Some (Returns (\<lambda>b. if b \<in> fst ` set xs then None else h b))"
proof (induction xs arbitrary: l h)
  case Nil
  then show ?case by (simp add: curl_slist_free_all.simps)
next
  case (Cons x xs)
  obtain a s where x: "x = (a, s)" by (cases x)
  with Cons.prems obtain n where n: "l = Some a" "h a = Some (s, n)" "linked xs n h" "a \<notin> fst ` set xs" by auto
  then have "linked xs n (h(a := None))" by (simp add: linked_upd)
  then have "curl_slist_free_all n (h(a := None)) =
      Some (Returns (\<lambda>b. if b \<in> fst ` set xs then None else (h(a := None)) b))"
    using Cons by simp
  then have "curl_slist_free_all l h = Some (Returns (\<lambda>b. if b \<in> fst ` set xs then None else (h(a := None)) b))"
    by (subst curl_slist_free_all.simps) (simp add: n)
  then show ?case using x by (auto simp: fun_eq_iff)
qed

text \<open>A header list built on fresh addresses links the texts in reverse, and freeing it frees every node
  once and gives back the heap it was built on.\<close>

theorem header_list_is_freed:
  assumes "distinct (map fst xs)" and "\<forall>a\<in>fst ` set xs. h a = None"
  shows "linked (rev xs) (fst (appends xs None h)) (snd (appends xs None h))
    \<and> curl_slist_free_all (fst (appends xs None h)) (snd (appends xs None h)) = Some (Returns h)"
proof -
  have l: "linked (rev xs) (fst (appends xs None h)) (snd (appends xs None h))"
    using linked_appends [of "[]" None h xs] assms(1) by simp
  have "curl_slist_free_all (fst (appends xs None h)) (snd (appends xs None h)) =
      Some (Returns (\<lambda>b. if b \<in> fst ` set (rev xs) then None else snd (appends xs None h) b))"
    using free_all_linked [OF l] assms(1) by (simp add: rev_map [symmetric])
  also have "(\<lambda>b. if b \<in> fst ` set (rev xs) then None else snd (appends xs None h) b) = h"
    using assms(2) by (auto simp: fun_eq_iff appends_heap)
  finally show ?thesis using l by simp
qed

text \<open>A list freed twice is undefined behaviour.\<close>

lemma free_twice: "curl_slist_free_all (Some a) (h(a := None)) = Some (Undefined ''use after free'')"
  by (simp add: curl_slist_free_all.simps)

end
