(* ===== verification/Api_Gateway.thy ===== *)
theory Api_Gateway
  imports Gateway_Traffic Http_Client
begin

text \<open>
  The request path of \<open>medusa_api_gateway.cpp\<close>: parsing, admission, routing, authentication,
  balancing, forwarding and the statistics. What lies outside is a parameter: \<open>perform\<close> is the HTTP
  client on the network, \<open>jparse\<close> and \<open>jdump\<close> the JSON library, None for an exception of theirs.
  Requests are handled one at a time; \<open>forwarded\<close> is the log of what the client was asked to send.
  The sockets, the threads and the TLS context are not modelled.
\<close>

section \<open>Data\<close>

datatype HttpMethod = M_GET | M_POST | M_PUT | M_DELETE | M_PATCH | M_OPTIONS | M_HEAD

record 'j Route =
  rt_path :: string
  rt_method :: HttpMethod
  target_url :: string
  service_name :: string
  requires_auth :: bool
  rate_limit_per_minute :: int
  rt_headers :: "(string, string) omap"
  validator :: "('j \<Rightarrow> bool) option"
  transformer :: "('j \<Rightarrow> 'j outcome) option"

record GatewayStats =
  total_requests :: nat
  successful_requests :: nat
  failed_requests :: nat
  rate_limited_requests :: nat
  start_time :: int

record 'j APIGateway =
  routes :: "'j Route list"
  rate_limiter :: RateLimiter
  load_balancers :: "(string, LoadBalancer) omap"
  stats :: GatewayStats
  forwarded :: "HttpRequest list"

definition reset_stats :: "int \<Rightarrow> GatewayStats" where
  "reset_stats now = \<lparr>total_requests = 0, successful_requests = 0, failed_requests = 0,
     rate_limited_requests = 0, start_time = now\<rparr>"

definition APIGateway_new :: "int \<Rightarrow> 'j APIGateway" where
  "APIGateway_new now = \<lparr>routes = [], rate_limiter = RateLimiter_new 60, load_balancers = [],
     stats = reset_stats now, forwarded = []\<rparr>"

definition add_route :: "'j Route \<Rightarrow> 'j APIGateway \<Rightarrow> 'j APIGateway" where
  "add_route r g = g\<lparr>routes := routes g @ [r]\<rparr>"

definition remove_route :: "string \<Rightarrow> HttpMethod \<Rightarrow> 'j APIGateway \<Rightarrow> 'j APIGateway" where
  "remove_route p m g = g\<lparr>routes := filter (\<lambda>r. \<not> (rt_path r = p \<and> rt_method r = m)) (routes g)\<rparr>"

definition set_rate_limit :: "int \<Rightarrow> 'j APIGateway \<Rightarrow> 'j APIGateway" where
  "set_rate_limit n g = g\<lparr>rate_limiter := RateLimiter_new n\<rparr>"

definition add_load_balancer :: "string \<Rightarrow> string list \<Rightarrow> 'j APIGateway \<Rightarrow> 'j APIGateway" where
  "add_load_balancer s es g = g\<lparr>load_balancers := om_assign s (LoadBalancer_new es) (load_balancers g)\<rparr>"

definition reset_statistics :: "int \<Rightarrow> 'j APIGateway \<Rightarrow> 'j APIGateway" where
  "reset_statistics now g = g\<lparr>stats := reset_stats now\<rparr>"

section \<open>Parsing\<close>

definition upto_query :: "string \<Rightarrow> nat \<Rightarrow> string" where
  "upto_query url k =
     (case str_find url ''?'' k of Some q \<Rightarrow> substr url k (q - k) | None \<Rightarrow> drop k url)"

definition extract_path :: "string \<Rightarrow> string" where
  "extract_path url =
     (case Option.bind (str_find url ''://'' 0) (\<lambda>p. str_find url ''/'' (p + 3)) of
        Some k \<Rightarrow> upto_query url k
      | None \<Rightarrow> (case str_find url ''/'' 0 of Some k \<Rightarrow> upto_query url k | None \<Rightarrow> ''/''))"

text \<open>The pattern \<open>(\d{1,3}\.\d{1,3}\.\d{1,3}\.\d{1,3})\<close>: what it matches at the start of a string,
  \<open>n\<close> being the number of groups that end in a dot.\<close>

fun ip_prefix :: "nat \<Rightarrow> string \<Rightarrow> string option" where
  "ip_prefix 0 s = (let d = take 3 (takeWhile isdigit s) in if d = [] then None else Some d)"
| "ip_prefix (Suc n) s =
     (let d = takeWhile isdigit s; r = drop (length d) s in
      if d = [] \<or> 3 < length d \<or> r = [] \<or> hd r \<noteq> CHR ''.'' then None
      else map_option (\<lambda>t. d @ CHR ''.'' # t) (ip_prefix n (tl r)))"

text \<open>\<open>regex_search\<close>: the match at the first position that has one.\<close>

fun ip_search :: "string \<Rightarrow> string option" where
  "ip_search [] = None"
| "ip_search (c # s) = (case ip_prefix 3 (c # s) of Some m \<Rightarrow> Some m | None \<Rightarrow> ip_search s)"

text \<open>\<open>find_first_not_of\<close> and \<open>find_first_of\<close> a set of characters, from a position on.\<close>

definition find_first :: "(char \<Rightarrow> bool) \<Rightarrow> string \<Rightarrow> nat \<Rightarrow> nat option" where
  "find_first P s from = map_option ((+) from) (find_index P (drop from s))"

definition forwarded_ip :: "string \<Rightarrow> string option" where
  "forwarded_ip request =
     do { p \<leftarrow> str_find request ''X-Forwarded-For:'' 0;
          a \<leftarrow> find_first (\<lambda>c. c \<noteq> CHR '' '' \<and> c \<noteq> tab) request (p + 15);
          z \<leftarrow> find_first (\<lambda>c. c = CHR '','' \<or> c = cr \<or> c = nl) request a;
          (let ip = substr request a (z - a) in if ip_prefix 3 ip = Some ip then Some ip else None) }"

definition extract_ip :: "string \<Rightarrow> string" where
  "extract_ip request =
     (case forwarded_ip request of
        Some ip \<Rightarrow> ip
      | None \<Rightarrow> (case ip_search request of Some ip \<Rightarrow> ip | None \<Rightarrow> ''unknown''))"

definition parse_method :: "string \<Rightarrow> HttpMethod" where
  "parse_method s =
     (if s = ''GET'' then M_GET else if s = ''POST'' then M_POST else if s = ''PUT'' then M_PUT
      else if s = ''DELETE'' then M_DELETE else if s = ''PATCH'' then M_PATCH
      else if s = ''OPTIONS'' then M_OPTIONS else if s = ''HEAD'' then M_HEAD else M_GET)"

text \<open>\<open>stream >> word\<close>: the next word and the rest.\<close>

definition next_word :: "string \<Rightarrow> string \<times> string" where
  "next_word s =
     (let r = dropWhile isspace s in (takeWhile (\<lambda>c. \<not> isspace c) r, dropWhile (\<lambda>c. \<not> isspace c) r))"

section \<open>Admission\<close>

definition find_route :: "string \<Rightarrow> HttpMethod \<Rightarrow> 'j APIGateway \<Rightarrow> 'j Route option" where
  "find_route p m g = List.find (\<lambda>r. rt_path r = p \<and> rt_method r = m) (routes g)"

definition bearer_token :: "string \<Rightarrow> string" where
  "bearer_token request =
     (case do { a \<leftarrow> str_find request ''Authorization:'' 0;
                b \<leftarrow> str_find request ''Bearer '' a;
                z \<leftarrow> str_find request [cr, nl] (b + 7);
                Some (substr request (b + 7) (z - (b + 7))) } of
        Some t \<Rightarrow> t | None \<Rightarrow> [])"

definition authenticate_request :: "string \<Rightarrow> bool" where
  "authenticate_request token \<longleftrightarrow> token \<noteq> [] \<and> 10 < length token"

definition transform_response :: "'j Route \<Rightarrow> 'j \<Rightarrow> 'j outcome" where
  "transform_response r j = (case transformer r of Some f \<Rightarrow> f j | None \<Rightarrow> Returns j)"

text \<open>The target and the gateway after the balancer, if any, has moved on.\<close>

definition choose_target :: "'j Route \<Rightarrow> 'j APIGateway \<Rightarrow> string \<times> 'j APIGateway" where
  "choose_target r g =
     (if service_name r = [] then (target_url r, g)
      else case map_of (load_balancers g) (service_name r) of
          None \<Rightarrow> (target_url r, g)
        | Some b \<Rightarrow> (case get_next_endpoint b of
            (u, b') \<Rightarrow> (u, g\<lparr>load_balancers := om_assign (service_name r) b' (load_balancers g)\<rparr>)))"

section \<open>Responses\<close>

definition error_response :: "string \<Rightarrow> string \<Rightarrow> string" where
  "error_response status msg =
     ''HTTP/1.1 '' @ status @ crlf @ ''Content-Type: application/json'' @ crlf @ crlf @ ''{\"error\":\"'' @ msg @ ''\"}''"

definition status_text :: "int \<Rightarrow> string" where
  "status_text c =
     (if c = 200 then ''OK'' else if c = 201 then ''Created'' else if c = 400 then ''Bad Request''
      else if c = 401 then ''Unauthorized'' else if c = 404 then ''Not Found''
      else if c = 500 then ''Internal Server Error'' else ''Unknown'')"

definition build_response :: "int \<Rightarrow> string \<Rightarrow> string \<Rightarrow> string" where
  "build_response sc phrase body =
     ''HTTP/1.1 '' @ to_string_int sc @ '' '' @ phrase @ crlf @ ''Content-Type: application/json'' @ crlf
     @ ''Content-Length: '' @ to_string_nat (length body) @ crlf @ crlf @ body"

text \<open>The body as JSON after the transformer, when the \<open>try\<close> block gets to its end.\<close>

definition transformed_body ::
  "(string \<Rightarrow> 'j option) \<Rightarrow> ('j \<Rightarrow> string option) \<Rightarrow> 'j Route \<Rightarrow> string \<Rightarrow> string option" where
  "transformed_body jparse jdump r body =
     (if body = [] then None
      else do { j \<leftarrow> jparse body;
                j' \<leftarrow> (case transform_response r j of Returns x \<Rightarrow> Some x | _ \<Rightarrow> None);
                jdump j' })"

definition count_response :: "int \<Rightarrow> GatewayStats \<Rightarrow> GatewayStats" where
  "count_response sc s =
     (if 200 \<le> sc \<and> sc < 300 then s\<lparr>successful_requests := successful_requests s + 1\<rparr>
      else s\<lparr>failed_requests := failed_requests s + 1\<rparr>)"

section \<open>Handling a request\<close>

definition outgoing :: "'j Route \<Rightarrow> string \<Rightarrow> string \<Rightarrow> string \<Rightarrow> string \<Rightarrow> HttpRequest" where
  "outgoing r target meth path request =
     HttpRequest_new\<lparr>rq_url := target @ path, rq_method := meth, rq_headers := rt_headers r,
       rq_body := (case str_find request (crlf @ crlf) 0 of Some b \<Rightarrow> drop (b + 4) request | None \<Rightarrow> [])\<rparr>"

definition forward_request ::
  "(HttpRequest \<Rightarrow> HttpResponse outcome) \<Rightarrow> (string \<Rightarrow> 'j option) \<Rightarrow> ('j \<Rightarrow> string option)
   \<Rightarrow> 'j Route \<Rightarrow> string \<Rightarrow> string \<Rightarrow> string \<Rightarrow> 'j APIGateway \<Rightarrow> string outcome \<times> 'j APIGateway" where
  "forward_request perform jparse jdump r request meth path g =
     (case choose_target r g of
        (target, g) \<Rightarrow>
          let q = outgoing r target meth path request;
              g = g\<lparr>forwarded := forwarded g @ [q]\<rparr>
          in (case perform q of
                Returns resp \<Rightarrow>
                  let g = g\<lparr>stats := count_response (status_code resp) (stats g)\<rparr> in
                  (case transformed_body jparse jdump r (rs_body resp) of
                     Some body \<Rightarrow> (Returns (build_response (status_code resp) ''OK'' body), g)
                   | None \<Rightarrow>
                       (Returns (build_response (status_code resp) (status_text (status_code resp)) (rs_body resp)), g))
              | Throws msg \<Rightarrow> (Throws msg, g)
              | Undefined msg \<Rightarrow> (Undefined msg, g)))"

text \<open>The method and the path of the request line, and the client the limiter sees.\<close>

definition first_line :: "string \<Rightarrow> string" where
  "first_line request = takeWhile (\<lambda>c. c \<noteq> nl) request"

definition request_line :: "string \<Rightarrow> string \<times> string" where
  "request_line request =
     (case next_word (first_line request) of (meth, rest) \<Rightarrow> (meth, extract_path (fst (next_word rest))))"

definition client_of :: "string \<Rightarrow> string \<Rightarrow> string" where
  "client_of request ip = (if ip = [] then extract_ip request else ip)"

definition process_request ::
  "(HttpRequest \<Rightarrow> HttpResponse outcome) \<Rightarrow> (string \<Rightarrow> 'j option) \<Rightarrow> ('j \<Rightarrow> string option)
   \<Rightarrow> int \<Rightarrow> string \<Rightarrow> string \<Rightarrow> 'j APIGateway \<Rightarrow> string outcome \<times> 'j APIGateway" where
  "process_request perform jparse jdump now request ip g =
     (if first_line request = [] then (Returns (error_response ''400 Bad Request'' ''Empty request''), g)
      else
        let (meth, path) = request_line request;
            (ok, l) = check_limit now (client_of request ip) (rate_limiter g);
            g = g\<lparr>rate_limiter := l, stats := (stats g)\<lparr>total_requests := total_requests (stats g) + 1\<rparr>\<rparr>
        in if \<not> ok
           then (Returns (error_response ''429 Too Many Requests'' ''Rate limit exceeded''),
                 g\<lparr>stats := (stats g)\<lparr>rate_limited_requests := rate_limited_requests (stats g) + 1\<rparr>\<rparr>)
           else
             case find_route path (parse_method meth) g of
               None \<Rightarrow> (Returns (error_response ''404 Not Found'' ''Route not found''), g)
             | Some r \<Rightarrow>
                 if requires_auth r \<and> \<not> authenticate_request (bearer_token request)
                 then (Returns (error_response ''401 Unauthorized'' ''Authentication failed''), g)
                 else forward_request perform jparse jdump r request meth path g)"

text \<open>What the connection thread sends back: an exception becomes a response of its own.\<close>

definition respond :: "string outcome \<Rightarrow> string outcome" where
  "respond x = (case x of Throws msg \<Rightarrow> Returns (error_response ''500 Internal Server Error'' msg) | y \<Rightarrow> y)"

text \<open>The receiving loop over the results of \<open>recv\<close>, which writes at most what is left of the
  buffer of 8192 bytes but one; None when the connection ends without a whole header. The sending
  loop over the results of \<open>send\<close>: the bytes sent.\<close>

datatype recv_result = Received string | Peer_closed | Recv_again | Recv_error

fun receive :: "string \<Rightarrow> recv_result list \<Rightarrow> string option" where
  "receive buf [] = None"
| "receive buf (Received s # rs) =
     (let got = take (8192 - length buf - 1) s; buf' = buf @ got in
      if got = [] then None
      else if 4 \<le> length buf' \<and> contains buf' (crlf @ crlf) then Some buf'
      else if 8192 - 1 \<le> length buf' then None
      else receive buf' rs)"
| "receive buf (Recv_again # rs) = receive buf rs"
| "receive buf (Peer_closed # rs) = None"
| "receive buf (Recv_error # rs) = None"

datatype send_result = Sent nat | Send_again | Send_error

fun send_all :: "string \<Rightarrow> send_result list \<Rightarrow> string" where
  "send_all data [] = []"
| "send_all data (Sent n # rs) =
     (if data = [] then [] else if n = 0 then [] else take n data @ send_all (drop n data) rs)"
| "send_all data (Send_again # rs) = send_all data rs"
| "send_all data (Send_error # rs) = []"

section \<open>One request\<close>

lemma forwarded_choose [simp]:
  "forwarded (snd (choose_target r g)) = forwarded g" "stats (snd (choose_target r g)) = stats g"
  "rate_limiter (snd (choose_target r g)) = rate_limiter g" "routes (snd (choose_target r g)) = routes g"
  by (simp_all add: choose_target_def split_beta split: option.split)

lemma choose_target_stats [simp]:
  "fst (choose_target r (g\<lparr>rate_limiter := l, stats := s\<rparr>)) = fst (choose_target r g)"
  by (simp add: choose_target_def split_beta split: option.split)

lemma forward_request_effects:
  assumes "forward_request perform jparse jdump r request meth path g = (x, g')"
    and "q = outgoing r (fst (choose_target r g)) meth path request"
  shows "forwarded g' = forwarded g @ [q]" "rate_limiter g' = rate_limiter g" "routes g' = routes g"
    "stats g' = (case perform q of Returns resp \<Rightarrow> count_response (status_code resp) (stats g) | _ \<Rightarrow> stats g)"
proof -
  obtain a b where c: "choose_target r g = (a, b)" by (cases "choose_target r g")
  then have b: "forwarded b = forwarded g" "stats b = stats g" "rate_limiter b = rate_limiter g" "routes b = routes g"
    using forwarded_choose [of r g] by auto
  show "forwarded g' = forwarded g @ [q]" "rate_limiter g' = rate_limiter g" "routes g' = routes g"
    "stats g' = (case perform q of Returns resp \<Rightarrow> count_response (status_code resp) (stats g) | _ \<Rightarrow> stats g)"
    using assms c b by (auto simp: forward_request_def Let_def split: outcome.splits option.splits)
qed

text \<open>The cases of a request: what it leaves in the gateway.\<close>

lemma process_request_cases:
  assumes "process_request perform jparse jdump now request ip g = (x, g')"
  obtains (empty) "first_line request = []" "g' = g"
  | (limited) "first_line request \<noteq> []" "\<not> fst (check_limit now (client_of request ip) (rate_limiter g))"
      "rate_limiter g' = snd (check_limit now (client_of request ip) (rate_limiter g))" "forwarded g' = forwarded g"
      "routes g' = routes g"
      "stats g' = (stats g)\<lparr>total_requests := total_requests (stats g) + 1,
         rate_limited_requests := rate_limited_requests (stats g) + 1\<rparr>"
  | (refused) "first_line request \<noteq> []" "fst (check_limit now (client_of request ip) (rate_limiter g))"
      "rate_limiter g' = snd (check_limit now (client_of request ip) (rate_limiter g))" "forwarded g' = forwarded g"
      "routes g' = routes g" "stats g' = (stats g)\<lparr>total_requests := total_requests (stats g) + 1\<rparr>"
  | (passed) r q where "first_line request \<noteq> []" "fst (check_limit now (client_of request ip) (rate_limiter g))"
      "rate_limiter g' = snd (check_limit now (client_of request ip) (rate_limiter g))"
      "find_route (snd (request_line request)) (parse_method (fst (request_line request))) g = Some r"
      "requires_auth r \<Longrightarrow> authenticate_request (bearer_token request)"
      "q = outgoing r (fst (choose_target r g)) (fst (request_line request)) (snd (request_line request)) request"
      "forwarded g' = forwarded g @ [q]" "routes g' = routes g"
      "stats g' = (case perform q of
           Returns resp \<Rightarrow> count_response (status_code resp) ((stats g)\<lparr>total_requests := total_requests (stats g) + 1\<rparr>)
         | _ \<Rightarrow> (stats g)\<lparr>total_requests := total_requests (stats g) + 1\<rparr>)"
proof (cases "first_line request = []")
  case True
  then show thesis using assms by (intro empty) (auto simp: process_request_def)
next
  case False
  obtain meth path where rl: "request_line request = (meth, path)" by (cases "request_line request")
  obtain ok l where cl: "check_limit now (client_of request ip) (rate_limiter g) = (ok, l)"
    by (cases "check_limit now (client_of request ip) (rate_limiter g)")
  let ?g = "g\<lparr>rate_limiter := l, stats := (stats g)\<lparr>total_requests := total_requests (stats g) + 1\<rparr>\<rparr>"
  have fr: "find_route path (parse_method meth) ?g = find_route path (parse_method meth) g"
    by (simp add: find_route_def)
  show thesis
  proof (cases ok)
    case False
    then show thesis using assms \<open>first_line request \<noteq> []\<close> cl rl
      by (intro limited) (auto simp: process_request_def)
  next
    case True
    note ok = this
    show thesis
    proof (cases "find_route path (parse_method meth) g")
      case None
      then show thesis using assms False cl rl ok fr by (intro refused) (auto simp: process_request_def)
    next
      case (Some r)
      show thesis
      proof (cases "requires_auth r \<and> \<not> authenticate_request (bearer_token request)")
        case True
        then show thesis using assms False cl rl ok fr Some by (intro refused) (auto simp: process_request_def)
      next
        case auth: False
        have f: "forward_request perform jparse jdump r request meth path ?g = (x, g')"
          using assms False cl rl ok fr Some auth by (auto simp: process_request_def Let_def)
        show thesis using forward_request_effects [OF f refl] False cl rl ok Some auth
          by (intro passed [of r "outgoing r (fst (choose_target r g)) meth path request"]) (simp_all cong: outcome.case_cong)
      qed
    qed
  qed
qed

section \<open>Runs of the gateway\<close>

text \<open>A run over requests with their times and peers: the gateway after it, and the times and clients
  of the requests that reached a backend.\<close>

fun serve ::
  "(HttpRequest \<Rightarrow> HttpResponse outcome) \<Rightarrow> (string \<Rightarrow> 'j option) \<Rightarrow> ('j \<Rightarrow> string option)
   \<Rightarrow> (int \<times> string \<times> string) list \<Rightarrow> 'j APIGateway \<Rightarrow> (int \<times> string) list \<times> 'j APIGateway" where
  "serve perform jparse jdump [] g = ([], g)"
| "serve perform jparse jdump ((now, request, ip) # qs) g =
     (let g' = snd (process_request perform jparse jdump now request ip g) in
      (case serve perform jparse jdump qs g' of
         (hits, g'') \<Rightarrow> ((if forwarded g' \<noteq> forwarded g then [(now, client_of request ip)] else []) @ hits, g'')))"

lemma process_request_cases':
  fixes g :: "'j APIGateway"
  obtains "first_line request = []" "snd (process_request perform jparse jdump now request ip g) = g"
  | "first_line request \<noteq> []" "\<not> fst (check_limit now (client_of request ip) (rate_limiter g))"
      "rate_limiter (snd (process_request perform jparse jdump now request ip g)) = snd (check_limit now (client_of request ip) (rate_limiter g))"
      "forwarded (snd (process_request perform jparse jdump now request ip g)) = forwarded g"
  | "first_line request \<noteq> []" "fst (check_limit now (client_of request ip) (rate_limiter g))"
      "rate_limiter (snd (process_request perform jparse jdump now request ip g)) = snd (check_limit now (client_of request ip) (rate_limiter g))"
  using process_request_cases [of perform jparse jdump now request ip g "fst (process_request perform jparse jdump now request ip g)"
      "snd (process_request perform jparse jdump now request ip g)"] surjective_pairing
  by metis

definition arrivals :: "(int \<times> string \<times> string) list \<Rightarrow> (int \<times> string) list" where
  "arrivals qs = map (\<lambda>(t, request, ip). (t, client_of request ip)) (filter (\<lambda>(t, request, ip). first_line request \<noteq> []) qs)"

lemma hits_admitted:
  "length (filter P (fst (serve perform jparse jdump qs g))) \<le> length (filter P (admitted (arrivals qs) (rate_limiter g)))"
proof (induction qs arbitrary: g)
  case Nil
  then show ?case by simp
next
  case (Cons q qs)
  obtain t request ip where q: "q = (t, request, ip)" by (cases q)
  let ?g = "snd (process_request perform jparse jdump t request ip g)"
  have ih: "length (filter P (fst (serve perform jparse jdump qs ?g))) \<le> length (filter P (admitted (arrivals qs) (rate_limiter ?g)))"
    by (rule Cons.IH)
  show ?case
    by (rule process_request_cases' [of request perform jparse jdump t ip g])
      (use ih in \<open>auto simp: q arrivals_def Let_def split_beta\<close>)
qed

section \<open>Properties\<close>

text \<open>C14. A request reaches a backend only when the limiter admitted its client and the first route with
  exactly its path and method, if it demands authentication, was given a bearer token of more than
  ten characters. What is sent goes to that route's target, or to the endpoint its load balancer
  is at, with the request's path, method and body and the route's headers, and exactly one request is sent.\<close>

theorem gateway_forwards_only_admitted:
  assumes "process_request perform jparse jdump now request ip g = (x, g')" "forwarded g' \<noteq> forwarded g"
  shows "fst (check_limit now (client_of request ip) (rate_limiter g))
    \<and> (\<exists>r. find_route (snd (request_line request)) (parse_method (fst (request_line request))) g = Some r
        \<and> (requires_auth r \<longrightarrow> 10 < length (bearer_token request))
        \<and> forwarded g' = forwarded g @ [outgoing r
              (case map_of (load_balancers g) (service_name r) of
                 Some b \<Rightarrow> if service_name r = [] then target_url r else fst (get_next_endpoint b)
               | None \<Rightarrow> target_url r)
              (fst (request_line request)) (snd (request_line request)) request])"
  using assms(1)
proof (cases rule: process_request_cases)
  case (passed r q)
  have "fst (choose_target r g) = (case map_of (load_balancers g) (service_name r) of
      Some b \<Rightarrow> if service_name r = [] then target_url r else fst (get_next_endpoint b) | None \<Rightarrow> target_url r)"
    by (simp add: choose_target_def split_beta split: option.split)
  then show ?thesis using passed by (auto simp: authenticate_request_def)
qed (use assms(2) in simp_all)

text \<open>C15. The limit protects the backends: from one client no more than twice the configured number
  of requests per minute is forwarded in any minute, whatever all clients send.\<close>

theorem backends_are_protected:
  assumes "sorted (map fst (arrivals qs))"
  shows "length (filter (\<lambda>(u, j). j = c \<and> t \<le> u \<and> u < t + minute)
    (fst (serve perform jparse jdump qs (set_rate_limit n g)))) \<le> 2 * nat (max 1 n)"
proof -
  let ?P = "\<lambda>(u, j). j = c \<and> t \<le> u \<and> u < t + minute"
  have "length (filter ?P (fst (serve perform jparse jdump qs (set_rate_limit n g))))
      \<le> length (filter ?P (admitted (arrivals qs) (RateLimiter_new n)))"
    using hits_admitted [of ?P perform jparse jdump qs "set_rate_limit n g"] by (simp add: set_rate_limit_def)
  also have "\<dots> \<le> 2 * nat (max 1 n)"
  proof -
    have "length (filter ?P ps) = length (filter (\<lambda>u. t \<le> u \<and> u < t + minute) (own c ps))" for ps
      by (induction ps) (auto split: if_splits)
    then show ?thesis
      using passes_in_minute [OF sorted_own [OF assms], of "\<lparr>request_count = 0, window_start = 0\<rparr>"]
      by (simp add: own_admitted RateLimiter_new_def entry_of_def)
  qed
  finally show ?thesis .
qed

text \<open>What a run adds to the counters.\<close>

definition answered :: "GatewayStats \<Rightarrow> nat" where
  "answered s = successful_requests s + failed_requests s"

lemma answered_count [simp]:
  "answered (count_response c s) = Suc (answered s)" "total_requests (count_response c s) = total_requests s"
  "rate_limited_requests (count_response c s) = rate_limited_requests s"
  by (simp_all add: answered_def count_response_def)

lemma answered_total [simp]:
  "answered (s\<lparr>total_requests := n\<rparr>) = answered s" "answered (s\<lparr>rate_limited_requests := n\<rparr>) = answered s"
  by (simp_all add: answered_def)

lemma request_counts:
  assumes "process_request perform jparse jdump now request ip g = (x, g')"
  shows "\<exists>new. forwarded g' = forwarded g @ new
    \<and> total_requests (stats g') = total_requests (stats g) + (if first_line request = [] then 0 else 1)
    \<and> answered (stats g') = answered (stats g) + length (filter (\<lambda>q. \<exists>resp. perform q = Returns resp) new)
    \<and> rate_limited_requests (stats g') + answered (stats g') + total_requests (stats g)
      \<le> total_requests (stats g') + rate_limited_requests (stats g) + answered (stats g)"
  using assms
proof (cases rule: process_request_cases)
  case (passed r q)
  then show ?thesis by (cases "perform q") auto
qed simp_all

lemma run_counts:
  "\<exists>new. forwarded (snd (serve perform jparse jdump qs g)) = forwarded g @ new
    \<and> total_requests (stats (snd (serve perform jparse jdump qs g))) = total_requests (stats g) + length (arrivals qs)
    \<and> answered (stats (snd (serve perform jparse jdump qs g)))
      = answered (stats g) + length (filter (\<lambda>q. \<exists>resp. perform q = Returns resp) new)
    \<and> rate_limited_requests (stats (snd (serve perform jparse jdump qs g)))
        + answered (stats (snd (serve perform jparse jdump qs g))) + total_requests (stats g)
      \<le> total_requests (stats (snd (serve perform jparse jdump qs g))) + rate_limited_requests (stats g) + answered (stats g)"
proof (induction qs arbitrary: g)
  case Nil
  then show ?case by (simp add: arrivals_def)
next
  case (Cons q qs)
  obtain t request ip where q: "q = (t, request, ip)" by (cases q)
  obtain x g' where p: "process_request perform jparse jdump t request ip g = (x, g')"
    by (cases "process_request perform jparse jdump t request ip g")
  from request_counts [OF p] obtain new where new: "forwarded g' = forwarded g @ new"
      "total_requests (stats g') = total_requests (stats g) + (if first_line request = [] then 0 else 1)"
      "answered (stats g') = answered (stats g) + length (filter (\<lambda>q. \<exists>resp. perform q = Returns resp) new)"
      "rate_limited_requests (stats g') + answered (stats g') + total_requests (stats g)
        \<le> total_requests (stats g') + rate_limited_requests (stats g) + answered (stats g)" by blast
  from Cons.IH [of g'] obtain later where later:
      "forwarded (snd (serve perform jparse jdump qs g')) = forwarded g' @ later"
      "total_requests (stats (snd (serve perform jparse jdump qs g'))) = total_requests (stats g') + length (arrivals qs)"
      "answered (stats (snd (serve perform jparse jdump qs g')))
        = answered (stats g') + length (filter (\<lambda>q. \<exists>resp. perform q = Returns resp) later)"
      "rate_limited_requests (stats (snd (serve perform jparse jdump qs g')))
          + answered (stats (snd (serve perform jparse jdump qs g'))) + total_requests (stats g')
        \<le> total_requests (stats (snd (serve perform jparse jdump qs g'))) + rate_limited_requests (stats g') + answered (stats g')"
    by blast
  have "snd (serve perform jparse jdump (q # qs) g) = snd (serve perform jparse jdump qs g')"
    by (simp add: q p Let_def split_beta)
  moreover have "length (arrivals (q # qs)) = (if first_line request = [] then 0 else 1) + length (arrivals qs)"
    by (simp add: q arrivals_def)
  ultimately show ?case using new later by (intro exI [of _ "new @ later"]) (simp add: add.assoc)
qed

text \<open>The statistics account for the requests: every request with a request line is counted once,
  no more are counted as limited, successful or failed than came in, and the successes and
  failures are exactly the forwarded requests the client got a response for.\<close>

theorem statistics_account_for_requests:
  "\<exists>new s. forwarded (snd (serve perform jparse jdump qs (reset_statistics now g))) = forwarded g @ new
    \<and> stats (snd (serve perform jparse jdump qs (reset_statistics now g))) = s
    \<and> total_requests s = length (arrivals qs)
    \<and> successful_requests s + failed_requests s = length (filter (\<lambda>q. \<exists>resp. perform q = Returns resp) new)
    \<and> rate_limited_requests s + successful_requests s + failed_requests s \<le> total_requests s"
  using run_counts [of perform jparse jdump qs "reset_statistics now g"]
  by (auto simp: reset_statistics_def reset_stats_def answered_def add.assoc)

section \<open>A concrete gateway\<close>

definition sample_route :: "unit Route" where
  "sample_route = \<lparr>rt_path = ''/a'', rt_method = M_GET, target_url = ''http://b'', service_name = [],
     requires_auth = False, rate_limit_per_minute = 60, rt_headers = [], validator = None, transformer = None\<rparr>"

definition sample_gateway :: "unit APIGateway" where
  "sample_gateway = add_route sample_route (APIGateway_new 0)"

definition sample_request :: string where
  "sample_request = ''GET /a HTTP/1.1'' @ crlf @ crlf"

definition sample_perform :: "HttpRequest \<Rightarrow> HttpResponse outcome" where
  "sample_perform q = Returns (HttpResponse_new\<lparr>status_code := 200, rs_body := ''hi''\<rparr>)"

definition sample_run :: "string outcome \<times> unit APIGateway" where
  "sample_run = process_request sample_perform (\<lambda>s. None) (\<lambda>j. None) 1 sample_request ''10.0.0.1'' sample_gateway"

lemma sample_run_forwards:
  "length (forwarded (snd sample_run)) = 1"
  "fst sample_run = Returns (''HTTP/1.1 200 OK'' @ crlf @ ''Content-Type: application/json'' @ crlf
     @ ''Content-Length: 2'' @ crlf @ crlf @ ''hi'')"
  by code_simp+

lemma gateway_forwards_only_admitted_witness:
  "fst (check_limit 1 (client_of sample_request ''10.0.0.1'') (rate_limiter sample_gateway))"
proof -
  have "process_request sample_perform (\<lambda>s. None) (\<lambda>j. None) 1 sample_request ''10.0.0.1'' sample_gateway
      = (fst sample_run, snd sample_run)" by (simp add: sample_run_def)
  moreover have "forwarded (snd sample_run) \<noteq> forwarded sample_gateway"
  proof
    assume "forwarded (snd sample_run) = forwarded sample_gateway"
    then show False using sample_run_forwards(1) by (simp add: sample_gateway_def add_route_def APIGateway_new_def)
  qed
  ultimately show ?thesis using gateway_forwards_only_admitted by blast
qed

lemma backends_are_protected_witness:
  "length (filter (\<lambda>(u, j). j = ''10.0.0.1'' \<and> 0 \<le> u \<and> u < 0 + minute)
    (fst (serve sample_perform (\<lambda>s. None) (\<lambda>j. None)
      [(1, sample_request, ''10.0.0.1''), (2, sample_request, ''10.0.0.1'')] (set_rate_limit 1 sample_gateway)))) \<le> 2"
proof -
  have "sorted (map fst (arrivals [(1, sample_request, ''10.0.0.1''), (2, sample_request, ''10.0.0.1'')]))"
    by (simp add: arrivals_def)
  from backends_are_protected [OF this, of "''10.0.0.1''" 0 sample_perform "\<lambda>s. None" "\<lambda>j. None" 1 sample_gateway]
  show ?thesis by simp
qed

section \<open>What the gateway does not do\<close>

text \<open>Any token of more than ten characters authenticates; a body in a later packet than the end of the
  header is never read; the path of an address without one is two slashes and the host.\<close>

lemma any_long_token_authenticates: "authenticate_request t \<longleftrightarrow> 10 < length t"
  by (auto simp: authenticate_request_def)

lemma body_in_later_packet_is_lost:
  "receive [] [Received (''POST / HTTP/1.1'' @ crlf @ ''Content-Length: 2'' @ crlf @ crlf), Received ''hi'']
     = Some (''POST / HTTP/1.1'' @ crlf @ ''Content-Length: 2'' @ crlf @ crlf)"
  by code_simp

lemma path_of_bare_host: "extract_path ''http://h'' = ''//h''"
  by code_simp

text \<open>The receiving loop keeps its index inside the buffer and stops at a whole header.\<close>

lemma receive_bounds:
  "receive buf rs = Some d \<Longrightarrow> length buf \<le> 8191 \<Longrightarrow> length d \<le> 8191 \<and> contains d (crlf @ crlf)"
proof (induction buf rs rule: receive.induct)
  case (2 buf s rs)
  then show ?case by (auto simp: Let_def split: if_splits)
qed simp_all

end
