(* ===== verification/Gateway_Client.thy ===== *)
theory Gateway_Client
  imports Api_Gateway
begin

text \<open>
  The HTTP client and the gateway on the two ends of a connection: the gateway reads what the client's
  \<open>build_request\<close> wrote, and the client receives and reads what the gateway's \<open>process_request\<close> answers.
\<close>

section \<open>The gateway reads a request\<close>

definition word :: "string \<Rightarrow> bool" where
  "word s \<longleftrightarrow> s \<noteq> [] \<and> (\<forall>c\<in>set s. \<not> isspace c)"

definition header_fits :: "string \<times> string \<Rightarrow> bool" where
  "header_fits f \<longleftrightarrow> cr \<notin> set (fst f) \<and> cr \<notin> set (snd f)"

lemma isspace_simps [simp]: "isspace CHR '' ''" "isspace cr" "isspace nl" "isspace tab"
  by (simp_all add: isspace_def code_def)

lemma next_word_word: "word w \<Longrightarrow> isspace c \<Longrightarrow> next_word (w @ c # s) = (w, c # s)"
proof -
  assume w: "word w" and c: "isspace c"
  then have "dropWhile isspace (w @ c # s) = w @ c # s" by (cases w) (auto simp: word_def)
  with w c show ?thesis by (simp add: next_word_def word_def takeWhile_append2 dropWhile_append2)
qed

lemma next_word_skip: "isspace c \<Longrightarrow> next_word (c # s) = next_word s"
  by (simp add: next_word_def)

lemma word_no_nl: "word w \<Longrightarrow> nl \<notin> set w \<and> cr \<notin> set w"
  by (auto simp: word_def)

lemma build_request_lines:
  "build_request req host path =
     lines_text ((rq_method req @ '' '' @ path @ '' HTTP/1.1'') # (''Host: '' @ host) #
       map (\<lambda>(k, v). k @ '': '' @ v) (rq_headers req)
       @ (if rq_body req = [] then [] else [''Content-Length: '' @ to_string_nat (length (rq_body req))])
       @ [''Connection: close'']) @ crlf @ rq_body req"
  by (auto simp: build_request_def header_text_def lines_text_def comp_def split_def)

lemma drop_head: "2 \<le> length a \<Longrightarrow> drop (length a - 2 + 4) (a @ crlf @ b) = b"
  by simp



section \<open>The client receives a response\<close>

lemma find_here_least: "find_here p s = Some i \<Longrightarrow> j \<le> length s \<Longrightarrow> starts_with p (drop j s) \<Longrightarrow> i \<le> j"
proof (induction p s arbitrary: i j rule: find_here.induct)
  case (1 p)
  then show ?case by (auto split: if_splits)
next
  case (2 p c cs)
  then show ?case by (cases j) (auto split: if_splits)
qed

definition gateway_fields :: "string \<Rightarrow> (string \<times> string) list" where
  "gateway_fields body = [(''Content-Type'', ''application/json''), (''Content-Length'', to_string_nat (length body))]"

definition gateway_head :: "nat \<Rightarrow> string \<Rightarrow> string \<Rightarrow> string" where
  "gateway_head n phrase body =
     lines_text (status_line ''HTTP/1.1'' n phrase # map field_line (gateway_fields body)) @ crlf"

lemma build_response_message:
  "build_response (int n) phrase body = message ''HTTP/1.1'' n phrase (gateway_fields body) body"
  by (simp add: build_response_def message_def status_line_def field_line_def gateway_fields_def to_string_int_def)

lemma build_response_head: "build_response (int n) phrase body = gateway_head n phrase body @ body"
  by (simp add: build_response_message message_def gateway_head_def)

lemma gateway_head_ends:
  "cr \<notin> set phrase \<Longrightarrow> str_find (gateway_head n phrase body @ b) (crlf @ crlf) 0 = Some (length (gateway_head n phrase body) - 4)"
  using header_end [of "status_line ''HTTP/1.1'' n phrase # map field_line (gateway_fields body)" b] no_blank_digits
  by (simp add: gateway_head_def str_find_0 line_ok_def status_line_def field_line_def gateway_fields_def)

lemma wanted_length_at:
  assumes a: "str_find (a @ ''Content-Length: '' @ d @ crlf @ b) ''Content-Length:'' 0 = Some (length a)"
    and d: "cr \<notin> set d" "stoi d = Returns m"
  shows "wanted_length (a @ ''Content-Length: '' @ d @ crlf @ b) = Returns (Some m)"
proof -
  let ?D = "a @ ''Content-Length: '' @ d @ crlf @ b"
  have 1: "str_find ?D '' '' (length a) = Some (length a + 15)"
    using find_here_hit [of "'' ''" "''Content-Length:''" "d @ crlf @ b"] by (simp add: str_find_at)
  have "str_find ((a @ ''Content-Length: '') @ d @ crlf @ b) crlf (length (a @ ''Content-Length: ''))
      = Some (length (a @ ''Content-Length: '') + length d)"
    using find_here_hit [of crlf d b] d unfolding str_find_at by simp
  then have 2: "str_find ?D crlf (length a + 16) = Some (length a + 16 + length d)" by (simp add: eval_nat_numeral)
  have 3: "substr ?D (length a + 16) (length d) = d" by (simp add: substr_def)
  have eq: "length a + 15 + 1 = length a + 16" "length a + 16 + length d - (length a + 16) = length d" by simp_all
  show ?thesis
    unfolding wanted_length_def a option.case Let_def 1 eq(1) 2 eq(2) 3 d(2) by simp
qed

lemma gateway_length_read:
  assumes p: "CHR '':'' \<notin> set phrase" and n: "length body < 2147483648"
  shows "wanted_length (gateway_head n phrase body @ b) = Returns (Some (int (length body)))"
proof -
  let ?s = "status_line ''HTTP/1.1'' n phrase" and ?d = "to_string_nat (length body)"
  let ?t = "nl # ''Content-Type: application/json''"
  define a where "a = ?s @ cr # ?t @ crlf"
  have D: "gateway_head n phrase body @ b = a @ ''Content-Length: '' @ ?d @ crlf @ crlf @ b"
    by (simp add: gateway_head_def field_line_def gateway_fields_def a_def)
  have s: "find_here ''Content-Length:'' ?s = None"
    using p no_blank_digits by (intro find_here_missing [of "CHR '':''"]) (auto simp: status_line_def)
  have t: "find_here ''Content-Length:'' ?t = None" by code_simp
  let ?r = "''Content-Length: '' @ ?d @ crlf @ crlf @ b"
  have "find_here ''Content-Length:'' (a @ ?r)
      = map_option ((+) (Suc (length ?s))) (find_here ''Content-Length:'' (?t @ cr # nl # ?r))"
    using find_here_line [OF _ _ s, of cr "?t @ cr # nl # ?r"] by (simp add: a_def)
  also have "find_here ''Content-Length:'' (?t @ cr # nl # ?r)
      = map_option ((+) (Suc (length ?t))) (find_here ''Content-Length:'' (nl # ?r))"
    by (rule find_here_line [OF _ _ t]) simp_all
  also have "find_here ''Content-Length:'' (nl # ?r) = Some 1" by simp
  finally have "str_find (a @ ?r) ''Content-Length:'' 0 = Some (length a)"
    by (simp add: str_find_0 a_def)
  then show ?thesis
    using wanted_length_at [of a ?d "crlf @ b" "int (length body)"] no_blank_digits stoi_to_string [OF n]
    unfolding D by simp
qed

lemma trim_digits: "trim_blanks (to_string_nat n) = to_string_nat n"
proof -
  have "\<not> blank c" if "c \<in> set (to_string_nat n)" for c
    using to_string_nat_digits [OF that] by (auto simp: blank_def ctype_defs)
  then have "dropWhile blank (to_string_nat n) = to_string_nat n" "dropWhile blank (rev (to_string_nat n)) = rev (to_string_nat n)"
    by (simp_all add: dropWhile_eq_self_iff hd_rev)
  then show ?thesis by (simp add: trim_blanks_def trim_front_def)
qed

lemma gateway_fields_ok: "f \<in> set (gateway_fields body) \<Longrightarrow> field_ok f"
proof -
  have "trim_blanks ''application/json'' = ''application/json''" by code_simp
  then show "f \<in> set (gateway_fields body) \<Longrightarrow> field_ok f"
    using no_blank_digits by (auto simp: gateway_fields_def field_ok_def trim_digits)
qed

lemma prefix_split:
  assumes "x @ y = h @ z" and "length h \<le> length x"
  shows "\<exists>b. x = h @ b \<and> b @ y = z"
proof -
  have "take (length h) x = h" using assms(2) arg_cong [OF assms(1), of "take (length h)"] by simp
  then have "x = h @ drop (length h) x" by (metis append_take_drop_id)
  then show ?thesis using assms(1) by (metis append_assoc same_append_eq)
qed

lemma read_response_whole:
  assumes p: "CHR '':'' \<notin> set phrase" "cr \<notin> set phrase" and n: "length body < 2147483648"
    and "\<forall>c\<in>set pieces. c \<noteq> [] \<and> length c \<le> 4095"
    and "resp @ concat pieces = gateway_head n phrase body @ body"
  shows "read_response resp pieces = Returns (gateway_head n phrase body @ body)"
  using assms(4,5)
proof (induction pieces arbitrary: resp)
  case (Cons c cs)
  let ?H = "gateway_head n phrase body" and ?r = "resp @ c"
  have c: "take 4095 c = c" "c \<noteq> []" using Cons.prems by auto
  have IH: "read_response ?r cs = Returns (?H @ body)" using Cons by simp
  have H4: "4 \<le> length ?H" by (simp add: gateway_head_def)
  show ?case
  proof (cases "str_find ?r (crlf @ crlf) 0")
    case None
    then show ?thesis using c IH by (simp add: Let_def)
  next
    case (Some e)
    then have e: "e \<le> length ?r" "starts_with (crlf @ crlf) (drop e ?r)" using str_find_SomeD by blast+
    then obtain z where z: "drop e ?r = crlf @ crlf @ z" by (auto simp: starts_with_iff)
    have "starts_with (crlf @ crlf) (drop e (?r @ concat cs))"
      using e starts_with_append [OF e(2), of "concat cs"] by simp
    moreover have eq: "?r @ concat cs = ?H @ body" using Cons.prems(2) by simp
    ultimately have "starts_with (crlf @ crlf) (drop e (?H @ body))" by (simp only:)
    moreover have "e \<le> length (?H @ body)" unfolding eq [symmetric] using e(1) by simp
    ultimately have "length ?H - 4 \<le> e"
      using find_here_least gateway_head_ends [OF p(2), of n body body] by (simp add: str_find_0)
    moreover have "e + 4 \<le> length ?r" using arg_cong [OF z, of length] e(1) by simp
    ultimately have "length ?H \<le> length ?r" using H4 by simp
    then obtain b where b: "?r = ?H @ b" "b @ concat cs = body"
      using prefix_split [OF eq] by blast
    have e': "str_find ?r (crlf @ crlf) 0 = Some (length ?H - 4)" using gateway_head_ends [OF p(2)] by (simp add: b)
    have w: "wanted_length ?r = Returns (Some (int (length body)))" unfolding b by (rule gateway_length_read [OF p(1) n])
    have "cs = []" if "length body \<le> length b"
      using that b(2) Cons.prems(1) by (cases cs) auto
    then show ?thesis
      using c IH e' w H4 b by (auto simp: Let_def)
  qed
qed simp



end
