(* ===== verification/Firewall_State.thy ===== *)
theory Firewall_State
  imports Http_Client
begin

text \<open>
  The state of the firewall of \<open>medusa_icewall_firewall_daddy.hpp\<close> and its administration: policies,
  the two lists of addresses, connection trackers, counters and the queue of events. Times are
  nanoseconds; a compiled pattern is the predicate it decides, so the regular expression library is
  not modelled. The threads, the random keys, the text log and the measured processing time, which
  no decision reads, are left out, and so are the members that nothing reads or writes.
\<close>

section \<open>Data\<close>

datatype PolicyType =
    IP_WHITELIST | IP_BLACKLIST | RATE_LIMITING | GEO_BLOCKING | USER_AGENT_FILTERING | URL_PATTERN_BLOCKING
  | SQL_INJECTION_PREVENTION | XSS_PROTECTION | CSRF_PROTECTION | DDoS_MITIGATION | BRUTE_FORCE_PROTECTION
  | MALWARE_SCANNING | QUANTUM_THREAT_DETECTION

datatype SecurityAction =
  ALLOW | BLOCK | LOG_ONLY | CHALLENGE | RATE_LIMIT | REDIRECT | QUARANTINE | YORKSHIRE_CHAMPION_BLOCK

datatype ThreatSeverity = INFO | LOW | MEDIUM | HIGH | CRITICAL | QUANTUM_LEVEL | YORKSHIRE_CHAMPION

definition severity_int :: "ThreatSeverity \<Rightarrow> int" where
  "severity_int s = (case s of INFO \<Rightarrow> 0 | LOW \<Rightarrow> 1 | MEDIUM \<Rightarrow> 2 | HIGH \<Rightarrow> 3 | CRITICAL \<Rightarrow> 4
     | QUANTUM_LEVEL \<Rightarrow> 5 | YORKSHIRE_CHAMPION \<Rightarrow> 6)"

record IPAddressInfo =
  ip_range :: string
  is_malicious :: bool
  reputation_score :: int
  threat_tags :: "string list"
  first_seen :: int

record SecurityPolicy =
  policy_id :: string
  policy_name :: string
  policy_type :: PolicyType
  policy_action :: SecurityAction
  policy_severity :: ThreatSeverity
  policy_enabled :: bool
  pattern :: string
  compiled_pattern :: "string \<Rightarrow> bool"
  rate_limit_requests :: nat
  rate_limit_window :: int
  max_connections_per_ip :: nat
  matches_count :: nat
  created_at :: int
  last_modified :: int

record IPListEntry =
  le_ip :: string
  le_action :: SecurityAction
  le_reason :: string
  le_source :: string
  added_at :: int
  expires_at :: int
  permanent :: bool
  le_tags :: "string list"
  hit_count :: nat
  last_hit :: int

record SecurityEvent =
  ev_id :: string
  ev_timestamp :: int
  ev_source_ip :: string
  ev_user_agent :: string
  ev_method :: string
  ev_url :: string
  ev_headers :: string
  ev_body :: string
  ev_severity :: ThreatSeverity
  ev_policies :: "string list"
  ev_action :: SecurityAction
  ev_description :: string

record ConnectionTracker =
  tr_client_ip :: string
  first_connection :: int
  last_activity :: int
  request_count :: nat
  request_timestamps :: "int list"
  user_agents :: "string list"
  requested_urls :: "string oset"
  http_methods :: "(string, nat) omap"
  suspicious_behavior :: bool
  tr_threat_score :: int

record FirewallMetrics =
  total_requests_processed :: nat
  requests_allowed :: nat
  requests_blocked :: nat
  rate_limited :: nat
  malicious_ips_blocked :: nat
  ddos_attacks_mitigated :: nat
  sql_injections_blocked :: nat
  xss_attacks_blocked :: nat
  brute_force_attempts_blocked :: nat
  quantum_threats_detected :: nat
  policies_evaluated :: nat
  webmail_requests_secured :: nat
  jupyter_sessions_protected :: nat
  filemanager_uploads_scanned :: nat
  calendar_access_validated :: nat
  ftp_connections_monitored :: nat

record IcewallFirewallDaddy =
  security_policies :: "SecurityPolicy list"
  whitelist_ips :: "(string, IPListEntry) umap"
  blacklist_ips :: "(string, IPListEntry) umap"
  ip_intelligence :: "(string, IPAddressInfo) umap"
  active_connections :: "(string, ConnectionTracker) umap"
  security_events :: "SecurityEvent list"
  fw_metrics :: FirewallMetrics

section \<open>Policies\<close>

definition find_policy :: "string \<Rightarrow> IcewallFirewallDaddy \<Rightarrow> nat option" where
  "find_policy i f = find_index (\<lambda>p. policy_id p = i) (security_policies f)"

definition add_security_policy :: "SecurityPolicy \<Rightarrow> IcewallFirewallDaddy \<Rightarrow> bool \<times> IcewallFirewallDaddy" where
  "add_security_policy p f =
     (if find_policy (policy_id p) f \<noteq> None then (False, f)
      else (True, f\<lparr>security_policies := security_policies f @ [p]\<rparr>))"

definition update_security_policy ::
  "int \<Rightarrow> string \<Rightarrow> SecurityPolicy \<Rightarrow> IcewallFirewallDaddy \<Rightarrow> bool \<times> IcewallFirewallDaddy" where
  "update_security_policy now i p f =
     (case find_policy i f of
        Some k \<Rightarrow> (True, f\<lparr>security_policies := (security_policies f)[k := p\<lparr>last_modified := now\<rparr>]\<rparr>)
      | None \<Rightarrow> (False, f))"

definition remove_security_policy :: "string \<Rightarrow> IcewallFirewallDaddy \<Rightarrow> bool \<times> IcewallFirewallDaddy" where
  "remove_security_policy i f =
     (let ps = filter (\<lambda>p. policy_id p \<noteq> i) (security_policies f) in
      if length ps \<noteq> length (security_policies f) then (True, f\<lparr>security_policies := ps\<rparr>) else (False, f))"

section \<open>Lists of addresses\<close>

text \<open>\<open>time_point::max()\<close>, and an hour.\<close>

definition end_of_time :: int where "end_of_time = 9223372036854775807"

definition fw_hour :: int where "fw_hour = 3600000000000"

definition list_entry ::
  "int \<Rightarrow> string \<Rightarrow> string \<Rightarrow> SecurityAction \<Rightarrow> bool \<Rightarrow> int \<Rightarrow> string list \<Rightarrow> IPListEntry" where
  "list_entry now ip reason act perm hours tags =
     \<lparr>le_ip = ip, le_action = act, le_reason = reason, le_source = ''manual'', added_at = now,
      expires_at = (if perm then end_of_time else now + hours * fw_hour), permanent = perm,
      le_tags = tags, hit_count = 0, last_hit = 0\<rparr>"

definition add_ip_to_whitelist ::
  "int \<Rightarrow> string \<Rightarrow> string \<Rightarrow> bool \<Rightarrow> int \<Rightarrow> IcewallFirewallDaddy \<Rightarrow> bool \<times> IcewallFirewallDaddy" where
  "add_ip_to_whitelist now ip reason perm hours f =
     (True, f\<lparr>whitelist_ips := um_assign ip (list_entry now ip reason ALLOW perm hours [''whitelist'']) (whitelist_ips f),
        blacklist_ips := um_erase ip (blacklist_ips f)\<rparr>)"

text \<open>The severity is its number, which only the tag shows: an import may give one that is no enumerator.\<close>

definition add_ip_to_blacklist ::
  "int \<Rightarrow> string \<Rightarrow> string \<Rightarrow> int \<Rightarrow> bool \<Rightarrow> int \<Rightarrow> IcewallFirewallDaddy \<Rightarrow> bool \<times> IcewallFirewallDaddy" where
  "add_ip_to_blacklist now ip reason sev perm hours f =
     (True, f\<lparr>blacklist_ips := um_assign ip (list_entry now ip reason BLOCK perm hours
          [''blacklist'', ''threat_level_'' @ to_string_int sev]) (blacklist_ips f),
        whitelist_ips := um_erase ip (whitelist_ips f)\<rparr>)"

definition remove_ip_from_lists :: "string \<Rightarrow> IcewallFirewallDaddy \<Rightarrow> bool \<times> IcewallFirewallDaddy" where
  "remove_ip_from_lists ip f =
     (map_of (whitelist_ips f) ip \<noteq> None \<or> map_of (blacklist_ips f) ip \<noteq> None,
      f\<lparr>whitelist_ips := um_erase ip (whitelist_ips f), blacklist_ips := um_erase ip (blacklist_ips f)\<rparr>)"

definition get_whitelist_ips :: "IcewallFirewallDaddy \<Rightarrow> IPListEntry list" where
  "get_whitelist_ips f = map snd (whitelist_ips f)"

definition get_blacklist_ips :: "IcewallFirewallDaddy \<Rightarrow> IPListEntry list" where
  "get_blacklist_ips f = map snd (blacklist_ips f)"

text \<open>\<open>std::getline\<close> up to a comma, None at the end of the stream.\<close>

definition getfield :: "string \<Rightarrow> (string \<times> string) option" where
  "getfield s = (if s = [] then None
     else Some (takeWhile (\<lambda>c. c \<noteq> CHR '','') s, drop 1 (dropWhile (\<lambda>c. c \<noteq> CHR '','') s)))"

definition import_line :: "int \<Rightarrow> bool \<Rightarrow> string \<Rightarrow> IcewallFirewallDaddy \<Rightarrow> (bool \<times> IcewallFirewallDaddy) outcome" where
  "import_line now white line f =
     (if line = [] \<or> hd line = CHR ''#'' then Returns (False, f)
      else case getfield line of
          None \<Rightarrow> Returns (False, f)
        | Some (ip, rest) \<Rightarrow> (case getfield rest of
              None \<Rightarrow> Returns (False, f)
            | Some (reason, rest) \<Rightarrow>
                if white then Returns (add_ip_to_whitelist now ip reason False 24 f)
                else
                  let s = (case getfield rest of Some (t, _) \<Rightarrow> t | None \<Rightarrow> []) in
                  outcome_bind (if s = [] then Returns (severity_int MEDIUM) else stoi s)
                    (\<lambda>sev. Returns (add_ip_to_blacklist now ip reason sev False 24 f))))"

fun import_lines :: "int \<Rightarrow> bool \<Rightarrow> string list \<Rightarrow> nat \<Rightarrow> IcewallFirewallDaddy \<Rightarrow> nat outcome \<times> IcewallFirewallDaddy" where
  "import_lines now white [] n f = (Returns n, f)"
| "import_lines now white (l # ls) n f =
     (case import_line now white l f of
        Returns (b, f') \<Rightarrow> import_lines now white ls (if b then n + 1 else n) f'
      | Throws m \<Rightarrow> (Throws m, f)
      | Undefined m \<Rightarrow> (Undefined m, f))"

definition bulk_import_ips :: "int \<Rightarrow> string \<Rightarrow> bool \<Rightarrow> IcewallFirewallDaddy \<Rightarrow> nat outcome \<times> IcewallFirewallDaddy" where
  "bulk_import_ips now csv white f = import_lines now white (lines_of csv) 0 f"

section \<open>The initial state\<close>

text \<open>\<open>rx p i\<close> is the predicate the pattern \<open>p\<close> compiles to, \<open>i\<close> telling whether case is ignored.\<close>

definition SecurityPolicy_new :: SecurityPolicy where
  "SecurityPolicy_new = \<lparr>policy_id = [], policy_name = [], policy_type = IP_WHITELIST, policy_action = ALLOW,
     policy_severity = INFO, policy_enabled = False, pattern = [], compiled_pattern = (\<lambda>s. False),
     rate_limit_requests = 100, rate_limit_window = 60000, max_connections_per_ip = 10, matches_count = 0,
     created_at = 0, last_modified = 0\<rparr>"

definition named_policy ::
  "int \<Rightarrow> string \<Rightarrow> string \<Rightarrow> PolicyType \<Rightarrow> SecurityAction \<Rightarrow> ThreatSeverity \<Rightarrow> SecurityPolicy" where
  "named_policy now i n ty act sev = SecurityPolicy_new\<lparr>policy_id := i, policy_name := n, policy_type := ty,
     policy_action := act, policy_severity := sev, policy_enabled := True, created_at := now\<rparr>"

definition with_pattern :: "(string \<Rightarrow> bool \<Rightarrow> string \<Rightarrow> bool) \<Rightarrow> string \<Rightarrow> bool \<Rightarrow> SecurityPolicy \<Rightarrow> SecurityPolicy" where
  "with_pattern rx p icase q = q\<lparr>pattern := p, compiled_pattern := rx p icase\<rparr>"

text \<open>The patterns; a backquote stands for a backslash.\<close>

definition raw :: "string \<Rightarrow> string" where
  "raw s = map (\<lambda>c. if c = backtick then bslash else c) s"

definition sql_pattern :: string where
  "sql_pattern = raw ''(`bunion`b.*`bselect`b)|(`bselect`b.*`bfrom`b)|(`bdrop`b.*`btable`b)|(`binsert`b.*`binto`b)|(`bupdate`b.*`bset`b)|(`bdelete`b.*`bfrom`b)''"

definition xss_pattern :: string where
  "xss_pattern = raw ''<script[^>]*>.*?</script>|javascript:|vbscript:|onload`s*=|onerror`s*=|onclick`s*=''"

definition webmail_pattern :: string where
  "webmail_pattern = raw ''/webmail.*`.(php|asp|jsp)$''"

definition traversal_pattern :: string where
  "traversal_pattern = raw ''`.`./|`.`.`%2F|%2E%2E%2F|%2e%2e%2f''"

definition initialize_default_policies ::
  "(string \<Rightarrow> bool \<Rightarrow> string \<Rightarrow> bool) \<Rightarrow> int \<Rightarrow> IcewallFirewallDaddy \<Rightarrow> IcewallFirewallDaddy" where
  "initialize_default_policies rx now f = fold (\<lambda>p f. snd (add_security_policy p f))
     [with_pattern rx sql_pattern True (named_policy now ''sql_injection_protection_v1''
        ''Yorkshire Champion SQL Injection Protection'' SQL_INJECTION_PREVENTION YORKSHIRE_CHAMPION_BLOCK CRITICAL),
      with_pattern rx xss_pattern True (named_policy now ''xss_protection_v1''
        ''Yorkshire Champion XSS Protection'' XSS_PROTECTION BLOCK HIGH),
      (named_policy now ''ddos_protection_v1''
        ''Yorkshire Champion DDoS Protection'' DDoS_MITIGATION RATE_LIMIT HIGH)
        \<lparr>rate_limit_requests := 50, rate_limit_window := 60000\<rparr>,
      (with_pattern rx ''login|signin|auth|password'' True (named_policy now ''brute_force_protection_v1''
        ''Yorkshire Champion Brute Force Protection'' BRUTE_FORCE_PROTECTION BLOCK HIGH))
        \<lparr>max_connections_per_ip := 5\<rparr>] f"

definition initialize_thingamabob_protection ::
  "(string \<Rightarrow> bool \<Rightarrow> string \<Rightarrow> bool) \<Rightarrow> int \<Rightarrow> IcewallFirewallDaddy \<Rightarrow> IcewallFirewallDaddy" where
  "initialize_thingamabob_protection rx now f = fold (\<lambda>p f. snd (add_security_policy p f))
     [with_pattern rx webmail_pattern True (named_policy now ''webmail_thingamabob_protection''
        ''Webmail Thingamabob Security Shield'' URL_PATTERN_BLOCKING CHALLENGE MEDIUM),
      with_pattern rx ''/api/kernels/.*/execute'' False (named_policy now ''jupyter_thingamabob_protection''
        ''Jupyter Thingamabob Code Execution Shield'' URL_PATTERN_BLOCKING LOG_ONLY MEDIUM),
      with_pattern rx traversal_pattern True (named_policy now ''filemanager_thingamabob_protection''
        ''File Manager Path Traversal Shield'' URL_PATTERN_BLOCKING YORKSHIRE_CHAMPION_BLOCK CRITICAL)] f"

definition initialize_threat_intelligence :: "int \<Rightarrow> IcewallFirewallDaddy \<Rightarrow> IcewallFirewallDaddy" where
  "initialize_threat_intelligence now f = fold (\<lambda>r f. f\<lparr>ip_intelligence := um_assign r
       \<lparr>ip_range = r, is_malicious = True, reputation_score = 10, threat_tags = [''threat_intelligence''], first_seen = now\<rparr>
       (ip_intelligence f)\<rparr>) [''10.0.0.0/8'', ''192.168.0.0/16'', ''172.16.0.0/12''] f"

definition FirewallMetrics_new :: FirewallMetrics where
  "FirewallMetrics_new = \<lparr>total_requests_processed = 0, requests_allowed = 0, requests_blocked = 0, rate_limited = 0,
     malicious_ips_blocked = 0, ddos_attacks_mitigated = 0, sql_injections_blocked = 0, xss_attacks_blocked = 0,
     brute_force_attempts_blocked = 0, quantum_threats_detected = 0, policies_evaluated = 0,
     webmail_requests_secured = 0, jupyter_sessions_protected = 0, filemanager_uploads_scanned = 0,
     calendar_access_validated = 0, ftp_connections_monitored = 0\<rparr>"

definition IcewallFirewallDaddy_new :: "(string \<Rightarrow> bool \<Rightarrow> string \<Rightarrow> bool) \<Rightarrow> int \<Rightarrow> IcewallFirewallDaddy" where
  "IcewallFirewallDaddy_new rx now =
     initialize_threat_intelligence now (initialize_thingamabob_protection rx now (initialize_default_policies rx now
       \<lparr>security_policies = [], whitelist_ips = [], blacklist_ips = [], ip_intelligence = [], active_connections = [],
        security_events = [], fw_metrics = FirewallMetrics_new\<rparr>))"

section \<open>Cleaning up\<close>

definition expired :: "int \<Rightarrow> IPListEntry \<Rightarrow> bool" where
  "expired now e \<longleftrightarrow> \<not> permanent e \<and> expires_at e < now"

definition cleanup_expired_ip_entries :: "int \<Rightarrow> IcewallFirewallDaddy \<Rightarrow> IcewallFirewallDaddy" where
  "cleanup_expired_ip_entries now f =
     f\<lparr>whitelist_ips := filter (\<lambda>(k, e). \<not> expired now e) (whitelist_ips f),
       blacklist_ips := filter (\<lambda>(k, e). \<not> expired now e) (blacklist_ips f)\<rparr>"

definition cleanup_expired_connections :: "int \<Rightarrow> IcewallFirewallDaddy \<Rightarrow> IcewallFirewallDaddy" where
  "cleanup_expired_connections now f =
     f\<lparr>active_connections := filter (\<lambda>(k, t). \<not> fw_hour < now - last_activity t) (active_connections f)\<rparr>"

definition cleanup_old_connection_trackers :: "int \<Rightarrow> IcewallFirewallDaddy \<Rightarrow> IcewallFirewallDaddy" where
  "cleanup_old_connection_trackers now f =
     f\<lparr>active_connections := filter (\<lambda>(k, t). \<not> 24 * fw_hour < now - last_activity t) (active_connections f)\<rparr>"

section \<open>Events\<close>

definition user_agent_of :: "(string, string) omap \<Rightarrow> string" where
  "user_agent_of hs = (case map_of hs ''User-Agent'' of Some u \<Rightarrow> u | None \<Rightarrow> [])"

definition push_event :: "SecurityEvent \<Rightarrow> SecurityEvent list \<Rightarrow> SecurityEvent list" where
  "push_event e q = (let q = q @ [e] in if 10000 < length q then tl q else q)"

definition generate_event_id :: "int \<Rightarrow> string" where
  "generate_event_id now = ''icewall_'' @ to_string_int (now div 1000)"

definition record_security_event ::
  "int \<Rightarrow> string \<Rightarrow> string \<Rightarrow> string \<Rightarrow> (string, string) omap \<Rightarrow> string \<Rightarrow> ThreatSeverity \<Rightarrow> string list
   \<Rightarrow> SecurityAction \<Rightarrow> string \<Rightarrow> IcewallFirewallDaddy \<Rightarrow> IcewallFirewallDaddy" where
  "record_security_event now ip meth url hs body sev pols act desc f =
     f\<lparr>security_events := push_event
        \<lparr>ev_id = generate_event_id now, ev_timestamp = now, ev_source_ip = ip, ev_user_agent = user_agent_of hs,
         ev_method = meth, ev_url = url, ev_headers = concat (map (\<lambda>(k, v). k @ '': '' @ v @ [nl]) hs),
         ev_body = take 1000 body, ev_severity = sev, ev_policies = pols, ev_action = act, ev_description = desc\<rparr>
        (security_events f)\<rparr>"

fun recent_events :: "nat \<Rightarrow> ThreatSeverity \<Rightarrow> SecurityEvent list \<Rightarrow> SecurityEvent list \<Rightarrow> SecurityEvent list" where
  "recent_events limit sev [] es = es"
| "recent_events limit sev (e # q) es =
     (if length es < limit
      then recent_events limit sev q (if severity_int sev \<le> severity_int (ev_severity e) then es @ [e] else es)
      else es)"

definition get_recent_security_events :: "nat \<Rightarrow> ThreatSeverity \<Rightarrow> IcewallFirewallDaddy \<Rightarrow> SecurityEvent list" where
  "get_recent_security_events limit sev f =
     sort_key (\<lambda>e. - ev_timestamp e) (recent_events limit sev (security_events f) [])"

end
