(* ===== verification/Firewall.thy ===== *)
theory Firewall
  imports Firewall_State
begin

text \<open>
  The decisions of the firewall of \<open>medusa_icewall_firewall_daddy.hpp\<close>: the lists of addresses, the sliding
  window, the policies, the behaviour of a client, the rules for the parts of the site, the
  request handler that puts them together, and sessions of all its operations. One reading of the clock
  serves a whole request. Shown are that the lists stay disjoint and that a ban is kept by every
  operation that leaves it alone.
\<close>

section \<open>Decisions\<close>

record FirewallDecision =
  fd_action :: SecurityAction
  fd_threat_level :: ThreatSeverity
  fd_reason :: string
  fd_triggered :: "string list"
  fd_headers :: "(string, string) omap"
  fd_custom_response :: string
  fd_delay :: int
  fd_score :: int
  fd_challenge :: bool

definition FirewallDecision_new :: FirewallDecision where
  "FirewallDecision_new = \<lparr>fd_action = BLOCK, fd_threat_level = HIGH, fd_reason = [], fd_triggered = [],
     fd_headers = [], fd_custom_response = [], fd_delay = 0, fd_score = 0, fd_challenge = False\<rparr>"

definition allow_decision :: "string \<Rightarrow> FirewallDecision" where
  "allow_decision reason =
     FirewallDecision_new\<lparr>fd_action := ALLOW, fd_threat_level := INFO, fd_reason := reason\<rparr>"

section \<open>Lists of addresses\<close>

definition hit :: "int \<Rightarrow> IPListEntry \<Rightarrow> IPListEntry" where
  "hit now e = e\<lparr>hit_count := hit_count e + 1, last_hit := now\<rparr>"

definition check_blacklist :: "int \<Rightarrow> string \<Rightarrow> IcewallFirewallDaddy \<Rightarrow> FirewallDecision \<times> IcewallFirewallDaddy" where
  "check_blacklist now ip f =
     (let pass = allow_decision ''IP not in any list'' in
      case map_of (blacklist_ips f) ip of
        None \<Rightarrow> (pass, f)
      | Some e \<Rightarrow>
          if expired now e then (pass, f\<lparr>blacklist_ips := um_erase ip (blacklist_ips f)\<rparr>)
          else (FirewallDecision_new\<lparr>fd_action := BLOCK, fd_threat_level := HIGH,
                  fd_reason := ''IP blacklisted: '' @ le_reason e, fd_triggered := [''IP_BLACKLIST'']\<rparr>,
                f\<lparr>blacklist_ips := um_assign ip (hit now e) (blacklist_ips f)\<rparr>))"

definition check_ip_lists :: "int \<Rightarrow> string \<Rightarrow> IcewallFirewallDaddy \<Rightarrow> FirewallDecision \<times> IcewallFirewallDaddy" where
  "check_ip_lists now ip f =
     (case map_of (whitelist_ips f) ip of
        None \<Rightarrow> check_blacklist now ip f
      | Some e \<Rightarrow>
          if expired now e then check_blacklist now ip (f\<lparr>whitelist_ips := um_erase ip (whitelist_ips f)\<rparr>)
          else ((allow_decision (''IP whitelisted: '' @ le_reason e))\<lparr>fd_triggered := [''IP_WHITELIST'']\<rparr>,
                f\<lparr>whitelist_ips := um_assign ip (hit now e) (whitelist_ips f)\<rparr>))"

section \<open>The sliding window\<close>

definition fw_minute :: int where "fw_minute = 60000000000"

definition ConnectionTracker_new :: ConnectionTracker where
  "ConnectionTracker_new = \<lparr>tr_client_ip = [], first_connection = 0, last_activity = 0, request_count = 0,
     request_timestamps = [], user_agents = [], requested_urls = [], http_methods = [],
     suspicious_behavior = False, tr_threat_score = 0\<rparr>"

definition tracker_of :: "string \<Rightarrow> IcewallFirewallDaddy \<Rightarrow> ConnectionTracker" where
  "tracker_of ip f = (case map_of (active_connections f) ip of Some t \<Rightarrow> t | None \<Rightarrow> ConnectionTracker_new)"

definition put_tracker :: "string \<Rightarrow> ConnectionTracker \<Rightarrow> IcewallFirewallDaddy \<Rightarrow> IcewallFirewallDaddy" where
  "put_tracker ip t f = f\<lparr>active_connections := um_assign ip t (active_connections f)\<rparr>"

definition check_rate_limits :: "int \<Rightarrow> string \<Rightarrow> IcewallFirewallDaddy \<Rightarrow> bool \<times> IcewallFirewallDaddy" where
  "check_rate_limits now ip f =
     (let t = tracker_of ip f;
          t = (if tr_client_ip t = [] then t\<lparr>tr_client_ip := ip, first_connection := now\<rparr> else t);
          ts = dropWhile (\<lambda>u. u < now - fw_minute) (request_timestamps t @ [now]);
          t = t\<lparr>last_activity := now, request_count := request_count t + 1, request_timestamps := ts\<rparr>
      in (\<not> 50 < length ts, put_tracker ip t f))"

section \<open>Threats\<close>

record ThreatAnalysisResult =
  ta_score :: int
  ta_triggered :: "string list"
  ta_components :: "(string, int) omap"

definition policy_hits :: "string \<Rightarrow> string \<Rightarrow> (string, string) omap \<Rightarrow> SecurityPolicy \<Rightarrow> bool" where
  "policy_hits data url hs p =
     (case policy_type p of
        SQL_INJECTION_PREVENTION \<Rightarrow> compiled_pattern p data
      | XSS_PROTECTION \<Rightarrow> compiled_pattern p data
      | URL_PATTERN_BLOCKING \<Rightarrow> compiled_pattern p url
      | USER_AGENT_FILTERING \<Rightarrow>
          (case map_of hs ''User-Agent'' of Some u \<Rightarrow> compiled_pattern p u | None \<Rightarrow> False)
      | _ \<Rightarrow> pattern p \<noteq> [] \<and> compiled_pattern p data)"

definition policy_score :: "PolicyType \<Rightarrow> int" where
  "policy_score ty = (case ty of SQL_INJECTION_PREVENTION \<Rightarrow> 30 | XSS_PROTECTION \<Rightarrow> 25 | URL_PATTERN_BLOCKING \<Rightarrow> 15
     | USER_AGENT_FILTERING \<Rightarrow> 10 | _ \<Rightarrow> 10)"

definition note_component :: "PolicyType \<Rightarrow> (string, int) omap \<Rightarrow> (string, int) omap" where
  "note_component ty m = (case ty of
       SQL_INJECTION_PREVENTION \<Rightarrow> om_assign ''sql_injection'' (policy_score ty) m
     | XSS_PROTECTION \<Rightarrow> om_assign ''xss'' (policy_score ty) m
     | URL_PATTERN_BLOCKING \<Rightarrow> om_assign ''url_pattern'' (policy_score ty) m
     | USER_AGENT_FILTERING \<Rightarrow> om_assign ''user_agent'' (policy_score ty) m
     | _ \<Rightarrow> om_assign ''generic'' ((case map_of m ''generic'' of Some n \<Rightarrow> n | None \<Rightarrow> 0) + policy_score ty) m)"

fun evaluate_policies ::
  "string \<Rightarrow> string \<Rightarrow> (string, string) omap \<Rightarrow> SecurityPolicy list \<Rightarrow> ThreatAnalysisResult
   \<Rightarrow> ThreatAnalysisResult \<times> SecurityPolicy list" where
  "evaluate_policies data url hs [] r = (r, [])"
| "evaluate_policies data url hs (p # ps) r =
     (if policy_enabled p \<and> policy_hits data url hs p
      then let r = \<lparr>ta_score = ta_score r + policy_score (policy_type p), ta_triggered = ta_triggered r @ [policy_id p],
                    ta_components = note_component (policy_type p) (ta_components r)\<rparr>;
               (r, qs) = evaluate_policies data url hs ps r
           in (r, p\<lparr>matches_count := matches_count p + 1\<rparr> # qs)
      else let (r, qs) = evaluate_policies data url hs ps r in (r, p # qs))"

definition analyze_behavioral_patterns ::
  "string \<Rightarrow> string \<Rightarrow> string \<Rightarrow> (string, string) omap \<Rightarrow> IcewallFirewallDaddy \<Rightarrow> int \<times> IcewallFirewallDaddy" where
  "analyze_behavioral_patterns ip meth url hs f =
     (let t = tracker_of ip f;
          (t, s1) = (case map_of hs ''User-Agent'' of
              Some u \<Rightarrow>
                if u \<in> set (user_agents t) then (t, 0)
                else let t = t\<lparr>user_agents := user_agents t @ [u]\<rparr> in
                     if 3 < length (user_agents t) then (t\<lparr>suspicious_behavior := True\<rparr>, 15) else (t, 0)
            | None \<Rightarrow> (t, 0));
          t = t\<lparr>requested_urls := os_insert url (requested_urls t)\<rparr>;
          s2 = (if 50 < length (requested_urls t) then 10 else 0);
          t = t\<lparr>http_methods := om_assign meth ((case map_of (http_methods t) meth of Some n \<Rightarrow> n | None \<Rightarrow> 0) + 1) (http_methods t)\<rparr>;
          s3 = (if 5 < length (http_methods t) then 5 else 0)
      in (s1 + s2 + s3, put_tracker ip (t\<lparr>tr_threat_score := s1 + s2 + s3\<rparr>) f))"

definition analysis_data :: "string \<Rightarrow> string \<Rightarrow> (string, string) omap \<Rightarrow> string \<Rightarrow> string" where
  "analysis_data meth url hs body =
     meth @ '' '' @ url @ '' '' @ body @ concat (map (\<lambda>(k, v). '' '' @ k @ '':'' @ v) hs)"

definition analyze_comprehensive_threats ::
  "string \<Rightarrow> string \<Rightarrow> string \<Rightarrow> (string, string) omap \<Rightarrow> string \<Rightarrow> IcewallFirewallDaddy
   \<Rightarrow> ThreatAnalysisResult \<times> IcewallFirewallDaddy" where
  "analyze_comprehensive_threats ip meth url hs body f =
     (let m = fw_metrics f;
          f = f\<lparr>fw_metrics := m\<lparr>policies_evaluated := policies_evaluated m + 1\<rparr>\<rparr>;
          (r, ps) = evaluate_policies (analysis_data meth url hs body) url hs (security_policies f)
                      \<lparr>ta_score = 0, ta_triggered = [], ta_components = []\<rparr>;
          (s, f) = analyze_behavioral_patterns ip meth url hs (f\<lparr>security_policies := ps\<rparr>)
      in (r\<lparr>ta_score := ta_score r + s\<rparr>, f))"

section \<open>The parts of the site\<close>

definition thingamabob_endpoints :: "(string, string list) omap" where
  "thingamabob_endpoints =
    [(''api_thingamabob'', [''/api'', ''/rest'', ''/graphql'', ''/webhook'', ''/callback'']),
     (''calendar_thingamabob'', [''/calendar'', ''/caldav'', ''/carddav'', ''/events'', ''/contacts'']),
     (''filemanager_thingamabob'', [''/files'', ''/upload'', ''/download'', ''/browse'', ''/manager'', ''/filemanager'']),
     (''jupyter_thingamabob'', [''/jupyter'', ''/lab'', ''/notebook'', ''/kernel'', ''/api/kernels'', ''/api/sessions'']),
     (''portal_thingamabob'', [''/portal'', ''/admin'', ''/dashboard'', ''/settings'', ''/config'']),
     (''vsftpd_thingamabob'', [''/ftp'', ''/sftp'', ''/ftps'', ''/transfer'']),
     (''webmail_thingamabob'', [''/webmail'', ''/mail'', ''/imap'', ''/pop3'', ''/smtp'', ''/roundcube''])]"

definition webmail_rules :: "string \<Rightarrow> FirewallDecision" where
  "webmail_rules url =
     (let d = (allow_decision []);
          d = (if contains url ''password'' \<or> contains url ''login''
               then d\<lparr>fd_threat_level := MEDIUM, fd_challenge := True\<rparr> else d)
      in if contains url ''/../''
         then d\<lparr>fd_action := BLOCK, fd_threat_level := HIGH, fd_reason := ''Path traversal attempt in webmail'',
                fd_triggered := fd_triggered d @ [''WEBMAIL_PATH_TRAVERSAL'']\<rparr>
         else d)"

definition jupyter_rules :: "string \<Rightarrow> (string, string) omap \<Rightarrow> FirewallDecision outcome" where
  "jupyter_rules url hs =
     (let d = allow_decision [];
          d = (if contains url ''execute''
               then d\<lparr>fd_threat_level := MEDIUM, fd_triggered := fd_triggered d @ [''JUPYTER_CODE_EXECUTION'']\<rparr> else d)
      in case map_of hs ''Content-Length'' of
           None \<Rightarrow> Returns d
         | Some s \<Rightarrow> outcome_bind (stoi s) (\<lambda>n. Returns
             (if 100000 < n
              then d\<lparr>fd_threat_level := MEDIUM, fd_triggered := fd_triggered d @ [''JUPYTER_LARGE_CODE'']\<rparr> else d)))"

definition filemanager_rules :: "string \<Rightarrow> FirewallDecision" where
  "filemanager_rules url =
     (let d = allow_decision [] in
      if contains url ''..''
      then d\<lparr>fd_action := YORKSHIRE_CHAMPION_BLOCK, fd_threat_level := CRITICAL,
             fd_reason := ''Path traversal attempt detected'', fd_triggered := fd_triggered d @ [''FILEMANAGER_PATH_TRAVERSAL'']\<rparr>
      else if contains url ''upload''
      then d\<lparr>fd_threat_level := MEDIUM, fd_triggered := fd_triggered d @ [''FILEMANAGER_UPLOAD'']\<rparr>
      else d)"

definition apply_thingamabob_specific_rules ::
  "string \<Rightarrow> string \<Rightarrow> (string, string) omap \<Rightarrow> FirewallDecision outcome" where
  "apply_thingamabob_specific_rules th url hs =
     (if th = ''webmail_thingamabob'' then Returns (webmail_rules url)
      else if th = ''jupyter_thingamabob'' then jupyter_rules url hs
      else if th = ''filemanager_thingamabob'' then Returns (filemanager_rules url)
      else Returns (allow_decision []))"

fun validate_loop ::
  "string \<Rightarrow> (string, string) omap \<Rightarrow> (string, string list) omap \<Rightarrow> FirewallDecision \<Rightarrow> FirewallDecision outcome" where
  "validate_loop url hs [] d = Returns d"
| "validate_loop url hs ((th, eps) # m) d =
     (if \<exists>e\<in>set eps. starts_with e url
      then outcome_bind (apply_thingamabob_specific_rules th url hs) (\<lambda>x.
             if fd_action x \<noteq> ALLOW then Returns x
             else validate_loop url hs m (d\<lparr>fd_triggered := fd_triggered d @ [''THINGAMABOB_'' @ th]\<rparr>))
      else validate_loop url hs m d)"

definition validate_thingamabob_access :: "string \<Rightarrow> (string, string) omap \<Rightarrow> FirewallDecision outcome" where
  "validate_thingamabob_access url hs =
     validate_loop url hs thingamabob_endpoints (allow_decision ''Thingamabob access validated'')"

section \<open>Counters\<close>

definition on_metrics :: "(FirewallMetrics \<Rightarrow> FirewallMetrics) \<Rightarrow> IcewallFirewallDaddy \<Rightarrow> IcewallFirewallDaddy" where
  "on_metrics g f = f\<lparr>fw_metrics := g (fw_metrics f)\<rparr>"

definition count_threat :: "string \<Rightarrow> FirewallMetrics \<Rightarrow> FirewallMetrics" where
  "count_threat i m =
     (if contains i ''sql_injection'' then m\<lparr>sql_injections_blocked := sql_injections_blocked m + 1\<rparr>
      else if contains i ''xss'' then m\<lparr>xss_attacks_blocked := xss_attacks_blocked m + 1\<rparr>
      else if contains i ''ddos'' then m\<lparr>ddos_attacks_mitigated := ddos_attacks_mitigated m + 1\<rparr>
      else if contains i ''brute_force'' then m\<lparr>brute_force_attempts_blocked := brute_force_attempts_blocked m + 1\<rparr>
      else if contains i ''quantum'' then m\<lparr>quantum_threats_detected := quantum_threats_detected m + 1\<rparr>
      else m)"

definition update_threat_metrics :: "string list \<Rightarrow> FirewallMetrics \<Rightarrow> FirewallMetrics" where
  "update_threat_metrics is m =
     (let m = fold count_threat is m in m\<lparr>requests_blocked := requests_blocked m + 1\<rparr>)"

definition update_thingamabob_metrics :: "string \<Rightarrow> FirewallMetrics \<Rightarrow> FirewallMetrics" where
  "update_thingamabob_metrics url m =
     (if contains url ''/webmail'' \<or> contains url ''/mail'' then m\<lparr>webmail_requests_secured := webmail_requests_secured m + 1\<rparr>
      else if contains url ''/jupyter'' \<or> contains url ''/lab'' then m\<lparr>jupyter_sessions_protected := jupyter_sessions_protected m + 1\<rparr>
      else if contains url ''/files'' \<or> contains url ''/upload'' then m\<lparr>filemanager_uploads_scanned := filemanager_uploads_scanned m + 1\<rparr>
      else if contains url ''/calendar'' \<or> contains url ''/caldav'' then m\<lparr>calendar_access_validated := calendar_access_validated m + 1\<rparr>
      else if contains url ''/ftp'' \<or> contains url ''/sftp'' then m\<lparr>ftp_connections_monitored := ftp_connections_monitored m + 1\<rparr>
      else m)"

definition update_connection_tracking ::
  "int \<Rightarrow> string \<Rightarrow> (string, string) omap \<Rightarrow> IcewallFirewallDaddy \<Rightarrow> IcewallFirewallDaddy" where
  "update_connection_tracking now ip hs f =
     (let t = (tracker_of ip f)\<lparr>last_activity := now\<rparr>;
          t = (case map_of hs ''User-Agent'' of
                 Some u \<Rightarrow> if u \<in> set (user_agents t) then t else t\<lparr>user_agents := user_agents t @ [u]\<rparr>
               | None \<Rightarrow> t)
      in put_tracker ip t f)"

section \<open>A request\<close>

definition yorkshire_headers :: "(string, string) omap" where
  "yorkshire_headers = fold (\<lambda>(k, v). om_assign k v)
    [(''X-Content-Type-Options'', ''nosniff''), (''X-Frame-Options'', ''DENY''),
     (''X-XSS-Protection'', ''1; mode=block''),
     (''Strict-Transport-Security'', ''max-age=31536000; includeSubDomains; preload''),
     (''Content-Security-Policy'', ''default-src 'self'; script-src 'self' 'unsafe-inline'; style-src 'self' 'unsafe-inline'' @ [squote]),
     (''X-Icewall-Protection'', ''Yorkshire-Champion-Active''), (''X-Firewall-Daddy'', ''Protecting-Your-Thingamabobs''),
     (''X-Security-Level'', ''Quantum-Grade''), (''X-Yorkshire-Multiplier'', ''15.0x''),
     (''X-Threat-Level'', ''Analyzed''), (''X-Protected-By'', ''Icewall-Firewall-Daddy'')] []"

definition threat_level :: "int \<Rightarrow> ThreatSeverity" where
  "threat_level n = (let k = min (n div 20) 3 in if k = 0 then INFO else if k = 1 then LOW else if k = 2 then MEDIUM else HIGH)"

definition approve ::
  "int \<Rightarrow> string \<Rightarrow> string \<Rightarrow> (string, string) omap \<Rightarrow> int \<Rightarrow> IcewallFirewallDaddy \<Rightarrow> FirewallDecision \<times> IcewallFirewallDaddy" where
  "approve now ip url hs score f =
     (FirewallDecision_new\<lparr>fd_challenge := (40 \<le> score), fd_action := ALLOW, fd_threat_level := threat_level score,
        fd_reason := ''Request approved by Icewall Firewall Daddy'', fd_headers := yorkshire_headers, fd_score := score\<rparr>,
      on_metrics (\<lambda>m. let m = update_thingamabob_metrics url m in m\<lparr>requests_allowed := requests_allowed m + 1\<rparr>)
        (update_connection_tracking now ip hs f))"

definition block_threat ::
  "int \<Rightarrow> string \<Rightarrow> string \<Rightarrow> string \<Rightarrow> (string, string) omap \<Rightarrow> string \<Rightarrow> ThreatAnalysisResult \<Rightarrow> IcewallFirewallDaddy
   \<Rightarrow> FirewallDecision \<times> IcewallFirewallDaddy" where
  "block_threat now ip meth url hs body r f =
     (let reason = ''High threat score detected: '' @ to_string_int (ta_score r) in
      (FirewallDecision_new\<lparr>fd_action := BLOCK, fd_threat_level := CRITICAL, fd_reason := reason,
         fd_triggered := ta_triggered r, fd_score := ta_score r\<rparr>,
       record_security_event now ip meth url hs body CRITICAL (ta_triggered r) BLOCK reason
         (on_metrics (update_threat_metrics (ta_triggered r)) f)))"

definition error_decision :: "string \<Rightarrow> FirewallDecision" where
  "error_decision msg = FirewallDecision_new\<lparr>fd_action := BLOCK, fd_threat_level := CRITICAL,
     fd_reason := ''Firewall processing error: '' @ msg\<rparr>"

definition inspect ::
  "int \<Rightarrow> string \<Rightarrow> string \<Rightarrow> string \<Rightarrow> (string, string) omap \<Rightarrow> string \<Rightarrow> IcewallFirewallDaddy
   \<Rightarrow> FirewallDecision \<times> IcewallFirewallDaddy" where
  "inspect now ip meth url hs body f =
     (case analyze_comprehensive_threats ip meth url hs body f of
        (r, f) \<Rightarrow>
          if 70 \<le> ta_score r then block_threat now ip meth url hs body r f
          else (case validate_thingamabob_access url hs of
                  Returns d \<Rightarrow>
                    if fd_action d = BLOCK
                    then (d, record_security_event now ip meth url hs body (fd_threat_level d) (fd_triggered d) BLOCK (fd_reason d) f)
                    else approve now ip url hs (ta_score r) f
                | Throws m \<Rightarrow> (error_decision m, f)
                | Undefined m \<Rightarrow> (error_decision m, f)))"

definition limited_decision :: FirewallDecision where
  "limited_decision = FirewallDecision_new\<lparr>fd_action := RATE_LIMIT, fd_threat_level := MEDIUM,
     fd_reason := ''Rate limit exceeded'', fd_delay := 5000, fd_headers := [(''X-RateLimit-Exceeded'', ''true'')]\<rparr>"

definition count_request :: "IcewallFirewallDaddy \<Rightarrow> IcewallFirewallDaddy" where
  "count_request f = on_metrics (\<lambda>m. m\<lparr>total_requests_processed := total_requests_processed m + 1\<rparr>) f"

definition fw_process_request ::
  "int \<Rightarrow> string \<Rightarrow> string \<Rightarrow> string \<Rightarrow> (string, string) omap \<Rightarrow> string \<Rightarrow> IcewallFirewallDaddy
   \<Rightarrow> FirewallDecision \<times> IcewallFirewallDaddy" where
  "fw_process_request now ip meth url hs body f =
     (let (d, f) = check_ip_lists now ip (count_request f)
      in if fd_action d = BLOCK
         then (d, record_security_event now ip meth url hs body HIGH [''IP_BLACKLIST''] BLOCK
                    (''IP address is blacklisted: '' @ fd_reason d)
                    (on_metrics (\<lambda>m. m\<lparr>malicious_ips_blocked := malicious_ips_blocked m + 1\<rparr>) f))
         else
           let (ok, f) = check_rate_limits now ip f in
           if \<not> ok
           then (limited_decision,
                 record_security_event now ip meth url hs body MEDIUM [''RATE_LIMITING''] RATE_LIMIT ''Rate limit exceeded''
                   (on_metrics (\<lambda>m. m\<lparr>rate_limited := rate_limited m + 1\<rparr>) f))
           else inspect now ip meth url hs body f)"

text \<open>The global entry: without a firewall every request is blocked.\<close>

definition process_icewall_request ::
  "int \<Rightarrow> string \<Rightarrow> string \<Rightarrow> string \<Rightarrow> (string, string) omap \<Rightarrow> string \<Rightarrow> IcewallFirewallDaddy option
   \<Rightarrow> FirewallDecision \<times> IcewallFirewallDaddy option" where
  "process_icewall_request now ip meth url hs body g =
     (case g of
        Some f \<Rightarrow> (case fw_process_request now ip meth url hs body f of (d, f) \<Rightarrow> (d, Some f))
      | None \<Rightarrow> (FirewallDecision_new\<lparr>fd_reason := ''Icewall Firewall Daddy not initialized''\<rparr>, None))"

section \<open>Sessions\<close>

datatype fw_event =
    Request int string string string "(string, string) omap" string
  | Whitelist int string string bool int
  | Blacklist int string string int bool int
  | Remove_ip string
  | Import int string bool
  | Add_policy SecurityPolicy
  | Update_policy int string SecurityPolicy
  | Remove_policy string
  | Clean_lists int
  | Clean_connections int
  | Clean_trackers int
  | Take_event

text \<open>A worker takes the oldest event off the queue; what it does with it is empty.\<close>

definition take_event :: "IcewallFirewallDaddy \<Rightarrow> IcewallFirewallDaddy" where
  "take_event f = f\<lparr>security_events := tl (security_events f)\<rparr>"

fun fw_step :: "fw_event \<Rightarrow> IcewallFirewallDaddy \<Rightarrow> IcewallFirewallDaddy" where
  "fw_step (Request now ip meth url hs body) f = snd (fw_process_request now ip meth url hs body f)"
| "fw_step (Whitelist now ip reason perm hours) f = snd (add_ip_to_whitelist now ip reason perm hours f)"
| "fw_step (Blacklist now ip reason sev perm hours) f = snd (add_ip_to_blacklist now ip reason sev perm hours f)"
| "fw_step (Remove_ip ip) f = snd (remove_ip_from_lists ip f)"
| "fw_step (Import now csv white) f = snd (bulk_import_ips now csv white f)"
| "fw_step (Add_policy p) f = snd (add_security_policy p f)"
| "fw_step (Update_policy now i p) f = snd (update_security_policy now i p f)"
| "fw_step (Remove_policy i) f = snd (remove_security_policy i f)"
| "fw_step (Clean_lists now) f = cleanup_expired_ip_entries now f"
| "fw_step (Clean_connections now) f = cleanup_expired_connections now f"
| "fw_step (Clean_trackers now) f = cleanup_old_connection_trackers now f"
| "fw_step Take_event f = take_event f"

section \<open>What the steps change\<close>

lemma event_fields [simp]:
  "whitelist_ips (record_security_event now ip m u h b s p a d f) = whitelist_ips f"
  "blacklist_ips (record_security_event now ip m u h b s p a d f) = blacklist_ips f"
  "active_connections (record_security_event now ip m u h b s p a d f) = active_connections f"
  "fw_metrics (record_security_event now ip m u h b s p a d f) = fw_metrics f"
  "security_policies (record_security_event now ip m u h b s p a d f) = security_policies f"
  by (simp_all add: record_security_event_def)

lemma metrics_fields [simp]:
  "whitelist_ips (on_metrics g f) = whitelist_ips f" "blacklist_ips (on_metrics g f) = blacklist_ips f"
  "active_connections (on_metrics g f) = active_connections f" "security_events (on_metrics g f) = security_events f"
  "fw_metrics (on_metrics g f) = g (fw_metrics f)" "security_policies (on_metrics g f) = security_policies f"
  by (simp_all add: on_metrics_def)

lemma tracker_fields [simp]:
  "whitelist_ips (put_tracker ip t f) = whitelist_ips f" "blacklist_ips (put_tracker ip t f) = blacklist_ips f"
  "security_events (put_tracker ip t f) = security_events f" "fw_metrics (put_tracker ip t f) = fw_metrics f"
  "security_policies (put_tracker ip t f) = security_policies f"
  by (simp_all add: put_tracker_def)

lemma tracker_put [simp]: "tracker_of j (put_tracker ip t f) = (if j = ip then t else tracker_of j f)"
  by (simp add: tracker_of_def put_tracker_def um_find_assign)

lemma behaviour_fields:
  assumes "analyze_behavioral_patterns ip m u h f = (s, f')"
  shows "whitelist_ips f' = whitelist_ips f" "blacklist_ips f' = blacklist_ips f"
    "security_events f' = security_events f" "fw_metrics f' = fw_metrics f"
    "request_timestamps (tracker_of j f') = request_timestamps (tracker_of j f)"
    "last_activity (tracker_of j f') = last_activity (tracker_of j f)"
  using assms by (auto simp: analyze_behavioral_patterns_def Let_def split: option.splits if_splits)

lemma threats_fields:
  assumes "analyze_comprehensive_threats ip m u h b f = (r, f')"
  shows "whitelist_ips f' = whitelist_ips f" "blacklist_ips f' = blacklist_ips f"
    "security_events f' = security_events f"
    "fw_metrics f' = (fw_metrics f)\<lparr>policies_evaluated := policies_evaluated (fw_metrics f) + 1\<rparr>"
    "request_timestamps (tracker_of j f') = request_timestamps (tracker_of j f)"
    "last_activity (tracker_of j f') = last_activity (tracker_of j f)"
proof -
  obtain r' ps where e: "evaluate_policies (analysis_data m u h b) u h (security_policies f)
      \<lparr>ta_score = 0, ta_triggered = [], ta_components = []\<rparr> = (r', ps)" by fastforce
  let ?f = "f\<lparr>fw_metrics := (fw_metrics f)\<lparr>policies_evaluated := policies_evaluated (fw_metrics f) + 1\<rparr>,
      security_policies := ps\<rparr>"
  obtain s f'' where a: "analyze_behavioral_patterns ip m u h ?f = (s, f'')" by fastforce
  have "f' = f''" using assms e a by (simp add: analyze_comprehensive_threats_def Let_def)
  moreover have "tracker_of j ?f = tracker_of j f" by (simp add: tracker_of_def)
  ultimately show "whitelist_ips f' = whitelist_ips f" "blacklist_ips f' = blacklist_ips f"
    "security_events f' = security_events f"
    "fw_metrics f' = (fw_metrics f)\<lparr>policies_evaluated := policies_evaluated (fw_metrics f) + 1\<rparr>"
    "request_timestamps (tracker_of j f') = request_timestamps (tracker_of j f)"
    "last_activity (tracker_of j f') = last_activity (tracker_of j f)"
    using behaviour_fields [OF a] by simp_all
qed

lemma tracking_fields [simp]:
  "whitelist_ips (update_connection_tracking now ip h f) = whitelist_ips f"
  "blacklist_ips (update_connection_tracking now ip h f) = blacklist_ips f"
  "security_events (update_connection_tracking now ip h f) = security_events f"
  "fw_metrics (update_connection_tracking now ip h f) = fw_metrics f"
  "request_timestamps (tracker_of j (update_connection_tracking now ip h f)) = request_timestamps (tracker_of j f)"
  by (auto simp: update_connection_tracking_def Let_def split: option.split)

lemma check_lists_fields:
  assumes "check_ip_lists now ip f = (d, f')"
  shows "security_events f' = security_events f" "fw_metrics f' = fw_metrics f"
    "active_connections f' = active_connections f" "tracker_of j f' = tracker_of j f"
  using assms by (auto simp: check_ip_lists_def check_blacklist_def Let_def tracker_of_def split: option.splits if_splits)

lemma check_rate_fields:
  assumes "check_rate_limits now ip f = (ok, f')"
  shows "whitelist_ips f' = whitelist_ips f" "blacklist_ips f' = blacklist_ips f"
    "security_events f' = security_events f" "fw_metrics f' = fw_metrics f"
  using assms by (auto simp: check_rate_limits_def Let_def)

lemma inspect_lists:
  assumes "inspect now ip m u h b f = (d, f')"
  shows "whitelist_ips f' = whitelist_ips f \<and> blacklist_ips f' = blacklist_ips f"
proof -
  obtain r g where a: "analyze_comprehensive_threats ip m u h b f = (r, g)" by fastforce
  show ?thesis
    using assms threats_fields(1,2) [OF a]
    by (auto simp: inspect_def a block_threat_def approve_def Let_def split: if_splits outcome.splits)
qed

lemma request_lists:
  "whitelist_ips (snd (fw_process_request now ip m u h b f)) = whitelist_ips (snd (check_ip_lists now ip f))
   \<and> blacklist_ips (snd (fw_process_request now ip m u h b f)) = blacklist_ips (snd (check_ip_lists now ip f))
   \<and> (fd_action (fst (check_ip_lists now ip f)) = BLOCK \<longrightarrow> fd_action (fst (fw_process_request now ip m u h b f)) = BLOCK)"
proof -
  let ?f = "count_request f"
  obtain d f1 where c: "check_ip_lists now ip ?f = (d, f1)" by fastforce
  have same: "fst (check_ip_lists now ip f) = d" "whitelist_ips (snd (check_ip_lists now ip f)) = whitelist_ips f1"
    "blacklist_ips (snd (check_ip_lists now ip f)) = blacklist_ips f1"
    using c by (auto simp: check_ip_lists_def check_blacklist_def Let_def count_request_def on_metrics_def split: option.splits if_splits)
  obtain ok f2 where k: "check_rate_limits now ip f1 = (ok, f2)" by fastforce
  obtain d3 f3 where i: "inspect now ip m u h b f2 = (d3, f3)" by fastforce
  show ?thesis
    using check_rate_fields(1,2) [OF k] inspect_lists [OF i] same
    by (auto simp: fw_process_request_def c k i Let_def)
qed

section \<open>The two lists\<close>

definition lists_inv :: "IcewallFirewallDaddy \<Rightarrow> bool" where
  "lists_inv f \<longleftrightarrow> um_inv (whitelist_ips f) \<and> um_inv (blacklist_ips f)
     \<and> fst ` set (whitelist_ips f) \<inter> fst ` set (blacklist_ips f) = {}"

lemma um_filter: "um_inv m \<Longrightarrow> um_inv (filter P m)"
  by (rule distinct_map_filter)

lemma um_keys_erase: "fst ` set (um_erase k m) = fst ` set m - {k}"
  by (force simp: um_erase_def)

lemma um_keys_found: "map_of m k = Some v \<Longrightarrow> fst ` set (um_assign k w m) = fst ` set m"
  by (force simp: um_keys_assign insert_absorb dest: map_of_SomeD)

lemmas um_keys = um_keys_assign um_keys_erase um_keys_found

lemma lists_inv_check: "lists_inv f \<Longrightarrow> lists_inv (snd (check_ip_lists now ip f))"
  unfolding lists_inv_def
  by (auto simp: check_ip_lists_def check_blacklist_def Let_def um_simps um_keys_found um_keys_erase
      split: option.split simp del: map_of_eq_Some_iff)

lemma lists_inv_request: "lists_inv f \<Longrightarrow> lists_inv (snd (fw_process_request now ip m u h b f))"
  using lists_inv_check [of f now ip] request_lists [of now ip m u h b f] by (simp add: lists_inv_def)

lemma lists_inv_admin:
  "lists_inv f \<Longrightarrow> lists_inv (snd (add_ip_to_whitelist now ip r p k f))"
  "lists_inv f \<Longrightarrow> lists_inv (snd (add_ip_to_blacklist now ip r s p k f))"
  "lists_inv f \<Longrightarrow> lists_inv (snd (remove_ip_from_lists ip f))"
  "lists_inv f \<Longrightarrow> lists_inv (cleanup_expired_ip_entries now f)"
  unfolding lists_inv_def add_ip_to_whitelist_def add_ip_to_blacklist_def remove_ip_from_lists_def
      cleanup_expired_ip_entries_def
  by (auto simp: um_simps um_filter um_keys)

lemma lists_inv_import_line: "import_line now w l f = Returns (c, f') \<Longrightarrow> lists_inv f \<Longrightarrow> lists_inv f'"
  using lists_inv_admin(1,2)
  by (auto simp: import_line_def Let_def add_ip_to_whitelist_def add_ip_to_blacklist_def
      split: if_splits option.splits prod.splits)

lemma lists_inv_import: "lists_inv f \<Longrightarrow> lists_inv (snd (import_lines now w ls n f))"
  by (induction ls arbitrary: n f) (auto dest: lists_inv_import_line split: outcome.split)

lemma policy_lists [simp]:
  "whitelist_ips (snd (add_security_policy p f)) = whitelist_ips f" "blacklist_ips (snd (add_security_policy p f)) = blacklist_ips f"
  "whitelist_ips (snd (update_security_policy now i p f)) = whitelist_ips f" "blacklist_ips (snd (update_security_policy now i p f)) = blacklist_ips f"
  "whitelist_ips (snd (remove_security_policy i f)) = whitelist_ips f" "blacklist_ips (snd (remove_security_policy i f)) = blacklist_ips f"
  by (auto simp: add_security_policy_def update_security_policy_def remove_security_policy_def Let_def split: option.split)

lemma lists_inv_step: "lists_inv f \<Longrightarrow> lists_inv (fw_step e f)"
  by (cases e) (simp_all add: lists_inv_request lists_inv_admin bulk_import_ips_def lists_inv_import,
      auto simp: lists_inv_def take_event_def cleanup_expired_connections_def cleanup_old_connection_trackers_def)

interpretation lists: session fw_step "\<lambda>e. True" lists_inv
  by unfold_locales (rule lists_inv_step)

section \<open>A ban\<close>

definition banned :: "string \<Rightarrow> bool \<Rightarrow> int \<Rightarrow> IcewallFirewallDaddy \<Rightarrow> bool" where
  "banned ip perm til f \<longleftrightarrow> lists_inv f
     \<and> (\<exists>e. map_of (blacklist_ips f) ip = Some e \<and> permanent e = perm \<and> expires_at e = til)"

text \<open>The operations that leave the ban of \<open>ip\<close> alone: any that do not list or remove that address, as long
  as the ban has not run out.\<close>

fun leaves_ban :: "string \<Rightarrow> bool \<Rightarrow> int \<Rightarrow> fw_event \<Rightarrow> bool" where
  "leaves_ban ip perm til (Request now j m u h b) = (perm \<or> now \<le> til)"
| "leaves_ban ip perm til (Clean_lists now) = (perm \<or> now \<le> til)"
| "leaves_ban ip perm til (Whitelist now j r p k) = (j \<noteq> ip)"
| "leaves_ban ip perm til (Blacklist now j r s p k) = (j \<noteq> ip)"
| "leaves_ban ip perm til (Remove_ip j) = (j \<noteq> ip)"
| "leaves_ban ip perm til (Import now csv w) = False"
| "leaves_ban ip perm til e = True"

lemma banned_white: "banned ip perm til f \<Longrightarrow> map_of (whitelist_ips f) ip = None"
  by (force simp: banned_def lists_inv_def map_of_eq_None_iff dest: map_of_SomeD)

lemma banned_check:
  assumes "banned ip perm til f" and "perm \<or> now \<le> til"
  shows "banned ip perm til (snd (check_ip_lists now j f))
    \<and> (j = ip \<longrightarrow> fd_action (fst (check_ip_lists now j f)) = BLOCK)"
proof -
  obtain e where e: "map_of (blacklist_ips f) ip = Some e" "permanent e = perm" "expires_at e = til"
    using assms(1) by (auto simp: banned_def)
  have "\<not> expired now e" using e assms(2) by (auto simp: expired_def)
  then show ?thesis
    using e banned_white [OF assms(1)] assms(1) lists_inv_check [of f now j]
    by (auto simp: banned_def check_ip_lists_def check_blacklist_def Let_def um_find_assign um_find_erase hit_def
        FirewallDecision_new_def split: option.splits if_splits)
qed

lemma banned_step:
  assumes "leaves_ban ip perm til e" and "banned ip perm til f"
  shows "banned ip perm til (fw_step e f)"
proof (cases e)
  case (Request now j m u h b)
  then have "banned ip perm til (snd (check_ip_lists now j f))" using banned_check [OF assms(2)] assms(1) by simp
  then show ?thesis
    using Request request_lists [of now j m u h b f] lists_inv_step [of f e] assms(2) by (simp add: banned_def)
next
  case (Clean_lists now)
  then have "\<not> expired now x" if "map_of (blacklist_ips f) ip = Some x" "permanent x = perm" "expires_at x = til" for x
    using assms(1) that by (auto simp: expired_def)
  then show ?thesis
    using assms(2) Clean_lists lists_inv_admin(4) [of f now]
    by (auto simp: banned_def lists_inv_def cleanup_expired_ip_entries_def map_of_filter_distinct)
qed (use assms lists_inv_step [of f e] in \<open>auto simp: banned_def add_ip_to_whitelist_def add_ip_to_blacklist_def
      remove_ip_from_lists_def um_find_assign um_find_erase cleanup_expired_connections_def
      cleanup_old_connection_trackers_def take_event_def\<close>)

interpretation ban: session fw_step "leaves_ban ip perm til" "banned ip perm til" for ip perm til
  by unfold_locales (rule banned_step)

lemma ban_holds:
  assumes "lists_inv f" and "\<forall>e\<in>set es. leaves_ban ip perm (if perm then end_of_time else now + hours * fw_hour) e"
  shows "banned ip perm (if perm then end_of_time else now + hours * fw_hour)
     (fold fw_step es (snd (add_ip_to_blacklist now ip reason sev perm hours f)))"
proof (rule ban.inv_run [OF _ assms(2)])
  show "banned ip perm (if perm then end_of_time else now + hours * fw_hour) (snd (add_ip_to_blacklist now ip reason sev perm hours f))"
    using lists_inv_admin(2) [OF assms(1)]
    by (simp add: banned_def) (simp add: add_ip_to_blacklist_def um_find_assign list_entry_def)
qed

end
