(* ===== verification/Url_Router.thy ===== *)
theory Url_Router
  imports Std_Containers
begin

text \<open>
  The temporary routes of \<open>medusaserv_url_router.hpp\<close>. Points of the system clock are nanoseconds, an
  \<open>int\<close>; a call reads the clock once. The progress messages are left out.
\<close>

section \<open>Routes\<close>

record TemporaryRoute =
  username :: string
  target_path :: string
  created_at :: int
  last_accessed :: int
  is_active :: bool
  permissions :: "(string, string) umap"

definition TemporaryRoute_new :: "int \<Rightarrow> string \<Rightarrow> string \<Rightarrow> TemporaryRoute" where
  "TemporaryRoute_new now u p =
     \<lparr>username = u, target_path = p, created_at = now, last_accessed = now, is_active = True,
      permissions = um_assign ''api_access'' ''limited'' (um_assign ''admin'' ''false''
        (um_assign ''write'' ''false'' (um_assign ''read'' ''true'' [])))\<rparr>"

record URLRouter =
  temp_routes :: "(string, TemporaryRoute) umap"
  expiry_hours :: int

definition URLRouter_new :: URLRouter where
  "URLRouter_new = \<lparr>temp_routes = [], expiry_hours = 24\<rparr>"

definition hour :: int where "hour = 3600000000000"

definition isRouteExpired :: "int \<Rightarrow> TemporaryRoute \<Rightarrow> URLRouter \<Rightarrow> bool" where
  "isRouteExpired now t r \<longleftrightarrow> expiry_hours r \<le> (now - created_at t) div hour"

text \<open>The pattern \<open>^[a-zA-Z0-9_-]+$\<close> and the limits on the length.\<close>

definition name_char :: "char \<Rightarrow> bool" where
  "name_char c \<longleftrightarrow> isalnum c \<or> c = CHR ''_'' \<or> c = CHR ''-''"

definition isValidUsername :: "string \<Rightarrow> bool" where
  "isValidUsername u \<longleftrightarrow> u \<noteq> [] \<and> length u \<le> 50 \<and> list_all name_char u"

section \<open>Parsing\<close>

record ParsedURL =
  has_user_param :: bool
  pu_username :: string
  remaining_path :: string
  original_url :: string

text \<open>\<open>regex_search\<close> for \<open>/User=([^/]+)/?(.*)?\<close>: the first place that has a name after the equals
  sign. The name runs to the next slash, the path from there to the end of the line.\<close>

fun search_user :: "string \<Rightarrow> (string \<times> string) option" where
  "search_user [] = None"
| "search_user (c # s) =
     (let u = takeWhile (\<lambda>x. x \<noteq> CHR ''/'') (drop 6 (c # s)) in
      if starts_with ''/User='' (c # s) \<and> u \<noteq> []
      then Some (u, takeWhile (\<lambda>x. x \<noteq> nl \<and> x \<noteq> cr) (drop (7 + length u) (c # s)))
      else search_user s)"

definition parseURL :: "string \<Rightarrow> ParsedURL" where
  "parseURL url =
     (case search_user url of
        Some (u, p) \<Rightarrow> \<lparr>has_user_param = True, pu_username = u, remaining_path = p, original_url = url\<rparr>
      | None \<Rightarrow> \<lparr>has_user_param = False, pu_username = [], remaining_path = [], original_url = url\<rparr>)"

section \<open>Routing\<close>

definition route_key :: "string \<Rightarrow> string" where
  "route_key u = ''temp_'' @ u"

definition createTemporaryRoute :: "int \<Rightarrow> string \<Rightarrow> string \<Rightarrow> URLRouter \<Rightarrow> bool \<times> URLRouter" where
  "createTemporaryRoute now u p r =
     (if \<not> isValidUsername u then (False, r)
      else (True, r\<lparr>temp_routes := um_assign (route_key u) (TemporaryRoute_new now u p) (temp_routes r)\<rparr>))"

definition serve_route :: "int \<Rightarrow> ParsedURL \<Rightarrow> TemporaryRoute \<Rightarrow> URLRouter \<Rightarrow> string \<times> URLRouter" where
  "serve_route now q t r =
     (if isRouteExpired now t r
      then (''/error/route_expired'', r\<lparr>temp_routes := um_erase (route_key (pu_username q)) (temp_routes r)\<rparr>)
      else (''/web/site/'' @ pu_username q @ ''/'' @ remaining_path q,
            r\<lparr>temp_routes := um_assign (route_key (pu_username q)) (t\<lparr>last_accessed := now\<rparr>) (temp_routes r)\<rparr>))"

definition routeRequest :: "int \<Rightarrow> string \<Rightarrow> URLRouter \<Rightarrow> string \<times> URLRouter" where
  "routeRequest now url r =
     (let q = parseURL url in
      if \<not> has_user_param q then (url, r)
      else
        case map_of (temp_routes r) (route_key (pu_username q)) of
          Some t \<Rightarrow> serve_route now q t r
        | None \<Rightarrow>
            (case createTemporaryRoute now (pu_username q) ''/'' r of
               (False, r) \<Rightarrow> (''/error/invalid_route'', r)
             | (True, r) \<Rightarrow> serve_route now q (TemporaryRoute_new now (pu_username q) ''/'') r))"

definition cleanupExpiredRoutes :: "int \<Rightarrow> URLRouter \<Rightarrow> URLRouter" where
  "cleanupExpiredRoutes now r = r\<lparr>temp_routes := filter (\<lambda>(k, t). \<not> isRouteExpired now t r) (temp_routes r)\<rparr>"

definition getActiveRouteCount :: "URLRouter \<Rightarrow> nat" where
  "getActiveRouteCount r = length (temp_routes r)"

section \<open>Reachable routers\<close>

inductive router_session :: "URLRouter \<Rightarrow> bool" where
  ur_start: "router_session URLRouter_new"
| ur_create: "router_session r \<Longrightarrow> router_session (snd (createTemporaryRoute now u p r))"
| ur_route: "router_session r \<Longrightarrow> router_session (snd (routeRequest now url r))"
| ur_cleanup: "router_session r \<Longrightarrow> router_session (cleanupExpiredRoutes now r)"

text \<open>Every stored route is that of a valid name, under that name's key.\<close>

definition router_inv :: "URLRouter \<Rightarrow> bool" where
  "router_inv r \<longleftrightarrow> um_inv (temp_routes r) \<and> expiry_hours r = 24
     \<and> (\<forall>k t. map_of (temp_routes r) k = Some t \<longrightarrow> isValidUsername (username t) \<and> k = route_key (username t))"

lemma router_inv_assign:
  "router_inv r \<Longrightarrow> isValidUsername u \<Longrightarrow> username t = u
    \<Longrightarrow> router_inv (r\<lparr>temp_routes := um_assign (route_key u) t (temp_routes r)\<rparr>)"
  by (auto simp: router_inv_def um_find_assign um_inv_assign)

lemma router_inv_erase: "router_inv r \<Longrightarrow> router_inv (r\<lparr>temp_routes := um_erase k (temp_routes r)\<rparr>)"
  by (auto simp: router_inv_def um_find_erase um_inv_erase)

lemma router_inv_cleanup: "router_inv r \<Longrightarrow> router_inv (cleanupExpiredRoutes now r)"
  by (auto simp: router_inv_def cleanupExpiredRoutes_def map_of_filter_distinct distinct_map_filter)

lemma router_inv_create: "router_inv r \<Longrightarrow> router_inv (snd (createTemporaryRoute now u p r))"
  by (auto simp: createTemporaryRoute_def TemporaryRoute_new_def intro: router_inv_assign)

lemma route_key_inject [simp]: "route_key a = route_key b \<longleftrightarrow> a = b"
  by (simp add: route_key_def)

lemma router_inv_find:
  assumes "router_inv r" "map_of (temp_routes r) (route_key u) = Some t"
  shows "isValidUsername u" "username t = u"
proof -
  have "isValidUsername (username t) \<and> route_key u = route_key (username t)"
    using assms unfolding router_inv_def by blast
  then show "isValidUsername u" "username t = u" by auto
qed

lemma router_inv_serve:
  assumes "router_inv r" "isValidUsername (pu_username q)" "username t = pu_username q"
  shows "router_inv (snd (serve_route now q t r))"
  using assms by (auto simp: serve_route_def router_inv_erase intro!: router_inv_assign)

lemma router_inv_route:
  assumes "router_inv r" shows "router_inv (snd (routeRequest now url r))"
proof (cases "map_of (temp_routes r) (route_key (pu_username (parseURL url)))")
  case None
  show ?thesis
  proof (cases "isValidUsername (pu_username (parseURL url))")
    case True
    then show ?thesis using assms None router_inv_create [OF assms, of now "pu_username (parseURL url)" "''/''"]
      by (auto simp: routeRequest_def createTemporaryRoute_def Let_def TemporaryRoute_new_def
          intro!: router_inv_serve)
  next
    case False
    then show ?thesis using assms None by (simp add: routeRequest_def createTemporaryRoute_def Let_def)
  qed
next
  case (Some t)
  then show ?thesis using assms router_inv_find [OF assms Some]
    by (auto simp: routeRequest_def Let_def intro!: router_inv_serve)
qed

lemma router_session_inv: "router_session r \<Longrightarrow> router_inv r"
proof (induction rule: router_session.induct)
  case ur_start
  show ?case by (simp add: router_inv_def URLRouter_new_def)
qed (simp_all add: router_inv_create router_inv_route router_inv_cleanup)

section \<open>Properties\<close>

text \<open>C17. What a router answers, on every request and in every state it can be in: an address without a user
  parameter unchanged; for an invalid user name, an error and no route; for a valid one, its
  own directory followed by the rest of the path, or, when its route is a day old, an error, after
  which the route is gone.\<close>

theorem router_answers:
  assumes "router_session r"
  shows "case search_user url of
      None \<Rightarrow> routeRequest now url r = (url, r)
    | Some (u, p) \<Rightarrow>
        (if \<not> isValidUsername u then routeRequest now url r = (''/error/invalid_route'', r)
         else if \<exists>t. map_of (temp_routes r) (route_key u) = Some t \<and> created_at t + 24 * hour \<le> now
         then \<exists>r'. routeRequest now url r = (''/error/route_expired'', r') \<and> map_of (temp_routes r') (route_key u) = None
         else \<exists>r' t. routeRequest now url r = (''/web/site/'' @ u @ ''/'' @ p, r')
           \<and> map_of (temp_routes r') (route_key u) = Some t \<and> last_accessed t = now \<and> username t = u)"
proof (cases "search_user url")
  case None
  then show ?thesis by (simp add: routeRequest_def parseURL_def)
next
  case (Some up)
  obtain u p where up: "up = (u, p)" by (cases up)
  have inv: "router_inv r" using assms by (rule router_session_inv)
  have q: "parseURL url = \<lparr>has_user_param = True, pu_username = u, remaining_path = p, original_url = url\<rparr>"
    using Some up by (simp add: parseURL_def)
  have ex: "isRouteExpired now t r' \<longleftrightarrow> created_at t + 24 * hour \<le> now" if "expiry_hours r' = 24" for t r'
  proof -
    have "24 \<le> (now - created_at t) div hour \<longleftrightarrow> 24 * hour \<le> now - created_at t"
      by (rule le_div_iff_mult_le) (simp add: hour_def)
    then show ?thesis using that by (auto simp: isRouteExpired_def)
  qed
  show ?thesis
  proof (cases "map_of (temp_routes r) (route_key u)")
    case None
    then show ?thesis using Some up q inv ex [of r] ex
      by (simp add: routeRequest_def createTemporaryRoute_def serve_route_def router_inv_def TemporaryRoute_new_def
          um_find_assign hour_def)
  next
    case (Some t)
    moreover have "isValidUsername u" "username t = u" using router_inv_find [OF inv Some] by simp_all
    moreover have "expiry_hours r = 24" using inv by (simp add: router_inv_def)
    ultimately show ?thesis using \<open>search_user url = Some up\<close> up q
      by (simp add: routeRequest_def serve_route_def ex um_find_assign um_find_erase)
  qed
qed

lemma router_answers_witness:
  "\<exists>r'. routeRequest 0 ''/User=bob/index'' URLRouter_new = (''/web/site/bob/index'', r')"
proof -
  have "search_user ''/User=bob/index'' = Some (''bob'', ''index'')" "isValidUsername ''bob''"
    by code_simp+
  then show ?thesis using router_answers [OF ur_start, where url = "''/User=bob/index''"]
    by (auto simp: URLRouter_new_def)
qed

text \<open>The rest of the path is not looked at: it can lead out of the user's directory.\<close>

lemma route_leaves_the_directory:
  "fst (routeRequest 0 ''/User=bob/../../etc/passwd'' URLRouter_new) = ''/web/site/bob/../../etc/passwd''"
  by code_simp

end
