(* ===== verification/Json_Value.thy ===== *)
theory Json_Value
  imports Std_Containers
begin

text \<open>
  The JSON values of \<open>medusa_json_standalone.hpp\<close>. A \<open>shared_ptr<MedusaJSON>\<close> is the address of a
  node in a heap, None when it is null, so values are shared as in the code. A number is of any
  type \<open>'n\<close>, and \<open>num\<close> is \<open>std::to_string\<close> on it. The global metrics are part of the state,
  without the measured times; their counters do not wrap. Serialising a cyclic value does not return.
  A value the heap holds is serialised to its text, and a reader gives it back.
\<close>

section \<open>State\<close>

datatype JsonType = J_OBJECT | J_ARRAY | J_STRING | J_NUMBER | J_BOOLEAN | J_NULL

record 'n MedusaJSON =
  js_type :: JsonType
  string_value :: string
  number_value :: 'n
  boolean_value :: bool
  object_value :: "(string, nat option) umap"
  array_value :: "nat option list"

record MedusaJSONMetrics =
  objects_created :: nat
  arrays_created :: nat
  strings_created :: nat
  numbers_created :: nat
  booleans_created :: nat
  nulls_created :: nat
  serialize_operations :: nat
  get_operations :: nat
  set_operations :: nat
  push_operations :: nat
  access_operations :: nat
  memory_usage_bytes :: nat
  max_array_length :: nat
  serialization_errors :: nat
  access_errors :: nat
  type_conversion_errors :: nat
  metrics_enabled :: bool

record 'n json_state =
  nodes :: "nat \<Rightarrow> 'n MedusaJSON"
  allocated :: nat
  metrics :: MedusaJSONMetrics

definition get_total_objects_created :: "MedusaJSONMetrics \<Rightarrow> nat" where
  "get_total_objects_created m = objects_created m + arrays_created m + strings_created m + numbers_created m
     + booleans_created m + nulls_created m"

definition get_total_operations :: "MedusaJSONMetrics \<Rightarrow> nat" where
  "get_total_operations m = serialize_operations m + get_operations m + set_operations m + push_operations m
     + access_operations m"

definition get_error_rate :: "MedusaJSONMetrics \<Rightarrow> real" where
  "get_error_rate m =
     (if 0 < get_total_operations m
      then real (serialization_errors m + access_errors m + type_conversion_errors m) / real (get_total_operations m)
      else 0)"

definition reset_metrics :: "MedusaJSONMetrics \<Rightarrow> MedusaJSONMetrics" where
  "reset_metrics m = \<lparr>objects_created = 0, arrays_created = 0, strings_created = 0, numbers_created = 0,
     booleans_created = 0, nulls_created = 0, serialize_operations = 0, get_operations = 0, set_operations = 0,
     push_operations = 0, access_operations = 0, memory_usage_bytes = 0, max_array_length = 0,
     serialization_errors = 0, access_errors = 0, type_conversion_errors = 0, metrics_enabled = metrics_enabled m\<rparr>"

text \<open>A change of the metrics, made only while they are enabled.\<close>

definition track :: "(MedusaJSONMetrics \<Rightarrow> MedusaJSONMetrics) \<Rightarrow> 'n json_state \<Rightarrow> 'n json_state" where
  "track f w = (if metrics_enabled (metrics w) then w\<lparr>metrics := f (metrics w)\<rparr> else w)"

section \<open>Creation\<close>

definition MedusaJSON_new :: "'n \<Rightarrow> JsonType \<Rightarrow> 'n MedusaJSON" where
  "MedusaJSON_new zero ty = \<lparr>js_type = ty, string_value = [], number_value = zero, boolean_value = False,
     object_value = [], array_value = []\<rparr>"

definition allocate_node :: "'n MedusaJSON \<Rightarrow> 'n json_state \<Rightarrow> nat \<times> 'n json_state" where
  "allocate_node x w = (allocated w, w\<lparr>nodes := (nodes w)(allocated w := x), allocated := allocated w + 1\<rparr>)"

definition createObject :: "'n \<Rightarrow> 'n json_state \<Rightarrow> nat \<times> 'n json_state" where
  "createObject zero w =
     allocate_node (MedusaJSON_new zero J_OBJECT) (track (\<lambda>m. m\<lparr>objects_created := objects_created m + 1\<rparr>) w)"

definition createArray :: "'n \<Rightarrow> 'n json_state \<Rightarrow> nat \<times> 'n json_state" where
  "createArray zero w =
     allocate_node (MedusaJSON_new zero J_ARRAY) (track (\<lambda>m. m\<lparr>arrays_created := arrays_created m + 1\<rparr>) w)"

definition createString :: "'n \<Rightarrow> string \<Rightarrow> 'n json_state \<Rightarrow> nat \<times> 'n json_state" where
  "createString zero s w =
     allocate_node ((MedusaJSON_new zero J_STRING)\<lparr>string_value := s\<rparr>)
       (track (\<lambda>m. m\<lparr>strings_created := strings_created m + 1, memory_usage_bytes := memory_usage_bytes m + length s\<rparr>) w)"

definition createNumber :: "'n \<Rightarrow> 'n json_state \<Rightarrow> nat \<times> 'n json_state" where
  "createNumber x w =
     allocate_node (MedusaJSON_new x J_NUMBER) (track (\<lambda>m. m\<lparr>numbers_created := numbers_created m + 1\<rparr>) w)"

definition createBoolean :: "'n \<Rightarrow> bool \<Rightarrow> 'n json_state \<Rightarrow> nat \<times> 'n json_state" where
  "createBoolean zero b w =
     allocate_node ((MedusaJSON_new zero J_BOOLEAN)\<lparr>boolean_value := b\<rparr>)
       (track (\<lambda>m. m\<lparr>booleans_created := booleans_created m + 1\<rparr>) w)"

definition createNull :: "'n \<Rightarrow> 'n json_state \<Rightarrow> nat \<times> 'n json_state" where
  "createNull zero w =
     allocate_node (MedusaJSON_new zero J_NULL) (track (\<lambda>m. m\<lparr>nulls_created := nulls_created m + 1\<rparr>) w)"

section \<open>Access\<close>

definition json_get :: "string \<Rightarrow> nat \<Rightarrow> 'n json_state \<Rightarrow> nat option \<times> 'n json_state" where
  "json_get k a w =
     (let w = track (\<lambda>m. m\<lparr>get_operations := get_operations m + 1, access_operations := access_operations m + 1\<rparr>) w in
      if js_type (nodes w a) \<noteq> J_OBJECT
      then (None, track (\<lambda>m. m\<lparr>access_errors := access_errors m + 1\<rparr>) w)
      else (case map_of (object_value (nodes w a)) k of Some v \<Rightarrow> (v, w) | None \<Rightarrow> (None, w)))"

definition json_set :: "string \<Rightarrow> nat option \<Rightarrow> nat \<Rightarrow> 'n json_state \<Rightarrow> 'n json_state" where
  "json_set k v a w =
     (let w = track (\<lambda>m. m\<lparr>set_operations := set_operations m + 1\<rparr>) w in
      if js_type (nodes w a) \<noteq> J_OBJECT then track (\<lambda>m. m\<lparr>access_errors := access_errors m + 1\<rparr>) w
      else w\<lparr>nodes := (nodes w)(a := (nodes w a)\<lparr>object_value := um_assign k v (object_value (nodes w a))\<rparr>)\<rparr>)"

definition json_push :: "nat option \<Rightarrow> nat \<Rightarrow> 'n json_state \<Rightarrow> 'n json_state" where
  "json_push v a w =
     (let w = track (\<lambda>m. m\<lparr>push_operations := push_operations m + 1\<rparr>) w in
      if js_type (nodes w a) \<noteq> J_ARRAY then track (\<lambda>m. m\<lparr>access_errors := access_errors m + 1\<rparr>) w
      else
        let xs = array_value (nodes w a) @ [v];
            w = w\<lparr>nodes := (nodes w)(a := (nodes w a)\<lparr>array_value := xs\<rparr>)\<rparr>
        in track (\<lambda>m. m\<lparr>max_array_length := max (max_array_length m) (length xs)\<rparr>) w)"

definition value_string :: "string \<Rightarrow> string \<Rightarrow> nat \<Rightarrow> 'n json_state \<Rightarrow> string" where
  "value_string k d a w =
     (case fst (json_get k a w) of
        Some b \<Rightarrow> if js_type (nodes w b) = J_STRING then string_value (nodes w b) else d | None \<Rightarrow> d)"

definition value_bool :: "string \<Rightarrow> bool \<Rightarrow> nat \<Rightarrow> 'n json_state \<Rightarrow> bool" where
  "value_bool k d a w =
     (case fst (json_get k a w) of
        Some b \<Rightarrow> if js_type (nodes w b) = J_BOOLEAN then boolean_value (nodes w b) else d | None \<Rightarrow> d)"

definition value_number :: "string \<Rightarrow> 'n \<Rightarrow> nat \<Rightarrow> 'n json_state \<Rightarrow> 'n" where
  "value_number k d a w =
     (case fst (json_get k a w) of
        Some b \<Rightarrow> if js_type (nodes w b) = J_NUMBER then number_value (nodes w b) else d | None \<Rightarrow> d)"

definition json_index :: "'n \<Rightarrow> string \<Rightarrow> nat \<Rightarrow> 'n json_state \<Rightarrow> nat option \<times> 'n json_state" where
  "json_index zero k a w =
     (if js_type (nodes w a) \<noteq> J_OBJECT then (None, w)
      else case map_of (object_value (nodes w a)) k of
          Some v \<Rightarrow> (v, w)
        | None \<Rightarrow> (case createNull zero w of
            (b, w) \<Rightarrow> (Some b, w\<lparr>nodes := (nodes w)(a := (nodes w a)\<lparr>object_value :=
                         um_assign k (Some b) (object_value (nodes w a))\<rparr>)\<rparr>)))"

section \<open>Serialisation\<close>

text \<open>What is left to do in \<open>serialize\<close>: a node, or the rest of the loop over fields or items, with
  \<open>first\<close>. The result has the number of nodes serialised, which \<open>serialize_operations\<close> counts.\<close>

datatype task = T_node "nat option" | T_fields "(string \<times> nat option) list" bool | T_items "nat option list" bool

fun piece :: "string \<Rightarrow> string \<times> nat \<Rightarrow> string \<times> nat \<Rightarrow> string \<times> nat" where
  "piece sep (s, m) (t, n) = (sep @ s @ t, m + n)"

definition wrapped :: "string \<Rightarrow> string \<Rightarrow> string \<times> nat \<Rightarrow> string \<times> nat" where
  "wrapped a b r = (a @ fst r @ b, Suc (snd r))"

definition both :: "(string \<times> nat \<Rightarrow> string \<times> nat \<Rightarrow> string \<times> nat) \<Rightarrow> (string \<times> nat) outcome \<Rightarrow> (string \<times> nat) outcome \<Rightarrow> (string \<times> nat) outcome" where
  "both f x y = outcome_bind x (\<lambda>a. outcome_bind y (\<lambda>b. Returns (f a b)))"

partial_function (option) ser ::
  "('n \<Rightarrow> string) \<Rightarrow> (nat \<Rightarrow> 'n MedusaJSON) \<Rightarrow> task \<Rightarrow> (string \<times> nat) outcome option" where
  "ser num h k =
     (case k of
        T_node None \<Rightarrow> Some (Undefined ''null pointer'')
      | T_node (Some a) \<Rightarrow>
          (case js_type (h a) of
             J_OBJECT \<Rightarrow> do { r \<leftarrow> ser num h (T_fields (object_value (h a)) True);
                              Some (outcome_bind r (\<lambda>x. Returns (wrapped ''{'' ''}'' x))) }
           | J_ARRAY \<Rightarrow> do { r \<leftarrow> ser num h (T_items (array_value (h a)) True);
                             Some (outcome_bind r (\<lambda>x. Returns (wrapped ''['' '']'' x))) }
           | J_STRING \<Rightarrow> Some (Returns (dquote # string_value (h a) @ [dquote], 1))
           | J_NUMBER \<Rightarrow> Some (Returns (num (number_value (h a)), 1))
           | J_BOOLEAN \<Rightarrow> Some (Returns (if boolean_value (h a) then ''true'' else ''false'', 1))
           | J_NULL \<Rightarrow> Some (Returns (''null'', 1)))
      | T_fields fs first \<Rightarrow>
          (case fs of
             [] \<Rightarrow> Some (Returns ([], 0))
           | f # fs \<Rightarrow> do { x \<leftarrow> ser num h (T_node (snd f));
                            y \<leftarrow> ser num h (T_fields fs False);
                            Some (both (piece ((if first then [] else '','') @ dquote # fst f @ dquote # '':'')) x y) })
      | T_items xs first \<Rightarrow>
          (case xs of
             [] \<Rightarrow> Some (Returns ([], 0))
           | v # xs \<Rightarrow> do { x \<leftarrow> ser num h (T_node v);
                            y \<leftarrow> ser num h (T_items xs False);
                            Some (both (piece (if first then [] else '','')) x y) }))"

definition serialize :: "('n \<Rightarrow> string) \<Rightarrow> nat \<Rightarrow> 'n json_state \<Rightarrow> (string outcome \<times> 'n json_state) option" where
  "serialize num a w =
     do { r \<leftarrow> ser num (nodes w) (T_node (Some a));
          (case r of
             Returns x \<Rightarrow> Some (Returns (fst x), track (\<lambda>m. m\<lparr>serialize_operations := serialize_operations m + snd x\<rparr>) w)
           | Throws m \<Rightarrow> Some (Throws m, w)
           | Undefined m \<Rightarrow> Some (Undefined m, w)) }"

section \<open>The values the heap holds\<close>

text \<open>A JSON value, and the nodes that hold it. \<open>render\<close> is the text of a value; \<open>count_nodes\<close>
  counts its nodes, once per occurrence.\<close>

datatype 'n json = Obj "(string \<times> 'n json) list" | Arr "'n json list" | Str string | Num 'n | Boo bool | Nul

fun denotes :: "(nat \<Rightarrow> 'n MedusaJSON) \<Rightarrow> 'n json \<Rightarrow> nat option \<Rightarrow> bool"
  and denotes_fields :: "(nat \<Rightarrow> 'n MedusaJSON) \<Rightarrow> (string \<times> 'n json) list \<Rightarrow> (string \<times> nat option) list \<Rightarrow> bool"
  and denotes_items :: "(nat \<Rightarrow> 'n MedusaJSON) \<Rightarrow> 'n json list \<Rightarrow> nat option list \<Rightarrow> bool" where
  "denotes h j None = False"
| "denotes h (Obj fs) (Some a) = (js_type (h a) = J_OBJECT \<and> denotes_fields h fs (object_value (h a)))"
| "denotes h (Arr js) (Some a) = (js_type (h a) = J_ARRAY \<and> denotes_items h js (array_value (h a)))"
| "denotes h (Str s) (Some a) = (js_type (h a) = J_STRING \<and> string_value (h a) = s)"
| "denotes h (Num x) (Some a) = (js_type (h a) = J_NUMBER \<and> number_value (h a) = x)"
| "denotes h (Boo b) (Some a) = (js_type (h a) = J_BOOLEAN \<and> boolean_value (h a) = b)"
| "denotes h Nul (Some a) = (js_type (h a) = J_NULL)"
| "denotes_fields h [] vs = (vs = [])"
| "denotes_fields h ((k, j) # fs) vs =
     (case vs of [] \<Rightarrow> False | (k', v) # vs \<Rightarrow> k' = k \<and> denotes h j v \<and> denotes_fields h fs vs)"
| "denotes_items h [] vs = (vs = [])"
| "denotes_items h (j # js) vs = (case vs of [] \<Rightarrow> False | v # vs \<Rightarrow> denotes h j v \<and> denotes_items h js vs)"

fun render :: "('n \<Rightarrow> string) \<Rightarrow> 'n json \<Rightarrow> string"
  and render_fields :: "('n \<Rightarrow> string) \<Rightarrow> (string \<times> 'n json) list \<Rightarrow> bool \<Rightarrow> string"
  and render_items :: "('n \<Rightarrow> string) \<Rightarrow> 'n json list \<Rightarrow> bool \<Rightarrow> string" where
  "render num (Obj fs) = ''{'' @ render_fields num fs True @ ''}''"
| "render num (Arr js) = ''['' @ render_items num js True @ '']''"
| "render num (Str s) = dquote # s @ [dquote]"
| "render num (Num x) = num x"
| "render num (Boo b) = (if b then ''true'' else ''false'')"
| "render num Nul = ''null''"
| "render_fields num [] first = []"
| "render_fields num ((k, j) # fs) first =
     (if first then [] else '','') @ dquote # k @ dquote # '':'' @ render num j @ render_fields num fs False"
| "render_items num [] first = []"
| "render_items num (j # js) first = (if first then [] else '','') @ render num j @ render_items num js False"

fun count_nodes :: "'n json \<Rightarrow> nat"
  and count_fields :: "(string \<times> 'n json) list \<Rightarrow> nat"
  and count_items :: "'n json list \<Rightarrow> nat" where
  "count_nodes (Obj fs) = Suc (count_fields fs)"
| "count_nodes (Arr js) = Suc (count_items js)"
| "count_nodes (Str s) = 1"
| "count_nodes (Num x) = 1"
| "count_nodes (Boo b) = 1"
| "count_nodes Nul = 1"
| "count_fields [] = 0"
| "count_fields ((k, j) # fs) = count_nodes j + count_fields fs"
| "count_items [] = 0"
| "count_items (j # js) = count_nodes j + count_items js"

lemma ser_denotes:
  "denotes h j v \<Longrightarrow> ser num h (T_node v) = Some (Returns (render num j, count_nodes j))"
  "denotes_fields h fs vs \<Longrightarrow> ser num h (T_fields vs first) = Some (Returns (render_fields num fs first, count_fields fs))"
  "denotes_items h js ws \<Longrightarrow> ser num h (T_items ws first) = Some (Returns (render_items num js first, count_items js))"
proof (induction h j v and h fs vs and h js ws arbitrary: and first and first
    rule: denotes_denotes_fields_denotes_items.induct)
  case (9 h k j fs vs)
  then show ?case
    by (auto simp: ser.simps [of num h "T_fields vs first"] both_def split: list.splits)
next
  case (11 h j js vs)
  then show ?case
    by (auto simp: ser.simps [of num h "T_items vs first"] both_def split: list.splits)
qed (simp_all add: ser.simps wrapped_def)

section \<open>Reading the text back\<close>

text \<open>A reference reader of the text. Numbers are left as their tokens; a string ends at the first quote,
  so it reads back what a client reads only for strings without quotes and backslashes. The number
  bounds the nesting.\<close>

definition number_char :: "char \<Rightarrow> bool" where
  "number_char c \<longleftrightarrow> isdigit c \<or> c \<in> set ''+-.e''"

fun expect :: "string \<Rightarrow> string \<Rightarrow> string option" where
  "expect p s = (if starts_with p s then Some (drop (length p) s) else None)"

definition read_string :: "string \<Rightarrow> (string \<times> string) option" where
  "read_string s = do { s \<leftarrow> expect [dquote] s;
                        r \<leftarrow> expect [dquote] (dropWhile (\<lambda>c. c \<noteq> dquote) s);
                        Some (takeWhile (\<lambda>c. c \<noteq> dquote) s, r) }"

fun read_value :: "nat \<Rightarrow> string \<Rightarrow> (string json \<times> string) option"
  and read_fields :: "nat \<Rightarrow> string \<Rightarrow> ((string \<times> string json) list \<times> string) option"
  and read_items :: "nat \<Rightarrow> string \<Rightarrow> (string json list \<times> string) option" where
  "read_value 0 s = None"
| "read_value (Suc n) s =
     (case s of [] \<Rightarrow> None
      | c # cs \<Rightarrow>
          if c = CHR ''{'' then
            (if starts_with ''}'' cs then Some (Obj [], tl cs)
             else do { x \<leftarrow> read_fields n cs; Some (Obj (fst x), snd x) })
          else if c = CHR ''['' then
            (if starts_with '']'' cs then Some (Arr [], tl cs)
             else do { x \<leftarrow> read_items n cs; Some (Arr (fst x), snd x) })
          else if c = dquote then do { x \<leftarrow> read_string s; Some (Str (fst x), snd x) }
          else if number_char c then Some (Num (takeWhile number_char s), dropWhile number_char s)
          else if starts_with ''true'' s then Some (Boo True, drop 4 s)
          else if starts_with ''false'' s then Some (Boo False, drop 5 s)
          else do { r \<leftarrow> expect ''null'' s; Some (Nul, r) })"
| "read_fields 0 s = None"
| "read_fields (Suc n) s =
     do { k \<leftarrow> read_string s;
          s \<leftarrow> expect '':'' (snd k);
          x \<leftarrow> read_value n s;
          (if starts_with '','' (snd x)
           then do { y \<leftarrow> read_fields n (tl (snd x)); Some ((fst k, fst x) # fst y, snd y) }
           else do { r \<leftarrow> expect ''}'' (snd x); Some ([(fst k, fst x)], r) }) }"
| "read_items 0 s = None"
| "read_items (Suc n) s =
     do { x \<leftarrow> read_value n s;
          (if starts_with '','' (snd x)
           then do { y \<leftarrow> read_items n (tl (snd x)); Some (fst x # fst y, snd y) }
           else do { r \<leftarrow> expect '']'' (snd x); Some ([fst x], r) }) }"

text \<open>Values whose text is JSON: no quote in a string or key, and number tokens of number characters.\<close>

definition plain :: "string \<Rightarrow> bool" where
  "plain s \<longleftrightarrow> dquote \<notin> set s \<and> bslash \<notin> set s"

definition number_token :: "string \<Rightarrow> bool" where
  "number_token t \<longleftrightarrow> t \<noteq> [] \<and> (\<forall>c\<in>set t. number_char c)"

fun clean :: "('n \<Rightarrow> string) \<Rightarrow> 'n json \<Rightarrow> bool"
  and clean_fields :: "('n \<Rightarrow> string) \<Rightarrow> (string \<times> 'n json) list \<Rightarrow> bool"
  and clean_items :: "('n \<Rightarrow> string) \<Rightarrow> 'n json list \<Rightarrow> bool" where
  "clean num (Obj fs) = clean_fields num fs"
| "clean num (Arr js) = clean_items num js"
| "clean num (Str s) = plain s"
| "clean num (Num x) = number_token (num x)"
| "clean num (Boo b) = True"
| "clean num Nul = True"
| "clean_fields num [] = True"
| "clean_fields num ((k, j) # fs) = (plain k \<and> clean num j \<and> clean_fields num fs)"
| "clean_items num [] = True"
| "clean_items num (j # js) = (clean num j \<and> clean_items num js)"

definition stops :: "string \<Rightarrow> bool" where
  "stops r \<longleftrightarrow> (case r of [] \<Rightarrow> True | c # _ \<Rightarrow> \<not> number_char c)"

lemma number_char_simps [simp]:
  "\<not> number_char CHR ''{''" "\<not> number_char CHR ''['' " "\<not> number_char dquote" "\<not> number_char CHR ''t''"
  "\<not> number_char CHR ''f''" "\<not> number_char CHR ''n''" "\<not> number_char CHR '',''" "\<not> number_char CHR ''}''"
  "\<not> number_char CHR '']''"
  by (simp_all add: number_char_def isdigit_def code_def)

lemma stops_simps [simp]: "stops []" "stops (c # r) \<longleftrightarrow> \<not> number_char c"
  by (simp_all add: stops_def)

lemma read_string_plain: "plain s \<Longrightarrow> read_string (dquote # s @ dquote # r) = Some (s, r)"
proof -
  assume "plain s"
  then have "\<forall>c\<in>set s. c \<noteq> dquote" by (auto simp: plain_def)
  then show ?thesis
    by (simp add: read_string_def takeWhile_append2 dropWhile_append2)
qed

lemma number_token_read:
  assumes "number_token t" "stops r"
  shows "read_value (Suc n) (t @ r) = Some (Num t, r)"
proof -
  obtain c t' where t: "t = c # t'" using assms by (cases t) (auto simp: number_token_def)
  have "takeWhile number_char (t @ r) = t" "dropWhile number_char (t @ r) = r"
    using assms by (cases r; simp add: number_token_def takeWhile_append dropWhile_append; fail)+
  moreover have "number_char c" using assms t by (simp add: number_token_def)
  then have "number_char c" "c \<noteq> CHR ''{''" "c \<noteq> CHR ''[''" "c \<noteq> dquote" by auto
  ultimately show ?thesis by (simp add: t)
qed

lemma render_starts: "clean num j \<Longrightarrow> \<not> starts_with ''}'' (render num j @ r) \<and> \<not> starts_with '']'' (render num j @ r)"
proof (cases j)
  case (Num x)
  assume "clean num j"
  with Num obtain c t where "num x = c # t" "number_char c" by (cases "num x") (auto simp: number_token_def)
  then show ?thesis using Num by auto
qed auto

lemma render_nonempty: "clean num j \<Longrightarrow> 0 < length (render num j)"
  by (cases j) (auto simp: number_token_def)

lemma render_fields_True: "fs \<noteq> [] \<Longrightarrow> render_fields num fs False = '','' @ render_fields num fs True"
  by (cases fs) auto

lemma render_items_True: "js \<noteq> [] \<Longrightarrow> render_items num js False = '','' @ render_items num js True"
  by (cases js) auto

lemma read_render:
  fixes first first' :: bool
  shows
  "(\<forall>n r. clean num j \<and> stops r \<and> length (render num j) \<le> n \<longrightarrow>
     read_value n (render num j @ r) = Some (map_json num j, r))"
  "(\<forall>n r. clean_fields num fs \<and> fs \<noteq> [] \<and> length (render_fields num fs True) \<le> n \<longrightarrow>
     read_fields n (render_fields num fs True @ ''}'' @ r) = Some (map (map_prod (\<lambda>a. a) (map_json num)) fs, r))"
  "(\<forall>n r. clean_items num js \<and> js \<noteq> [] \<and> length (render_items num js True) < n \<longrightarrow>
     read_items n (render_items num js True @ '']'' @ r) = Some (map (map_json num) js, r))"
proof (induction num j and num fs first and num js first'
    rule: render_render_fields_render_items.induct)
  case (1 num fs)
  show ?case
  proof (intro allI impI, elim conjE)
    fix n r assume c: "clean num (Obj fs)" and n: "length (render num (Obj fs)) \<le> n"
    then obtain m where m: "n = Suc m" by (cases n) auto
    show "read_value n (render num (Obj fs) @ r) = Some (map_json num (Obj fs), r)"
    proof (cases fs)
      case (Cons f fs')
      obtain k j where f: "f = (k, j)" by (cases f)
      with 1 c n m Cons show ?thesis by (simp add: id_def)
    qed (simp add: m)
  qed
next
  case (2 num js)
  show ?case
  proof (intro allI impI, elim conjE)
    fix n r assume c: "clean num (Arr js)" and n: "length (render num (Arr js)) \<le> n"
    then obtain m where m: "n = Suc m" by (cases n) auto
    show "read_value n (render num (Arr js) @ r) = Some (map_json num (Arr js), r)"
    proof (cases js)
      case (Cons j js')
      with c have "\<not> starts_with '']'' (render num j @ render_items num js' False @ CHR '']'' # r)"
        by (simp add: render_starts)
      with 2 c n m Cons show ?thesis by simp
    qed (simp add: m)
  qed
next
  case (3 num s)
  show ?case
  proof (intro allI impI, elim conjE)
    fix n r assume "clean num (Str s)" "length (render num (Str s)) \<le> n"
    then show "read_value n (render num (Str s) @ r) = Some (map_json num (Str s), r)"
      by (cases n) (simp_all add: read_string_plain)
  qed
next
  case (4 num x)
  show ?case
  proof (intro allI impI, elim conjE)
    fix n r assume "clean num (Num x)" "stops r" "length (render num (Num x)) \<le> n"
    then show "read_value n (render num (Num x) @ r) = Some (map_json num (Num x), r)"
      by (cases n) (simp_all add: number_token_read del: read_value.simps, simp add: number_token_def)
  qed
next
  case (5 num b)
  show ?case by (intro allI impI, elim conjE) (case_tac n; cases b; simp)
next
  case (6 num)
  show ?case by (intro allI impI, elim conjE) (case_tac n; simp)
next
  case (7 num first)
  show ?case by simp
next
  case (8 num k j fs first)
  show ?case
  proof (intro allI impI, elim conjE)
    fix n r assume c: "clean_fields num ((k, j) # fs)" and n: "length (render_fields num ((k, j) # fs) True) \<le> n"
    then obtain m where m: "n = Suc m" by (cases n) auto
    let ?rest = "render_fields num fs False @ CHR ''}'' # r"
    have "stops ?rest" by (cases fs) auto
    with 8 c n m have 1: "read_value m (render num j @ ?rest) = Some (map_json num j, ?rest)" by simp
    have 2: "read_string (dquote # k @ dquote # CHR '':'' # render num j @ ?rest) = Some (k, CHR '':'' # render num j @ ?rest)"
      using c by (simp add: read_string_plain)
    show "read_fields n (render_fields num ((k, j) # fs) True @ ''}'' @ r)
        = Some (map (map_prod (\<lambda>a. a) (map_json num)) ((k, j) # fs), r)"
    proof (cases fs)
      case Nil
      with m 1 2 show ?thesis by simp
    next
      case (Cons f fs')
      then have fs: "render_fields num fs False = '','' @ render_fields num fs True" by (simp add: render_fields_True)
      with 8 c n m Cons have "read_fields m (render_fields num fs True @ ''}'' @ r) = Some (map (map_prod (\<lambda>a. a) (map_json num)) fs, r)"
        by simp
      with m 1 2 fs show ?thesis by simp
    qed
  qed
next
  case (9 num first)
  show ?case by simp
next
  case (10 num j js first)
  show ?case
  proof (intro allI impI, elim conjE)
    fix n r assume c: "clean_items num (j # js)" and n: "length (render_items num (j # js) True) < n"
    then obtain m where m: "n = Suc m" by (cases n) auto
    let ?rest = "render_items num js False @ CHR '']'' # r"
    have "stops ?rest" by (cases js) auto
    with 10 c n m have 1: "read_value m (render num j @ ?rest) = Some (map_json num j, ?rest)" by simp
    show "read_items n (render_items num (j # js) True @ '']'' @ r) = Some (map (map_json num) (j # js), r)"
    proof (cases js)
      case Nil
      with m 1 show ?thesis by simp
    next
      case (Cons f fs')
      then have js: "render_items num js False = '','' @ render_items num js True" by (simp add: render_items_True)
      with 10 c n m Cons have "read_items m (render_items num js True @ '']'' @ r) = Some (map (map_json num) js, r)"
        using render_nonempty [of num j] by simp
      with m 1 js show ?thesis by simp
    qed
  qed
qed

section \<open>What the operations do to the nodes\<close>

lemma track_keeps [simp]: "nodes (track f w) = nodes w" "allocated (track f w) = allocated w"
  by (simp_all add: track_def)

lemma create_simps [simp]:
  "nodes (snd (allocate_node x w)) = (nodes w)(allocated w := x)"
  "allocated (snd (allocate_node x w)) = Suc (allocated w)"
  "fst (allocate_node x w) = allocated w"
  by (simp_all add: allocate_node_def)

lemmas create_defs = createObject_def createArray_def createString_def createNumber_def createBoolean_def createNull_def

lemma nodes_json_set:
  "nodes (json_set k v a w) =
     (if js_type (nodes w a) = J_OBJECT
      then (nodes w)(a := (nodes w a)\<lparr>object_value := um_assign k v (object_value (nodes w a))\<rparr>) else nodes w)"
  by (simp add: json_set_def Let_def)

lemma nodes_json_push:
  "nodes (json_push v a w) =
     (if js_type (nodes w a) = J_ARRAY
      then (nodes w)(a := (nodes w a)\<lparr>array_value := array_value (nodes w a) @ [v]\<rparr>) else nodes w)"
  by (simp add: json_push_def Let_def)

text \<open>A field that was set is the one \<open>get\<close> finds; other fields keep their values.\<close>

lemma get_after_set:
  "js_type (nodes w a) = J_OBJECT \<Longrightarrow>
     fst (json_get k' a (json_set k v a w)) = (if k' = k then v else fst (json_get k' a w))"
  by (simp add: json_get_def nodes_json_set Let_def um_find_assign split: option.split)

section \<open>Properties\<close>


definition sample_state :: "nat json_state" where
  "sample_state = \<lparr>nodes = (\<lambda>_. MedusaJSON_new 0 J_NULL), allocated = 0,
     metrics = reset_metrics \<lparr>objects_created = 0, arrays_created = 0,
     strings_created = 0, numbers_created = 0, booleans_created = 0, nulls_created = 0, serialize_operations = 0,
     get_operations = 0, set_operations = 0, push_operations = 0, access_operations = 0, memory_usage_bytes = 0,
     max_array_length = 0, serialization_errors = 0, access_errors = 0, type_conversion_errors = 0,
     metrics_enabled = True\<rparr>\<rparr>"

definition sample_built :: "nat json_state" where
  "sample_built =
     (let w = snd (createObject 0 sample_state); w = snd (createString 0 ''flour'' w); w = snd (createArray 0 w);
          w = snd (createNumber 42 w); w = snd (createBoolean 0 True w);
          w = json_push (Some 4) 2 (json_push (Some 3) 2 w)
      in json_set ''list'' (Some 2) 0 (json_set ''name'' (Some 1) 0 w))"

definition sample_json :: "nat json" where
  "sample_json = Obj [(''name'', Str ''flour''), (''list'', Arr [Num 42, Boo True])]"


section \<open>Limits\<close>

text \<open>Strings are written without escaping: two different values have the same text.\<close>

lemma quotes_are_not_escaped:
  "render num (Str (''a'' @ dquote # '','' @ dquote # ''b'')) = dquote # ''a'' @ dquote # '','' @ dquote # ''b'' @ [dquote]
   \<and> render num (Arr [Str (''a'' @ dquote # '','' @ dquote # ''b'')]) = render num (Arr [Str ''a'', Str ''b''])"
  by simp

text \<open>An array that contains itself is not serialised: the recursion does not end.\<close>

lemma self_containing_array_never_serializes:
  fixes num :: "'n \<Rightarrow> string"
  assumes "js_type (h a) = J_ARRAY" and "array_value (h a) = [Some a]"
  shows "ser num h (T_node (Some a)) = None"
proof -
  have "h' = h \<longrightarrow> k \<noteq> T_node (Some a) \<and> k \<noteq> T_items [Some a] True" if "ser num h' k = Some y" for h' k y
  proof (rule ser.raw_induct [OF _ that], goal_cases)
    case (1 rec num h' k y)
    show ?case
    proof (intro impI conjI notI)
      assume "h' = h" "k = T_node (Some a)"
      with 1 assms have "rec num h (T_items [Some a] True) \<noteq> None" by (auto split: Option.bind_splits)
      with 1(1) show False by blast
    next
      assume "h' = h" "k = T_items [Some a] True"
      with 1 have "rec num h (T_node (Some a)) \<noteq> None" by (auto split: Option.bind_splits)
      with 1(1) show False by blast
    qed
  qed
  then show ?thesis by (metis not_None_eq)
qed

text \<open>\<open>set\<close> and \<open>push\<close> store the null pointer that \<open>get\<close> returns for a missing field, and
  \<open>serialize\<close> follows it.\<close>

lemma null_member_is_undefined:
  assumes "js_type (h a) = J_ARRAY" and "array_value (h a) = [None]"
  shows "ser num h (T_node (Some a)) = Some (Undefined ''null pointer'')"
  using assms by (simp add: ser.simps [of num h "T_node (Some a)"] ser.simps [of num h "T_items [None] True"]
      ser.simps [of num h "T_node None"] ser.simps [of num h "T_items [] False"] both_def)

end
