(* ===== verification/Real_Lexer.thy ===== *)
theory Real_Lexer
  imports Std_Containers
begin

text \<open>
  The lexer of \<open>lamia_real_compiler.cpp\<close>, class \<open>LamiaLexer\<close>. The source, which only the position
  moves over, is represented by what is left of it. Shown is that it ends, puts the one \<open>END_OF_FILE\<close>
  last, and reads back every sequence of tokens printed with blanks between them.
\<close>

section \<open>Tokens\<close>

datatype TokenType =
    T_MANIFEST | T_CREATE | T_IDENTIFIER | T_STRING | T_NUMBER | T_LBRACE | T_RBRACE | T_SEMICOLON | T_COLON
  | T_COMMA | T_ARROW | T_AT | T_LBRACKET | T_RBRACKET | T_NEWLINE | T_END_OF_FILE

record RealToken =
  tk_type :: TokenType
  tk_value :: string
  tk_line :: nat
  tk_column :: nat

record RealLexer =
  lx_rest :: string
  lx_line :: nat
  lx_column :: nat

definition RealLexer_new :: "string \<Rightarrow> RealLexer" where
  "RealLexer_new s = \<lparr>lx_rest = s, lx_line = 1, lx_column = 1\<rparr>"

definition token_here :: "TokenType \<Rightarrow> string \<Rightarrow> RealLexer \<Rightarrow> RealToken" where
  "token_here ty v l = \<lparr>tk_type = ty, tk_value = v, tk_line = lx_line l, tk_column = lx_column l\<rparr>"

definition rl_peek :: "RealLexer \<Rightarrow> char" where
  "rl_peek l = (case lx_rest l of a # b # r \<Rightarrow> b | _ \<Rightarrow> NUL)"

text \<open>\<open>n\<close> calls of \<open>advance\<close>.\<close>

definition rl_advance :: "nat \<Rightarrow> RealLexer \<Rightarrow> RealLexer" where
  "rl_advance n l = l\<lparr>lx_rest := drop n (lx_rest l), lx_column := lx_column l + n\<rparr>"

definition scan :: "(char \<Rightarrow> bool) \<Rightarrow> RealLexer \<Rightarrow> string \<times> RealLexer" where
  "scan P l = (let w = takeWhile P (lx_rest l) in (w, rl_advance (length w) l))"

section \<open>Scanning\<close>

definition rl_skip_whitespace :: "RealLexer \<Rightarrow> RealLexer" where
  "rl_skip_whitespace l = snd (scan (\<lambda>c. isspace c \<and> c \<noteq> nl) l)"

definition rl_skip_line_comment :: "RealLexer \<Rightarrow> RealLexer" where
  "rl_skip_line_comment l = snd (scan (\<lambda>c. c \<noteq> nl) l)"

text \<open>A newline in a comment sets the column to one before it is advanced.\<close>

fun comment_loop :: "string \<Rightarrow> nat \<Rightarrow> nat \<Rightarrow> string \<times> nat \<times> nat" where
  "comment_loop (a # b # r) line col =
     (if a = CHR ''*'' \<and> b = CHR ''/'' then (r, line, col + 2)
      else if a = nl then comment_loop (b # r) (line + 1) 2
      else comment_loop (b # r) line (col + 1))"
| "comment_loop s line col = (s, line, col)"

definition rl_skip_block_comment :: "RealLexer \<Rightarrow> RealLexer" where
  "rl_skip_block_comment l =
     (case comment_loop (drop 2 (lx_rest l)) (lx_line l) (lx_column l + 2) of
        (s, line, col) \<Rightarrow> \<lparr>lx_rest = s, lx_line = line, lx_column = col\<rparr>)"

definition name_start :: "char \<Rightarrow> bool" where
  "name_start c \<longleftrightarrow> isalpha c \<or> c = CHR ''_'' \<or> c = CHR ''@''"

definition name_char :: "char \<Rightarrow> bool" where
  "name_char c \<longleftrightarrow> isalnum c \<or> c = CHR ''_'' \<or> c = CHR ''@''"

definition word_type :: "string \<Rightarrow> TokenType" where
  "word_type w =
     (if w = ''manifest'' then T_MANIFEST else if w = ''create'' then T_CREATE
      else if hd w = CHR ''@'' then T_AT else T_IDENTIFIER)"

definition read_identifier_or_keyword :: "RealLexer \<Rightarrow> RealToken \<times> RealLexer" where
  "read_identifier_or_keyword l = (case scan name_char l of (w, l') \<Rightarrow> (token_here (word_type w) w l, l'))"

definition unescape :: "char \<Rightarrow> char" where
  "unescape c = (if c = CHR ''n'' then nl else if c = CHR ''t'' then tab else if c = CHR ''r'' then cr else c)"

fun string_loop :: "string \<Rightarrow> string \<Rightarrow> nat \<Rightarrow> string \<times> string \<times> nat" where
  "string_loop [] v col = ([], v, col)"
| "string_loop (a # r) v col =
     (if a = dquote then (a # r, v, col)
      else if a = bslash then
        (case r of [] \<Rightarrow> ([], v @ [a], col + 1) | b # r' \<Rightarrow> string_loop r' (v @ [unescape b]) (col + 2))
      else string_loop r (v @ [a]) (col + 1))"

definition read_string :: "RealLexer \<Rightarrow> RealToken \<times> RealLexer" where
  "read_string l =
     (case string_loop (drop 1 (lx_rest l)) [] (lx_column l + 1) of
        (r, v, col) \<Rightarrow>
          (token_here T_STRING v l,
           l\<lparr>lx_rest := drop 1 r, lx_column := (if r \<noteq> [] then col + 1 else col)\<rparr>))"

definition read_number :: "RealLexer \<Rightarrow> RealToken \<times> RealLexer" where
  "read_number l = (case scan (\<lambda>c. isdigit c \<or> c = CHR ''.'') l of (w, l') \<Rightarrow> (token_here T_NUMBER w l, l'))"

definition punctuation :: "char \<Rightarrow> TokenType option" where
  "punctuation c =
     (if c = CHR ''{'' then Some T_LBRACE else if c = CHR ''}'' then Some T_RBRACE
      else if c = CHR '':'' then Some T_COLON else if c = CHR '','' then Some T_COMMA
      else if c = CHR ''['' then Some T_LBRACKET else if c = CHR '']'' then Some T_RBRACKET
      else if c = CHR '';'' then Some T_SEMICOLON else None)"

text \<open>One round of the loop, at a character that is not white space.\<close>

definition rl_step :: "RealLexer \<Rightarrow> RealToken list \<times> RealLexer" where
  "rl_step l =
     (let c = hd (lx_rest l) in
      if c = CHR ''/'' \<and> rl_peek l = CHR ''/'' then ([], rl_skip_line_comment l)
      else if c = CHR ''/'' \<and> rl_peek l = CHR ''*'' then ([], rl_skip_block_comment l)
      else if name_start c then (case read_identifier_or_keyword l of (t, l) \<Rightarrow> ([t], l))
      else if c = dquote then (case read_string l of (t, l) \<Rightarrow> ([t], l))
      else if isdigit c then (case read_number l of (t, l) \<Rightarrow> ([t], l))
      else case punctuation c of
          Some ty \<Rightarrow> ([token_here ty [c] l], rl_advance 1 l)
        | None \<Rightarrow>
            if c = nl then ([token_here T_NEWLINE [nl] l], (rl_advance 1 l)\<lparr>lx_line := lx_line l + 1, lx_column := 1\<rparr>)
            else if c = CHR ''-'' \<and> rl_peek l = CHR ''>'' then ([token_here T_ARROW ''->'' l], rl_advance 2 l)
            else ([], rl_advance 1 l))"

lemma comment_loop_shorter: "length (fst (comment_loop s line col)) \<le> length s"
  by (induction s line col rule: comment_loop.induct) (auto intro: le_trans)

lemma string_loop_shorter: "length (fst (string_loop s v col)) \<le> length s"
proof (induction s v col rule: string_loop.induct)
  case (2 a r v col)
  then show ?case by (cases r) (auto intro: le_SucI)
qed simp

lemma scan_shorter: "length (lx_rest (snd (scan P l))) \<le> length (lx_rest l)"
  by (simp add: scan_def rl_advance_def Let_def)

lemma scan_progress: "lx_rest l \<noteq> [] \<Longrightarrow> P (hd (lx_rest l)) \<Longrightarrow> length (lx_rest (snd (scan P l))) < length (lx_rest l)"
  by (cases "lx_rest l") (auto simp: scan_def rl_advance_def Let_def)

lemma scanners_progress:
  assumes cr: "lx_rest l = c # r"
  shows "c = CHR ''/'' \<Longrightarrow> length (lx_rest (rl_skip_line_comment l)) < length (lx_rest l)"
    and "length (lx_rest (rl_skip_block_comment l)) < length (lx_rest l)"
    and "name_start c \<Longrightarrow> length (lx_rest (snd (read_identifier_or_keyword l))) < length (lx_rest l)"
    and "length (lx_rest (snd (read_string l))) < length (lx_rest l)"
    and "isdigit c \<Longrightarrow> length (lx_rest (snd (read_number l))) < length (lx_rest l)"
    and "length (lx_rest (rl_advance 1 l)) < length (lx_rest l)"
    and "length (lx_rest (rl_advance 2 l)) < length (lx_rest l)"
proof -
  have ne: "lx_rest l \<noteq> []" using cr by simp
  show "length (lx_rest (rl_skip_line_comment l)) < length (lx_rest l)" if "c = CHR ''/''"
    using scan_progress [OF ne, of "\<lambda>c. c \<noteq> nl"] cr that by (simp add: rl_skip_line_comment_def)
  obtain s ln co where x: "comment_loop (drop 2 (lx_rest l)) (lx_line l) (lx_column l + 2) = (s, ln, co)"
    by (metis prod_cases3)
  then have "length s \<le> length (drop 2 (lx_rest l))" by (metis comment_loop_shorter fst_conv)
  also have "\<dots> < length (lx_rest l)" using ne by simp
  finally show "length (lx_rest (rl_skip_block_comment l)) < length (lx_rest l)"
    unfolding rl_skip_block_comment_def x by simp
  show "length (lx_rest (snd (read_identifier_or_keyword l))) < length (lx_rest l)" if "name_start c"
    using scan_progress [OF ne, of name_char] cr that
    by (auto simp: name_start_def name_char_def isalnum_def read_identifier_or_keyword_def case_prod_unfold)
  show "length (lx_rest (snd (read_string l))) < length (lx_rest l)"
    using string_loop_shorter [of r "[]" "lx_column l + 1"] cr
    by (cases "string_loop r [] (lx_column l + 1)") (simp add: read_string_def)
  show "length (lx_rest (snd (read_number l))) < length (lx_rest l)" if "isdigit c"
    using scan_progress [OF ne, of "\<lambda>c. isdigit c \<or> c = CHR ''.''"] cr that
    by (simp add: read_number_def case_prod_unfold)
qed (use cr in \<open>simp_all add: rl_advance_def\<close>)

lemma rl_step_rest:
  assumes "lx_rest l = c # r"
  shows "lx_rest (snd (rl_step l)) = lx_rest
     (if c = CHR ''/'' \<and> rl_peek l = CHR ''/'' then rl_skip_line_comment l
      else if c = CHR ''/'' \<and> rl_peek l = CHR ''*'' then rl_skip_block_comment l
      else if name_start c then snd (read_identifier_or_keyword l)
      else if c = dquote then snd (read_string l)
      else if isdigit c then snd (read_number l)
      else if punctuation c = None \<and> c \<noteq> nl \<and> c = CHR ''-'' \<and> rl_peek l = CHR ''>'' then rl_advance 2 l
      else rl_advance 1 l)"
proof -
  have "punctuation nl = None" "punctuation CHR ''-'' = None" by (simp_all add: punctuation_def)
  then show ?thesis unfolding rl_step_def assms list.sel Let_def
    by (simp only: case_prod_unfold if_distrib [of snd] if_distrib [of lx_rest] snd_conv option.case_distrib [of snd]
        option.case_distrib [of lx_rest]) (cases "punctuation c"; auto)
qed

lemma rl_step_progress: "lx_rest l \<noteq> [] \<Longrightarrow> length (lx_rest (snd (rl_step l))) < length (lx_rest l)"
proof -
  assume "lx_rest l \<noteq> []"
  then obtain c r where cr: "lx_rest l = c # r" by (cases "lx_rest l") auto
  note progress = scanners_progress [OF cr]
  have pick: "length (lx_rest (if b then x else y)) < n"
    if "b \<Longrightarrow> length (lx_rest x) < n" "\<not> b \<Longrightarrow> length (lx_rest y) < n" for b x y n using that by simp
  show ?thesis unfolding rl_step_rest [OF cr] by (intro pick progress) blast+
qed

text \<open>The loop, which gets what the white space leaves.\<close>

function rl_loop :: "RealLexer \<Rightarrow> RealToken list \<Rightarrow> RealToken list" where
  "rl_loop l ts =
     (let l = rl_skip_whitespace l in
      if lx_rest l = [] then ts @ [token_here T_END_OF_FILE [] l]
      else case rl_step l of (new, l) \<Rightarrow> rl_loop l (ts @ new))"
  by pat_completeness auto
termination
proof (relation "measure (\<lambda>(l, ts). length (lx_rest l))", goal_cases)
  case (2 l ts l' a b)
  then have "length (lx_rest b) < length (lx_rest l')" using rl_step_progress [of l'] by (metis snd_conv)
  moreover have "length (lx_rest l') \<le> length (lx_rest l)" using 2 scan_shorter by (simp add: rl_skip_whitespace_def)
  ultimately show ?case by simp
qed simp

declare rl_loop.simps [simp del]

definition rl_tokenize :: "string \<Rightarrow> RealToken list" where
  "rl_tokenize s = rl_loop (RealLexer_new s) []"

section \<open>The end of the tokens\<close>

lemma rl_step_types: "t \<in> set (fst (rl_step l)) \<Longrightarrow> tk_type t \<noteq> T_END_OF_FILE"
  by (auto simp: rl_step_def Let_def read_identifier_or_keyword_def read_string_def read_number_def token_here_def
      word_type_def punctuation_def split: prod.splits option.splits if_splits)

lemma rl_loop_end:
  "\<exists>us e. rl_loop l ts = ts @ us @ [e] \<and> tk_type e = T_END_OF_FILE \<and> (\<forall>t\<in>set us. tk_type t \<noteq> T_END_OF_FILE)"
proof (induction l ts rule: rl_loop.induct)
  case (1 l ts)
  let ?l = "rl_skip_whitespace l"
  show ?case
  proof (cases "lx_rest ?l = []")
    case True
    then show ?thesis by (subst rl_loop.simps) (simp add: token_here_def Let_def)
  next
    case False
    obtain new l' where s: "rl_step ?l = (new, l')" by fastforce
    obtain us e where "rl_loop l' (ts @ new) = (ts @ new) @ us @ [e]" "tk_type e = T_END_OF_FILE"
      "\<forall>t\<in>set us. tk_type t \<noteq> T_END_OF_FILE" using 1 [OF refl False s [symmetric]] by blast
    then show ?thesis
      using rl_step_types [of _ ?l] s False by (subst rl_loop.simps) (auto intro!: exI [of _ "new @ us"])
  qed
qed

section \<open>Reading back\<close>

text \<open>A token without its place, how it is spelled, and which can be.\<close>

type_synonym rtoken = "TokenType \<times> string"

definition kind :: "RealToken \<Rightarrow> rtoken" where
  "kind t = (tk_type t, tk_value t)"

definition spell_char :: "char \<Rightarrow> string" where
  "spell_char c = (if c = dquote \<or> c = bslash then [bslash, c] else [c])"

definition spell :: "rtoken \<Rightarrow> string" where
  "spell t = (if fst t = T_STRING then dquote # concat (map spell_char (snd t)) @ [dquote] else snd t)"

definition spelled :: "rtoken \<Rightarrow> bool" where
  "spelled t \<longleftrightarrow>
     (case fst t of
        T_STRING \<Rightarrow> True
      | T_NUMBER \<Rightarrow> snd t \<noteq> [] \<and> isdigit (hd (snd t)) \<and> (\<forall>c\<in>set (snd t). isdigit c \<or> c = CHR ''.'')
      | T_ARROW \<Rightarrow> snd t = ''->''
      | T_NEWLINE \<Rightarrow> snd t = [nl]
      | T_END_OF_FILE \<Rightarrow> False
      | ty \<Rightarrow>
          if ty \<in> {T_MANIFEST, T_CREATE, T_AT, T_IDENTIFIER}
          then snd t \<noteq> [] \<and> name_start (hd (snd t)) \<and> (\<forall>c\<in>set (snd t). name_char c) \<and> word_type (snd t) = ty
          else length (snd t) = 1 \<and> punctuation (hd (snd t)) = Some ty)"

definition spell_all :: "rtoken list \<Rightarrow> string" where
  "spell_all ts = concat (map (\<lambda>t. spell t @ '' '') ts)"

lemma string_loop_spelled:
  "\<exists>col'. string_loop (concat (map spell_char v) @ dquote # s) acc col = (dquote # s, acc @ v, col')"
proof (induction v arbitrary: acc col)
  case (Cons c v)
  show ?case
  proof (cases "c = dquote \<or> c = bslash")
    case True
    then have "unescape c = c" "c \<noteq> dquote \<or> c = dquote" by (auto simp: unescape_def)
    then show ?thesis using Cons.IH [of "acc @ [c]" "col + 2"] True by (auto simp: spell_char_def)
  next
    case False
    then show ?thesis using Cons.IH [of "acc @ [c]" "col + 1"] by (auto simp: spell_char_def)
  qed
qed simp

lemma name_start_simps [simp]:
  "\<not> name_start CHR ''/''" "\<not> name_start dquote" "\<not> name_start CHR ''-''" "\<not> name_start nl"
  "\<not> name_char CHR '' ''" "\<not> isdigit CHR '' ''" "\<not> isdigit CHR ''/''" "\<not> isdigit CHR ''-''" "\<not> isdigit nl"
  "\<not> isdigit dquote" "punctuation nl = None" "punctuation CHR ''-'' = None"
  by (simp_all add: name_start_def name_char_def punctuation_def ctype_defs)

lemma punctuationD: "punctuation c = Some ty \<Longrightarrow> \<not> name_start c \<and> c \<noteq> CHR ''/'' \<and> c \<noteq> dquote \<and> \<not> isdigit c \<and> \<not> isspace c"
  by (auto simp: punctuation_def name_start_def ctype_defs split: if_splits)

lemma digit_no_name: "isdigit c \<Longrightarrow> \<not> name_start c \<and> \<not> isspace c \<and> c \<noteq> CHR ''/''"
  by (auto simp: name_start_def ctype_defs)

lemma name_no_space: "name_start c \<Longrightarrow> \<not> isspace c"
  by (auto simp: name_start_def ctype_defs)

lemma rl_step_spelled:
  assumes "lx_rest l = spell t @ CHR '' '' # r" and "spelled t"
  shows "\<exists>u l'. rl_step l = ([u], l') \<and> kind u = t \<and> lx_rest l' = CHR '' '' # r"
proof -
  obtain ty v where t: "t = (ty, v)" by fastforce
  consider "ty = T_STRING" | "ty = T_NUMBER" | "ty = T_ARROW" | "ty = T_NEWLINE"
    | "ty \<in> {T_MANIFEST, T_CREATE, T_AT, T_IDENTIFIER}"
    | "ty \<in> {T_LBRACE, T_RBRACE, T_SEMICOLON, T_COLON, T_COMMA, T_LBRACKET, T_RBRACKET}"
    using assms(2) by (cases ty) (auto simp: t spelled_def)
  then show ?thesis
  proof cases
    case 1
    obtain col where "string_loop (concat (map spell_char v) @ dquote # CHR '' '' # r) [] (lx_column l + 1)
      = (dquote # CHR '' '' # r, v, col)" using string_loop_spelled [of v _ "[]"] by auto
    then show ?thesis using 1 assms t
      by (simp add: rl_step_def spell_def read_string_def kind_def token_here_def)
  next
    case 2
    then obtain c v' where v: "v = c # v'" "isdigit c" "\<forall>c\<in>set v. isdigit c \<or> c = CHR ''.''"
      using assms(2) by (cases v) (auto simp: t spelled_def)
    have "takeWhile (\<lambda>c. isdigit c \<or> c = CHR ''.'') (v @ CHR '' '' # r) = v"
      using v(3) by (simp add: takeWhile_append)
    then show ?thesis using 2 assms t v digit_no_name [OF v(2)]
      by (auto simp: rl_step_def spell_def read_number_def scan_def rl_advance_def kind_def token_here_def Let_def)
  next
    case 3
    then show ?thesis using assms t
      by (simp add: rl_step_def spell_def spelled_def rl_peek_def rl_advance_def kind_def token_here_def)
  next
    case 4
    then show ?thesis using assms t
      by (simp add: rl_step_def spell_def spelled_def rl_peek_def rl_advance_def kind_def token_here_def)
  next
    case 5
    then obtain c v' where v: "v = c # v'" "name_start c" "\<forall>c\<in>set v. name_char c" "word_type v = ty"
      using assms(2) by (cases v) (auto simp: t spelled_def)
    have "takeWhile name_char (v @ CHR '' '' # r) = v" using v(3) by (simp add: takeWhile_append)
    then show ?thesis using 5 assms t v
      by (auto simp: rl_step_def spell_def read_identifier_or_keyword_def scan_def rl_advance_def kind_def token_here_def Let_def)
  next
    case 6
    then obtain c where v: "v = [c]" "punctuation c = Some ty"
      using assms(2) by (cases v) (auto simp: t spelled_def)
    show ?thesis using 6 assms t v punctuationD [OF v(2)]
      by (auto simp: rl_step_def spell_def rl_advance_def kind_def token_here_def Let_def)
  qed
qed

lemma spell_starts:
  assumes "spelled t"
  shows "\<exists>c s. spell t = c # s \<and> \<not> (isspace c \<and> c \<noteq> nl)"
proof -
  have "\<not> isspace dquote" "\<not> isspace CHR ''-''" by (simp_all add: ctype_defs)
  then show ?thesis using assms
    by (cases t; cases "fst t"; cases "snd t")
       (auto simp: spelled_def spell_def dest: punctuationD digit_no_name name_no_space)
qed

lemma spell_all_simps [simp]: "spell_all [] = []" "spell_all (t # ts) = spell t @ CHR '' '' # spell_all ts"
  by (simp_all add: spell_all_def)

lemma spell_all_front:
  assumes "\<forall>t\<in>set ts. spelled t"
  shows "dropWhile (\<lambda>c. isspace c \<and> c \<noteq> nl) (spell_all ts) = spell_all ts"
proof (cases ts)
  case (Cons t us)
  then obtain c s where "spell t = c # s" "\<not> (isspace c \<and> c \<noteq> nl)" using spell_starts [of t] assms by auto
  then show ?thesis using Cons by auto
qed simp

lemma rl_loop_spelled:
  assumes "\<forall>t\<in>set ts. spelled t" and "dropWhile (\<lambda>c. isspace c \<and> c \<noteq> nl) (lx_rest l) = spell_all ts"
  shows "map kind (rl_loop l acc) = map kind acc @ ts @ [(T_END_OF_FILE, [])]"
  using assms
proof (induction ts arbitrary: l acc)
  case Nil
  then have "lx_rest (rl_skip_whitespace l) = []"
    by (simp add: rl_skip_whitespace_def scan_def rl_advance_def Let_def dropWhile_eq_drop)
  then show ?case by (subst rl_loop.simps) (simp add: kind_def token_here_def Let_def)
next
  case (Cons t ts)
  let ?l = "rl_skip_whitespace l"
  have r: "lx_rest ?l = spell t @ CHR '' '' # spell_all ts"
    using Cons.prems(2) by (simp add: rl_skip_whitespace_def scan_def rl_advance_def Let_def dropWhile_eq_drop)
  then obtain u l' where s: "rl_step ?l = ([u], l')" "kind u = t" "lx_rest l' = CHR '' '' # spell_all ts"
    using rl_step_spelled [OF r] Cons.prems(1) by auto
  have "isspace CHR '' ''" by (simp add: ctype_defs)
  moreover have "dropWhile (\<lambda>c. isspace c \<and> c \<noteq> nl) (spell_all ts) = spell_all ts"
    using Cons.prems(1) by (intro spell_all_front) simp
  ultimately have "map kind (rl_loop l' (acc @ [u])) = map kind (acc @ [u]) @ ts @ [(T_END_OF_FILE, [])]"
    using Cons.IH [of l'] Cons.prems(1) s(3) by simp
  then show ?case using s r by (subst rl_loop.simps) simp
qed

lemma rl_tokenize_spelled:
  "\<forall>t\<in>set ts. spelled t \<Longrightarrow> map kind (rl_tokenize (spell_all ts)) = ts @ [(T_END_OF_FILE, [])]"
proof -
  assume ok: "\<forall>t\<in>set ts. spelled t"
  show ?thesis using spell_all_front [OF ok] rl_loop_spelled [OF ok, of "RealLexer_new (spell_all ts)" "[]"]
    by (simp add: rl_tokenize_def RealLexer_new_def)
qed

end
