(* ===== verification/Real_Parser.thy ===== *)
theory Real_Parser
  imports Real_Lexer "HOL-Library.Sublist"
begin

text \<open>
  The parser of \<open>lamia_real_compiler.cpp\<close>, class \<open>LamiaParser\<close>. Of a token it reads type and value; its
  state is what is left of the vector before the first \<open>END_OF_FILE\<close>, which no function moves past, so
  an empty list is a parser at that token. Its loops are partial functions, None where the code does
  not return. A node's list \<open>content\<close>, which nothing writes, is left out.
\<close>

section \<open>Nodes\<close>

datatype RealNodeType =
    N_MANIFEST | N_CREATE | N_RADIANT_HEADING | N_RADIANT_TEXT | N_RADIANT_BUTTON | N_CONSTELLATION_LIST
  | N_RADIANT_QUOTE | N_GCODE_BLOCK | N_BAMBU_PRINTER | N_SOCIAL_EMBED | N_EMOTION_3D | N_RETURN_LIGHT
  | N_NEURAL | N_STARTUP

datatype RealNode =
  RealNode (nd_type: RealNodeType) (nd_name: string) (nd_attrs: "(string, string) omap") (nd_children: "RealNode list")

definition RealParser_new :: "RealToken list \<Rightarrow> rtoken list" where
  "RealParser_new tokens = takeWhile (\<lambda>t. fst t \<noteq> T_END_OF_FILE) (map kind tokens)"

abbreviation cur_type :: "rtoken list \<Rightarrow> TokenType" where
  "cur_type ts \<equiv> (case ts of [] \<Rightarrow> T_END_OF_FILE | t # r \<Rightarrow> fst t)"

definition rp_skip_newlines :: "rtoken list \<Rightarrow> rtoken list" where
  "rp_skip_newlines ts = dropWhile (\<lambda>t. fst t = T_NEWLINE) ts"

definition rp_match :: "TokenType \<Rightarrow> rtoken list \<Rightarrow> bool \<times> rtoken list" where
  "rp_match ty ts = (if ts \<noteq> [] \<and> cur_type ts = ty then (True, tl ts) else (False, ts))"

section \<open>Values\<close>

text \<open>\<open>parse_value\<close>, and the loop of \<open>parse_array\<close> with whether it has not read an item yet and its text.\<close>

datatype value_task = V_value | V_items bool string

partial_function (option) rp_value :: "value_task \<Rightarrow> rtoken list \<Rightarrow> (string \<times> rtoken list) option" where
  "rp_value k ts =
     (case k of
        V_value \<Rightarrow>
          (if cur_type ts \<in> {T_STRING, T_NUMBER, T_IDENTIFIER} then Some (snd (hd ts), tl ts)
           else if cur_type ts = T_LBRACKET then do {
             (s, ts) \<leftarrow> rp_value (V_items True ''['') (tl ts);
             Some (if fst (rp_match T_RBRACKET ts) then (s @ '']'', tl ts) else (s, ts)) }
           else Some ([], tl ts))
      | V_items first acc \<Rightarrow>
          (if ts = [] \<or> cur_type ts = T_RBRACKET then Some (acc, ts)
           else let ts = rp_skip_newlines ts in
             if cur_type ts = T_RBRACKET then Some (acc, ts)
             else do {
               (v, ts) \<leftarrow> rp_value V_value ts;
               rp_value (V_items False (acc @ (if first then [] else '', '') @ v))
                 (if cur_type ts = T_COMMA then tl ts else ts) }))"

definition parse_value :: "rtoken list \<Rightarrow> (string \<times> rtoken list) option" where
  "parse_value ts = rp_value V_value ts"

section \<open>Widgets\<close>

partial_function (option) parse_attributes ::
  "rtoken list \<Rightarrow> (string, string) omap \<Rightarrow> ((string, string) omap \<times> rtoken list) option" where
  "parse_attributes ts m =
     (if ts = [] \<or> cur_type ts = T_RBRACE then Some (m, ts)
      else let ts = rp_skip_newlines ts in
        if cur_type ts = T_RBRACE then Some (m, ts)
        else do {
          (m, ts) \<leftarrow>
            (if cur_type ts = T_IDENTIFIER then
               if fst (rp_match T_COLON (tl ts)) then do {
                 (v, ts') \<leftarrow> parse_value (tl (tl ts));
                 Some (om_assign (snd (hd ts)) v m, ts') }
               else Some (m, tl ts)
             else Some (m, tl ts));
          parse_attributes (if cur_type ts = T_COMMA then tl ts else ts) m })"

definition widget_node :: "string \<Rightarrow> RealNodeType" where
  "widget_node w =
     (if w = ''RADIANT_HEADING'' then N_RADIANT_HEADING else if w = ''RADIANT_TEXT'' then N_RADIANT_TEXT
      else if w = ''RADIANT_BUTTON'' then N_RADIANT_BUTTON else if w = ''CONSTELLATION_LIST'' then N_CONSTELLATION_LIST
      else if w = ''RADIANT_QUOTE'' then N_RADIANT_QUOTE else if w = ''GCODE_BLOCK'' then N_GCODE_BLOCK
      else if w = ''BAMBU_PRINTER'' then N_BAMBU_PRINTER else if w = ''SOCIAL_EMBED'' then N_SOCIAL_EMBED
      else if w = ''3D_EMOTION'' then N_EMOTION_3D else N_CREATE)"

definition rp_create :: "rtoken list \<Rightarrow> (RealNode \<times> rtoken list) option" where
  "rp_create ts =
     (let ts = tl ts;
          (ty, m, ts) = (if cur_type ts = T_IDENTIFIER
                         then (widget_node (snd (hd ts)), om_assign ''widget_type'' (snd (hd ts)) [], tl ts)
                         else (N_CREATE, [], ts));
          (open_brace, ts) = rp_match T_LBRACE ts
      in if open_brace then do {
           (m, ts) \<leftarrow> parse_attributes ts m;
           Some (RealNode ty [] m [], snd (rp_match T_RBRACE ts)) }
         else Some (RealNode ty [] m [], ts))"

section \<open>Statements\<close>

definition append_return_type :: "string \<Rightarrow> (string, string) omap \<Rightarrow> (string, string) omap" where
  "append_return_type v m = om_assign ''return_type''
     ((case map_of m ''return_type'' of Some s \<Rightarrow> s | None \<Rightarrow> []) @ v @ '' '') m"

partial_function (option) rp_arrow ::
  "rtoken list \<Rightarrow> (string, string) omap \<Rightarrow> ((string, string) omap \<times> rtoken list) option" where
  "rp_arrow ts m =
     (if ts = [] \<or> cur_type ts = T_LBRACE then Some (m, ts)
      else if cur_type ts \<in> {T_IDENTIFIER, T_AT} then rp_arrow (tl ts) (append_return_type (snd (hd ts)) m)
      else rp_arrow ts m)"

definition rp_return_light :: "rtoken list \<Rightarrow> (RealNode \<times> rtoken list) option" where
  "rp_return_light ts =
     (if tl ts = [] then Some (RealNode N_RETURN_LIGHT [] [] [], [])
      else do { (v, ts) \<leftarrow> parse_value (tl ts); Some (RealNode N_RETURN_LIGHT [] [(''value'', v)] [], ts) })"

definition rp_neural :: "rtoken list \<Rightarrow> (RealNode \<times> rtoken list) option" where
  "rp_neural ts =
     (let ts = tl ts;
          (n, ts) = (if cur_type ts = T_IDENTIFIER then (snd (hd ts), tl ts) else ([], ts));
          (colon, ts) = rp_match T_COLON ts
      in if colon then do { (v, ts) \<leftarrow> parse_value ts; Some (RealNode N_NEURAL n [(''expression'', v)] [], ts) }
         else Some (RealNode N_NEURAL n [] [], ts))"

text \<open>\<open>parse_statement\<close>, whose null pointer is the empty list, \<open>parse_manifest\<close>, and the loop over a body.\<close>

datatype statement_task = S_statement | S_manifest | S_body "RealNode list"

partial_function (option) rp_statement :: "statement_task \<Rightarrow> rtoken list \<Rightarrow> (RealNode list \<times> rtoken list) option" where
  "rp_statement k ts =
     (case k of
        S_statement \<Rightarrow>
          (if cur_type ts = T_MANIFEST then rp_statement S_manifest ts
           else if cur_type ts = T_CREATE then do { (n, ts) \<leftarrow> rp_create ts; Some ([n], ts) }
           else if cur_type ts = T_AT \<and> snd (hd ts) = ''@startup'' then
             let ts = rp_skip_newlines (tl ts) in
             if cur_type ts = T_MANIFEST
             then do { (ns, ts) \<leftarrow> rp_statement S_manifest ts; Some ([RealNode N_STARTUP [] [] ns], ts) }
             else Some ([RealNode N_STARTUP [] [] []], ts)
           else if cur_type ts = T_IDENTIFIER \<and> snd (hd ts) = ''return_light''
           then do { (n, ts) \<leftarrow> rp_return_light ts; Some ([n], ts) }
           else if cur_type ts = T_IDENTIFIER \<and> snd (hd ts) = ''neural''
           then do { (n, ts) \<leftarrow> rp_neural ts; Some ([n], ts) }
           else Some ([], tl ts))
      | S_manifest \<Rightarrow>
          (let ts = tl ts;
               (n, ts) = (if cur_type ts = T_IDENTIFIER then (snd (hd ts), tl ts) else ([], ts));
               (arrow, ts) = rp_match T_ARROW ts
           in do {
             (m, ts) \<leftarrow> (if arrow then rp_arrow ts [] else Some ([], ts));
             let (open_brace, ts) = rp_match T_LBRACE ts;
             if open_brace then do {
               (ns, ts) \<leftarrow> rp_statement (S_body []) ts;
               Some ([RealNode N_MANIFEST n m ns], snd (rp_match T_RBRACE ts)) }
             else Some ([RealNode N_MANIFEST n m []], ts) })
      | S_body acc \<Rightarrow>
          (if ts = [] \<or> cur_type ts = T_RBRACE then Some (acc, ts)
           else let ts = rp_skip_newlines ts in
             if cur_type ts = T_RBRACE then Some (acc, ts)
             else do { (ns, ts) \<leftarrow> rp_statement S_statement ts; rp_statement (S_body (acc @ ns)) ts }))"

partial_function (option) rp_program :: "RealNode list \<Rightarrow> rtoken list \<Rightarrow> RealNode option" where
  "rp_program acc ts =
     (if ts = [] \<or> rp_skip_newlines ts = [] then Some (RealNode N_MANIFEST ''program'' [] acc)
      else do { (ns, ts) \<leftarrow> rp_statement S_statement (rp_skip_newlines ts); rp_program (acc @ ns) ts })"

definition rp_parse :: "RealToken list \<Rightarrow> RealNode option" where
  "rp_parse tokens = rp_program [] (RealParser_new tokens)"

section \<open>Where the parser ends\<close>

text \<open>What a function may leave of its tokens: a part of them, and less, or no more.\<close>

definition leaves :: "rtoken list \<Rightarrow> rtoken list \<Rightarrow> bool" where
  "leaves ts r \<longleftrightarrow> suffix r ts \<and> (ts \<noteq> [] \<longrightarrow> length r < length ts)"

lemma leaves_tl [simp, intro]: "leaves ts (tl ts)"
  by (cases ts) (auto simp: leaves_def suffix_ConsI)

lemma leaves_tl_trans: "suffix r (tl ts) \<Longrightarrow> leaves ts r"
  by (cases ts) (auto simp: leaves_def suffix_ConsI dest: suffix_length_le)

lemma leavesD: "leaves ts r \<Longrightarrow> suffix r ts"
  by (simp add: leaves_def)

lemma rp_skip_suffix [simp, intro]: "suffix (rp_skip_newlines ts) ts"
  by (simp add: rp_skip_newlines_def suffix_dropWhile)

lemma rp_match_suffix: "suffix (snd (rp_match ty ts)) ts"
  by (simp add: rp_match_def)

lemma skip_comma: "suffix (if cur_type ts = T_COMMA then tl ts else ts) ts"
  by simp

declare rp_value.simps [simp del] parse_attributes.simps [simp del] rp_arrow.simps [simp del]
  rp_statement.simps [simp del] rp_program.simps [simp del]

lemma rp_value_ends:
  "\<exists>v r. rp_value k ts = Some (v, r) \<and> suffix r ts \<and> (k = V_value \<longrightarrow> leaves ts r)"
proof (induction "(ts, k)" arbitrary: ts k
    rule: measure_induct_rule [of "\<lambda>(ts, k). 2 * length ts + (case k of V_value \<Rightarrow> 0 | _ \<Rightarrow> Suc 0)"])
  case less
  show ?case
  proof (cases k)
    case V_value
    show ?thesis
    proof (cases "cur_type ts = T_LBRACKET")
      case True
      then have "ts \<noteq> []" by auto
      then have "length (tl ts) < length ts" by simp
      then obtain v r where r: "rp_value (V_items True ''['') (tl ts) = Some (v, r)" "suffix r (tl ts)"
        using less [of "tl ts" "V_items True ''[''"] V_value by auto
      have "suffix (tl r) (tl ts)" using r(2) suffix_tl suffix_order.trans by blast
      then show ?thesis using r V_value True
        by (subst rp_value.simps) (auto intro: leaves_tl_trans dest: leavesD [OF leaves_tl_trans])
    next
      case False
      then show ?thesis using V_value by (subst rp_value.simps) auto
    qed
  next
    case (V_items first acc)
    let ?s = "rp_skip_newlines ts"
    show ?thesis
    proof (cases "ts = [] \<or> cur_type ts = T_RBRACKET \<or> cur_type ?s = T_RBRACKET")
      case True
      then show ?thesis using V_items by (subst rp_value.simps) (auto simp: Let_def)
    next
      case False
      have s: "length ?s \<le> length ts" "suffix ?s ts" by (simp_all add: suffix_length_le)
      then obtain v r where v: "rp_value V_value ?s = Some (v, r)" "leaves ?s r"
        using less [of ?s V_value] V_items by auto
      define q where "q = (if cur_type r = T_COMMA then tl r else r)"
      have q: "suffix q r" unfolding q_def by (rule skip_comma)
      then have qs: "suffix q ts" using v(2) s(2) leavesD suffix_order.trans by metis
      have "length q < length ts"
        using v(2) s(1) False suffix_length_le [OF q] by (cases "?s = []") (simp_all add: leaves_def)
      define acc' where "acc' = acc @ (if first then [] else '', '') @ v"
      obtain v' r' where w: "rp_value (V_items False acc') q = Some (v', r')" "suffix r' q"
        using less [of q "V_items False acc'"] V_items \<open>length q < length ts\<close> by auto
      have "rp_value (V_items first acc) ts = rp_value (V_items False acc') q"
        using False v(1) by (subst rp_value.simps) (simp add: Let_def q_def acc'_def)
      then show ?thesis using V_items w qs suffix_order.trans by fastforce
    qed
  qed
qed

lemma parse_value_ends: "\<exists>v r. parse_value ts = Some (v, r) \<and> leaves ts r"
  using rp_value_ends [of V_value ts] by (auto simp: parse_value_def)

lemma parse_attributes_ends: "\<exists>m' r. parse_attributes ts m = Some (m', r) \<and> suffix r ts"
proof (induction ts arbitrary: m rule: length_induct)
  case (1 ts)
  let ?s = "rp_skip_newlines ts"
  show ?case
  proof (cases "ts = [] \<or> cur_type ts = T_RBRACE \<or> cur_type ?s = T_RBRACE")
    case True
    then show ?thesis by (subst parse_attributes.simps) (auto simp: Let_def)
  next
    case False
    obtain v r where v: "parse_value (tl (tl ?s)) = Some (v, r)" "leaves (tl (tl ?s)) r"
      using parse_value_ends by blast
    have rest: "\<exists>m' q. parse_attributes (if cur_type r' = T_COMMA then tl r' else r') m = Some (m', q) \<and> suffix q ts"
      if "suffix r' (tl ?s)" for r' m
    proof -
      let ?r = "if cur_type r' = T_COMMA then tl r' else r'"
      have r: "suffix ?r (tl ?s)" using that skip_comma suffix_order.trans by metis
      have "length ?r < length ts"
        using suffix_length_le [OF r] suffix_length_le [OF rp_skip_suffix [of ts]] False by (cases "?s") auto
      then obtain m' q where "parse_attributes ?r m = Some (m', q)" "suffix q ?r" using 1 by blast
      then show ?thesis using r suffix_tl [of ?s] rp_skip_suffix [of ts] suffix_order.trans by metis
    qed
    have "suffix r (tl ?s)" using v(2) leavesD suffix_tl suffix_order.trans by metis
    then show ?thesis using False v(1) rest [of r] rest [of "tl ?s"]
      by (subst parse_attributes.simps) (auto simp: Let_def rp_match_def)
  qed
qed

text \<open>The words after an arrow are followed by a brace or by nothing.\<close>

definition after_words :: "rtoken list \<Rightarrow> rtoken list" where
  "after_words ts = dropWhile (\<lambda>t. fst t \<in> {T_IDENTIFIER, T_AT}) ts"

fun arrows_close :: "rtoken list \<Rightarrow> bool" where
  "arrows_close [] \<longleftrightarrow> True"
| "arrows_close (t # ts) \<longleftrightarrow>
     (fst t = T_ARROW \<longrightarrow> after_words ts = [] \<or> cur_type (after_words ts) = T_LBRACE) \<and> arrows_close ts"

lemma arrows_close_suffix: "suffix r ts \<Longrightarrow> arrows_close ts \<Longrightarrow> arrows_close r"
  by (induction ts) (auto simp: suffix_Cons)

lemma rp_arrow_ends:
  "after_words ts = [] \<or> cur_type (after_words ts) = T_LBRACE \<Longrightarrow> \<exists>m'. rp_arrow ts m = Some (m', after_words ts)"
proof (induction ts arbitrary: m)
  case (Cons t ts)
  then show ?case
    by (cases "fst t \<in> {T_IDENTIFIER, T_AT}") (auto simp: rp_arrow.simps [of "t # ts"] after_words_def)
qed (simp add: rp_arrow.simps after_words_def)

text \<open>Any other token is waited for without end.\<close>

lemma rp_arrow_loops:
  assumes "after_words ts \<noteq> []" and "cur_type (after_words ts) \<noteq> T_LBRACE"
  shows "rp_arrow ts m = None"
proof -
  have "after_words ts = [] \<or> cur_type (after_words ts) = T_LBRACE" if "rp_arrow ts m = Some r" for r
  proof (rule rp_arrow.raw_induct [OF _ that], goal_cases)
    case (1 f ts m r)
    show ?case
    proof (cases "ts = [] \<or> cur_type ts = T_LBRACE")
      case True
      then show ?thesis by (cases ts) (auto simp: after_words_def)
    next
      case False
      then have "f (tl ts) (append_return_type (snd (hd ts)) m) = Some r \<and> after_words ts = after_words (tl ts) \<or> f ts m = Some r"
        using 1(2) by (cases ts) (auto simp: after_words_def split: if_splits)
      then show ?thesis using 1(1) by metis
    qed
  qed
  then show ?thesis using assms by (cases "rp_arrow ts m") auto
qed

lemma rp_create_ends: "\<exists>n r. rp_create ts = Some (n, r) \<and> suffix r (tl ts)"
proof -
  have step: "\<exists>m' r. parse_attributes (tl s) m = Some (m', r) \<and> suffix (snd (rp_match T_RBRACE r)) (tl ts)"
    if "suffix s (tl ts)" for s m
    using parse_attributes_ends [of "tl s" m] that suffix_tl [of s] rp_match_suffix [of T_RBRACE] suffix_order.trans
    by metis
  obtain m1 r1 m2 r2 where "parse_attributes (tl (tl ts)) [] = Some (m1, r1)" "suffix (snd (rp_match T_RBRACE r1)) (tl ts)"
    "parse_attributes (tl (tl (tl ts))) (om_assign ''widget_type'' (snd (hd (tl ts))) []) = Some (m2, r2)"
    "suffix (snd (rp_match T_RBRACE r2)) (tl ts)" using step [of "tl ts"] step [of "tl (tl ts)"] suffix_tl by blast
  then show ?thesis by (simp add: rp_create_def Let_def rp_match_def [of T_LBRACE])
qed

lemma rp_return_light_ends: "\<exists>n r. rp_return_light ts = Some (n, r) \<and> suffix r (tl ts)"
  using parse_value_ends [of "tl ts"] by (auto simp: rp_return_light_def leaves_def)

lemma rp_neural_ends: "\<exists>n r. rp_neural ts = Some (n, r) \<and> suffix r (tl ts)"
proof -
  have step: "\<exists>v r. parse_value (tl s) = Some (v, r) \<and> suffix r (tl ts)" if "suffix s (tl ts)" for s
    using parse_value_ends [of "tl s"] that suffix_tl [of s] leavesD suffix_order.trans by metis
  obtain v1 r1 v2 r2 where "parse_value (tl (tl ts)) = Some (v1, r1)" "suffix r1 (tl ts)"
    "parse_value (tl (tl (tl ts))) = Some (v2, r2)" "suffix r2 (tl ts)"
    using step [of "tl ts"] step [of "tl (tl ts)"] suffix_tl by blast
  then show ?thesis by (simp add: rp_neural_def Let_def rp_match_def)
qed

lemma rp_manifest_head:
  assumes "arrows_close ts"
  shows "\<exists>n m s. suffix s (tl ts) \<and>
    rp_statement S_manifest ts =
      (if cur_type s = T_LBRACE
       then do { (ns, r) \<leftarrow> rp_statement (S_body []) (tl s); Some ([RealNode N_MANIFEST n m ns], snd (rp_match T_RBRACE r)) }
       else Some ([RealNode N_MANIFEST n m []], s))"
proof -
  obtain n s where s: "suffix s (tl ts)"
    "(if cur_type (tl ts) = T_IDENTIFIER then (snd (hd (tl ts)), tl (tl ts)) else ([], tl ts)) = (n, s)"
    by (cases "cur_type (tl ts) = T_IDENTIFIER") (simp, metis suffix_tl, simp)
  then have sts: "suffix s ts" using suffix_tl suffix_order.trans by blast
  have head: "rp_statement S_manifest ts = do {
      (m, s) \<leftarrow> (if fst (rp_match T_ARROW s) then rp_arrow (snd (rp_match T_ARROW s)) [] else Some ([], snd (rp_match T_ARROW s)));
      if cur_type s = T_LBRACE
      then do { (ns, r) \<leftarrow> rp_statement (S_body []) (tl s); Some ([RealNode N_MANIFEST n m ns], snd (rp_match T_RBRACE r)) }
      else Some ([RealNode N_MANIFEST n m []], s) }"
    by (subst rp_statement.simps)
       (auto simp: s(2) Let_def rp_match_def split: prod.split intro!: Option.bind_cong)
  show ?thesis
  proof (cases "cur_type s = T_ARROW")
    case True
    then obtain t u where t: "s = t # u" "fst t = T_ARROW" by (cases s) auto
    then have "after_words u = [] \<or> cur_type (after_words u) = T_LBRACE"
      using arrows_close_suffix [OF sts assms] by simp
    then obtain m where "rp_arrow u [] = Some (m, after_words u)" using rp_arrow_ends by blast
    moreover have "suffix (after_words u) (tl ts)"
      using s(1) t suffix_dropWhile suffix_ConsD suffix_order.trans unfolding after_words_def by metis
    ultimately show ?thesis using head t by (auto simp: rp_match_def)
  next
    case False
    then show ?thesis using head s(1) by (auto simp: rp_match_def)
  qed
qed

lemma rp_statement_ends:
  "arrows_close ts \<Longrightarrow>
   \<exists>ns r. rp_statement k ts = Some (ns, r) \<and> suffix r ts \<and> ((\<forall>acc. k \<noteq> S_body acc) \<longrightarrow> leaves ts r)"
proof (induction "(ts, k)" arbitrary: ts k rule: measure_induct_rule
    [of "\<lambda>(ts, k). 3 * length ts + (case k of S_manifest \<Rightarrow> 0 | S_statement \<Rightarrow> 1 | _ \<Rightarrow> 2)"])
  case less
  show ?case
  proof (cases k)
    case S_statement
    have one: "\<exists>ns r. do { (n, r) \<leftarrow> x; Some ([n], r) } = Some (ns, r) \<and> suffix r ts \<and> leaves ts r"
      if "\<exists>n r. x = Some (n, r) \<and> suffix r (tl ts)" for x :: "(RealNode \<times> rtoken list) option"
      using that leaves_tl_trans leavesD by fastforce
    show ?thesis
    proof (cases "cur_type ts = T_MANIFEST")
      case True
      then show ?thesis using less.hyps [of ts S_manifest] less.prems S_statement
        by (subst rp_statement.simps) auto
    next
      case False
      show ?thesis
      proof (cases "cur_type ts = T_AT \<and> snd (hd ts) = ''@startup''")
        case True
        let ?s = "rp_skip_newlines (tl ts)"
        have "ts \<noteq> []" using True by auto
        have s: "suffix ?s (tl ts)" by simp
        then have "length ?s < length ts" using \<open>ts \<noteq> []\<close> suffix_length_le [OF s] by (cases ts) auto
        moreover have "arrows_close ?s" using s less.prems arrows_close_suffix suffix_tl by blast
        ultimately obtain ns r where "rp_statement S_manifest ?s = Some (ns, r)" "suffix r ?s"
          using less.hyps [of ?s S_manifest] S_statement by auto
        moreover from this have "suffix r (tl ts)" using s suffix_order.trans by blast
        ultimately show ?thesis using True S_statement s leaves_tl_trans leavesD
          by (subst rp_statement.simps) (auto simp: Let_def)
      next
        case no: False
        show ?thesis
          using False no S_statement one [OF rp_create_ends] one [OF rp_return_light_ends] one [OF rp_neural_ends]
          by (subst rp_statement.simps) auto
      qed
    qed
  next
    case S_manifest
    obtain n m s where s: "suffix s (tl ts)"
      "rp_statement S_manifest ts =
        (if cur_type s = T_LBRACE
         then do { (ns, r) \<leftarrow> rp_statement (S_body []) (tl s); Some ([RealNode N_MANIFEST n m ns], snd (rp_match T_RBRACE r)) }
         else Some ([RealNode N_MANIFEST n m []], s))" using rp_manifest_head [OF less.prems] by blast
    show ?thesis
    proof (cases "cur_type s = T_LBRACE")
      case True
      then have "s \<noteq> []" by auto
      then have "length (tl s) < length ts" using suffix_length_le [OF s(1)] by (cases s; cases ts) auto
      moreover have t: "suffix (tl s) (tl ts)" using s(1) suffix_tl suffix_order.trans by blast
      then have "arrows_close (tl s)" using less.prems arrows_close_suffix suffix_tl by blast
      ultimately obtain ns r where "rp_statement (S_body []) (tl s) = Some (ns, r)" "suffix r (tl s)"
        using less.hyps [of "tl s" "S_body []"] S_manifest by auto
      moreover from this have "suffix (snd (rp_match T_RBRACE r)) (tl ts)"
        using t rp_match_suffix suffix_order.trans by metis
      ultimately show ?thesis using S_manifest s(2) True leaves_tl_trans leavesD by auto
    next
      case False
      then show ?thesis using S_manifest s leaves_tl_trans leavesD by auto
    qed
  next
    case (S_body acc)
    let ?s = "rp_skip_newlines ts"
    show ?thesis
    proof (cases "ts = [] \<or> cur_type ts = T_RBRACE \<or> cur_type ?s = T_RBRACE")
      case True
      then show ?thesis using S_body by (subst rp_statement.simps) (auto simp: Let_def)
    next
      case False
      have s: "length ?s \<le> length ts" "suffix ?s ts" by (simp_all add: suffix_length_le)
      then have "arrows_close ?s" using less.prems arrows_close_suffix by blast
      then obtain ns r where v: "rp_statement S_statement ?s = Some (ns, r)" "leaves ?s r"
        using less.hyps [of ?s S_statement] S_body s by auto
      have rs: "suffix r ts" using v(2) s(2) leavesD suffix_order.trans by blast
      have "length r < length ts" using v(2) s(1) False by (cases "?s = []") (auto simp: leaves_def)
      then obtain ns' r' where w: "rp_statement (S_body (acc @ ns)) r = Some (ns', r')" "suffix r' r"
        using less.hyps [of r "S_body (acc @ ns)"] less.prems arrows_close_suffix [OF rs] S_body by auto
      have "rp_statement (S_body acc) ts = rp_statement (S_body (acc @ ns)) r"
        using False v(1) by (subst rp_statement.simps) (simp add: Let_def)
      then show ?thesis using S_body w rs suffix_order.trans by fastforce
    qed
  qed
qed

lemma rp_program_ends: "arrows_close ts \<Longrightarrow> \<exists>n. rp_program acc ts = Some n"
proof (induction ts arbitrary: acc rule: length_induct)
  case (1 ts)
  let ?s = "rp_skip_newlines ts"
  show ?case
  proof (cases "ts = [] \<or> ?s = []")
    case True
    then show ?thesis by (subst rp_program.simps) auto
  next
    case False
    have s: "suffix ?s ts" by simp
    obtain ns r where v: "rp_statement S_statement ?s = Some (ns, r)" "leaves ?s r"
      using rp_statement_ends [of ?s S_statement] 1(2) arrows_close_suffix [OF s] by auto
    then have "length r < length ts" "suffix r ts"
      using False suffix_length_le [OF s] s suffix_order.trans by (auto simp: leaves_def)
    then obtain n where "rp_program (acc @ ns) r = Some n" using 1 arrows_close_suffix by blast
    then show ?thesis using v False by (subst rp_program.simps) auto
  qed
qed

text \<open>C27. The parser of the real compiler ends on every source whose arrows are each followed, through words,
  by a brace or by the end of the source: statements nested in manifests, arrays in arrays and
  attribute lists all move on, whatever tokens they hold.
\<close>
theorem real_parser_ends:
  assumes "arrows_close (RealParser_new (rl_tokenize s))"
  shows "\<exists>n. rp_parse (rl_tokenize s) = Some n"
  using rp_program_ends [OF assms] by (simp add: rp_parse_def)

theorem real_parser_ends_witness:
  "\<exists>n. rp_parse (rl_tokenize ''manifest m -> @light app { create X { a: [1, [2 ] neural'') = Some n"
  by (rule real_parser_ends) code_simp

text \<open>A line that ends after the arrow keeps the parser at the line's end.\<close>

lemma arrow_at_line_end_never_returns:
  "rp_parse (rl_tokenize (''manifest m ->'' @ [nl] @ ''{ }'')) = None"
proof -
  have "RealParser_new (rl_tokenize (''manifest m ->'' @ [nl] @ ''{ }''))
    = [(T_MANIFEST, ''manifest''), (T_IDENTIFIER, ''m''), (T_ARROW, ''->''), (T_NEWLINE, [nl]), (T_LBRACE, ''{''), (T_RBRACE, ''}'')]"
    by code_simp
  moreover have "rp_arrow [(T_NEWLINE, [nl]), (T_LBRACE, ''{''), (T_RBRACE, ''}'')] [] = None"
    by (rule rp_arrow_loops) (simp_all add: after_words_def)
  ultimately show ?thesis
    by (simp add: rp_parse_def rp_program.simps rp_skip_newlines_def rp_match_def
        rp_statement.simps [of S_statement] rp_statement.simps [of S_manifest])
qed

end
