(* ===== verification/Real_Programs.thy ===== *)
theory Real_Programs
  imports Real_Parser
begin

text \<open>
  The programs the real compiler is written for, as abstract syntax: how they are written, as tokens
  and as source text, and the tree of the parser each stands for. Lexer and parser together are shown
  to be the inverse of writing.
\<close>

section \<open>Programs and how they are written\<close>

datatype rvalue = Text string | Items "rvalue list"

datatype rprogram =
    Manifest string "string list" "rprogram list"
  | Startup string "string list" "rprogram list"
  | Create string "(string \<times> rvalue) list"
  | Neural string rvalue
  | Return_light rvalue

abbreviation line_end :: rtoken where "line_end \<equiv> (T_NEWLINE, [nl])"
abbreviation colon :: rtoken where "colon \<equiv> (T_COLON, '':'')"
abbreviation comma :: rtoken where "comma \<equiv> (T_COMMA, '','')"
abbreviation lbrace :: rtoken where "lbrace \<equiv> (T_LBRACE, ''{'')"
abbreviation rbrace :: rtoken where "rbrace \<equiv> (T_RBRACE, ''}'')"
abbreviation lbracket :: rtoken where "lbracket \<equiv> (T_LBRACKET, ''['')"
abbreviation rbracket :: rtoken where "rbracket \<equiv> (T_RBRACKET, '']'')"
abbreviation word_token :: "string \<Rightarrow> rtoken" where "word_token w \<equiv> (T_IDENTIFIER, w)"

definition separated :: "'a list \<Rightarrow> 'a list list \<Rightarrow> 'a list" where
  "separated s xss = (case xss of [] \<Rightarrow> [] | x # xs \<Rightarrow> x @ concat (map (\<lambda>y. s @ y) xs))"

fun value_tokens :: "rvalue \<Rightarrow> rtoken list" where
  "value_tokens (Text s) = [(T_STRING, s)]"
| "value_tokens (Items vs) = lbracket # separated [comma] (map value_tokens vs) @ [rbracket]"

fun value_text :: "rvalue \<Rightarrow> string" where
  "value_text (Text s) = s"
| "value_text (Items vs) = ''['' @ separated '', '' (map value_text vs) @ '']''"

definition attribute_tokens :: "(string \<times> rvalue) list \<Rightarrow> rtoken list" where
  "attribute_tokens kvs = concat (map (\<lambda>(k, v). [line_end, word_token k, colon] @ value_tokens v @ [comma]) kvs)"

definition manifest_tokens :: "string \<Rightarrow> string list \<Rightarrow> rtoken list \<Rightarrow> rtoken list" where
  "manifest_tokens n ws body =
     [(T_MANIFEST, ''manifest''), word_token n]
     @ (if ws = [] then [] else (T_ARROW, ''->'') # map (\<lambda>w. (word_type w, w)) ws)
     @ lbrace # line_end # body @ [rbrace]"

fun program_tokens :: "rprogram \<Rightarrow> rtoken list" where
  "program_tokens (Manifest n ws ps) = manifest_tokens n ws (concat (map (\<lambda>p. program_tokens p @ [line_end]) ps))"
| "program_tokens (Startup n ws ps) =
     [(T_AT, ''@startup''), line_end] @ manifest_tokens n ws (concat (map (\<lambda>p. program_tokens p @ [line_end]) ps))"
| "program_tokens (Create w kvs) =
     [(T_CREATE, ''create''), word_token w, lbrace] @ attribute_tokens kvs @ [line_end, rbrace]"
| "program_tokens (Neural n v) = [word_token ''neural'', word_token n, colon] @ value_tokens v"
| "program_tokens (Return_light v) = word_token ''return_light'' # value_tokens v"

definition program_source :: "rprogram list \<Rightarrow> string" where
  "program_source ps = spell_all (concat (map (\<lambda>p. program_tokens p @ [line_end]) ps))"

section \<open>Their trees, and which can be written\<close>

definition return_type :: "string list \<Rightarrow> (string, string) omap" where
  "return_type ws = (if ws = [] then [] else [(''return_type'', concat (map (\<lambda>w. w @ '' '') ws))])"

definition attributes :: "(string \<times> rvalue) list \<Rightarrow> (string, string) omap \<Rightarrow> (string, string) omap" where
  "attributes kvs m = fold (\<lambda>(k, v). om_assign k (value_text v)) kvs m"

fun tree :: "rprogram \<Rightarrow> RealNode" where
  "tree (Manifest n ws ps) = RealNode N_MANIFEST n (return_type ws) (map tree ps)"
| "tree (Startup n ws ps) = RealNode N_STARTUP [] [] [RealNode N_MANIFEST n (return_type ws) (map tree ps)]"
| "tree (Create w kvs) = RealNode (widget_node w) [] (attributes kvs [(''widget_type'', w)]) []"
| "tree (Neural n v) = RealNode N_NEURAL n [(''expression'', value_text v)] []"
| "tree (Return_light v) = RealNode N_RETURN_LIGHT [] [(''value'', value_text v)] []"

definition a_name :: "string \<Rightarrow> bool" where
  "a_name w \<longleftrightarrow> spelled (word_token w)"

definition a_word :: "string \<Rightarrow> bool" where
  "a_word w \<longleftrightarrow> spelled (word_type w, w) \<and> word_type w \<in> {T_IDENTIFIER, T_AT}"

fun written :: "rprogram \<Rightarrow> bool" where
  "written (Manifest n ws ps) \<longleftrightarrow> a_name n \<and> (\<forall>w\<in>set ws. a_word w) \<and> (\<forall>p\<in>set ps. written p)"
| "written (Startup n ws ps) \<longleftrightarrow> a_name n \<and> (\<forall>w\<in>set ws. a_word w) \<and> (\<forall>p\<in>set ps. written p)"
| "written (Create w kvs) \<longleftrightarrow> a_name w \<and> (\<forall>(k, v)\<in>set kvs. a_name k)"
| "written (Neural n v) \<longleftrightarrow> a_name n"
| "written (Return_light v) \<longleftrightarrow> True"

section \<open>The tokens are spelled\<close>

lemma separated_simps [simp]: "separated s [] = []" "separated s (x # xs) = x @ concat (map (\<lambda>y. s @ y) xs)"
  by (simp_all add: separated_def)

lemma set_separated: "set (separated s xss) \<subseteq> set s \<union> \<Union> (set ` set xss)"
  by (cases xss) auto

lemma fixed_spelled [simp]:
  "spelled line_end" "spelled colon" "spelled comma" "spelled lbrace" "spelled rbrace" "spelled lbracket"
  "spelled rbracket" "spelled (T_ARROW, ''->'')" "spelled (T_MANIFEST, ''manifest'')" "spelled (T_CREATE, ''create'')"
  "spelled (T_AT, ''@startup'')" "spelled (word_token ''neural'')" "spelled (word_token ''return_light'')"
  "spelled (T_STRING, s)"
  by (simp_all add: spelled_def punctuation_def word_type_def name_start_def name_char_def ctype_defs)

lemma value_tokens_spelled: "t \<in> set (value_tokens v) \<Longrightarrow> spelled t"
proof (induction v)
  case (Items vs)
  then show ?case using set_separated [of "[comma]" "map value_tokens vs"] by fastforce
qed simp

lemma program_tokens_spelled: "written p \<Longrightarrow> t \<in> set (program_tokens p) \<Longrightarrow> spelled t"
proof (induction p)
  case (Create w kvs)
  then show ?case by (auto simp: attribute_tokens_def a_name_def dest: value_tokens_spelled)
qed (auto simp: manifest_tokens_def a_name_def a_word_def dest: value_tokens_spelled split: if_splits)

section \<open>Reading values and attributes\<close>

lemma rp_skip_simps [simp]:
  "rp_skip_newlines (line_end # ts) = rp_skip_newlines ts" "rp_skip_newlines [] = []"
  "ty \<noteq> T_NEWLINE \<Longrightarrow> rp_skip_newlines ((ty, s) # ts) = (ty, s) # ts"
  by (simp_all add: rp_skip_newlines_def)

lemma rp_match_simps [simp]:
  "rp_match ty ((ty', s) # ts) = (if ty' = ty then (True, ts) else (False, (ty', s) # ts))" "rp_match ty [] = (False, [])"
  by (simp_all add: rp_match_def)

lemma value_tokens_start: "\<exists>t ts. value_tokens v = t # ts \<and> fst t \<in> {T_STRING, T_LBRACKET}"
  by (cases v) auto

lemma rp_items_rest:
  assumes "\<And>v r. v \<in> set vs \<Longrightarrow> rp_value V_value (value_tokens v @ r) = Some (value_text v, r)"
  shows "rp_value (V_items False acc)
      (let ts = concat (map (\<lambda>v. comma # value_tokens v) vs) @ rbracket # r in if cur_type ts = T_COMMA then tl ts else ts)
    = Some (acc @ concat (map (\<lambda>v. '', '' @ value_text v) vs), rbracket # r)"
  using assms
proof (induction vs arbitrary: acc)
  case Nil
  then show ?case by (subst rp_value.simps) simp
next
  case (Cons v vs)
  let ?r = "concat (map (\<lambda>v. comma # value_tokens v) vs) @ rbracket # r"
  obtain t ts where "value_tokens v = t # ts" "fst t \<in> {T_STRING, T_LBRACKET}" using value_tokens_start by blast
  then have "rp_value (V_items False acc) (value_tokens v @ ?r)
    = rp_value (V_items False (acc @ '', '' @ value_text v)) (if cur_type ?r = T_COMMA then tl ?r else ?r)"
    using Cons.prems [of v ?r] by (subst rp_value.simps) (cases t, auto simp: Let_def)
  then show ?case using Cons.IH [of "acc @ '', '' @ value_text v"] Cons.prems by (simp add: Let_def)
qed

lemma rp_value_tokens: "rp_value V_value (value_tokens v @ r) = Some (value_text v, r)"
proof (induction v arbitrary: r)
  case (Text s)
  then show ?case by (subst rp_value.simps) simp
next
  case (Items vs)
  have "rp_value (V_items True ''['') (separated [comma] (map value_tokens vs) @ rbracket # r)
    = Some (''['' @ separated '', '' (map value_text vs), rbracket # r)"
  proof (cases vs)
    case Nil
    then show ?thesis by (subst rp_value.simps) simp
  next
    case (Cons v ws)
    let ?r = "concat (map (\<lambda>v. comma # value_tokens v) ws) @ rbracket # r"
    obtain t ts where "value_tokens v = t # ts" "fst t \<in> {T_STRING, T_LBRACKET}" using value_tokens_start by blast
    then have "rp_value (V_items True ''['') (value_tokens v @ ?r)
      = rp_value (V_items False (''['' @ value_text v)) (if cur_type ?r = T_COMMA then tl ?r else ?r)"
      using Items.IH [of v ?r] Cons by (subst rp_value.simps) (cases t, auto simp: Let_def)
    then show ?thesis
      using rp_items_rest [of ws "''['' @ value_text v" r] Items.IH Cons by (simp add: Let_def comp_def)
  qed
  then show ?case by (subst rp_value.simps) simp
qed

lemma parse_value_tokens [simp]: "parse_value (value_tokens v @ r) = Some (value_text v, r)"
  by (simp add: parse_value_def rp_value_tokens)

lemma parse_attribute_tokens:
  "parse_attributes (attribute_tokens kvs @ line_end # rbrace # r) m = Some (attributes kvs m, rbrace # r)"
proof (induction kvs arbitrary: m)
  case Nil
  then show ?case by (subst parse_attributes.simps) (simp add: attribute_tokens_def attributes_def)
next
  case (Cons kv kvs)
  obtain k v where "kv = (k, v)" by fastforce
  then show ?case using Cons by (subst parse_attributes.simps) (simp add: attribute_tokens_def attributes_def Let_def)
qed

section \<open>Reading statements\<close>

lemma rp_create_tokens:
  "rp_create (program_tokens (Create w kvs) @ r) = Some (tree (Create w kvs), r)"
  using parse_attribute_tokens [of kvs r] by (simp add: rp_create_def Let_def)

lemma rp_neural_tokens:
  "rp_neural (program_tokens (Neural n v) @ r) = Some (tree (Neural n v), r)"
  by (simp add: rp_neural_def Let_def)

lemma rp_return_light_tokens:
  "rp_return_light (program_tokens (Return_light v) @ r) = Some (tree (Return_light v), r)"
proof -
  have "value_tokens v \<noteq> []" using value_tokens_start [of v] by auto
  then show ?thesis by (simp add: rp_return_light_def)
qed

lemma rp_arrow_words:
  assumes "\<forall>w\<in>set ws. a_word w" and "m = (if s = [] then [] else [(''return_type'', s)])"
  shows "rp_arrow (map (\<lambda>w. (word_type w, w)) ws @ lbrace # r) m
    = Some (let s' = s @ concat (map (\<lambda>w. w @ '' '') ws) in if s' = [] then [] else [(''return_type'', s')], lbrace # r)"
  using assms
proof (induction ws arbitrary: s m)
  case Nil
  then show ?case by (subst rp_arrow.simps) simp
next
  case (Cons w ws)
  have "append_return_type w m = [(''return_type'', s @ w @ '' '')]"
    using Cons.prems(2) by (simp add: append_return_type_def)
  then show ?case using Cons.prems Cons.IH [where s = "s @ w @ '' ''" and m = "[(''return_type'', s @ w @ '' '')]"]
    by (subst rp_arrow.simps) (auto simp: a_word_def)
qed

lemma rp_manifest_tokens:
  assumes "\<forall>w\<in>set ws. a_word w"
    and "rp_statement (S_body []) (line_end # body @ rbrace # r) = Some (ns, rbrace # r)"
  shows "rp_statement S_manifest (manifest_tokens n ws body @ r) = Some ([RealNode N_MANIFEST n (return_type ws) ns], r)"
proof -
  have "concat (map (\<lambda>w. w @ '' '') ws) = [] \<longleftrightarrow> ws = []" by (cases ws) auto
  then show ?thesis
    using assms rp_arrow_words [OF assms(1), of "[]" "[]" "line_end # body @ rbrace # r"]
    by (subst rp_statement.simps) (simp add: manifest_tokens_def Let_def return_type_def)
qed

lemma rp_body_line_end: "rp_statement (S_body acc) (line_end # ts) = rp_statement (S_body acc) ts"
proof (cases "ts = [] \<or> cur_type ts = T_RBRACE")
  case True
  then show ?thesis
    by (cases ts)
       (auto simp: rp_statement.simps [of "S_body acc"] rp_statement.simps [of S_statement "[]"] rp_skip_newlines_def)
next
  case False
  then show ?thesis by (subst (1 2) rp_statement.simps) (simp add: Let_def)
qed

lemma program_tokens_start:
  "\<exists>t ts. program_tokens p = t # ts \<and> fst t \<in> {T_MANIFEST, T_CREATE, T_AT, T_IDENTIFIER}"
  by (cases p) (auto simp: manifest_tokens_def)

lemma rp_body_tokens:
  assumes "\<And>p r. p \<in> set ps \<Longrightarrow> rp_statement S_statement (program_tokens p @ r) = Some ([tree p], r)"
  shows "rp_statement (S_body acc) (line_end # concat (map (\<lambda>p. program_tokens p @ [line_end]) ps) @ rbrace # r)
    = Some (acc @ map tree ps, rbrace # r)"
  using assms
proof (induction ps arbitrary: acc)
  case Nil
  then show ?case by (simp add: rp_body_line_end) (subst rp_statement.simps, simp)
next
  case (Cons p ps)
  let ?r = "line_end # concat (map (\<lambda>p. program_tokens p @ [line_end]) ps) @ rbrace # r"
  obtain t ts where t: "program_tokens p = t # ts" "fst t \<in> {T_MANIFEST, T_CREATE, T_AT, T_IDENTIFIER}"
    using program_tokens_start by blast
  then have "rp_statement (S_body acc) (program_tokens p @ ?r) = rp_statement (S_body (acc @ [tree p])) ?r"
    using Cons.prems [of p ?r] by (subst rp_statement.simps) (cases t, auto simp: Let_def)
  then show ?case using Cons.IH [of "acc @ [tree p]"] Cons.prems by (simp add: rp_body_line_end [of acc "program_tokens p @ ?r"])
qed

lemma rp_statement_tokens:
  "written p \<Longrightarrow> rp_statement S_statement (program_tokens p @ r) = Some ([tree p], r)"
proof (induction p arbitrary: r)
  case (Manifest n ws ps)
  let ?b = "concat (map (\<lambda>p. program_tokens p @ [line_end]) ps)"
  have "rp_statement S_manifest (manifest_tokens n ws ?b @ r) = Some ([tree (Manifest n ws ps)], r)"
    using Manifest rp_manifest_tokens [of ws ?b r "map tree ps" n] rp_body_tokens [of ps "[]" r] by simp
  then show ?case by (subst rp_statement.simps) (simp add: manifest_tokens_def)
next
  case (Startup n ws ps)
  let ?b = "concat (map (\<lambda>p. program_tokens p @ [line_end]) ps)"
  have "rp_statement S_manifest (manifest_tokens n ws ?b @ r) = Some ([tree (Manifest n ws ps)], r)"
    using Startup rp_manifest_tokens [of ws ?b r "map tree ps" n] rp_body_tokens [of ps "[]" r] by simp
  then show ?case by (subst rp_statement.simps) (simp add: manifest_tokens_def)
next
  case (Create w kvs)
  then show ?case using rp_create_tokens [of w kvs r] by (subst rp_statement.simps) simp
next
  case (Neural n v)
  then show ?case using rp_neural_tokens [of n v r] by (subst rp_statement.simps) simp
next
  case (Return_light v)
  then show ?case using rp_return_light_tokens [of v r] by (subst rp_statement.simps) simp
qed

lemma rp_program_tokens:
  "\<forall>p\<in>set ps. written p \<Longrightarrow> rp_program acc (concat (map (\<lambda>p. program_tokens p @ [line_end]) ps))
    = Some (RealNode N_MANIFEST ''program'' [] (acc @ map tree ps))"
proof (induction ps arbitrary: acc)
  case Nil
  then show ?case by (simp add: rp_program.simps)
next
  case (Cons p ps)
  let ?r = "concat (map (\<lambda>p. program_tokens p @ [line_end]) ps)"
  obtain t ts where t: "program_tokens p = t # ts" "fst t \<in> {T_MANIFEST, T_CREATE, T_AT, T_IDENTIFIER}"
    using program_tokens_start by blast
  then have "rp_program acc (program_tokens p @ line_end # ?r) = rp_program (acc @ [tree p]) (line_end # ?r)"
    using Cons.prems rp_statement_tokens [of p "line_end # ?r"] by (subst rp_program.simps) (cases t, auto)
  also have "\<dots> = rp_program (acc @ [tree p]) ?r"
    by (subst (1 2) rp_program.simps) auto
  finally show ?case using Cons.IH [of "acc @ [tree p]"] Cons.prems by simp
qed

lemma real_parser_reads_source:
  assumes "\<forall>p\<in>set ps. written p"
  shows "rp_parse (rl_tokenize (program_source ps)) = Some (RealNode N_MANIFEST ''program'' [] (map tree ps))"
proof -
  let ?ts = "concat (map (\<lambda>p. program_tokens p @ [line_end]) ps)"
  have s: "\<forall>t\<in>set ?ts. spelled t" using assms program_tokens_spelled by auto
  then have "\<forall>t\<in>set ?ts. fst t \<noteq> T_END_OF_FILE" by (fastforce simp: spelled_def)
  then have "RealParser_new (rl_tokenize (program_source ps)) = ?ts"
    using rl_tokenize_spelled [OF s] by (simp add: RealParser_new_def program_source_def takeWhile_append)
  then show ?thesis using rp_program_tokens [OF assms, of "[]"] by (simp add: rp_parse_def)
qed

end
