(* ===== verification/Real_Transpiler.thy ===== *)
theory Real_Transpiler
  imports Real_Programs
begin

text \<open>
  The transpiler of \<open>lamia_real_compiler.cpp\<close>, class \<open>LamiaTranspiler\<close>, and the driver
  \<open>RealLamiaCompiler::compile_file\<close>. An attribute is read with \<open>operator[]\<close>, which leaves an empty
  one where there was none; nothing reads an attribute otherwise, so the entries it leaves are not kept.
  Shown are what each escape keeps, that texts add no tags to a page, and what the compiler leaves for
  the source of a program.
\<close>

section \<open>Escapes\<close>

text \<open>The loop over \<open>find\<close> and \<open>replace\<close>, which goes on behind what it has put in, and the order of a
  \<open>std::map\<close> over characters.\<close>

fun replace_each :: "char \<Rightarrow> string \<Rightarrow> string \<Rightarrow> string" where
  "replace_each c r [] = []"
| "replace_each c r (x # s) = (if x = c then r @ replace_each c r s else x # replace_each c r s)"

definition html_replacements :: "(char, string) omap" where
  "html_replacements =
     [(dquote, ''&quot;''), (CHR ''&'', ''&amp;''), (CHR ''<'', ''&lt;''), (CHR ''>'', ''&gt;'')]"

definition escape_html :: "string \<Rightarrow> string" where
  "escape_html s = fold (\<lambda>(c, r). replace_each c r) html_replacements s"

definition escape_js :: "string \<Rightarrow> string" where
  "escape_js s = replace_each squote [bslash, squote] s"

section \<open>HTML\<close>

definition attr :: "(string, string) omap \<Rightarrow> string \<Rightarrow> string" where
  "attr m k = (case map_of m k of Some v \<Rightarrow> v | None \<Rightarrow> [])"

definition out_line :: "nat \<Rightarrow> string list \<Rightarrow> string" where
  "out_line i ss = replicate i (CHR '' '') @ concat ss @ [nl]"

text \<open>\<open>getline\<close> up to commas, and the blanks and quotes it takes off an item.\<close>

fun comma_pieces :: "string \<Rightarrow> string \<Rightarrow> string list" where
  "comma_pieces acc [] = (if acc = [] then [] else [acc])"
| "comma_pieces acc (c # s) = (if c = CHR '','' then acc # comma_pieces [] s else comma_pieces (acc @ [c]) s)"

definition item_blank :: "char \<Rightarrow> bool" where
  "item_blank c \<longleftrightarrow> c = CHR '' '' \<or> c = tab \<or> c = dquote"

definition bare_item :: "string \<Rightarrow> string" where
  "bare_item s = rev (dropWhile item_blank (rev (dropWhile item_blank s)))"

definition list_items :: "string \<Rightarrow> string list" where
  "list_items s =
     (if s \<noteq> [] \<and> hd s = CHR ''['' \<and> last s = CHR '']''
      then map bare_item (comma_pieces [] (take (length s - 2) (drop 1 s))) else [])"

fun node_html :: "nat \<Rightarrow> RealNode \<Rightarrow> string" where
  "node_html i (RealNode ty n m cs) =
     (case ty of
        N_MANIFEST \<Rightarrow> concat (map (node_html i) cs)
      | N_STARTUP \<Rightarrow> concat (map (node_html i) cs)
      | N_RADIANT_HEADING \<Rightarrow>
          out_line i [''<div class=\"radiant-heading\">'']
          @ out_line i [''  <h1>'', escape_html (attr m ''content''), ''</h1>'']
          @ out_line i [''</div>'']
      | N_RADIANT_TEXT \<Rightarrow>
          out_line i [''<div class=\"radiant-text\">'']
          @ out_line i [''  <p>'', escape_html (attr m ''content''), ''</p>'']
          @ out_line i [''</div>'']
      | N_RADIANT_BUTTON \<Rightarrow>
          out_line i [''<div class=\"radiant-button\">'']
          @ out_line i [''  <button onclick=\"'', attr m ''action'', ''\">'', escape_html (attr m ''content''), ''</button>'']
          @ out_line i [''</div>'']
      | N_CONSTELLATION_LIST \<Rightarrow>
          out_line i [''<div class=\"constellation-list\">'']
          @ out_line i [''  <h3>'', escape_html (attr m ''title''), ''</h3>'']
          @ out_line i [''  <ul>'']
          @ concat (map (\<lambda>t. out_line i [''    <li>'', escape_html t, ''</li>'']) (list_items (attr m ''items'')))
          @ out_line i [''  </ul>'']
          @ out_line i [''</div>'']
      | N_RADIANT_QUOTE \<Rightarrow>
          out_line i [''<div class=\"radiant-quote\">'']
          @ out_line i [''  <blockquote>'', escape_html (attr m ''content''), ''</blockquote>'']
          @ (if attr m ''attribution'' \<noteq> []
             then out_line i [''  <cite>'', escape_html (attr m ''attribution''), ''</cite>''] else [])
          @ out_line i [''</div>'']
      | N_GCODE_BLOCK \<Rightarrow>
          out_line i [''<div class=\"gcode-block\">'']
          @ out_line i [''  <h4>G-Code Block</h4>'']
          @ out_line i [''  <pre>'', escape_html (attr m ''commands''), ''</pre>'']
          @ out_line i [''</div>'']
      | _ \<Rightarrow> [])"

text \<open>The raw strings start with a line's end and close with the indentation of their last line.\<close>

definition generate_css_from_ast :: string where
  "generate_css_from_ast = [nl] @ concat (map (\<lambda>s. out_line 8 [s])
     [''.lamia-app { max-width: 1200px; margin: 0 auto; padding: 2rem; font-family: Arial, sans-serif; }'',
      ''.radiant-heading h1 { color: #ffd700; text-align: center; font-size: 2.5rem; margin-bottom: 2rem; }'',
      ''.radiant-text p { color: #333; line-height: 1.6; margin-bottom: 1rem; }'',
      ''.radiant-button button { background: linear-gradient(45deg, #ffd700, #ff6b6b); border: none; padding: 1rem 2rem; color: white; border-radius: 25px; cursor: pointer; font-size: 1.1rem; }'',
      ''.constellation-list { margin: 2rem 0; }'',
      ''.constellation-list h3 { color: #4ecdc4; font-size: 1.5rem; }'',
      ''.constellation-list ul { list-style: none; padding: 0; }'',
      ''.constellation-list li { background: rgba(78, 205, 196, 0.1); padding: 0.5rem 1rem; margin: 0.5rem 0; border-radius: 5px; }'',
      ''.radiant-quote { background: rgba(255, 215, 0, 0.1); padding: 1.5rem; margin: 1rem 0; border-left: 4px solid #ffd700; }'',
      ''.gcode-block { background: #2c3e50; color: #ecf0f1; padding: 1rem; margin: 1rem 0; border-radius: 5px; }'',
      ''.gcode-block pre { margin: 0; font-family: 'Courier New', monospace; }''])
     @ replicate 8 (CHR '' '')"

definition generate_js_from_ast :: string where
  "generate_js_from_ast = [nl] @ concat
     [out_line 8 [''createRadiantHeading(content) {''],
      out_line 12 [''console.log('Creating radiant heading:', content);''],
      out_line 8 [''}''], out_line 8 [],
      out_line 8 [''createRadiantText(content) {''],
      out_line 12 [''console.log('Creating radiant text:', content);''],
      out_line 8 [''}''], out_line 8 [],
      out_line 8 [''createRadiantButton(content, action) {''],
      out_line 12 [''console.log('Creating radiant button:', content, 'with action:', action);''],
      out_line 8 [''}''], out_line 8 [],
      out_line 8 [''neuralAnalysis(expression) {''],
      out_line 12 [''console.log('Neural analysis:', expression);''],
      out_line 12 [''return { result: 'analyzed', superior: true };''],
      out_line 8 [''}'']]
     @ replicate 8 (CHR '' '')"

definition transpile_to_html :: "RealNode \<Rightarrow> string" where
  "transpile_to_html ast =
     out_line 0 [''<!DOCTYPE html>''] @ out_line 0 [''<html lang=\"en\">''] @ out_line 0 [''<head>'']
     @ out_line 4 [''<meta charset=\"UTF-8\">'']
     @ out_line 4 [''<meta name=\"viewport\" content=\"width=device-width, initial-scale=1.0\">'']
     @ out_line 4 [''<title>Lamia Application</title>'']
     @ out_line 4 [''<style>''] @ generate_css_from_ast @ out_line 4 [''</style>'']
     @ out_line 0 [''</head>''] @ out_line 0 [''<body>''] @ out_line 4 [''<div class=\"lamia-app\">'']
     @ concat (map (node_html 2) (nd_children ast))
     @ out_line 4 [''</div>''] @ out_line 4 [''<script>''] @ generate_js_from_ast @ out_line 4 [''</script>'']
     @ out_line 0 [''</body>''] @ out_line 0 [''</html>'']"

section \<open>JavaScript\<close>

text \<open>A character string in single quotes.\<close>

definition quoted :: "string \<Rightarrow> string" where
  "quoted s = squote # s @ [squote]"

fun node_js :: "nat \<Rightarrow> RealNode \<Rightarrow> string" where
  "node_js i (RealNode ty n m cs) =
     (case ty of
        N_MANIFEST \<Rightarrow> out_line (i * 4) [''// Manifest: '', n] @ concat (map (node_js i) cs)
      | N_RADIANT_HEADING \<Rightarrow> out_line (i * 4) [''this.createRadiantHeading('', quoted (escape_js (attr m ''content'')), '');'']
      | N_RADIANT_TEXT \<Rightarrow> out_line (i * 4) [''this.createRadiantText('', quoted (escape_js (attr m ''content'')), '');'']
      | N_RADIANT_BUTTON \<Rightarrow>
          out_line (i * 4) [''this.createRadiantButton('', quoted (escape_js (attr m ''content'')), '', '',
            quoted (attr m ''action''), '');'']
      | N_NEURAL \<Rightarrow>
          out_line (i * 4) [''const '', n, '' = this.neuralAnalysis('', quoted (escape_js (attr m ''expression'')), '');'']
      | N_RETURN_LIGHT \<Rightarrow> out_line (i * 4) [''return '', attr m ''value'', '';'']
      | _ \<Rightarrow> [])"

definition generate_manifest_method :: "RealNode \<Rightarrow> string" where
  "generate_manifest_method nd =
     (if nd_name nd = [] then []
      else [nl] @ out_line 4 [nd_name nd, ''() {'']
        @ out_line 8 [''console.log('', quoted (''Executing manifest: '' @ nd_name nd), '');'']
        @ concat (map (node_js 2) (nd_children nd)) @ out_line 4 [''}''])"

definition transpile_to_javascript :: "RealNode \<Rightarrow> string" where
  "transpile_to_javascript ast =
     out_line 0 [''// LAMIA TRANSPILED JAVASCRIPT''] @ out_line 0 [''class LamiaApp {'']
     @ out_line 4 [''constructor() {''] @ out_line 8 [''this.initialized = false;''] @ out_line 8 [''this.init();'']
     @ out_line 4 [''}''] @ [nl] @ out_line 4 [''init() {'']
     @ concat (map (node_js 2) (nd_children ast))
     @ out_line 8 [''this.initialized = true;''] @ out_line 4 [''}'']
     @ concat (map generate_manifest_method (filter (\<lambda>c. nd_type c \<in> {N_MANIFEST, N_STARTUP}) (nd_children ast)))
     @ out_line 0 [''}''] @ [nl] @ out_line 0 [''// Initialize Lamia application'']
     @ out_line 0 [''document.addEventListener('DOMContentLoaded', () => {'']
     @ out_line 4 [''new LamiaApp();''] @ out_line 0 [''});'']"

section \<open>The driver\<close>

text \<open>\<open>compile_file\<close> over the files by path, where a path may not be open to writing; None where the
  parser does not return.\<close>

definition compile_file ::
  "(string \<Rightarrow> bool) \<Rightarrow> string \<Rightarrow> string \<Rightarrow> (string \<rightharpoonup> string) \<Rightarrow> (bool \<times> (string \<rightharpoonup> string)) option" where
  "compile_file writable input_file output_dir files =
     (case files input_file of
        None \<Rightarrow> Some (False, files)
      | Some source \<Rightarrow> do {
          ast \<leftarrow> rp_parse (rl_tokenize source);
          let write = (\<lambda>p text fs. if writable p then fs(p \<mapsto> text) else fs);
          Some (True, write (output_dir @ ''/app.js'') (transpile_to_javascript ast)
            (write (output_dir @ ''/index.html'') (transpile_to_html ast) files)) })"

section \<open>What escapes do\<close>

text \<open>The replacement of the quote is itself replaced, since the ampersand comes after it.\<close>

definition html_char :: "char \<Rightarrow> string" where
  "html_char c =
     (if c = dquote then ''&amp;quot;'' else if c = CHR ''&'' then ''&amp;''
      else if c = CHR ''<'' then ''&lt;'' else if c = CHR ''>'' then ''&gt;'' else [c])"

lemma escape_html_by_char: "escape_html s = concat (map html_char s)"
  by (induction s) (simp_all add: escape_html_def html_replacements_def html_char_def)

lemma escaped_quote_is_escaped_again: "escape_html [dquote] = ''&amp;quot;''"
  by (simp add: escape_html_by_char html_char_def)

definition markup :: "string \<Rightarrow> string" where
  "markup s = filter (\<lambda>c. c = CHR ''<'' \<or> c = CHR ''>'') s"

lemma markup_simps [simp]:
  "markup [] = []" "markup (s @ t) = markup s @ markup t" "markup (concat ss) = concat (map markup ss)"
  "markup (replicate i (CHR '' '')) = []"
  by (simp_all add: markup_def [abs_def] filter_concat)

lemma markup_escape_html [simp]: "markup (escape_html s) = []"
  unfolding escape_html_by_char by (induction s) (simp_all add: html_char_def markup_def)

lemma markup_out_line: "markup (out_line i ss) = concat (map markup ss)"
  by (simp add: out_line_def) (simp add: markup_def)

text \<open>Reading a character string in single quotes: what it holds, and the text behind it.\<close>

fun read_quoted :: "string \<Rightarrow> (string \<times> string) option" where
  "read_quoted [] = None"
| "read_quoted (c # s) =
     (if c = squote then Some ([], s)
      else if c = nl then None
      else if c = bslash then
        (case s of [] \<Rightarrow> None | d # s \<Rightarrow> map_option (\<lambda>(v, r). (d # v, r)) (read_quoted s))
      else map_option (\<lambda>(v, r). (c # v, r)) (read_quoted s))"

lemma read_quoted_escape_js:
  "bslash \<notin> set s \<Longrightarrow> nl \<notin> set s \<Longrightarrow> read_quoted (escape_js s @ squote # r) = Some (s, r)"
  by (induction s) (auto simp: escape_js_def)

lemma escape_js_keeps_backslash: "read_quoted (escape_js [bslash] @ squote # '');'') = None"
  by code_simp

section \<open>Text adds no markup\<close>

text \<open>A node with its texts blanked, all but the brackets and commas an array is read by.\<close>

definition blank_text :: "string \<Rightarrow> string" where
  "blank_text s = map (\<lambda>c. if c \<in> {CHR ''['', CHR '']'', CHR '',''} then c else CHR '' '') s"

fun blanked :: "RealNode \<Rightarrow> RealNode" where
  "blanked (RealNode ty n m cs) = RealNode ty n (map (\<lambda>(k, v). (k, blank_text v)) m) (map blanked cs)"

fun plain_actions :: "RealNode \<Rightarrow> bool" where
  "plain_actions (RealNode ty n m cs) \<longleftrightarrow>
     (ty = N_RADIANT_BUTTON \<longrightarrow> markup (attr m ''action'') = []) \<and> (\<forall>c\<in>set cs. plain_actions c)"

lemma blank_text_Nil [simp]: "blank_text s = [] \<longleftrightarrow> s = []" "blank_text [] = []"
  by (simp_all add: blank_text_def)

lemma attr_blanked [simp]: "attr (map (\<lambda>(k, v). (k, blank_text v)) m) k = blank_text (attr m k)"
proof -
  have "map_of (map (\<lambda>(k, v). (k, blank_text v)) m) k = map_option blank_text (map_of m k)"
    by (induction m) auto
  then show ?thesis by (simp add: attr_def split: option.split)
qed

lemma markup_blank_text [simp]: "markup (blank_text s) = []"
  by (induction s) (auto simp: blank_text_def markup_def)

lemma length_comma_pieces:
  "(acc = [] \<longleftrightarrow> acc' = []) \<Longrightarrow> length (comma_pieces acc' (blank_text s)) = length (comma_pieces acc s)"
proof (induction s arbitrary: acc acc')
  case (Cons c s)
  then show ?case using Cons.IH [of "[]" "[]"] by (auto simp: blank_text_def)
qed simp

lemma length_list_items: "length (list_items (blank_text s)) = length (list_items s)"
proof -
  have "take (length s - 2) (drop 1 (blank_text s)) = blank_text (take (length s - 2) (drop 1 s))"
    by (simp add: blank_text_def take_map drop_map)
  moreover have "s \<noteq> [] \<Longrightarrow> (hd (blank_text s) = CHR ''['') = (hd s = CHR ''['')"
    "s \<noteq> [] \<Longrightarrow> (last (blank_text s) = CHR '']'') = (last s = CHR '']'')"
    by (auto simp: blank_text_def hd_map last_map)
  moreover have "length (blank_text s) = length s" by (simp add: blank_text_def)
  ultimately show ?thesis using length_comma_pieces [of "[]" "[]"] by (auto simp: list_items_def)
qed

text \<open>What a widget is printed with stands between its tags: the tags of a page are those of its
  widgets, whatever their texts, as long as no button's action, which is printed as it is, has any.\<close>
lemma text_adds_no_markup:
  "plain_actions n \<Longrightarrow> markup (node_html i n) = markup (node_html i (blanked n))"
proof (induction n)
  case (RealNode ty n m cs)
  then show ?case
    by (cases ty)
       (simp_all add: comp_def markup_out_line map_replicate_const length_list_items cong: map_cong)
qed

text \<open>An action is printed as it is.\<close>

lemma action_is_not_escaped:
  "let n = RealNode N_RADIANT_BUTTON [] [(''action'', dquote # ''><script>'')] []
   in markup (node_html 0 n) \<noteq> markup (node_html 0 (blanked n))"
  by code_simp

text \<open>Items are split at every comma of the array's text, also within one of its strings.\<close>

lemma items_split_within_strings:
  "list_items (value_text (Items [Text ''a, b'', Text ''c''])) = [''a'', ''b'', ''c'']"
  by code_simp

section \<open>The compiler\<close>

text \<open>C28. The real compiler on the source of a program, nested manifests, startup, widgets with attributes and
  arrays, neural and return statements: it returns, reports success, and leaves as page and script what
  the transpiler makes of the tree the program stands for, every other file as it was.
\<close>
theorem compiled_program:
  assumes "\<forall>p\<in>set ps. written p" and "files input_file = Some (program_source ps)"
    and "writable (output_dir @ ''/index.html'')" and "writable (output_dir @ ''/app.js'')"
  shows "compile_file writable input_file output_dir files = Some (True, files(
    output_dir @ ''/index.html'' \<mapsto> transpile_to_html (RealNode N_MANIFEST ''program'' [] (map tree ps)),
    output_dir @ ''/app.js'' \<mapsto> transpile_to_javascript (RealNode N_MANIFEST ''program'' [] (map tree ps))))"
  using assms real_parser_reads_source [OF assms(1)] by (simp add: compile_file_def Let_def)

definition sample_program :: "rprogram list" where
  "sample_program =
     [Startup ''main'' [''@light'']
        [Create ''RADIANT_TEXT'' [(''content'', Text ''a<b''), (''x'', Items [Text ''1'', Items []])],
         Manifest ''inner'' [] [Return_light (Text ''ok'')]],
      Neural ''n'' (Text ''e'')]"

theorem compiled_program_witness:
  "compile_file (\<lambda>p. True) ''a.lamia'' ''out'' [''a.lamia'' \<mapsto> program_source sample_program]
   = Some (True, [''a.lamia'' \<mapsto> program_source sample_program,
       ''out/index.html'' \<mapsto> transpile_to_html (RealNode N_MANIFEST ''program'' [] (map tree sample_program)),
       ''out/app.js'' \<mapsto> transpile_to_javascript (RealNode N_MANIFEST ''program'' [] (map tree sample_program))])"
proof -
  have "\<forall>p\<in>set sample_program. written p" by code_simp
  from compiled_program [OF this, of "[''a.lamia'' \<mapsto> program_source sample_program]" "''a.lamia''" "\<lambda>p. True" "''out''"]
  show ?thesis by simp
qed

text \<open>An output that cannot be opened is not reported.\<close>

lemma unwritable_output_is_success:
  "compile_file (\<lambda>p. False) ''a.lamia'' ''out'' [''a.lamia'' \<mapsto> []] = Some (True, [''a.lamia'' \<mapsto> []])"
proof -
  have "rp_parse (rl_tokenize []) = Some (RealNode N_MANIFEST ''program'' [] [])"
    using real_parser_reads_source [of "[]"] by (simp add: program_source_def)
  then show ?thesis by (simp add: compile_file_def Let_def)
qed

end
