(* ===== verification/Credential_Vault.thy ===== *)
theory Credential_Vault
  imports Std_Containers Std_Numbers
begin

text \<open>
  The encrypted vault of \<open>medusa_yorkshire_encryption_vault.hpp\<close>, class \<open>YorkshireEncryptionVault\<close>: its
  text form, saving, loading and every operation. The security engine, an interface whose implementation
  is not in the repository, the hash of the C++ library and a constant of a missing header are the functions
  of the record \<open>vault_libs\<close>. The file at the vault's path is part of the state; the clock, and whether the
  file can be opened, are given with each call. Messages to the logger are left out.
\<close>

section \<open>State\<close>

record 'e vault_libs =
  en_authenticate :: "string \<Rightarrow> string \<Rightarrow> 'e \<Rightarrow> bool \<times> 'e"
  en_encrypt :: "string \<Rightarrow> 'e \<Rightarrow> string option \<times> 'e"
  en_decrypt :: "string \<Rightarrow> 'e \<Rightarrow> string option \<times> 'e"
  en_logout :: "'e \<Rightarrow> 'e"
  std_hash :: "string \<Rightarrow> 64 word"
  enigma_constant :: string

record vault_call =
  vc_timestamp :: string
  vc_readable :: bool
  vc_writable :: bool

record EncryptedCredential =
  ec_service_name :: string
  ec_username :: string
  ec_password :: string
  ec_additional_data :: string
  ec_creation_time :: string
  ec_last_access_time :: string
  ec_access_count :: int
  ec_salt_hash :: string
  ec_integrity_check :: string

definition EncryptedCredential_new :: EncryptedCredential where
  "EncryptedCredential_new = \<lparr>ec_service_name = [], ec_username = [], ec_password = [], ec_additional_data = [],
     ec_creation_time = [], ec_last_access_time = [], ec_access_count = 0, ec_salt_hash = [], ec_integrity_check = []\<rparr>"

record 'e Vault =
  vt_engine :: 'e
  vt_file :: "string option"
  vt_entries :: "(string, EncryptedCredential) omap"
  vt_loaded :: bool
  vt_authenticated :: bool
  vt_master_user :: string
  vt_creation_time :: string
  vt_total_entries :: int

text \<open>A new vault after \<open>Initialize\<close>, which refuses to go without an engine or a logger.\<close>

definition vault_initialize :: "'e option \<Rightarrow> bool \<Rightarrow> string option \<Rightarrow> 'e Vault option" where
  "vault_initialize engine logger file =
     (case engine of
        Some e \<Rightarrow> if logger then Some \<lparr>vt_engine = e, vt_file = file, vt_entries = [], vt_loaded = False,
            vt_authenticated = False, vt_master_user = [], vt_creation_time = [], vt_total_entries = 0\<rparr> else None
      | None \<Rightarrow> None)"

section \<open>Integrity\<close>

definition generate_integrity_check :: "'e vault_libs \<Rightarrow> EncryptedCredential \<Rightarrow> string" where
  "generate_integrity_check L c =
     hex_string (unat (std_hash L (ec_service_name c @ ec_username c @ ec_password c @ ec_creation_time c)))"

definition verify_integrity :: "'e vault_libs \<Rightarrow> EncryptedCredential \<Rightarrow> bool" where
  "verify_integrity L c \<longleftrightarrow> generate_integrity_check L c = ec_integrity_check c"

section \<open>Saving\<close>

definition entry_lines :: "string \<times> EncryptedCredential \<Rightarrow> string list" where
  "entry_lines e = (case e of (service_name, c) \<Rightarrow>
     [''[ENTRY:'' @ service_name @ '']'',
      ''SERVICE_NAME='' @ ec_service_name c,
      ''ENCRYPTED_USERNAME='' @ ec_username c,
      ''ENCRYPTED_PASSWORD='' @ ec_password c,
      ''ENCRYPTED_ADDITIONAL='' @ ec_additional_data c,
      ''CREATION_TIME='' @ ec_creation_time c,
      ''LAST_ACCESS_TIME='' @ ec_last_access_time c,
      ''ACCESS_COUNT='' @ to_string_int (ec_access_count c),
      ''SALT_HASH='' @ ec_salt_hash c,
      ''INTEGRITY_CHECK='' @ ec_integrity_check c,
      []])"

definition vault_lines :: "'e vault_libs \<Rightarrow> 'e Vault \<Rightarrow> string list" where
  "vault_lines L v =
     [''# Yorkshire Encryption Vault - Bleeding Heart Foundation'',
      ''# SECURITY NOTICE: All data encrypted - NO plaintext credentials'',
      ''VAULT_VERSION=1.0'',
      ''VAULT_MASTER_USER='' @ vt_master_user v,
      ''VAULT_CREATION_TIME='' @ vt_creation_time v,
      ''TOTAL_ENTRIES='' @ to_string_int (vt_total_entries v),
      ''ENIGMA_SCALE='' @ enigma_constant L,
      []] @ concat (map entry_lines (vt_entries v))"

definition vault_text :: "string list \<Rightarrow> string" where
  "vault_text ls = concat (map (\<lambda>l. l @ [nl]) ls)"

definition data_marker :: string where
  "data_marker = ''YORKSHIRE_ENCRYPTED_VAULT_DATA:''"

definition file_header :: string where
  "file_header = vault_text
     [''# Yorkshire Encryption Vault - Encrypted Binary Data'',
      ''# Bleeding Heart Foundation Security Manager'',
      ''# WARNING: Tampering with this file will corrupt all stored credentials'',
      data_marker]"

definition save_vault_to_file :: "'e vault_libs \<Rightarrow> vault_call \<Rightarrow> 'e Vault \<Rightarrow> bool \<times> 'e Vault" where
  "save_vault_to_file L call v =
     (if \<not> vt_authenticated v then (False, v)
      else case en_encrypt L (vault_text (vault_lines L v)) (vt_engine v) of
          (None, e) \<Rightarrow> (False, v\<lparr>vt_engine := e\<rparr>)
        | (Some encrypted_vault, e) \<Rightarrow>
            if vc_writable call then (True, v\<lparr>vt_engine := e, vt_file := Some (file_header @ encrypted_vault)\<rparr>)
            else (False, v\<lparr>vt_engine := e\<rparr>))"

section \<open>Loading\<close>

text \<open>The lines behind the marker, run together.\<close>

fun encrypted_lines :: "bool \<Rightarrow> string list \<Rightarrow> string" where
  "encrypted_lines found [] = []"
| "encrypted_lines found (l # ls) =
     (if contains l data_marker then encrypted_lines True ls
      else (if found then l else []) @ encrypted_lines found ls)"

text \<open>What follows a prefix: \<open>find\<close> at the front and \<open>substr\<close> from the prefix's length.\<close>

fun after_prefix :: "string \<Rightarrow> string \<Rightarrow> string option" where
  "after_prefix [] s = Some s"
| "after_prefix (a # p) [] = None"
| "after_prefix (a # p) (b # s) = (if a = b then after_prefix p s else None)"

record 'e vault_parse =
  vp_vault :: "'e Vault"
  vp_current :: EncryptedCredential
  vp_in_entry :: bool

definition save_entry :: "'e vault_libs \<Rightarrow> 'e vault_parse \<Rightarrow> 'e Vault" where
  "save_entry L p =
     (if vp_in_entry p \<and> ec_service_name (vp_current p) \<noteq> [] \<and> verify_integrity L (vp_current p)
      then (vp_vault p)\<lparr>vt_entries :=
        om_assign (ec_service_name (vp_current p)) (vp_current p) (vt_entries (vp_vault p))\<rparr>
      else vp_vault p)"

text \<open>The \<open>else if\<close>s over the prefix of a line: what each does, and what \<open>std::stoi\<close> throws.\<close>

fun first_match :: "(string \<times> (string \<Rightarrow> 'a)) list \<Rightarrow> string \<Rightarrow> 'a option" where
  "first_match [] l = None"
| "first_match ((p, f) # t) l = (case after_prefix p l of Some x \<Rightarrow> Some (f x) | None \<Rightarrow> first_match t l)"

definition set_current ::
  "'e vault_parse \<Rightarrow> (EncryptedCredential \<Rightarrow> EncryptedCredential) \<Rightarrow> 'e vault_parse outcome" where
  "set_current p f = Returns (p\<lparr>vp_current := f (vp_current p)\<rparr>)"

definition set_vault :: "'e vault_parse \<Rightarrow> ('e Vault \<Rightarrow> 'e Vault) \<Rightarrow> 'e vault_parse outcome" where
  "set_vault p f = Returns (p\<lparr>vp_vault := f (vp_vault p)\<rparr>)"

definition line_fields :: "'e vault_libs \<Rightarrow> 'e vault_parse \<Rightarrow> (string \<times> (string \<Rightarrow> 'e vault_parse outcome)) list" where
  "line_fields L p =
     [(''VAULT_MASTER_USER='', \<lambda>x. set_vault p (vt_master_user_update (\<lambda>_. x))),
      (''VAULT_CREATION_TIME='', \<lambda>x. set_vault p (vt_creation_time_update (\<lambda>_. x))),
      (''TOTAL_ENTRIES='', \<lambda>x. outcome_bind (stoi x) (\<lambda>n. set_vault p (vt_total_entries_update (\<lambda>_. n)))),
      (''[ENTRY:'', \<lambda>x. Returns \<lparr>vp_vault = save_entry L p, vp_current = EncryptedCredential_new, vp_in_entry = True\<rparr>),
      (''SERVICE_NAME='', \<lambda>x. set_current p (ec_service_name_update (\<lambda>_. x))),
      (''ENCRYPTED_USERNAME='', \<lambda>x. set_current p (ec_username_update (\<lambda>_. x))),
      (''ENCRYPTED_PASSWORD='', \<lambda>x. set_current p (ec_password_update (\<lambda>_. x))),
      (''ENCRYPTED_ADDITIONAL='', \<lambda>x. set_current p (ec_additional_data_update (\<lambda>_. x))),
      (''CREATION_TIME='', \<lambda>x. set_current p (ec_creation_time_update (\<lambda>_. x))),
      (''LAST_ACCESS_TIME='', \<lambda>x. set_current p (ec_last_access_time_update (\<lambda>_. x))),
      (''ACCESS_COUNT='', \<lambda>x. outcome_bind (stoi x) (\<lambda>n. set_current p (ec_access_count_update (\<lambda>_. n)))),
      (''SALT_HASH='', \<lambda>x. set_current p (ec_salt_hash_update (\<lambda>_. x))),
      (''INTEGRITY_CHECK='', \<lambda>x. set_current p (ec_integrity_check_update (\<lambda>_. x)))]"

definition parse_line :: "'e vault_libs \<Rightarrow> string \<Rightarrow> 'e vault_parse \<Rightarrow> 'e vault_parse outcome" where
  "parse_line L l p =
     (if l = [] \<or> hd l = CHR ''#'' then Returns p
      else case first_match (line_fields L p) l of Some r \<Rightarrow> r | None \<Rightarrow> Returns p)"

text \<open>The loop: whether all lines were read, and where it came to.\<close>

fun parse_lines :: "'e vault_libs \<Rightarrow> string list \<Rightarrow> 'e vault_parse \<Rightarrow> bool \<times> 'e vault_parse" where
  "parse_lines L [] p = (True, p)"
| "parse_lines L (l # ls) p = (case parse_line L l p of Returns p' \<Rightarrow> parse_lines L ls p' | _ \<Rightarrow> (False, p))"

definition load_vault_from_file :: "'e vault_libs \<Rightarrow> vault_call \<Rightarrow> 'e Vault \<Rightarrow> bool \<times> 'e Vault" where
  "load_vault_from_file L call v =
     (case vt_file v of
        None \<Rightarrow> (True, v)
      | Some text \<Rightarrow>
          if \<not> vc_readable call then (False, v)
          else let encrypted = encrypted_lines False (lines_of text) in
            if encrypted = [] then (False, v)
            else case en_decrypt L encrypted (vt_engine v) of
                (None, e) \<Rightarrow> (False, v\<lparr>vt_engine := e\<rparr>)
              | (Some decrypted, e) \<Rightarrow>
                  case parse_lines L (lines_of decrypted)
                    \<lparr>vp_vault = v\<lparr>vt_engine := e\<rparr>, vp_current = EncryptedCredential_new, vp_in_entry = False\<rparr> of
                    (done_reading, p) \<Rightarrow>
                      if done_reading then (True, (save_entry L p)\<lparr>vt_loaded := True\<rparr>) else (False, vp_vault p))"

section \<open>Operations\<close>

definition authenticate_vault :: "'e vault_libs \<Rightarrow> vault_call \<Rightarrow> string \<Rightarrow> string \<Rightarrow> 'e Vault \<Rightarrow> bool \<times> 'e Vault" where
  "authenticate_vault L call master_username master_password v =
     (case en_authenticate L master_username master_password (vt_engine v) of
        (False, e) \<Rightarrow> (False, v\<lparr>vt_engine := e\<rparr>)
      | (True, e) \<Rightarrow>
          (True, snd (load_vault_from_file L call
             (v\<lparr>vt_engine := e, vt_authenticated := True, vt_master_user := master_username,
                vt_creation_time := (if vt_creation_time v = [] then vc_timestamp call else vt_creation_time v)\<rparr>))))"

text \<open>\<open>||\<close> stops at the first encryption that fails.\<close>

definition encrypt_all :: "'e vault_libs \<Rightarrow> string \<Rightarrow> string \<Rightarrow> string \<Rightarrow> 'e \<Rightarrow> (string \<times> string \<times> string) option \<times> 'e" where
  "encrypt_all L x y z e =
     (case en_encrypt L x e of (None, e) \<Rightarrow> (None, e) | (Some a, e) \<Rightarrow>
      case en_encrypt L y e of (None, e) \<Rightarrow> (None, e) | (Some b, e) \<Rightarrow>
      case en_encrypt L z e of (None, e) \<Rightarrow> (None, e) | (Some c, e) \<Rightarrow> (Some (a, b, c), e))"

definition store_credentials ::
  "'e vault_libs \<Rightarrow> vault_call \<Rightarrow> string \<Rightarrow> string \<Rightarrow> string \<Rightarrow> string \<Rightarrow> 'e Vault \<Rightarrow> bool \<times> 'e Vault" where
  "store_credentials L call service_name username password additional_data v =
     (if \<not> vt_authenticated v then (False, v)
      else case encrypt_all L username password additional_data (vt_engine v) of
          (None, e) \<Rightarrow> (False, v\<lparr>vt_engine := e\<rparr>)
        | (Some (a, b, c), e) \<Rightarrow>
            let cred = \<lparr>ec_service_name = service_name, ec_username = a, ec_password = b, ec_additional_data = c,
                  ec_creation_time = vc_timestamp call, ec_last_access_time = vc_timestamp call, ec_access_count = 0,
                  ec_salt_hash = ''yorkshire_champion_salt_hash'', ec_integrity_check = []\<rparr>;
                cred = cred\<lparr>ec_integrity_check := generate_integrity_check L cred\<rparr>;
                entries = om_assign service_name cred (vt_entries v)
            in save_vault_to_file L call
                 (v\<lparr>vt_engine := e, vt_entries := entries, vt_total_entries := to_int32 (int (length entries))\<rparr>))"

text \<open>The references the answer is written to: \<open>decrypt_into\<close> writes the first that succeed.\<close>

type_synonym login = "string \<times> string \<times> string"

definition decrypt_into :: "'e vault_libs \<Rightarrow> EncryptedCredential \<Rightarrow> login \<Rightarrow> 'e \<Rightarrow> bool \<times> login \<times> 'e" where
  "decrypt_into L c out e =
     (case out of (u, p, a) \<Rightarrow>
      case en_decrypt L (ec_username c) e of (None, e) \<Rightarrow> (False, (u, p, a), e) | (Some u, e) \<Rightarrow>
      case en_decrypt L (ec_password c) e of (None, e) \<Rightarrow> (False, (u, p, a), e) | (Some p, e) \<Rightarrow>
      case en_decrypt L (ec_additional_data c) e of (None, e) \<Rightarrow> (False, (u, p, a), e) | (Some a, e) \<Rightarrow>
      (True, (u, p, a), e))"

definition retrieve_credentials ::
  "'e vault_libs \<Rightarrow> vault_call \<Rightarrow> string \<Rightarrow> login \<Rightarrow> 'e Vault \<Rightarrow> bool \<times> login \<times> 'e Vault" where
  "retrieve_credentials L call service_name out v =
     (if \<not> vt_authenticated v then (False, out, v)
      else case map_of (vt_entries v) service_name of
          None \<Rightarrow> (False, out, v)
        | Some c \<Rightarrow>
            if \<not> verify_integrity L c then (False, out, v)
            else case decrypt_into L c out (vt_engine v) of
                (False, out, e) \<Rightarrow> (False, out, v\<lparr>vt_engine := e\<rparr>)
              | (True, out, e) \<Rightarrow>
                  let c = c\<lparr>ec_last_access_time := vc_timestamp call, ec_access_count := to_int32 (ec_access_count c + 1)\<rparr>
                  in (True, out, snd (save_vault_to_file L call
                       (v\<lparr>vt_engine := e, vt_entries := om_assign service_name c (vt_entries v)\<rparr>))))"

definition list_services :: "'e Vault \<Rightarrow> string list" where
  "list_services v = (if vt_authenticated v then map fst (vt_entries v) else [])"

definition remove_credentials :: "'e vault_libs \<Rightarrow> vault_call \<Rightarrow> string \<Rightarrow> 'e Vault \<Rightarrow> bool \<times> 'e Vault" where
  "remove_credentials L call service_name v =
     (if \<not> vt_authenticated v then (False, v)
      else if map_of (vt_entries v) service_name = None then (False, v)
      else let entries = um_erase service_name (vt_entries v) in
        (True, snd (save_vault_to_file L call (v\<lparr>vt_entries := entries, vt_total_entries := to_int32 (int (length entries))\<rparr>))))"

definition get_vault_stats :: "'e Vault \<Rightarrow> string \<times> string \<times> int \<times> bool" where
  "get_vault_stats v = (vt_master_user v, vt_creation_time v, vt_total_entries v, vt_authenticated v)"

definition close_vault :: "'e vault_libs \<Rightarrow> vault_call \<Rightarrow> 'e Vault \<Rightarrow> 'e Vault" where
  "close_vault L call v =
     (let v = (if vt_authenticated v then snd (save_vault_to_file L call v) else v) in
      v\<lparr>vt_entries := [], vt_authenticated := False, vt_master_user := [], vt_engine := en_logout L (vt_engine v)\<rparr>)"

end
