(* ===== verification/Vault_Session.thy ===== *)
theory Vault_Session
  imports Credential_Vault
begin

text \<open>
  That the vault is a map from services to logins: over every session of its owner, across closing and
  opening, it answers as the map does. What it needs of the security engine is the predicate
  \<open>honest_engine\<close>.
\<close>

section \<open>Reading back the text of a vault\<close>

definition one_line :: "string \<Rightarrow> bool" where
  "one_line s \<longleftrightarrow> nl \<notin> set s"

lemma one_line_simps [simp]:
  "one_line []" "one_line (c # s) \<longleftrightarrow> c \<noteq> nl \<and> one_line s" "one_line (s @ t) \<longleftrightarrow> one_line s \<and> one_line t"
  "one_line (to_string_int n)" "one_line (hex_string k)"
  by (auto simp: one_line_def no_newline_int no_newline_hex)

lemma getlines_line: "one_line l \<Longrightarrow> getlines cur (l @ nl # r) = (cur @ l) # getlines [] r"
  by (induction l arbitrary: cur) auto

lemma getlines_last: "one_line l \<Longrightarrow> getlines cur l = (if cur @ l = [] then [] else [cur @ l])"
  by (induction l arbitrary: cur) auto

lemma lines_of_vault_text: "\<forall>l\<in>set ls. one_line l \<Longrightarrow> lines_of (vault_text ls @ r) = ls @ lines_of r"
  by (induction ls) (simp_all add: vault_text_def getlines_line)

lemma after_prefix_append [simp]: "after_prefix p (p @ s) = Some s"
  by (induction p) auto

definition int32 :: "int \<Rightarrow> bool" where
  "int32 n \<longleftrightarrow> - 2147483648 \<le> n \<and> n \<le> 2147483647"

lemma int32_to_int32 [simp]: "int32 (to_int32 n)"
  by (simp add: int32_def to_int32_range)

lemma stoi_int32: "int32 n \<Longrightarrow> stoi (to_string_int n) = Returns n"
  by (simp add: int32_def stoi_to_string_int)

definition good_entry :: "'e vault_libs \<Rightarrow> string \<times> EncryptedCredential \<Rightarrow> bool" where
  "good_entry L e \<longleftrightarrow>
     (case e of (s, c) \<Rightarrow> s \<noteq> [] \<and> one_line s \<and> ec_service_name c = s \<and> one_line (ec_username c) \<and> one_line (ec_password c)
        \<and> one_line (ec_additional_data c) \<and> one_line (ec_creation_time c) \<and> one_line (ec_last_access_time c)
        \<and> int32 (ec_access_count c) \<and> one_line (ec_salt_hash c) \<and> verify_integrity L c)"

lemma good_entry_integrity: "good_entry L (s, c) \<Longrightarrow> one_line (ec_integrity_check c)"
  by (auto simp: good_entry_def verify_integrity_def generate_integrity_check_def dest: sym)

lemma entry_lines_one_line: "good_entry L e \<Longrightarrow> l \<in> set (entry_lines e) \<Longrightarrow> one_line l"
  using good_entry_integrity [of L "fst e" "snd e"] by (cases e) (auto simp: entry_lines_def good_entry_def)

lemmas parse_simps = parse_line_def line_fields_def set_current_def set_vault_def

lemma parse_entry_lines:
  assumes "good_entry L (s, c)"
  shows "parse_lines L (entry_lines (s, c) @ ls) p
    = parse_lines L ls \<lparr>vp_vault = save_entry L p, vp_current = c, vp_in_entry = True\<rparr>"
  using assms by (cases c) (simp add: entry_lines_def parse_simps good_entry_def stoi_int32 EncryptedCredential_new_def)

definition with_entries :: "'e Vault \<Rightarrow> (string, EncryptedCredential) omap \<Rightarrow> 'e Vault" where
  "with_entries v es = v\<lparr>vt_entries := fold (\<lambda>(s, c). om_assign s c) es (vt_entries v)\<rparr>"

lemma parse_entries:
  assumes "\<forall>e\<in>set es. good_entry L e"
  shows "\<exists>p'. parse_lines L (concat (map entry_lines es)) p = (True, p') \<and> save_entry L p' = with_entries (save_entry L p) es"
  using assms
proof (induction es arbitrary: p)
  case Nil
  then show ?case by (simp add: with_entries_def)
next
  case (Cons e es)
  obtain s c where e: "e = (s, c)" by fastforce
  let ?p = "\<lparr>vp_vault = save_entry L p, vp_current = c, vp_in_entry = True\<rparr>"
  have "save_entry L ?p = (save_entry L p)\<lparr>vt_entries := om_assign s c (vt_entries (save_entry L p))\<rparr>"
    using Cons.prems e by (auto simp: save_entry_def good_entry_def)
  moreover obtain p' where "parse_lines L (concat (map entry_lines es)) ?p = (True, p')"
    "save_entry L p' = with_entries (save_entry L ?p) es" using Cons by (meson list.set_intros(2))
  ultimately show ?case using Cons.prems e by (simp add: parse_entry_lines with_entries_def)
qed

lemma fold_assign_lookup:
  "map_of (fold (\<lambda>(s, c). om_assign s c) es m) k = (case map_of (rev es) k of Some c \<Rightarrow> Some c | None \<Rightarrow> map_of m k)"
  by (induction es arbitrary: m) (auto simp: om_find_assign map_add_def split: option.splits)

lemma fold_assign_inv: "om_inv m \<Longrightarrow> om_inv (fold (\<lambda>(s, c). om_assign s c) es m)"
  by (induction es arbitrary: m) (auto simp: om_inv_assign)

lemma om_unique: "om_inv m \<Longrightarrow> om_inv m' \<Longrightarrow> map_of m = map_of m' \<Longrightarrow> m = m'"
proof -
  assume m: "om_inv m" "om_inv m'" "map_of m = map_of m'"
  then have d: "distinct (map fst m)" "distinct (map fst m')" using om_inv_distinct by blast+
  then have "set m = set m'" using m(3) map_of_inject_set by blast
  moreover have "inj_on fst (set m)" using d(1) by (simp add: distinct_map)
  moreover have "sorted (map fst m)" "sorted (map fst m')" using m(1,2) by (simp_all add: strict_sorted_imp_sorted)
  ultimately show ?thesis using map_sorted_distinct_set_unique [of fst m m'] d by simp
qed

lemma fold_assign_same:
  assumes "om_inv es" and "m = [] \<or> m = es"
  shows "fold (\<lambda>(s, c). om_assign s c) es m = es"
proof (rule om_unique)
  show "om_inv (fold (\<lambda>(s, c). om_assign s c) es m)" using assms fold_assign_inv by auto
  have "map_of (rev es) = map_of es"
    using om_inv_distinct [OF assms(1)] by (intro map_of_inject_set [THEN iffD2]) (simp_all add: rev_map [symmetric])
  then show "map_of (fold (\<lambda>(s, c). om_assign s c) es m) = map_of es"
    using assms(2) by (auto simp: fold_assign_lookup fun_eq_iff split: option.split)
qed (rule assms(1))

section \<open>The engine it relies on\<close>

text \<open>
  The owner can always authenticate; then \<open>kf\<close> holds, that the owner's key is in use, until the engine
  is logged out. With it every text is encrypted, to one line without a colon, and every encrypted text
  decrypted to what it was made from; \<open>sealed d c\<close> is that \<open>c\<close> was made from \<open>d\<close>.
\<close>

definition honest_engine ::
  "'e vault_libs \<Rightarrow> ('e \<Rightarrow> bool) \<Rightarrow> (string \<Rightarrow> string \<Rightarrow> bool) \<Rightarrow> string \<Rightarrow> string \<Rightarrow> bool" where
  "honest_engine L kf sealed u p \<longleftrightarrow>
     (\<forall>e. \<exists>e'. en_authenticate L u p e = (True, e') \<and> kf e')
     \<and> (\<forall>e d. kf e \<longrightarrow> (\<exists>c e'. en_encrypt L d e = (Some c, e') \<and> kf e' \<and> sealed d c))
     \<and> (\<forall>e d c. kf e \<longrightarrow> sealed d c \<longrightarrow> (\<exists>e'. en_decrypt L c e = (Some d, e') \<and> kf e'))
     \<and> (\<forall>d c. sealed d c \<longrightarrow> c \<noteq> [] \<and> one_line c \<and> CHR '':'' \<notin> set c)
     \<and> one_line u \<and> one_line (enigma_constant L)"

lemma honestD:
  assumes "honest_engine L kf sealed u p"
  shows "\<exists>e'. en_authenticate L u p e = (True, e') \<and> kf e'"
    and "kf e \<Longrightarrow> \<exists>c e'. en_encrypt L d e = (Some c, e') \<and> kf e' \<and> sealed d c"
    and "kf e \<Longrightarrow> sealed d c \<Longrightarrow> \<exists>e'. en_decrypt L c e = (Some d, e') \<and> kf e'"
    and "sealed d c \<Longrightarrow> c \<noteq> [] \<and> one_line c \<and> CHR '':'' \<notin> set c"
    and "one_line u" and "one_line (enigma_constant L)"
  using assms by (simp_all add: honest_engine_def)

section \<open>What a vault holds\<close>

fun sealed_login :: "(string \<Rightarrow> string \<Rightarrow> bool) \<Rightarrow> EncryptedCredential option \<Rightarrow> login option \<Rightarrow> bool" where
  "sealed_login sealed None None \<longleftrightarrow> True"
| "sealed_login sealed (Some c) (Some (x, y, z)) \<longleftrightarrow>
     sealed x (ec_username c) \<and> sealed y (ec_password c) \<and> sealed z (ec_additional_data c)"
| "sealed_login sealed _ _ \<longleftrightarrow> False"

lemma sealed_loginD: "sealed_login sealed c r \<Longrightarrow> c = None \<longleftrightarrow> r = None"
  by (cases "(sealed, c, r)" rule: sealed_login.cases) auto

definition holds ::
  "(string \<Rightarrow> string \<Rightarrow> bool) \<Rightarrow> (string, EncryptedCredential) omap \<Rightarrow> (string \<rightharpoonup> login) \<Rightarrow> bool" where
  "holds sealed es m \<longleftrightarrow> (\<forall>s. sealed_login sealed (map_of es s) (m s))"

definition clean_fields :: "string \<Rightarrow> 'e Vault \<Rightarrow> bool" where
  "clean_fields u v \<longleftrightarrow> vt_master_user v = u \<and> one_line (vt_creation_time v) \<and> int32 (vt_total_entries v)"

definition file_holds ::
  "'e vault_libs \<Rightarrow> (string \<Rightarrow> string \<Rightarrow> bool) \<Rightarrow> string \<Rightarrow> string option \<Rightarrow> (string, EncryptedCredential) omap \<Rightarrow> bool" where
  "file_holds L sealed u file es \<longleftrightarrow>
     (case file of
        None \<Rightarrow> es = []
      | Some text \<Rightarrow> \<exists>c w. text = file_header @ c \<and> sealed (vault_text (vault_lines L w)) c \<and> vt_entries w = es \<and> clean_fields u w)"

lemma marker_not_in_header: "encrypted_lines False (lines_of (file_header @ c)) = encrypted_lines True (lines_of c)"
proof -
  have h: "\<forall>l\<in>set [''# Yorkshire Encryption Vault - Encrypted Binary Data'', ''# Bleeding Heart Foundation Security Manager'',
      ''# WARNING: Tampering with this file will corrupt all stored credentials'', data_marker]. one_line l"
    by (simp add: data_marker_def)
  have "\<not> contains ''# Yorkshire Encryption Vault - Encrypted Binary Data'' data_marker"
    "\<not> contains ''# Bleeding Heart Foundation Security Manager'' data_marker"
    "\<not> contains ''# WARNING: Tampering with this file will corrupt all stored credentials'' data_marker"
    "contains data_marker data_marker" by code_simp+
  then show ?thesis unfolding file_header_def lines_of_vault_text [OF h] by simp
qed

lemma encrypted_lines_file:
  "c \<noteq> [] \<Longrightarrow> one_line c \<Longrightarrow> CHR '':'' \<notin> set c \<Longrightarrow> encrypted_lines False (lines_of (file_header @ c)) = c"
proof -
  assume c: "c \<noteq> []" "one_line c" "CHR '':'' \<notin> set c"
  have "CHR '':'' \<in> set data_marker" by (simp add: data_marker_def)
  then have "\<not> contains c data_marker" using c(3) by (auto simp: contains_iff)
  then show ?thesis using c by (simp add: marker_not_in_header getlines_last)
qed

lemma save_vault:
  assumes "honest_engine L kf sealed u p" and "vt_authenticated v" and "kf (vt_engine v)" and "clean_fields u v"
    and "vc_writable call"
  shows "\<exists>e f. save_vault_to_file L call v = (True, v\<lparr>vt_engine := e, vt_file := f\<rparr>)
    \<and> kf e \<and> file_holds L sealed u f (vt_entries v)"
proof -
  obtain c e where "en_encrypt L (vault_text (vault_lines L v)) (vt_engine v) = (Some c, e)" "kf e"
    "sealed (vault_text (vault_lines L v)) c" using honestD(2) [OF assms(1,3)] by blast
  then show ?thesis using assms by (fastforce simp: save_vault_to_file_def file_holds_def)
qed

lemma parse_vault_lines:
  assumes "clean_fields u w" and "\<forall>e\<in>set (vt_entries w). good_entry L e"
  shows "\<exists>p. parse_lines L (vault_lines L w) \<lparr>vp_vault = v, vp_current = EncryptedCredential_new, vp_in_entry = False\<rparr> = (True, p)
    \<and> int32 (vt_total_entries w)
    \<and> save_entry L p = with_entries (v\<lparr>vt_master_user := u, vt_creation_time := vt_creation_time w,
        vt_total_entries := vt_total_entries w\<rparr>) (vt_entries w)"
proof -
  let ?v = "v\<lparr>vt_master_user := u, vt_creation_time := vt_creation_time w, vt_total_entries := vt_total_entries w\<rparr>"
  let ?p = "\<lparr>vp_vault = ?v, vp_current = EncryptedCredential_new, vp_in_entry = False\<rparr>"
  have "parse_lines L (vault_lines L w) \<lparr>vp_vault = v, vp_current = EncryptedCredential_new, vp_in_entry = False\<rparr>
    = parse_lines L (concat (map entry_lines (vt_entries w))) ?p"
    using assms(1) by (simp add: vault_lines_def parse_simps clean_fields_def stoi_int32)
  moreover have "save_entry L ?p = ?v" by (simp add: save_entry_def)
  ultimately show ?thesis using parse_entries [OF assms(2), of ?p] assms(1) by (simp add: clean_fields_def)
qed

lemma vault_lines_one_line:
  assumes "honest_engine L kf sealed u p" and "clean_fields u w" and "\<forall>e\<in>set (vt_entries w). good_entry L e"
  shows "\<forall>l\<in>set (vault_lines L w). one_line l"
proof -
  have "one_line l" if "l \<in> set (concat (map entry_lines (vt_entries w)))" for l
    using that assms(3) entry_lines_one_line by fastforce
  then show ?thesis using honestD(5,6) [OF assms(1)] assms(2)
    by (simp add: vault_lines_def clean_fields_def ball_Un del: set_concat set_map)
qed

lemma load_vault:
  assumes "honest_engine L kf sealed u p" and "kf (vt_engine v)" and "clean_fields u v" and "vc_readable call"
    and "file_holds L sealed u (vt_file v) es" and "om_inv es" and "\<forall>e\<in>set es. good_entry L e"
    and "vt_entries v = [] \<or> vt_entries v = es"
  shows "\<exists>v'. load_vault_from_file L call v = (True, v') \<and> kf (vt_engine v') \<and> clean_fields u v' \<and> vt_entries v' = es
    \<and> vt_file v' = vt_file v \<and> vt_authenticated v' = vt_authenticated v"
proof (cases "vt_file v")
  case None
  then show ?thesis using assms by (auto simp: load_vault_from_file_def file_holds_def)
next
  case (Some stored)
  then obtain c w where w: "stored = file_header @ c" "sealed (vault_text (vault_lines L w)) c" "vt_entries w = es" "clean_fields u w"
    using assms(5) by (auto simp: file_holds_def)
  have c: "encrypted_lines False (lines_of stored) = c" "c \<noteq> []"
    using honestD(4) [OF assms(1) w(2)] encrypted_lines_file w(1) by auto
  obtain e where e: "en_decrypt L c (vt_engine v) = (Some (vault_text (vault_lines L w)), e)" "kf e"
    using honestD(3) [OF assms(1,2) w(2)] by blast
  have ls: "lines_of (vault_text (vault_lines L w)) = vault_lines L w"
    using lines_of_vault_text [OF vault_lines_one_line [OF assms(1) w(4)], of "[]"] assms(7) w(3) by simp
  obtain q where q: "parse_lines L (vault_lines L w)
      \<lparr>vp_vault = v\<lparr>vt_engine := e\<rparr>, vp_current = EncryptedCredential_new, vp_in_entry = False\<rparr> = (True, q)"
    "save_entry L q = with_entries (v\<lparr>vt_engine := e, vt_master_user := u, vt_creation_time := vt_creation_time w,
      vt_total_entries := vt_total_entries w\<rparr>) (vt_entries w)"
    using parse_vault_lines [OF w(4), of L "v\<lparr>vt_engine := e\<rparr>"] assms(7) w(3) by auto
  have "load_vault_from_file L call v = (True, (save_entry L q)\<lparr>vt_loaded := True\<rparr>)"
    using Some assms(4) c e(1) q(1) by (simp add: load_vault_from_file_def ls)
  then show ?thesis
    using q(2) w(3,4) e(2) fold_assign_same [OF assms(6,8)] by (simp add: with_entries_def clean_fields_def)
qed

section \<open>Sessions of the owner\<close>

datatype vault_op =
    Authenticate | Store string string string string | Retrieve string | Remove string | Services | Close

datatype vault_answer = Done bool | Login "login option" | Names "string list"

definition vault_step ::
  "'e vault_libs \<Rightarrow> string \<Rightarrow> string \<Rightarrow> vault_call \<times> vault_op \<Rightarrow> 'e Vault \<Rightarrow> vault_answer \<times> 'e Vault" where
  "vault_step L u p e v =
     (case e of (call, op) \<Rightarrow>
      case op of
        Authenticate \<Rightarrow> (case authenticate_vault L call u p v of (ok, v) \<Rightarrow> (Done ok, v))
      | Store s x y z \<Rightarrow> (case store_credentials L call s x y z v of (ok, v) \<Rightarrow> (Done ok, v))
      | Retrieve s \<Rightarrow> (case retrieve_credentials L call s ([], [], []) v of (ok, out, v) \<Rightarrow> (Login (if ok then Some out else None), v))
      | Remove s \<Rightarrow> (case remove_credentials L call s v of (ok, v) \<Rightarrow> (Done ok, v))
      | Services \<Rightarrow> (Names (list_services v), v)
      | Close \<Rightarrow> (Done True, close_vault L call v))"

text \<open>The map, and whether it is open.\<close>

definition map_step :: "vault_call \<times> vault_op \<Rightarrow> bool \<times> (string \<rightharpoonup> login) \<Rightarrow> vault_answer \<times> bool \<times> (string \<rightharpoonup> login)" where
  "map_step e a =
     (case (e, a) of ((call, op), (opened, m)) \<Rightarrow>
      case op of
        Authenticate \<Rightarrow> (Done True, True, m)
      | Store s x y z \<Rightarrow> if opened then (Done True, True, m(s \<mapsto> (x, y, z))) else (Done False, False, m)
      | Retrieve s \<Rightarrow> (Login (if opened then m s else None), opened, m)
      | Remove s \<Rightarrow> if opened \<and> m s \<noteq> None then (Done True, True, m(s := None)) else (Done False, opened, m)
      | Services \<Rightarrow> (Names (if opened then sorted_list_of_set (dom m) else []), opened, m)
      | Close \<Rightarrow> (Done True, False, m))"

definition owner_op :: "vault_call \<times> vault_op \<Rightarrow> bool" where
  "owner_op e \<longleftrightarrow>
     (case e of (call, op) \<Rightarrow> vc_readable call \<and> vc_writable call \<and> one_line (vc_timestamp call)
        \<and> (case op of Store s x y z \<Rightarrow> s \<noteq> [] \<and> one_line s | _ \<Rightarrow> True))"

definition vault_rel ::
  "'e vault_libs \<Rightarrow> ('e \<Rightarrow> bool) \<Rightarrow> (string \<Rightarrow> string \<Rightarrow> bool) \<Rightarrow> string \<Rightarrow> string
    \<Rightarrow> 'e Vault \<Rightarrow> bool \<times> (string \<rightharpoonup> login) \<Rightarrow> bool" where
  "vault_rel L kf sealed u p v a \<longleftrightarrow>
     honest_engine L kf sealed u p
     \<and> (\<exists>es. file_holds L sealed u (vt_file v) es \<and> om_inv es \<and> (\<forall>e\<in>set es. good_entry L e) \<and> holds sealed es (snd a)
          \<and> vt_authenticated v = fst a
          \<and> (if fst a then kf (vt_engine v) \<and> clean_fields u v \<and> vt_entries v = es
             else vt_entries v = [] \<and> one_line (vt_creation_time v) \<and> int32 (vt_total_entries v)))"

lemma vault_relI:
  assumes "honest_engine L kf sealed u p" and "file_holds L sealed u (vt_file v) (vt_entries v)" and "om_inv (vt_entries v)"
    and "\<forall>e\<in>set (vt_entries v). good_entry L e" and "holds sealed (vt_entries v) m" and "vt_authenticated v"
    and "kf (vt_engine v)" and "clean_fields u v"
  shows "vault_rel L kf sealed u p v (True, m)"
  using assms by (auto simp: vault_rel_def)

lemma vault_relD:
  assumes "vault_rel L kf sealed u p v (True, m)"
  shows "honest_engine L kf sealed u p" and "file_holds L sealed u (vt_file v) (vt_entries v)" and "om_inv (vt_entries v)"
    and "\<forall>e\<in>set (vt_entries v). good_entry L e" and "holds sealed (vt_entries v) m" and "vt_authenticated v"
    and "kf (vt_engine v)" and "clean_fields u v"
  using assms by (auto simp: vault_rel_def)

lemma authenticate_rel:
  assumes "vault_rel L kf sealed u p v (opened, m)" and "owner_op (call, Authenticate)"
  shows "\<exists>v'. authenticate_vault L call u p v = (True, v') \<and> vault_rel L kf sealed u p v' (True, m)"
proof -
  obtain es where es: "honest_engine L kf sealed u p" "file_holds L sealed u (vt_file v) es" "om_inv es" "\<forall>e\<in>set es. good_entry L e"
    "holds sealed es m" "vt_entries v = [] \<or> vt_entries v = es" "one_line (vt_creation_time v)" "int32 (vt_total_entries v)"
    using assms(1) by (auto simp: vault_rel_def clean_fields_def split: if_splits)
  obtain e where e: "en_authenticate L u p (vt_engine v) = (True, e)" "kf e" using honestD(1) [OF es(1)] by blast
  let ?v = "v\<lparr>vt_engine := e, vt_authenticated := True, vt_master_user := u,
    vt_creation_time := (if vt_creation_time v = [] then vc_timestamp call else vt_creation_time v)\<rparr>"
  have "clean_fields u ?v" using es(7,8) assms(2) by (simp add: clean_fields_def owner_op_def)
  then obtain v' where v': "load_vault_from_file L call ?v = (True, v')" "kf (vt_engine v')" "clean_fields u v'" "vt_entries v' = es"
    "vt_file v' = vt_file v" "vt_authenticated v'"
    using load_vault [OF es(1), of ?v call es] es e(2) assms(2) by (auto simp: owner_op_def)
  then have "vault_rel L kf sealed u p v' (True, m)" using es by (intro vault_relI) auto
  then show ?thesis using e(1) v'(1) by (simp add: authenticate_vault_def)
qed

lemma saved_rel:
  assumes "honest_engine L kf sealed u p" and "om_inv (vt_entries v)" and "\<forall>e\<in>set (vt_entries v). good_entry L e"
    and "holds sealed (vt_entries v) m" and "vt_authenticated v" and "kf (vt_engine v)" and "clean_fields u v"
    and "vc_writable call"
  shows "\<exists>v'. save_vault_to_file L call v = (True, v') \<and> vault_rel L kf sealed u p v' (True, m)"
proof -
  obtain e f where "save_vault_to_file L call v = (True, v\<lparr>vt_engine := e, vt_file := f\<rparr>)" "kf e"
    "file_holds L sealed u f (vt_entries v)" using save_vault [OF assms(1,5,6,7,8)] by blast
  moreover from this have "vault_rel L kf sealed u p (v\<lparr>vt_engine := e, vt_file := f\<rparr>) (True, m)"
    using assms by (intro vault_relI) (auto simp: clean_fields_def)
  ultimately show ?thesis by blast
qed

lemma good_entries_assign:
  "\<forall>e\<in>set es. good_entry L e \<Longrightarrow> good_entry L (s, c) \<Longrightarrow> om_inv es \<Longrightarrow> \<forall>e\<in>set (om_assign s c es). good_entry L e"
  by (auto simp: om.entries_update split: if_splits)

lemma holds_assign:
  "holds sealed es m \<Longrightarrow> sealed x (ec_username c) \<Longrightarrow> sealed y (ec_password c) \<Longrightarrow> sealed z (ec_additional_data c)
    \<Longrightarrow> holds sealed (om_assign s c es) (m(s \<mapsto> (x, y, z)))"
  by (simp add: holds_def om_find_assign)

lemma holds_lookup: "holds sealed es m \<Longrightarrow> map_of es s = None \<longleftrightarrow> m s = None"
  using sealed_loginD by (fastforce simp: holds_def)

lemma encrypt_all_honest:
  assumes "honest_engine L kf sealed u p" and "kf e"
  shows "\<exists>a b c e'. encrypt_all L x y z e = (Some (a, b, c), e') \<and> kf e' \<and> sealed x a \<and> sealed y b \<and> sealed z c"
proof -
  obtain a e1 where 1: "en_encrypt L x e = (Some a, e1)" "kf e1" "sealed x a" using honestD(2) [OF assms] by blast
  obtain b e2 where 2: "en_encrypt L y e1 = (Some b, e2)" "kf e2" "sealed y b" using honestD(2) [OF assms(1) 1(2)] by blast
  obtain c e3 where 3: "en_encrypt L z e2 = (Some c, e3)" "kf e3" "sealed z c" using honestD(2) [OF assms(1) 2(2)] by blast
  show ?thesis using 1 2 3 by (simp add: encrypt_all_def)
qed

lemma decrypt_into_honest:
  assumes "honest_engine L kf sealed u p" and "kf e"
    and "sealed x (ec_username c)" "sealed y (ec_password c)" "sealed z (ec_additional_data c)"
  shows "\<exists>e'. decrypt_into L c out e = (True, (x, y, z), e') \<and> kf e'"
proof -
  obtain e1 where 1: "en_decrypt L (ec_username c) e = (Some x, e1)" "kf e1" using honestD(3) [OF assms(1,2,3)] by blast
  obtain e2 where 2: "en_decrypt L (ec_password c) e1 = (Some y, e2)" "kf e2" using honestD(3) [OF assms(1) 1(2) assms(4)] by blast
  obtain e3 where 3: "en_decrypt L (ec_additional_data c) e2 = (Some z, e3)" "kf e3"
    using honestD(3) [OF assms(1) 2(2) assms(5)] by blast
  show ?thesis using 1 2 3 by (simp add: decrypt_into_def split: prod.split)
qed

lemma store_rel:
  assumes "vault_rel L kf sealed u p v (True, m)" and "owner_op (call, Store s x y z)"
  shows "\<exists>v'. store_credentials L call s x y z v = (True, v') \<and> vault_rel L kf sealed u p v' (True, m(s \<mapsto> (x, y, z)))"
proof -
  note r = vault_relD [OF assms(1)]
  obtain a b c e where e: "encrypt_all L x y z (vt_engine v) = (Some (a, b, c), e)" "kf e" "sealed x a" "sealed y b" "sealed z c"
    using encrypt_all_honest [OF r(1,7)] by blast
  define cred where "cred = \<lparr>ec_service_name = s, ec_username = a, ec_password = b, ec_additional_data = c,
    ec_creation_time = vc_timestamp call, ec_last_access_time = vc_timestamp call, ec_access_count = 0,
    ec_salt_hash = ''yorkshire_champion_salt_hash'', ec_integrity_check = []\<rparr>"
  let ?c = "cred\<lparr>ec_integrity_check := generate_integrity_check L cred\<rparr>"
  let ?es = "om_assign s ?c (vt_entries v)"
  let ?v = "v\<lparr>vt_engine := e, vt_entries := ?es, vt_total_entries := to_int32 (int (length ?es))\<rparr>"
  have "one_line a" "one_line b" "one_line c" using honestD(4) [OF r(1)] e by blast+
  then have "good_entry L (s, ?c)"
    using assms(2)
    by (simp add: good_entry_def owner_op_def cred_def verify_integrity_def generate_integrity_check_def int32_def)
  then have "\<forall>e\<in>set ?es. good_entry L e" using good_entries_assign r(3,4) by blast
  moreover have "holds sealed ?es (m(s \<mapsto> (x, y, z)))" using r(5) e by (intro holds_assign) (simp_all add: cred_def)
  ultimately obtain v' where "save_vault_to_file L call ?v = (True, v')" "vault_rel L kf sealed u p v' (True, m(s \<mapsto> (x, y, z)))"
    using saved_rel [OF r(1), of ?v "m(s \<mapsto> (x, y, z))" call] r assms(2) e(2)
    by (auto simp: om_inv_assign owner_op_def clean_fields_def)
  then show ?thesis using r(6) e(1) by (simp add: store_credentials_def Let_def cred_def)
qed

lemma retrieve_rel:
  assumes "vault_rel L kf sealed u p v (True, m)" and "owner_op (call, Retrieve s)"
  shows "\<exists>ok out' v'. retrieve_credentials L call s out v = (ok, out', v') \<and> (if ok then Some out' else None) = m s
    \<and> vault_rel L kf sealed u p v' (True, m)"
proof (cases "map_of (vt_entries v) s")
  case None
  then have "m s = None" using holds_lookup [OF vault_relD(5) [OF assms(1)]] by simp
  then show ?thesis using None assms vault_relD(6) [OF assms(1)] by (auto simp: retrieve_credentials_def intro!: exI [of _ False])
next
  case (Some c)
  note r = vault_relD [OF assms(1)]
  obtain x y z where m: "m s = Some (x, y, z)" "sealed x (ec_username c)" "sealed y (ec_password c)" "sealed z (ec_additional_data c)"
    using r(5) Some holds_lookup [OF r(5), of s] unfolding holds_def
    by (cases "m s") (force dest: spec [of _ s])+
  obtain e where e: "decrypt_into L c out (vt_engine v) = (True, (x, y, z), e)" "kf e"
    using decrypt_into_honest [OF r(1,7) m(2-4)] by blast
  have g: "good_entry L (s, c)" using r(4) Some by (auto dest: map_of_SomeD)
  let ?c = "c\<lparr>ec_last_access_time := vc_timestamp call, ec_access_count := to_int32 (ec_access_count c + 1)\<rparr>"
  let ?es = "om_assign s ?c (vt_entries v)"
  let ?v = "v\<lparr>vt_engine := e, vt_entries := ?es\<rparr>"
  have "good_entry L (s, ?c)"
    using g assms(2) by (auto simp: good_entry_def owner_op_def verify_integrity_def generate_integrity_check_def)
  then have "\<forall>e\<in>set ?es. good_entry L e" using good_entries_assign r(3,4) by blast
  moreover have "holds sealed ?es m"
  proof -
    have "m(s \<mapsto> (x, y, z)) = m" using m(1) by auto
    moreover have "holds sealed ?es (m(s \<mapsto> (x, y, z)))" using r(5) m by (intro holds_assign) simp_all
    ultimately show ?thesis by simp
  qed
  ultimately obtain v' where "save_vault_to_file L call ?v = (True, v')" "vault_rel L kf sealed u p v' (True, m)"
    using saved_rel [OF r(1), of ?v m call] r assms(2) e(2) by (auto simp: om_inv_assign owner_op_def clean_fields_def)
  then show ?thesis using r(6) Some g m(1) e(1)
    by (auto simp: retrieve_credentials_def good_entry_def Let_def intro!: exI [of _ True])
qed

lemma remove_rel:
  assumes "vault_rel L kf sealed u p v (True, m)" and "owner_op (call, Remove s)"
  shows "\<exists>v'. remove_credentials L call s v = (m s \<noteq> None, v') \<and> vault_rel L kf sealed u p v' (True, m(s := None))"
proof -
  note r = vault_relD [OF assms(1)]
  have found: "map_of (vt_entries v) s = None \<longleftrightarrow> m s = None"
    by (rule holds_lookup [OF r(5)])
  show ?thesis
  proof (cases "m s = None")
    case True
    then have "m(s := None) = m" by auto
    then show ?thesis using True found r(6) assms(1) by (simp add: remove_credentials_def)
  next
    case False
    let ?es = "um_erase s (vt_entries v)"
    let ?v = "v\<lparr>vt_entries := ?es, vt_total_entries := to_int32 (int (length ?es))\<rparr>"
    have "\<forall>e\<in>set ?es. good_entry L e" "holds sealed ?es (m(s := None))"
      using r(4,5) by (auto simp: holds_def um_find_erase) (simp add: um_erase_def)
    then obtain v' where "save_vault_to_file L call ?v = (True, v')" "vault_rel L kf sealed u p v' (True, m(s := None))"
      using saved_rel [OF r(1), of ?v "m(s := None)" call] r assms(2) by (auto simp: om_inv_erase owner_op_def clean_fields_def)
    then show ?thesis using False found r(6) by (simp add: remove_credentials_def Let_def)
  qed
qed

lemma close_rel:
  assumes "vault_rel L kf sealed u p v (opened, m)" and "owner_op (call, Close)"
  shows "vault_rel L kf sealed u p (close_vault L call v) (False, m)"
proof (cases opened)
  case True
  then have r: "vault_rel L kf sealed u p v (True, m)" using assms(1) by simp
  obtain v' where "save_vault_to_file L call v = (True, v')" "vault_rel L kf sealed u p v' (True, m)"
    using saved_rel [OF vault_relD(1) [OF r], of v m call] vault_relD [OF r] assms(2) by (auto simp: owner_op_def)
  then show ?thesis using vault_relD(6) [OF r]
    by (auto simp: close_vault_def vault_rel_def clean_fields_def)
next
  case False
  then show ?thesis using assms(1) by (auto simp: close_vault_def vault_rel_def)
qed

lemma services_rel:
  assumes "vault_rel L kf sealed u p v (True, m)"
  shows "list_services v = sorted_list_of_set (dom m)"
proof -
  note r = vault_relD [OF assms]
  have "dom m = set (map fst (vt_entries v))"
    using holds_lookup [OF r(5)] by (auto simp: dom_def dom_map_of_conv_image_fst [symmetric])
  moreover have "sorted_list_of_set (set (map fst (vt_entries v))) = map fst (vt_entries v)"
    using r(3) om_inv_distinct [OF r(3)] by (intro sorted_list_of_set.idem_if_sorted_distinct) (simp_all add: strict_sorted_imp_sorted)
  ultimately show ?thesis using r(6) by (simp add: list_services_def)
qed

lemma vault_step_rel:
  assumes "vault_rel L kf sealed u p v a" and "owner_op e"
  shows "fst (vault_step L u p e v) = fst (map_step e a) \<and> vault_rel L kf sealed u p (snd (vault_step L u p e v)) (snd (map_step e a))"
proof -
  obtain call op where e: "e = (call, op)" by fastforce
  obtain opened m where a: "a = (opened, m)" by fastforce
  show ?thesis
  proof (cases opened)
    case True
    with assms a have r: "vault_rel L kf sealed u p v (True, m)" by simp
    show ?thesis
    proof (cases op)
      case Authenticate
      then show ?thesis using authenticate_rel [OF r, of call] assms(2) e a True by (auto simp: vault_step_def map_step_def)
    next
      case (Store s x y z)
      then show ?thesis using store_rel [OF r, of call s x y z] assms(2) e a True by (auto simp: vault_step_def map_step_def)
    next
      case (Retrieve s)
      then show ?thesis using retrieve_rel [OF r, of call s "([], [], [])"] assms(2) e a True
        by (auto simp: vault_step_def map_step_def)
    next
      case (Remove s)
      have "m(s := None) = m" if "m s = None" using that by auto
      then show ?thesis using Remove remove_rel [OF r, of call s] assms(2) e a True
        by (fastforce simp: vault_step_def map_step_def)
    next
      case Services
      then show ?thesis using services_rel [OF r] r e a True by (simp add: vault_step_def map_step_def)
    next
      case Close
      then show ?thesis using close_rel [OF r, of call] assms(2) e a True by (auto simp: vault_step_def map_step_def)
    qed
  next
    case False
    then have r: "\<not> vt_authenticated v" "vault_rel L kf sealed u p v (False, m)" using assms(1) a by (auto simp: vault_rel_def)
    show ?thesis
    proof (cases op)
      case Authenticate
      then show ?thesis using authenticate_rel [OF r(2), of call] assms(2) e a False by (auto simp: vault_step_def map_step_def)
    next
      case Close
      then show ?thesis using close_rel [OF r(2), of call] assms(2) e a False by (auto simp: vault_step_def map_step_def)
    qed (use r e a False in \<open>simp_all add: vault_step_def map_step_def store_credentials_def retrieve_credentials_def
        remove_credentials_def list_services_def\<close>)
  qed
qed

interpretation owner: simulation "vault_step L u p" map_step owner_op "vault_rel L kf sealed u p" for L u p kf sealed
  by unfold_locales (simp_all add: vault_step_rel)

lemma new_vault_rel:
  "honest_engine L kf sealed u p \<Longrightarrow> vault_initialize engine logger None = Some v
    \<Longrightarrow> vault_rel L kf sealed u p v (False, Map.empty)"
  by (auto simp: vault_initialize_def vault_rel_def file_holds_def holds_def int32_def split: option.splits if_splits)


text \<open>An engine that writes each byte as two letters, for the owner ''u'' with the password ''p''.\<close>

definition letters :: "char \<Rightarrow> string" where
  "letters c = [char_of (97 + code c div 16), char_of (97 + code c mod 16)]"

fun unletters :: "string \<Rightarrow> string" where
  "unletters (a # b # s) = char_of (16 * (code a - 97) + (code b - 97)) # unletters s"
| "unletters s = []"

definition letter_seal :: "string \<Rightarrow> string" where
  "letter_seal s = CHR ''x'' # concat (map letters s)"

definition letter_engine :: "bool vault_libs" where
  "letter_engine = \<lparr>en_authenticate = (\<lambda>u p e. if u = ''u'' \<and> p = ''p'' then (True, True) else (False, e)),
     en_encrypt = (\<lambda>s e. (if e then Some (letter_seal s) else None, e)),
     en_decrypt = (\<lambda>s e. (if e then Some (unletters (tl s)) else None, e)),
     en_logout = (\<lambda>e. False), std_hash = (\<lambda>s. of_nat (length s)), enigma_constant = ''0.315''\<rparr>"

lemma code_char_of: "n < 256 \<Longrightarrow> code (char_of n) = n"
  by (simp add: code_def)

lemma code_less: "code c < 256"
  by (simp add: code_def)

lemma unletters_letters: "unletters (concat (map letters s)) = s"
proof (induction s)
  case (Cons c s)
  have "code c div 16 < 16" using code_less [of c] by (simp add: less_mult_imp_div_less)
  then show ?case using Cons by (simp add: letters_def code_char_of) (simp add: code_def)
qed simp

lemma letters_one_line: "x \<in> set (letters c) \<Longrightarrow> 97 \<le> code x"
  using code_less [of c] by (auto simp: letters_def code_char_of less_mult_imp_div_less)

lemma letter_engine_honest: "honest_engine letter_engine (\<lambda>e. e) (\<lambda>d c. c = letter_seal d) ''u'' ''p''"
proof -
  have "97 \<le> code x" if "x \<in> set (letter_seal d)" for x d
    using that letters_one_line by (auto simp: letter_seal_def code_def)
  then have "nl \<notin> set (letter_seal d)" "CHR '':'' \<notin> set (letter_seal d)" for d
    by (fastforce simp: code_def)+
  then show ?thesis
    by (auto simp: honest_engine_def letter_engine_def one_line_def) (auto simp: letter_seal_def unletters_letters)
qed


section \<open>Where it is not a map\<close>

abbreviation at_noon :: vault_call where
  "at_noon \<equiv> \<lparr>vc_timestamp = ''noon'', vc_readable = True, vc_writable = True\<rparr>"

text \<open>A vault that cannot be read is taken for a new one, and written over when it is closed.\<close>

lemma unreadable_vault_is_replaced:
  "let v = the (vault_initialize (Some False) True (Some ''damaged''));
       (ok, v) = authenticate_vault letter_engine at_noon ''u'' ''p'' v
   in ok \<and> vt_file v = Some ''damaged'' \<and> vt_file (close_vault letter_engine at_noon v) \<noteq> Some ''damaged''"
  by code_simp

text \<open>The check covers neither the additional data nor where one field ends and the next begins.\<close>

lemma integrity_ignores_additional_data: "verify_integrity L (c\<lparr>ec_additional_data := x\<rparr>) = verify_integrity L c"
  by (simp add: verify_integrity_def generate_integrity_check_def)

lemma integrity_ignores_field_ends:
  "verify_integrity L (c\<lparr>ec_username := x @ y, ec_password := z\<rparr>) = verify_integrity L (c\<lparr>ec_username := x, ec_password := y @ z\<rparr>)"
  by (simp add: verify_integrity_def generate_integrity_check_def)

text \<open>An entry without a name is passed over, and of a name of two lines the first is read.\<close>

lemma unnamed_service_is_lost:
  assumes "int32 (ec_access_count c)" and "ec_service_name c = []"
  shows "\<exists>q. parse_lines L (entry_lines ([], c)) p = (True, q) \<and> save_entry L q = save_entry L p"
  using assms by (simp add: entry_lines_def parse_simps stoi_int32) (simp add: save_entry_def EncryptedCredential_new_def)

lemma two_line_service_is_cut:
  assumes "one_line s"
  shows "\<exists>q. parse_lines L (lines_of (vault_text [''SERVICE_NAME='' @ s @ nl # ''b''])) p = (True, q)
    \<and> ec_service_name (vp_current q) = s"
  using assms by (simp add: vault_text_def getlines_line parse_simps)

text \<open>A login whose saving failed is refused and kept.\<close>

lemma refused_login_is_kept:
  assumes "vt_authenticated v" and "encrypt_all L x y z (vt_engine v) = (Some abc, e)" and "\<not> vc_writable call"
  shows "\<not> fst (store_credentials L call s x y z v) \<and> s \<in> set (list_services (snd (store_credentials L call s x y z v)))"
  using assms om_keys_assign [of s _ "vt_entries v"]
  by (cases abc) (auto simp: store_credentials_def save_vault_to_file_def list_services_def Let_def split: prod.split option.split)

end
