(* ===== verification/Credential_Manager.thy ===== *)
theory Credential_Manager
  imports Vault_Session
begin

text \<open>
  The credential manager of \<open>medusa_credential_manager.hpp\<close>: its two sources of credentials, the vault
  and the environment, and class \<open>NoHardcodedValuesCredentialManager\<close>. What every source promises is the
  locale \<open>credential_source\<close>, which the sources of the code are an interpretation of. A call through
  the logger before \<open>Initialize\<close> has set it is undefined.
\<close>

section \<open>Credentials\<close>

record SecureCredential =
  sc_service_identifier :: string
  sc_description :: string
  sc_credential_type :: string
  sc_is_required :: bool
  sc_is_sensitive :: bool
  sc_default_source :: string
  sc_username :: string
  sc_password :: string
  sc_additional_data :: string
  sc_last_loaded_time :: string
  sc_source_used :: string
  sc_is_loaded :: bool
  sc_load_successful :: bool

definition SecureCredential_new :: "string \<Rightarrow> string \<Rightarrow> string \<Rightarrow> bool \<Rightarrow> bool \<Rightarrow> string \<Rightarrow> SecureCredential" where
  "SecureCredential_new identifier description ty required sensitive source =
     \<lparr>sc_service_identifier = identifier, sc_description = description, sc_credential_type = ty, sc_is_required = required,
      sc_is_sensitive = sensitive, sc_default_source = source, sc_username = [], sc_password = [], sc_additional_data = [],
      sc_last_loaded_time = [], sc_source_used = [], sc_is_loaded = False, sc_load_successful = False\<rparr>"

definition sc_login :: "SecureCredential \<Rightarrow> login" where
  "sc_login c = (sc_username c, sc_password c, sc_additional_data c)"

section \<open>Sources\<close>

text \<open>A vault source may have been given no vault. Each call has the clock of the vault and its own.\<close>

datatype 'e Source = Vault_source "'e Vault option" | Environment_source

record source_call =
  so_call :: vault_call
  so_time :: string

definition toupper :: "char \<Rightarrow> char" where
  "toupper c = (if 97 \<le> code c \<and> code c \<le> 122 then char_of (code c - 32) else c)"

definition get_env_var :: "(string \<Rightarrow> string option) \<Rightarrow> string \<Rightarrow> string \<Rightarrow> string" where
  "get_env_var env service suffix =
     (case env (map toupper (''MEDUSA_'' @ service @ suffix)) of Some s \<Rightarrow> s | None \<Rightarrow> [])"

fun get_source_name :: "'e Source \<Rightarrow> string" where
  "get_source_name (Vault_source v) = ''Yorkshire Encryption Vault''"
| "get_source_name Environment_source = ''Environment Variables''"

fun can_load_credential :: "(string \<Rightarrow> string option) \<Rightarrow> 'e Source \<Rightarrow> string \<Rightarrow> bool" where
  "can_load_credential env (Vault_source None) service \<longleftrightarrow> False"
| "can_load_credential env (Vault_source (Some v)) service \<longleftrightarrow> service \<in> set (list_services v)"
| "can_load_credential env Environment_source service \<longleftrightarrow>
     get_env_var env service ''_USERNAME'' \<noteq> [] \<and> get_env_var env service ''_PASSWORD'' \<noteq> []"

text \<open>The login a source has, and what it writes into the credential.\<close>

fun source_login ::
  "'e vault_libs \<Rightarrow> (string \<Rightarrow> string option) \<Rightarrow> vault_call \<Rightarrow> string \<Rightarrow> 'e Source \<Rightarrow> login option \<times> 'e Source" where
  "source_login L env call service (Vault_source None) = (None, Vault_source None)"
| "source_login L env call service (Vault_source (Some v)) =
     (case retrieve_credentials L call service ([], [], []) v of
        (ok, out, v') \<Rightarrow> (if ok then Some out else None, Vault_source (Some v')))"
| "source_login L env call service Environment_source =
     (let u = get_env_var env service ''_USERNAME''; p = get_env_var env service ''_PASSWORD'' in
      (if u = [] \<or> p = [] then None else Some (u, p, get_env_var env service ''_ADDITIONAL''), Environment_source))"

definition source_load ::
  "'e vault_libs \<Rightarrow> (string \<Rightarrow> string option) \<Rightarrow> source_call \<Rightarrow> string \<Rightarrow> 'e Source \<Rightarrow> SecureCredential
    \<Rightarrow> (SecureCredential option) \<times> 'e Source" where
  "source_load L env call service s c =
     (case source_login L env (so_call call) service s of
        (None, s') \<Rightarrow> (None, s')
      | (Some (u, p, a), s') \<Rightarrow>
          (Some (c\<lparr>sc_username := u, sc_password := p, sc_additional_data := a, sc_is_loaded := True,
             sc_load_successful := True, sc_source_used := get_source_name s, sc_last_loaded_time := so_time call\<rparr>), s'))"

fun source_store :: "'e vault_libs \<Rightarrow> vault_call \<Rightarrow> string \<Rightarrow> login \<Rightarrow> 'e Source \<Rightarrow> bool \<times> 'e Source" where
  "source_store L call service l (Vault_source None) = (False, Vault_source None)"
| "source_store L call service l (Vault_source (Some v)) =
     (case l of (u, p, a) \<Rightarrow>
      case store_credentials L call service u p a v of (ok, v') \<Rightarrow> (ok, Vault_source (Some v')))"
| "source_store L call service l Environment_source = (False, Environment_source)"

section \<open>The manager\<close>

record 'e Manager =
  mg_definitions :: "(string, SecureCredential) omap"
  mg_sources :: "'e Source list"
  mg_initialized :: bool
  mg_authenticated :: bool

definition Manager_new :: "'e Manager" where
  "Manager_new = \<lparr>mg_definitions = [], mg_sources = [], mg_initialized = False, mg_authenticated = False\<rparr>"

definition logging :: "'e Manager \<Rightarrow> 'a \<Rightarrow> 'a outcome" where
  "logging m x = (if mg_initialized m then Returns x else Undefined ''logger'')"

definition system_credentials :: "SecureCredential list" where
  "system_credentials = map (\<lambda>(k, d, r). SecureCredential_new k d ''username_password'' r True ''vault'')
     [(''medusa_database'', ''PostgreSQL database connection credentials'', True),
      (''nas_access'', ''Network Attached Storage access credentials'', True),
      (''backend_server'', ''Backend server access credentials'', True),
      (''frontend_server'', ''Frontend server access credentials'', True),
      (''devlab_server'', ''Developer lab server access credentials'', False)]"

definition define_all :: "SecureCredential list \<Rightarrow> 'e Manager \<Rightarrow> 'e Manager" where
  "define_all cs m = m\<lparr>mg_definitions := fold (\<lambda>c. om_assign (sc_service_identifier c) c) cs (mg_definitions m)\<rparr>"

definition manager_initialize :: "bool \<Rightarrow> bool \<Rightarrow> bool \<Rightarrow> 'e Manager \<Rightarrow> bool \<times> 'e Manager" where
  "manager_initialize logger config messaging m =
     (if logger \<and> config \<and> messaging then (True, (define_all system_credentials m)\<lparr>mg_initialized := True\<rparr>) else (False, m))"

definition add_credential_source :: "'e Source option \<Rightarrow> 'e Manager \<Rightarrow> 'e Manager outcome" where
  "add_credential_source source m =
     (case source of Some s \<Rightarrow> logging m (m\<lparr>mg_sources := mg_sources m @ [s]\<rparr>) | None \<Rightarrow> Returns m)"

definition authenticate_manager :: "string \<Rightarrow> string \<Rightarrow> 'e Manager \<Rightarrow> (bool \<times> 'e Manager) outcome" where
  "authenticate_manager master_username master_password m =
     logging m (if list_ex (\<lambda>s. contains (get_source_name s) ''Vault'') (mg_sources m)
       then (True, m\<lparr>mg_authenticated := True\<rparr>) else (False, m))"

definition define_credential ::
  "string \<Rightarrow> string \<Rightarrow> string \<Rightarrow> bool \<Rightarrow> string \<Rightarrow> 'e Manager \<Rightarrow> (bool \<times> 'e Manager) outcome" where
  "define_credential service description ty required source m =
     logging m (True, define_all [SecureCredential_new service description ty required True source] m)"

text \<open>The loops over the sources: each is tried and kept as it is then, until one succeeds.\<close>

fun try_sources :: "('s \<Rightarrow> bool) \<Rightarrow> ('s \<Rightarrow> 'r option \<times> 's) \<Rightarrow> 's list \<Rightarrow> 'r option \<times> 's list" where
  "try_sources P f [] = (None, [])"
| "try_sources P f (s # ss) =
     (if P s then
        (case f s of
           (Some r, s') \<Rightarrow> (Some r, s' # ss)
         | (None, s') \<Rightarrow> (case try_sources P f ss of (r, ss') \<Rightarrow> (r, s' # ss')))
      else (case try_sources P f ss of (r, ss') \<Rightarrow> (r, s # ss')))"

definition load_credential ::
  "'e vault_libs \<Rightarrow> (string \<Rightarrow> string option) \<Rightarrow> source_call \<Rightarrow> string \<Rightarrow> 'e Manager \<Rightarrow> (bool \<times> 'e Manager) outcome" where
  "load_credential L env call service m =
     (if \<not> mg_initialized m then Undefined ''logger''
      else case map_of (mg_definitions m) service of
          None \<Rightarrow> Returns (False, m)
        | Some c \<Rightarrow>
            case try_sources (\<lambda>s. can_load_credential env s service) (\<lambda>s. source_load L env call service s c) (mg_sources m) of
              (None, ss) \<Rightarrow> Returns (False, m\<lparr>mg_sources := ss\<rparr>)
            | (Some c', ss) \<Rightarrow>
                Returns (True, m\<lparr>mg_sources := ss, mg_definitions := om_assign service c' (mg_definitions m)\<rparr>))"

definition get_credential :: "string \<Rightarrow> 'e Manager \<Rightarrow> SecureCredential option" where
  "get_credential service m =
     (case map_of (mg_definitions m) service of Some c \<Rightarrow> if sc_is_loaded c then Some c else None | None \<Rightarrow> None)"

definition store_credential ::
  "'e vault_libs \<Rightarrow> source_call \<Rightarrow> string \<Rightarrow> string \<Rightarrow> string \<Rightarrow> string \<Rightarrow> 'e Manager \<Rightarrow> (bool \<times> 'e Manager) outcome" where
  "store_credential L call service username password additional m =
     (if \<not> mg_authenticated m then logging m (False, m)
      else
        let c = (case map_of (mg_definitions m) service of
                   Some c \<Rightarrow> c
                 | None \<Rightarrow> SecureCredential_new service ''Runtime defined credential'' ''username_password'' False True []);
            c = c\<lparr>sc_username := username, sc_password := password, sc_additional_data := additional\<rparr>
        in case try_sources (\<lambda>s. True)
             (\<lambda>s. case source_store L (so_call call) service (sc_login c) s of (ok, s') \<Rightarrow> (if ok then Some () else None, s'))
             (mg_sources m) of
            (None, ss) \<Rightarrow> logging m (False, m\<lparr>mg_sources := ss\<rparr>)
          | (Some _, ss) \<Rightarrow>
              logging m (True, m\<lparr>mg_sources := ss, mg_definitions := om_assign service c (mg_definitions m)\<rparr>))"

definition list_credential_definitions :: "'e Manager \<Rightarrow> string list" where
  "list_credential_definitions m = map fst (mg_definitions m)"

text \<open>The status of a service that is not defined has no other field set.\<close>

definition get_credential_status ::
  "string \<Rightarrow> 'e Manager \<Rightarrow> (string \<times> bool \<times> bool \<times> string \<times> string \<times> bool) option" where
  "get_credential_status service m =
     (case map_of (mg_definitions m) service of
        None \<Rightarrow> None
      | Some c \<Rightarrow> Some (sc_description c, sc_is_loaded c, sc_load_successful c, sc_source_used c, sc_last_loaded_time c, sc_is_required c))"

definition validate_required_credentials :: "'e Manager \<Rightarrow> bool outcome" where
  "validate_required_credentials m =
     (if list_ex (\<lambda>(k, c). sc_is_required c \<and> \<not> sc_is_loaded c) (mg_definitions m) then logging m False else Returns True)"

definition wiped :: "SecureCredential \<Rightarrow> SecureCredential" where
  "wiped c =
     (if sc_is_loaded c
      then c\<lparr>sc_username := map (\<lambda>_. NUL) (sc_username c), sc_password := map (\<lambda>_. NUL) (sc_password c),
             sc_additional_data := map (\<lambda>_. NUL) (sc_additional_data c), sc_is_loaded := False, sc_load_successful := False\<rparr>
      else c)"

definition shutdown_manager :: "'e Manager \<Rightarrow> 'e Manager outcome" where
  "shutdown_manager m =
     logging m (m\<lparr>mg_definitions := map (\<lambda>(k, c). (k, wiped c)) (mg_definitions m), mg_sources := [], mg_authenticated := False\<rparr>)"

definition destroy_credential_manager :: "'e Manager option \<Rightarrow> unit outcome" where
  "destroy_credential_manager manager =
     (case manager of Some m \<Rightarrow> outcome_bind (shutdown_manager m) (\<lambda>_. Returns ()) | None \<Rightarrow> Returns ())"

end
