(* ===== verification/Credential_Sources.thy ===== *)
theory Credential_Sources
  imports Credential_Manager
begin

text \<open>
  What the sources of the credential manager promise, and that a credential stored through the manager
  is the one it loads.
\<close>

section \<open>The interface of a source\<close>

locale credential_source =
  fixes can_load :: "'s \<Rightarrow> string \<Rightarrow> bool"
    and load :: "'c \<Rightarrow> string \<Rightarrow> 's \<Rightarrow> 'l option \<times> 's"
    and store :: "'c \<Rightarrow> string \<Rightarrow> 'l \<Rightarrow> 's \<Rightarrow> bool \<times> 's"
    and ok :: "'c \<Rightarrow> bool" and name :: "string \<Rightarrow> bool" and inv :: "'s \<Rightarrow> bool"
  assumes can_load: "inv s \<Longrightarrow> ok c \<Longrightarrow> can_load s k \<longleftrightarrow> fst (load c k s) \<noteq> None"
    and load_keeps: "inv s \<Longrightarrow> ok c \<Longrightarrow> ok c' \<Longrightarrow> fst (load c' k' (snd (load c k s))) = fst (load c' k' s)"
    and inv_load: "inv s \<Longrightarrow> ok c \<Longrightarrow> inv (snd (load c k s))"
    and inv_store: "inv s \<Longrightarrow> ok c \<Longrightarrow> name k \<Longrightarrow> inv (snd (store c k l s))"
    and load_store: "inv s \<Longrightarrow> ok c \<Longrightarrow> ok c' \<Longrightarrow> name k \<Longrightarrow> fst (load c' k' (snd (store c k l s)))
      = (if fst (store c k l s) \<and> k' = k then Some l else fst (load c' k' s))"
begin

definition first_offer :: "'c \<Rightarrow> string \<Rightarrow> 's list \<Rightarrow> 'l option" where
  "first_offer c k ss = (case filter (\<lambda>s. fst (load c k s) \<noteq> None) ss of [] \<Rightarrow> None | s # r \<Rightarrow> fst (load c k s))"

lemma try_load:
  "\<forall>s\<in>set ss. inv s \<Longrightarrow> ok c \<Longrightarrow> fst (try_sources (\<lambda>s. can_load s k) (load c k) ss) = first_offer c k ss"
  by (induction ss) (auto simp: first_offer_def can_load split: prod.split option.split)

lemma inv_try_load:
  "\<forall>s\<in>set ss. inv s \<Longrightarrow> ok c \<Longrightarrow> \<forall>s\<in>set (snd (try_sources P (load c k) ss)). inv s"
proof (induction ss)
  case (Cons s ss)
  then show ?case using inv_load [of s c k] by (auto split: prod.split option.split)
qed simp

lemma first_offer_after_store:
  assumes "\<forall>s\<in>set ss. inv s" and "ok c" and "ok c'" and "name k"
    and "\<forall>s\<in>set ss. fst (store c k l s) \<or> fst (load c' k s) = None"
    and "try_sources (\<lambda>s. True) (\<lambda>s. case store c k l s of (d, s') \<Rightarrow> (if d then Some () else None, s')) ss = (Some r, ss')"
  shows "first_offer c' k ss' = Some l \<and> (\<forall>s\<in>set ss'. inv s)"
  using assms
proof (induction ss arbitrary: ss')
  case (Cons s ss)
  obtain d s' where s: "store c k l s = (d, s')" by fastforce
  have i: "inv s'" using inv_store [of s c k l] Cons.prems s by simp
  have f: "fst (load c' k s') = (if d then Some l else fst (load c' k s))"
    using load_store [of s c c' k k l] Cons.prems s by simp
  show ?case
  proof (cases d)
    case True
    then show ?thesis using Cons.prems s i f by (auto simp: first_offer_def)
  next
    case False
    then obtain ss'' where t: "try_sources (\<lambda>s. True) (\<lambda>s. case store c k l s of (d, s') \<Rightarrow> (if d then Some () else None, s')) ss = (Some r, ss'')"
      "ss' = s' # ss''" using Cons.prems(6) s by (auto split: prod.splits)
    then have "first_offer c' k ss'' = Some l \<and> (\<forall>s\<in>set ss''. inv s)" using Cons.IH Cons.prems by auto
    then show ?thesis using t(2) i f s Cons.prems(5) False by (auto simp: first_offer_def)
  qed
qed simp

end

section \<open>The sources of the code\<close>

definition source_inv ::
  "'e vault_libs \<Rightarrow> ('e \<Rightarrow> bool) \<Rightarrow> (string \<Rightarrow> string \<Rightarrow> bool) \<Rightarrow> string \<Rightarrow> string \<Rightarrow> 'e Source \<Rightarrow> bool" where
  "source_inv L kf sealed u p s \<longleftrightarrow>
     (case s of Vault_source (Some v) \<Rightarrow> \<exists>a. vault_rel L kf sealed u p v a | _ \<Rightarrow> True)"

definition good_call :: "vault_call \<Rightarrow> bool" where
  "good_call c \<longleftrightarrow> vc_readable c \<and> vc_writable c \<and> one_line (vc_timestamp c)"

definition service_name :: "string \<Rightarrow> bool" where
  "service_name k \<longleftrightarrow> k \<noteq> [] \<and> one_line k"

lemma vault_login:
  assumes "vault_rel L kf sealed u p v (opened, m)" and "good_call c"
  shows "\<exists>v'. source_login L env c k (Vault_source (Some v)) = (if opened then m k else None, Vault_source (Some v'))
    \<and> vault_rel L kf sealed u p v' (opened, m)"
proof (cases opened)
  case True
  then show ?thesis using retrieve_rel [of L kf sealed u p v m c k "([], [], [])"] assms
    by (auto simp: owner_op_def good_call_def)
next
  case False
  then have "\<not> vt_authenticated v" using assms(1) by (auto simp: vault_rel_def)
  then show ?thesis using False assms(1) by (simp add: retrieve_credentials_def)
qed

lemma vault_store:
  assumes "vault_rel L kf sealed u p v (opened, m)" and "good_call c" and "service_name k"
  shows "\<exists>v'. source_store L c k l (Vault_source (Some v)) = (opened, Vault_source (Some v'))
    \<and> vault_rel L kf sealed u p v' (opened, if opened then m(k \<mapsto> l) else m)"
proof (cases opened)
  case True
  obtain x y z where l: "l = (x, y, z)" by (cases l)
  show ?thesis using store_rel [of L kf sealed u p v m c k x y z] assms True
    by (auto simp: l owner_op_def good_call_def service_name_def)
next
  case False
  then have "\<not> vt_authenticated v" using assms(1) by (auto simp: vault_rel_def)
  then show ?thesis using False assms(1) by (cases l) (simp add: store_credentials_def)
qed

lemma vault_can_load:
  assumes "vault_rel L kf sealed u p v (opened, m)"
  shows "can_load_credential env (Vault_source (Some v)) k \<longleftrightarrow> opened \<and> m k \<noteq> None"
proof (cases opened)
  case True
  then have r: "vault_rel L kf sealed u p v (True, m)" using assms by simp
  then have "set (list_services v) = dom (map_of (vt_entries v))"
    using vault_relD(6) [OF r] by (simp add: list_services_def dom_map_of_conv_image_fst)
  then show ?thesis using True holds_lookup [OF vault_relD(5) [OF r], of k] by (auto simp: domIff)
next
  case False
  then have "\<not> vt_authenticated v" using assms(1) by (auto simp: vault_rel_def)
  then show ?thesis using False by (simp add: list_services_def)
qed

interpretation code_source: credential_source "can_load_credential env" "source_login L env" "source_store L"
    good_call service_name "source_inv L kf sealed u p" for L env kf sealed u p
proof (unfold_locales, goal_cases)
  case (1 s c k)
  show ?case
  proof (cases s)
    case (Vault_source w)
    show ?thesis
    proof (cases w)
      case (Some v)
      then obtain opened m where r: "vault_rel L kf sealed u p v (opened, m)" using 1(1) Vault_source by (auto simp: source_inv_def)
      obtain v' where "source_login L env c k (Vault_source (Some v)) = (if opened then m k else None, Vault_source (Some v'))"
        using vault_login [OF r 1(2)] by blast
      then show ?thesis unfolding Vault_source Some vault_can_load [OF r, of env k] by (cases opened) simp_all
    qed (simp add: Vault_source)
  qed (simp add: Let_def)
next
  case (2 s c c' k' k)
  show ?case
  proof (cases s)
    case (Vault_source w)
    show ?thesis
    proof (cases w)
      case (Some v)
      then obtain opened m where r: "vault_rel L kf sealed u p v (opened, m)" using 2(1) Vault_source by (auto simp: source_inv_def)
      obtain v' where v': "source_login L env c k (Vault_source (Some v)) = (if opened then m k else None, Vault_source (Some v'))"
        "vault_rel L kf sealed u p v' (opened, m)" using vault_login [OF r 2(2)] by blast
      show ?thesis unfolding Vault_source Some v'(1) snd_conv
        using vault_login [OF r 2(3), of env k'] vault_login [OF v'(2) 2(3), of env k'] by auto
    qed (simp add: Vault_source)
  qed (simp add: Let_def)
next
  case (3 s c k)
  show ?case
  proof (cases s)
    case (Vault_source w)
    show ?thesis
    proof (cases w)
      case (Some v)
      then show ?thesis using 3 Vault_source vault_login [of L kf sealed u p v _ _ c env k] by (fastforce simp: source_inv_def)
    qed (simp add: Vault_source source_inv_def)
  qed (simp add: Let_def source_inv_def)
next
  case (4 s c k l)
  show ?case
  proof (cases s)
    case (Vault_source w)
    show ?thesis
    proof (cases w)
      case (Some v)
      then show ?thesis using 4 Vault_source vault_store [of L kf sealed u p v _ _ c k l] by (fastforce simp: source_inv_def)
    qed (simp add: Vault_source source_inv_def)
  qed (simp add: source_inv_def)
next
  case (5 s c c' k k' l)
  show ?case
  proof (cases s)
    case (Vault_source w)
    show ?thesis
    proof (cases w)
      case (Some v)
      then obtain opened m where r: "vault_rel L kf sealed u p v (opened, m)" using 5(1) Vault_source by (auto simp: source_inv_def)
      obtain v' where v': "source_store L c k l (Vault_source (Some v)) = (opened, Vault_source (Some v'))"
        "vault_rel L kf sealed u p v' (opened, if opened then m(k \<mapsto> l) else m)" using vault_store [OF r 5(2,4)] by blast
      show ?thesis unfolding Vault_source Some v'(1) fst_conv snd_conv
        using vault_login [OF r 5(3), of env k'] vault_login [OF v'(2) 5(3), of env k'] by auto
    qed (simp add: Vault_source)
  qed (simp add: Let_def)
qed

section \<open>Stored credentials are loaded\<close>

lemma source_load_login:
  "fst (source_load L env call k s c) = map_option (\<lambda>(u, p, a). c\<lparr>sc_username := u, sc_password := p, sc_additional_data := a,
     sc_is_loaded := True, sc_load_successful := True, sc_source_used := get_source_name s, sc_last_loaded_time := so_time call\<rparr>)
     (fst (source_login L env (so_call call) k s))"
  by (auto simp: source_load_def split: prod.split option.split)

text \<open>Trying the sources for a credential is trying them for a login.\<close>

lemma try_source_load:
  "map_option sc_login (fst (try_sources P (\<lambda>s. source_load L env call k s c) ss))
     = fst (try_sources P (source_login L env (so_call call) k) ss)
   \<and> (\<forall>c'. fst (try_sources P (\<lambda>s. source_load L env call k s c) ss) = Some c' \<longrightarrow> sc_is_loaded c')"
  by (induction ss) (auto simp: source_load_def sc_login_def split: prod.splits option.splits)

lemma refusing_source:
  fixes L :: "'e vault_libs" and s :: "'e Source"
  assumes "source_inv L kf sealed u p s" and "good_call c" and "good_call c'" and "service_name k"
    and "\<not> can_load_credential env (Environment_source :: 'e Source) k"
  shows "fst (source_store L c k l s) \<or> fst (source_login L env c' k s) = None"
proof (cases s)
  case (Vault_source w)
  show ?thesis
  proof (cases w)
    case (Some v)
    then obtain opened m where r: "vault_rel L kf sealed u p v (opened, m)" using assms(1) Vault_source by (auto simp: source_inv_def)
    show ?thesis unfolding Vault_source Some
      using vault_store [OF r assms(2,4), of l] vault_login [OF r assms(3), of env k] by (cases opened) auto
  qed (simp add: Vault_source)
qed (use assms(5) in \<open>auto simp: Let_def\<close>)


definition sample_vault :: "bool Vault" where
  "sample_vault = snd (authenticate_vault letter_engine at_noon ''u'' ''p'' (the (vault_initialize (Some False) True None)))"

definition sample_manager :: "bool Manager" where
  "sample_manager = \<lparr>mg_definitions = [], mg_sources = [Vault_source None, Environment_source, Vault_source (Some sample_vault)],
     mg_initialized = True, mg_authenticated = True\<rparr>"

lemma sample_vault_rel:
  "vault_rel letter_engine (\<lambda>e. e) (\<lambda>d c. c = letter_seal d) ''u'' ''p'' sample_vault (True, Map.empty)"
proof -
  obtain v where v: "vault_initialize (Some False) True None = Some v" by (simp add: vault_initialize_def)
  have "owner_op (at_noon, Authenticate)" by (simp add: owner_op_def)
  then show ?thesis using authenticate_rel [OF new_vault_rel [OF letter_engine_honest v]] v by (fastforce simp: sample_vault_def)
qed


section \<open>What the manager does not do\<close>

text \<open>Its authentication looks at neither name nor password.\<close>

lemma anyone_is_authenticated:
  "mg_initialized m \<Longrightarrow> Vault_source w \<in> set (mg_sources m) \<Longrightarrow>
    authenticate_manager master_username master_password m = Returns (True, m\<lparr>mg_authenticated := True\<rparr>)"
proof -
  have "contains ''Yorkshire Encryption Vault'' ''Vault''" by code_simp
  moreover assume "mg_initialized m" "Vault_source w \<in> set (mg_sources m)"
  ultimately show ?thesis by (force simp: authenticate_manager_def logging_def list_ex_iff)
qed

text \<open>A credential that was stored and not loaded keeps its password over the shutdown.\<close>

lemma stored_password_is_not_wiped:
  assumes "store_credential L c k x y z m = Returns (True, m')" and "get_credential k m = None" and "shutdown_manager m' = Returns m''"
  shows "\<exists>d. map_of (mg_definitions m'') k = Some d \<and> sc_password d = y"
proof -
  have keys: "map_of (map (\<lambda>(k, c). (k, wiped c)) es) k = map_option wiped (map_of es k)" for es
    by (induction es) auto
  obtain d where "map_of (mg_definitions m') k = Some d" "sc_password d = y" "\<not> sc_is_loaded d"
    using assms(1,2)
    by (auto simp: store_credential_def logging_def Let_def om_find_assign get_credential_def SecureCredential_new_def
        split: if_splits option.splits prod.splits)
  moreover from this have "wiped d = d" by (simp add: wiped_def)
  ultimately show ?thesis using assms(3) by (auto simp: shutdown_manager_def logging_def keys split: if_splits)
qed

lemma destroying_a_new_manager_is_undefined: "destroy_credential_manager (Some Manager_new) = Undefined ''logger''"
  by (simp add: destroy_credential_manager_def shutdown_manager_def logging_def Manager_new_def)

end
