(* ===== verification/Pathing_Engine.thy ===== *)
theory Pathing_Engine
  imports Std_Containers
begin

text \<open>
  The pathing engine of \<open>Lamia-Libs/src/MEDUSASERV_PATHING_ENGINE.cpp\<close>: path resolution with its cache,
  index files, MIME types and the routes. The state is the three globals and the heap the returned
  character arrays live in, by address, each with what allocated it; freeing what is not a live array of
  \<open>new[]\<close>, and \<open>front\<close> or \<open>back\<close> of an empty string, set the flag \<open>pg_undefined\<close>. Which files exist is a parameter,
  a null pointer is None. The progress messages, and the start-up procedures that only print, are left out.
\<close>

section \<open>Lexical normal form\<close>

text \<open>\<open>std::filesystem::path::lexically_normal\<close> on POSIX: the components between slashes, without empty ones.\<close>

fun path_parts :: "string \<Rightarrow> string \<Rightarrow> string list" where
  "path_parts cur [] = (if cur = [] then [] else [cur])"
| "path_parts cur (c # s) =
     (if c = CHR ''/'' then (if cur = [] then [] else [cur]) @ path_parts [] s else path_parts (cur @ [c]) s)"

fun normal_parts :: "bool \<Rightarrow> string list \<Rightarrow> string list \<Rightarrow> string list" where
  "normal_parts rooted st [] = rev st"
| "normal_parts rooted st (c # cs) =
     (if c = ''.'' then normal_parts rooted st cs
      else if c = ''..'' then
        (case st of
           [] \<Rightarrow> normal_parts rooted (if rooted then [] else [c]) cs
         | s # st' \<Rightarrow> if s = ''..'' then normal_parts rooted (c # st) cs else normal_parts rooted st' cs)
      else normal_parts rooted (c # st) cs)"

fun slashed :: "string list \<Rightarrow> string" where
  "slashed [] = []"
| "slashed [p] = p"
| "slashed (p # q # ps) = p @ ''/'' @ slashed (q # ps)"

definition lexically_normal :: "string \<Rightarrow> string" where
  "lexically_normal s =
     (if s = [] then []
      else let rooted = (hd s = CHR ''/''); ps = path_parts [] s; ns = normal_parts rooted [] ps in
        if ns = [] then (if rooted then ''/'' else ''.'')
        else (if rooted then ''/'' else []) @ slashed ns
          @ (if last ns \<noteq> ''..'' \<and> (last s = CHR ''/'' \<or> last ps = ''.'' \<or> last ps = ''..'') then ''/'' else []))"

section \<open>State\<close>

datatype allocator = New_array | Malloc

record Pathing =
  pg_cache :: "(string, string) umap"
  pg_base :: string
  pg_initialized :: bool
  pg_heap :: "nat \<rightharpoonup> allocator \<times> string"
  pg_next :: nat
  pg_undefined :: bool

definition Pathing_new :: Pathing where
  "Pathing_new = \<lparr>pg_cache = [], pg_base = ''/'', pg_initialized = False, pg_heap = Map.empty, pg_next = 0, pg_undefined = False\<rparr>"

definition allocate :: "allocator \<Rightarrow> string \<Rightarrow> Pathing \<Rightarrow> nat option \<times> Pathing" where
  "allocate al s g = (Some (pg_next g), g\<lparr>pg_heap := (pg_heap g)(pg_next g \<mapsto> (al, s)), pg_next := pg_next g + 1\<rparr>)"

definition text_at :: "Pathing \<Rightarrow> nat option \<Rightarrow> string option" where
  "text_at g p = (case p of None \<Rightarrow> None | Some a \<Rightarrow> map_option snd (pg_heap g a))"

definition free_path_string :: "nat option \<Rightarrow> Pathing \<Rightarrow> Pathing" where
  "free_path_string p g =
     (case p of
        None \<Rightarrow> g
      | Some a \<Rightarrow>
          (case pg_heap g a of
             Some (New_array, s) \<Rightarrow> g\<lparr>pg_heap := (pg_heap g)(a := None)\<rparr>
           | _ \<Rightarrow> g\<lparr>pg_undefined := True\<rparr>))"

text \<open>The first or last character is asked for.\<close>

definition needs_char :: "string \<Rightarrow> Pathing \<Rightarrow> Pathing" where
  "needs_char s g = (if s = [] then g\<lparr>pg_undefined := True\<rparr> else g)"

definition starts_with_slash :: "string \<Rightarrow> bool" where
  "starts_with_slash s \<longleftrightarrow> s \<noteq> [] \<and> hd s = CHR ''/''"

section \<open>Resolution\<close>

definition initialize_pathing_engine :: "(string \<Rightarrow> bool) \<Rightarrow> string option \<Rightarrow> Pathing \<Rightarrow> int \<times> Pathing" where
  "initialize_pathing_engine exists base_dir g =
     (let base = (case base_dir of None \<Rightarrow> ''/'' | Some b \<Rightarrow> b);
          base = (if 1 < length base \<and> last base = CHR ''/'' then butlast base else base);
          g = g\<lparr>pg_base := base\<rparr>
      in if \<not> exists base then (-1, g) else (0, g\<lparr>pg_initialized := True\<rparr>))"

definition without_slash :: "string \<Rightarrow> string" where
  "without_slash s = (if starts_with_slash s then tl s else s)"

definition resolve_path :: "(string \<Rightarrow> bool) \<Rightarrow> string option \<Rightarrow> Pathing \<Rightarrow> nat option \<times> Pathing" where
  "resolve_path exists input_path g =
     (let g = (if pg_initialized g then g else snd (initialize_pathing_engine exists None g)) in
      case input_path of
        None \<Rightarrow> (None, g)
      | Some path \<Rightarrow>
          (case map_of (pg_cache g) path of
             Some resolved \<Rightarrow> allocate New_array resolved g
           | None \<Rightarrow>
               let g = needs_char path g;
                   resolved = lexically_normal (pg_base g @ ''/'' @ without_slash path)
               in allocate New_array resolved (g\<lparr>pg_cache := um_assign path resolved (pg_cache g)\<rparr>)))"

definition path_exists :: "(string \<Rightarrow> bool) \<Rightarrow> string option \<Rightarrow> Pathing \<Rightarrow> bool \<times> Pathing" where
  "path_exists exists input_path g =
     (case input_path of
        None \<Rightarrow> (False, g)
      | Some path \<Rightarrow>
          if starts_with_slash path then (exists path, g)
          else case resolve_path exists (Some path) g of
              (p, g) \<Rightarrow> (case text_at g p of Some s \<Rightarrow> exists s | None \<Rightarrow> False, free_path_string p g))"

definition build_web_path :: "(string \<Rightarrow> bool) \<Rightarrow> string option \<Rightarrow> string option \<Rightarrow> Pathing \<Rightarrow> nat option \<times> Pathing" where
  "build_web_path exists web_root file_path g =
     (case (web_root, file_path) of
        (Some rdir, Some file) \<Rightarrow>
          let g = needs_char rdir (needs_char file g); file = without_slash file in
          resolve_path exists (Some (if rdir \<noteq> [] \<and> last rdir = CHR ''/'' then rdir @ file else rdir @ ''/'' @ file)) g
      | _ \<Rightarrow> (None, g))"

definition index_files :: "string list" where
  "index_files = [''index.lamia'', ''index.html'', ''index.htm'', ''default.lamia'', ''default.html'']"

definition find_index_file :: "(string \<Rightarrow> bool) \<Rightarrow> string option \<Rightarrow> Pathing \<Rightarrow> nat option \<times> Pathing" where
  "find_index_file exists directory g =
     (case directory of
        None \<Rightarrow> (None, g)
      | Some d \<Rightarrow>
          case resolve_path exists (Some d) g of
            (p, g) \<Rightarrow>
              (case text_at g p of
                 None \<Rightarrow> (None, g)
               | Some dir \<Rightarrow>
                   (case find (\<lambda>f. exists (dir @ ''/'' @ f)) index_files of
                      Some f \<Rightarrow> allocate New_array (dir @ ''/'' @ f) (free_path_string p g)
                    | None \<Rightarrow> (None, free_path_string p g))))"

definition convert_to_admin_path :: "(string \<Rightarrow> bool) \<Rightarrow> string option \<Rightarrow> Pathing \<Rightarrow> nat option \<times> Pathing" where
  "convert_to_admin_path exists web_path g =
     (case web_path of
        None \<Rightarrow> (None, g)
      | Some path \<Rightarrow>
          resolve_path exists (Some (''web/admin/'' @
            (if take 7 path = ''/admin/'' then drop 7 path else if take 6 path = ''admin/'' then drop 6 path else path))) g)"

definition clear_path_cache :: "Pathing \<Rightarrow> Pathing" where
  "clear_path_cache g = g\<lparr>pg_cache := []\<rparr>"

definition get_cache_size :: "Pathing \<Rightarrow> nat" where
  "get_cache_size g = length (pg_cache g)"

text \<open>A C string holds no NUL, so the second test never fires.\<close>

definition validate_path_security :: "string option \<Rightarrow> bool" where
  "validate_path_security input_path =
     (case input_path of
        None \<Rightarrow> False
      | Some path \<Rightarrow> if contains path ''..'' then False else if NUL \<in> set path then False else True)"

section \<open>MIME types\<close>

definition tolower :: "char \<Rightarrow> char" where
  "tolower c = (if 65 \<le> code c \<and> code c \<le> 90 then char_of (code c + 32) else c)"

definition extension_of :: "string \<Rightarrow> string option" where
  "extension_of path =
     (if CHR ''.'' \<in> set path then Some (map tolower (rev (takeWhile (\<lambda>c. c \<noteq> CHR ''.'') (rev path)))) else None)"

definition get_file_extension :: "string option \<Rightarrow> Pathing \<Rightarrow> nat option \<times> Pathing" where
  "get_file_extension input_path g =
     (case input_path of
        None \<Rightarrow> (None, g)
      | Some path \<Rightarrow> (case extension_of path of None \<Rightarrow> (None, g) | Some e \<Rightarrow> allocate New_array e g))"

definition mime_of :: "string \<Rightarrow> string" where
  "mime_of ext =
     (if ext = ''html'' \<or> ext = ''htm'' then ''text/html'' else if ext = ''lamia'' then ''text/html''
      else if ext = ''css'' then ''text/css'' else if ext = ''js'' then ''application/javascript''
      else if ext = ''json'' then ''application/json'' else if ext = ''png'' then ''image/png''
      else if ext = ''jpg'' \<or> ext = ''jpeg'' then ''image/jpeg'' else if ext = ''gif'' then ''image/gif''
      else if ext = ''svg'' then ''image/svg+xml'' else if ext = ''ico'' then ''image/x-icon''
      else ''application/octet-stream'')"

definition get_mime_type :: "string option \<Rightarrow> Pathing \<Rightarrow> nat option \<times> Pathing" where
  "get_mime_type input_path g =
     (case get_file_extension input_path g of
        (p, g) \<Rightarrow>
          (case text_at g p of
             None \<Rightarrow> allocate New_array ''application/octet-stream'' g
           | Some ext \<Rightarrow> allocate New_array (mime_of ext) (free_path_string p g)))"

section \<open>Routes\<close>

text \<open>The end of most routes: the file if it exists, nothing otherwise.\<close>

definition serve_file :: "(string \<Rightarrow> bool) \<Rightarrow> string \<Rightarrow> Pathing \<Rightarrow> nat option \<times> Pathing" where
  "serve_file exists full_path g =
     (case resolve_path exists (Some full_path) g of
        (p, g) \<Rightarrow>
          (case path_exists exists (text_at g p) g of
             (there, g) \<Rightarrow> if there then (p, g) else (None, free_path_string p g)))"

text \<open>The same with an index file in place of a directory.\<close>

definition serve_file_or_index ::
  "(string \<Rightarrow> bool) \<Rightarrow> (string \<Rightarrow> bool) \<Rightarrow> string \<Rightarrow> Pathing \<Rightarrow> nat option \<times> Pathing" where
  "serve_file_or_index exists blocked full_path g =
     (case resolve_path exists (Some full_path) g of
        (p, g) \<Rightarrow>
          (case path_exists exists (text_at g p) g of
             (there, g) \<Rightarrow>
               if there then
                 (if blocked (the (text_at g p)) then (None, free_path_string p g) else (p, g))
               else
                 (case find_index_file exists (text_at g p) g of (q, g) \<Rightarrow> (q, free_path_string p g))))"

definition virtualhost_route :: "(string \<Rightarrow> bool) \<Rightarrow> string option \<Rightarrow> string option \<Rightarrow> Pathing \<Rightarrow> nat option \<times> Pathing" where
  "virtualhost_route exists path host_root g =
     (case (path, host_root) of
        (Some request_path, Some rdir) \<Rightarrow>
          if request_path = ''/'' then find_index_file exists (Some rdir) g
          else serve_file_or_index exists (\<lambda>s. False) (rdir @ request_path) g
      | _ \<Rightarrow> (None, g))"

text \<open>A prefix with its slash, or without one, is taken off.\<close>

definition strip_prefix :: "string \<Rightarrow> string \<Rightarrow> string" where
  "strip_prefix pre s =
     (if take (length pre + 1) s = pre @ ''/'' then drop (length pre + 1) s
      else if take (length pre) s = pre then drop (length pre) s else s)"

definition portal_route :: "(string \<Rightarrow> bool) \<Rightarrow> string option \<Rightarrow> string option \<Rightarrow> Pathing \<Rightarrow> nat option \<times> Pathing" where
  "portal_route exists path portal_root g =
     (case (path, portal_root) of
        (Some request_path, Some rdir) \<Rightarrow>
          (case (if request_path = ''/portal'' \<or> request_path = ''/portal/'' then
                   (case find_index_file exists (Some rdir) g of
                      (Some a, g) \<Rightarrow> (Some a, g)
                    | (None, g) \<Rightarrow> serve_file exists (rdir @ ''/index_gif3d.lamia'') g)
                 else (None, g)) of
             (Some a, g) \<Rightarrow> (Some a, g)
           | (None, g) \<Rightarrow> serve_file exists (rdir @ ''/'' @ strip_prefix ''/portal'' request_path) g)
      | _ \<Rightarrow> (None, g))"

definition admin_route :: "(string \<Rightarrow> bool) \<Rightarrow> string option \<Rightarrow> string option \<Rightarrow> Pathing \<Rightarrow> nat option \<times> Pathing" where
  "admin_route exists path admin_root g =
     (case (path, admin_root) of
        (Some request_path, Some rdir) \<Rightarrow>
          if \<not> validate_path_security (Some request_path) then (None, g)
          else
            let request_path =
                  (if request_path = ''/admin'' then ''/'' else strip_prefix ''/admin'' request_path)
            in (case (if request_path = ''/'' \<or> request_path = [] then serve_file exists (rdir @ ''/index.html'') g else (None, g)) of
                  (Some a, g) \<Rightarrow> (Some a, g)
                | (None, g) \<Rightarrow> serve_file exists (rdir @ ''/'' @ request_path) g)
      | _ \<Rightarrow> (None, g))"

definition panel_route :: "(string \<Rightarrow> bool) \<Rightarrow> string option \<Rightarrow> string option \<Rightarrow> Pathing \<Rightarrow> nat option \<times> Pathing" where
  "panel_route exists path panel_root g =
     (case (path, panel_root) of
        (Some request_path, Some rdir) \<Rightarrow>
          (case (if request_path = ''/panel'' \<or> request_path = ''/panel/'' then find_index_file exists (Some rdir) g else (None, g)) of
             (Some a, g) \<Rightarrow> (Some a, g)
           | (None, g) \<Rightarrow> serve_file exists (rdir @ ''/'' @ strip_prefix ''/panel'' request_path) g)
      | _ \<Rightarrow> (None, g))"

definition ssl_index_files :: "string list" where
  "ssl_index_files = [''index_ssl.lamia'', ''index_secure.lamia'', ''index_https.lamia'', ''index.lamia'', ''index.html'']"

fun first_file :: "(string \<Rightarrow> bool) \<Rightarrow> string \<Rightarrow> string list \<Rightarrow> Pathing \<Rightarrow> nat option \<times> Pathing" where
  "first_file exists rdir [] g = (None, g)"
| "first_file exists rdir (f # fs) g =
     (case serve_file exists (rdir @ ''/'' @ f) g of
        (Some a, g) \<Rightarrow> (Some a, g)
      | (None, g) \<Rightarrow> first_file exists rdir fs g)"

definition sensitive :: "string \<Rightarrow> bool" where
  "sensitive s \<longleftrightarrow> contains s ''.key'' \<or> contains s ''.pem'' \<or> contains s ''.crt'' \<or> contains s ''private''"

definition ssl_route ::
  "(string \<Rightarrow> bool) \<Rightarrow> string option \<Rightarrow> string option \<Rightarrow> string option \<Rightarrow> Pathing \<Rightarrow> nat option \<times> Pathing" where
  "ssl_route exists path ssl_host ssl_root g =
     (case (path, ssl_host, ssl_root) of
        (Some request_path, Some host, Some rdir) \<Rightarrow>
          if \<not> validate_path_security (Some request_path) then (None, g)
          else if request_path = ''/'' \<or> request_path = [] then first_file exists rdir ssl_index_files g
          else if take 7 request_path = ''/admin/'' \<or> take 6 request_path = ''/admin''
          then admin_route exists (Some request_path) (Some ''web/admin'') g
          else if take 8 request_path = ''/portal/'' \<or> take 7 request_path = ''/portal''
          then portal_route exists (Some request_path) (Some ''web/portal'') g
          else if take 7 request_path = ''/panel/'' \<or> take 6 request_path = ''/panel''
          then panel_route exists (Some request_path) (Some ''web/panel'') g
          else serve_file_or_index exists sensitive (rdir @ request_path) g
      | _ \<Rightarrow> (None, g))"

definition api_route :: "(string \<Rightarrow> bool) \<Rightarrow> string option \<Rightarrow> string option \<Rightarrow> Pathing \<Rightarrow> nat option \<times> Pathing" where
  "api_route exists path api_root g =
     (case (path, api_root) of
        (Some request_path, Some rdir) \<Rightarrow>
          if \<not> validate_path_security (Some request_path) then (None, g)
          else serve_file exists (rdir @ ''/'' @ strip_prefix ''/api'' request_path) g
      | _ \<Rightarrow> (None, g))"

definition static_route :: "(string \<Rightarrow> bool) \<Rightarrow> string option \<Rightarrow> string option \<Rightarrow> Pathing \<Rightarrow> nat option \<times> Pathing" where
  "static_route exists path static_root g =
     (case (path, static_root) of
        (Some request_path, Some rdir) \<Rightarrow>
          if \<not> validate_path_security (Some request_path) then (None, g)
          else serve_file exists
            (rdir @ (if take 7 request_path = ''/assets'' then ''/'' @ strip_prefix ''/assets'' request_path else request_path)) g
      | _ \<Rightarrow> (None, g))"

text \<open>The user named in a query, and the route to the user's directory, whose default comes from \<open>malloc\<close>.\<close>

definition query_user :: "string \<Rightarrow> string option" where
  "query_user query =
     (case str_find query ''user='' 0 of
        None \<Rightarrow> None
      | Some i \<Rightarrow>
          let u = takeWhile (\<lambda>c. c \<noteq> CHR ''&'') (drop (i + 5) query);
              u = (if u \<noteq> [] \<and> last u = CHR ''/'' then butlast u else u)
          in if u = [] then None
             else if list_all (\<lambda>c. isalnum c \<or> c = CHR ''_'' \<or> c = CHR ''-'' \<or> c = CHR ''.'') u then Some u else None)"

definition route_temporary_url :: "(string \<Rightarrow> bool) \<Rightarrow> string option \<Rightarrow> string option \<Rightarrow> Pathing \<Rightarrow> nat option \<times> Pathing" where
  "route_temporary_url exists query_string web_root g =
     (case (query_string, web_root) of
        (Some query, Some rdir) \<Rightarrow>
          (case query_user query of
             None \<Rightarrow> (None, g)
           | Some u \<Rightarrow>
               let temp_path = rdir @ ''/'' @ u @ ''/working-dir'' in
               (case find_index_file exists (Some temp_path) g of
                  (Some a, g) \<Rightarrow> (Some a, g)
                | (None, g) \<Rightarrow> allocate Malloc (temp_path @ ''/index.html'') g))
      | _ \<Rightarrow> (None, g))"

end
