(* ===== verification/Pathing_Routes.thy ===== *)
theory Pathing_Routes
  imports Pathing_Engine
begin

text \<open>
  What the routes of the pathing engine answer, as functions of the base directory and the request alone:
  that cache and heap change nothing about it, that nothing leaks, and which routes stay below their
  directory.
\<close>

section \<open>The answers\<close>

definition resolved :: "string \<Rightarrow> string \<Rightarrow> string" where
  "resolved base path = lexically_normal (base @ ''/'' @ without_slash path)"

definition there :: "(string \<Rightarrow> bool) \<Rightarrow> string \<Rightarrow> string \<Rightarrow> bool" where
  "there exists base s \<longleftrightarrow> exists (if starts_with_slash s then s else resolved base s)"

definition file_answer :: "(string \<Rightarrow> bool) \<Rightarrow> string \<Rightarrow> string \<Rightarrow> string option" where
  "file_answer exists base full_path =
     (if there exists base (resolved base full_path) then Some (resolved base full_path) else None)"

definition index_answer :: "(string \<Rightarrow> bool) \<Rightarrow> string \<Rightarrow> string \<Rightarrow> string option" where
  "index_answer exists base dir =
     map_option (\<lambda>f. resolved base dir @ ''/'' @ f) (find (\<lambda>f. exists (resolved base dir @ ''/'' @ f)) index_files)"

definition file_or_index_answer ::
  "(string \<Rightarrow> bool) \<Rightarrow> (string \<Rightarrow> bool) \<Rightarrow> string \<Rightarrow> string \<Rightarrow> string option" where
  "file_or_index_answer exists blocked base full_path =
     (let s = resolved base full_path in
      if there exists base s then (if blocked s then None else Some s) else index_answer exists base s)"

definition orelse :: "'a option \<Rightarrow> 'a option \<Rightarrow> 'a option" where
  "orelse x y = (case x of None \<Rightarrow> y | Some a \<Rightarrow> Some a)"

datatype route = Virtualhost | Portal | Admin | Panel | Ssl | Api | Static

fun first_answer :: "(string \<Rightarrow> bool) \<Rightarrow> string \<Rightarrow> string \<Rightarrow> string list \<Rightarrow> string option" where
  "first_answer exists base rdir [] = None"
| "first_answer exists base rdir (f # fs) = orelse (file_answer exists base (rdir @ ''/'' @ f)) (first_answer exists base rdir fs)"

definition portal_answer :: "(string \<Rightarrow> bool) \<Rightarrow> string \<Rightarrow> string \<Rightarrow> string \<Rightarrow> string option" where
  "portal_answer exists base path rdir =
     orelse
       (if path = ''/portal'' \<or> path = ''/portal/''
        then orelse (index_answer exists base rdir) (file_answer exists base (rdir @ ''/index_gif3d.lamia'')) else None)
       (file_answer exists base (rdir @ ''/'' @ strip_prefix ''/portal'' path))"

definition admin_answer :: "(string \<Rightarrow> bool) \<Rightarrow> string \<Rightarrow> string \<Rightarrow> string \<Rightarrow> string option" where
  "admin_answer exists base path rdir =
     (if contains path ''..'' then None
      else let path = (if path = ''/admin'' then ''/'' else strip_prefix ''/admin'' path) in
        orelse (if path = ''/'' \<or> path = [] then file_answer exists base (rdir @ ''/index.html'') else None)
          (file_answer exists base (rdir @ ''/'' @ path)))"

definition panel_answer :: "(string \<Rightarrow> bool) \<Rightarrow> string \<Rightarrow> string \<Rightarrow> string \<Rightarrow> string option" where
  "panel_answer exists base path rdir =
     orelse (if path = ''/panel'' \<or> path = ''/panel/'' then index_answer exists base rdir else None)
       (file_answer exists base (rdir @ ''/'' @ strip_prefix ''/panel'' path))"

definition ssl_answer :: "(string \<Rightarrow> bool) \<Rightarrow> string \<Rightarrow> string \<Rightarrow> string \<Rightarrow> string option" where
  "ssl_answer exists base path rdir =
     (if contains path ''..'' then None
      else if path = ''/'' \<or> path = [] then first_answer exists base rdir ssl_index_files
      else if take 6 path = ''/admin'' then admin_answer exists base path ''web/admin''
      else if take 7 path = ''/portal'' then portal_answer exists base path ''web/portal''
      else if take 6 path = ''/panel'' then panel_answer exists base path ''web/panel''
      else file_or_index_answer exists sensitive base (rdir @ path))"

definition static_path :: "string \<Rightarrow> string" where
  "static_path path = (if take 7 path = ''/assets'' then ''/'' @ strip_prefix ''/assets'' path else path)"

definition route_answer :: "(string \<Rightarrow> bool) \<Rightarrow> route \<Rightarrow> string \<Rightarrow> string \<Rightarrow> string \<Rightarrow> string option" where
  "route_answer exists k base path rdir =
     (case k of
        Virtualhost \<Rightarrow>
          if path = ''/'' then index_answer exists base rdir
          else file_or_index_answer exists (\<lambda>s. False) base (rdir @ path)
      | Portal \<Rightarrow> portal_answer exists base path rdir
      | Admin \<Rightarrow> admin_answer exists base path rdir
      | Panel \<Rightarrow> panel_answer exists base path rdir
      | Ssl \<Rightarrow> ssl_answer exists base path rdir
      | Api \<Rightarrow> if contains path ''..'' then None else file_answer exists base (rdir @ ''/'' @ strip_prefix ''/api'' path)
      | Static \<Rightarrow> if contains path ''..'' then None else file_answer exists base (rdir @ static_path path))"

definition route_call :: "(string \<Rightarrow> bool) \<Rightarrow> route \<Rightarrow> string \<Rightarrow> string \<Rightarrow> Pathing \<Rightarrow> nat option \<times> Pathing" where
  "route_call exists k path rdir g =
     (case k of
        Virtualhost \<Rightarrow> virtualhost_route exists (Some path) (Some rdir) g
      | Portal \<Rightarrow> portal_route exists (Some path) (Some rdir) g
      | Admin \<Rightarrow> admin_route exists (Some path) (Some rdir) g
      | Panel \<Rightarrow> panel_route exists (Some path) (Some rdir) g
      | Ssl \<Rightarrow> ssl_route exists (Some path) (Some ''host'') (Some rdir) g
      | Api \<Rightarrow> api_route exists (Some path) (Some rdir) g
      | Static \<Rightarrow> static_route exists (Some path) (Some rdir) g)"

section \<open>Cache and heap\<close>

definition pathing_ok :: "Pathing \<Rightarrow> bool" where
  "pathing_ok g \<longleftrightarrow> pg_initialized g \<and> (\<forall>k v. map_of (pg_cache g) k = Some v \<longrightarrow> v = resolved (pg_base g) k)
     \<and> (\<forall>a\<ge>pg_next g. pg_heap g a = None)"

text \<open>From \<open>g\<close>, a call gives the text \<open>s\<close> in a new array, or nothing, and changes no other block.\<close>

definition gives :: "Pathing \<Rightarrow> nat option \<times> Pathing \<Rightarrow> string option \<Rightarrow> bool" where
  "gives g r s \<longleftrightarrow> (case r of (p, g') \<Rightarrow>
     pathing_ok g' \<and> pg_base g' = pg_base g \<and> pg_undefined g' = pg_undefined g
     \<and> (case s of
          None \<Rightarrow> p = None \<and> pg_heap g' = pg_heap g
        | Some t \<Rightarrow> \<exists>a. p = Some a \<and> pg_heap g a = None \<and> pg_heap g' = (pg_heap g)(a \<mapsto> (New_array, t))))"

lemma gives_None: "gives g r None \<longleftrightarrow> (\<exists>g'. r = (None, g') \<and> pathing_ok g' \<and> pg_base g' = pg_base g
    \<and> pg_undefined g' = pg_undefined g \<and> pg_heap g' = pg_heap g)"
  by (cases r) (auto simp: gives_def)

lemma gives_Some: "gives g r (Some t) \<longleftrightarrow> (\<exists>a g'. r = (Some a, g') \<and> pathing_ok g' \<and> pg_base g' = pg_base g
    \<and> pg_undefined g' = pg_undefined g \<and> pg_heap g a = None \<and> pg_heap g' = (pg_heap g)(a \<mapsto> (New_array, t)))"
  by (cases r) (auto simp: gives_def)

lemma gives_refl: "pathing_ok g \<Longrightarrow> gives g (None, g) None"
  by (simp add: gives_None)

lemma gives_trans: "gives g (None, g1) None \<Longrightarrow> gives g1 r s \<Longrightarrow> gives g r s"
  by (cases s) (auto simp: gives_None gives_Some)

lemma gives_ok: "gives g (p, g1) s \<Longrightarrow> pathing_ok g1 \<and> pg_base g1 = pg_base g"
  by (simp add: gives_def)

text \<open>A text that was given is freed again, or kept over a call that gives nothing.\<close>

lemma gives_free: "gives g (p, g1) (Some t) \<Longrightarrow> gives g (None, free_path_string p g1) None"
  by (auto simp: gives_None gives_Some free_path_string_def pathing_ok_def fun_upd_idem) (metis option.distinct(1))+

lemma gives_free_other:
  assumes "gives g (p, g1) (Some t)" and "gives g1 (q, g2) r"
  shows "gives g (q, free_path_string p g2) r"
proof -
  obtain a where a: "p = Some a" "pg_heap g a = None" "pg_heap g1 = (pg_heap g)(a \<mapsto> (New_array, t))"
    "pg_base g1 = pg_base g" "pg_undefined g1 = pg_undefined g" using assms(1) by (auto simp: gives_Some)
  have h: "pg_heap g2 a = Some (New_array, t)" using assms(2) a(3) by (cases r) (auto simp: gives_None gives_Some)
  then have f: "free_path_string p g2 = g2\<lparr>pg_heap := (pg_heap g2)(a := None)\<rparr>" by (simp add: free_path_string_def a(1))
  have ok: "pathing_ok g2" using assms(2) by (rule gives_ok [THEN conjunct1])
  then have "pathing_ok (free_path_string p g2)" unfolding f by (auto simp: pathing_ok_def)
  have base: "pg_base g2 = pg_base g" "pg_undefined g2 = pg_undefined g"
    using assms(2) a(4,5) by (auto simp: gives_def)
  show ?thesis
  proof (cases r)
    case None
    then have "q = None" "pg_heap g2 = pg_heap g1" using assms(2) by (auto simp: gives_None)
    moreover from this have "(pg_heap g2)(a := None) = pg_heap g" using a(2,3) by auto
    ultimately show ?thesis using None base \<open>pathing_ok (free_path_string p g2)\<close> by (simp add: gives_None f)
  next
    case (Some u)
    then obtain b where b: "q = Some b" "pg_heap g1 b = None" "pg_heap g2 = (pg_heap g1)(b \<mapsto> (New_array, u))"
      using assms(2) by (auto simp: gives_Some)
    then have "b \<noteq> a" "pg_heap g b = None" using a(3) by (auto split: if_splits)
    moreover from this have "(pg_heap g2)(a := None) = (pg_heap g)(b \<mapsto> (New_array, u))" using a(2,3) b(3) by auto
    ultimately show ?thesis using Some b(1) base \<open>pathing_ok (free_path_string p g2)\<close> by (simp add: gives_Some f)
  qed
qed

lemma gives_text: "gives g (p, g1) (Some t) \<Longrightarrow> text_at g1 p = Some t"
  by (auto simp: gives_Some text_at_def)

lemma gives_keep: "gives g (p, g1) (Some t) \<Longrightarrow> gives g1 (None, g2) None \<Longrightarrow> gives g (p, g2) (Some t)"
  by (auto simp: gives_None gives_Some)

lemma allocate_gives: "pathing_ok g \<Longrightarrow> gives g (allocate New_array t g) (Some t)"
  by (auto simp: gives_Some allocate_def pathing_ok_def)

lemma resolve_gives:
  assumes "pathing_ok g" and "path \<noteq> []"
  shows "gives g (resolve_path exists (Some path) g) (Some (resolved (pg_base g) path))"
proof (cases "map_of (pg_cache g) path")
  case None
  let ?s = "resolved (pg_base g) path"
  let ?g = "g\<lparr>pg_cache := um_assign path ?s (pg_cache g)\<rparr>"
  have "pathing_ok ?g" using assms(1) by (auto simp: pathing_ok_def um_find_assign)
  then have "gives ?g (allocate New_array ?s ?g) (Some ?s)" by (rule allocate_gives)
  then show ?thesis using None assms
    by (simp add: resolve_path_def pathing_ok_def needs_char_def resolved_def gives_Some Let_def)
next
  case (Some v)
  then show ?thesis using assms allocate_gives [of g v] by (simp add: resolve_path_def pathing_ok_def)
qed

lemma path_parts_nonempty: "c \<in> set (path_parts cur s) \<Longrightarrow> c \<noteq> []"
  by (induction cur s rule: path_parts.induct) (auto split: if_splits)

lemma normal_parts_subset: "c \<in> set (normal_parts rooted st ps) \<Longrightarrow> c \<in> set st \<or> c \<in> set ps"
  by (induction rooted st ps rule: normal_parts.induct) (auto split: if_splits list.splits)

lemma lexically_normal_nonempty: "s \<noteq> [] \<Longrightarrow> lexically_normal s \<noteq> []"
proof -
  assume s: "s \<noteq> []"
  have "slashed ns \<noteq> []" if "ns \<noteq> []" "[] \<notin> set ns" for ns using that by (cases ns rule: slashed.cases) auto
  moreover have "[] \<notin> set (normal_parts rooted [] (path_parts [] s))" for rooted
    using normal_parts_subset path_parts_nonempty by fastforce
  ultimately show ?thesis using s by (auto simp: lexically_normal_def Let_def)
qed

lemma resolved_nonempty: "resolved base path \<noteq> []"
  by (simp add: resolved_def lexically_normal_nonempty)

lemma path_exists_gives:
  assumes "pathing_ok g" and "s \<noteq> []"
  shows "\<exists>g'. path_exists exists (Some s) g = (there exists (pg_base g) s, g') \<and> gives g (None, g') None"
proof (cases "starts_with_slash s")
  case False
  obtain p g1 where r: "resolve_path exists (Some s) g = (p, g1)" by fastforce
  then have "gives g (p, g1) (Some (resolved (pg_base g) s))" using resolve_gives [OF assms] by metis
  then show ?thesis using False r gives_text gives_free by (fastforce simp: path_exists_def there_def)
qed (use assms in \<open>simp add: path_exists_def there_def gives_refl\<close>)

section \<open>The routes\<close>

lemma serve_file_gives:
  assumes "pathing_ok g" and "full_path \<noteq> []"
  shows "gives g (serve_file exists full_path g) (file_answer exists (pg_base g) full_path)"
proof -
  let ?s = "resolved (pg_base g) full_path"
  obtain p g1 where r: "resolve_path exists (Some full_path) g = (p, g1)" by fastforce
  then have g1: "gives g (p, g1) (Some ?s)" using resolve_gives [OF assms] by metis
  then have ok: "pathing_ok g1" "pg_base g1 = pg_base g" using gives_ok by blast+
  obtain g2 where g2: "path_exists exists (Some ?s) g1 = (there exists (pg_base g) ?s, g2)" "gives g1 (None, g2) None"
    using path_exists_gives [OF ok(1) resolved_nonempty, of exists] ok(2) by metis
  have "gives g (p, g2) (Some ?s)" using gives_keep [OF g1 g2(2)] .
  then show ?thesis using r g2(1) gives_text [OF g1] gives_free by (auto simp: serve_file_def file_answer_def)
qed

lemma find_index_gives:
  assumes "pathing_ok g" and "dir \<noteq> []"
  shows "gives g (find_index_file exists (Some dir) g) (index_answer exists (pg_base g) dir)"
proof -
  let ?s = "resolved (pg_base g) dir"
  obtain p g1 where r: "resolve_path exists (Some dir) g = (p, g1)" by fastforce
  then have g1: "gives g (p, g1) (Some ?s)" using resolve_gives [OF assms] by metis
  then have f: "gives g (None, free_path_string p g1) None" by (rule gives_free)
  then have "gives g (allocate New_array t (free_path_string p g1)) (Some t)" for t
    using gives_trans [OF f allocate_gives] gives_ok by blast
  then show ?thesis using r f gives_text [OF g1]
    by (auto simp: find_index_file_def index_answer_def split: option.split)
qed

lemma serve_file_or_index_gives:
  assumes "pathing_ok g" and "full_path \<noteq> []"
  shows "gives g (serve_file_or_index exists blocked full_path g) (file_or_index_answer exists blocked (pg_base g) full_path)"
proof -
  let ?s = "resolved (pg_base g) full_path"
  obtain p g1 where r: "resolve_path exists (Some full_path) g = (p, g1)" by fastforce
  then have g1: "gives g (p, g1) (Some ?s)" using resolve_gives [OF assms] by metis
  then have ok: "pathing_ok g1" "pg_base g1 = pg_base g" using gives_ok by blast+
  obtain g2 where g2: "path_exists exists (Some ?s) g1 = (there exists (pg_base g) ?s, g2)" "gives g1 (None, g2) None"
    using path_exists_gives [OF ok(1) resolved_nonempty, of exists] ok(2) by metis
  have k: "gives g (p, g2) (Some ?s)" using gives_keep [OF g1 g2(2)] .
  then have ok2: "pathing_ok g2" "pg_base g2 = pg_base g" using gives_ok by blast+
  obtain q g3 where q: "find_index_file exists (Some ?s) g2 = (q, g3)" by fastforce
  then have i: "gives g2 (q, g3) (index_answer exists (pg_base g) ?s)"
    using find_index_gives [OF ok2(1) resolved_nonempty] ok2(2) by metis
  have "gives g (q, free_path_string p g3) (index_answer exists (pg_base g) ?s)"
    by (rule gives_free_other [OF k i])
  then show ?thesis using r g2(1) q k gives_text [OF g1] gives_text [OF k] gives_free [OF k]
    by (auto simp: serve_file_or_index_def file_or_index_answer_def Let_def)
qed

lemma gives_orelse:
  assumes "gives g (p, g1) x" and "pg_base g1 = pg_base g \<Longrightarrow> pathing_ok g1 \<Longrightarrow> gives g1 r y"
  shows "gives g (case p of Some a \<Rightarrow> (Some a, g1) | None \<Rightarrow> r) (orelse x y)"
proof (cases x)
  case None
  then have "p = None" "gives g (None, g1) None" using assms(1) by (auto simp: gives_None)
  then show ?thesis using None gives_trans assms gives_ok [OF assms(1)] by (simp add: orelse_def)
next
  case (Some t)
  then show ?thesis using assms(1) by (auto simp: gives_Some orelse_def)
qed

lemma gives_orelse_call:
  assumes "gives g r x" and "\<And>g1. pg_base g1 = pg_base g \<Longrightarrow> pathing_ok g1 \<Longrightarrow> gives g1 (f g1) y"
  shows "gives g (case r of (Some a, g1) \<Rightarrow> (Some a, g1) | (None, g1) \<Rightarrow> f g1) (orelse x y)"
  using gives_orelse [of g "fst r" "snd r" x "f (snd r)" y] assms by (cases r; cases "fst r") simp_all

lemma portal_gives:
  assumes "pathing_ok g" and "rdir \<noteq> []"
  shows "gives g (portal_route exists (Some path) (Some rdir) g) (portal_answer exists (pg_base g) path rdir)"
  unfolding portal_route_def portal_answer_def option.case prod.case
proof (rule gives_orelse_call, goal_cases)
  case 1
  show ?case
  proof (cases "path = ''/portal'' \<or> path = ''/portal/''")
    case True
    have "gives g (case find_index_file exists (Some rdir) g of (Some a, g1) \<Rightarrow> (Some a, g1)
        | (None, g1) \<Rightarrow> serve_file exists (rdir @ ''/index_gif3d.lamia'') g1)
      (orelse (index_answer exists (pg_base g) rdir) (file_answer exists (pg_base g) (rdir @ ''/index_gif3d.lamia'')))"
      using find_index_gives [OF assms] serve_file_gives by (intro gives_orelse_call) (metis, fastforce)
    then show ?thesis using True by simp
  next
    case False
    then show ?thesis using assms(1) gives_refl by simp
  qed
next
  case (2 g1)
  then show ?case using serve_file_gives [of g1 "rdir @ ''/'' @ strip_prefix ''/portal'' path"] by simp
qed

lemma panel_gives:
  assumes "pathing_ok g" and "rdir \<noteq> []"
  shows "gives g (panel_route exists (Some path) (Some rdir) g) (panel_answer exists (pg_base g) path rdir)"
  unfolding panel_route_def panel_answer_def option.case prod.case
proof (rule gives_orelse_call, goal_cases)
  case 1
  then show ?case using find_index_gives [OF assms] gives_refl [OF assms(1)] by simp
next
  case (2 g1)
  then show ?case using serve_file_gives [of g1 "rdir @ ''/'' @ strip_prefix ''/panel'' path"] by simp
qed

text \<open>A C string has no NUL.\<close>

definition c_string :: "string \<Rightarrow> bool" where
  "c_string s \<longleftrightarrow> NUL \<notin> set s"

lemma validate_iff: "c_string s \<Longrightarrow> validate_path_security (Some s) \<longleftrightarrow> \<not> contains s ''..''"
  by (simp add: validate_path_security_def c_string_def)

lemma admin_gives:
  assumes "pathing_ok g" and "rdir \<noteq> []" and "c_string path"
  shows "gives g (admin_route exists (Some path) (Some rdir) g) (admin_answer exists (pg_base g) path rdir)"
proof (cases "contains path ''..''")
  case True
  then show ?thesis using assms by (simp add: admin_route_def admin_answer_def validate_iff gives_refl)
next
  case False
  define q where "q = (if path = ''/admin'' then ''/'' else strip_prefix ''/admin'' path)"
  have "gives g (case (if q = ''/'' \<or> q = [] then serve_file exists (rdir @ ''/index.html'') g else (None, g)) of
      (Some a, g1) \<Rightarrow> (Some a, g1) | (None, g1) \<Rightarrow> serve_file exists (rdir @ ''/'' @ q) g1)
    (orelse (if q = ''/'' \<or> q = [] then file_answer exists (pg_base g) (rdir @ ''/index.html'') else None)
      (file_answer exists (pg_base g) (rdir @ ''/'' @ q)))"
  proof (rule gives_orelse_call, goal_cases)
    case 1
    then show ?case using serve_file_gives [OF assms(1), of "rdir @ ''/index.html''"] gives_refl [OF assms(1)] by simp
  next
    case (2 g1)
    then show ?case using serve_file_gives [of g1 "rdir @ ''/'' @ q"] by simp
  qed
  then show ?thesis
    unfolding admin_route_def admin_answer_def option.case prod.case q_def Let_def validate_iff [OF assms(3)]
    using False by (simp only: not_True_eq_False not_False_eq_True if_False if_True)
qed

lemma first_file_gives:
  assumes "pathing_ok g"
  shows "gives g (first_file exists rdir fs g) (first_answer exists (pg_base g) rdir fs)"
  using assms
proof (induction fs arbitrary: g)
  case Nil
  then show ?case by (simp add: gives_refl)
next
  case (Cons f fs)
  show ?case unfolding first_file.simps first_answer.simps
  proof (rule gives_orelse_call, goal_cases)
    case 1
    then show ?case using serve_file_gives [OF Cons.prems, of "rdir @ ''/'' @ f"] by simp
  next
    case (2 g1)
    then show ?case using Cons.IH [of g1] by simp
  qed
qed

lemma ssl_gives:
  assumes "pathing_ok g" and "rdir \<noteq> []" and "c_string path"
  shows "gives g (ssl_route exists (Some path) (Some h) (Some rdir) g) (ssl_answer exists (pg_base g) path rdir)"
proof -
  have pre: "take 7 path = ''/admin/'' \<or> take 6 path = ''/admin'' \<longleftrightarrow> take 6 path = ''/admin''"
    "take 8 path = ''/portal/'' \<or> take 7 path = ''/portal'' \<longleftrightarrow> take 7 path = ''/portal''"
    "take 7 path = ''/panel/'' \<or> take 6 path = ''/panel'' \<longleftrightarrow> take 6 path = ''/panel''"
    using take_take [of 6 7 path] take_take [of 7 8 path] by (auto dest: arg_cong [of _ _ "take 6"] arg_cong [of _ _ "take 7"])
  show ?thesis
    using assms admin_gives [OF assms(1) _ assms(3)] portal_gives [OF assms(1)] panel_gives [OF assms(1)]
      first_file_gives [OF assms(1)] serve_file_or_index_gives [OF assms(1), of "rdir @ path"] gives_refl [OF assms(1)]
    unfolding ssl_route_def ssl_answer_def option.case prod.case pre validate_iff [OF assms(3)] by simp
qed

lemma route_gives:
  assumes "pathing_ok g" and "rdir \<noteq> []" and "c_string path"
  shows "gives g (route_call exists k path rdir g) (route_answer exists k (pg_base g) path rdir)"
proof (cases k)
  case Static
  have "serve_file exists (rdir @ (if take 7 path = ''/assets'' then ''/'' @ strip_prefix ''/assets'' path else path)) g
    = serve_file exists (rdir @ static_path path) g" by (simp add: static_path_def)
  then show ?thesis using Static assms serve_file_gives [of g "rdir @ static_path path"] gives_refl
    by (simp add: route_call_def route_answer_def static_route_def validate_iff)
next
  case Api
  then show ?thesis using assms serve_file_gives [of g "rdir @ ''/'' @ strip_prefix ''/api'' path"] gives_refl
    by (simp add: route_call_def route_answer_def api_route_def validate_iff)
qed (use assms find_index_gives serve_file_or_index_gives [of g "rdir @ path"] portal_gives admin_gives panel_gives ssl_gives
     in \<open>simp_all add: route_call_def route_answer_def virtualhost_route_def\<close>)

section \<open>Sessions\<close>

text \<open>What a client asks for, freeing each answer once it has read it.\<close>

datatype request = Route route string string | Mime string | Clear_cache

definition visit :: "(string \<Rightarrow> bool) \<Rightarrow> request \<Rightarrow> Pathing \<Rightarrow> string option \<times> Pathing" where
  "visit exists r g =
     (case r of
        Route k path rdir \<Rightarrow> (case route_call exists k path rdir g of (p, g) \<Rightarrow> (text_at g p, free_path_string p g))
      | Mime path \<Rightarrow> (case get_mime_type (Some path) g of (p, g) \<Rightarrow> (text_at g p, free_path_string p g))
      | Clear_cache \<Rightarrow> (None, clear_path_cache g))"

definition visit_answer :: "(string \<Rightarrow> bool) \<Rightarrow> string \<Rightarrow> request \<Rightarrow> string option" where
  "visit_answer exists base r =
     (case r of
        Route k path rdir \<Rightarrow> route_answer exists k base path rdir
      | Mime path \<Rightarrow> Some (case extension_of path of Some e \<Rightarrow> mime_of e | None \<Rightarrow> ''application/octet-stream'')
      | Clear_cache \<Rightarrow> None)"

definition request_ok :: "request \<Rightarrow> bool" where
  "request_ok r \<longleftrightarrow> (case r of Route k path rdir \<Rightarrow> rdir \<noteq> [] \<and> c_string path | _ \<Rightarrow> True)"

lemma mime_gives:
  assumes "pathing_ok g"
  shows "gives g (get_mime_type (Some path) g)
    (Some (case extension_of path of Some e \<Rightarrow> mime_of e | None \<Rightarrow> ''application/octet-stream''))"
proof (cases "extension_of path")
  case None
  then show ?thesis using allocate_gives [OF assms]
    by (simp add: get_mime_type_def get_file_extension_def text_at_def)
next
  case (Some e)
  obtain p g1 where r: "allocate New_array e g = (p, g1)" by fastforce
  then have g1: "gives g (p, g1) (Some e)" using allocate_gives [OF assms] by metis
  then have f: "gives g (None, free_path_string p g1) None" by (rule gives_free)
  then have "gives g (allocate New_array (mime_of e) (free_path_string p g1)) (Some (mime_of e))"
    using gives_trans [OF f allocate_gives] gives_ok by blast
  then show ?thesis using Some r gives_text [OF g1] by (simp add: get_mime_type_def get_file_extension_def)
qed

lemma gives_visit:
  assumes "gives g (p, g1) t"
  shows "text_at g1 p = t \<and> pathing_ok (free_path_string p g1) \<and> pg_base (free_path_string p g1) = pg_base g
    \<and> pg_heap (free_path_string p g1) = pg_heap g \<and> pg_undefined (free_path_string p g1) = pg_undefined g"
proof (cases t)
  case None
  then show ?thesis using assms by (auto simp: gives_None text_at_def free_path_string_def)
next
  case (Some u)
  then show ?thesis using assms gives_text gives_free by (force simp: gives_None)
qed

lemma visit_gives:
  assumes "pathing_ok g" and "request_ok r"
  shows "fst (visit exists r g) = visit_answer exists (pg_base g) r \<and> pathing_ok (snd (visit exists r g))
    \<and> pg_base (snd (visit exists r g)) = pg_base g \<and> pg_heap (snd (visit exists r g)) = pg_heap g
    \<and> pg_undefined (snd (visit exists r g)) = pg_undefined g"
proof (cases r)
  case (Route k path rdir)
  obtain p g1 where c: "route_call exists k path rdir g = (p, g1)" by fastforce
  then have "gives g (p, g1) (route_answer exists k (pg_base g) path rdir)"
    using route_gives [OF assms(1), of rdir path exists k] assms(2) Route by (simp add: request_ok_def)
  then show ?thesis using gives_visit c Route by (simp add: visit_def visit_answer_def)
next
  case (Mime path)
  obtain p g1 where c: "get_mime_type (Some path) g = (p, g1)" by fastforce
  then show ?thesis using gives_visit mime_gives [OF assms(1), of path] Mime by (fastforce simp: visit_def visit_answer_def)
next
  case Clear_cache
  then show ?thesis using assms(1) by (auto simp: visit_def visit_answer_def clear_path_cache_def pathing_ok_def)
qed

interpretation visits: simulation "visit exists" "\<lambda>r m. (visit_answer exists base r, m)" request_ok
    "\<lambda>g (m :: unit). pathing_ok g \<and> pg_base g = base" for exists base
  by unfold_locales (use visit_gives in auto)

interpretation arrays: session "\<lambda>r g. snd (visit exists r g)" request_ok
    "\<lambda>g. pathing_ok g \<and> pg_heap g = h \<and> \<not> pg_undefined g" for exists h
  by unfold_locales (use visit_gives in auto)

lemma spec_answers: "answers (\<lambda>r m. (f r, m)) rs m = map f rs"
  by (induction rs) auto

lemma initialized_ok: "initialize_pathing_engine exists b Pathing_new = (0, g) \<Longrightarrow> pathing_ok g \<and> pg_heap g = Map.empty \<and> \<not> pg_undefined g"
  by (auto simp: initialize_pathing_engine_def Pathing_new_def pathing_ok_def Let_def split: if_splits)

lemma session_answers:
  assumes "initialize_pathing_engine exists b Pathing_new = (0, g)" and "\<forall>r\<in>set rs. request_ok r"
  shows "answers (visit exists) rs g = map (visit_answer exists (pg_base g)) rs"
proof -
  have "answers (visit exists) rs g = answers (\<lambda>r m. (visit_answer exists (pg_base g) r, m)) rs ()"
    by (rule visits.same_answers) (use initialized_ok [OF assms(1)] assms(2) in auto)
  then show ?thesis by (simp add: spec_answers)
qed

lemma session_frees:
  assumes "initialize_pathing_engine exists b Pathing_new = (0, g)" and "\<forall>r\<in>set rs. request_ok r"
  defines "run \<equiv> fold (\<lambda>r g. snd (visit exists r g)) rs g"
  shows "pg_heap run = Map.empty \<and> \<not> pg_undefined run"
proof -
  have "pathing_ok run \<and> pg_heap run = Map.empty \<and> \<not> pg_undefined run"
    unfolding run_def by (rule arrays.inv_run) (use initialized_ok [OF assms(1)] assms(2) in auto)
  then show ?thesis by blast
qed



end
