(* ===== verification/Pathing_Containment.thy ===== *)
theory Pathing_Containment
  imports Pathing_Routes "HOL-Library.Sublist"
begin

text \<open>
  Which routes of the pathing engine stay below their directory, and where its routes, its index search,
  its blocked files and its cache do not do what they mean to.
\<close>

section \<open>Containment\<close>

text \<open>The components of a path, and a path below a directory.\<close>

definition components :: "string \<Rightarrow> string list" where
  "components s = filter (\<lambda>c. c \<noteq> ''.'') (path_parts [] s)"

definition upless :: "string \<Rightarrow> bool" where
  "upless s \<longleftrightarrow> ''..'' \<notin> set (path_parts [] s)"

definition below :: "string \<Rightarrow> string \<Rightarrow> bool" where
  "below d s \<longleftrightarrow> upless s \<and> prefix (components d) (components s)"

lemma path_parts_join: "path_parts cur (a @ CHR ''/'' # b) = path_parts cur a @ path_parts [] b"
  by (induction cur a rule: path_parts.induct) auto

lemma path_parts_sub: "c \<in> set (path_parts cur s) \<Longrightarrow> \<exists>a b. cur @ s = a @ c @ b"
proof (induction cur s rule: path_parts.induct)
  case (2 cur x s)
  show ?case
  proof (cases "x = CHR ''/'' \<and> c \<in> set (path_parts [] s)")
    case True
    then obtain a b where "s = a @ c @ b" using 2(1) by auto
    then have "cur @ x # s = (cur @ x # a) @ c @ b" by simp
    then show ?thesis by blast
  next
    case False
    then show ?thesis using 2 by (auto split: if_splits)
  qed
qed (auto split: if_splits intro: exI [of _ "[]"])

lemma upless_if: "\<not> contains s ''..'' \<Longrightarrow> upless s"
  using path_parts_sub [of "''..''" "[]" s] by (auto simp: upless_def contains_iff)

lemma normal_parts_upless: "''..'' \<notin> set ps \<Longrightarrow> normal_parts rooted st ps = rev st @ filter (\<lambda>c. c \<noteq> ''.'') ps"
  by (induction rooted st ps rule: normal_parts.induct) auto

lemma path_parts_component:
  assumes "CHR ''/'' \<notin> set p"
  shows "path_parts cur (p @ s) = path_parts (cur @ p) s"
  using assms by (induction p arbitrary: cur) auto

lemma path_parts_slashed:
  assumes "\<forall>p\<in>set ps. p \<noteq> [] \<and> CHR ''/'' \<notin> set p"
  shows "path_parts [] (slashed ps) = ps" "path_parts [] (slashed ps @ ''/'') = ps"
  using assms by (induction ps rule: slashed.induct) (auto simp: path_parts_component path_parts_component [where s = "[]", simplified])

lemma path_parts_slashless: "CHR ''/'' \<notin> set cur \<Longrightarrow> c \<in> set (path_parts cur s) \<Longrightarrow> CHR ''/'' \<notin> set c"
  by (induction cur s rule: path_parts.induct) (auto split: if_splits)

lemma components_normal:
  assumes "upless s"
  shows "components (lexically_normal s) = components s \<and> upless (lexically_normal s)"
proof -
  let ?ns = "components s"
  have n: "normal_parts r [] (path_parts [] s) = ?ns" for r
    using assms by (simp add: normal_parts_upless components_def upless_def)
  have "\<forall>p\<in>set ?ns. p \<noteq> [] \<and> CHR ''/'' \<notin> set p \<and> p \<noteq> ''..'' \<and> p \<noteq> ''.''"
    using path_parts_nonempty path_parts_slashless [of "[]"] assms by (auto simp: components_def upless_def)
  then have "path_parts [] (lexically_normal s) = (if s \<noteq> [] \<and> hd s \<noteq> CHR ''/'' \<and> ?ns = [] then [''.''] else ?ns)
      \<and> filter (\<lambda>c. c \<noteq> ''.'') ?ns = ?ns \<and> ''..'' \<notin> set ?ns"
    using path_parts_slashed [of ?ns] by (auto simp: lexically_normal_def n Let_def filter_id_conv components_def)
  then show ?thesis by (auto simp: upless_def components_def)
qed

lemma components_join: "components (a @ CHR ''/'' # b) = components a @ components b"
  by (simp add: components_def path_parts_join)

lemma upless_join [simp]: "upless (a @ CHR ''/'' # b) \<longleftrightarrow> upless a \<and> upless b"
  by (simp add: upless_def path_parts_join)

lemma parts_without_slash: "path_parts [] (without_slash s) = path_parts [] s"
  by (cases s) (simp_all add: without_slash_def starts_with_slash_def)

lemma resolved_components:
  assumes "upless base" and "upless s"
  shows "components (resolved base s) = components base @ components s" "upless (resolved base s)"
proof -
  have "upless (base @ CHR ''/'' # without_slash s)" using assms by (simp add: upless_def path_parts_join parts_without_slash)
  from components_normal [OF this] show "components (resolved base s) = components base @ components s" "upless (resolved base s)"
    by (simp_all add: resolved_def components_join) (simp add: components_def parts_without_slash)
qed

lemma below_join: "below d s \<Longrightarrow> upless t \<Longrightarrow> below d (s @ CHR ''/'' # t)"
  by (auto simp: below_def components_join prefix_def)

lemma below_resolved: "upless base \<Longrightarrow> upless s \<Longrightarrow> below base (resolved base s)"
  by (simp add: below_def resolved_components)

lemma below_file:
  assumes "file_answer exists base (rdir @ CHR ''/'' # f) = Some s" and "upless base" and "upless rdir" and "upless f"
  shows "below (base @ CHR ''/'' # rdir) s"
proof -
  have "s = resolved base (rdir @ CHR ''/'' # f)" using assms(1) by (simp add: file_answer_def split: if_splits)
  then show ?thesis using assms by (simp add: below_def resolved_components components_join)
qed

lemma upless_index: "f \<in> set index_files \<Longrightarrow> upless f"
  by (auto simp: index_files_def upless_def)

lemma below_index:
  assumes "index_answer exists base d = Some s" and "upless base" and "upless d"
  shows "below base s"
proof -
  obtain f where "s = resolved base d @ CHR ''/'' # f" "f \<in> set index_files"
    using assms(1) by (auto simp: index_answer_def find_Some_iff)
  then show ?thesis using assms(2,3) by (simp add: below_join below_resolved upless_index)
qed

lemma below_outer: "below (base @ CHR ''/'' # rdir) s \<Longrightarrow> below base s"
  by (auto simp: below_def components_join dest: append_prefixD)

lemma below_file_or_index:
  assumes "file_or_index_answer exists blocked base p = Some s" and "upless base" and "upless p"
  shows "below base s"
  using assms below_resolved [OF assms(2,3)] below_index [of exists base "resolved base p" s]
  by (auto simp: file_or_index_answer_def Let_def resolved_components split: if_splits)

lemma upless_prefix: "\<not> contains path ''..'' \<Longrightarrow> upless (strip_prefix pre path)"
proof -
  assume n: "\<not> contains path ''..''"
  have "\<not> contains (drop k path) ''..''" for k
    using n unfolding contains_iff by (metis append_assoc append_take_drop_id)
  then show ?thesis using n by (simp add: strip_prefix_def upless_if)
qed

lemma orelse_Some: "orelse x y = Some s \<longleftrightarrow> x = Some s \<or> x = None \<and> y = Some s"
  by (cases x) (auto simp: orelse_def)

lemma below_first:
  "first_answer exists base rdir fs = Some s \<Longrightarrow> upless base \<Longrightarrow> upless rdir \<Longrightarrow> \<forall>f\<in>set fs. upless f \<Longrightarrow> below base s"
  by (induction fs) (auto simp: orelse_Some dest: below_outer [OF below_file])

lemma below_admin:
  assumes "admin_answer exists base path rdir = Some s" and "upless base" and "upless rdir"
  shows "below (base @ CHR ''/'' # rdir) s"
proof -
  have n: "\<not> contains path ''..''" using assms(1) by (auto simp: admin_answer_def)
  have "upless (if path = ''/admin'' then ''/'' else strip_prefix ''/admin'' path)" "upless ''index.html''"
    using upless_prefix [OF n] by (simp_all add: upless_def)
  then show ?thesis using assms n below_file [of exists base rdir _ s]
    by (auto simp: admin_answer_def Let_def orelse_Some split: if_splits)
qed

lemma below_portal:
  assumes "portal_answer exists base path rdir = Some s" and "upless base" and "upless rdir" and "\<not> contains path ''..''"
  shows "below base s"
proof -
  have "upless ''index_gif3d.lamia''" by (simp add: upless_def)
  then show ?thesis using assms below_file [of exists base rdir _ s] below_outer below_index upless_prefix [OF assms(4)]
    by (fastforce simp: portal_answer_def orelse_Some split: if_splits)
qed

lemma below_panel:
  assumes "panel_answer exists base path rdir = Some s" and "upless base" and "upless rdir" and "\<not> contains path ''..''"
  shows "below base s"
  using assms below_file [of exists base rdir _ s] below_outer below_index upless_prefix [OF assms(4)]
  by (fastforce simp: panel_answer_def orelse_Some split: if_splits)

lemma below_ssl:
  assumes "ssl_answer exists base path rdir = Some s" and "upless base" and "upless rdir" and "starts_with_slash path"
  shows "below base s"
proof -
  have n: "\<not> contains path ''..''" using assms(1) by (auto simp: ssl_answer_def)
  obtain q where q: "path = CHR ''/'' # q" using assms(4) by (cases path) (auto simp: starts_with_slash_def)
  have "upless (rdir @ path)" using assms(3) upless_if [OF n] unfolding q upless_join by (simp add: upless_def)
  moreover have "\<forall>f\<in>set ssl_index_files. upless f" by code_simp
  moreover have "upless ''web/admin''" "upless ''web/portal''" "upless ''web/panel''" by code_simp+
  ultimately show ?thesis using assms(1-3) n
    by (auto simp: ssl_answer_def split: if_splits
          dest: below_first below_outer [OF below_admin] below_portal below_panel below_file_or_index)
qed



section \<open>What the routes do not mean to do\<close>

text \<open>The virtual host and portal routes, and the panel's, do not validate the path: it leaves the base directory.\<close>

lemma unvalidated_routes_leave_the_base:
  "route_answer (\<lambda>s. True) Virtualhost ''/srv'' ''/../../etc/passwd'' ''web'' = Some ''/etc/passwd''"
  "route_answer (\<lambda>s. True) Portal ''/srv'' ''/portal/../../etc/passwd'' ''web'' = Some ''/etc/passwd''"
  "route_answer (\<lambda>s. True) Panel ''/srv'' ''/panel/../../etc/passwd'' ''web'' = Some ''/etc/passwd''"
  by code_simp+

text \<open>A directory that exists is answered itself; its index is looked up where nothing exists, below the base twice.\<close>

lemma directory_index_is_not_found:
  "route_answer (\<lambda>s. s \<in> {''/srv/web/d'', ''/srv/web/d/index.html''}) Virtualhost ''/srv'' ''/d'' ''web'' = Some ''/srv/web/d''"
  "route_answer (\<lambda>s. s = ''/srv/web/d/index.html'') Virtualhost ''/srv'' ''/d'' ''web'' = None"
  "route_answer (\<lambda>s. s = ''/srv/srv/web/d/index.html'') Virtualhost ''/srv'' ''/d'' ''web''
    = Some ''/srv/srv/web/d/index.html''"
  by code_simp+

text \<open>The SSL route blocks keys, but not below its portal and its panel.\<close>

lemma keys_are_served_below_the_portal:
  "route_answer (\<lambda>s. True) Ssl ''/srv'' ''/x.key'' ''web'' = None"
  "route_answer (\<lambda>s. True) Ssl ''/srv'' ''/portal/x.key'' ''web'' = Some ''/srv/web/portal/x.key''"
  by code_simp+

text \<open>A path that only starts with the letters of a prefix is taken for one below it.\<close>

lemma administrator_is_below_admin:
  "route_answer (\<lambda>s. True) Admin ''/'' ''/administrator'' ''web'' = Some ''/web/istrator''"
  by code_simp

text \<open>The cache is not cleared when the base directory changes, and a base directory that is refused stays.\<close>

lemma cache_outlives_the_base:
  "(let g = snd (resolve_path (\<lambda>s. True) (Some ''x'') (snd (initialize_pathing_engine (\<lambda>s. True) (Some ''/a'') Pathing_new)));
        (rc, g) = initialize_pathing_engine (\<lambda>s. True) (Some ''/b'') g;
        (p, g) = resolve_path (\<lambda>s. True) (Some ''x'') g
    in (rc, text_at g p)) = (0, Some ''/a/x'')"
  by code_simp

lemma refused_base_stays:
  "(let (rc, g) = initialize_pathing_engine (\<lambda>s. s = ''/a'') (Some ''/b'')
          (snd (initialize_pathing_engine (\<lambda>s. s = ''/a'') (Some ''/a'') Pathing_new));
        (p, g) = resolve_path (\<lambda>s. s = ''/a'') (Some ''x'') g
    in (rc, text_at g p)) = (-1, Some ''/b/x'')"
  by code_simp

text \<open>The default of a temporary URL is not from the allocator \<open>free_path_string\<close> frees with, and a user may be two dots.\<close>

lemma temporary_default_cannot_be_freed:
  "(let g = snd (initialize_pathing_engine (\<lambda>s. s = ''/'') None Pathing_new);
        (p, g) = route_temporary_url (\<lambda>s. s = ''/'') (Some ''user=..'') (Some ''web'') g
    in (text_at g p, pg_undefined g, pg_undefined (free_path_string p g)))
    = (Some ''web/../working-dir/index.html'', False, True)"
  by code_simp

text \<open>An empty path has no first character to look at.\<close>

lemma empty_path_is_undefined: "pg_undefined (snd (resolve_path exists (Some []) Pathing_new))"
  by (simp add: resolve_path_def initialize_pathing_engine_def Pathing_new_def needs_char_def allocate_def Let_def)

end
