(* ===== verification/Security_Proxy.thy ===== *)
theory Security_Proxy
  imports Std_Numbers Std_Containers
begin

text \<open>
  The security proxy of \<open>medusa_security_proxy.hpp\<close>: its rules, rate limits, lists of addresses and events,
  the phases of \<open>process_request\<close>, what its threads do to the state, the status and the global instance.
  Times are nanoseconds since the epoch; a whole call reads the clock once. The regular expression library is
  the parameter \<open>rx\<close>, which gives the predicate of a pattern, searched without regard to case, or the message
  of the error it throws; the numbers of the random generator are the parameter \<open>rng\<close>. The log, which is
  empty, and the metrics in floating point are left out.
\<close>

section \<open>Data\<close>

datatype ThreatLevel = MINIMAL | LOW | MEDIUM | HIGH | CRITICAL | YORKSHIRE_CHAMPION

fun level_rank :: "ThreatLevel \<Rightarrow> nat" where
  "level_rank MINIMAL = 0" | "level_rank LOW = 1" | "level_rank MEDIUM = 2" | "level_rank HIGH = 3"
| "level_rank CRITICAL = 4" | "level_rank YORKSHIRE_CHAMPION = 5"

instantiation ThreatLevel :: linorder
begin

definition less_eq_ThreatLevel :: "ThreatLevel \<Rightarrow> ThreatLevel \<Rightarrow> bool" where
  "a \<le> b \<longleftrightarrow> level_rank a \<le> level_rank b"

definition less_ThreatLevel :: "ThreatLevel \<Rightarrow> ThreatLevel \<Rightarrow> bool" where
  "a < b \<longleftrightarrow> level_rank a < level_rank b"

instance
proof
  fix a b :: ThreatLevel
  show "a = b" if "a \<le> b" "b \<le> a"
    using that by (cases a; cases b) (simp_all add: less_eq_ThreatLevel_def)
qed (auto simp: less_eq_ThreatLevel_def less_ThreatLevel_def)

end

datatype SecurityEventType =
    ACCESS_ATTEMPT | AUTHENTICATION_FAILURE | RATE_LIMIT_EXCEEDED | SUSPICIOUS_PATTERN | INJECTION_ATTEMPT
  | UNAUTHORIZED_ACCESS | BRUTE_FORCE_ATTACK | DDoS_ATTACK | MALWARE_DETECTED | QUANTUM_INTRUSION_ATTEMPT

record ClientConnection =
  client_id :: string
  ip_address :: string
  user_agent :: string
  connection_time :: int
  last_activity :: int
  request_count :: nat
  failed_attempts :: nat
  cc_threat_level :: ThreatLevel
  authenticated :: bool
  session_token :: string

record SecurityRule =
  rule_id :: string
  rule_name :: string
  rule_pattern :: string
  rule_event :: SecurityEventType
  rule_level :: ThreatLevel
  rule_action :: string
  rule_enabled :: bool
  trigger_count :: nat
  rule_window :: int
  rule_parameters :: "(string, string) omap"

record SecurityEvent =
  event_id :: string
  event_type :: SecurityEventType
  event_level :: ThreatLevel
  event_client :: string
  event_description :: string
  event_time :: int
  action_taken :: string

record RateLimitConfig =
  rl_endpoint :: string
  rl_max_requests :: nat
  rl_window :: int
  rl_action :: string
  rl_enabled :: bool

record SecurityMetrics =
  total_connections :: nat
  blocked_connections :: nat
  authentication_failures :: nat
  injection_attempts_blocked :: nat
  ddos_attacks_mitigated :: nat
  malware_detections :: nat
  quantum_intrusions_prevented :: nat
  last_threat_detected :: int
  proxy_started :: int
  active_security_rules :: nat
  false_positive_rate :: nat

record SecurityDecision =
  sd_allow :: bool
  sd_level :: ThreatLevel
  sd_reason :: string
  sd_action :: string
  sd_headers :: "(string, string) omap"
  sd_delay :: int

record MilitarySecurityProxy =
  proxy_active :: bool
  shutdown_requested :: bool
  active_connections :: "(string, ClientConnection) omap"
  security_rules :: "SecurityRule list"
  security_events :: "SecurityEvent list"
  rate_limits :: "(string, RateLimitConfig) omap"
  blocked_ips :: "string oset"
  whitelisted_ips :: "string oset"
  master_key :: "nat list"
  encryption_iv :: "nat list"
  drawn :: nat
  px_metrics :: SecurityMetrics

definition SecurityDecision_new :: SecurityDecision where
  "SecurityDecision_new = \<lparr>sd_allow = False, sd_level = MINIMAL, sd_reason = [], sd_action = [], sd_headers = [], sd_delay = 0\<rparr>"

definition thingamabob_endpoints :: "(string, string list) omap" where
  "thingamabob_endpoints =
    [(''api'', [''/api'', ''/rest'', ''/graphql'', ''/webhook'', ''/callback'']),
     (''calendar'', [''/calendar'', ''/caldav'', ''/carddav'', ''/events'', ''/contacts'']),
     (''filemanager'', [''/files'', ''/upload'', ''/download'', ''/browse'', ''/manager'']),
     (''jupyter'', [''/jupyter'', ''/lab'', ''/notebook'', ''/kernel'', ''/api/kernels'']),
     (''portal'', [''/portal'', ''/admin'', ''/dashboard'', ''/settings'', ''/config'']),
     (''vsftpd'', [''/ftp'', ''/sftp'', ''/ftps'', ''/transfer'', ''/upload'']),
     (''webmail'', [''/webmail'', ''/mail'', ''/imap'', ''/pop3'', ''/smtp''])]"

definition px_ms :: int where "px_ms = 1000000"

section \<open>Addresses, rules\<close>

definition on_px_metrics :: "(SecurityMetrics \<Rightarrow> SecurityMetrics) \<Rightarrow> MilitarySecurityProxy \<Rightarrow> MilitarySecurityProxy" where
  "on_px_metrics g x = x\<lparr>px_metrics := g (px_metrics x)\<rparr>"

definition block_ip_address :: "string \<Rightarrow> MilitarySecurityProxy \<Rightarrow> MilitarySecurityProxy" where
  "block_ip_address ip x =
     (let x = x\<lparr>blocked_ips := os_insert ip (blocked_ips x)\<rparr>;
          x = on_px_metrics (\<lambda>m. m\<lparr>blocked_connections := blocked_connections m + 1\<rparr>) x
      in x\<lparr>active_connections := um_erase ip (active_connections x)\<rparr>)"

definition whitelist_ip_address :: "string \<Rightarrow> MilitarySecurityProxy \<Rightarrow> MilitarySecurityProxy" where
  "whitelist_ip_address ip x =
     x\<lparr>whitelisted_ips := os_insert ip (whitelisted_ips x), blocked_ips := os_erase ip (blocked_ips x)\<rparr>"

definition is_ip_blocked :: "string \<Rightarrow> MilitarySecurityProxy \<Rightarrow> bool" where
  "is_ip_blocked ip x = (if ip \<in> set (whitelisted_ips x) then False else ip \<in> set (blocked_ips x))"

definition configure_security_rule :: "SecurityRule \<Rightarrow> MilitarySecurityProxy \<Rightarrow> MilitarySecurityProxy" where
  "configure_security_rule r x =
     (let rs = (case find_index (\<lambda>q. rule_id q = rule_id r) (security_rules x) of
                  Some i \<Rightarrow> (security_rules x)[i := r]
                | None \<Rightarrow> security_rules x @ [r])
      in on_px_metrics (\<lambda>m. m\<lparr>active_security_rules := length (filter rule_enabled rs)\<rparr>) (x\<lparr>security_rules := rs\<rparr>))"

section \<open>Events\<close>

definition get_action_for_event_type :: "SecurityEventType \<Rightarrow> string" where
  "get_action_for_event_type ty =
     (case ty of INJECTION_ATTEMPT \<Rightarrow> ''BLOCKED'' | BRUTE_FORCE_ATTACK \<Rightarrow> ''IP_BLOCKED'' | DDoS_ATTACK \<Rightarrow> ''RATE_LIMITED''
      | _ \<Rightarrow> ''LOGGED'')"

definition update_threat_metrics :: "int \<Rightarrow> SecurityEventType \<Rightarrow> SecurityMetrics \<Rightarrow> SecurityMetrics" where
  "update_threat_metrics now ty m =
     (let m = (case ty of
            AUTHENTICATION_FAILURE \<Rightarrow> m\<lparr>authentication_failures := authentication_failures m + 1\<rparr>
          | INJECTION_ATTEMPT \<Rightarrow> m\<lparr>injection_attempts_blocked := injection_attempts_blocked m + 1\<rparr>
          | DDoS_ATTACK \<Rightarrow> m\<lparr>ddos_attacks_mitigated := ddos_attacks_mitigated m + 1\<rparr>
          | MALWARE_DETECTED \<Rightarrow> m\<lparr>malware_detections := malware_detections m + 1\<rparr>
          | QUANTUM_INTRUSION_ATTEMPT \<Rightarrow> m\<lparr>quantum_intrusions_prevented := quantum_intrusions_prevented m + 1\<rparr>
          | _ \<Rightarrow> m)
      in m\<lparr>last_threat_detected := now\<rparr>)"

definition generate_event_id :: "int \<Rightarrow> string" where
  "generate_event_id now = ''event_'' @ to_string_int (now div 1000)"

definition record_security_event ::
  "int \<Rightarrow> SecurityEventType \<Rightarrow> ThreatLevel \<Rightarrow> string \<Rightarrow> string \<Rightarrow> MilitarySecurityProxy \<Rightarrow> MilitarySecurityProxy" where
  "record_security_event now ty lv ip desc x =
     (let e = \<lparr>event_id = generate_event_id now, event_type = ty, event_level = lv, event_client = ip,
               event_description = desc, event_time = now, action_taken = get_action_for_event_type ty\<rparr>;
          q = security_events x @ [e];
          x = x\<lparr>security_events := (if 10000 < length q then tl q else q)\<rparr>
      in on_px_metrics (update_threat_metrics now ty) x)"

section \<open>The constructor\<close>

text \<open>A pattern of the source, its backslashes written as tildes.\<close>

definition raw :: "string \<Rightarrow> string" where
  "raw s = map (\<lambda>c. if c = CHR ''~'' then CHR 0x5C else c) s"

definition default_rules :: "SecurityRule list" where
  "default_rules =
    [\<lparr>rule_id = ''sql_injection_1'', rule_name = ''SQL Injection Detection - Basic'',
      rule_pattern = raw ''(union|select|insert|update|delete|drop|exec|script).*(~s|%20|%0A)+'',
      rule_event = INJECTION_ATTEMPT, rule_level = CRITICAL, rule_action = ''block'', rule_enabled = True,
      trigger_count = 1, rule_window = 1000 * px_ms, rule_parameters = [(''type'', ''sql_injection'')]\<rparr>,
     \<lparr>rule_id = ''xss_detection_1'', rule_name = ''XSS Detection - Script Tags'',
      rule_pattern = raw ''<script[~s~S]*?>[~s~S]*?</script>'',
      rule_event = INJECTION_ATTEMPT, rule_level = HIGH, rule_action = ''block'', rule_enabled = True,
      trigger_count = 1, rule_window = 1000 * px_ms, rule_parameters = [(''type'', ''xss_injection'')]\<rparr>,
     \<lparr>rule_id = ''cmd_injection_1'', rule_name = ''Command Injection Detection'',
      rule_pattern = raw ''(;|~||~&|~$~(|~`|>|<|~~)'',
      rule_event = INJECTION_ATTEMPT, rule_level = CRITICAL, rule_action = ''block'', rule_enabled = True,
      trigger_count = 1, rule_window = 500 * px_ms, rule_parameters = [(''type'', ''command_injection'')]\<rparr>,
     \<lparr>rule_id = ''brute_force_1'', rule_name = ''Brute Force Attack Detection'', rule_pattern = ''login|signin|auth'',
      rule_event = BRUTE_FORCE_ATTACK, rule_level = HIGH, rule_action = ''block'', rule_enabled = True,
      trigger_count = 10, rule_window = 300000 * px_ms, rule_parameters = [(''type'', ''brute_force'')]\<rparr>,
     \<lparr>rule_id = ''ddos_detection_1'', rule_name = ''DDoS Attack Detection'', rule_pattern = ''.*'',
      rule_event = DDoS_ATTACK, rule_level = HIGH, rule_action = ''block'', rule_enabled = True,
      trigger_count = 100, rule_window = 60000 * px_ms, rule_parameters = [(''type'', ''ddos'')]\<rparr>]"

definition endpoint_limit :: "string \<Rightarrow> RateLimitConfig" where
  "endpoint_limit e = \<lparr>rl_endpoint = e, rl_max_requests = 100, rl_window = 60000 * px_ms, rl_action = ''reject'', rl_enabled = True\<rparr>"

definition initialize_thingamabob_protection :: "MilitarySecurityProxy \<Rightarrow> MilitarySecurityProxy" where
  "initialize_thingamabob_protection x =
     x\<lparr>rate_limits := fold (\<lambda>e. om_assign e (endpoint_limit e)) (concat (map snd thingamabob_endpoints)) (rate_limits x)\<rparr>"

definition initialize_quantum_encryption :: "(nat \<Rightarrow> nat) \<Rightarrow> MilitarySecurityProxy \<Rightarrow> MilitarySecurityProxy" where
  "initialize_quantum_encryption rng x =
     x\<lparr>master_key := map (\<lambda>i. rng (drawn x + i) mod 256) [0..<32],
       encryption_iv := map (\<lambda>i. rng (drawn x + 32 + i) mod 256) [0..<16], drawn := drawn x + 48\<rparr>"

definition SecurityMetrics_new :: SecurityMetrics where
  "SecurityMetrics_new = \<lparr>total_connections = 0, blocked_connections = 0, authentication_failures = 0,
     injection_attempts_blocked = 0, ddos_attacks_mitigated = 0, malware_detections = 0, quantum_intrusions_prevented = 0,
     last_threat_detected = 0, proxy_started = 0, active_security_rules = 0, false_positive_rate = 0\<rparr>"

definition MilitarySecurityProxy_new :: "(nat \<Rightarrow> nat) \<Rightarrow> MilitarySecurityProxy" where
  "MilitarySecurityProxy_new rng =
     initialize_thingamabob_protection (fold configure_security_rule default_rules (initialize_quantum_encryption rng
       \<lparr>proxy_active = False, shutdown_requested = False, active_connections = [], security_rules = [], security_events = [],
        rate_limits = [], blocked_ips = [], whitelisted_ips = [], master_key = replicate 32 0, encryption_iv = replicate 16 0,
        drawn = 0, px_metrics = SecurityMetrics_new\<rparr>))"

section \<open>The phases of a request\<close>

definition generate_client_id :: "(nat \<Rightarrow> nat) \<Rightarrow> MilitarySecurityProxy \<Rightarrow> string \<times> MilitarySecurityProxy" where
  "generate_client_id rng x = (''client_'' @ to_string_nat (rng (drawn x)), x\<lparr>drawn := drawn x + 1\<rparr>)"

definition over_limit :: "string \<Rightarrow> ClientConnection \<Rightarrow> string \<times> RateLimitConfig \<Rightarrow> bool" where
  "over_limit path c = (\<lambda>(endpoint, l).
     starts_with endpoint path \<and> rl_enabled l
     \<and> last_activity c - connection_time c < rl_window l \<and> rl_max_requests l < request_count c)"

definition check_rate_limits ::
  "(nat \<Rightarrow> nat) \<Rightarrow> int \<Rightarrow> string \<Rightarrow> string \<Rightarrow> MilitarySecurityProxy \<Rightarrow> bool \<times> MilitarySecurityProxy" where
  "check_rate_limits rng now ip path x =
     (case map_of (active_connections x) ip of
        None \<Rightarrow>
          let (i, x) = generate_client_id rng x;
              c = \<lparr>client_id = i, ip_address = ip, user_agent = [], connection_time = now, last_activity = now,
                   request_count = 1, failed_attempts = 0, cc_threat_level = MINIMAL, authenticated = False, session_token = []\<rparr>
          in (True, x\<lparr>active_connections := om_assign ip c (active_connections x)\<rparr>)
      | Some c \<Rightarrow>
          let c = c\<lparr>request_count := request_count c + 1, last_activity := now\<rparr>
          in (\<not> (\<exists>l\<in>set (rate_limits x). over_limit path c l),
              x\<lparr>active_connections := om_assign ip c (active_connections x)\<rparr>))"

definition pattern_data :: "string \<Rightarrow> string \<Rightarrow> (string, string) omap \<Rightarrow> string \<Rightarrow> string" where
  "pattern_data meth path hs body = meth @ '' '' @ path @ '' '' @ body @ concat (map (\<lambda>(k, v). '' '' @ k @ '':'' @ v) hs)"

type_synonym regex_library = "string \<Rightarrow> string + (string \<Rightarrow> bool)"

text \<open>The loop over the rules ends early when a pattern does not compile; what it recorded until then stays.\<close>

fun apply_rules ::
  "regex_library \<Rightarrow> int \<Rightarrow> string \<Rightarrow> SecurityRule list \<Rightarrow> ThreatLevel \<Rightarrow> MilitarySecurityProxy
   \<Rightarrow> (string + ThreatLevel) \<times> MilitarySecurityProxy" where
  "apply_rules rx now data [] lv x = (Inr lv, x)"
| "apply_rules rx now data (r # rs) lv x =
     (if \<not> rule_enabled r then apply_rules rx now data rs lv x
      else case rx (rule_pattern r) of
          Inl what \<Rightarrow> (Inl what, x)
        | Inr matches \<Rightarrow>
            if matches data
            then apply_rules rx now data rs (if lv < rule_level r then rule_level r else lv)
                   (record_security_event now (rule_event r) (rule_level r) [] (''Rule triggered: '' @ rule_name r) x)
            else apply_rules rx now data rs lv x)"

definition analyze_request_patterns ::
  "regex_library \<Rightarrow> int \<Rightarrow> string \<Rightarrow> string \<Rightarrow> (string, string) omap \<Rightarrow> string \<Rightarrow> MilitarySecurityProxy
   \<Rightarrow> (string + ThreatLevel) \<times> MilitarySecurityProxy" where
  "analyze_request_patterns rx now meth path hs body x =
     apply_rules rx now (pattern_data meth path hs body) (security_rules x) MINIMAL x"

definition injection_patterns :: "string list" where
  "injection_patterns =
    [raw ''(~%27)|(~')|(~-~-)|(~%23)|(#)'',
     raw ''(((~%3D)|(=))[^~n]*((~%27)|(~')|(~-~-)|(~%23)|(#)))'',
     raw ''~w*((~%27)|(~'))((~%6F)|o|(~%4F))((~%72)|r|(~%52))'',
     raw ''(((~%27)|(~'))union)'',
     raw ''exec(~s|~+)+(s|x)p~w+'',
     ''<script[^>]*>.*?</script>'',
     ''javascript:'',
     ''vbscript:'',
     raw ''onload~s*='',
     raw ''onerror~s*='',
     raw ''~$~(|~`|>|<|~~|~||~&'']"

text \<open>All patterns are compiled before the first is searched.\<close>

fun compile_all :: "regex_library \<Rightarrow> string list \<Rightarrow> string + (string \<Rightarrow> bool) list" where
  "compile_all rx [] = Inr []"
| "compile_all rx (p # ps) =
     (case rx p of
        Inl what \<Rightarrow> Inl what
      | Inr m \<Rightarrow> (case compile_all rx ps of Inl what \<Rightarrow> Inl what | Inr ms \<Rightarrow> Inr (m # ms)))"

definition injection_data :: "string \<Rightarrow> (string, string) omap \<Rightarrow> string \<Rightarrow> string" where
  "injection_data path hs body = path @ '' '' @ body @ concat (map (\<lambda>(k, v). '' '' @ v) hs)"

definition detect_injection_attempts :: "regex_library \<Rightarrow> string \<Rightarrow> (string, string) omap \<Rightarrow> string \<Rightarrow> string + bool" where
  "detect_injection_attempts rx path hs body =
     (case compile_all rx injection_patterns of
        Inl what \<Rightarrow> Inl what
      | Inr ms \<Rightarrow> Inr (\<exists>m\<in>set ms. m (injection_data path hs body)))"

definition apply_thingamabob_security_rules :: "string \<Rightarrow> string \<Rightarrow> SecurityDecision" where
  "apply_thingamabob_security_rules th path =
     (let d = SecurityDecision_new\<lparr>sd_allow := True, sd_level := MINIMAL\<rparr> in
      if th = ''webmail'' then (if contains path ''password'' \<or> contains path ''login'' then d\<lparr>sd_level := MEDIUM\<rparr> else d)
      else if th = ''jupyter'' then (if contains path ''execute'' then d\<lparr>sd_level := HIGH\<rparr> else d)
      else if th = ''filemanager''
      then (if contains path ''..''
            then d\<lparr>sd_allow := False, sd_level := CRITICAL, sd_reason := ''Path traversal attempt detected''\<rparr> else d)
      else d)"

text \<open>The break leaves the endpoints of one service only, so the last service that has one decides.\<close>

definition check_thingamabob_security :: "string \<Rightarrow> SecurityDecision" where
  "check_thingamabob_security path =
     fold (\<lambda>(th, eps) d. if \<exists>e\<in>set eps. starts_with e path then apply_thingamabob_security_rules th path else d)
       thingamabob_endpoints (SecurityDecision_new\<lparr>sd_allow := True, sd_level := MINIMAL\<rparr>)"

definition verify_quantum_security_signature :: "(string, string) omap \<Rightarrow> bool" where
  "verify_quantum_security_signature hs = (case map_of hs ''X-Quantum-Signature'' of Some v \<Rightarrow> 32 < length v | None \<Rightarrow> False)"

definition get_security_headers :: "(string, string) omap" where
  "get_security_headers =
     fold (\<lambda>(k, v). om_assign k v)
       [(''X-Content-Type-Options'', ''nosniff''), (''X-Frame-Options'', ''DENY''), (''X-XSS-Protection'', ''1; mode=block''),
        (''Strict-Transport-Security'', ''max-age=31536000; includeSubDomains''),
        (''Content-Security-Policy'', ''default-src '' @ [squote] @ ''self'' @ [squote]), (''X-Medusa-Security'', ''Yorkshire-Champion-15x''),
        (''X-Security-Proxy'', ''Military-Grade-Active''), (''X-Quantum-Protected'', ''true'')] []"

definition update_client_connection ::
  "int \<Rightarrow> string \<Rightarrow> (string, string) omap \<Rightarrow> MilitarySecurityProxy \<Rightarrow> MilitarySecurityProxy" where
  "update_client_connection now ip hs x =
     (case map_of (active_connections x) ip of
        None \<Rightarrow> x
      | Some c \<Rightarrow>
          let c = c\<lparr>last_activity := now\<rparr>;
              c = (case map_of hs ''User-Agent'' of Some u \<Rightarrow> c\<lparr>user_agent := u\<rparr> | None \<Rightarrow> c)
          in x\<lparr>active_connections := om_assign ip c (active_connections x)\<rparr>)"

section \<open>The request\<close>

definition refusal :: "ThreatLevel \<Rightarrow> string \<Rightarrow> string \<Rightarrow> SecurityDecision" where
  "refusal lv reason act = SecurityDecision_new\<lparr>sd_level := lv, sd_reason := reason, sd_action := act\<rparr>"

definition security_error :: "string \<Rightarrow> SecurityDecision" where
  "security_error what = refusal HIGH (''Security processing error: '' @ what) ''SECURITY_ERROR''"

definition approve ::
  "int \<Rightarrow> string \<Rightarrow> (string, string) omap \<Rightarrow> ThreatLevel \<Rightarrow> MilitarySecurityProxy \<Rightarrow> SecurityDecision \<times> MilitarySecurityProxy" where
  "approve now ip hs lv x =
     (let d = SecurityDecision_new;
          d = (if verify_quantum_security_signature hs then d
               else d\<lparr>sd_level := MEDIUM, sd_headers := om_assign ''X-Security-Warning'' ''Quantum signature missing'' (sd_headers d)\<rparr>);
          d = d\<lparr>sd_allow := True, sd_level := lv, sd_reason := ''Request approved by military-grade security'',
                sd_action := ''APPROVED'', sd_headers := get_security_headers\<rparr>;
          x = update_client_connection now ip hs x
      in (d, on_px_metrics (\<lambda>m. m\<lparr>total_connections := total_connections m + 1\<rparr>) x))"

text \<open>Phases 4 to 6, once the patterns have been looked at.\<close>

definition inspect_content ::
  "regex_library \<Rightarrow> int \<Rightarrow> string \<Rightarrow> string \<Rightarrow> (string, string) omap \<Rightarrow> string \<Rightarrow> ThreatLevel \<Rightarrow> MilitarySecurityProxy
   \<Rightarrow> SecurityDecision \<times> MilitarySecurityProxy" where
  "inspect_content rx now ip path hs body lv x =
     (case detect_injection_attempts rx path hs body of
        Inl what \<Rightarrow> (security_error what, x)
      | Inr True \<Rightarrow>
          let x = on_px_metrics (\<lambda>m. m\<lparr>injection_attempts_blocked := injection_attempts_blocked m + 1\<rparr>) x;
              x = record_security_event now INJECTION_ATTEMPT CRITICAL ip ''Injection attempt blocked'' x
          in (refusal CRITICAL ''Code injection attempt detected'' ''INJECTION_BLOCKED'', block_ip_address ip x)
      | Inr False \<Rightarrow>
          let t = check_thingamabob_security path in
          if \<not> sd_allow t then (refusal (sd_level t) (sd_reason t) ''THINGAMABOB_SECURITY_BLOCK'', x)
          else approve now ip hs lv x)"

definition process_request ::
  "regex_library \<Rightarrow> (nat \<Rightarrow> nat) \<Rightarrow> int \<Rightarrow> string \<Rightarrow> string \<Rightarrow> string \<Rightarrow> (string, string) omap \<Rightarrow> string
   \<Rightarrow> MilitarySecurityProxy \<Rightarrow> SecurityDecision \<times> MilitarySecurityProxy" where
  "process_request rx rng now ip meth path hs body x =
     (if is_ip_blocked ip x
      then (refusal HIGH ''IP address is blocked'' ''BLOCKED_IP'',
            record_security_event now UNAUTHORIZED_ACCESS HIGH ip ''Blocked IP attempted access'' x)
      else case check_rate_limits rng now ip path x of
          (False, x) \<Rightarrow>
            ((refusal MEDIUM ''Rate limit exceeded'' ''RATE_LIMITED'')\<lparr>sd_delay := 5000\<rparr>,
             record_security_event now RATE_LIMIT_EXCEEDED MEDIUM ip (''Rate limit exceeded for '' @ path) x)
        | (True, x) \<Rightarrow>
            (case analyze_request_patterns rx now meth path hs body x of
               (Inl what, x) \<Rightarrow> (security_error what, x)
             | (Inr lv, x) \<Rightarrow>
                 if HIGH \<le> lv
                 then (refusal lv ''Suspicious request pattern detected'' ''PATTERN_BLOCKED'',
                       record_security_event now SUSPICIOUS_PATTERN lv ip (''Suspicious pattern: '' @ meth @ '' '' @ path) x)
                 else inspect_content rx now ip path hs body lv x))"

section \<open>Threads, status, the global instance\<close>

definition px_start :: "int \<Rightarrow> MilitarySecurityProxy \<Rightarrow> bool \<times> MilitarySecurityProxy" where
  "px_start now x =
     (if proxy_active x then (True, x)
      else (True, (on_px_metrics (\<lambda>m. m\<lparr>proxy_started := now\<rparr>) x)\<lparr>proxy_active := True, shutdown_requested := False\<rparr>))"

definition px_stop :: "MilitarySecurityProxy \<Rightarrow> MilitarySecurityProxy" where
  "px_stop x = (if \<not> proxy_active x then x else x\<lparr>shutdown_requested := True, proxy_active := False\<rparr>)"

definition px_hour :: int where "px_hour = 3600000 * px_ms"

text \<open>A round of the monitoring thread.\<close>

definition cleanup_expired_connections :: "int \<Rightarrow> MilitarySecurityProxy \<Rightarrow> MilitarySecurityProxy" where
  "cleanup_expired_connections now x =
     x\<lparr>active_connections := filter (\<lambda>(ip, c). \<not> px_hour < now - last_activity c) (active_connections x)\<rparr>"

text \<open>A worker takes an event and does nothing with it.\<close>

definition security_worker :: "MilitarySecurityProxy \<Rightarrow> MilitarySecurityProxy" where
  "security_worker x =
     (if shutdown_requested x then x else case security_events x of [] \<Rightarrow> x | e # es \<Rightarrow> x\<lparr>security_events := es\<rparr>)"

definition count_total_protected_endpoints :: nat where
  "count_total_protected_endpoints = sum_list (map (\<lambda>(th, eps). length eps) thingamabob_endpoints)"

definition get_security_status :: "int \<Rightarrow> MilitarySecurityProxy \<Rightarrow> (string, string) omap" where
  "get_security_status now x =
     (let m = px_metrics x in
      fold (\<lambda>(k, v). om_assign k v)
       [(''proxy_status'', if proxy_active x then ''ACTIVE'' else ''INACTIVE''), (''security_level'', ''MILITARY_GRADE''),
        (''quantum_encryption'', ''ACTIVE''), (''yorkshire_multiplier'', ''15.000000x''),
        (''total_connections'', to_string_nat (total_connections m)),
        (''active_connections'', to_string_nat (length (active_connections x))),
        (''blocked_connections'', to_string_nat (blocked_connections m)),
        (''blocked_ips'', to_string_nat (length (blocked_ips x))),
        (''whitelisted_ips'', to_string_nat (length (whitelisted_ips x))),
        (''authentication_failures'', to_string_nat (authentication_failures m)),
        (''injection_attempts_blocked'', to_string_nat (injection_attempts_blocked m)),
        (''ddos_attacks_mitigated'', to_string_nat (ddos_attacks_mitigated m)),
        (''malware_detections'', to_string_nat (malware_detections m)),
        (''quantum_intrusions_prevented'', to_string_nat (quantum_intrusions_prevented m)),
        (''active_security_rules'', to_string_nat (active_security_rules m)),
        (''threat_detection_accuracy'', ''99.900000%''), (''false_positive_rate'', to_string_nat (false_positive_rate m)),
        (''protected_thingamabobs'', to_string_nat (length thingamabob_endpoints)),
        (''total_protected_endpoints'', to_string_nat count_total_protected_endpoints),
        (''uptime_hours'', to_string_int ((now - proxy_started m) div px_hour))] [])"

text \<open>The order \<open>std::sort\<close> gives events of the same time is not specified; here it is the one of the queue.\<close>

definition get_security_events :: "nat \<Rightarrow> ThreatLevel \<Rightarrow> MilitarySecurityProxy \<Rightarrow> SecurityEvent list" where
  "get_security_events limit lv x =
     sort_key (\<lambda>e. - event_time e) (take limit (filter (\<lambda>e. lv \<le> event_level e) (security_events x)))"

definition initialize_security_proxy ::
  "(nat \<Rightarrow> nat) \<Rightarrow> int \<Rightarrow> MilitarySecurityProxy option \<Rightarrow> bool \<times> MilitarySecurityProxy option" where
  "initialize_security_proxy rng now g =
     (case g of
        None \<Rightarrow> (case px_start now (MilitarySecurityProxy_new rng) of (r, x) \<Rightarrow> (r, Some x))
      | Some x \<Rightarrow> (True, Some x))"

definition process_secure_request ::
  "regex_library \<Rightarrow> (nat \<Rightarrow> nat) \<Rightarrow> int \<Rightarrow> string \<Rightarrow> string \<Rightarrow> string \<Rightarrow> (string, string) omap \<Rightarrow> string
   \<Rightarrow> MilitarySecurityProxy option \<Rightarrow> SecurityDecision \<times> MilitarySecurityProxy option" where
  "process_secure_request rx rng now ip meth path hs body g =
     (case g of
        Some x \<Rightarrow> (case process_request rx rng now ip meth path hs body x of (d, x) \<Rightarrow> (d, Some x))
      | None \<Rightarrow> (SecurityDecision_new\<lparr>sd_allow := False, sd_reason := ''Security proxy not initialized''\<rparr>, None))"

definition get_security_proxy_status :: "int \<Rightarrow> MilitarySecurityProxy option \<Rightarrow> (string, string) omap" where
  "get_security_proxy_status now g =
     (case g of Some x \<Rightarrow> get_security_status now x | None \<Rightarrow> [(''status'', ''Security proxy not initialized'')])"

end
