(* ===== verification/Proxy_Sessions.thy ===== *)
theory Proxy_Sessions
  imports Security_Proxy
begin

text \<open>
  What the security proxy decides, alone and over sessions of requests, administration and its threads,
  and where that is not what its comments say.
\<close>

section \<open>One request\<close>

lemma level_less [simp]: "(HIGH \<le> lv) \<longleftrightarrow> \<not> lv < HIGH" for lv :: ThreatLevel
  by (simp add: not_less)

lemma apply_rules_passes:
  "(\<exists>lv'. fst (apply_rules rx now data rs lv x) = Inr lv' \<and> lv' < HIGH) \<longleftrightarrow>
    lv < HIGH \<and> (\<forall>r\<in>set rs. rule_enabled r \<longrightarrow> (\<exists>m. rx (rule_pattern r) = Inr m \<and> (m data \<longrightarrow> rule_level r < HIGH)))"
proof (induction rs arbitrary: lv x)
  case (Cons r rs)
  show ?case
  proof (cases "rx (rule_pattern r)")
    case (Inr m)
    then show ?thesis by (auto simp: Cons.IH)
  qed (auto simp: Cons.IH)
qed simp

lemma compile_all_Inr:
  "compile_all rx ps = Inr ms \<Longrightarrow> (\<forall>m\<in>set ms. \<not> m s) \<longleftrightarrow> (\<forall>p\<in>set ps. \<exists>m. rx p = Inr m \<and> \<not> m s)"
  by (induction ps arbitrary: ms) (auto split: sum.splits)

lemma compile_all_Inl: "compile_all rx ps = Inl w \<Longrightarrow> \<exists>p\<in>set ps. \<forall>m. rx p \<noteq> Inr m"
  by (induction ps) (auto split: sum.splits)

lemma no_injection_iff:
  "detect_injection_attempts rx path hs body = Inr False \<longleftrightarrow>
    (\<forall>p\<in>set injection_patterns. \<exists>m. rx p = Inr m \<and> \<not> m (injection_data path hs body))"
proof (cases "compile_all rx injection_patterns")
  case (Inl w)
  then show ?thesis using compile_all_Inl [OF Inl] by (auto simp: detect_injection_attempts_def)
next
  case (Inr ms)
  then show ?thesis
    using compile_all_Inr [OF Inr, of "injection_data path hs body"]
    by (simp add: detect_injection_attempts_def)
qed

text \<open>The services keep out two dots below four of the five endpoints of the file manager only.\<close>

definition guarded_endpoints :: "string list" where
  "guarded_endpoints = [''/files'', ''/download'', ''/browse'', ''/manager'']"

lemma starts_with_different: "starts_with p s \<Longrightarrow> starts_with q s \<Longrightarrow> starts_with p q \<or> starts_with q p"
  by (auto simp: starts_with_iff append_eq_append_conv2)

lemma rules_allow: "sd_allow (apply_thingamabob_security_rules th path) \<longleftrightarrow> \<not> (th = ''filemanager'' \<and> contains path ''..'')"
  by (auto simp: apply_thingamabob_security_rules_def SecurityDecision_new_def Let_def)

lemma later_endpoints:
  "e \<in> set guarded_endpoints \<Longrightarrow> starts_with e path \<Longrightarrow>
    f \<in> set (concat (map snd (drop 3 thingamabob_endpoints))) \<Longrightarrow> \<not> starts_with f path"
proof -
  assume "e \<in> set guarded_endpoints" "f \<in> set (concat (map snd (drop 3 thingamabob_endpoints)))"
  moreover have "\<forall>e\<in>set guarded_endpoints. \<forall>f\<in>set (concat (map snd (drop 3 thingamabob_endpoints))).
      \<not> starts_with e f \<and> \<not> starts_with f e" by code_simp
  moreover assume "starts_with e path"
  ultimately show "\<not> starts_with f path" using starts_with_different by blast
qed

lemma services_allow:
  "sd_allow (check_thingamabob_security path) \<longleftrightarrow>
    \<not> (contains path ''..'' \<and> (\<exists>e\<in>set guarded_endpoints. starts_with e path))"
proof -
  define later where "later = drop 3 thingamabob_endpoints"
  define d0 where "d0 = SecurityDecision_new\<lparr>sd_allow := True, sd_level := MINIMAL\<rparr>"
  define one where "one = (\<lambda>(th, eps) d. if \<exists>e\<in>set eps. starts_with e path then apply_thingamabob_security_rules th path else d)"
  have split: "thingamabob_endpoints = take 2 thingamabob_endpoints @ [(''filemanager'', [''/files'', ''/upload'', ''/download'', ''/browse'', ''/manager''])] @ later"
    "\<forall>x\<in>set (take 2 thingamabob_endpoints @ later). fst x \<noteq> ''filemanager''" "''/upload'' \<in> set (concat (map snd later))"
    unfolding later_def by code_simp+
  have none: "sd_allow (fold one es d)" if "sd_allow d" "\<forall>x\<in>set es. fst x \<noteq> ''filemanager''" for es d
    using that by (induction es arbitrary: d) (auto simp: one_def rules_allow)
  have hit: "sd_allow (fold one es d)"
    if "\<forall>x\<in>set es. fst x \<noteq> ''filemanager''" "\<exists>f\<in>set (concat (map snd es)). starts_with f path" for es d
    using that
  proof (induction es arbitrary: d)
    case (Cons x es)
    then show ?case using none by (cases x) (auto simp: one_def rules_allow)
  qed simp
  have skip: "fold one es d = d" if "\<forall>f\<in>set (concat (map snd es)). \<not> starts_with f path" for es d
    using that by (induction es arbitrary: d) (auto simp: one_def)
  let ?d = "fold one (take 2 thingamabob_endpoints) d0"
  have d: "sd_allow ?d" by (rule none) (use split(2) in \<open>auto simp: d0_def\<close>)
  have c: "check_thingamabob_security path = fold one later (one (''filemanager'', [''/files'', ''/upload'', ''/download'', ''/browse'', ''/manager'']) ?d)"
    unfolding check_thingamabob_security_def one_def [symmetric] d0_def [symmetric] by (subst split(1)) simp
  show ?thesis
  proof (cases "\<exists>e\<in>set guarded_endpoints. starts_with e path")
    case True
    then have "\<forall>f\<in>set (concat (map snd later)). \<not> starts_with f path" using later_endpoints unfolding later_def by blast
    then show ?thesis using True skip [of later] by (auto simp: c one_def rules_allow guarded_endpoints_def)
  next
    case False
    have l: "\<forall>x\<in>set later. fst x \<noteq> ''filemanager''" using split(2) by auto
    show ?thesis
    proof (cases "starts_with ''/upload'' path")
      case True
      then show ?thesis using False hit [OF l] split(3) by (auto simp: c)
    next
      case no: False
      then show ?thesis using False none [OF d l] d by (auto simp: c one_def guarded_endpoints_def)
    qed
  qed
qed

lemma approve_allows: "sd_allow (fst (approve now ip hs lv x))"
  by (simp add: approve_def Let_def)

lemma refusal_refuses [simp]: "\<not> sd_allow (refusal lv r a)" "\<not> sd_allow (security_error what)"
  by (simp_all add: refusal_def security_error_def SecurityDecision_new_def)

lemma inspect_allows_iff:
  "sd_allow (fst (inspect_content rx now ip path hs body lv x)) \<longleftrightarrow>
    detect_injection_attempts rx path hs body = Inr False \<and> sd_allow (check_thingamabob_security path)"
  by (auto simp: inspect_content_def Let_def approve_allows split: sum.split bool.split)

lemma px_check_fields:
  assumes "check_rate_limits rng now ip path x = (ok, x')"
  shows "security_rules x' = security_rules x" "blocked_ips x' = blocked_ips x" "whitelisted_ips x' = whitelisted_ips x"
    "security_events x' = security_events x" "px_metrics x' = px_metrics x" "rate_limits x' = rate_limits x"
  using assms by (auto simp: check_rate_limits_def generate_client_id_def Let_def split: option.splits)

lemma allowed_iff:
  "sd_allow (fst (process_request rx rng now ip meth path hs body x)) \<longleftrightarrow>
    \<not> is_ip_blocked ip x \<and> fst (check_rate_limits rng now ip path x)
    \<and> (\<forall>r\<in>set (security_rules x). rule_enabled r \<longrightarrow>
         (\<exists>m. rx (rule_pattern r) = Inr m \<and> (m (pattern_data meth path hs body) \<longrightarrow> rule_level r < HIGH)))
    \<and> (\<forall>p\<in>set injection_patterns. \<exists>m. rx p = Inr m \<and> \<not> m (injection_data path hs body))
    \<and> \<not> (contains path ''..'' \<and> (\<exists>e\<in>set guarded_endpoints. starts_with e path))"
proof -
  obtain ok x1 where c: "check_rate_limits rng now ip path x = (ok, x1)" by fastforce
  obtain res x2 where a: "analyze_request_patterns rx now meth path hs body x1 = (res, x2)" by fastforce
  have r: "(\<exists>lv. res = Inr lv \<and> lv < HIGH) \<longleftrightarrow> (\<forall>r\<in>set (security_rules x). rule_enabled r \<longrightarrow>
      (\<exists>m. rx (rule_pattern r) = Inr m \<and> (m (pattern_data meth path hs body) \<longrightarrow> rule_level r < HIGH)))"
    using apply_rules_passes [of rx now "pattern_data meth path hs body" "security_rules x1" MINIMAL x1] a px_check_fields(1) [OF c]
    by (simp add: analyze_request_patterns_def less_ThreatLevel_def)
  have "sd_allow (fst (process_request rx rng now ip meth path hs body x)) \<longleftrightarrow> \<not> is_ip_blocked ip x \<and> ok
      \<and> (\<exists>lv. res = Inr lv \<and> lv < HIGH) \<and> detect_injection_attempts rx path hs body = Inr False
      \<and> sd_allow (check_thingamabob_security path)"
    by (cases res) (auto simp: process_request_def c a inspect_allows_iff split: bool.split)
  then show ?thesis unfolding r no_injection_iff services_allow using c by simp
qed

text \<open>C33. A request is approved exactly when its address is not blocked, the rate limits let it through, every enabled
  rule compiles and does not match unless its level is below HIGH, every injection pattern compiles and does not match,
  and it does not go up below the guarded endpoints of the file manager. In particular every error of the regular
  expression library is a refusal.\<close>
theorem request_approved_iff:
  "sd_allow (fst (process_request rx rng now ip meth path hs body x)) \<longleftrightarrow>
    \<not> is_ip_blocked ip x \<and> fst (check_rate_limits rng now ip path x)
    \<and> (\<forall>r\<in>set (security_rules x). rule_enabled r \<longrightarrow>
         (\<exists>m. rx (rule_pattern r) = Inr m \<and> (m (pattern_data meth path hs body) \<longrightarrow> rule_level r < HIGH)))
    \<and> (\<forall>p\<in>set injection_patterns. \<exists>m. rx p = Inr m \<and> \<not> m (injection_data path hs body))
    \<and> \<not> (contains path ''..'' \<and> (\<exists>e\<in>set guarded_endpoints. starts_with e path))"
  by (rule allowed_iff)

theorem request_approved_iff_witness:
  "\<exists>x rx. sd_allow (fst (process_request rx (\<lambda>n. 0) 0 ''a'' ''GET'' ''/upload/..'' [] [] x))
    \<and> \<not> sd_allow (fst (process_request rx (\<lambda>n. 0) 0 ''a'' ''GET'' ''/files/..'' [] [] x))"
proof -
  let ?x = "MilitarySecurityProxy_new (\<lambda>n. 0)" and ?rx = "\<lambda>p. Inr (\<lambda>s. False)"
  have x: "active_connections ?x = []" "blocked_ips ?x = []" by code_simp+
  have "\<not> (\<exists>e\<in>set guarded_endpoints. starts_with e ''/upload/..'')"
    "contains ''/files/..'' ''..''" "\<exists>e\<in>set guarded_endpoints. starts_with e ''/files/..''" by code_simp+
  then show ?thesis
    using request_approved_iff [of ?rx "\<lambda>n. 0" 0 "''a''" "''GET''" "''/upload/..''" "[]" "[]" ?x]
      request_approved_iff [of ?rx "\<lambda>n. 0" 0 "''a''" "''GET''" "''/files/..''" "[]" "[]" ?x]
    by (intro exI [of _ ?x] exI [of _ ?rx]) (simp add: x is_ip_blocked_def check_rate_limits_def generate_client_id_def)
qed

section \<open>Sessions\<close>

datatype px_event =
    Serve int string string string "(string, string) omap" string
  | Block_ip string | Whitelist_ip string | Configure SecurityRule | Start int | Stop | Clean int | Work

definition px_call ::
  "regex_library \<Rightarrow> (nat \<Rightarrow> nat) \<Rightarrow> px_event \<Rightarrow> MilitarySecurityProxy \<Rightarrow> SecurityDecision option \<times> MilitarySecurityProxy" where
  "px_call rx rng e x =
     (case e of
        Serve now ip meth path hs body \<Rightarrow> (case process_request rx rng now ip meth path hs body x of (d, x) \<Rightarrow> (Some d, x))
      | Block_ip ip \<Rightarrow> (None, block_ip_address ip x)
      | Whitelist_ip ip \<Rightarrow> (None, whitelist_ip_address ip x)
      | Configure r \<Rightarrow> (None, configure_security_rule r x)
      | Start now \<Rightarrow> (None, snd (px_start now x))
      | Stop \<Rightarrow> (None, px_stop x)
      | Clean now \<Rightarrow> (None, cleanup_expired_connections now x)
      | Work \<Rightarrow> (None, security_worker x))"

abbreviation px_step :: "regex_library \<Rightarrow> (nat \<Rightarrow> nat) \<Rightarrow> px_event \<Rightarrow> MilitarySecurityProxy \<Rightarrow> MilitarySecurityProxy" where
  "px_step rx rng e x \<equiv> snd (px_call rx rng e x)"

lemma record_fields [simp]:
  "security_rules (record_security_event now ty lv ip d x) = security_rules x"
  "blocked_ips (record_security_event now ty lv ip d x) = blocked_ips x"
  "whitelisted_ips (record_security_event now ty lv ip d x) = whitelisted_ips x"
  "active_connections (record_security_event now ty lv ip d x) = active_connections x"
  "total_connections (px_metrics (record_security_event now ty lv ip d x)) = total_connections (px_metrics x)"
  "active_security_rules (px_metrics (record_security_event now ty lv ip d x)) = active_security_rules (px_metrics x)"
  by (simp_all add: record_security_event_def on_px_metrics_def update_threat_metrics_def Let_def split: SecurityEventType.split)

lemma apply_rules_fields [simp]:
  "security_rules (snd (apply_rules rx now data rs lv x)) = security_rules x"
  "blocked_ips (snd (apply_rules rx now data rs lv x)) = blocked_ips x"
  "whitelisted_ips (snd (apply_rules rx now data rs lv x)) = whitelisted_ips x"
  "active_connections (snd (apply_rules rx now data rs lv x)) = active_connections x"
  "total_connections (px_metrics (snd (apply_rules rx now data rs lv x))) = total_connections (px_metrics x)"
  "active_security_rules (px_metrics (snd (apply_rules rx now data rs lv x))) = active_security_rules (px_metrics x)"
  by (induction rs arbitrary: lv x) (auto split: sum.split)

lemma px_metrics_fields [simp]:
  "security_rules (on_px_metrics g x) = security_rules x" "blocked_ips (on_px_metrics g x) = blocked_ips x"
  "whitelisted_ips (on_px_metrics g x) = whitelisted_ips x" "active_connections (on_px_metrics g x) = active_connections x"
  "security_events (on_px_metrics g x) = security_events x" "px_metrics (on_px_metrics g x) = g (px_metrics x)"
  by (simp_all add: on_px_metrics_def)

lemma update_fields [simp]:
  "security_rules (update_client_connection now ip hs x) = security_rules x"
  "blocked_ips (update_client_connection now ip hs x) = blocked_ips x"
  "whitelisted_ips (update_client_connection now ip hs x) = whitelisted_ips x"
  "security_events (update_client_connection now ip hs x) = security_events x"
  "px_metrics (update_client_connection now ip hs x) = px_metrics x"
  by (simp_all add: update_client_connection_def Let_def split: option.split)

lemma approve_fields [simp]:
  "security_rules (snd (approve now ip hs lv x)) = security_rules x" "blocked_ips (snd (approve now ip hs lv x)) = blocked_ips x"
  "whitelisted_ips (snd (approve now ip hs lv x)) = whitelisted_ips x"
  by (simp_all add: approve_def Let_def)

lemma inspect_fields:
  "security_rules (snd (inspect_content rx now ip path hs body lv x)) = security_rules x"
  "whitelisted_ips (snd (inspect_content rx now ip path hs body lv x)) = whitelisted_ips x"
  "set (blocked_ips x) \<subseteq> set (blocked_ips (snd (inspect_content rx now ip path hs body lv x)))"
  by (auto simp: inspect_content_def block_ip_address_def Let_def split: sum.split bool.split)

lemma request_fields:
  "security_rules (snd (process_request rx rng now ip meth path hs body x)) = security_rules x"
  "whitelisted_ips (snd (process_request rx rng now ip meth path hs body x)) = whitelisted_ips x"
  "set (blocked_ips x) \<subseteq> set (blocked_ips (snd (process_request rx rng now ip meth path hs body x)))"
proof -
  obtain ok x1 where c: "check_rate_limits rng now ip path x = (ok, x1)" by fastforce
  obtain res x2 where a: "analyze_request_patterns rx now meth path hs body x1 = (res, x2)" by fastforce
  then have "security_rules x2 = security_rules x1" "blocked_ips x2 = blocked_ips x1" "whitelisted_ips x2 = whitelisted_ips x1"
    using apply_rules_fields unfolding analyze_request_patterns_def by (metis snd_conv)+
  then have x2: "security_rules x2 = security_rules x" "blocked_ips x2 = blocked_ips x" "whitelisted_ips x2 = whitelisted_ips x"
    using px_check_fields [OF c] by simp_all
  show "security_rules (snd (process_request rx rng now ip meth path hs body x)) = security_rules x"
    "whitelisted_ips (snd (process_request rx rng now ip meth path hs body x)) = whitelisted_ips x"
    "set (blocked_ips x) \<subseteq> set (blocked_ips (snd (process_request rx rng now ip meth path hs body x)))"
    using x2 px_check_fields [OF c] inspect_fields [where x = x2]
    by (auto simp: process_request_def c a split: sum.split bool.split)
qed

text \<open>A request that is refused as an injection blocks its address.\<close>

lemma approve_action [simp]: "sd_action (fst (approve now ip hs lv x)) = ''APPROVED''"
  by (simp add: approve_def Let_def)

lemma refusal_action [simp]: "sd_action (refusal lv r a) = a" "sd_action (security_error w) = ''SECURITY_ERROR''"
  by (simp_all add: refusal_def security_error_def)

lemma injection_blocks_here:
  assumes "inspect_content rx now ip path hs body lv x = (d, x')" and "sd_action d = ''INJECTION_BLOCKED''"
  shows "ip \<in> set (blocked_ips x')"
proof (cases "detect_injection_attempts rx path hs body")
  case (Inr b)
  have "fst (inspect_content rx now ip path hs body lv x) = d" "snd (inspect_content rx now ip path hs body lv x) = x'"
    using assms(1) by simp_all
  then show ?thesis using Inr assms(2)
    by (cases b; cases "sd_allow (check_thingamabob_security path)")
       (auto simp: inspect_content_def block_ip_address_def Let_def)
qed (use assms in \<open>auto simp: inspect_content_def\<close>)

lemma injection_blocks:
  assumes "process_request rx rng now ip meth path hs body x = (d, x')" and "sd_action d = ''INJECTION_BLOCKED''"
  shows "ip \<in> set (blocked_ips x')"
  using assms injection_blocks_here
  by (auto simp: process_request_def split: if_splits prod.splits bool.splits sum.splits)

section \<open>Blocked addresses\<close>

definition shut_out :: "string \<Rightarrow> MilitarySecurityProxy \<Rightarrow> bool" where
  "shut_out ip x \<longleftrightarrow> ip \<in> set (blocked_ips x) \<and> ip \<notin> set (whitelisted_ips x)"

lemma call_serve [simp]:
  "px_call rx rng (Serve now ip meth path hs body) x
    = (Some (fst (process_request rx rng now ip meth path hs body x)), snd (process_request rx rng now ip meth path hs body x))"
  by (simp add: px_call_def split: prod.split)

lemma other_calls:
  "px_call rx rng (Block_ip ip) x = (None, block_ip_address ip x)"
  "px_call rx rng (Whitelist_ip ip) x = (None, whitelist_ip_address ip x)"
  "px_call rx rng (Configure r) x = (None, configure_security_rule r x)"
  "px_call rx rng (Start now) x = (None, snd (px_start now x))" "px_call rx rng Stop x = (None, px_stop x)"
  "px_call rx rng (Clean now) x = (None, cleanup_expired_connections now x)" "px_call rx rng Work x = (None, security_worker x)"
  by (simp_all add: px_call_def)

lemmas admin_defs = block_ip_address_def whitelist_ip_address_def configure_security_rule_def px_start_def px_stop_def
  cleanup_expired_connections_def security_worker_def Let_def

lemma shut_out_step: "e \<noteq> Whitelist_ip ip \<Longrightarrow> shut_out ip x \<Longrightarrow> shut_out ip (px_step rx rng e x)"
proof (cases e)
  case (Serve now ip' meth path hs body)
  then show "shut_out ip x \<Longrightarrow> ?thesis"
    using request_fields(2) subsetD [OF request_fields(3)] by (simp add: shut_out_def)
qed (auto simp: other_calls admin_defs shut_out_def split: list.split)

interpretation shut: session "px_step rx rng" "\<lambda>e. e \<noteq> Whitelist_ip ip" "shut_out ip" for rx rng ip
  by unfold_locales (rule shut_out_step)

text \<open>C34. Once an address that is not whitelisted is blocked, by the administrator or because a request of it was
  refused as an injection, every later request of it is refused as blocked, whatever else is served, configured,
  started, stopped or cleaned up, until the address is whitelisted.\<close>
theorem blocked_address_is_refused:
  assumes "ip \<notin> set (whitelisted_ips x)" and "\<forall>e\<in>set es. e \<noteq> Whitelist_ip ip"
    and "x' = block_ip_address ip x
      \<or> (\<exists>now meth path hs body d. process_request rx rng now ip meth path hs body x = (d, x') \<and> sd_action d = ''INJECTION_BLOCKED'')"
  shows "fst (process_request rx rng now ip meth path hs body (fold (px_step rx rng) es x'))
    = refusal HIGH ''IP address is blocked'' ''BLOCKED_IP''"
proof -
  have "shut_out ip x'" using assms(3)
  proof
    assume "x' = block_ip_address ip x"
    then show ?thesis using assms(1) by (simp add: shut_out_def block_ip_address_def Let_def)
  next
    assume "\<exists>now meth path hs body d. process_request rx rng now ip meth path hs body x = (d, x') \<and> sd_action d = ''INJECTION_BLOCKED''"
    then obtain now meth path hs body d where r: "process_request rx rng now ip meth path hs body x = (d, x')"
      and d: "sd_action d = ''INJECTION_BLOCKED''" by blast
    have "ip \<in> set (blocked_ips x')" using r d by (rule injection_blocks)
    then show ?thesis using request_fields(2) [where x = x and rx = rx and rng = rng and now = now and ip = ip and meth = meth and path = path and hs = hs and body = body] r assms(1) by (simp add: shut_out_def)
  qed
  then have "shut_out ip (fold (px_step rx rng) es x')" using assms(2) by (rule shut.inv_run)
  then show ?thesis by (simp add: process_request_def is_ip_blocked_def shut_out_def)
qed

theorem blocked_address_is_refused_witness:
  "fst (process_request (\<lambda>p. Inl []) (\<lambda>n. 0) 9 ''a'' ''GET'' ''/'' [] [] (fold (px_step (\<lambda>p. Inl []) (\<lambda>n. 0))
      [Serve 1 ''b'' ''GET'' ''/'' [] [], Whitelist_ip ''b'', Clean 2] (block_ip_address ''a'' (MilitarySecurityProxy_new (\<lambda>n. 0)))))
    = refusal HIGH ''IP address is blocked'' ''BLOCKED_IP''"
proof (rule blocked_address_is_refused)
  show "''a'' \<notin> set (whitelisted_ips (MilitarySecurityProxy_new (\<lambda>n. 0)))" by code_simp
  show "\<forall>e\<in>set [Serve 1 ''b'' ''GET'' ''/'' [] [], Whitelist_ip ''b'', Clean 2]. e \<noteq> Whitelist_ip ''a''" by simp
qed simp

section \<open>The default rules\<close>

text \<open>The rule against floods matches every request, and nothing counts how often it does.\<close>

definition flood_rule_on :: "MilitarySecurityProxy \<Rightarrow> bool" where
  "flood_rule_on x \<longleftrightarrow> (\<exists>r\<in>set (security_rules x). rule_id r = ''ddos_detection_1'' \<and> rule_enabled r
     \<and> rule_pattern r = ''.*'' \<and> HIGH \<le> rule_level r)"

lemma configure_keeps:
  assumes "r \<in> set (security_rules x)" and "rule_id r \<noteq> rule_id q"
  shows "r \<in> set (security_rules (configure_security_rule q x))"
proof (cases "find_index (\<lambda>p. rule_id p = rule_id q) (security_rules x)")
  case (Some i)
  obtain j where j: "j < length (security_rules x)" "security_rules x ! j = r" using assms(1) by (auto simp: in_set_conv_nth)
  have i: "i < length (security_rules x)" "rule_id (security_rules x ! i) = rule_id q" using find_index_SomeD [OF Some] by auto
  then have "j \<noteq> i" using assms(2) j by auto
  then have "(security_rules x)[i := q] ! j = r" "j < length ((security_rules x)[i := q])" using j by simp_all
  then have "r \<in> set ((security_rules x)[i := q])" by (metis nth_mem)
  then show ?thesis using Some by (simp add: configure_security_rule_def Let_def)
qed (use assms in \<open>simp add: configure_security_rule_def Let_def\<close>)

definition keeps_flood_rule :: "px_event \<Rightarrow> bool" where
  "keeps_flood_rule e \<longleftrightarrow> (case e of Configure r \<Rightarrow> rule_id r \<noteq> ''ddos_detection_1'' | _ \<Rightarrow> True)"

lemma flood_rule_step:
  assumes "keeps_flood_rule e" and "flood_rule_on x"
  shows "flood_rule_on (px_step rx rng e x)"
proof (cases e)
  case (Configure q)
  then show ?thesis using assms configure_keeps [where q = q and x = x]
    by (auto simp: flood_rule_on_def keeps_flood_rule_def other_calls)
qed (use assms(2) request_fields(1) in \<open>auto simp: flood_rule_on_def other_calls block_ip_address_def whitelist_ip_address_def
      px_start_def px_stop_def cleanup_expired_connections_def security_worker_def Let_def split: list.split\<close>)

interpretation flood: session "px_step rx rng" keeps_flood_rule flood_rule_on for rx rng
  by unfold_locales (rule flood_rule_step)

lemma flood_rule_new: "flood_rule_on (MilitarySecurityProxy_new rng)"
proof -
  have "security_rules (MilitarySecurityProxy_new rng) = default_rules" by code_simp
  then show ?thesis by (simp add: flood_rule_on_def default_rules_def)
qed

text \<open>With its default rules the proxy approves no request at all: as long as the rule against floods is not
  configured anew, whatever else happens, every request is refused, when the pattern of any characters matches
  every text.\<close>
theorem default_proxy_approves_nothing:
  assumes "rx ''.*'' = Inr (\<lambda>s. True)" and "\<forall>e\<in>set es. keeps_flood_rule e"
  shows "\<not> sd_allow (fst (process_request rx rng now ip meth path hs body
    (fold (px_step rx rng) es (MilitarySecurityProxy_new rng))))"
proof -
  have "flood_rule_on (fold (px_step rx rng) es (MilitarySecurityProxy_new rng))"
    by (rule flood.inv_run [OF flood_rule_new assms(2)])
  then show ?thesis using assms(1) by (auto simp: allowed_iff flood_rule_on_def)
qed

theorem default_proxy_approves_nothing_witness:
  "\<not> sd_allow (fst (process_request (\<lambda>p. Inr (\<lambda>s. p = ''.*'')) (\<lambda>n. 0) 9 ''a'' ''GET'' ''/'' [] []
    (fold (px_step (\<lambda>p. Inr (\<lambda>s. p = ''.*'')) (\<lambda>n. 0)) [Start 1, Whitelist_ip ''a'', Serve 2 ''a'' ''GET'' ''/'' [] []]
      (MilitarySecurityProxy_new (\<lambda>n. 0)))))"
proof (rule default_proxy_approves_nothing)
  show "(Inr (\<lambda>s. ''.*'' = ''.*'') :: string + (string \<Rightarrow> bool)) = Inr (\<lambda>s. True)" by simp
  show "\<forall>e\<in>set [Start 1, Whitelist_ip ''a'', Serve 2 ''a'' ''GET'' ''/'' [] []]. keeps_flood_rule e"
    by (simp add: keeps_flood_rule_def)
qed

end
