(* ===== verification/Proxy_Consistency.thy ===== *)
theory Proxy_Consistency
  imports Proxy_Sessions
begin

text \<open>
  That the state of the security proxy stays consistent over sessions and counts what it approves, and what
  the proxy does against its comments.
\<close>

section \<open>Consistency\<close>

definition px_inv :: "MilitarySecurityProxy \<Rightarrow> bool" where
  "px_inv x \<longleftrightarrow> length (security_events x) \<le> 10000 \<and> om_inv (active_connections x)
     \<and> os_inv (blocked_ips x) \<and> os_inv (whitelisted_ips x) \<and> distinct (map rule_id (security_rules x))
     \<and> active_security_rules (px_metrics x) = length (filter rule_enabled (security_rules x))"

lemma record_inv [intro]: "px_inv x \<Longrightarrow> px_inv (record_security_event now ty lv ip d x)"
  by (simp add: px_inv_def) (simp add: record_security_event_def Let_def)

lemma apply_rules_inv: "px_inv x \<Longrightarrow> px_inv (snd (apply_rules rx now data rs lv x))"
  by (induction rs arbitrary: lv x) (auto split: sum.split)

lemma check_rate_inv: "px_inv x \<Longrightarrow> check_rate_limits rng now ip path x = (ok, x') \<Longrightarrow> px_inv x'"
  by (auto simp: px_inv_def check_rate_limits_def generate_client_id_def Let_def om_inv_assign split: option.splits)

lemma block_inv: "px_inv x \<Longrightarrow> px_inv (block_ip_address ip x)"
  by (simp add: px_inv_def block_ip_address_def on_px_metrics_def Let_def om_inv_erase os_inv_insert)

lemma approve_inv: "px_inv x \<Longrightarrow> px_inv (snd (approve now ip hs lv x))"
  by (auto simp: px_inv_def approve_def update_client_connection_def on_px_metrics_def Let_def om_inv_assign split: option.split)

lemma metrics_inv: "px_inv x \<Longrightarrow> (\<And>m. active_security_rules (g m) = active_security_rules m) \<Longrightarrow> px_inv (on_px_metrics g x)"
  by (simp add: px_inv_def on_px_metrics_def)

lemma inspect_inv: "px_inv x \<Longrightarrow> px_inv (snd (inspect_content rx now ip path hs body lv x))"
  by (auto simp: inspect_content_def Let_def intro!: approve_inv block_inv record_inv metrics_inv split: sum.split bool.split)

lemma request_inv: "px_inv x \<Longrightarrow> px_inv (snd (process_request rx rng now ip meth path hs body x))"
proof -
  assume x: "px_inv x"
  obtain ok x1 where c: "check_rate_limits rng now ip path x = (ok, x1)" by fastforce
  obtain res x2 where a: "analyze_request_patterns rx now meth path hs body x1 = (res, x2)" by fastforce
  have x1: "px_inv x1" using x c by (rule check_rate_inv)
  have "px_inv x2" using apply_rules_inv [OF x1] a unfolding analyze_request_patterns_def by (metis snd_conv)
  then show ?thesis using x x1
    by (auto simp: process_request_def c a intro!: inspect_inv record_inv split: sum.split bool.split)
qed

lemma ids_update: "find_index (\<lambda>q. rule_id q = rule_id r) rs = Some i \<Longrightarrow> map rule_id (rs[i := r]) = map rule_id rs"
  using find_index_SomeD [of "\<lambda>q. rule_id q = rule_id r" rs i] by (metis list_update_id map_update nth_map)

lemma configure_inv: "px_inv x \<Longrightarrow> px_inv (configure_security_rule r x)"
proof (cases "find_index (\<lambda>q. rule_id q = rule_id r) (security_rules x)")
  case (Some i)
  then show "px_inv x \<Longrightarrow> ?thesis"
    using ids_update [OF Some] by (simp add: px_inv_def configure_security_rule_def on_px_metrics_def Let_def)
next
  case None
  then have "rule_id r \<notin> set (map rule_id (security_rules x))" by (auto simp: find_index_None_iff)
  then show "px_inv x \<Longrightarrow> ?thesis" using None by (simp add: px_inv_def configure_security_rule_def on_px_metrics_def Let_def)
qed

lemma px_inv_step: "px_inv x \<Longrightarrow> px_inv (px_step rx rng e x)"
proof (cases e)
  case (Configure r)
  then show "px_inv x \<Longrightarrow> ?thesis" using configure_inv by (simp add: other_calls)
next
  case (Block_ip ip)
  then show "px_inv x \<Longrightarrow> ?thesis" using block_inv by (simp add: other_calls)
next
  case (Serve now ip meth path hs body)
  then show "px_inv x \<Longrightarrow> ?thesis" by (simp add: request_inv)
qed (auto simp: other_calls px_start_def px_stop_def whitelist_ip_address_def cleanup_expired_connections_def
      security_worker_def px_inv_def on_px_metrics_def os_inv_insert os_inv_erase sorted_wrt_filter sorted_wrt_map
      split: list.split)

interpretation consistent: session "px_step rx rng" "\<lambda>e. True" px_inv for rx rng
  by unfold_locales (rule px_inv_step)

lemma px_inv_new: "px_inv (MilitarySecurityProxy_new rng)"
proof -
  have "security_events (MilitarySecurityProxy_new rng) = []" "active_connections (MilitarySecurityProxy_new rng) = []"
    "blocked_ips (MilitarySecurityProxy_new rng) = []" "whitelisted_ips (MilitarySecurityProxy_new rng) = []"
    "security_rules (MilitarySecurityProxy_new rng) = default_rules"
    "active_security_rules (px_metrics (MilitarySecurityProxy_new rng)) = 5"
    by code_simp+
  moreover have "distinct (map rule_id default_rules)" "length (filter rule_enabled default_rules) = 5" by code_simp+
  ultimately show ?thesis by (simp add: px_inv_def)
qed

section \<open>The approved requests\<close>

abbreviation approved :: "SecurityDecision option list \<Rightarrow> nat" where
  "approved as \<equiv> length (filter (\<lambda>a. case a of Some d \<Rightarrow> sd_allow d | None \<Rightarrow> False) as)"

lemma inspect_total:
  "total_connections (px_metrics (snd (inspect_content rx now ip path hs body lv x)))
    = total_connections (px_metrics x) + (if sd_allow (fst (inspect_content rx now ip path hs body lv x)) then 1 else 0)"
proof (cases "detect_injection_attempts rx path hs body")
  case (Inr b)
  then show ?thesis
    by (cases b; cases "sd_allow (check_thingamabob_security path)")
       (simp_all add: inspect_content_def block_ip_address_def approve_def SecurityDecision_new_def Let_def)
qed (simp add: inspect_content_def)

lemma request_total:
  "total_connections (px_metrics (snd (process_request rx rng now ip meth path hs body x)))
    = total_connections (px_metrics x) + (if sd_allow (fst (process_request rx rng now ip meth path hs body x)) then 1 else 0)"
proof -
  obtain ok x1 where c: "check_rate_limits rng now ip path x = (ok, x1)" by fastforce
  obtain res x2 where a: "analyze_request_patterns rx now meth path hs body x1 = (res, x2)" by fastforce
  then have "total_connections (px_metrics x2) = total_connections (px_metrics x)"
    using apply_rules_fields(5) px_check_fields(5) [OF c] unfolding analyze_request_patterns_def by (metis snd_conv)
  then show ?thesis using px_check_fields(5) [OF c] inspect_total [where x = x2]
    by (cases res) (auto simp: process_request_def c a split: bool.split)
qed

lemma session_total:
  "total_connections (px_metrics (fold (px_step rx rng) es x)) = total_connections (px_metrics x) + approved (answers (px_call rx rng) es x)"
proof (induction es arbitrary: x)
  case (Cons e es)
  have "total_connections (px_metrics (px_step rx rng e x)) = total_connections (px_metrics x)
      + (case fst (px_call rx rng e x) of Some d \<Rightarrow> if sd_allow d then 1 else 0 | None \<Rightarrow> 0)"
    by (cases e) (simp_all add: request_total other_calls admin_defs on_px_metrics_def split: list.split)
  then show ?case by (auto simp: Cons.IH split: option.split)
qed simp

text \<open>Over every session from a new proxy, the queue holds at most ten thousand events, no two rules have the same
  name, the number of active rules is that of the enabled ones, connections and addresses are kept in order without
  duplicates, and the number of connections is that of the approved requests.\<close>
theorem proxy_stays_consistent:
  "let x = fold (px_step rx rng) es (MilitarySecurityProxy_new rng) in
    length (security_events x) \<le> 10000 \<and> distinct (map rule_id (security_rules x))
    \<and> active_security_rules (px_metrics x) = length (filter rule_enabled (security_rules x))
    \<and> om_inv (active_connections x) \<and> os_inv (blocked_ips x) \<and> os_inv (whitelisted_ips x)
    \<and> total_connections (px_metrics x) = approved (answers (px_call rx rng) es (MilitarySecurityProxy_new rng))"
proof -
  have "px_inv (fold (px_step rx rng) es (MilitarySecurityProxy_new rng))"
    by (rule consistent.inv_run [OF px_inv_new]) simp
  moreover have "total_connections (px_metrics (MilitarySecurityProxy_new rng)) = 0" by code_simp
  ultimately show ?thesis by (simp add: px_inv_def session_total)
qed

section \<open>What the proxy does not mean to do\<close>

text \<open>The second service that has the endpoint for uploads takes back the refusal of the first.\<close>

lemma upload_goes_up:
  "sd_allow (apply_thingamabob_security_rules ''filemanager'' ''/upload/../x'') = False"
  "sd_allow (check_thingamabob_security ''/upload/../x'')"
  by code_simp+

text \<open>The rate limit counts from the first request of a connection: a minute later it refuses nothing.\<close>

lemma no_limit_after_a_minute:
  assumes "rate_limits x = rate_limits (MilitarySecurityProxy_new rng)" and "map_of (active_connections x) ip = Some c"
    and "60000 * px_ms \<le> now - connection_time c"
  shows "fst (check_rate_limits rng now ip path x)"
proof -
  have "\<forall>l\<in>set (rate_limits (MilitarySecurityProxy_new rng)). rl_window (snd l) = 60000 * px_ms" by code_simp
  then show ?thesis using assms by (auto simp: check_rate_limits_def over_limit_def Let_def)
qed

text \<open>Every injection is counted twice.\<close>

lemma injections_counted_twice:
  "detect_injection_attempts rx path hs body = Inr True \<Longrightarrow>
    injection_attempts_blocked (px_metrics (snd (inspect_content rx now ip path hs body lv x)))
      = injection_attempts_blocked (px_metrics x) + 2"
  by (simp add: inspect_content_def record_security_event_def update_threat_metrics_def block_ip_address_def Let_def)

text \<open>The warning about a missing signature is overwritten.\<close>

lemma warning_is_lost: "map_of (sd_headers (fst (approve now ip hs lv x))) ''X-Security-Warning'' = None"
proof -
  have "map_of get_security_headers ''X-Security-Warning'' = None" by code_simp
  then show ?thesis by (simp add: approve_def Let_def)
qed

text \<open>The most recent events are not among those that are given out when there are more than the limit.\<close>

lemma recent_events_are_the_oldest:
  "set (get_security_events 1 MINIMAL (x\<lparr>security_events := [e, e']\<rparr>)) = {e}"
  by (simp add: get_security_events_def less_eq_ThreatLevel_def)

end
