(* ===== verification/Web_Socket.thy ===== *)
theory Web_Socket
  imports Http_Client
begin

text \<open>
  The WebSocket connection of \<open>medusa_discord_native_websocket.cpp\<close>: base64, the frames it writes and
  reads, connecting with the handshake, and the loop between its two queues. A byte is an \<open>8 word\<close>,
  a message a list of bytes. What the operating system and OpenSSL answer, and the random bytes, are
  arguments; what is done with sockets and what is written are logs. The thread runs between calls.
  The frame reader is compared with the frames of RFC 6455, base64 with a decoder.
\<close>

unbundle bit_operations_syntax

type_synonym byte = "8 word"

section \<open>Base64\<close>

definition base64_chars :: string where
  "base64_chars = ''ABCDEFGHIJKLMNOPQRSTUVWXYZabcdefghijklmnopqrstuvwxyz0123456789+/''"

definition base64_quad :: "byte list \<Rightarrow> byte list" where
  "base64_quad b =
     [drop_bit 2 (b ! 0 AND 0xfc),
      push_bit 4 (b ! 0 AND 0x03) + drop_bit 4 (b ! 1 AND 0xf0),
      push_bit 2 (b ! 1 AND 0x0f) + drop_bit 6 (b ! 2 AND 0xc0),
      b ! 2 AND 0x3f]"

definition base64_char :: "byte \<Rightarrow> char" where
  "base64_char k = base64_chars ! unat k"

abbreviation base64_text :: "byte list \<Rightarrow> string" where
  "base64_text q \<equiv> map base64_char q"

fun base64_loop :: "byte list \<Rightarrow> byte list \<Rightarrow> string \<Rightarrow> byte list \<times> string" where
  "base64_loop [] b ret = (b, ret)"
| "base64_loop (x # xs) b ret =
     (let b = b @ [x] in
      if length b = 3 then base64_loop xs [] (ret @ base64_text (base64_quad b)) else base64_loop xs b ret)"

definition base64_encode :: "byte list \<Rightarrow> string" where
  "base64_encode xs =
     (case base64_loop xs [] [] of
        (b, ret) \<Rightarrow>
          if b = [] then ret
          else ret @ base64_text (take (length b + 1) (base64_quad (b @ replicate (3 - length b) 0)))
                 @ replicate (3 - length b) CHR ''='')"

text \<open>A decoder, to compare with.\<close>

definition base64_value :: "char \<Rightarrow> byte option" where
  "base64_value c = map_option of_nat (find_index (\<lambda>d. d = c) base64_chars)"

definition base64_triple :: "byte \<Rightarrow> byte \<Rightarrow> byte \<Rightarrow> byte \<Rightarrow> byte list" where
  "base64_triple a b c d = [push_bit 2 a OR drop_bit 4 b, push_bit 4 b OR drop_bit 2 c, push_bit 6 c OR d]"

fun base64_decode :: "string \<Rightarrow> byte list option" where
  "base64_decode [] = Some []"
| "base64_decode (p # q # r # s # t) =
     (case (base64_value p, base64_value q, base64_value r, base64_value s) of
        (Some a, Some b, Some c, Some d) \<Rightarrow> map_option (\<lambda>xs. base64_triple a b c d @ xs) (base64_decode t)
      | (Some a, Some b, Some c, None) \<Rightarrow>
          if s = CHR ''='' \<and> t = [] then Some (take 2 (base64_triple a b c 0)) else None
      | (Some a, Some b, None, None) \<Rightarrow>
          if r = CHR ''='' \<and> s = CHR ''='' \<and> t = [] then Some (take 1 (base64_triple a b 0 0)) else None
      | _ \<Rightarrow> None)"
| "base64_decode s = None"

lemma base64_chars_length [simp]: "length base64_chars = 64"
  by (simp add: base64_chars_def)

lemma base64_chars_distinct: "distinct base64_chars"
  by (simp add: base64_chars_def)

lemma find_index_distinct: "distinct xs \<Longrightarrow> i < length xs \<Longrightarrow> find_index (\<lambda>d. d = xs ! i) xs = Some i"
proof (induction xs arbitrary: i)
  case (Cons x xs)
  show ?case
  proof (cases i)
    case (Suc j)
    then have "x \<noteq> xs ! j" using Cons.prems by auto
    then show ?thesis using Cons Suc by simp
  qed simp
qed simp

lemma base64_value_char:
  "unat k < 64 \<Longrightarrow> base64_value (base64_char k) = Some k"
  "unat k < 64 \<Longrightarrow> base64_char k \<in> set base64_chars"
  by (simp_all add: base64_value_def base64_char_def find_index_distinct base64_chars_distinct)

lemma base64_value_pad [simp]: "base64_value CHR ''='' = None"
  by code_simp

lemma byte_cases: "n < 8 \<Longrightarrow> n \<in> {0, 1, 2, 3, 4, 5, 6, 7 :: nat}"
  by auto

lemmas byte_bits = bit_simps numeral_2_eq_2 [symmetric] numeral_3_eq_3 [symmetric]

lemma quad_or:
  "push_bit 4 (x AND 0x03) + drop_bit 4 (y AND 0xf0) = push_bit 4 (x AND 0x03) OR drop_bit 4 (y AND 0xf0 :: byte)"
  "push_bit 2 (x AND 0x0f) + drop_bit 6 (y AND 0xc0) = push_bit 2 (x AND 0x0f) OR drop_bit 6 (y AND 0xc0 :: byte)"
  by (rule disjunctive_add; auto simp: byte_bits dest!: byte_cases)+

lemma triple_bits:
  "push_bit 2 (drop_bit 2 (x AND 0xfc)) OR drop_bit 4 (push_bit 4 (x AND 0x03) OR drop_bit 4 (y AND 0xf0)) = (x :: byte)"
  "push_bit 4 (push_bit 4 (x AND 0x03) OR drop_bit 4 (y AND 0xf0)) OR drop_bit 2 (push_bit 2 (y AND 0x0f) OR drop_bit 6 (z AND 0xc0)) = (y :: byte)"
  "push_bit 6 (push_bit 2 (y AND 0x0f) OR drop_bit 6 (z AND 0xc0)) OR z AND 0x3f = (z :: byte)"
  by (rule bit_word_eqI; auto simp: byte_bits dest!: byte_cases)+

lemma small_byte: "k AND 0x3f = k \<Longrightarrow> unat (k :: byte) < 64"
proof -
  assume "k AND 0x3f = k"
  then have "k = take_bit 6 k" by (simp add: take_bit_eq_mask mask_numeral)
  then have "unat k = take_bit 6 (unat k)" by (metis unsigned_take_bit_eq)
  then show ?thesis using take_bit_nat_less_exp [of 6 "unat k"] by simp
qed

lemma base64_quad_bits:
  "base64_quad [x, y, z] = [drop_bit 2 (x AND 0xfc), push_bit 4 (x AND 0x03) OR drop_bit 4 (y AND 0xf0),
     push_bit 2 (y AND 0x0f) OR drop_bit 6 (z AND 0xc0), z AND 0x3f]"
proof -
  have n: "[x, y, z] ! 0 = x" "[x, y, z] ! 1 = y" "[x, y, z] ! 2 = z" by simp_all
  show ?thesis unfolding base64_quad_def n quad_or ..
qed

lemma quad_small: "k \<in> set (base64_quad [x, y, z]) \<Longrightarrow> unat k < 64"
proof (rule small_byte)
  show "k \<in> set (base64_quad [x, y, z]) \<Longrightarrow> k AND 0x3f = k"
    unfolding base64_quad_bits by (auto intro!: bit_word_eqI simp: byte_bits dest!: byte_cases)
qed

lemma base64_quad_triple: "\<exists>a b c d. base64_quad [x, y, z] = [a, b, c, d] \<and> base64_triple a b c d = [x, y, z]"
proof -
  have "base64_triple (drop_bit 2 (x AND 0xfc)) (push_bit 4 (x AND 0x03) OR drop_bit 4 (y AND 0xf0))
     (push_bit 2 (y AND 0x0f) OR drop_bit 6 (z AND 0xc0)) (z AND 0x3f) = [x, y, z]"
    unfolding base64_triple_def triple_bits ..
  then show ?thesis using base64_quad_bits by blast
qed

lemma base64_loop_ret: "base64_loop xs b (r @ s) = map_prod id ((@) r) (base64_loop xs b s)"
proof (induction xs b s rule: base64_loop.induct)
  case (2 x xs b ret)
  then show ?case using 2(1) [of "b @ [x]"] 2(2) [of "b @ [x]"] by (simp add: Let_def)
qed simp

lemma base64_encode_simps [simp]:
  "base64_encode [] = []"
  "base64_encode [x] = base64_text (take 2 (base64_quad [x, 0, 0])) @ ''==''"
  "base64_encode [x, y] = base64_text (take 3 (base64_quad [x, y, 0])) @ ''=''"
  "base64_encode (x # y # z # xs) = base64_text (base64_quad [x, y, z]) @ base64_encode xs"
proof -
  show "base64_encode (x # y # z # xs) = base64_text (base64_quad [x, y, z]) @ base64_encode xs"
    using base64_loop_ret [of xs "[]" "base64_text (base64_quad [x, y, z])" "[]"]
    by (simp add: base64_encode_def split: prod.split)
qed (simp_all add: base64_encode_def numeral_2_eq_2 eval_nat_numeral)

lemma triples_induct [case_names Nil One Two Three]:
  assumes "P []" "\<And>x. P [x]" "\<And>x y. P [x, y]" "\<And>x y z xs. P xs \<Longrightarrow> P (x # y # z # xs)"
  shows "P xs"
  using assms by induction_schema (pat_completeness, lexicographic_order)

text \<open>Base64 is undone by its decoder: from every text the encoder makes the bytes come back, a text of four
  characters for every three bytes begun, over the alphabet and the sign that pads.\<close>

theorem base64_round_trip:
  "base64_decode (base64_encode xs) = Some xs \<and> length (base64_encode xs) = 4 * ((length xs + 2) div 3)
   \<and> set (base64_encode xs) \<subseteq> set (CHR ''='' # base64_chars)"
proof (induction xs rule: triples_induct)
  case (One x)
  obtain a b c d where q: "base64_quad [x, 0, 0] = [a, b, c, d]" "base64_triple a b c d = [x, 0, 0]"
    using base64_quad_triple by blast
  then have s: "unat a < 64" "unat b < 64" using quad_small [of _ x 0 0] by auto
  from q(2) have "take 1 (base64_triple a b 0 0) = [x]" by (simp add: base64_triple_def)
  then show ?case using q(1) base64_value_char [OF s(1)] base64_value_char [OF s(2)] by simp
next
  case (Two x y)
  obtain a b c d where q: "base64_quad [x, y, 0] = [a, b, c, d]" "base64_triple a b c d = [x, y, 0]"
    using base64_quad_triple by blast
  then have s: "unat a < 64" "unat b < 64" "unat c < 64" using quad_small [of _ x y 0] by auto
  from q(2) have "take 2 (base64_triple a b c 0) = [x, y]" by (simp add: base64_triple_def)
  then show ?case
    using q(1) base64_value_char [OF s(1)] base64_value_char [OF s(2)] base64_value_char [OF s(3)] by simp
next
  case (Three x y z xs)
  obtain a b c d where q: "base64_quad [x, y, z] = [a, b, c, d]" "base64_triple a b c d = [x, y, z]"
    using base64_quad_triple by blast
  then have "unat k < 64" if "k \<in> {a, b, c, d}" for k using quad_small [of k x y z] that by auto
  moreover have "(5 + n) div 3 = Suc (Suc (Suc n) div 3)" for n :: nat by presburger
  ultimately show ?case using q Three base64_value_char [of a] base64_value_char [of b] base64_value_char [of c]
    base64_value_char [of d] by simp
qed simp

section \<open>Frames\<close>

text \<open>The length of the payload is a \<open>std::size_t\<close>.\<close>

definition length_field :: "64 word \<Rightarrow> byte list" where
  "length_field n =
     (if n < 126 then [0x80 OR ucast n]
      else if n < 65536 then [0x80 OR 126, ucast (drop_bit 8 n AND 0xff), ucast (n AND 0xff)]
      else (0x80 OR 127) # map (\<lambda>i. ucast (drop_bit (i * 8) n AND 0xff)) [7, 6, 5, 4, 3, 2, 1, 0])"

definition mask_payload :: "byte list \<Rightarrow> byte list \<Rightarrow> byte list" where
  "mask_payload mk p = map (\<lambda>i. p ! i XOR mk ! (i mod 4)) [0..<length p]"

definition send_websocket_frame :: "byte list \<Rightarrow> byte list \<Rightarrow> byte list" where
  "send_websocket_frame mk p = 0x81 # length_field (of_nat (length p)) @ mk @ mask_payload mk p"

text \<open>Reading a frame: \<open>buf\<close> is the buffer after \<open>SSL_read\<close>, the bytes read followed by what it held before,
  \<open>received\<close> what \<open>SSL_read\<close> returned, and \<open>mem\<close> the longest string that can be reserved.\<close>

definition frame_length :: "byte list \<Rightarrow> 64 word \<times> nat" where
  "frame_length buf =
     (let n = buf ! 1 AND 0x7f in
      if n = 126 then (push_bit 8 (ucast (buf ! 2)) OR ucast (buf ! 3), 4)
      else if n = 127 then (fold (\<lambda>i m. push_bit 8 m OR ucast (buf ! (2 + i))) [0..<8] 0, 10)
      else (ucast n, 2))"

definition frame_mask :: "byte list \<Rightarrow> nat \<Rightarrow> byte list option \<times> nat" where
  "frame_mask buf off =
     (if buf ! 1 AND 0x80 \<noteq> 0 then (Some (map (\<lambda>i. buf ! (off + i)) [0..<4]), off + 4) else (None, off))"

definition unmask :: "byte list option \<Rightarrow> nat \<Rightarrow> byte \<Rightarrow> byte" where
  "unmask mk i b = (case mk of Some m \<Rightarrow> b XOR m ! (i mod 4) | None \<Rightarrow> b)"

fun payload_loop :: "byte list \<Rightarrow> nat \<Rightarrow> byte list option \<Rightarrow> nat \<Rightarrow> nat \<Rightarrow> byte list \<Rightarrow> byte list outcome" where
  "payload_loop buf off mk i 0 p = Returns p"
| "payload_loop buf off mk i (Suc n) p =
     (if off + i < length buf then payload_loop buf off mk (i + 1) n (p @ [unmask mk i (buf ! (off + i))])
      else Undefined ''read outside the buffer'')"

definition receive_websocket_frame :: "nat \<Rightarrow> byte list \<Rightarrow> int \<Rightarrow> byte list outcome" where
  "receive_websocket_frame mem buf received =
     (if received < 2 then Returns []
      else case frame_length buf of (n, off) \<Rightarrow>
        (case frame_mask buf off of (mk, off) \<Rightarrow>
          if mem < unat n then Throws ''basic_string::reserve''
          else payload_loop buf off mk 0 (unat n) []))"

section \<open>Connecting\<close>

text \<open>What the network answers, beside the sockets of the HTTP client: an empty string is a failed read.\<close>

record 'a tls_network = "'a network" +
  sets_fd :: "nat \<Rightarrow> bool"
  tls_write :: "nat \<Rightarrow> string \<Rightarrow> int"
  tls_read :: "nat \<Rightarrow> string \<Rightarrow> string"

record WebSocketConnection =
  ws_host :: string
  ws_port :: int
  socket_fd :: "nat option"
  ws_ctx :: bool
  ws_ssl :: bool
  connected :: bool
  send_queue :: "byte list list"
  receive_queue :: "byte list list"
  sockets :: "socket_event list"
  contexts_made :: nat
  objects_made :: nat
  written :: "byte list list"

definition WebSocketConnection_new :: "string \<Rightarrow> int \<Rightarrow> WebSocketConnection" where
  "WebSocketConnection_new host port = \<lparr>ws_host = host, ws_port = port, socket_fd = None, ws_ctx = False,
     ws_ssl = False, connected = False, send_queue = [], receive_queue = [], sockets = [], contexts_made = 0,
     objects_made = 0, written = []\<rparr>"

definition establish_connection :: "'a tls_network \<Rightarrow> WebSocketConnection \<Rightarrow> bool \<times> WebSocketConnection" where
  "establish_connection net s =
     (case resolve net (ws_host s) (to_string_int (ws_port s)) of
        None \<Rightarrow> (False, s)
      | Some as \<Rightarrow> (case try_addresses (network.truncate net) as of
            (fd, es) \<Rightarrow> (fd \<noteq> None, s\<lparr>socket_fd := fd, sockets := sockets s @ es\<rparr>)))"

text \<open>The pointers to the TLS context and object are overwritten, what they pointed to is not freed.\<close>

definition ssl_handshake :: "'a tls_network \<Rightarrow> nat \<Rightarrow> WebSocketConnection \<Rightarrow> bool \<times> WebSocketConnection" where
  "ssl_handshake net fd s =
     (if \<not> new_context net then (False, s\<lparr>ws_ctx := False\<rparr>)
      else
        let s = s\<lparr>ws_ctx := True, contexts_made := contexts_made s + 1\<rparr> in
        if \<not> new_ssl net fd then (False, s\<lparr>ws_ssl := False\<rparr>)
        else
          let s = s\<lparr>ws_ssl := True, objects_made := objects_made s + 1\<rparr> in
          if \<not> sets_fd net fd then (False, s) else (handshake net fd (ws_host s), s))"

definition handshake_request :: "string \<Rightarrow> int \<Rightarrow> string \<Rightarrow> string" where
  "handshake_request host port key =
     ''GET /?v=10&encoding=json HTTP/1.1'' @ crlf @ ''Host: '' @ host @ '':'' @ to_string_int port @ crlf
     @ ''Upgrade: websocket'' @ crlf @ ''Connection: Upgrade'' @ crlf @ ''Sec-WebSocket-Key: '' @ key @ crlf
     @ ''Sec-WebSocket-Version: 13'' @ crlf @ ''Sec-WebSocket-Extensions: permessage-deflate'' @ crlf @ crlf"

text \<open>The response is read as a C string. The accept value the code computes is not compared with anything.\<close>

definition websocket_handshake :: "'a tls_network \<Rightarrow> nat \<Rightarrow> byte list \<Rightarrow> WebSocketConnection \<Rightarrow> bool" where
  "websocket_handshake net fd random s =
     (let request = handshake_request (ws_host s) (ws_port s) (base64_encode random); r = take 4095 (tls_read net fd request)
      in 0 < tls_write net fd request \<and> r \<noteq> [] \<and> contains (takeWhile (\<lambda>c. c \<noteq> NUL) r) ''101'')"

definition ws_close :: "WebSocketConnection \<Rightarrow> WebSocketConnection" where
  "ws_close s = (case socket_fd s of
       Some fd \<Rightarrow> s\<lparr>sockets := sockets s @ [Closed fd], socket_fd := None\<rparr> | None \<Rightarrow> s)"

definition ws_connect :: "'a tls_network \<Rightarrow> byte list \<Rightarrow> WebSocketConnection \<Rightarrow> bool \<times> WebSocketConnection" where
  "ws_connect net random s =
     (if connected s then (True, s)
      else case establish_connection net s of
          (False, s) \<Rightarrow> (False, s)
        | (True, s) \<Rightarrow>
            let fd = the (socket_fd s) in
            (case ssl_handshake net fd s of
               (False, s) \<Rightarrow> (False, ws_close s)
             | (True, s) \<Rightarrow>
                 if websocket_handshake net fd random s then (True, s\<lparr>connected := True\<rparr>) else (False, ws_close s)))"

definition ws_disconnect :: "WebSocketConnection \<Rightarrow> WebSocketConnection" where
  "ws_disconnect s = (if connected s then ws_close (s\<lparr>connected := False\<rparr>) else s)"

text \<open>The destructor, with the number of TLS contexts and objects that are never freed.\<close>

definition ws_destroy :: "WebSocketConnection \<Rightarrow> WebSocketConnection \<times> nat \<times> nat" where
  "ws_destroy s = (let s = ws_disconnect s in
     (s, contexts_made s - (if ws_ctx s then 1 else 0), objects_made s - (if ws_ssl s then 1 else 0)))"

section \<open>Messages\<close>

definition ws_send_message :: "byte list \<Rightarrow> WebSocketConnection \<Rightarrow> bool \<times> WebSocketConnection" where
  "ws_send_message m s = (if connected s then (True, s\<lparr>send_queue := send_queue s @ [m]\<rparr>) else (False, s))"

definition ws_receive_message :: "WebSocketConnection \<Rightarrow> byte list \<times> WebSocketConnection" where
  "ws_receive_message s =
     (case receive_queue s of [] \<Rightarrow> ([], s) | m # q \<Rightarrow> (m, s\<lparr>receive_queue := q\<rparr>))"

text \<open>One round of the loop of the thread, with the outcome of \<open>SSL_read\<close> and the mask for a frame.\<close>

definition connection_round ::
  "nat \<Rightarrow> byte list \<Rightarrow> int \<Rightarrow> byte list \<Rightarrow> WebSocketConnection \<Rightarrow> WebSocketConnection outcome" where
  "connection_round mem buf received mk s =
     outcome_bind (receive_websocket_frame mem buf received) (\<lambda>m.
       let s = (if m \<noteq> [] then s\<lparr>receive_queue := receive_queue s @ [m]\<rparr> else s) in
       Returns (case send_queue s of
           [] \<Rightarrow> s
         | p # q \<Rightarrow> s\<lparr>send_queue := q, written := written s @ [send_websocket_frame mk p]\<rparr>))"

datatype 'a ws_call =
    Ws_connect "'a tls_network" "byte list"
  | Ws_disconnect
  | Ws_send "byte list"
  | Ws_receive
  | Ws_round nat "byte list" int "byte list"

fun ws_step :: "'a ws_call \<Rightarrow> WebSocketConnection \<Rightarrow> WebSocketConnection outcome" where
  "ws_step (Ws_connect net random) s = Returns (snd (ws_connect net random s))"
| "ws_step Ws_disconnect s = Returns (ws_disconnect s)"
| "ws_step (Ws_send m) s = Returns (snd (ws_send_message m s))"
| "ws_step Ws_receive s = Returns (snd (ws_receive_message s))"
| "ws_step (Ws_round mem buf received mk) s =
     (if connected s then connection_round mem buf received mk s else Returns s)"

fun ws_run :: "'a ws_call list \<Rightarrow> WebSocketConnection \<Rightarrow> WebSocketConnection outcome" where
  "ws_run [] s = Returns s"
| "ws_run (c # cs) s = outcome_bind (ws_step c s) (ws_run cs)"

section \<open>The frames of RFC 6455\<close>

fun big_endian :: "nat \<Rightarrow> nat \<Rightarrow> byte list" where
  "big_endian 0 n = []"
| "big_endian (Suc k) n = big_endian k (n div 256) @ [of_nat n]"

text \<open>A frame with its end flag, its operation, a key or none, and its payload.\<close>

definition rfc_length :: "nat \<Rightarrow> byte \<times> byte list" where
  "rfc_length n = (if n < 126 then (of_nat n, []) else if n < 65536 then (126, big_endian 2 n) else (127, big_endian 8 n))"

definition rfc_frame :: "bool \<Rightarrow> byte \<Rightarrow> byte list option \<Rightarrow> byte list \<Rightarrow> byte list" where
  "rfc_frame fin op k p =
     (let (n, ext) = rfc_length (length p) in
      [(if fin then 0x80 else 0) OR op, (if k = None then 0 else 0x80) OR n] @ ext
      @ (case k of None \<Rightarrow> p | Some m \<Rightarrow> m @ map (\<lambda>i. m ! (i mod 4) XOR p ! i) [0..<length p]))"

lemma append_byte: "push_bit 8 (of_nat (n div 256)) OR ucast (of_nat n :: byte) = (of_nat n :: 64 word)"
proof -
  have "ucast (of_nat n :: byte) = (of_nat (take_bit 8 n) :: 64 word)"
    by (simp add: unsigned_of_nat)
  moreover have "push_bit 8 (of_nat (n div 256)) = (of_nat (push_bit 8 (drop_bit 8 n)) :: 64 word)"
    by (simp add: push_bit_of_nat drop_bit_eq_div)
  moreover have "push_bit 8 (drop_bit 8 n) OR take_bit 8 n = n"
    by (rule bit_eqI) (auto simp: bit_simps)
  ultimately show ?thesis by (simp add: of_nat_or_eq [symmetric] del: of_nat_or_eq)
qed

lemma length_bits:
  assumes "n < 128"
  shows "((if b then 0 else 0x80) OR of_nat n) AND 0x7f = (of_nat n :: byte)"
    "((if b then 0 else 0x80) OR of_nat n :: byte) AND 0x80 \<noteq> 0 \<longleftrightarrow> \<not> b"
proof -
  have "of_nat n AND (0x7f :: byte) = of_nat (take_bit 7 n)"
    by (simp add: take_bit_eq_mask mask_numeral of_nat_and_eq)
  also have "take_bit 7 n = n" using assms by (simp add: take_bit_nat_eq_self)
  finally have n: "of_nat n AND (0x7f :: byte) = of_nat n" .
  show 1: "((if b then 0 else 0x80) OR of_nat n) AND 0x7f = (of_nat n :: byte)"
    using n by (simp add: bit.conj_disj_distrib2)
  have "of_nat n AND (0x80 :: byte) = (of_nat n AND 0x7f) AND 0x80" by (simp only: n)
  also have "\<dots> = 0" by (simp add: and.assoc)
  finally show "((if b then 0 else 0x80) OR of_nat n :: byte) AND 0x80 \<noteq> 0 \<longleftrightarrow> \<not> b"
    by (simp add: bit.conj_disj_distrib2)
qed

lemma big_endian_2: "big_endian 2 n = [of_nat (n div 256), of_nat n]"
  by (simp add: numeral_2_eq_2)

lemma big_endian_8:
  "big_endian 8 n = [of_nat (n div 2 ^ 56), of_nat (n div 2 ^ 48), of_nat (n div 2 ^ 40), of_nat (n div 2 ^ 32),
     of_nat (n div 2 ^ 24), of_nat (n div 2 ^ 16), of_nat (n div 256), of_nat n]"
proof -
  have "(8 :: nat) = Suc (Suc (Suc (Suc (Suc (Suc (Suc (Suc 0)))))))" by simp
  then show ?thesis by (simp only: big_endian.simps append.simps div_mult2_eq [symmetric]) simp
qed

lemma length_field_rfc:
  assumes "n < 2 ^ 64"
  shows "length_field (of_nat n) = (case rfc_length n of (l, ext) \<Rightarrow> (0x80 OR l) # ext)"
proof -
  have b: "ucast (drop_bit k (of_nat n) AND 0xff :: 64 word) = (of_nat (n div 2 ^ k) :: byte)" for k
  proof -
    have "drop_bit k (of_nat n :: 64 word) = of_nat (n div 2 ^ k)"
    proof -
      have "unat (drop_bit k (of_nat n :: 64 word)) = drop_bit k n"
        using assms by (simp only: unsigned_drop_bit_eq unsigned_of_nat) (simp add: take_bit_nat_eq_self)
      then have "of_nat (unat (drop_bit k (of_nat n :: 64 word))) = (of_nat (n div 2 ^ k) :: 64 word)"
        by (simp only: drop_bit_eq_div)
      then show ?thesis by simp
    qed
    moreover have "ucast (of_nat m AND 0xff :: 64 word) = (of_nat m :: byte)" for m
      by (rule bit_word_eqI) (auto simp: bit_simps dest!: byte_cases)
    ultimately show ?thesis by simp
  qed
  have small: "(of_nat n :: 64 word) < of_nat m \<longleftrightarrow> n < m" if "m < 2 ^ 64" for m
    using that assms by (simp add: word_less_nat_alt unsigned_of_nat take_bit_nat_eq_self)
  have u: "ucast (of_nat n :: 64 word) = (of_nat n :: byte)"
    by (rule bit_word_eqI) (auto simp: bit_simps dest!: byte_cases)
  have b0: "ucast (of_nat n AND 0xff :: 64 word) = (of_nat n :: byte)" using b [of 0] by simp
  show ?thesis
    using small [of 126] small [of 65536]
    by (simp add: length_field_def rfc_length_def b b0 u big_endian_2 big_endian_8)
qed

lemma sent_frame_is_rfc:
  "length p < 2 ^ 64 \<Longrightarrow> send_websocket_frame k p = rfc_frame True 1 (Some k) p"
  by (simp add: send_websocket_frame_def rfc_frame_def length_field_rfc mask_payload_def xor.commute split: prod.split)

lemma payload_loop_result:
  "payload_loop buf off k i n p =
     (if off + i + n \<le> length buf \<or> n = 0 then Returns (p @ map (\<lambda>j. unmask k j (buf ! (off + j))) [i..<i + n])
      else Undefined ''read outside the buffer'')"
proof (induction n arbitrary: i p)
  case (Suc n)
  have "[i..<i + Suc n] = i # [i + 1..<i + 1 + n]" by (simp add: upt_rec)
  then show ?case using Suc [of "i + 1"] by auto
qed simp

lemma ext_length:
  assumes "n < 2 ^ 64"
  shows "fold (\<lambda>i m. push_bit 8 m OR ucast ((a # b # big_endian 8 n @ rest) ! (2 + i))) [0..<8] 0 = (of_nat n :: 64 word)"
proof -
  have upt_8: "[0..<8] = [0, 1, 2, 3, 4, 5, 6, 7]" by (simp add: upt_rec)
  have A: "push_bit 8 (of_nat (n div 2 ^ (k + 8))) OR ucast (of_nat (n div 2 ^ k) :: byte) = (of_nat (n div 2 ^ k) :: 64 word)" for k
    using append_byte [of "n div 2 ^ k"] by (simp add: power_add div_mult2_eq)
  have sums: "(8 :: nat) + 8 = 16" "(16 :: nat) + 8 = 24" "(24 :: nat) + 8 = 32" "(32 :: nat) + 8 = 40"
    "(40 :: nat) + 8 = 48" "(48 :: nat) + 8 = 56" "(56 :: nat) + 8 = 64" "(2 :: nat) ^ 8 = 256" by simp_all
  have z: "n div 2 ^ 64 = 0" using assms by simp
  have "fold (\<lambda>i m. push_bit 8 m OR ucast ((a # b # big_endian 8 n @ rest) ! (2 + i))) [0..<8] 0
    = fold (\<lambda>x m. push_bit 8 m OR ucast x) (big_endian 8 n) (of_nat (n div 2 ^ 64) :: 64 word)"
    unfolding z upt_8 by (simp add: big_endian_8)
  also have "\<dots> = of_nat n"
    by (simp only: big_endian_8 fold_simps A [of 56, unfolded sums] A [of 48, unfolded sums] A [of 40, unfolded sums]
        A [of 32, unfolded sums] A [of 24, unfolded sums] A [of 16, unfolded sums] A [of 8, unfolded sums] append_byte)
  finally show ?thesis .
qed

lemma small_of_nat:
  assumes "n < 256"
  shows "ucast (of_nat n :: byte) = (of_nat n :: 64 word)" "m < 256 \<Longrightarrow> (of_nat n :: byte) = of_nat m \<longleftrightarrow> n = m"
  using assms by (simp_all add: unsigned_of_nat take_bit_nat_eq_self word_of_nat_eq_iff)

lemma rfc_frame_parts:
  "rfc_frame fin op k p = (if fin then 0x80 OR op else op)
     # ((if k = None then 0 else 0x80) OR fst (rfc_length (length p))) # snd (rfc_length (length p))
     @ (case k of None \<Rightarrow> p | Some m \<Rightarrow> m @ map (\<lambda>i. m ! (i mod 4) XOR p ! i) [0..<length p])"
  by (simp add: rfc_frame_def split: prod.split)

lemma frame_length_rfc:
  assumes "length p < 2 ^ 64"
  shows "frame_length (rfc_frame fin op k p @ rest) = (of_nat (length p), 2 + length (snd (rfc_length (length p))))"
proof -
  define a where "a = (if fin then 0x80 OR op else op)"
  define z where "z = (case k of None \<Rightarrow> p | Some m \<Rightarrow> m @ map (\<lambda>i. m ! (i mod 4) XOR p ! i) [0..<length p]) @ rest"
  let ?n = "length p"
  note bits = length_bits(1) [of _ "k = None"]
  have split: "rfc_frame fin op k p @ rest = a # ((if k = None then 0 else 0x80) OR fst (rfc_length ?n)) # snd (rfc_length ?n) @ z"
    by (simp add: rfc_frame_parts a_def z_def)
  consider "?n < 126" | "126 \<le> ?n" "?n < 65536" | "65536 \<le> ?n" by linarith
  then show ?thesis
  proof cases
    case 1
    then show ?thesis
      unfolding split using bits [of ?n] small_of_nat [of ?n] small_of_nat(2) [of ?n 126] small_of_nat(2) [of ?n 127]
      by (simp add: frame_length_def rfc_length_def Let_def)
  next
    case 2
    then have "?n div 256 < 256" by linarith
    then show ?thesis
      unfolding split using 2 bits [of 126] append_byte [of ?n] small_of_nat(1) [of "?n div 256"]
      by (simp add: frame_length_def rfc_length_def big_endian_2 Let_def)
  next
    case 3
    then have f: "frame_length (a # ((if k = None then 0 else 0x80) OR fst (rfc_length ?n)) # snd (rfc_length ?n) @ z)
      = (fold (\<lambda>i m. push_bit 8 m OR ucast ((a # ((if k = None then 0 else 0x80) OR 127) # big_endian 8 ?n @ z) ! (2 + i))) [0..<8] 0, 10)"
      using bits [of 127] by (simp add: frame_length_def rfc_length_def Let_def)
    have "length (big_endian 8 ?n) = 8" by (simp add: big_endian_8)
    then show ?thesis unfolding split f ext_length [OF assms] using 3 by (simp add: rfc_length_def)
  qed
qed

lemma frame_mask_rfc:
  assumes "\<And>m. k = Some m \<Longrightarrow> length m = 4"
  shows "frame_mask (rfc_frame fin op k p @ rest) (2 + length (snd (rfc_length (length p))))
    = (k, length (rfc_frame fin op k p) - length p)"
proof -
  have "(((if k = None then 0 else 0x80) OR fst (rfc_length (length p))) AND 0x80 \<noteq> 0) = (k \<noteq> None)"
    using length_bits(2) [of "length p" "k = None"] length_bits(2) [of 126 "k = None"] length_bits(2) [of 127 "k = None"]
    by (auto simp: rfc_length_def)
  moreover have "map (\<lambda>i. (m @ y) ! i) [0..<4] = m" if "length m = 4" for m y :: "byte list"
    using that by (auto simp: nth_append intro!: nth_equalityI)
  ultimately show ?thesis
    using assms by (cases k) (auto simp: frame_mask_def rfc_frame_parts nth_append)
qed

lemma unmask_twice: "(a XOR b) XOR a = (b :: byte)"
  by (metis xor.assoc xor.commute xor_self_eq xor.left_neutral)

lemma payload_at:
  assumes "i < length p"
  shows "unmask k i ((rfc_frame fin op k p @ rest) ! (length (rfc_frame fin op k p) - length p + i)) = p ! i"
  using assms by (cases k) (auto simp: unmask_def rfc_frame_parts nth_append unmask_twice)

text \<open>C25. The connection speaks the protocol. What it writes for a message is the masked text frame RFC 6455
  gives it, and from a buffer that holds a whole frame of the RFC, of any operation, masked or not, with a length of
  one, two or eight bytes, it reads the payload back.\<close>

theorem frames_received:
  assumes "buf = rfc_frame fin op k p @ rest" and "\<And>m. k = Some m \<Longrightarrow> length m = 4"
    and "length p < 2 ^ 64" and "length p \<le> mem" and "2 \<le> received"
  shows "receive_websocket_frame mem buf received = Returns p
    \<and> send_websocket_frame m p = rfc_frame True 1 (Some m) p"
proof -
  have u: "unat (of_nat (length p) :: 64 word) = length p"
    using assms(3) by (simp add: unsigned_of_nat take_bit_nat_eq_self)
  have "length p \<le> length (rfc_frame fin op k p)" by (auto simp: rfc_frame_parts split: option.split)
  moreover have "map (\<lambda>j. unmask k j (buf ! (length (rfc_frame fin op k p) - length p + j))) [0..<length p] = p"
    by (rule nth_equalityI) (use payload_at [of _ p k fin op rest] assms(1) in simp_all)
  ultimately have "payload_loop buf (length (rfc_frame fin op k p) - length p) k 0 (length p) [] = Returns p"
    unfolding payload_loop_result by (simp add: assms(1))
  then show ?thesis
    using assms(4,5) sent_frame_is_rfc [OF assms(3)] frame_length_rfc [OF assms(3)] frame_mask_rfc [OF assms(2)]
    by (simp add: receive_websocket_frame_def assms(1) u)
qed

lemma frames_received_witness:
  "receive_websocket_frame 4096 (rfc_frame True 1 (Some [1, 2, 3, 4]) [72, 105] @ replicate 4088 0) 8 = Returns [72, 105]
    \<and> send_websocket_frame [9, 8, 7, 6] [72, 105] = rfc_frame True 1 (Some [9, 8, 7, 6]) [72, 105]"
  by (rule frames_received [OF refl]) auto

text \<open>A length beyond the buffer, which the peer chooses, is believed.\<close>

lemma announced_length_is_trusted:
  assumes "2 \<le> received" "frame_length buf = (n, off)" "frame_mask buf off = (k, off')"
    and "length buf < off' + unat n" "unat n \<le> mem" "n \<noteq> 0"
  shows "receive_websocket_frame mem buf received = Undefined ''read outside the buffer''"
  using assms unat_eq_zero [of n] by (auto simp: receive_websocket_frame_def payload_loop_result)

lemma huge_length_throws:
  assumes "2 \<le> received" "frame_length buf = (n, off)" "mem < unat n"
  shows "receive_websocket_frame mem buf received = Throws ''basic_string::reserve''"
  using assms by (simp add: receive_websocket_frame_def split: prod.split)

section \<open>The queues\<close>

text \<open>What a session accepts, what frames it reads, and what messages it hands out.\<close>

fun accepted :: "'a ws_call list \<Rightarrow> WebSocketConnection \<Rightarrow> byte list list" where
  "accepted [] s = []"
| "accepted (c # cs) s =
     (case c of Ws_send m \<Rightarrow> if fst (ws_send_message m s) then [m] else [] | _ \<Rightarrow> [])
     @ (case ws_step c s of Returns s' \<Rightarrow> accepted cs s' | _ \<Rightarrow> [])"

fun frames_read :: "'a ws_call list \<Rightarrow> WebSocketConnection \<Rightarrow> byte list list" where
  "frames_read [] s = []"
| "frames_read (c # cs) s =
     (case c of
        Ws_round mem buf n k \<Rightarrow>
          (case receive_websocket_frame mem buf n of
             Returns m \<Rightarrow> if connected s \<and> m \<noteq> [] then [m] else [] | _ \<Rightarrow> [])
      | _ \<Rightarrow> [])
     @ (case ws_step c s of Returns s' \<Rightarrow> frames_read cs s' | _ \<Rightarrow> [])"

fun handed_out :: "'a ws_call list \<Rightarrow> WebSocketConnection \<Rightarrow> byte list list" where
  "handed_out [] s = []"
| "handed_out (c # cs) s =
     (case c of Ws_receive \<Rightarrow> take 1 (receive_queue s) | _ \<Rightarrow> [])
     @ (case ws_step c s of Returns s' \<Rightarrow> handed_out cs s' | _ \<Rightarrow> [])"

lemma connect_fields:
  "send_queue (snd (ws_connect net r s)) = send_queue s" "receive_queue (snd (ws_connect net r s)) = receive_queue s"
  "written (snd (ws_connect net r s)) = written s"
  by (auto simp: ws_connect_def establish_connection_def ssl_handshake_def ws_close_def Let_def
      split: option.split prod.split bool.split)

lemma disconnect_fields:
  "send_queue (ws_disconnect s) = send_queue s" "receive_queue (ws_disconnect s) = receive_queue s"
  "written (ws_disconnect s) = written s"
  by (auto simp: ws_disconnect_def ws_close_def split: option.split)

text \<open>The frames written between two states for the messages taken off the queue.\<close>

definition sent_between :: "WebSocketConnection \<Rightarrow> byte list list \<Rightarrow> WebSocketConnection \<Rightarrow> bool" where
  "sent_between s acc s' \<longleftrightarrow> (\<exists>ks. length ks \<le> length (send_queue s @ acc)
     \<and> written s' = written s @ map2 send_websocket_frame ks (take (length ks) (send_queue s @ acc))
     \<and> send_queue s' = drop (length ks) (send_queue s @ acc))"

lemma sent_none: "written s' = written s \<Longrightarrow> send_queue s' = send_queue s @ acc \<Longrightarrow> sent_between s acc s'"
  unfolding sent_between_def by (rule exI [of _ "[]"]) simp

lemma sent_trans:
  assumes "sent_between s a t" and "sent_between t b u"
  shows "sent_between s (a @ b) u"
proof -
  obtain ks where k: "length ks \<le> length (send_queue s @ a)"
    "written t = written s @ map2 send_websocket_frame ks (take (length ks) (send_queue s @ a))"
    "send_queue t = drop (length ks) (send_queue s @ a)" using assms(1) by (auto simp: sent_between_def)
  obtain ls where l: "length ls \<le> length (send_queue t @ b)"
    "written u = written t @ map2 send_websocket_frame ls (take (length ls) (send_queue t @ b))"
    "send_queue u = drop (length ls) (send_queue t @ b)" using assms(2) by (auto simp: sent_between_def)
  define q where "q = send_queue s @ a"
  have t: "send_queue t @ b = drop (length ks) (q @ b)" using k by (simp add: q_def)
  have "take (length (ks @ ls)) (q @ b) = take (length ks) q @ take (length ls) (drop (length ks) (q @ b))"
    using k(1) by (simp add: take_add q_def [symmetric] add.commute)
  moreover have "drop (length (ks @ ls)) (q @ b) = drop (length ls) (drop (length ks) (q @ b))"
    by (simp only: drop_drop length_append add.commute)
  moreover have "length (ks @ ls) \<le> length (q @ b)" using k(1) l(1) unfolding t by (simp add: q_def)
  ultimately show ?thesis
    unfolding sent_between_def append_assoc [symmetric] q_def [symmetric]
    using k(1,2) l(2,3) unfolding t q_def [symmetric]
    by (intro exI [of _ "ks @ ls"]) (simp del: drop_append take_append)
qed

lemma sent_step:
  assumes "ws_step c s = Returns s'"
  shows "sent_between s (case c of Ws_send m \<Rightarrow> if fst (ws_send_message m s) then [m] else [] | _ \<Rightarrow> []) s'"
proof (cases c)
  case (Ws_round mem buf n k)
  show ?thesis
  proof (cases "connected s \<and> send_queue s \<noteq> []")
    case True
    then show ?thesis unfolding sent_between_def using assms Ws_round
      by (intro exI [of _ "[k]"]) (auto simp: connection_round_def Let_def neq_Nil_conv split: if_splits)
  next
    case False
    then show ?thesis using assms Ws_round
      by (intro sent_none) (auto simp: connection_round_def Let_def split: if_splits)
  qed
qed (use assms in \<open>auto intro!: sent_none simp: connect_fields disconnect_fields ws_send_message_def
    ws_receive_message_def split: list.split\<close>)

lemma round_receives:
  "connection_round mem buf n k s = Returns s' \<Longrightarrow> \<exists>m. receive_websocket_frame mem buf n = Returns m
     \<and> receive_queue s' = receive_queue s @ (if m \<noteq> [] then [m] else [])"
  by (cases "receive_websocket_frame mem buf n"; cases "send_queue s") (auto simp: connection_round_def Let_def)

lemma received_step:
  assumes "ws_step c s = Returns s'"
  shows "receive_queue s @ (case c of Ws_round mem buf n k \<Rightarrow>
          (case receive_websocket_frame mem buf n of
             Returns m \<Rightarrow> if connected s \<and> m \<noteq> [] then [m] else [] | _ \<Rightarrow> []) | _ \<Rightarrow> [])
    = (case c of Ws_receive \<Rightarrow> take 1 (receive_queue s) | _ \<Rightarrow> []) @ receive_queue s'"
  using assms
  by (cases c) (auto simp: connect_fields disconnect_fields ws_send_message_def ws_receive_message_def
    dest!: round_receives split: list.split if_splits outcome.split)

lemma queues_run:
  "ws_run cs s = Returns s' \<Longrightarrow> sent_between s (accepted cs s) s'
     \<and> receive_queue s @ frames_read cs s = handed_out cs s @ receive_queue s'"
proof (induction cs arbitrary: s)
  case Nil
  then show ?case by (auto intro: sent_none)
next
  case (Cons c cs)
  then obtain t where t: "ws_step c s = Returns t" "ws_run cs t = Returns s'" by auto
  define x where "x = (case c of Ws_round mem buf n k \<Rightarrow> (case receive_websocket_frame mem buf n of
      Returns m \<Rightarrow> if connected s \<and> m \<noteq> [] then [m] else [] | _ \<Rightarrow> []) | _ \<Rightarrow> [])"
  define h where "h = (case c of Ws_receive \<Rightarrow> take 1 (receive_queue s) | _ \<Rightarrow> [])"
  have "receive_queue s @ x = h @ receive_queue t" using received_step [OF t(1)] by (simp only: x_def h_def)
  moreover have "frames_read (c # cs) s = x @ frames_read cs t" "handed_out (c # cs) s = h @ handed_out cs t"
    by (simp_all add: x_def h_def t(1))
  ultimately have "receive_queue s @ frames_read (c # cs) s = handed_out (c # cs) s @ receive_queue s'"
    using Cons.IH [OF t(2)] by (metis append_assoc)
  moreover have "sent_between s (accepted (c # cs) s) s'"
    using sent_trans [OF sent_step [OF t(1)]] Cons.IH [OF t(2)] t(1) by simp
  ultimately show ?case by simp
qed

section \<open>The socket\<close>

definition socket_inv :: "WebSocketConnection \<Rightarrow> bool" where
  "socket_inv s \<longleftrightarrow> replay (sockets s) ({}, {}) = Some (set_option (socket_fd s), {})
     \<and> connected s = (socket_fd s \<noteq> None)"

lemma establish_socket:
  assumes "socket_inv s" and "\<not> connected s" and "establish_connection net s = (ok, t)"
  shows "replay (sockets t) ({}, {}) = Some (set_option (socket_fd t), {}) \<and> ok = (socket_fd t \<noteq> None) \<and> \<not> connected t"
proof -
  from assms(1,2) have s: "socket_fd s = None" "replay (sockets s) ({}, {}) = Some ({}, {})" by (auto simp: socket_inv_def)
  show ?thesis
  proof (cases "resolve net (ws_host s) (to_string_int (ws_port s))")
    case (Some as)
    obtain fd es where fd: "try_addresses (network.truncate net) as = (fd, es)" by fastforce
    show ?thesis
      using assms(2,3) s Some fd try_addresses_replay [OF fd]
      by (auto simp: establish_connection_def socket_replay_append split: option.splits)
  qed (use assms s in \<open>auto simp: establish_connection_def\<close>)
qed

lemma handshake_socket:
  "ssl_handshake net fd s = (ok, t) \<Longrightarrow> sockets t = sockets s \<and> socket_fd t = socket_fd s \<and> connected t = connected s"
  by (auto simp: ssl_handshake_def Let_def split: if_splits)

lemma close_socket:
  "replay (sockets s) ({}, {}) = Some (set_option (socket_fd s), {}) \<Longrightarrow> \<not> connected s \<Longrightarrow> socket_inv (ws_close s)"
  by (auto simp: socket_inv_def ws_close_def socket_replay_append split: option.split)

lemma socket_step: "socket_inv s \<Longrightarrow> ws_step c s = Returns s' \<Longrightarrow> socket_inv s'"
proof (cases c)
  case (Ws_connect net r)
  assume inv: "socket_inv s" and step: "ws_step c s = Returns s'"
  obtain ok t where e: "establish_connection net s = (ok, t)" by fastforce
  obtain ok' u where h: "ssl_handshake net (the (socket_fd t)) t = (ok', u)" by fastforce
  show ?thesis
  proof (cases "connected s")
    case True
    then show ?thesis using inv step Ws_connect by (simp add: ws_connect_def)
  next
    case False
    note t = establish_socket [OF inv False e]
    note u = handshake_socket [OF h]
    have "socket_inv (ws_close u)" using close_socket [of u] t u by simp
    moreover have "ok \<Longrightarrow> socket_inv (u\<lparr>connected := True\<rparr>)" using t u by (simp add: socket_inv_def)
    moreover have "\<not> ok \<Longrightarrow> socket_inv t" using t by (simp add: socket_inv_def)
    ultimately show ?thesis
      using step Ws_connect False by (cases ok; cases ok') (auto simp: ws_connect_def e h Let_def split: if_splits)
  qed
next
  case Ws_disconnect
  assume inv: "socket_inv s" and step: "ws_step c s = Returns s'"
  then show ?thesis using Ws_disconnect close_socket [of "s\<lparr>connected := False\<rparr>"]
    by (auto simp: ws_disconnect_def socket_inv_def)
next
  case (Ws_round mem buf n k)
  assume inv: "socket_inv s" and step: "ws_step c s = Returns s'"
  have "connection_round mem buf n k s = Returns s' \<Longrightarrow> sockets s' = sockets s \<and> socket_fd s' = socket_fd s \<and> connected s' = connected s"
    by (cases "receive_websocket_frame mem buf n") (auto simp: connection_round_def Let_def split: list.splits if_splits)
  then show ?thesis using inv step Ws_round by (auto simp: socket_inv_def split: if_splits)
qed (auto simp: socket_inv_def ws_send_message_def ws_receive_message_def split: list.split)

lemma socket_run: "socket_inv s \<Longrightarrow> ws_run cs s = Returns s' \<Longrightarrow> socket_inv s'"
  by (induction cs arbitrary: s) (auto dest: socket_step)

text \<open>C26. The connection keeps order. In every session of connecting, disconnecting, sending, receiving and rounds of
  the loop that does not end in an exception: the frames written are the frames of the messages accepted, in that
  order, and the rest of those waits in the queue, also over reconnects; the messages handed out are the
  non-empty payloads read, in that order, and the rest waits; no socket is opened twice or closed twice, and
  exactly the socket of a connection in use is open.\<close>

theorem connection_keeps_order:
  assumes "ws_run cs (WebSocketConnection_new host port) = Returns s"
  shows "(\<exists>ks. length ks \<le> length (accepted cs (WebSocketConnection_new host port))
       \<and> written s = map2 send_websocket_frame ks (take (length ks) (accepted cs (WebSocketConnection_new host port)))
       \<and> send_queue s = drop (length ks) (accepted cs (WebSocketConnection_new host port)))
     \<and> frames_read cs (WebSocketConnection_new host port)
       = handed_out cs (WebSocketConnection_new host port) @ receive_queue s
     \<and> replay (sockets s) ({}, {}) = Some (set_option (socket_fd s), {})
     \<and> connected s = (socket_fd s \<noteq> None)"
proof -
  have "socket_inv (WebSocketConnection_new host port)" by (simp add: socket_inv_def WebSocketConnection_new_def)
  then have "socket_inv s" using socket_run assms by blast
  then show ?thesis
    using queues_run [OF assms] by (simp add: socket_inv_def sent_between_def WebSocketConnection_new_def)
qed

definition one_server :: "nat tls_network" where
  "one_server = \<lparr>resolve = (\<lambda>h p. Some [1]), socket_for = Some, connects = (\<lambda>f a. True), new_context = True,
     new_ssl = (\<lambda>f. True), handshake = (\<lambda>f h. True), send_result = (\<lambda>f d. 1), recv_results = (\<lambda>f d. []),
     sets_fd = (\<lambda>f. True), tls_write = (\<lambda>f d. 1), tls_read = (\<lambda>f d. ''HTTP/1.1 101 Switching Protocols'')\<rparr>"

lemma connection_keeps_order_witness:
  "\<exists>s. ws_run [Ws_connect one_server [1, 2, 3], Ws_send [72], Ws_send [73], Ws_round 10 [0x81, 1, 65, 0] 3 [1, 2, 3, 4]]
       (WebSocketConnection_new ''gateway'' 443) = Returns s
     \<and> frames_read [Ws_connect one_server [1, 2, 3], Ws_send [72], Ws_send [73], Ws_round 10 [0x81, 1, 65, 0] 3 [1, 2, 3, 4]]
         (WebSocketConnection_new ''gateway'' 443)
       = handed_out [Ws_connect one_server [1, 2, 3], Ws_send [72], Ws_send [73], Ws_round 10 [0x81, 1, 65, 0] 3 [1, 2, 3, 4]]
         (WebSocketConnection_new ''gateway'' 443) @ receive_queue s"
proof -
  let ?cs = "[Ws_connect one_server [1, 2, 3], Ws_send [72], Ws_send [73], Ws_round 10 [0x81, 1, 65, 0] 3 [1, 2, 3, 4]]"
  have "case ws_run ?cs (WebSocketConnection_new ''gateway'' 443) of Returns s \<Rightarrow> True | _ \<Rightarrow> False" by code_simp
  then obtain s where "ws_run ?cs (WebSocketConnection_new ''gateway'' 443) = Returns s" by (auto split: outcome.splits)
  with connection_keeps_order [OF this] show ?thesis by blast
qed

section \<open>Limits of the connection\<close>

text \<open>A network whose TLS handshake fails, and one that answers with an error that has the digits of the wanted
  status in it.\<close>

definition no_tls :: "nat tls_network" where
  "no_tls = one_server\<lparr>handshake := (\<lambda>f h. False)\<rparr>"

definition refusing_server :: "nat tls_network" where
  "refusing_server = one_server\<lparr>tls_read := (\<lambda>f d. ''HTTP/1.1 403 Forbidden, request 1017'')\<rparr>"

lemma failed_handshakes_leak:
  "snd (ws_destroy (snd (ws_connect no_tls [] (snd (ws_connect no_tls [] (WebSocketConnection_new ''h'' 443)))))) = (1, 1)"
  by code_simp

lemma refusal_is_taken_for_success:
  "fst (ws_connect refusing_server [1, 2, 3] (WebSocketConnection_new ''h'' 443))"
  by code_simp

end
