(* ===== verification/Discord_Api.thy ===== *)
theory Discord_Api
  imports Web_Socket
begin

text \<open>
  The Discord client \<open>DiscordAPIClient\<close> of \<open>medusa_discord_native_engine.hpp\<close> and
  \<open>medusa_discord_native_websocket.cpp\<close>, on top of the HTTP client and the WebSocket connection: its calls, the
  gateway and its events. The JSON library is the record \<open>json_library\<close>, over the values it documents: None is an
  exception of its parser or printer. What happens in the block of a \<open>try\<close> before an exception stays. A member
  without initialiser is None until it is assigned.
\<close>

section \<open>JSON\<close>

datatype json =
    JNull | JBool bool | JInt int | JReal "64 word" | JString string
  | JArray "json list" | JObject "(string \<times> json) list"

record json_library =
  jparse :: "string \<Rightarrow> json option"
  jdump :: "json \<Rightarrow> string option"
  real_to_int :: "64 word \<Rightarrow> int"

text \<open>\<open>operator[]\<close> followed by a conversion, \<open>value\<close> with a default, and the elements a loop over a value visits.\<close>

definition json_at :: "string \<Rightarrow> json \<Rightarrow> json option" where
  "json_at k j = (case j of JObject m \<Rightarrow> Some (case map_of m k of Some v \<Rightarrow> v | None \<Rightarrow> JNull) | JNull \<Rightarrow> Some JNull | _ \<Rightarrow> None)"

definition json_string :: "json \<Rightarrow> string option" where
  "json_string j = (case j of JString s \<Rightarrow> Some s | _ \<Rightarrow> None)"

definition json_number :: "json_library \<Rightarrow> json \<Rightarrow> int option" where
  "json_number lib j =
     (case j of JInt n \<Rightarrow> Some n | JBool b \<Rightarrow> Some (if b then 1 else 0) | JReal r \<Rightarrow> Some (real_to_int lib r) | _ \<Rightarrow> None)"

definition json_value :: "(json \<Rightarrow> 'a option) \<Rightarrow> string \<Rightarrow> 'a \<Rightarrow> json \<Rightarrow> 'a option" where
  "json_value conv k d j =
     (case j of JObject m \<Rightarrow> (case map_of m k of None \<Rightarrow> Some d | Some v \<Rightarrow> conv v) | _ \<Rightarrow> None)"

definition json_int32 :: "json_library \<Rightarrow> json \<Rightarrow> int option" where
  "json_int32 lib j = map_option to_int32 (json_number lib j)"

definition json_items :: "json \<Rightarrow> json list" where
  "json_items j = (case j of JArray js \<Rightarrow> js | JObject m \<Rightarrow> map snd m | JNull \<Rightarrow> [] | _ \<Rightarrow> [j])"

text \<open>An assignment in a \<open>try\<close> block: the flag is false once an exception has left it.\<close>

definition try_assign :: "'b option \<Rightarrow> ('b \<Rightarrow> 'a \<Rightarrow> 'a) \<Rightarrow> 'a \<times> bool \<Rightarrow> 'a \<times> bool" where
  "try_assign v f = (\<lambda>(x, running). if running then (case v of Some y \<Rightarrow> (f y x, True) | None \<Rightarrow> (x, False)) else (x, False))"

section \<open>The client\<close>

record DiscordCredentials =
  bot_token :: string
  application_id :: string
  cr_guild_id :: string
  client_secret :: string

record DiscordAPIClient =
  credentials :: DiscordCredentials
  gateway_url :: string
  ws_connection :: "WebSocketConnection option"
  api_authenticated :: bool
  sequence_number :: int
  session_id :: string
  heartbeat_interval :: int
  heartbeat_thread :: bool
  api_sockets :: "socket_event list"

definition api_base_url :: string where
  "api_base_url = ''https://discord.com/api/v10''"

definition DiscordAPIClient_new :: "DiscordCredentials \<Rightarrow> DiscordAPIClient" where
  "DiscordAPIClient_new creds = \<lparr>credentials = creds, gateway_url = [], ws_connection = None, api_authenticated = False,
     sequence_number = 0, session_id = [], heartbeat_interval = 0, heartbeat_thread = False, api_sockets = []\<rparr>"

definition api_request :: "DiscordCredentials \<Rightarrow> string \<Rightarrow> string \<Rightarrow> string \<Rightarrow> HttpRequest" where
  "api_request creds meth endpoint payload =
     HttpRequest_new\<lparr>rq_url := api_base_url @ endpoint, rq_method := meth, rq_body := payload,
       rq_headers := om_assign ''User-Agent'' ''DiscordBot (MedusaDiscord, 1.0)''
         (om_assign ''Content-Type'' ''application/json'' (om_assign ''Authorization'' (''Bot '' @ bot_token creds) []))\<rparr>"

definition make_http_request ::
  "'a tls_network \<Rightarrow> string \<Rightarrow> string \<Rightarrow> string \<Rightarrow> DiscordAPIClient \<Rightarrow> string outcome \<times> DiscordAPIClient" where
  "make_http_request net meth endpoint payload a =
     (case perform_request (network.truncate net) (api_request (credentials a) meth endpoint payload) NativeHttpClient_new of
        (r, c, es) \<Rightarrow> (outcome_bind r (\<lambda>x. Returns (rs_body x)), a\<lparr>api_sockets := api_sockets a @ es\<rparr>))"

definition post_json ::
  "json_library \<Rightarrow> 'a tls_network \<Rightarrow> string \<Rightarrow> string \<Rightarrow> json \<Rightarrow> DiscordAPIClient \<Rightarrow> string outcome \<times> DiscordAPIClient" where
  "post_json lib net meth endpoint j a =
     (case jdump lib j of
        None \<Rightarrow> (Throws ''type_error'', a)
      | Some payload \<Rightarrow> make_http_request net meth endpoint payload a)"

definition answered :: "string outcome \<times> DiscordAPIClient \<Rightarrow> bool outcome \<times> DiscordAPIClient" where
  "answered = (\<lambda>(r, a). (outcome_bind r (\<lambda>s. Returns (s \<noteq> [])), a))"

section \<open>Messages, channels, commands\<close>

definition api_send_message ::
  "json_library \<Rightarrow> 'a tls_network \<Rightarrow> string \<Rightarrow> string \<Rightarrow> DiscordAPIClient \<Rightarrow> bool outcome \<times> DiscordAPIClient" where
  "api_send_message lib net channel content a =
     answered (post_json lib net ''POST'' (''/channels/'' @ channel @ ''/messages'') (JObject [(''content'', JString content)]) a)"

definition api_send_embed ::
  "json_library \<Rightarrow> 'a tls_network \<Rightarrow> string \<Rightarrow> (string, string) umap \<Rightarrow> DiscordAPIClient \<Rightarrow> bool outcome \<times> DiscordAPIClient" where
  "api_send_embed lib net channel pairs a =
     (let e = (if pairs = [] then JNull else JObject (fold (\<lambda>(k, v). om_assign k (JString v)) pairs []))
      in answered (post_json lib net ''POST'' (''/channels/'' @ channel @ ''/messages'') (JObject [(''embeds'', JArray [e])]) a))"

definition api_edit_message ::
  "json_library \<Rightarrow> 'a tls_network \<Rightarrow> string \<Rightarrow> string \<Rightarrow> string \<Rightarrow> DiscordAPIClient \<Rightarrow> bool outcome \<times> DiscordAPIClient" where
  "api_edit_message lib net channel msg content a =
     answered (post_json lib net ''PATCH'' (''/channels/'' @ channel @ ''/messages/'' @ msg)
       (JObject [(''content'', JString content)]) a)"

definition api_delete_message ::
  "'a tls_network \<Rightarrow> string \<Rightarrow> string \<Rightarrow> DiscordAPIClient \<Rightarrow> bool outcome \<times> DiscordAPIClient" where
  "api_delete_message net channel msg a =
     answered (make_http_request net ''DELETE'' (''/channels/'' @ channel @ ''/messages/'' @ msg) [] a)"

record DiscordChannel =
  ch_id :: string
  ch_name :: string
  ch_type :: string
  ch_guild_id :: string
  ch_topic :: string
  ch_nsfw :: "bool option"
  ch_position :: "int option"

definition DiscordChannel_new :: DiscordChannel where
  "DiscordChannel_new = \<lparr>ch_id = [], ch_name = [], ch_type = [], ch_guild_id = [], ch_topic = [], ch_nsfw = None, ch_position = None\<rparr>"

text \<open>A channel is appended once it is complete; an exception ends the loop.\<close>

fun read_channels :: "string \<Rightarrow> json list \<Rightarrow> DiscordChannel list" where
  "read_channels guild [] = []"
| "read_channels guild (j # js) =
     (case (json_value json_string ''id'' [] j, json_value json_string ''name'' [] j, json_value json_string ''topic'' [] j) of
        (Some i, Some n, Some t) \<Rightarrow>
          DiscordChannel_new\<lparr>ch_id := i, ch_name := n, ch_topic := t, ch_guild_id := guild\<rparr> # read_channels guild js
      | _ \<Rightarrow> [])"

definition get_guild_channels ::
  "json_library \<Rightarrow> 'a tls_network \<Rightarrow> string \<Rightarrow> DiscordAPIClient \<Rightarrow> DiscordChannel list outcome \<times> DiscordAPIClient" where
  "get_guild_channels lib net guild a =
     (case make_http_request net ''GET'' (''/guilds/'' @ guild @ ''/channels'') [] a of
        (r, a) \<Rightarrow> (outcome_bind r (\<lambda>s. Returns
           (if s = [] then [] else case jparse lib s of None \<Rightarrow> [] | Some j \<Rightarrow> read_channels guild (json_items j))), a))"

definition api_create_channel ::
  "json_library \<Rightarrow> 'a tls_network \<Rightarrow> string \<Rightarrow> string \<Rightarrow> string \<Rightarrow> DiscordAPIClient \<Rightarrow> DiscordChannel outcome \<times> DiscordAPIClient" where
  "api_create_channel lib net guild name kind a =
     (case post_json lib net ''POST'' (''/guilds/'' @ guild @ ''/channels'')
             (JObject [(''name'', JString name), (''type'', JString kind)]) a of
        (r, a) \<Rightarrow> (outcome_bind r (\<lambda>s. Returns
           (if s = [] then DiscordChannel_new
            else case jparse lib s of
                None \<Rightarrow> DiscordChannel_new
              | Some j \<Rightarrow> fst
                  (try_assign (Some guild) (\<lambda>v c. c\<lparr>ch_guild_id := v\<rparr>)
                  (try_assign (json_value json_string ''name'' [] j) (\<lambda>v c. c\<lparr>ch_name := v\<rparr>)
                  (try_assign (json_value json_string ''id'' [] j) (\<lambda>v c. c\<lparr>ch_id := v\<rparr>) (DiscordChannel_new, True)))))), a))"

definition api_delete_channel :: "'a tls_network \<Rightarrow> string \<Rightarrow> DiscordAPIClient \<Rightarrow> bool outcome \<times> DiscordAPIClient" where
  "api_delete_channel net channel a = answered (make_http_request net ''DELETE'' (''/channels/'' @ channel) [] a)"

definition create_thread ::
  "json_library \<Rightarrow> 'a tls_network \<Rightarrow> string \<Rightarrow> string \<Rightarrow> DiscordAPIClient \<Rightarrow> bool outcome \<times> DiscordAPIClient" where
  "create_thread lib net channel name a =
     answered (post_json lib net ''POST'' (''/channels/'' @ channel @ ''/threads'')
       (JObject [(''auto_archive_duration'', JInt 1440), (''name'', JString name), (''type'', JInt 11)]) a)"

record DiscordGuild =
  gd_id :: string
  gd_name :: string
  gd_icon :: string
  gd_owner_id :: string
  gd_member_count :: "int option"
  gd_channels :: "DiscordChannel list"

definition DiscordGuild_new :: DiscordGuild where
  "DiscordGuild_new = \<lparr>gd_id = [], gd_name = [], gd_icon = [], gd_owner_id = [], gd_member_count = None, gd_channels = []\<rparr>"

definition read_guild :: "json_library \<Rightarrow> string \<Rightarrow> DiscordGuild" where
  "read_guild lib s =
     (case jparse lib s of
        None \<Rightarrow> DiscordGuild_new
      | Some j \<Rightarrow> fst
          (try_assign (json_value (json_int32 lib) ''member_count'' 0 j) (\<lambda>v g. g\<lparr>gd_member_count := Some v\<rparr>)
          (try_assign (json_value json_string ''owner_id'' [] j) (\<lambda>v g. g\<lparr>gd_owner_id := v\<rparr>)
          (try_assign (json_value json_string ''name'' [] j) (\<lambda>v g. g\<lparr>gd_name := v\<rparr>)
          (try_assign (json_value json_string ''id'' [] j) (\<lambda>v g. g\<lparr>gd_id := v\<rparr>) (DiscordGuild_new, True))))))"

definition get_guild ::
  "json_library \<Rightarrow> 'a tls_network \<Rightarrow> string \<Rightarrow> DiscordAPIClient \<Rightarrow> DiscordGuild outcome \<times> DiscordAPIClient" where
  "get_guild lib net guild a =
     (case make_http_request net ''GET'' (''/guilds/'' @ guild) [] a of
        (r, a) \<Rightarrow> (outcome_bind r (\<lambda>s. Returns (if s = [] then DiscordGuild_new else read_guild lib s)), a))"

record DiscordUser =
  us_id :: string
  us_name :: string
  us_discriminator :: string
  us_avatar :: string
  us_bot :: "bool option"
  us_verified :: "bool option"

definition DiscordUser_new :: DiscordUser where
  "DiscordUser_new = \<lparr>us_id = [], us_name = [], us_discriminator = [], us_avatar = [], us_bot = None, us_verified = None\<rparr>"

definition read_user :: "json \<Rightarrow> DiscordUser option" where
  "read_user j =
     (case j of
        JObject m \<Rightarrow>
          (case map_of m ''user'' of
             None \<Rightarrow> Some DiscordUser_new
           | Some u \<Rightarrow>
               (case (json_value json_string ''id'' [] u, json_value json_string ''username'' [] u,
                      json_value json_string ''discriminator'' [] u) of
                  (Some i, Some n, Some d) \<Rightarrow> Some (DiscordUser_new\<lparr>us_id := i, us_name := n, us_discriminator := d\<rparr>)
                | _ \<Rightarrow> None))
      | _ \<Rightarrow> Some DiscordUser_new)"

fun read_users :: "json list \<Rightarrow> DiscordUser list" where
  "read_users [] = []"
| "read_users (j # js) = (case read_user j of Some u \<Rightarrow> u # read_users js | None \<Rightarrow> [])"

definition get_guild_members ::
  "json_library \<Rightarrow> 'a tls_network \<Rightarrow> string \<Rightarrow> DiscordAPIClient \<Rightarrow> DiscordUser list outcome \<times> DiscordAPIClient" where
  "get_guild_members lib net guild a =
     (case make_http_request net ''GET'' (''/guilds/'' @ guild @ ''/members?limit=1000'') [] a of
        (r, a) \<Rightarrow> (outcome_bind r (\<lambda>s. Returns
           (if s = [] then [] else case jparse lib s of None \<Rightarrow> [] | Some j \<Rightarrow> read_users (json_items j))), a))"

text \<open>The commands of the application in a guild.\<close>

definition commands_endpoint :: "string \<Rightarrow> DiscordAPIClient \<Rightarrow> string" where
  "commands_endpoint guild a = ''/applications/'' @ application_id (credentials a) @ ''/guilds/'' @ guild @ ''/commands''"

definition register_slash_command ::
  "json_library \<Rightarrow> 'a tls_network \<Rightarrow> string \<Rightarrow> string \<Rightarrow> string \<Rightarrow> DiscordAPIClient \<Rightarrow> bool outcome \<times> DiscordAPIClient" where
  "register_slash_command lib net guild name description a =
     answered (post_json lib net ''POST'' (commands_endpoint guild a)
       (JObject [(''description'', JString description), (''name'', JString name), (''type'', JInt 1)]) a)"

definition update_slash_command ::
  "json_library \<Rightarrow> 'a tls_network \<Rightarrow> string \<Rightarrow> string \<Rightarrow> string \<Rightarrow> string \<Rightarrow> DiscordAPIClient \<Rightarrow> bool outcome \<times> DiscordAPIClient" where
  "update_slash_command lib net guild command name description a =
     answered (post_json lib net ''PATCH'' (commands_endpoint guild a @ ''/'' @ command)
       (JObject [(''description'', JString description), (''name'', JString name)]) a)"

definition delete_slash_command ::
  "'a tls_network \<Rightarrow> string \<Rightarrow> string \<Rightarrow> DiscordAPIClient \<Rightarrow> bool outcome \<times> DiscordAPIClient" where
  "delete_slash_command net guild command a =
     answered (make_http_request net ''DELETE'' (commands_endpoint guild a @ ''/'' @ command) [] a)"

section \<open>The gateway\<close>

text \<open>A connection that is destroyed hands the log of its sockets to the client's.\<close>

definition drop_connection :: "DiscordAPIClient \<Rightarrow> DiscordAPIClient" where
  "drop_connection a =
     (case ws_connection a of
        None \<Rightarrow> a
      | Some w \<Rightarrow> a\<lparr>ws_connection := None, api_sockets := api_sockets a @ sockets (fst (ws_destroy w))\<rparr>)"

definition api_disconnect :: "DiscordAPIClient \<Rightarrow> DiscordAPIClient" where
  "api_disconnect a = (drop_connection a)\<lparr>api_authenticated := False\<rparr>"

definition api_authenticate :: bool where
  "api_authenticate = True"

text \<open>Assigning to a thread object that is still joinable ends the program.\<close>

definition start_heartbeat :: "DiscordAPIClient \<Rightarrow> DiscordAPIClient outcome" where
  "start_heartbeat a =
     (if 0 < heartbeat_interval a
      then if heartbeat_thread a then Undefined ''std::terminate'' else Returns (a\<lparr>heartbeat_thread := True\<rparr>)
      else Returns a)"

definition bytes_of :: "string \<Rightarrow> byte list" where
  "bytes_of s = map (\<lambda>c. of_nat (code c)) s"

definition send_heartbeat :: "json_library \<Rightarrow> DiscordAPIClient \<Rightarrow> DiscordAPIClient outcome" where
  "send_heartbeat lib a =
     (case ws_connection a of
        None \<Rightarrow> Returns a
      | Some w \<Rightarrow>
          if \<not> connected w then Returns a
          else case jdump lib (JObject [(''d'', JInt (sequence_number a)), (''op'', JInt 1)]) of
              None \<Rightarrow> Throws ''type_error''
            | Some m \<Rightarrow> Returns (a\<lparr>ws_connection := Some (snd (ws_send_message (bytes_of m) w))\<rparr>))"

text \<open>Host and port of the gateway's address, when the block gets that far.\<close>

definition gateway_address :: "string \<Rightarrow> (string \<times> int) option" where
  "gateway_address url =
     (case str_find url ''://'' 0 of
        None \<Rightarrow> None
      | Some e \<Rightarrow>
          let hp = drop (e + 3) url;
              hp = (case str_find hp ''/'' 0 of Some k \<Rightarrow> take k hp | None \<Rightarrow> hp)
          in case str_find hp '':'' 0 of
              None \<Rightarrow> Some (hp, 443)
            | Some k \<Rightarrow> (case stoi (drop (k + 1) hp) of Returns n \<Rightarrow> Some (take k hp, n) | _ \<Rightarrow> None))"

definition connect_gateway ::
  "json_library \<Rightarrow> 'a tls_network \<Rightarrow> byte list \<Rightarrow> DiscordAPIClient \<Rightarrow> bool outcome \<times> DiscordAPIClient" where
  "connect_gateway lib net random a =
     (case make_http_request net ''GET'' ''/gateway'' [] a of
        (Throws m, a) \<Rightarrow> (Throws m, a)
      | (Undefined m, a) \<Rightarrow> (Undefined m, a)
      | (Returns s, a) \<Rightarrow>
          (case (if s = [] then None else Option.bind (jparse lib s) (\<lambda>j. Option.bind (json_at ''url'' j) json_string)) of
             None \<Rightarrow> (Returns False, a)
           | Some url \<Rightarrow>
               let a = a\<lparr>gateway_url := url\<rparr> in
               (case gateway_address url of
                  None \<Rightarrow> (Returns False, a)
                | Some (host, port) \<Rightarrow>
                    (case ws_connect net random (WebSocketConnection_new host port) of
                       (ok, w) \<Rightarrow>
                         let a = (drop_connection a)\<lparr>ws_connection := Some w\<rparr> in
                         if \<not> ok then (Returns False, a)
                         else case start_heartbeat a of
                             Returns a \<Rightarrow> (Returns True, a)
                           | Throws m \<Rightarrow> (Throws m, a)
                           | Undefined m \<Rightarrow> (Undefined m, a)))))"

definition handle_gateway_event :: "json_library \<Rightarrow> string \<Rightarrow> DiscordAPIClient \<Rightarrow> DiscordAPIClient" where
  "handle_gateway_event lib data a =
     (case jparse lib data of
        None \<Rightarrow> a
      | Some e \<Rightarrow>
          (case json_value (json_int32 lib) ''op'' (-1) e of
             None \<Rightarrow> a
           | Some oc \<Rightarrow>
               if oc = 10 then
                 fst (try_assign (Option.bind (Option.bind (json_at ''d'' e) (json_at ''heartbeat_interval'')) (json_number lib))
                   (\<lambda>v a. a\<lparr>heartbeat_interval := v\<rparr>) (a, True))
               else if oc = 11 then a
               else if oc = 0 then
                 (case json_value json_string ''t'' [] e of
                    None \<Rightarrow> a
                  | Some ty \<Rightarrow>
                      fst (try_assign (json_value (json_int32 lib) ''s'' 0 e) (\<lambda>v a. a\<lparr>sequence_number := v\<rparr>)
                        (if ty = ''READY''
                         then try_assign (Option.bind (Option.bind (json_at ''d'' e) (json_at ''session_id'')) json_string)
                                (\<lambda>v a. a\<lparr>session_id := v\<rparr>) (a\<lparr>api_authenticated := True\<rparr>, True)
                         else (a, True))))
               else a))"

end
