(* ===== verification/Discord_Engine.thy ===== *)
theory Discord_Engine
  imports Discord_Api
begin

text \<open>
  The engine \<open>MedusaDiscordEngine\<close> of \<open>medusa_discord_native_engine.hpp\<close> and
  \<open>medusa_discord_native_websocket.cpp\<close>: its commands, handlers and event queue, the calls it passes on, and the
  utility functions after it. A handler is a number; \<open>react\<close> gives the events a handler emits when it is called, and
  the calls are logged. The thread of the engine takes one event at a step. Messages scheduled for later are
  the detached threads that wait to send them.
\<close>

section \<open>The engine\<close>

datatype EventType =
    MESSAGE_CREATE | MESSAGE_UPDATE | MESSAGE_DELETE | GUILD_CREATE | GUILD_MEMBER_ADD | INTERACTION_CREATE | READY
  | GITHUB_NOTIFICATION

datatype MessageType = TEXT | EMBED | FILE_ATTACHMENT | SLASH_COMMAND | BUTTON_INTERACTION | MODAL_SUBMIT

record DiscordMessage =
  msg_id :: string
  msg_channel_id :: string
  msg_guild_id :: string
  msg_author_id :: string
  msg_author_username :: string
  msg_content :: string
  msg_type :: MessageType
  msg_timestamp :: int
  msg_attachments :: "string list"
  msg_embeds :: "(string, string) umap"

record SlashCommand =
  sc_name :: string
  sc_description :: string
  sc_options :: "(string \<times> string) list"
  sc_handler :: nat

type_synonym command_options = "(string, string) umap"

record MedusaDiscordEngine =
  api_client :: DiscordAPIClient
  registered_commands :: "(string, SlashCommand) umap"
  event_handlers :: "(EventType, nat list) umap"
  event_queue :: "(EventType \<times> string) list"
  running :: bool
  medusa_api_key :: string
  github_integration_webhook :: string
  user_permissions :: "(string, string) umap"
  handler_calls :: "(nat \<times> string) list"
  command_calls :: "(nat \<times> DiscordMessage \<times> command_options) list"
  scheduled :: "(int \<times> string \<times> string) list"
  webhook_sockets :: "socket_event list"

definition MedusaDiscordEngine_new :: "DiscordCredentials \<Rightarrow> string \<Rightarrow> MedusaDiscordEngine" where
  "MedusaDiscordEngine_new creds key = \<lparr>api_client = DiscordAPIClient_new creds, registered_commands = [], event_handlers = [],
     event_queue = [], running = False, medusa_api_key = key, github_integration_webhook = [], user_permissions = [],
     handler_calls = [], command_calls = [], scheduled = [], webhook_sockets = []\<rparr>"

definition engine_initialize :: "MedusaDiscordEngine \<Rightarrow> bool" where
  "engine_initialize g = api_authenticate"

text \<open>A call passed on to the client.\<close>

definition on_client :: "(DiscordAPIClient \<Rightarrow> 'b outcome \<times> DiscordAPIClient) \<Rightarrow> MedusaDiscordEngine \<Rightarrow> unit outcome \<times> MedusaDiscordEngine" where
  "on_client f g =
     (case f (api_client g) of (r, a) \<Rightarrow> (outcome_bind r (\<lambda>x. Returns ()), g\<lparr>api_client := a\<rparr>))"

definition engine_start ::
  "json_library \<Rightarrow> 'a tls_network \<Rightarrow> byte list \<Rightarrow> MedusaDiscordEngine \<Rightarrow> unit outcome \<times> MedusaDiscordEngine" where
  "engine_start lib net random g =
     (if running g then (Returns (), g) else on_client (connect_gateway lib net random) (g\<lparr>running := True\<rparr>))"

definition engine_stop :: "MedusaDiscordEngine \<Rightarrow> MedusaDiscordEngine" where
  "engine_stop g = (if \<not> running g then g else g\<lparr>running := False, api_client := api_disconnect (api_client g)\<rparr>)"

definition register_command :: "SlashCommand \<Rightarrow> MedusaDiscordEngine \<Rightarrow> MedusaDiscordEngine" where
  "register_command c g = g\<lparr>registered_commands := um_assign (sc_name c) c (registered_commands g)\<rparr>"

definition unregister_command :: "string \<Rightarrow> MedusaDiscordEngine \<Rightarrow> MedusaDiscordEngine" where
  "unregister_command n g = g\<lparr>registered_commands := um_erase n (registered_commands g)\<rparr>"

definition handlers_of :: "EventType \<Rightarrow> MedusaDiscordEngine \<Rightarrow> nat list" where
  "handlers_of ty g = (case map_of (event_handlers g) ty of Some hs \<Rightarrow> hs | None \<Rightarrow> [])"

definition on_event :: "EventType \<Rightarrow> nat \<Rightarrow> MedusaDiscordEngine \<Rightarrow> MedusaDiscordEngine" where
  "on_event ty h g = g\<lparr>event_handlers := um_assign ty (handlers_of ty g @ [h]) (event_handlers g)\<rparr>"

definition emit_event :: "EventType \<Rightarrow> string \<Rightarrow> MedusaDiscordEngine \<Rightarrow> MedusaDiscordEngine" where
  "emit_event ty d g = g\<lparr>event_queue := event_queue g @ [(ty, d)]\<rparr>"

definition setup_github_integration :: "string \<Rightarrow> MedusaDiscordEngine \<Rightarrow> MedusaDiscordEngine" where
  "setup_github_integration url g = g\<lparr>github_integration_webhook := url\<rparr>"

definition process_github_webhook :: "string \<Rightarrow> MedusaDiscordEngine \<Rightarrow> MedusaDiscordEngine" where
  "process_github_webhook payload g = emit_event GITHUB_NOTIFICATION payload g"

definition create_discord_thread ::
  "json_library \<Rightarrow> 'a tls_network \<Rightarrow> string \<Rightarrow> string \<Rightarrow> MedusaDiscordEngine \<Rightarrow> unit outcome \<times> MedusaDiscordEngine" where
  "create_discord_thread lib net channel name g = on_client (create_thread lib net channel name) g"

definition manage_user_roles ::
  "json_library \<Rightarrow> 'a tls_network \<Rightarrow> string \<Rightarrow> string \<Rightarrow> string list \<Rightarrow> MedusaDiscordEngine \<Rightarrow> unit outcome \<times> MedusaDiscordEngine" where
  "manage_user_roles lib net guild user roles g =
     (if guild = [] \<or> user = [] then (Returns (), g)
      else on_client (post_json lib net ''PATCH'' (''/guilds/'' @ guild @ ''/members/'' @ user)
             (JObject [(''roles'', JArray (map JString roles))])) g)"

definition send_dm ::
  "json_library \<Rightarrow> 'a tls_network \<Rightarrow> string \<Rightarrow> string \<Rightarrow> MedusaDiscordEngine \<Rightarrow> unit outcome \<times> MedusaDiscordEngine" where
  "send_dm lib net user content g = on_client (api_send_message lib net user content) g"

definition create_scheduled_message ::
  "json_library \<Rightarrow> 'a tls_network \<Rightarrow> int \<Rightarrow> string \<Rightarrow> string \<Rightarrow> int \<Rightarrow> MedusaDiscordEngine \<Rightarrow> unit outcome \<times> MedusaDiscordEngine" where
  "create_scheduled_message lib net now channel content send_time g =
     (let delay = (send_time - now) div 1000000 in
      if delay \<le> 0 then on_client (api_send_message lib net channel content) g
      else (Returns (), g\<lparr>scheduled := scheduled g @ [(now + delay * 1000000, channel, content)]\<rparr>))"

text \<open>A waiting thread whose time has come.\<close>

definition run_scheduled ::
  "json_library \<Rightarrow> 'a tls_network \<Rightarrow> int \<Rightarrow> nat \<Rightarrow> MedusaDiscordEngine \<Rightarrow> unit outcome \<times> MedusaDiscordEngine" where
  "run_scheduled lib net now i g =
     (if i < length (scheduled g) \<and> fst (scheduled g ! i) \<le> now
      then case scheduled g ! i of
          (t, channel, content) \<Rightarrow>
            (case on_client (api_send_message lib net channel content) (g\<lparr>scheduled := remove_at i (scheduled g)\<rparr>) of
               (Returns x, g) \<Rightarrow> (Returns (), g)
             | (_, g) \<Rightarrow> (Undefined ''std::terminate'', g))
      else (Returns (), g))"

definition get_statistics :: "MedusaDiscordEngine \<Rightarrow> int \<times> int \<times> int \<times> int" where
  "get_statistics g = (0, 0, 0, if running g then 1 else 0)"

text \<open>The next event: every handler of its type is called, and what the handlers emit is queued.\<close>

fun call_handlers :: "(nat \<Rightarrow> string \<Rightarrow> (EventType \<times> string) list) \<Rightarrow> string \<Rightarrow> nat list \<Rightarrow> MedusaDiscordEngine \<Rightarrow> MedusaDiscordEngine" where
  "call_handlers react d [] g = g"
| "call_handlers react d (h # hs) g =
     call_handlers react d hs
       (fold (\<lambda>(ty, d). emit_event ty d) (react h d) (g\<lparr>handler_calls := handler_calls g @ [(h, d)]\<rparr>))"

definition process_event :: "(nat \<Rightarrow> string \<Rightarrow> (EventType \<times> string) list) \<Rightarrow> MedusaDiscordEngine \<Rightarrow> MedusaDiscordEngine" where
  "process_event react g =
     (case event_queue g of
        [] \<Rightarrow> g
      | (ty, d) # q \<Rightarrow> call_handlers react d (handlers_of ty g) (g\<lparr>event_queue := q\<rparr>))"

definition command_name :: "string \<Rightarrow> string option" where
  "command_name content =
     (case content of
        [] \<Rightarrow> None
      | c # s \<Rightarrow> if c \<noteq> CHR ''/'' then None
          else (case str_find content '' '' 0 of Some k \<Rightarrow> Some (substr content 1 (k - 1)) | None \<Rightarrow> Some s))"

definition unknown_command :: string where
  "unknown_command = [CHR 0xE2, CHR 0x9D, CHR 0x8C] @ '' Unknown command: ''"

definition handle_slash_command ::
  "json_library \<Rightarrow> 'a tls_network \<Rightarrow> DiscordMessage \<Rightarrow> command_options \<Rightarrow> MedusaDiscordEngine \<Rightarrow> unit outcome \<times> MedusaDiscordEngine" where
  "handle_slash_command lib net m opts g =
     (case command_name (msg_content m) of
        None \<Rightarrow> (Returns (), g)
      | Some n \<Rightarrow>
          (case map_of (registered_commands g) n of
             Some c \<Rightarrow> (Returns (), g\<lparr>command_calls := command_calls g @ [(sc_handler c, m, opts)]\<rparr>)
           | None \<Rightarrow> on_client (api_send_message lib net (msg_channel_id m) (unknown_command @ n)) g))"

definition webhook_request :: "string \<Rightarrow> string \<Rightarrow> string \<Rightarrow> HttpRequest" where
  "webhook_request url key payload =
     (let hs = om_assign ''User-Agent'' ''MedusaDiscordEngine/1.0'' (om_assign ''Content-Type'' ''application/json'' [])
      in HttpRequest_new\<lparr>rq_url := url, rq_method := ''POST'', rq_body := payload,
           rq_headers := (if key = [] then hs else om_assign ''Authorization'' (''Bearer '' @ key) hs)\<rparr>)"

definition integrate_with_github ::
  "json_library \<Rightarrow> 'a tls_network \<Rightarrow> int \<Rightarrow> string \<Rightarrow> string \<Rightarrow> MedusaDiscordEngine \<Rightarrow> unit outcome \<times> MedusaDiscordEngine" where
  "integrate_with_github lib net now repository action g =
     (if github_integration_webhook g = [] then (Returns (), g)
      else case jdump lib (JObject [(''action'', JString action), (''repository'', JString repository),
                (''timestamp'', JInt (now div 1000000000))]) of
          None \<Rightarrow> (Throws ''type_error'', g)
        | Some payload \<Rightarrow>
            (case perform_request (network.truncate net)
                    (webhook_request (github_integration_webhook g) (medusa_api_key g) payload) NativeHttpClient_new of
               (r, c, es) \<Rightarrow> (outcome_bind r (\<lambda>x. Returns ()), g\<lparr>webhook_sockets := webhook_sockets g @ es\<rparr>)))"

definition authenticate_medusa_user :: "string \<Rightarrow> string \<Rightarrow> MedusaDiscordEngine \<Rightarrow> MedusaDiscordEngine" where
  "authenticate_medusa_user i tok g = g\<lparr>user_permissions := um_assign i tok (user_permissions g)\<rparr>"

section \<open>Utilities\<close>

definition encode_json :: "json_library \<Rightarrow> (string, string) umap \<Rightarrow> string option" where
  "encode_json lib d = jdump lib (if d = [] then JNull else JObject (fold (\<lambda>(k, v). om_assign k (JString v)) d []))"

fun decode_members :: "(string \<times> json) list \<Rightarrow> (string, string) umap \<Rightarrow> (string, string) umap" where
  "decode_members [] r = r"
| "decode_members ((k, v) # m) r = (case v of JString s \<Rightarrow> decode_members m (um_assign k s r) | _ \<Rightarrow> r)"

definition decode_json :: "json_library \<Rightarrow> string \<Rightarrow> (string, string) umap" where
  "decode_json lib s = (case jparse lib s of Some (JObject m) \<Rightarrow> decode_members m [] | _ \<Rightarrow> [])"

definition snowflake :: "int \<Rightarrow> nat \<Rightarrow> nat \<Rightarrow> 64 word" where
  "snowflake epoch a b =
     push_bit 22 (word_of_int epoch - 1420070400000) OR push_bit 12 (of_nat a) OR of_nat (b mod 4096)"

definition generate_snowflake_id :: "int \<Rightarrow> nat \<Rightarrow> nat \<Rightarrow> string" where
  "generate_snowflake_id now a b = to_string_nat (unat (snowflake (now div 1000000) a b))"

definition validate_discord_token :: "string \<Rightarrow> bool" where
  "validate_discord_token tok =
     (if length tok < 59 \<or> 70 < length tok then False
      else if CHR ''.'' \<notin> set tok then False
      else list_all (\<lambda>c. isalnum c \<or> c = CHR ''.'' \<or> c = CHR ''-'' \<or> c = CHR ''_'') tok)"

abbreviation md_bslash :: char where "md_bslash \<equiv> CHR 0x5C"

function escape_pass :: "char \<Rightarrow> string \<Rightarrow> nat \<Rightarrow> string" where
  "escape_pass c s pos =
     (case str_find s [c] pos of
        None \<Rightarrow> s
      | Some p \<Rightarrow> escape_pass c (insert_at p md_bslash s) (p + 2))"
  by auto
termination
proof (relation "measure (\<lambda>(c, s, pos). length s + 1 - pos)", goal_cases)
  case (2 c s pos p)
  then have "pos \<le> p \<and> starts_with [c] (drop p s)" by (metis str_find_SomeD)
  then have "pos \<le> p" "p < length s" by (auto simp: starts_with_iff) (metis drop_all list.distinct(1) not_le)
  then show ?case by simp
qed simp

declare escape_pass.simps [simp del]

definition escape_discord_markdown :: "string \<Rightarrow> string" where
  "escape_discord_markdown t =
     escape_pass (CHR ''~'') (escape_pass (CHR 0x60) (escape_pass (CHR ''_'') (escape_pass (CHR ''*'') t 0) 0) 0) 0"

end
