(* ===== verification/Discord_Sessions.thy ===== *)
theory Discord_Sessions
  imports Discord_Engine
begin

text \<open>
  That the Discord engine gives every event once, in order, to the handlers of its type, that its escaping of
  markdown is read back, that identifiers carry their time; and what the client and the engine do against
  their comments.
\<close>

section \<open>Events\<close>

datatype 'a engine_call =
    Emit EventType string | Webhook string | On_event EventType nat | Take
  | Register SlashCommand | Unregister string | Slash "'a tls_network" DiscordMessage command_options
  | Start "'a tls_network" "byte list" | Stop | Dm "'a tls_network" string string
  | Roles "'a tls_network" string string "string list" | Thread "'a tls_network" string string
  | Schedule "'a tls_network" int string string int | Timer "'a tls_network" int nat
  | Github "'a tls_network" int string string

fun engine_step ::
  "json_library \<Rightarrow> (nat \<Rightarrow> string \<Rightarrow> (EventType \<times> string) list) \<Rightarrow> 'a engine_call \<Rightarrow> MedusaDiscordEngine \<Rightarrow> MedusaDiscordEngine" where
  "engine_step lib react (Emit ty d) g = emit_event ty d g"
| "engine_step lib react (Webhook p) g = process_github_webhook p g"
| "engine_step lib react (On_event ty h) g = on_event ty h g"
| "engine_step lib react Take g = process_event react g"
| "engine_step lib react (Register c) g = register_command c g"
| "engine_step lib react (Unregister n) g = unregister_command n g"
| "engine_step lib react (Slash net m opts) g = snd (handle_slash_command lib net m opts g)"
| "engine_step lib react (Start net random) g = snd (engine_start lib net random g)"
| "engine_step lib react Stop g = engine_stop g"
| "engine_step lib react (Dm net user content) g = snd (send_dm lib net user content g)"
| "engine_step lib react (Roles net guild user roles) g = snd (manage_user_roles lib net guild user roles g)"
| "engine_step lib react (Thread net channel name) g = snd (create_discord_thread lib net channel name g)"
| "engine_step lib react (Schedule net now channel content t) g = snd (create_scheduled_message lib net now channel content t g)"
| "engine_step lib react (Timer net now i) g = snd (run_scheduled lib net now i g)"
| "engine_step lib react (Github net now repository action) g = snd (integrate_with_github lib net now repository action g)"

text \<open>The events a call puts into the queue, and the event it takes, with the handlers it is given to.\<close>

fun emits :: "(nat \<Rightarrow> string \<Rightarrow> (EventType \<times> string) list) \<Rightarrow> 'a engine_call \<Rightarrow> MedusaDiscordEngine \<Rightarrow> (EventType \<times> string) list" where
  "emits react (Emit ty d) g = [(ty, d)]"
| "emits react (Webhook p) g = [(GITHUB_NOTIFICATION, p)]"
| "emits react Take g =
     (case event_queue g of [] \<Rightarrow> [] | (ty, d) # q \<Rightarrow> concat (map (\<lambda>h. react h d) (handlers_of ty g)))"
| "emits react c g = []"

fun takes :: "'a engine_call \<Rightarrow> MedusaDiscordEngine \<Rightarrow> ((EventType \<times> string) \<times> nat list) list" where
  "takes Take g = (case event_queue g of [] \<Rightarrow> [] | e # q \<Rightarrow> [(e, handlers_of (fst e) g)])"
| "takes c g = []"

fun emissions where
  "emissions lib react [] g = []"
| "emissions lib react (c # cs) g = emits react c g @ emissions lib react cs (engine_step lib react c g)"

fun taken where
  "taken lib react [] g = []"
| "taken lib react (c # cs) g = takes c g @ taken lib react cs (engine_step lib react c g)"

definition registered :: "'a engine_call list \<Rightarrow> EventType \<Rightarrow> nat list" where
  "registered cs ty = concat (map (\<lambda>c. case c of On_event ty' h \<Rightarrow> if ty' = ty then [h] else [] | _ \<Rightarrow> []) cs)"

definition calls_of :: "(EventType \<times> string) \<times> nat list \<Rightarrow> (nat \<times> string) list" where
  "calls_of = (\<lambda>((ty, d), hs). map (\<lambda>h. (h, d)) hs)"

lemma emit_all [simp]:
  "event_queue (fold (\<lambda>(ty, d). emit_event ty d) es g) = event_queue g @ es"
  "handler_calls (fold (\<lambda>(ty, d). emit_event ty d) es g) = handler_calls g"
  "event_handlers (fold (\<lambda>(ty, d). emit_event ty d) es g) = event_handlers g"
  by (induction es arbitrary: g) (auto simp: emit_event_def)

lemma call_handlers [simp]:
  "event_queue (call_handlers react d hs g) = event_queue g @ concat (map (\<lambda>h. react h d) hs)"
  "handler_calls (call_handlers react d hs g) = handler_calls g @ map (\<lambda>h. (h, d)) hs"
  "event_handlers (call_handlers react d hs g) = event_handlers g"
  by (induction hs arbitrary: g) simp_all

lemma on_client_fields [simp]:
  "event_queue (snd (on_client f g)) = event_queue g" "handler_calls (snd (on_client f g)) = handler_calls g"
  "event_handlers (snd (on_client f g)) = event_handlers g"
  by (simp_all add: on_client_def split: prod.split)

lemma run_scheduled_fields [simp]:
  "event_queue (snd (run_scheduled lib net now i g)) = event_queue g"
  "handler_calls (snd (run_scheduled lib net now i g)) = handler_calls g"
  "event_handlers (snd (run_scheduled lib net now i g)) = event_handlers g"
proof -
  have "event_queue (snd (run_scheduled lib net now i g)) = event_queue g
      \<and> handler_calls (snd (run_scheduled lib net now i g)) = handler_calls g
      \<and> event_handlers (snd (run_scheduled lib net now i g)) = event_handlers g"
  proof (cases "i < length (scheduled g) \<and> fst (scheduled g ! i) \<le> now")
    case True
    obtain t channel content where s: "scheduled g ! i = (t, channel, content)" using prod_cases3 by blast
    let ?r = "on_client (api_send_message lib net channel content) (g\<lparr>scheduled := remove_at i (scheduled g)\<rparr>)"
    have "snd (run_scheduled lib net now i g) = snd ?r"
      using True s by (cases ?r; cases "fst ?r") (auto simp: run_scheduled_def)
    then show ?thesis by simp
  qed (auto simp: run_scheduled_def)
  then show "event_queue (snd (run_scheduled lib net now i g)) = event_queue g"
    "handler_calls (snd (run_scheduled lib net now i g)) = handler_calls g"
    "event_handlers (snd (run_scheduled lib net now i g)) = event_handlers g" by auto
qed

lemma engine_step_queue: "event_queue g @ emits react c g = map fst (takes c g) @ event_queue (engine_step lib react c g)"
  by (cases c) (auto simp: emit_event_def process_github_webhook_def on_event_def process_event_def register_command_def
      unregister_command_def handle_slash_command_def engine_start_def engine_stop_def send_dm_def manage_user_roles_def
      create_discord_thread_def create_scheduled_message_def integrate_with_github_def Let_def
      split: list.split option.split prod.split)

lemma engine_step_calls: "handler_calls (engine_step lib react c g) = handler_calls g @ concat (map calls_of (takes c g))"
  by (cases c) (auto simp: emit_event_def process_github_webhook_def on_event_def process_event_def register_command_def
      unregister_command_def handle_slash_command_def engine_start_def engine_stop_def send_dm_def manage_user_roles_def
      create_discord_thread_def create_scheduled_message_def integrate_with_github_def Let_def calls_of_def
      split: list.split option.split prod.split)

lemma engine_step_handlers: "handlers_of ty (engine_step lib react c g) = handlers_of ty g @ registered [c] ty"
  by (cases c) (auto simp: emit_event_def process_github_webhook_def on_event_def process_event_def register_command_def
      unregister_command_def handle_slash_command_def engine_start_def engine_stop_def send_dm_def manage_user_roles_def
      create_discord_thread_def create_scheduled_message_def integrate_with_github_def Let_def registered_def
      handlers_of_def um_find_assign split: list.split option.split prod.split)

text \<open>C35. Over every session of the engine, its events are taken in the order in which they are emitted, by the callers,
  by webhooks and by the handlers themselves; each event taken is given once to every handler of its type, in
  the order in which they were registered, and to no other; and no call loses an event or a handler.\<close>
theorem events_in_order:
  "event_queue g @ emissions lib react cs g = map fst (taken lib react cs g) @ event_queue (fold (engine_step lib react) cs g)
    \<and> handler_calls (fold (engine_step lib react) cs g) = handler_calls g @ concat (map calls_of (taken lib react cs g))
    \<and> handlers_of ty (fold (engine_step lib react) cs g) = handlers_of ty g @ registered cs ty"
proof (induction cs arbitrary: g)
  case Nil
  then show ?case by (simp add: registered_def)
next
  case (Cons c cs)
  let ?g = "engine_step lib react c g"
  have "event_queue g @ emits react c g @ emissions lib react cs ?g = map fst (takes c g) @ event_queue ?g @ emissions lib react cs ?g"
    using engine_step_queue [of g react c lib] by (metis append_assoc)
  then show ?case using Cons.IH [of ?g]
    by (simp add: engine_step_calls engine_step_handlers) (simp add: registered_def)
qed

section \<open>Markdown\<close>

lemma escape_pass_at:
  "escape_pass c (a @ t) (length a) = a @ concat (map (\<lambda>x. if x = c then [md_bslash, c] else [x]) t)"
proof (induction t arbitrary: a rule: length_induct)
  case (1 t)
  let ?f = "\<lambda>x. if x = c then [md_bslash, c] else [x]"
  have same: "c \<notin> set u \<Longrightarrow> concat (map ?f u) = u" for u by (induction u) auto
  show ?case
  proof (cases "c \<in> set t")
    case False
    then show ?thesis by (subst escape_pass.simps) (simp add: str_find_at find_here_missing same)
  next
    case True
    then obtain u v where t: "t = u @ c # v" "c \<notin> set u" by (meson split_list_first)
    have "find_here [c] (u @ [c] @ v) = Some (length u)" by (rule find_here_hit) (simp_all add: t(2))
    then have "str_find (a @ t) [c] (length a) = Some (length a + length u)" by (simp add: str_find_at t(1))
    moreover have "insert_at (length a + length u) md_bslash (a @ t) = (a @ u @ [md_bslash, c]) @ v"
      by (simp add: insert_at_def t(1))
    moreover have "length a + length u + 2 = length (a @ u @ [md_bslash, c])" by simp
    ultimately have "escape_pass c (a @ t) (length a) = escape_pass c ((a @ u @ [md_bslash, c]) @ v) (length (a @ u @ [md_bslash, c]))"
      by (subst escape_pass.simps) simp
    also have "\<dots> = (a @ u @ [md_bslash, c]) @ concat (map ?f v)" by (rule 1 [rule_format]) (simp add: t(1))
    finally show ?thesis using same [OF t(2)] by (simp add: t(1))
  qed
qed

definition md_special :: "char \<Rightarrow> bool" where
  "md_special c \<longleftrightarrow> c \<in> {CHR ''*'', CHR ''_'', CHR 0x60, CHR ''~''}"

definition md_escape :: "char \<Rightarrow> string" where
  "md_escape c = (if md_special c then [md_bslash, c] else [c])"

lemma concat_map_concat: "concat (map g (concat (map f t))) = concat (map (\<lambda>x. concat (map g (f x))) t)"
  by (induction t) simp_all

lemma pass_map: "escape_pass c (concat (map f t)) 0 = concat (map (\<lambda>x. concat (map (\<lambda>y. if y = c then [md_bslash, c] else [y]) (f x))) t)"
  using escape_pass_at [of c "[]" "concat (map f t)"] by (simp add: concat_map_concat)

lemma markdown_escape_eq: "escape_discord_markdown t = concat (map md_escape t)"
proof -
  have "escape_pass (CHR ''*'') t 0 = concat (map (\<lambda>x. if x = CHR ''*'' then [md_bslash, CHR ''*''] else [x]) t)"
    using escape_pass_at [of "CHR ''*''" "[]" t] by simp
  then show ?thesis unfolding escape_discord_markdown_def
    by (simp only: pass_map) (rule arg_cong [where f = concat], rule map_cong, auto simp: md_escape_def md_special_def)
qed

text \<open>Reading: a backslash makes the special character or the backslash after it literal; one that is not escaped is
  formatting, for which the reader gives None.\<close>

fun md_read :: "string \<Rightarrow> string option" where
  "md_read [] = Some []"
| "md_read [c] = (if md_special c then None else Some [c])"
| "md_read (c # d # s) =
     (if c = md_bslash \<and> (md_special d \<or> d = md_bslash) then map_option ((#) d) (md_read s)
      else if md_special c then None else map_option ((#) c) (md_read (d # s)))"

lemma md_read_plain: "\<not> md_special c \<Longrightarrow> c \<noteq> md_bslash \<Longrightarrow> md_read (c # s) = map_option ((#) c) (md_read s)"
  by (cases s) simp_all

lemma md_read_escaped: "md_bslash \<notin> set t \<Longrightarrow> md_read (concat (map md_escape t)) = Some t"
  by (induction t) (auto simp: md_escape_def md_read_plain)

text \<open>Escaping a text for Discord, in four passes that insert into it, puts a backslash before each special character
  and changes nothing else; a reader of markdown gets back every text without backslashes, and finds no formatting.\<close>
theorem markdown_is_read_back:
  "escape_discord_markdown t = concat (map md_escape t)
    \<and> (md_bslash \<notin> set t \<longrightarrow> md_read (escape_discord_markdown t) = Some t)"
  by (simp add: markdown_escape_eq md_read_escaped)

theorem markdown_is_read_back_witness: "md_read (escape_discord_markdown ''a*b__~'') = Some ''a*b__~''"
proof -
  have "md_bslash \<notin> set ''a*b__~''" by simp
  then show ?thesis using markdown_is_read_back [of "''a*b__~''"] by blast
qed

text \<open>A backslash of the text is not escaped: it takes the one that is inserted, and the formatting is back.\<close>

lemma backslash_undoes_the_escape: "md_read (escape_discord_markdown [md_bslash, CHR ''*'']) = None"
  by (simp add: markdown_escape_eq md_escape_def md_special_def)

section \<open>Identifiers\<close>

lemma push_bit_or_nat: "b < 2 ^ n \<Longrightarrow> push_bit n a OR b = a * 2 ^ n + (b :: nat)"
proof -
  assume "b < 2 ^ n"
  then have b: "take_bit n b = b" by (simp add: take_bit_nat_eq_self)
  have lt: "bit b m \<Longrightarrow> m < n" for m using b by (metis bit_take_bit_iff)
  have "push_bit n a AND b = 0" by (auto simp: bit_eq_iff bit_and_iff bit_push_bit_iff dest: lt)
  then show ?thesis by (simp add: disjunctive_add_eq_or [symmetric] push_bit_eq_mult)
qed

text \<open>An identifier carries the time it was made at, in milliseconds since the epoch of Discord, above the two random
  numbers, whichever they are: identifiers of different milliseconds differ, and none is wrapped around.\<close>
theorem snowflake_carries_time:
  assumes "1420070400000 \<le> epoch" and "epoch < 1420070400000 + 2 ^ 42" and "a < 1024" and "b < 1024"
  shows "int (unat (drop_bit 22 (snowflake epoch a b))) + 1420070400000 = epoch
    \<and> unat (snowflake epoch a b) = nat (epoch - 1420070400000) * 2 ^ 22 + a * 2 ^ 12 + b"
proof -
  define t where "t = nat (epoch - 1420070400000)"
  have t: "t < 2 ^ 42" using assms(1,2) by (simp add: t_def nat_less_iff)
  have "word_of_int epoch - 1420070400000 = (of_nat t :: 64 word)"
    using assms(1) by (simp add: t_def of_nat_nat)
  then have s: "snowflake epoch a b = push_bit 22 (of_nat t) OR push_bit 12 (of_nat a) OR of_nat b"
    using assms(4) by (simp add: snowflake_def)
  have "push_bit 12 a OR b = a * 2 ^ 12 + b" using assms(4) by (intro push_bit_or_nat) simp
  moreover have "push_bit 22 t OR (a * 2 ^ 12 + b) = t * 2 ^ 22 + (a * 2 ^ 12 + b)" using assms(3,4) by (intro push_bit_or_nat) simp
  ultimately have "push_bit 22 t OR (push_bit 12 a OR b) = t * 2 ^ 22 + (a * 2 ^ 12 + b)" by simp
  then have w: "snowflake epoch a b = of_nat (t * 2 ^ 22 + (a * 2 ^ 12 + b))"
    unfolding s by (simp only: of_nat_or_eq of_nat_push_bit or.assoc flip: \<open>push_bit 22 t OR (push_bit 12 a OR b) = t * 2 ^ 22 + (a * 2 ^ 12 + b)\<close>)
  have lt: "t * 2 ^ 22 + (a * 2 ^ 12 + b) < 2 ^ 64" using t assms(3,4) by simp
  then have u: "unat (snowflake epoch a b) = t * 2 ^ 22 + (a * 2 ^ 12 + b)"
    unfolding w by (simp only: unat_of_nat) (simp add: take_bit_nat_eq_self)
  have "unat (drop_bit 22 (snowflake epoch a b)) = t"
    using assms(3,4) by (simp only: unat_drop_bit_eq u) (simp add: drop_bit_eq_div)
  then show ?thesis using assms(1) u by (simp add: t_def)
qed

theorem snowflake_carries_time_witness:
  "int (unat (drop_bit 22 (snowflake 1763510400123 1023 7))) + 1420070400000 = 1763510400123"
  using snowflake_carries_time [of 1763510400123 1023 7] by simp

section \<open>What the client and the engine do not mean to do\<close>

text \<open>A call succeeds when the body of the response is not empty, whatever its status: the answer to a deletion, which
  Discord sends without a body, is a failure, and an error it explains is a success.\<close>

lemma deletion_is_reported_as_failure:
  "fst (make_http_request net ''DELETE'' (''/channels/'' @ channel @ ''/messages/'' @ msg) [] a) = Returns [] \<Longrightarrow>
    fst (api_delete_message net channel msg a) = Returns False"
  by (simp add: api_delete_message_def answered_def split_beta)

lemma status_is_ignored:
  "perform_request (network.truncate net) (api_request (credentials a) meth endpoint payload) NativeHttpClient_new = (Returns r, c, es)
    \<Longrightarrow> rs_body r \<noteq> [] \<Longrightarrow> fst (answered (make_http_request net meth endpoint payload a)) = Returns True"
  by (simp add: answered_def make_http_request_def)

text \<open>The interval of the heartbeat comes from an event of the gateway that nothing reads: it stays zero, and no heartbeat
  is sent.\<close>

lemma no_heartbeat:
  "heartbeat_interval a = 0 \<Longrightarrow> \<not> heartbeat_thread a \<Longrightarrow> connect_gateway lib net random a = (r, a') \<Longrightarrow>
    heartbeat_interval a' = 0 \<and> \<not> heartbeat_thread a'"
  by (auto simp: connect_gateway_def make_http_request_def drop_connection_def start_heartbeat_def Let_def
      split: prod.splits outcome.splits option.splits if_splits)

end
