(* ===== verification/Enigma_Core.thy ===== *)
theory Enigma_Core
  imports Web_Socket
begin

text \<open>
  The password hashes of \<open>Lamia-Libs/include/MedusaGroundUpSecurity.hpp\<close>: the class
  \<open>MedusaEnigmaSecurityCore\<close> with its transformations, its base64 and its verification, and the repeated requests of
  \<open>MedusaPlusPlusCallbackManager\<close>. SHA-256, HMAC and bcrypt are the record \<open>digests\<close>; without bcrypt the
  code's own replacement is used. Of the metadata, JSON of another library, the code uses the user and the text of
  the whole. Products with the constant 0.315 are those of double precision: a number of 53 binary digits, to the
  nearest, ties to even. Messages and measured times are left out.
\<close>

section \<open>The constant\<close>

text \<open>The double next to 0.315 is 5674535530486825 / 2 ^ 54; rounding to 53 digits drops those in excess.\<close>

definition constant_numerator :: nat where
  "constant_numerator = 5674535530486825"

function excess_digits :: "nat \<Rightarrow> nat" where
  "excess_digits n = (if n < 2 ^ 53 then 0 else Suc (excess_digits (n div 2)))"
  by auto
termination by (relation "measure id") auto

declare excess_digits.simps [simp del]

definition round_double :: "nat \<Rightarrow> nat" where
  "round_double n =
     (let k = excess_digits n; q = n div 2 ^ k; r = n mod 2 ^ k in
      if k = 0 then n
      else (if 2 ^ k < 2 * r \<or> (2 ^ k = 2 * r \<and> odd q) then q + 1 else q) * 2 ^ k)"

text \<open>\<open>static_cast<int>(b * 0.315 * scale)\<close> for a power of two, by which a double is multiplied exactly.\<close>

definition times_constant :: "nat \<Rightarrow> nat \<Rightarrow> nat" where
  "times_constant b scale = round_double (b * constant_numerator) * scale div 2 ^ 54"

definition snake_scales :: "nat list" where
  "snake_scales = [1, 2, 4, 8, 16, 32, 64, 128]"

section \<open>Base64\<close>

text \<open>The while loop puts out six bits as long as there are six.\<close>

function put_sextets :: "32 word \<Rightarrow> int \<Rightarrow> string \<Rightarrow> int \<times> string" where
  "put_sextets val valb res =
     (if 0 \<le> valb then put_sextets val (valb - 6) (res @ [base64_char (ucast (signed_drop_bit (nat valb) val AND 0x3f))])
      else (valb, res))"
  by auto
termination by (relation "measure (\<lambda>(val, valb, res). nat (valb + 6))") auto

declare put_sextets.simps [simp del]

fun encode_loop :: "byte list \<Rightarrow> 32 word \<Rightarrow> int \<Rightarrow> string \<Rightarrow> 32 word \<times> int \<times> string" where
  "encode_loop [] val valb res = (val, valb, res)"
| "encode_loop (c # cs) val valb res =
     (let val = push_bit 8 val + ucast c in
      case put_sextets val (valb + 8) res of (valb, res) \<Rightarrow> encode_loop cs val valb res)"

definition base64Encode :: "byte list \<Rightarrow> string" where
  "base64Encode xs =
     (case encode_loop xs 0 (-6) [] of
        (val, valb, res) \<Rightarrow>
          let res = (if -6 < valb
                     then res @ [base64_char (ucast (signed_drop_bit (nat (valb + 8)) (push_bit 8 val) AND 0x3f))] else res)
          in res @ replicate ((4 - length res mod 4) mod 4) CHR ''='')"

fun decode_loop :: "string \<Rightarrow> 32 word \<Rightarrow> int \<Rightarrow> byte list \<Rightarrow> byte list" where
  "decode_loop [] val valb res = res"
| "decode_loop (c # cs) val valb res =
     (if c = CHR ''='' then res
      else case base64_value c of
          None \<Rightarrow> decode_loop cs val valb res
        | Some p \<Rightarrow>
            let val = push_bit 6 val + ucast p; valb = valb + 6 in
            if 0 \<le> valb then decode_loop cs val (valb - 8) (res @ [ucast (signed_drop_bit (nat valb) val AND 0xff)])
            else decode_loop cs val valb res)"

definition base64Decode :: "string \<Rightarrow> byte list" where
  "base64Decode s = decode_loop s 0 (-8) []"

definition to_bytes :: "string \<Rightarrow> byte list" where
  "to_bytes s = map (\<lambda>c. of_nat (code c)) s"

definition of_bytes :: "byte list \<Rightarrow> string" where
  "of_bytes bs = map (\<lambda>b. char_of (unat b)) bs"

section \<open>Transformations\<close>

record digests =
  sha256 :: "string \<Rightarrow> byte list"
  hmac_sha512 :: "(string \<Rightarrow> string \<Rightarrow> byte list) option"
  bcrypt_gensalt :: "(int \<Rightarrow> string option) option"
  bcrypt_hashpw :: "string \<Rightarrow> string \<Rightarrow> string option"
  bcrypt_check :: "string \<Rightarrow> string \<Rightarrow> bool"

record enigma_metadata =
  md_user :: "string option"
  md_text :: string

definition hex_byte :: "byte \<Rightarrow> string" where
  "hex_byte b = [hex_digit (unat b div 16), hex_digit (unat b mod 16)]"

definition sha256_string :: "digests \<Rightarrow> string \<Rightarrow> string" where
  "sha256_string dg s = concat (map hex_byte (sha256 dg s))"

definition hmac_string :: "digests \<Rightarrow> string \<Rightarrow> string \<Rightarrow> string" where
  "hmac_string dg m k =
     (case hmac_sha512 dg of Some f \<Rightarrow> concat (map hex_byte (f m k)) | None \<Rightarrow> sha256_string dg (k @ m @ k))"

definition generateEnigmaSalt :: "(nat \<Rightarrow> nat) \<Rightarrow> nat \<Rightarrow> string" where
  "generateEnigmaSalt rng drawn =
     base64Encode (map (\<lambda>i. of_nat (rng (drawn + i)) XOR of_nat (times_constant 255 (snake_scales ! (i mod 8)) mod 256)) [0..<32])"

definition snake_scale :: "nat \<Rightarrow> byte \<Rightarrow> byte" where
  "snake_scale scale b = b XOR of_nat (times_constant (unat b) scale mod 256)"

fun xor_prefix :: "byte list \<Rightarrow> byte list \<Rightarrow> byte list" where
  "xor_prefix (x # xs) (y # ys) = (x XOR y) # xor_prefix xs ys"
| "xor_prefix xs ys = xs"

definition applySnakeScaleTransforms :: "digests \<Rightarrow> string \<Rightarrow> enigma_metadata \<Rightarrow> string" where
  "applySnakeScaleTransforms dg input md =
     (let t = fold (\<lambda>scale t. map (snake_scale scale) t) snake_scales (to_bytes input);
          t = (case md_user md of Some u \<Rightarrow> xor_prefix t (sha256 dg u) | None \<Rightarrow> t)
      in base64Encode t)"

text \<open>A salt that decodes to nothing is a remainder by zero.\<close>

definition applyUniversalConstant :: "string \<Rightarrow> string \<Rightarrow> string outcome" where
  "applyUniversalConstant input salt =
     (let xs = base64Decode input; ss = base64Decode salt in
      if xs \<noteq> [] \<and> ss = [] then Undefined ''i % 0''
      else Returns (base64Encode (map (\<lambda>i. xs ! i XOR of_nat (times_constant 1000 1 mod 256) XOR ss ! (i mod length ss)) [0..<length xs])))"

definition sha_rounds :: "digests \<Rightarrow> int \<Rightarrow> string \<Rightarrow> string" where
  "sha_rounds dg rounds s = fold (\<lambda>i r. sha256_string dg (r @ to_string_nat i)) [0..<nat rounds] s"

definition performBcryptHashing :: "digests \<Rightarrow> int \<Rightarrow> string \<Rightarrow> string outcome" where
  "performBcryptHashing dg rounds s =
     (case bcrypt_gensalt dg of
        Some gensalt \<Rightarrow>
          (case gensalt rounds of
             None \<Rightarrow> Throws ''Failed to generate bcrypt salt''
           | Some salt \<Rightarrow>
               (case bcrypt_hashpw dg s salt of Some h \<Rightarrow> Returns h | None \<Rightarrow> Throws ''Failed to hash with bcrypt''))
      | None \<Rightarrow> Returns (sha_rounds dg rounds s))"

definition constant_string :: string where
  "constant_string = ''0.315000''"

definition scales_string :: string where
  "scales_string = ''1,2,4,8,16,32,64,128''"

definition postProcessEnigmaHash :: "digests \<Rightarrow> string \<Rightarrow> string \<Rightarrow> enigma_metadata \<Rightarrow> string" where
  "postProcessEnigmaHash dg h salt md =
     base64Encode (to_bytes (h @ ''$ENIGMA$'' @ hmac_string dg (h @ constant_string @ md_text md) salt
       @ ''$SCALES$'' @ scales_string))"

section \<open>Hash and verification\<close>

record EnigmaConfig =
  salt_rounds :: int
  enigma_rounds :: int

record EnigmaHashResult =
  eh_hash :: string
  eh_salt :: string
  eh_checksum :: string
  eh_user :: "string option"
  eh_rounds :: int
  eh_enigma_rounds :: int

record SecurityMetrics =
  hashes_generated :: nat
  verifications_performed :: nat
  failed_verifications :: nat
  yorkshire_champions :: nat

record EnigmaCore =
  en_config :: EnigmaConfig
  en_drawn :: nat
  en_metrics :: SecurityMetrics

definition EnigmaConfig_new :: EnigmaConfig where
  "EnigmaConfig_new = \<lparr>salt_rounds = 12, enigma_rounds = 8\<rparr>"

definition EnigmaCore_new :: "EnigmaConfig \<Rightarrow> EnigmaCore" where
  "EnigmaCore_new cf = \<lparr>en_config = cf, en_drawn = 0, en_metrics = \<lparr>hashes_generated = 0, verifications_performed = 0,
     failed_verifications = 0, yorkshire_champions = 0\<rparr>\<rparr>"

text \<open>An exception is rethrown with a prefix of its own.\<close>

definition rethrown :: "string \<Rightarrow> 'a outcome \<Rightarrow> 'a outcome" where
  "rethrown pre r = (case r of Throws m \<Rightarrow> Throws (pre @ m) | _ \<Rightarrow> r)"

definition generateEnigmaHash ::
  "digests \<Rightarrow> (nat \<Rightarrow> nat) \<Rightarrow> string \<Rightarrow> enigma_metadata \<Rightarrow> EnigmaCore \<Rightarrow> EnigmaHashResult outcome \<times> EnigmaCore" where
  "generateEnigmaHash dg rng plain md c =
     (let salt = generateEnigmaSalt rng (en_drawn c); c = c\<lparr>en_drawn := en_drawn c + 32\<rparr>;
          r = outcome_bind (applyUniversalConstant (applySnakeScaleTransforms dg plain md) salt)
                (performBcryptHashing dg (salt_rounds (en_config c)))
      in case r of
          Returns h \<Rightarrow>
            let hash = postProcessEnigmaHash dg h salt md; m = en_metrics c in
            (Returns \<lparr>eh_hash = hash, eh_salt = salt, eh_checksum = sha256_string dg (hash @ constant_string), eh_user = md_user md,
               eh_rounds = salt_rounds (en_config c), eh_enigma_rounds = enigma_rounds (en_config c)\<rparr>,
             c\<lparr>en_metrics := m\<lparr>hashes_generated := hashes_generated m + 1, yorkshire_champions := yorkshire_champions m + 1\<rparr>\<rparr>)
        | Throws e \<Rightarrow> (Throws (''Medusa Security Error: '' @ e), c)
        | Undefined e \<Rightarrow> (Undefined e, c))"

text \<open>
  The texts between the matches of a character: the one after the last match is left out when it is empty, and a
  text without a match is its own only part.
\<close>

fun token_fields :: "char \<Rightarrow> string \<Rightarrow> string \<Rightarrow> string list" where
  "token_fields d sep [] = (if sep = [] then [] else [sep])"
| "token_fields d sep (c # s) = (if c = d then sep # token_fields d [] s else token_fields d (sep @ [c]) s)"

definition regex_split :: "char \<Rightarrow> string \<Rightarrow> string list" where
  "regex_split d s = (if s = [] then [[]] else token_fields d [] s)"

fun stoi_all :: "string list \<Rightarrow> int list outcome" where
  "stoi_all [] = Returns []"
| "stoi_all (s # ss) = outcome_bind (stoi s) (\<lambda>n. outcome_bind (stoi_all ss) (\<lambda>ns. Returns (n # ns)))"

record HashComponents =
  bcrypt_part :: string
  enigma_signature :: string
  hc_scales :: "int list"
  hc_salt :: string

definition extractHashComponents :: "EnigmaHashResult \<Rightarrow> HashComponents outcome" where
  "extractHashComponents h =
     rethrown ''Hash extraction failed: ''
       (let parts = regex_split CHR ''$'' (of_bytes (base64Decode (eh_hash h))) in
        if length parts < 5 \<or> parts ! 2 \<noteq> ''ENIGMA'' \<or> parts ! 4 \<noteq> ''SCALES''
        then Throws ''Invalid Medusa Enigma hash format''
        else if length parts = 5 then Undefined ''parts[5]''
        else outcome_bind (stoi_all (regex_split CHR '','' (parts ! 5))) (\<lambda>ns.
          Returns \<lparr>bcrypt_part = parts ! 0 @ ''$'' @ parts ! 1, enigma_signature = parts ! 3, hc_scales = ns, hc_salt = eh_salt h\<rparr>))"

definition verifyEnigmaComponents :: "digests \<Rightarrow> HashComponents \<Rightarrow> enigma_metadata \<Rightarrow> bool" where
  "verifyEnigmaComponents dg hc md \<longleftrightarrow>
     hc_scales hc = map int snake_scales
     \<and> enigma_signature hc = hmac_string dg (bcrypt_part hc @ constant_string @ md_text md) (hc_salt hc)"

definition verifyBcryptHash :: "digests \<Rightarrow> int \<Rightarrow> string \<Rightarrow> string \<Rightarrow> bool" where
  "verifyBcryptHash dg rounds s stored =
     (case bcrypt_gensalt dg of Some gensalt \<Rightarrow> bcrypt_check dg s stored | None \<Rightarrow> sha_rounds dg rounds s = stored)"

definition verifyEnigmaHash ::
  "digests \<Rightarrow> string \<Rightarrow> EnigmaHashResult \<Rightarrow> enigma_metadata \<Rightarrow> EnigmaCore \<Rightarrow> bool outcome \<times> EnigmaCore" where
  "verifyEnigmaHash dg plain stored md c =
     (let r = outcome_bind (extractHashComponents stored) (\<lambda>hc.
                outcome_bind (applyUniversalConstant (applySnakeScaleTransforms dg plain md) (eh_salt stored)) (\<lambda>u.
                  Returns (verifyBcryptHash dg (salt_rounds (en_config c)) u (bcrypt_part hc) \<and> verifyEnigmaComponents dg hc md)))
      in case r of
          Returns ok \<Rightarrow>
            let m = en_metrics c in
            (r, c\<lparr>en_metrics := m\<lparr>verifications_performed := verifications_performed m + 1,
                   failed_verifications := failed_verifications m + (if ok then 0 else 1)\<rparr>\<rparr>)
        | Throws e \<Rightarrow> (Throws (''Medusa Verification Error: '' @ e), c)
        | Undefined e \<Rightarrow> (Undefined e, c))"

section \<open>Callbacks\<close>

text \<open>
  One attempt is its status and body, or the message of an exception; the second result is the waiting times. A time
  that is no \<open>int\<close> has an undefined conversion.
\<close>

fun send_attempts :: "(nat \<Rightarrow> string + (int \<times> string)) \<Rightarrow> int \<Rightarrow> nat \<Rightarrow> nat \<Rightarrow> string \<Rightarrow> int list \<Rightarrow> string outcome \<times> int list" where
  "send_attempts net retries attempt 0 last_error waits =
     (Throws (''All '' @ to_string_int retries @ '' callback attempts failed. Last error: '' @ last_error), waits)"
| "send_attempts net retries attempt (Suc left) last_error waits =
     (let failed = (\<lambda>e.
            if left = 0 then send_attempts net retries (attempt + 1) left e waits
            else if (2::int) ^ 31 \<le> 2 ^ attempt * 1000 then (Undefined ''delay_ms'', waits)
            else send_attempts net retries (attempt + 1) left e (waits @ [2 ^ attempt * 1000]))
      in case net attempt of
          Inl e \<Rightarrow> failed e
        | Inr (rc, body) \<Rightarrow> if rc = 200 then (Returns body, waits) else failed (''HTTP '' @ to_string_int rc))"

definition sendCallbackWithRetry :: "(nat \<Rightarrow> string + (int \<times> string)) \<Rightarrow> int \<Rightarrow> string outcome \<times> int list" where
  "sendCallbackWithRetry net retries = send_attempts net retries 1 (nat retries) ''No attempts made'' []"

end
