(* ===== verification/Medusa_Encryption.thy ===== *)
theory Medusa_Encryption
  imports Enigma_Core
begin

text \<open>
  The encryption of \<open>Lamia-Libs/include/MedusaEncryption.hpp\<close>: the text form of an encryption result, the class
  \<open>MedusaEncryption\<close>, its sessions and the utility functions. The C library behind it, of which the repository holds
  only the header \<open>libmedusa_encryption.h\<close>, is the record \<open>cipher_library\<close>; what it draws at random depends on the
  number of the call. The two base64 functions of this file are those of \<open>Enigma_Core\<close>, statement by statement. A
  text is given to the library as a C string, up to its first zero; what the library writes beyond a buffer is undefined.
  Left out are the comments in results, the constant of the library, the contents of a report and the wrapper of secure
  memory beyond its allocation. \<open>Encryption_Sessions\<close> has the theorems.
\<close>

section \<open>The library\<close>

record cipher_library =
  lib_init :: bool
  lib_version :: string
  derive_pbkdf2 :: "string \<Rightarrow> string option \<Rightarrow> nat \<Rightarrow> byte list option"
  encrypt_gcm :: "nat \<Rightarrow> byte list \<Rightarrow> byte list \<Rightarrow> string option \<Rightarrow> (byte list \<times> byte list \<times> byte list) option"
  decrypt_gcm :: "byte list \<Rightarrow> byte list \<Rightarrow> byte list \<Rightarrow> byte list \<Rightarrow> string option \<Rightarrow> byte list option"
  rsa_keypair :: "nat \<Rightarrow> (string \<times> string) option"
  ecdh_keypair :: "nat \<Rightarrow> (string \<times> string) option"
  secure_random :: "nat \<Rightarrow> nat \<Rightarrow> byte list option"
  lib_audit :: "string option"
  allocates :: "nat \<Rightarrow> bool"

definition c_text :: "string \<Rightarrow> string" where
  "c_text s = takeWhile (\<lambda>c. c \<noteq> CHR 0x00) s"

definition context_arg :: "string \<Rightarrow> string option" where
  "context_arg s = (if s = [] then None else Some (c_text s))"

section \<open>Results\<close>

record EncryptionResult =
  er_success :: bool
  er_data :: "byte list"
  er_iv :: "byte list"
  er_tag :: "byte list"
  er_error :: string

record DecryptionResult =
  dr_success :: bool
  dr_authentic :: bool
  dr_data :: "byte list"
  dr_error :: string

record KeyPairResult =
  kp_success :: bool
  kp_public :: string
  kp_private :: string
  kp_error :: string

definition EncryptionResult_new :: EncryptionResult where
  "EncryptionResult_new = \<lparr>er_success = False, er_data = [], er_iv = [], er_tag = [], er_error = []\<rparr>"

abbreviation dquote :: char where
  "dquote \<equiv> CHR 0x22"

definition field_mark :: "char \<Rightarrow> string" where
  "field_mark c = [dquote, c, dquote, CHR '':'', dquote]"

definition result_json :: "EncryptionResult \<Rightarrow> string" where
  "result_json r =
     ''{'' @ field_mark CHR ''e'' @ base64Encode (er_data r) @ dquote # '',''
     @ field_mark CHR ''i'' @ base64Encode (er_iv r) @ dquote # '',''
     @ field_mark CHR ''t'' @ base64Encode (er_tag r) @ dquote # '',''
     @ field_mark CHR ''v'' @ ''1.0'' @ dquote # '',''
     @ dquote # ''c'' @ dquote # '':0.315}''"

definition toBase64String :: "EncryptionResult \<Rightarrow> string" where
  "toBase64String r = (if er_success r then base64Encode (to_bytes (result_json r)) else [])"

text \<open>When a mark is not found, its position plus five wraps to four.\<close>

definition json_field :: "char \<Rightarrow> string \<Rightarrow> byte list" where
  "json_field c s =
     (let b = (case str_find s (field_mark c) 0 of None \<Rightarrow> 4 | Some k \<Rightarrow> k + 5) in
      case str_find s [dquote] b of
        None \<Rightarrow> []
      | Some e \<Rightarrow> base64Decode (substr s b (e - b)))"

definition fromBase64String :: "string \<Rightarrow> EncryptionResult option" where
  "fromBase64String s =
     (let bs = base64Decode s; j = of_bytes bs in
      if bs = [] then None
      else Some \<lparr>er_success = True, er_data = json_field CHR ''e'' j, er_iv = json_field CHR ''i'' j, er_tag = json_field CHR ''t'' j,
        er_error = []\<rparr>)"

definition result_text :: "DecryptionResult \<Rightarrow> string" where
  "result_text r = of_bytes (dr_data r)"

section \<open>The class\<close>

record MedusaEncryption =
  me_initialized :: bool
  me_calls :: nat

definition ensureInitialized :: "cipher_library \<Rightarrow> MedusaEncryption \<Rightarrow> unit outcome \<times> MedusaEncryption" where
  "ensureInitialized L m =
     (if me_initialized m then (Returns (), m)
      else if \<not> lib_init L then (Throws ''Failed to initialize Medusa encryption library'', m)
      else (Returns (), m\<lparr>me_initialized := True\<rparr>))"

definition MedusaEncryption_new :: "cipher_library \<Rightarrow> MedusaEncryption outcome" where
  "MedusaEncryption_new L =
     (case ensureInitialized L \<lparr>me_initialized = False, me_calls = 0\<rparr> of (r, m) \<Rightarrow> outcome_bind r (\<lambda>_. Returns m))"

text \<open>An operation begins with the initialisation.\<close>

definition initially ::
  "cipher_library \<Rightarrow> (MedusaEncryption \<Rightarrow> 'b outcome \<times> MedusaEncryption) \<Rightarrow> MedusaEncryption \<Rightarrow> 'b outcome \<times> MedusaEncryption" where
  "initially L f m =
     (case ensureInitialized L m of
        (Returns _, m) \<Rightarrow> f m
      | (Throws e, m) \<Rightarrow> (Throws e, m)
      | (Undefined e, m) \<Rightarrow> (Undefined e, m))"

definition getVersion :: "cipher_library \<Rightarrow> MedusaEncryption \<Rightarrow> string outcome \<times> MedusaEncryption" where
  "getVersion L = initially L (\<lambda>m. (Returns (lib_version L), m))"

definition deriveKeyFromPassword ::
  "cipher_library \<Rightarrow> string \<Rightarrow> string \<Rightarrow> nat \<Rightarrow> MedusaEncryption \<Rightarrow> byte list outcome \<times> MedusaEncryption" where
  "deriveKeyFromPassword L password ctx key_length =
     initially L (\<lambda>m.
       (case derive_pbkdf2 L (c_text password) (context_arg ctx) key_length of
          None \<Rightarrow> Throws ''PBKDF2 key derivation failed''
        | Some k \<Rightarrow> if key_length < length k then Undefined ''derived_key'' else Returns k, m))"

definition encryptAESGCM ::
  "cipher_library \<Rightarrow> byte list \<Rightarrow> byte list \<Rightarrow> string \<Rightarrow> MedusaEncryption \<Rightarrow> EncryptionResult outcome \<times> MedusaEncryption" where
  "encryptAESGCM L plaintext key ctx =
     initially L (\<lambda>m.
       if length key \<noteq> 32 then (Throws ''Invalid AES key size. Must be 32 bytes.'', m)
       else
         (case encrypt_gcm L (me_calls m) plaintext key (context_arg ctx) of
            None \<Rightarrow> Returns (EncryptionResult_new\<lparr>er_error := ''AES-GCM encryption failed''\<rparr>)
          | Some (c, iv, tag) \<Rightarrow>
              if length plaintext + 1024 < length c \<or> 12 < length iv \<or> 16 < length tag then Undefined ''output buffer''
              else Returns \<lparr>er_success = True, er_data = c, er_iv = iv, er_tag = tag, er_error = []\<rparr>,
          m\<lparr>me_calls := me_calls m + 1\<rparr>))"

definition decryptAESGCM ::
  "cipher_library \<Rightarrow> EncryptionResult \<Rightarrow> byte list \<Rightarrow> string \<Rightarrow> MedusaEncryption \<Rightarrow> DecryptionResult outcome \<times> MedusaEncryption" where
  "decryptAESGCM L r key ctx =
     initially L (\<lambda>m.
       (if \<not> er_success r then Throws ''Cannot decrypt invalid encryption result''
        else if length key \<noteq> 32 then Throws ''Invalid AES key size. Must be 32 bytes.''
        else case decrypt_gcm L (er_data r) key (er_iv r) (er_tag r) (context_arg ctx) of
            None \<Rightarrow> Returns \<lparr>dr_success = False, dr_authentic = False, dr_data = [], dr_error = ''AES-GCM decryption or authentication failed''\<rparr>
          | Some x \<Rightarrow>
              if length (er_data r) + 1024 < length x then Undefined ''output buffer''
              else Returns \<lparr>dr_success = True, dr_authentic = True, dr_data = x, dr_error = []\<rparr>,
        m))"

definition then_do ::
  "'b outcome \<times> MedusaEncryption \<Rightarrow> ('b \<Rightarrow> MedusaEncryption \<Rightarrow> 'd outcome \<times> MedusaEncryption) \<Rightarrow> 'd outcome \<times> MedusaEncryption" where
  "then_do x f =
     (case x of (Returns y, m) \<Rightarrow> f y m | (Throws e, m) \<Rightarrow> (Throws e, m) | (Undefined e, m) \<Rightarrow> (Undefined e, m))"

definition encryptString ::
  "cipher_library \<Rightarrow> string \<Rightarrow> string \<Rightarrow> string \<Rightarrow> MedusaEncryption \<Rightarrow> string outcome \<times> MedusaEncryption" where
  "encryptString L plaintext password ctx m =
     then_do (deriveKeyFromPassword L password ctx 32 m) (\<lambda>key m.
     then_do (encryptAESGCM L (to_bytes plaintext) key ctx m) (\<lambda>r m.
       (if er_success r then Returns (toBase64String r) else Throws (er_error r), m)))"

definition decryptString ::
  "cipher_library \<Rightarrow> string \<Rightarrow> string \<Rightarrow> string \<Rightarrow> MedusaEncryption \<Rightarrow> string outcome \<times> MedusaEncryption" where
  "decryptString L s password ctx m =
     (case fromBase64String s of
        None \<Rightarrow> (Throws ''Invalid encrypted data format'', m)
      | Some r \<Rightarrow>
          then_do (deriveKeyFromPassword L password ctx 32 m) (\<lambda>key m.
          then_do (decryptAESGCM L r key ctx m) (\<lambda>d m.
            (if \<not> dr_success d \<or> \<not> dr_authentic d then Throws (dr_error d) else Returns (result_text d), m))))"

definition key_pair :: "nat \<Rightarrow> string \<Rightarrow> (string \<times> string) option \<Rightarrow> KeyPairResult outcome" where
  "key_pair room err r =
     (case r of
        None \<Rightarrow> Returns \<lparr>kp_success = False, kp_public = [], kp_private = [], kp_error = err\<rparr>
      | Some (pub, priv) \<Rightarrow>
          if room \<le> length (c_text pub) \<or> room \<le> length (c_text priv) then Undefined ''no terminator''
          else Returns \<lparr>kp_success = True, kp_public = c_text pub, kp_private = c_text priv, kp_error = []\<rparr>)"

definition generateRSAKeyPair :: "cipher_library \<Rightarrow> MedusaEncryption \<Rightarrow> KeyPairResult outcome \<times> MedusaEncryption" where
  "generateRSAKeyPair L =
     initially L (\<lambda>m. (key_pair 8192 ''RSA keypair generation failed'' (rsa_keypair L (me_calls m)), m\<lparr>me_calls := me_calls m + 1\<rparr>))"

definition generateECDHKeyPair :: "cipher_library \<Rightarrow> MedusaEncryption \<Rightarrow> KeyPairResult outcome \<times> MedusaEncryption" where
  "generateECDHKeyPair L =
     initially L (\<lambda>m. (key_pair 2048 ''ECDH keypair generation failed'' (ecdh_keypair L (me_calls m)), m\<lparr>me_calls := me_calls m + 1\<rparr>))"

text \<open>The audit holds the mutex when it asks for the constant, which locks it again; the report of a failed audit is None.\<close>

definition securityAudit :: "cipher_library \<Rightarrow> MedusaEncryption \<Rightarrow> string option outcome \<times> MedusaEncryption" where
  "securityAudit L =
     initially L (\<lambda>m. (case lib_audit L of Some report \<Rightarrow> Undefined ''lock of a mutex the thread owns'' | None \<Rightarrow> Returns None, m))"

text \<open>\<open>encryptData\<close> and \<open>decryptData\<close> on texts and on numbers, as the operators of streams write and read them.\<close>

definition read_word :: "string \<Rightarrow> string" where
  "read_word s = takeWhile (\<lambda>c. \<not> isspace c) (dropWhile isspace s)"

definition read_int :: "string \<Rightarrow> int" where
  "read_int s =
     (case stoi_sign s of
        (neg, r) \<Rightarrow>
          let d = takeWhile isdigit r; n = int (of_string_nat 0 d); v = (if neg then - n else n)
          in if d = [] then 0 else max (- 2147483648) (min 2147483647 v))"

definition decryptData_text ::
  "cipher_library \<Rightarrow> string \<Rightarrow> string \<Rightarrow> string \<Rightarrow> MedusaEncryption \<Rightarrow> string outcome \<times> MedusaEncryption" where
  "decryptData_text L s password ctx m =
     then_do (decryptString L s password ctx m) (\<lambda>t m. (Returns (read_word t), m))"

definition encryptData_int ::
  "cipher_library \<Rightarrow> int \<Rightarrow> string \<Rightarrow> string \<Rightarrow> MedusaEncryption \<Rightarrow> string outcome \<times> MedusaEncryption" where
  "encryptData_int L n password ctx m = encryptString L (to_string_int n) password ctx m"

definition decryptData_int ::
  "cipher_library \<Rightarrow> string \<Rightarrow> string \<Rightarrow> string \<Rightarrow> MedusaEncryption \<Rightarrow> int outcome \<times> MedusaEncryption" where
  "decryptData_int L s password ctx m =
     then_do (decryptString L s password ctx m) (\<lambda>t m.
       (if dropWhile isspace t = [] then Undefined ''data is not initialised'' else Returns (read_int t), m))"

section \<open>Sessions\<close>

record EncryptionSession =
  es_crypto :: MedusaEncryption
  es_password :: string
  es_context :: string

definition EncryptionSession_new :: "cipher_library \<Rightarrow> string \<Rightarrow> string \<Rightarrow> EncryptionSession outcome" where
  "EncryptionSession_new L password ctx =
     outcome_bind (MedusaEncryption_new L) (\<lambda>m. Returns \<lparr>es_crypto = m, es_password = password, es_context = ctx\<rparr>)"

definition session_encrypt :: "cipher_library \<Rightarrow> string \<Rightarrow> EncryptionSession \<Rightarrow> string outcome \<times> EncryptionSession" where
  "session_encrypt L s e =
     (case encryptString L s (es_password e) (es_context e) (es_crypto e) of (r, m) \<Rightarrow> (r, e\<lparr>es_crypto := m\<rparr>))"

definition session_decrypt :: "cipher_library \<Rightarrow> string \<Rightarrow> EncryptionSession \<Rightarrow> string outcome \<times> EncryptionSession" where
  "session_decrypt L s e =
     (case decryptString L s (es_password e) (es_context e) (es_crypto e) of (r, m) \<Rightarrow> (r, e\<lparr>es_crypto := m\<rparr>))"

definition session_encrypt_int :: "cipher_library \<Rightarrow> int \<Rightarrow> EncryptionSession \<Rightarrow> string outcome \<times> EncryptionSession" where
  "session_encrypt_int L n e =
     (case encryptData_int L n (es_password e) (es_context e) (es_crypto e) of (r, m) \<Rightarrow> (r, e\<lparr>es_crypto := m\<rparr>))"

definition session_decrypt_int :: "cipher_library \<Rightarrow> string \<Rightarrow> EncryptionSession \<Rightarrow> int outcome \<times> EncryptionSession" where
  "session_decrypt_int L s e =
     (case decryptData_int L s (es_password e) (es_context e) (es_crypto e) of (r, m) \<Rightarrow> (r, e\<lparr>es_crypto := m\<rparr>))"

section \<open>Utilities\<close>

definition charset :: string where
  "charset = ''abcdefghijklmnopqrstuvwxyzABCDEFGHIJKLMNOPQRSTUVWXYZ0123456789!@#$%^&*''"

definition generateSecurePassword :: "cipher_library \<Rightarrow> nat \<Rightarrow> nat \<Rightarrow> string outcome" where
  "generateSecurePassword L drawn n =
     (if \<not> allocates L n then Throws ''std::bad_alloc''
      else case secure_random L drawn n of
          None \<Rightarrow> Throws ''Failed to generate secure random bytes''
        | Some bs \<Rightarrow>
            if n < length bs then Undefined ''random_bytes''
            else Returns (map (\<lambda>b. charset ! (unat b mod length charset)) (bs @ replicate (n - length bs) 0)))"

definition bytesToHex :: "byte list \<Rightarrow> string" where
  "bytesToHex bs = concat (map hex_byte bs)"

definition hashPasswordYorkshire :: "cipher_library \<Rightarrow> string \<Rightarrow> string \<Rightarrow> string outcome" where
  "hashPasswordYorkshire L password ctx =
     outcome_bind (MedusaEncryption_new L) (\<lambda>m.
     outcome_bind (fst (deriveKeyFromPassword L password ctx 64 m)) (\<lambda>k. Returns (bytesToHex k)))"

text \<open>\<open>strtol\<close> in base 16 on two characters: blanks, a sign, digits.\<close>

definition hex_value :: "char \<Rightarrow> int option" where
  "hex_value c =
     (if isdigit c then Some (int (code c) - 48)
      else if 97 \<le> code c \<and> code c \<le> 102 then Some (int (code c) - 87)
      else if 65 \<le> code c \<and> code c \<le> 70 then Some (int (code c) - 55) else None)"

fun hex_number :: "int \<Rightarrow> string \<Rightarrow> int" where
  "hex_number n [] = n"
| "hex_number n (c # s) = (case hex_value c of None \<Rightarrow> n | Some d \<Rightarrow> hex_number (16 * n + d) s)"

definition strtol16 :: "string \<Rightarrow> int" where
  "strtol16 s = (case stoi_sign s of (neg, r) \<Rightarrow> if neg then - hex_number 0 r else hex_number 0 r)"

fun hex_bytes :: "string \<Rightarrow> byte list" where
  "hex_bytes (a # b # s) = of_int (strtol16 [a, b]) # hex_bytes s"
| "hex_bytes s = []"

definition hexToBytes :: "string \<Rightarrow> byte list" where
  "hexToBytes s = (if length s mod 2 \<noteq> 0 then [] else hex_bytes s)"

fun differences :: "byte \<Rightarrow> byte list \<Rightarrow> byte list \<Rightarrow> byte" where
  "differences r (x # xs) (y # ys) = differences (r OR (x XOR y)) xs ys"
| "differences r xs ys = r"

definition secureCompare :: "string \<Rightarrow> string \<Rightarrow> bool" where
  "secureCompare a b \<longleftrightarrow> length a = length b \<and> differences 0 (to_bytes a) (to_bytes b) = 0"

definition verifyPasswordYorkshire :: "cipher_library \<Rightarrow> string \<Rightarrow> string \<Rightarrow> string \<Rightarrow> bool outcome" where
  "verifyPasswordYorkshire L password h ctx =
     outcome_bind (hashPasswordYorkshire L password ctx) (\<lambda>c. Returns (secureCompare c h))"

end
