(* ===== verification/Enigma_Hashes.thy ===== *)
theory Enigma_Hashes
  imports Enigma_Core
begin

text \<open>
  That the base64 of the password hashes is the one of the WebSocket handshake and is read back, and that no
  hash the code makes passes its own verification; how much the transformations lose; the repeated requests.
\<close>

section \<open>Base64\<close>

text \<open>The accumulator after a byte.\<close>

definition acc :: "32 word \<Rightarrow> byte \<Rightarrow> 32 word" where
  "acc v x = push_bit 8 v OR ucast x"

lemma acc_add: "push_bit 8 v + ucast x = acc v x" for x :: byte
  unfolding acc_def by (rule disjunctive_add) (auto simp: byte_bits dest: bit_imp_le_length)

lemmas acc_bits = acc_def byte_bits bit_signed_drop_bit_iff bit_ucast_iff

lemma sextets:
  "ucast (signed_drop_bit 2 (acc v x) AND 0x3f) = (drop_bit 2 (x AND 0xfc) :: byte)"
  "ucast (signed_drop_bit 4 (acc (acc v x) y) AND 0x3f) = (push_bit 4 (x AND 0x03) OR drop_bit 4 (y AND 0xf0) :: byte)"
  "ucast (signed_drop_bit 6 (acc (acc v y) z) AND 0x3f) = (push_bit 2 (y AND 0x0f) OR drop_bit 6 (z AND 0xc0) :: byte)"
  "ucast (signed_drop_bit 0 (acc v z) AND 0x3f) = (z AND 0x3f :: byte)"
  by (rule bit_word_eqI; auto simp: acc_bits dest!: byte_cases dest: bit_imp_le_length)+

lemma put_sextets_negative: "valb < 0 \<Longrightarrow> put_sextets val valb res = (valb, res)"
  by (subst put_sextets.simps) simp

lemma put_sextets_step:
  "0 \<le> valb \<Longrightarrow> put_sextets val valb res = put_sextets val (valb - 6) (res @ [base64_char (ucast (signed_drop_bit (nat valb) val AND 0x3f))])"
  by (subst put_sextets.simps) simp

lemma acc_low [simp]: "ucast (acc v z AND 0x3f) = (z AND 0x3f :: byte)"
  using sextets(4) [of v z] by simp

lemma acc_zero: "push_bit 8 v = acc v 0"
  by (simp add: acc_def)

lemma put_sextets_phases:
  "put_sextets v 2 r = (-4, r @ [base64_char (ucast (signed_drop_bit 2 v AND 0x3f))])"
  "put_sextets v 4 r = (-2, r @ [base64_char (ucast (signed_drop_bit 4 v AND 0x3f))])"
  "put_sextets v 6 r = (-6, r @ [base64_char (ucast (signed_drop_bit 6 v AND 0x3f)), base64_char (ucast (signed_drop_bit 0 v AND 0x3f))])"
  by (simp_all add: put_sextets_step put_sextets_negative)

lemma phases: "(-6::int) + 8 = 2" "(-4::int) + 8 = 4" "(-2::int) + 8 = 6"
  by simp_all

lemmas encode_steps = encode_loop.simps Let_def acc_add phases put_sextets_phases prod.case sextets append_assoc append_Cons append_Nil

lemma encode_one: "encode_loop [x] v (-6) r = (acc v x, -4, r @ [base64_char (drop_bit 2 (x AND 0xfc))])"
  by (simp only: encode_steps)

lemma encode_two:
  "encode_loop [x, y] v (-6) r = (acc (acc v x) y, -2, r @ [base64_char (drop_bit 2 (x AND 0xfc)),
     base64_char (push_bit 4 (x AND 0x03) OR drop_bit 4 (y AND 0xf0))])"
  by (simp only: encode_steps)

lemma encode_triple:
  "encode_loop (x # y # z # xs) v (-6) res =
    encode_loop xs (acc (acc (acc v x) y) z) (-6) (res @ base64_text (base64_quad [x, y, z]))"
  by (simp only: encode_steps base64_quad_bits list.map)

definition encode_rest :: "byte list \<Rightarrow> 32 word \<Rightarrow> string \<Rightarrow> string" where
  "encode_rest xs v r0 =
     (case encode_loop xs v (-6) r0 of
        (val, valb, res) \<Rightarrow>
          let res = (if -6 < valb
                     then res @ [base64_char (ucast (signed_drop_bit (nat (valb + 8)) (push_bit 8 val) AND 0x3f))] else res)
          in res @ replicate ((4 - length res mod 4) mod 4) CHR ''='')"

lemma pads: "n mod 4 = 0 \<Longrightarrow> (4 - (n + 2) mod 4) mod 4 = (2::nat)" "n mod 4 = 0 \<Longrightarrow> (4 - (n + 3) mod 4) mod 4 = (1::nat)"
  by (simp_all only: mod_add_left_eq [of n 4, symmetric]) simp_all

lemma two_pads: "replicate 2 x = [x, x]" by (simp add: numeral_2_eq_2)

lemma rest_one: "length r mod 4 = 0 \<Longrightarrow> encode_rest [x] v r = r @ base64_encode [x]"
proof -
  assume "length r mod 4 = 0"
  then have p: "replicate ((4 - (length r + 2) mod 4) mod 4) CHR ''='' = ''==''"
    by (simp only: pads(1) two_pads)
  have "base64_text (take 2 (base64_quad [x, 0, 0]))
      = [base64_char (drop_bit 2 (x AND 0xfc)), base64_char (push_bit 4 (x AND 0x03) OR drop_bit 4 (0 AND 0xf0))]"
    unfolding base64_quad_bits by simp
  then show ?thesis
    using p by (simp only: encode_rest_def encode_one Let_def acc_zero prod.case base64_encode_simps) (simp add: sextets(2) [simplified])
qed

lemma rest_two: "length r mod 4 = 0 \<Longrightarrow> encode_rest [x, y] v r = r @ base64_encode [x, y]"
proof -
  assume "length r mod 4 = 0"
  then have p: "replicate ((4 - (length r + 3) mod 4) mod 4) CHR ''='' = ''=''"
    by (simp only: pads(2)) simp
  have "base64_text (take 3 (base64_quad [x, y, 0]))
      = [base64_char (drop_bit 2 (x AND 0xfc)), base64_char (push_bit 4 (x AND 0x03) OR drop_bit 4 (y AND 0xf0)),
         base64_char (push_bit 2 (y AND 0x0f) OR drop_bit 6 (0 AND 0xc0))]"
    unfolding base64_quad_bits by simp
  then show ?thesis
    using p by (simp only: encode_rest_def encode_two Let_def acc_zero prod.case base64_encode_simps) (simp add: sextets(3) [simplified] add.commute)
qed

lemma encode_rest_eq: "length r0 mod 4 = 0 \<Longrightarrow> encode_rest xs v r0 = r0 @ base64_encode xs"
proof (induction xs arbitrary: v r0 rule: triples_induct)
  case Nil
  then show ?case by (simp add: encode_rest_def)
next
  case (One x)
  then show ?case by (rule rest_one)
next
  case (Two x y)
  then show ?case by (rule rest_two)
next
  case (Three x y z xs)
  have "length (r0 @ base64_text (base64_quad [x, y, z])) mod 4 = 0" using Three.prems by (simp add: base64_quad_bits)
  from Three.IH [OF this] show ?case by (simp only: encode_rest_def encode_triple base64_encode_simps append_assoc)
qed

lemma base64Encode_encode: "base64Encode xs = base64_encode xs"
  using encode_rest_eq [of "[]" xs 0] by (simp add: encode_rest_def base64Encode_def)

definition acc6 :: "32 word \<Rightarrow> byte \<Rightarrow> 32 word" where
  "acc6 v k = push_bit 6 v OR ucast (k AND 0x3f)"

lemma acc6_add: "k AND 0x3f = k \<Longrightarrow> push_bit 6 v + ucast k = acc6 v k" for k :: byte
proof -
  assume k: "k AND 0x3f = k"
  have "push_bit 6 v + ucast (k AND 0x3f) = acc6 v k"
    unfolding acc6_def by (rule disjunctive_add) (auto simp: byte_bits bit_ucast_iff dest!: byte_cases dest: bit_imp_le_length)
  then show ?thesis by (simp only: k)
qed

lemma octets:
  "ucast (signed_drop_bit 4 (acc6 (acc6 v a) b) AND 0xff) = (push_bit 2 a OR drop_bit 4 (b AND 0x3f) :: byte)"
  "ucast (signed_drop_bit 2 (acc6 (acc6 v b) c) AND 0xff) = (push_bit 4 b OR drop_bit 2 (c AND 0x3f) :: byte)"
  "ucast (signed_drop_bit 0 (acc6 (acc6 v c) d) AND 0xff) = (push_bit 6 c OR (d AND 0x3f) :: byte)"
  by (rule bit_word_eqI; auto simp: acc6_def byte_bits bit_signed_drop_bit_iff bit_ucast_iff dest!: byte_cases dest: bit_imp_le_length)+

lemma base64_char_not_pad: "unat k < 64 \<Longrightarrow> base64_char k \<noteq> CHR ''=''"
  using base64_value_char(1) [of k] by auto

lemma quad_masked: "k \<in> set (base64_quad [x, y, z]) \<Longrightarrow> k AND 0x3f = k"
  unfolding base64_quad_bits by (auto intro!: bit_word_eqI simp: byte_bits dest!: byte_cases)

lemma decode_step:
  "k AND 0x3f = k \<Longrightarrow> decode_loop (base64_char k # s) v b res =
     (if 0 \<le> b + 6 then decode_loop s (acc6 v k) (b - 2) (res @ [ucast (signed_drop_bit (nat (b + 6)) (acc6 v k) AND 0xff)])
      else decode_loop s (acc6 v k) (b + 6) res)"
  using base64_value_char(1) [of k] base64_char_not_pad [of k] small_byte [of k]
  by (simp add: Let_def acc6_add)

lemma decode_two:
  assumes "a AND 0x3f = a" "b AND 0x3f = b"
  shows "decode_loop (base64_char a # base64_char b # s) v (-8) res =
    decode_loop s (acc6 (acc6 v a) b) (-4) (res @ [push_bit 2 a OR drop_bit 4 b])"
  using octets(1) [of v a b] assms by (simp add: decode_step del: decode_loop.simps)

lemma decode_three:
  assumes "a AND 0x3f = a" "b AND 0x3f = b" "c AND 0x3f = c"
  shows "decode_loop (base64_char a # base64_char b # base64_char c # s) v (-8) res =
    decode_loop s (acc6 (acc6 (acc6 v a) b) c) (-6) (res @ [push_bit 2 a OR drop_bit 4 b, push_bit 4 b OR drop_bit 2 c])"
  using octets(1) [of v a b] octets(2) [of "acc6 v a" b c] assms by (simp add: decode_step del: decode_loop.simps)

lemma decode_four:
  assumes "a AND 0x3f = a" "b AND 0x3f = b" "c AND 0x3f = c" "d AND 0x3f = d"
  shows "decode_loop (base64_text [a, b, c, d] @ s) v (-8) res =
    decode_loop s (acc6 (acc6 (acc6 (acc6 v a) b) c) d) (-8) (res @ base64_triple a b c d)"
  using octets(1) [of v a b] octets(2) [of "acc6 v a" b c] octets(3) [of "acc6 (acc6 v a) b" c d] assms
  by (simp add: decode_step base64_triple_def del: decode_loop.simps)

lemma decode_pad: "decode_loop (CHR ''='' # s) v b res = res"
  by simp

lemma decode_encoded: "decode_loop (base64_encode xs) v (-8) res = res @ xs"
proof (induction xs arbitrary: v res rule: triples_induct)
  case (One x)
  obtain a b c d where q: "base64_quad [x, 0, 0] = [a, b, c, d]" "base64_triple a b c d = [x, 0, 0]"
    using base64_quad_triple by blast
  then have "a AND 0x3f = a" "b AND 0x3f = b" using quad_masked [of _ x 0 0] by auto
  then show ?case using q by (simp add: decode_two decode_pad base64_triple_def del: decode_loop.simps)
next
  case (Two x y)
  obtain a b c d where q: "base64_quad [x, y, 0] = [a, b, c, d]" "base64_triple a b c d = [x, y, 0]"
    using base64_quad_triple by blast
  then have "a AND 0x3f = a" "b AND 0x3f = b" "c AND 0x3f = c" using quad_masked [of _ x y 0] by auto
  then show ?case using q by (simp add: decode_three decode_pad base64_triple_def del: decode_loop.simps)
next
  case (Three x y z xs)
  obtain a b c d where q: "base64_quad [x, y, z] = [a, b, c, d]" "base64_triple a b c d = [x, y, z]"
    using base64_quad_triple by blast
  then have "a AND 0x3f = a" "b AND 0x3f = b" "c AND 0x3f = c" "d AND 0x3f = d" using quad_masked [of _ x y z] by auto
  then show ?case using q Three by (simp only: base64_encode_simps decode_four append_assoc append_Cons append_Nil)
qed simp

lemma decode_encode: "base64Decode (base64Encode xs) = xs"
  by (simp only: base64Decode_def base64Encode_encode decode_encoded append_Nil)

text \<open>The base64 of the password hashes, written with an accumulator of 32 bits that overflows, is the base64 of the
  WebSocket handshake, and its decoder brings the bytes back.\<close>

theorem base64_accumulators: "base64Encode xs = Web_Socket.base64_encode xs \<and> base64Decode (base64Encode xs) = xs"
  by (simp only: base64Encode_encode decode_encode [unfolded base64Encode_encode])

section \<open>Parts\<close>

lemma of_to_bytes [simp]: "of_bytes (to_bytes s) = s"
proof -
  have "char_of (unat (of_nat (code c) :: byte)) = c" for c
    by (simp add: code_def unat_of_nat take_bit_eq_mod)
  then show ?thesis by (simp add: of_bytes_def to_bytes_def comp_def map_idI)
qed

lemma token_fields_part: "d \<notin> set p \<Longrightarrow> token_fields d sep (p @ d # s) = (sep @ p) # token_fields d [] s"
  by (induction p arbitrary: sep) auto

lemma regex_split_part: "d \<notin> set p \<Longrightarrow> regex_split d (p @ d # s) = p # token_fields d [] s"
  by (simp add: regex_split_def token_fields_part)

abbreviation dollar :: char where
  "dollar \<equiv> CHR ''$''"

lemma hex_digit_range: "n < 16 \<Longrightarrow> hex_digit n \<in> set ''0123456789abcdef''"
proof -
  assume "n < 16"
  then have "n \<in> set [0..<16]" by simp
  moreover have "\<forall>n \<in> set [0..<16]. hex_digit n \<in> set ''0123456789abcdef''" by code_simp
  ultimately show ?thesis by blast
qed

lemma hex_byte_range: "set (hex_byte b) \<subseteq> set ''0123456789abcdef''"
proof -
  have "unat b < 256" using unsigned_less [of b] by simp
  then have "unat b div 16 < 16" "unat b mod 16 < 16" by auto
  then show ?thesis using hex_digit_range by (simp only: hex_byte_def list.set insert_subset empty_subsetI)
qed

lemma hex_strings_range:
  "set (concat (map hex_byte bs)) \<subseteq> set ''0123456789abcdef''"
  using hex_byte_range by (simp only: set_concat set_map) blast

lemma hmac_range: "set (hmac_string dg m k) \<subseteq> set ''0123456789abcdef''"
  unfolding hmac_string_def sha256_string_def using hex_strings_range by (cases "hmac_sha512 dg") (simp_all only: option.case)

lemma hmac_no_dollar: "dollar \<notin> set (hmac_string dg m k)" "hmac_string dg m k \<noteq> ''ENIGMA''"
  using hmac_range [of dg m k] by auto

lemma sha_rounds_no_dollar: "dollar \<notin> set s \<Longrightarrow> dollar \<notin> set (sha_rounds dg n s)"
proof -
  have "dollar \<notin> set (fold (\<lambda>i r. sha256_string dg (r @ to_string_nat i)) ns s)" if "dollar \<notin> set s" for ns
    using that
  proof (induction ns arbitrary: s)
    case (Cons n ns)
    have "dollar \<notin> set (sha256_string dg (s @ to_string_nat n))"
      using hex_strings_range [of "sha256 dg (s @ to_string_nat n)"] by (auto simp: sha256_string_def)
    then show ?case using Cons.IH by simp
  qed simp
  then show "dollar \<notin> set s \<Longrightarrow> dollar \<notin> set (sha_rounds dg n s)" by (simp add: sha_rounds_def)
qed

lemma base64_no_dollar: "dollar \<notin> set (base64Encode xs)"
proof -
  have "set (base64_encode xs) \<subseteq> set (CHR ''='' # base64_chars)" using base64_round_trip by blast
  moreover have "dollar \<notin> set (CHR ''='' # base64_chars)" by code_simp
  ultimately show ?thesis by (auto simp: base64Encode_encode)
qed

section \<open>Generation and verification\<close>

text \<open>A bcrypt hash has three dollar signs, before the version, the cost and the rest.\<close>

definition modular_crypt :: "string \<Rightarrow> bool" where
  "modular_crypt h \<longleftrightarrow>
     (\<exists>v cost body. h = dollar # v @ dollar # cost @ dollar # body
        \<and> dollar \<notin> set v \<union> set cost \<union> set body \<and> set cost \<subseteq> set ''0123456789'')"

lemma salt_bytes: "length (base64Decode (generateEnigmaSalt rng n)) = 32"
  by (simp only: generateEnigmaSalt_def decode_encode length_map length_upt)

lemma constant_applies:
  "applyUniversalConstant s (generateEnigmaSalt rng n) \<noteq> Undefined e"
  "applyUniversalConstant s (generateEnigmaSalt rng n) \<noteq> Throws e"
  "applyUniversalConstant s salt = Returns u \<Longrightarrow> dollar \<notin> set u"
proof -
  have "base64Decode (generateEnigmaSalt rng n) \<noteq> []" using salt_bytes [of rng n] by auto
  then show "applyUniversalConstant s (generateEnigmaSalt rng n) \<noteq> Undefined e"
    "applyUniversalConstant s (generateEnigmaSalt rng n) \<noteq> Throws e"
    by (simp_all add: applyUniversalConstant_def Let_def)
  show "applyUniversalConstant s salt = Returns u \<Longrightarrow> dollar \<notin> set u"
    using base64_no_dollar by (auto simp: applyUniversalConstant_def Let_def split: if_splits)
qed

abbreviation bad_format :: string where
  "bad_format \<equiv> ''Medusa Verification Error: Hash extraction failed: Invalid Medusa Enigma hash format''"

lemma extract_rejects:
  assumes "dollar \<notin> set h \<or> modular_crypt h" and "eh_hash r = postProcessEnigmaHash dg h salt md"
  shows "extractHashComponents r = Throws ''Hash extraction failed: Invalid Medusa Enigma hash format''"
proof -
  define sig where "sig = hmac_string dg (h @ constant_string @ md_text md) salt"
  define rest where "rest = dollar # sig @ dollar # ''SCALES'' @ dollar # scales_string"
  have shown: "of_bytes (base64Decode (eh_hash r)) = h @ dollar # ''ENIGMA'' @ rest"
    by (simp add: assms(2) postProcessEnigmaHash_def decode_encode sig_def rest_def)
  from assms(1) have "regex_split dollar (h @ dollar # ''ENIGMA'' @ rest) ! 2 \<noteq> ''ENIGMA''"
  proof
    assume "dollar \<notin> set h"
    then have "regex_split dollar (h @ dollar # ''ENIGMA'' @ rest) ! 2 = sig"
      unfolding rest_def using hmac_no_dollar [of dg _ salt]
      by (simp add: regex_split_part token_fields_part sig_def)
    then show ?thesis using hmac_no_dollar(2) by (simp add: sig_def)
  next
    assume "modular_crypt h"
    then obtain v cost body where h: "h = dollar # v @ dollar # cost @ dollar # body"
      "dollar \<notin> set v \<union> set cost \<union> set body" "set cost \<subseteq> set ''0123456789''"
      unfolding modular_crypt_def by blast
    then have "regex_split dollar (h @ dollar # ''ENIGMA'' @ rest) ! 2 = cost"
      using regex_split_part [of dollar "[]"] by (simp add: token_fields_part)
    then show ?thesis using h(3) by auto
  qed
  then show ?thesis by (simp add: extractHashComponents_def shown rethrown_def Let_def)
qed

lemma generated:
  assumes "generateEnigmaHash dg rng plain md c = (Returns r, c')"
  obtains h salt u where "eh_hash r = postProcessEnigmaHash dg h salt md"
    "performBcryptHashing dg (salt_rounds (en_config c)) u = Returns h" "dollar \<notin> set u"
proof -
  define salt where "salt = generateEnigmaSalt rng (en_drawn c)"
  obtain u where u: "applyUniversalConstant (applySnakeScaleTransforms dg plain md) salt = Returns u"
    using constant_applies(1,2) unfolding salt_def by (metis outcome.exhaust)
  from assms obtain h where "performBcryptHashing dg (salt_rounds (en_config c)) u = Returns h"
    "eh_hash r = postProcessEnigmaHash dg h salt md"
    using u by (auto simp: generateEnigmaHash_def Let_def salt_def [symmetric] split: outcome.splits)
  then show ?thesis using that constant_applies(3) [OF u] by blast
qed

definition bcrypt_keeps_format :: "digests \<Rightarrow> bool" where
  "bcrypt_keeps_format dg \<longleftrightarrow> (\<forall>s salt h. bcrypt_hashpw dg s salt = Some h \<longrightarrow> modular_crypt h)"

lemma hashed_format:
  assumes "performBcryptHashing dg rounds u = Returns h" "dollar \<notin> set u" "bcrypt_gensalt dg = None \<or> bcrypt_keeps_format dg"
  shows "dollar \<notin> set h \<or> modular_crypt h"
proof (cases "bcrypt_gensalt dg")
  case None
  then show ?thesis using assms(1,2) sha_rounds_no_dollar by (auto simp: performBcryptHashing_def)
next
  case (Some gensalt)
  then show ?thesis using assms(1,3)
    by (auto simp: performBcryptHashing_def bcrypt_keeps_format_def split: option.splits)
qed

text \<open>C36. No hash that was made is ever accepted. The signature of a hash made without bcrypt, or the cost of a hash of
  bcrypt, stands where the verification looks for the name of the format: with the password of the hash or with any
  other, and with any object, the verification throws, and not even the failures are counted.\<close>

theorem no_hash_is_accepted:
  assumes "bcrypt_gensalt dg = None \<or> bcrypt_keeps_format dg"
    and "generateEnigmaHash dg rng plain md c = (Returns stored, c')"
  shows "verifyEnigmaHash dg password stored md' k = (Throws bad_format, k)"
proof -
  obtain h salt u where "eh_hash stored = postProcessEnigmaHash dg h salt md" "dollar \<notin> set h \<or> modular_crypt h"
    using generated [OF assms(2)] hashed_format assms(1) by metis
  then show ?thesis by (simp add: verifyEnigmaHash_def extract_rejects)
qed

text \<open>Digests to try it with.\<close>

definition plain_digests :: digests where
  "plain_digests = \<lparr>sha256 = (\<lambda>s. replicate 32 (of_nat (length s))), hmac_sha512 = Some (\<lambda>m k. replicate 64 0),
     bcrypt_gensalt = None, bcrypt_hashpw = (\<lambda>s salt. None), bcrypt_check = (\<lambda>s h. False)\<rparr>"

lemma made_without_bcrypt:
  assumes "bcrypt_gensalt dg = None"
  shows "\<exists>stored. generateEnigmaHash dg rng plain md c = (Returns stored, c\<lparr>en_drawn := en_drawn c + 32, en_metrics :=
     (en_metrics c)\<lparr>hashes_generated := hashes_generated (en_metrics c) + 1, yorkshire_champions := yorkshire_champions (en_metrics c) + 1\<rparr>\<rparr>)"
proof -
  obtain u where "applyUniversalConstant (applySnakeScaleTransforms dg plain md) (generateEnigmaSalt rng (en_drawn c)) = Returns u"
    using constant_applies(1,2) by (metis outcome.exhaust)
  then show ?thesis using assms by (simp add: generateEnigmaHash_def Let_def performBcryptHashing_def)
qed

theorem no_hash_is_accepted_witness:
  "\<exists>stored c'. generateEnigmaHash plain_digests (\<lambda>n. n) ''secret'' \<lparr>md_user = None, md_text = ''{}''\<rparr> (EnigmaCore_new EnigmaConfig_new)
       = (Returns stored, c')
     \<and> verifyEnigmaHash plain_digests ''secret'' stored \<lparr>md_user = None, md_text = ''{}''\<rparr> c' = (Throws bad_format, c')"
proof -
  have none: "bcrypt_gensalt plain_digests = None" by (simp add: plain_digests_def)
  from made_without_bcrypt [OF this] obtain stored c' where
    g: "generateEnigmaHash plain_digests (\<lambda>n. n) ''secret'' \<lparr>md_user = None, md_text = ''{}''\<rparr> (EnigmaCore_new EnigmaConfig_new)
       = (Returns stored, c')" by blast
  show ?thesis using g no_hash_is_accepted [OF disjI1 [OF none] g] by blast
qed

section \<open>What the transformation loses\<close>

lemma scales_fold: "fold (\<lambda>scale t. map (snake_scale scale) t) ss t = map (fold snake_scale ss) t"
  by (induction ss arbitrary: t) simp_all

lemma excess_step: "excess_digits (numeral k) = (if numeral k < (9007199254740992::nat) then 0 else Suc (excess_digits (numeral k div 2)))"
  by (subst excess_digits.simps) simp

lemmas scale_steps = snake_scale_def times_constant_def round_double_def excess_step constant_numerator_def Let_def

lemma zero_and_one: "fold snake_scale snake_scales (of_nat (code CHR ''0'')) = fold snake_scale snake_scales (of_nat (code CHR ''1''))"
  by (simp add: snake_scales_def scale_steps code_def)

text \<open>Passwords that differ in a zero for a one have the same hash: each transformation mixes a byte with its own
  multiple, and what comes out of all eight is the same for the two.\<close>

definition zero_one :: "char \<Rightarrow> char" where
  "zero_one c = (if c = CHR ''1'' then CHR ''0'' else c)"

lemma zeros_and_ones_hash_alike:
  assumes "map zero_one p = map zero_one q"
  shows "generateEnigmaHash dg rng p md c = generateEnigmaHash dg rng q md c"
proof -
  have "map (fold snake_scale snake_scales) (to_bytes (map zero_one s)) = map (fold snake_scale snake_scales) (to_bytes s)" for s
    using zero_and_one by (auto simp: to_bytes_def zero_one_def)
  then have "map (fold snake_scale snake_scales) (to_bytes p) = map (fold snake_scale snake_scales) (to_bytes q)"
    using assms by metis
  then have "applySnakeScaleTransforms dg p md = applySnakeScaleTransforms dg q md"
    by (simp only: applySnakeScaleTransforms_def scales_fold)
  then show ?thesis by (simp only: generateEnigmaHash_def)
qed

section \<open>Callbacks\<close>

lemma attempts_in_turn:
  assumes "\<forall>k < m. \<forall>r. net (a + k) = Inr r \<longrightarrow> fst r \<noteq> 200" "net (a + m) = Inr (200, body)" "m < n" "a + m \<le> 21"
  shows "send_attempts net retries a n e w = (Returns body, w @ map (\<lambda>k. 2 ^ k * 1000) [a..<a + m])"
  using assms
proof (induction m arbitrary: a n e w)
  case 0
  then show ?case by (cases n) (simp_all add: Let_def)
next
  case (Suc m)
  then obtain left where n: "n = Suc (Suc left)" by (cases n; cases "n - 1") auto
  have step: "send_attempts net retries (a + 1) (Suc left) e' (w @ [2 ^ a * 1000])
      = (Returns body, (w @ [2 ^ a * 1000]) @ map (\<lambda>k. 2 ^ k * 1000) [a + 1..<a + 1 + m])" for e'
  proof (rule Suc.IH)
    show "\<forall>k < m. \<forall>r. net (a + 1 + k) = Inr r \<longrightarrow> fst r \<noteq> 200"
      using Suc.prems(1) by (metis Suc_less_eq add.assoc plus_1_eq_Suc)
    show "net (a + 1 + m) = Inr (200, body)" using Suc.prems(2) by simp
    show "m < Suc left" using Suc.prems(3) n by simp
    show "a + 1 + m \<le> 21" using Suc.prems(4) by simp
  qed
  have "(2::int) ^ a * 1000 < 2 ^ 31"
  proof -
    have "(2::int) ^ a \<le> 2 ^ 20" using Suc.prems(4) by (intro power_increasing) simp_all
    then show ?thesis by simp
  qed
  moreover have "net a = Inr r \<Longrightarrow> fst r \<noteq> 200" for r using Suc.prems(1) by (metis add_0_right zero_less_Suc)
  moreover have "[a..<a + Suc m] = a # [a + 1..<a + 1 + m]" by (simp add: upt_conv_Cons)
  ultimately show ?case using step unfolding n
    by (cases "net a") (auto simp: Let_def)
qed

end
