(* ===== verification/Encryption_Sessions.thy ===== *)
theory Encryption_Sessions
  imports Medusa_Encryption Enigma_Hashes Http_Client
begin

text \<open>
  That what \<open>encryptString\<close> writes is what \<open>decryptString\<close> reads, for every text, that numbers come back, that
  hexadecimal is read back and that the comparison of hashes is equality; what the parser of results accepts.
\<close>

section \<open>The text of a result\<close>

lemma base64_no_quote: "dquote \<notin> set (base64Encode xs)"
proof -
  have "set (base64_encode xs) \<subseteq> set (CHR ''='' # base64_chars)" using base64_round_trip by blast
  moreover have "dquote \<notin> set (CHR ''='' # base64_chars)" by code_simp
  ultimately show ?thesis by (auto simp: base64Encode_encode)
qed

lemma field_read:
  assumes "find_here (field_mark c) (p @ field_mark c @ base64Encode xs @ dquote # s) = Some (length p)"
  shows "json_field c (p @ field_mark c @ base64Encode xs @ dquote # s) = xs"
proof -
  let ?j = "p @ field_mark c @ base64Encode xs @ dquote # s"
  have at: "?j = (p @ field_mark c) @ base64Encode xs @ dquote # s" "length (p @ field_mark c) = length p + 5"
    by (simp_all add: field_mark_def)
  have "str_find ?j [dquote] (length (p @ field_mark c)) = Some (length p + 5 + length (base64Encode xs))"
    unfolding at(1) str_find_at using find_here_hit [of "[dquote]" "base64Encode xs" s] base64_no_quote at(2) by simp
  moreover have "substr ?j (length p + 5) (length (base64Encode xs)) = base64Encode xs"
    unfolding substr_def at(1) at(2) [symmetric] by simp
  ultimately show ?thesis using assms at(2) by (simp add: json_field_def str_find_0 decode_encode)
qed

lemma mark_past:
  assumes "c \<noteq> d" "c \<notin> set [CHR '','', CHR '':'', dquote]" "dquote \<notin> set b" "d \<noteq> dquote"
  shows "find_here (field_mark c) (field_mark d @ b @ dquote # CHR '','' # s) = map_option (\<lambda>k. 7 + length b + k) (find_here (field_mark c) s)"
proof -
  have end_: "find_here (field_mark c) (b @ dquote # CHR '','' # s)
      = map_option (\<lambda>k. 2 + length b + k) (find_here (field_mark c) s)"
    using find_here_skip [of "field_mark c" b "dquote # CHR '','' # s"] assms
    by (simp add: field_mark_def option.map_comp comp_def)
  have "\<not> starts_with (field_mark c) (dquote # b @ dquote # CHR '','' # s)"
  proof (cases b)
    case (Cons x b')
    then show ?thesis using assms by (cases b') (auto simp: field_mark_def)
  qed (use assms in \<open>simp add: field_mark_def\<close>)
  then have "find_here (field_mark c) (dquote # b @ dquote # CHR '','' # s)
      = map_option (\<lambda>k. 3 + length b + k) (find_here (field_mark c) s)"
    by (cases "find_here (field_mark c) s") (simp_all add: end_)
  then show ?thesis using assms by (cases "find_here (field_mark c) s") (simp_all add: field_mark_def)
qed

lemma mark_here: "find_here (field_mark c) (field_mark c @ s) = Some 0"
  using find_here_hit [of "field_mark c" "[]" s] by (simp add: field_mark_def)

lemma brace_past: "find_here (field_mark c) (CHR ''{'' # s) = map_option Suc (find_here (field_mark c) s)"
  by (simp add: field_mark_def)

lemma json_fields:
  "json_field CHR ''e'' (result_json r) = er_data r" (is ?e)
  "json_field CHR ''i'' (result_json r) = er_iv r" (is ?i)
  "json_field CHR ''t'' (result_json r) = er_tag r" (is ?t)
proof -
  define e i t where "e = field_mark CHR ''e'' @ base64Encode (er_data r) @ dquote # '',''"
    and "i = field_mark CHR ''i'' @ base64Encode (er_iv r) @ dquote # '',''" and "t = field_mark CHR ''t'' @ base64Encode (er_tag r)"
  define s where "s = CHR '','' # field_mark CHR ''v'' @ ''1.0'' @ dquote # '','' @ dquote # ''c'' @ dquote # '':0.315}''"
  have j1: "result_json r = ''{'' @ field_mark CHR ''e'' @ base64Encode (er_data r) @ dquote # CHR '','' # i @ t @ dquote # s"
    and j2: "result_json r = (''{'' @ e) @ field_mark CHR ''i'' @ base64Encode (er_iv r) @ dquote # CHR '','' # t @ dquote # s"
    and j3: "result_json r = (''{'' @ e @ i) @ field_mark CHR ''t'' @ base64Encode (er_tag r) @ dquote # s"
    by (simp_all add: result_json_def e_def i_def t_def s_def)
  show ?e unfolding j1 by (rule field_read) (simp add: brace_past mark_here del: find_here.simps)
  show ?i unfolding j2
    by (rule field_read) (simp add: brace_past e_def mark_past mark_here base64_no_quote del: find_here.simps, simp add: field_mark_def)
  show ?t unfolding j3
    by (rule field_read) (simp add: brace_past e_def i_def mark_past mark_here base64_no_quote del: find_here.simps, simp add: field_mark_def)
qed

theorem result_read_back:
  assumes "er_success r" "er_error r = []"
  shows "fromBase64String (toBase64String r) = Some r"
proof -
  have ne: "to_bytes (result_json r) \<noteq> []" by (simp add: to_bytes_def result_json_def)
  show ?thesis using assms ne by (cases r) (simp add: toBase64String_def fromBase64String_def decode_encode Let_def json_fields)
qed

text \<open>A text without the marks is a result all the same: each field starts four characters into it.\<close>

lemma unmarked_result:
  assumes "base64Decode s = to_bytes j" "j \<noteq> []" "dquote \<notin> set j"
  shows "fromBase64String s = Some \<lparr>er_success = True, er_data = [], er_iv = [], er_tag = [], er_error = []\<rparr>"
proof -
  have "find_here (field_mark c) j = None" for c
    using find_here_missing [of dquote "field_mark c" j] assms(3) by (simp add: field_mark_def)
  moreover have "find_here [dquote] (drop 4 j) = None"
    using find_here_missing [of dquote "[dquote]" "drop 4 j"] assms(3) by (meson in_set_dropD list.set_intros(1))
  ultimately have "json_field c j = []" for c by (simp add: json_field_def str_find_def)
  then show ?thesis using assms(1,2) by (simp add: fromBase64String_def Let_def to_bytes_def [of j])
    (simp add: to_bytes_def [symmetric])
qed

section \<open>Round trips\<close>

text \<open>What is asked of the library: it stays within the buffers, and opens what it sealed.\<close>

definition honest_cipher :: "cipher_library \<Rightarrow> bool" where
  "honest_cipher L \<longleftrightarrow>
     (\<forall>n p k ctx c iv tag. encrypt_gcm L n p k ctx = Some (c, iv, tag) \<longrightarrow>
        length c \<le> length p + 1024 \<and> length iv \<le> 12 \<and> length tag \<le> 16 \<and> length p \<le> length c + 1024
        \<and> decrypt_gcm L c k iv tag ctx = Some p)"

lemmas class_defs = initially_def ensureInitialized_def then_do_def

lemma derived:
  assumes "deriveKeyFromPassword L pw ctx n m = (Returns k, m')"
  shows "me_initialized m'" "me_initialized c \<Longrightarrow> deriveKeyFromPassword L pw ctx n c = (Returns k, c)"
  using assms by (auto simp: deriveKeyFromPassword_def class_defs split: if_splits option.splits)

lemma sealed_by:
  assumes "encryptAESGCM L p key ctx m = (Returns r, m')" "er_success r"
  obtains n where "encrypt_gcm L n p key (context_arg ctx) = Some (er_data r, er_iv r, er_tag r)" "length key = 32" "er_error r = []"
  using assms by (auto simp: encryptAESGCM_def class_defs EncryptionResult_new_def split: if_splits option.splits prod.splits)

lemma opened:
  assumes "honest_cipher L" "encryptAESGCM L p key ctx m = (Returns r, m')" "er_success r" "me_initialized c"
  shows "decryptAESGCM L r key ctx c = (Returns \<lparr>dr_success = True, dr_authentic = True, dr_data = p, dr_error = []\<rparr>, c)"
proof -
  obtain n where e: "encrypt_gcm L n p key (context_arg ctx) = Some (er_data r, er_iv r, er_tag r)" "length key = 32"
    using sealed_by [OF assms(2,3)] by blast
  with assms(1) have "length p \<le> length (er_data r) + 1024" "decrypt_gcm L (er_data r) key (er_iv r) (er_tag r) (context_arg ctx) = Some p"
    unfolding honest_cipher_def by blast+
  then show ?thesis using assms(3,4) e(2) by (simp add: decryptAESGCM_def class_defs)
qed

lemma encrypt_initialises: "encryptAESGCM L p key ctx m = (Returns r, m') \<Longrightarrow> me_initialized m'"
  by (auto simp: encryptAESGCM_def class_defs split: if_splits)

lemma encrypted_by:
  assumes "encryptString L s pw ctx m = (Returns t, m')"
  obtains key r m1 where "deriveKeyFromPassword L pw ctx 32 m = (Returns key, m1)"
    "encryptAESGCM L (to_bytes s) key ctx m1 = (Returns r, m')" "er_success r" "t = toBase64String r"
  using assms unfolding encryptString_def then_do_def by (auto split: prod.splits outcome.splits if_splits)

lemma sealed_text_opens:
  assumes "honest_cipher L" "encryptString L s pw ctx m = (Returns t, m')" "me_initialized c"
  shows "decryptString L t pw ctx c = (Returns s, c)"
proof -
  obtain key r m1 where e: "deriveKeyFromPassword L pw ctx 32 m = (Returns key, m1)"
    "encryptAESGCM L (to_bytes s) key ctx m1 = (Returns r, m')" "er_success r" "t = toBase64String r"
    using encrypted_by [OF assms(2)] by blast
  then have "fromBase64String t = Some r" using result_read_back sealed_by by metis
  then show ?thesis using derived(2) [OF e(1) assms(3)] opened [OF assms(1) e(2,3) assms(3)]
    by (simp add: decryptString_def then_do_def result_text_def)
qed

definition plain_library :: cipher_library where
  "plain_library = \<lparr>lib_init = True, lib_version = ''1.0'', derive_pbkdf2 = (\<lambda>pw ctx n. Some (replicate n (of_nat (length pw)))),
     encrypt_gcm = (\<lambda>n p k ctx. Some (map (\<lambda>b. b XOR hd k) p, [of_nat n], [])),
     decrypt_gcm = (\<lambda>d k iv tag ctx. Some (map (\<lambda>b. b XOR hd k) d)), rsa_keypair = (\<lambda>n. None), ecdh_keypair = (\<lambda>n. None),
     secure_random = (\<lambda>n k. Some (replicate k 255)), lib_audit = Some ''passed'', allocates = (\<lambda>n. True)\<rparr>"

lemma plain_honest: "honest_cipher plain_library"
  by (auto simp: honest_cipher_def plain_library_def comp_def xor.assoc map_idI)

lemma plain_encrypts:
  assumes "me_initialized m"
  shows "\<exists>t m'. encryptString plain_library s pw ctx m = (Returns t, m')"
  using assms by (simp add: encryptString_def deriveKeyFromPassword_def encryptAESGCM_def class_defs plain_library_def)

text \<open>A number is written and read back.\<close>

lemma read_written_int: "- 2147483648 \<le> n \<Longrightarrow> n \<le> 2147483647 \<Longrightarrow> read_int (to_string_int n) = n"
  using stoi_to_string_int [of n] by (auto simp: stoi_def read_int_def Let_def split: prod.splits if_splits)

theorem sealed_number_opens:
  assumes "honest_cipher L" "encryptData_int L n pw ctx m = (Returns t, m')" "me_initialized c" "- 2147483648 \<le> n" "n \<le> 2147483647"
  shows "decryptData_int L t pw ctx c = (Returns n, c)"
proof -
  obtain x y where "to_string_int n = x # y" "\<not> isspace x"
  proof (cases "n < 0")
    case False
    obtain a b where d: "to_string_nat (nat n) = a # b" by (cases "to_string_nat (nat n)") auto
    then have "isdigit a" using to_string_nat_digits [of a "nat n"] by simp
    then show ?thesis using that [of a b] False d by (auto simp: to_string_int_def ctype_defs)
  qed (use that in \<open>simp add: to_string_int_def ctype_defs\<close>)
  then show ?thesis
    using sealed_text_opens [OF assms(1) assms(2) [unfolded encryptData_int_def] assms(3)] read_written_int [OF assms(4,5)]
    by (simp add: decryptData_int_def then_do_def)
qed

text \<open>Of a text only the first word comes back.\<close>

lemma sealed_words_are_cut:
  assumes "honest_cipher L" "encryptString L s pw ctx m = (Returns t, m')" "me_initialized c"
  shows "decryptData_text L t pw ctx c = (Returns (read_word s), c)"
  using sealed_text_opens [OF assms] by (simp add: decryptData_text_def then_do_def)

section \<open>Sessions\<close>

text \<open>The texts a session encrypted one after the other can be decrypted at the end, in any order.\<close>

fun encrypt_all :: "cipher_library \<Rightarrow> string list \<Rightarrow> EncryptionSession \<Rightarrow> string list outcome \<times> EncryptionSession" where
  "encrypt_all L [] e = (Returns [], e)"
| "encrypt_all L (s # ss) e =
     (case session_encrypt L s e of
        (Returns t, e) \<Rightarrow> (case encrypt_all L ss e of (r, e) \<Rightarrow> (outcome_bind r (\<lambda>ts. Returns (t # ts)), e))
      | (Throws x, e) \<Rightarrow> (Throws x, e)
      | (Undefined x, e) \<Rightarrow> (Undefined x, e))"

lemma session_step:
  assumes "session_encrypt L s e = (Returns t, e')"
  shows "encryptString L s (es_password e) (es_context e) (es_crypto e) = (Returns t, es_crypto e')"
    "es_password e' = es_password e" "es_context e' = es_context e" "me_initialized (es_crypto e')"
proof -
  show e: "encryptString L s (es_password e) (es_context e) (es_crypto e) = (Returns t, es_crypto e')"
    and "es_password e' = es_password e" "es_context e' = es_context e"
    using assms by (auto simp: session_encrypt_def split: prod.splits)
  obtain key r m1 where "encryptAESGCM L (to_bytes s) key (es_context e) m1 = (Returns r, es_crypto e')"
    using encrypted_by [OF e] by metis
  then show "me_initialized (es_crypto e')" by (rule encrypt_initialises)
qed

lemma encrypt_all_cons:
  assumes "encrypt_all L (s # ss) e = (Returns ts, e')"
  obtains t ts' e1 where "session_encrypt L s e = (Returns t, e1)" "encrypt_all L ss e1 = (Returns ts', e')" "ts = t # ts'"
proof -
  obtain r e1 where 1: "session_encrypt L s e = (r, e1)" by fastforce
  obtain q e2 where 2: "encrypt_all L ss e1 = (q, e2)" by fastforce
  from assms 1 2 have "\<exists>t ts'. r = Returns t \<and> q = Returns ts' \<and> ts = t # ts' \<and> e2 = e'"
    by (cases r; cases q) (simp_all only: encrypt_all.simps prod.case outcome.case outcome_bind.simps prod.inject, auto)
  then show ?thesis using that 1 2 by blast
qed

lemma encrypt_all_keeps:
  assumes "encrypt_all L ss e = (Returns ts, e')"
  shows "es_password e' = es_password e \<and> es_context e' = es_context e
    \<and> (me_initialized (es_crypto e) \<or> ss \<noteq> [] \<longrightarrow> me_initialized (es_crypto e'))"
  using assms
proof (induction ss arbitrary: e ts)
  case (Cons s ss)
  obtain t ts' e1 where c: "session_encrypt L s e = (Returns t, e1)" "encrypt_all L ss e1 = (Returns ts', e')" "ts = t # ts'"
    by (rule encrypt_all_cons [OF Cons.prems])
  show ?case using session_step [OF c(1)] Cons.IH [OF c(2)] by simp
qed simp

lemma session_opens:
  assumes "honest_cipher L" "encryptString L s (es_password e) (es_context e) m = (Returns t, m')" "me_initialized (es_crypto e)"
  shows "session_decrypt L t e = (Returns s, e)"
  using sealed_text_opens [OF assms] by (simp add: session_decrypt_def)

text \<open>C40. What an encryption session encrypted it decrypts: the texts it made one after the other, decrypted later in any
  order, are the texts that went in, whatever they hold (nothing at all, quotation marks, zeros), and decrypting
  leaves the session as it was. It needs of the library that it opens what it sealed and writes within the buffers.\<close>

theorem session_reads_itself:
  assumes "honest_cipher L" "encrypt_all L ss e = (Returns ts, e')"
  shows "map (\<lambda>t. session_decrypt L t e') ts = map (\<lambda>s. (Returns s, e')) ss"
  using assms(2)
proof (induction ss arbitrary: e ts)
  case (Cons s ss)
  obtain t ts' e1 where c: "session_encrypt L s e = (Returns t, e1)" "encrypt_all L ss e1 = (Returns ts', e')" "ts = t # ts'"
    by (rule encrypt_all_cons [OF Cons.prems])
  have "session_decrypt L t e' = (Returns s, e')"
    using session_opens [OF assms(1)] session_step [OF c(1)] encrypt_all_keeps [OF c(2)] by metis
  then show ?case using Cons.IH [OF c(2)] c(3) by simp
qed simp

lemma plain_encrypts_all:
  assumes "me_initialized (es_crypto e)"
  shows "\<exists>ts e'. encrypt_all plain_library ss e = (Returns ts, e')"
  using assms
proof (induction ss arbitrary: e)
  case (Cons s ss)
  obtain t m where "encryptString plain_library s (es_password e) (es_context e) (es_crypto e) = (Returns t, m)"
    using plain_encrypts [OF Cons.prems] by blast
  then have s: "session_encrypt plain_library s e = (Returns t, e\<lparr>es_crypto := m\<rparr>)" by (simp add: session_encrypt_def)
  then obtain ts e' where "encrypt_all plain_library ss (e\<lparr>es_crypto := m\<rparr>) = (Returns ts, e')"
    using session_step(4) [OF s] Cons.IH by blast
  then show ?case using s by simp
qed simp

theorem session_reads_itself_witness:
  "\<exists>e ts e'. EncryptionSession_new plain_library ''ferret'' ''cellar'' = Returns e
     \<and> encrypt_all plain_library [''pint of bitter'', [], [CHR 0x22, CHR 0x00]] e = (Returns ts, e')
     \<and> map (\<lambda>t. session_decrypt plain_library t e') ts
       = [(Returns ''pint of bitter'', e'), (Returns [], e'), (Returns [CHR 0x22, CHR 0x00], e')]"
proof -
  define e where "e = \<lparr>es_crypto = \<lparr>me_initialized = True, me_calls = 0\<rparr>, es_password = ''ferret'', es_context = ''cellar''\<rparr>"
  have "EncryptionSession_new plain_library ''ferret'' ''cellar'' = Returns e"
    by (simp add: EncryptionSession_new_def MedusaEncryption_new_def ensureInitialized_def plain_library_def e_def)
  moreover obtain ts e' where f: "encrypt_all plain_library [''pint of bitter'', [], [CHR 0x22, CHR 0x00]] e = (Returns ts, e')"
    using plain_encrypts_all [of e "[''pint of bitter'', [], [CHR 0x22, CHR 0x00]]"] by (fastforce simp: e_def simp del: encrypt_all.simps)
  ultimately show ?thesis using session_reads_itself [OF plain_honest f] by auto
qed

section \<open>Hexadecimal and hashes\<close>

lemma hex_digit_value: "n < 16 \<Longrightarrow> hex_value (hex_digit n) = Some (int n) \<and> \<not> isspace (hex_digit n)
  \<and> hex_digit n \<noteq> CHR ''-'' \<and> hex_digit n \<noteq> CHR ''+''"
proof -
  assume n: "n < 16"
  then have "n \<in> set [0..<16]" by simp
  moreover have "\<forall>n \<in> set [0..<16]. hex_value (hex_digit n) = Some (int n)"
    by (simp add: upt_rec hex_value_def hex_digit_def digit_char_def ctype_defs)
  ultimately have "hex_value (hex_digit n) = Some (int n)" by blast
  then show ?thesis using hex_digit_range [OF n] by (auto simp: ctype_defs)
qed

lemma strtol_hex_byte: "strtol16 (hex_byte b) = int (unat b)"
proof -
  have "unat b < 256" using unsigned_less [of b] by simp
  then have "unat b div 16 < 16" "unat b mod 16 < 16" by auto
  then have "strtol16 (hex_byte b) = 16 * int (unat b div 16) + int (unat b mod 16)"
    using hex_digit_value [of "unat b div 16"] hex_digit_value [of "unat b mod 16"]
    by (simp add: strtol16_def stoi_sign_def hex_byte_def)
  also have "\<dots> = int (16 * (unat b div 16) + unat b mod 16)" by (simp only: of_nat_add of_nat_mult of_nat_numeral)
  also have "\<dots> = int (unat b)" by (simp only: mult_div_mod_eq)
  finally show ?thesis .
qed

lemma hexadecimal_read_back: "hexToBytes (bytesToHex bs) = bs"
proof -
  have "hex_bytes (concat (map hex_byte bs)) = bs" and "length (concat (map hex_byte bs)) mod 2 = 0"
  proof (induction bs)
    case (Cons b bs)
    case 1
    have "hex_bytes (hex_byte b @ s) = of_int (strtol16 (hex_byte b)) # hex_bytes s" for s by (simp add: hex_byte_def)
    then show ?case using Cons(1) by (simp add: strtol_hex_byte)
    case 2
    show ?case using Cons(2) by (simp add: hex_byte_def)
  qed simp_all
  then show ?thesis by (simp add: hexToBytes_def bytesToHex_def)
qed

lemma differences_zero: "length xs = length ys \<Longrightarrow> differences r xs ys = 0 \<longleftrightarrow> r = 0 \<and> xs = ys"
proof (induction r xs ys rule: differences.induct)
  case (1 r x xs y ys)
  have "r OR (x XOR y) = 0 \<longleftrightarrow> r = 0 \<and> x = y" 
    by (auto simp: or_eq_0_iff bit_eq_iff bit_or_iff bit_xor_iff)
  then show ?case using 1 by auto
qed auto

lemma secureCompare_equality: "secureCompare a b \<longleftrightarrow> a = b"
proof -
  have "to_bytes a = to_bytes b \<longleftrightarrow> a = b" by (metis of_to_bytes)
  then show ?thesis by (auto simp: secureCompare_def differences_zero to_bytes_def)
qed

text \<open>A password is accepted exactly for the hexadecimal of the key derived from it; what follows a zero of the password
  or of the context does not count.\<close>

theorem password_verified:
  assumes "deriveKeyFromPassword L pw ctx 64 \<lparr>me_initialized = True, me_calls = 0\<rparr> = (Returns k, m)" "lib_init L"
  shows "verifyPasswordYorkshire L pw h ctx = Returns (h = bytesToHex k)"
  using assms by (auto simp: verifyPasswordYorkshire_def hashPasswordYorkshire_def MedusaEncryption_new_def
    ensureInitialized_def secureCompare_equality)

lemma zero_ends_password: "hashPasswordYorkshire L (p @ CHR 0x00 # q) ctx = hashPasswordYorkshire L (p @ CHR 0x00 # r) ctx"
proof -
  have "c_text (p @ CHR 0x00 # q) = c_text (p @ CHR 0x00 # r)" by (induction p) (simp_all add: c_text_def)
  then show ?thesis by (simp add: hashPasswordYorkshire_def deriveKeyFromPassword_def)
qed

lemma password_from_charset:
  assumes "generateSecurePassword L n k = Returns p"
  shows "length p = k \<and> set p \<subseteq> set charset"
proof -
  have "charset ! (unat (b :: byte) mod length charset) \<in> set charset" for b
    by (rule nth_mem) (simp add: charset_def)
  moreover have "charset ! 0 \<in> set charset" by (simp add: charset_def)
  ultimately show ?thesis using assms by (auto simp: generateSecurePassword_def split: if_splits option.splits)
qed

end
