(* ===== verification/Subdomain_Manager.thy ===== *)
theory Subdomain_Manager
  imports Std_Containers Std_Numbers
begin

text \<open>
  The subdomain manager of \<open>Lamia-Libs/src/SUBDOMAIN_MANAGER.cpp\<close>: subdomains with their directories, DNS records,
  certificate scripts and routes, and the C functions over the one manager. The disk is part of the state: the files
  with their contents, the directories asked for and the files made executable. Which directories can be made or
  removed, which files can be opened and the time, which a call reads once, are the record \<open>subdomain_host\<close>; a file
  system error is an exception. The configuration is never read back; \<open>encryptConfig\<close>, which nothing calls, the
  progress messages and the freeing of returned strings are left out.
\<close>

section \<open>State\<close>

record SubdomainConfig =
  sc_subdomain :: string
  sc_domain :: string
  sc_full_domain :: string
  sc_root :: string
  sc_template :: string
  sc_ssl_enabled :: bool
  sc_auto_ssl :: bool
  sc_ssl_provider :: string
  sc_port :: int
  sc_status :: string
  sc_created :: string
  sc_modified :: string
  sc_settings :: "(string, string) umap"

record DNSRecord =
  dns_type :: string
  dns_name :: string
  dns_value :: string
  dns_ttl :: int
  dns_priority :: int

record disk =
  files :: "string \<Rightarrow> string option"
  dirs :: "string list"
  executables :: "string list"

record subdomain_host =
  makes :: "string \<Rightarrow> bool"
  removes :: "string \<Rightarrow> bool"
  opens :: "string \<Rightarrow> bool"
  now_text :: string

record SubdomainManager =
  config_path :: string
  dns_config_path :: string
  base_domain :: string
  subdomains :: "(string, SubdomainConfig) umap"
  dns_records :: "DNSRecord list"
  sm_disk :: disk

definition disk_new :: disk where
  "disk_new = \<lparr>files = Map.empty, dirs = [], executables = []\<rparr>"

text \<open>Loading is not written.\<close>

definition SubdomainManager_new :: "string \<Rightarrow> disk \<Rightarrow> SubdomainManager" where
  "SubdomainManager_new base d = \<lparr>config_path = ''/opt/medusaserv/subdomains.lmae'',
     dns_config_path = ''/opt/medusaserv/dns_records.lmae'', base_domain = base, subdomains = [], dns_records = [], sm_disk = d\<rparr>"

section \<open>The disk\<close>

definition write_file :: "subdomain_host \<Rightarrow> string \<Rightarrow> string \<Rightarrow> disk \<Rightarrow> disk" where
  "write_file h p s d = (if opens h p then d\<lparr>files := (files d)(p \<mapsto> s)\<rparr> else d)"

fun create_directories :: "subdomain_host \<Rightarrow> string list \<Rightarrow> disk \<Rightarrow> bool \<times> disk" where
  "create_directories h [] d = (True, d)"
| "create_directories h (p # ps) d =
     (if makes h p then create_directories h ps (d\<lparr>dirs := dirs d @ [p]\<rparr>) else (False, d))"

definition below :: "string \<Rightarrow> string \<Rightarrow> bool" where
  "below p q \<longleftrightarrow> q = p \<or> take (length p + 1) q = p @ ''/''"

definition remove_all :: "subdomain_host \<Rightarrow> string \<Rightarrow> disk \<Rightarrow> bool \<times> disk" where
  "remove_all h p d =
     (if removes h p
      then (True, \<lparr>files = (\<lambda>q. if below p q then None else files d q), dirs = filter (\<lambda>q. \<not> below p q) (dirs d),
                   executables = filter (\<lambda>q. \<not> below p q) (executables d)\<rparr>)
      else (False, d))"

definition on_disk :: "(disk \<Rightarrow> disk) \<Rightarrow> SubdomainManager \<Rightarrow> SubdomainManager" where
  "on_disk f m = m\<lparr>sm_disk := f (sm_disk m)\<rparr>"

definition lines_out :: "string list \<Rightarrow> string" where
  "lines_out ls = concat (map (\<lambda>l. l @ [nl]) ls)"

fun join_lines :: "string list \<Rightarrow> string" where
  "join_lines [] = []"
| "join_lines [l] = l"
| "join_lines (l # ls) = l @ nl # join_lines ls"

abbreviation quoted :: "string \<Rightarrow> string" where
  "quoted s \<equiv> CHR 0x22 # s @ [CHR 0x22]"

section \<open>Templates\<close>

abbreviation globe :: string where
  "globe \<equiv> [CHR 0xF0, CHR 0x9F, CHR 0x8C, CHR 0x90]"

definition basic_template :: "SubdomainConfig \<Rightarrow> string" where
  \<open>basic_template cf = join_lines [
     ''<!DOCTYPE html>'',
     ''<html lang="en">'',
     ''<head>'',
     ''    <meta charset="UTF-8">'',
     ''    <meta name="viewport" content="width=device-width, initial-scale=1.0">'',
     ''    <title>'' @ sc_subdomain cf @ '' - MedusaServ</title>'',
     ''    <style>'',
     ''        body { font-family: Arial, sans-serif; margin: 0; padding: 2rem; background: #f5f5f5; }'',
     ''        .container { max-width: 800px; margin: 0 auto; background: white; padding: 2rem; border-radius: 8px; box-shadow: 0 2px 10px rgba(0,0,0,0.1); }'',
     ''        h1 { color: #333; border-bottom: 2px solid #764ba2; padding-bottom: 1rem; }'',
     ''        .subdomain-info { background: #f8f9fa; padding: 1rem; border-radius: 4px; margin: 1rem 0; }'',
     ''    </style>'',
     ''</head>'',
     ''<body>'',
     ''    <div class="container">'',
     ''        <h1>Welcome to '' @ sc_subdomain cf @ ''</h1>'',
     ''        <div class="subdomain-info">'',
     ''            <h3>'' @ globe @ '' Subdomain Information</h3>'',
     ''            <p><strong>Domain:</strong> '' @ sc_full_domain cf @ ''</p>'',
     ''            <p><strong>Created:</strong> '' @ sc_created cf @ ''</p>'',
     ''            <p><strong>SSL Enabled:</strong> '' @ (if sc_ssl_enabled cf then ''Yes'' else ''No'') @ ''</p>'',
     ''            <p><strong>Status:</strong> '' @ sc_status cf @ ''</p>'',
     ''        </div>'',
     ''        <p>This subdomain is powered by MedusaServ with full wrap around care!</p>'',
     ''        <p>Edit this page by modifying files in: <code>'' @ sc_root cf @ ''</code></p>'',
     ''    </div>'',
     ''</body>'',
     ''</html>'']\<close>

definition createPortfolioTemplate :: "SubdomainConfig \<Rightarrow> string" where
  \<open>createPortfolioTemplate cf = join_lines [
     ''<!DOCTYPE html>'',
     ''<html lang="en">'',
     ''<head>'',
     ''    <meta charset="UTF-8">'',
     ''    <meta name="viewport" content="width=device-width, initial-scale=1.0">'',
     ''    <title>'' @ sc_subdomain cf @ '' Portfolio</title>'',
     ''    <style>'',
     ''        * { margin: 0; padding: 0; box-sizing: border-box; }'',
     ''        body { font-family: 'Arial', sans-serif; line-height: 1.6; color: #333; }'',
     ''        .hero { background: linear-gradient(135deg, #667eea 0%, #764ba2 100%); color: white; padding: 4rem 0; text-align: center; }'',
     ''        .container { max-width: 1200px; margin: 0 auto; padding: 0 2rem; }'',
     ''        .portfolio-grid { display: grid; grid-template-columns: repeat(auto-fit, minmax(300px, 1fr)); gap: 2rem; margin: 3rem 0; }'',
     ''        .portfolio-item { background: white; border-radius: 8px; overflow: hidden; box-shadow: 0 4px 6px rgba(0,0,0,0.1); }'',
     ''        .portfolio-item img { width: 100%; height: 200px; object-fit: cover; background: #f0f0f0; }'',
     ''        .portfolio-content { padding: 1.5rem; }'',
     ''    </style>'',
     ''</head>'',
     ''<body>'',
     ''    <section class="hero">'',
     ''        <div class="container">'',
     ''            <h1>'' @ sc_subdomain cf @ '' Portfolio</h1>'',
     ''            <p>Showcasing creativity and innovation</p>'',
     ''        </div>'',
     ''    </section>'',
     ''    <div class="container">'',
     ''        <div class="portfolio-grid">'',
     ''            <div class="portfolio-item">'',
     ''                <div style="height: 200px; background: #f0f0f0; display: flex; align-items: center; justify-content: center;">Project 1</div>'',
     ''                <div class="portfolio-content">'',
     ''                    <h3>Sample Project</h3>'',
     ''                    <p>Add your project description here.</p>'',
     ''                </div>'',
     ''            </div>'',
     ''        </div>'',
     ''    </div>'',
     ''</body>'',
     ''</html>'']\<close>

definition createBusinessTemplate :: "SubdomainConfig \<Rightarrow> string" where
  \<open>createBusinessTemplate cf = join_lines [
     ''<!DOCTYPE html>'',
     ''<html lang="en">'',
     ''<head>'',
     ''    <meta charset="UTF-8">'',
     ''    <meta name="viewport" content="width=device-width, initial-scale=1.0">'',
     ''    <title>'' @ sc_subdomain cf @ '' Business</title>'',
     ''    <style>'',
     ''        * { margin: 0; padding: 0; box-sizing: border-box; }'',
     ''        body { font-family: 'Arial', sans-serif; line-height: 1.6; color: #333; }'',
     ''        .header { background: #2c3e50; color: white; padding: 1rem 0; }'',
     ''        .nav { display: flex; justify-content: space-between; align-items: center; }'',
     ''        .hero { background: #34495e; color: white; padding: 4rem 0; text-align: center; }'',
     ''        .services { padding: 4rem 0; background: #f8f9fa; }'',
     ''        .container { max-width: 1200px; margin: 0 auto; padding: 0 2rem; }'',
     ''        .service-grid { display: grid; grid-template-columns: repeat(auto-fit, minmax(250px, 1fr)); gap: 2rem; }'',
     ''        .service-card { background: white; padding: 2rem; border-radius: 8px; text-align: center; box-shadow: 0 2px 10px rgba(0,0,0,0.1); }'',
     ''    </style>'',
     ''</head>'',
     ''<body>'',
     ''    <header class="header">'',
     ''        <div class="container">'',
     ''            <nav class="nav">'',
     ''                <h2>'' @ sc_subdomain cf @ ''</h2>'',
     ''                <div>Professional Business Solutions</div>'',
     ''            </nav>'',
     ''        </div>'',
     ''    </header>'',
     ''    <section class="hero">'',
     ''        <div class="container">'',
     ''            <h1>Welcome to '' @ sc_subdomain cf @ ''</h1>'',
     ''            <p>Your trusted business partner</p>'',
     ''        </div>'',
     ''    </section>'',
     ''    <section class="services">'',
     ''        <div class="container">'',
     ''            <h2 style="text-align: center; margin-bottom: 3rem;">Our Services</h2>'',
     ''            <div class="service-grid">'',
     ''                <div class="service-card">'',
     ''                    <h3>Service 1</h3>'',
     ''                    <p>Description of your first service offering.</p>'',
     ''                </div>'',
     ''                <div class="service-card">'',
     ''                    <h3>Service 2</h3>'',
     ''                    <p>Description of your second service offering.</p>'',
     ''                </div>'',
     ''            </div>'',
     ''        </div>'',
     ''    </section>'',
     ''</body>'',
     ''</html>'']\<close>

definition template_content :: "SubdomainConfig \<Rightarrow> string" where
  "template_content cf =
     (if sc_template cf = ''basic'' then basic_template cf
      else if sc_template cf = ''portfolio'' then createPortfolioTemplate cf
      else if sc_template cf = ''business'' then createBusinessTemplate cf
      else [])"

definition createTemplateFile :: "subdomain_host \<Rightarrow> SubdomainConfig \<Rightarrow> disk \<Rightarrow> disk" where
  "createTemplateFile h cf = write_file h (sc_root cf @ ''/index.html'') (template_content cf)"

definition createSubdomainDirectory :: "subdomain_host \<Rightarrow> SubdomainConfig \<Rightarrow> disk \<Rightarrow> bool \<times> disk" where
  "createSubdomainDirectory h cf d =
     (case create_directories h (map (\<lambda>s. sc_root cf @ s) [[], ''/assets'', ''/css'', ''/js'', ''/images'']) d of
        (ok, d) \<Rightarrow> if ok then (True, createTemplateFile h cf d) else (False, d))"

section \<open>Saving\<close>

definition subdomain_entry :: "string \<times> SubdomainConfig \<Rightarrow> string" where
  "subdomain_entry e =
     (case e of (k, cf) \<Rightarrow>
        lines_out [''    '' @ quoted k @ '': {'',
          ''      '' @ quoted ''subdomain'' @ '': '' @ quoted (sc_subdomain cf) @ '','',
          ''      '' @ quoted ''domain'' @ '': '' @ quoted (sc_domain cf) @ '','',
          ''      '' @ quoted ''root_path'' @ '': '' @ quoted (sc_root cf) @ '','',
          ''      '' @ quoted ''template_type'' @ '': '' @ quoted (sc_template cf) @ '','',
          ''      '' @ quoted ''ssl_enabled'' @ '': '' @ (if sc_ssl_enabled cf then ''true'' else ''false'') @ '','',
          ''      '' @ quoted ''status'' @ '': '' @ quoted (sc_status cf) @ '','',
          ''      '' @ quoted ''created_date'' @ '': '' @ quoted (sc_created cf)]
        @ ''    }'')"

fun comma_separated :: "string list \<Rightarrow> string" where
  "comma_separated [] = []"
| "comma_separated [s] = s"
| "comma_separated (s # ss) = s @ '','' @ nl # comma_separated ss"

definition config_text :: "SubdomainManager \<Rightarrow> string" where
  "config_text m =
     lines_out [''{'', ''  '' @ quoted ''encrypted'' @ '': true,'', ''  '' @ quoted ''subdomains'' @ '': {'']
     @ comma_separated (map subdomain_entry (subdomains m)) @ nl # lines_out [''  }'', ''}'']"

definition saveConfiguration :: "subdomain_host \<Rightarrow> SubdomainManager \<Rightarrow> SubdomainManager" where
  "saveConfiguration h m = on_disk (write_file h (config_path m) (config_text m)) m"

definition dns_entry :: "DNSRecord \<Rightarrow> string" where
  "dns_entry r =
     lines_out [''    {'',
       ''      '' @ quoted ''type'' @ '': '' @ quoted (dns_type r) @ '','',
       ''      '' @ quoted ''name'' @ '': '' @ quoted (dns_name r) @ '','',
       ''      '' @ quoted ''value'' @ '': '' @ quoted (dns_value r) @ '','',
       ''      '' @ quoted ''ttl'' @ '': '' @ to_string_int (dns_ttl r)]
     @ ''    }''"

definition dns_text :: "SubdomainManager \<Rightarrow> string" where
  "dns_text m =
     lines_out [''{'', ''  '' @ quoted ''dns_records'' @ '': ['']
     @ (if dns_records m = [] then [] else comma_separated (map dns_entry (dns_records m)) @ [nl])
     @ lines_out [''  ]'', ''}'']"

definition saveDNSConfiguration :: "subdomain_host \<Rightarrow> SubdomainManager \<Rightarrow> SubdomainManager" where
  "saveDNSConfiguration h m = on_disk (write_file h (dns_config_path m) (dns_text m)) m"

definition zone_line :: "string \<Rightarrow> DNSRecord \<Rightarrow> string" where
  "zone_line base r =
     dns_name r @ ''.'' @ base @ ''. '' @ to_string_int (dns_ttl r) @ '' IN '' @ dns_type r @ '' '' @ dns_value r"

definition zone_text :: "string \<Rightarrow> string \<Rightarrow> DNSRecord list \<Rightarrow> string" where
  "zone_text base time rs =
     lines_out ([''; DNS Zone file for '' @ base, ''; Generated by MedusaServ Subdomain Manager'', ''; '' @ time, []]
       @ map (zone_line base) rs)"

definition zone_path :: string where
  "zone_path = ''/opt/medusaserv/dns_zone.txt''"

definition generateDNSZoneFile :: "subdomain_host \<Rightarrow> SubdomainManager \<Rightarrow> SubdomainManager" where
  "generateDNSZoneFile h m = on_disk (write_file h zone_path (zone_text (base_domain m) (now_text h) (dns_records m))) m"

section \<open>Records and certificates\<close>

definition createDNSRecord :: "subdomain_host \<Rightarrow> SubdomainConfig \<Rightarrow> SubdomainManager \<Rightarrow> SubdomainManager" where
  "createDNSRecord h cf m =
     (let r = \<lparr>dns_type = ''A'', dns_name = sc_subdomain cf, dns_value = ''172.236.28.155'', dns_ttl = 3600, dns_priority = 0\<rparr>;
          m = m\<lparr>dns_records := dns_records m @ [r]\<rparr>
      in generateDNSZoneFile h (saveDNSConfiguration h m))"

definition removeDNSRecord :: "subdomain_host \<Rightarrow> SubdomainConfig \<Rightarrow> SubdomainManager \<Rightarrow> SubdomainManager" where
  "removeDNSRecord h cf m =
     (let m = m\<lparr>dns_records := filter (\<lambda>r. dns_name r \<noteq> sc_subdomain cf) (dns_records m)\<rparr>
      in generateDNSZoneFile h (saveDNSConfiguration h m))"

definition ssl_dir :: "SubdomainConfig \<Rightarrow> string" where
  "ssl_dir cf = ''/opt/medusaserv/ssl/'' @ sc_subdomain cf"

definition cert_script :: "SubdomainConfig \<Rightarrow> string" where
  "cert_script cf =
     lines_out [''#!/bin/bash'', ''# SSL Certificate generation for '' @ sc_full_domain cf,
       ''certbot certonly --webroot -w '' @ sc_root cf @ '' -d '' @ sc_full_domain cf @ '' --non-interactive --agree-tos'']"

definition createSSLCertificate :: "subdomain_host \<Rightarrow> SubdomainConfig \<Rightarrow> disk \<Rightarrow> bool outcome \<times> disk" where
  "createSSLCertificate h cf d =
     (let p = ssl_dir cf @ ''/generate_cert.sh'' in
      case create_directories h [ssl_dir cf] d of
        (False, d) \<Rightarrow> (Throws ''create_directories'', d)
      | (True, d) \<Rightarrow>
          if opens h p then (Returns True, (write_file h p (cert_script cf) d)\<lparr>executables := executables d @ [p]\<rparr>)
          else (Returns False, d))"

definition removeSSLCertificate :: "subdomain_host \<Rightarrow> SubdomainConfig \<Rightarrow> disk \<Rightarrow> bool \<times> disk" where
  "removeSSLCertificate h cf = remove_all h (ssl_dir cf)"

definition removeSubdomainDirectory :: "subdomain_host \<Rightarrow> SubdomainConfig \<Rightarrow> disk \<Rightarrow> bool \<times> disk" where
  "removeSubdomainDirectory h cf d = (if take 15 (sc_root cf) = ''web/subdomains/'' then remove_all h (sc_root cf) d else (True, d))"

section \<open>Operations\<close>

definition name_char :: "char \<Rightarrow> bool" where
  "name_char c \<longleftrightarrow> isalnum c \<or> c = CHR ''-''"

definition validateSubdomainName :: "string \<Rightarrow> bool" where
  "validateSubdomainName s \<longleftrightarrow>
     (case s of
        [] \<Rightarrow> False
      | c # r \<Rightarrow> isalnum c \<and> (r = [] \<or> (isalnum (last r) \<and> list_all name_char (butlast r) \<and> length (butlast r) \<le> 61)))
     \<and> length s \<le> 63"

definition SubdomainConfig_new :: "string \<Rightarrow> string \<Rightarrow> string \<Rightarrow> string \<Rightarrow> SubdomainConfig" where
  "SubdomainConfig_new time base subdomain template_type =
     \<lparr>sc_subdomain = subdomain, sc_domain = base, sc_full_domain = subdomain @ ''.'' @ base,
      sc_root = ''web/subdomains/'' @ subdomain, sc_template = template_type, sc_ssl_enabled = True, sc_auto_ssl = True,
      sc_ssl_provider = ''letsencrypt'', sc_port = 80, sc_status = ''active'', sc_created = time, sc_modified = time, sc_settings = []\<rparr>"

definition createSubdomain :: "subdomain_host \<Rightarrow> string \<Rightarrow> string \<Rightarrow> SubdomainManager \<Rightarrow> bool outcome \<times> SubdomainManager" where
  "createSubdomain h subdomain template_type m =
     (let full_domain = subdomain @ ''.'' @ base_domain m; cf = SubdomainConfig_new (now_text h) (base_domain m) subdomain template_type in
      if \<not> validateSubdomainName subdomain \<or> map_of (subdomains m) full_domain \<noteq> None then (Returns False, m)
      else case createSubdomainDirectory h cf (sm_disk m) of
          (False, d) \<Rightarrow> (Returns False, m\<lparr>sm_disk := d\<rparr>)
        | (True, d) \<Rightarrow>
            let m = createDNSRecord h cf (m\<lparr>sm_disk := d\<rparr>) in
            (case createSSLCertificate h cf (sm_disk m) of
               (Returns queued, d) \<Rightarrow>
                 (Returns True, saveConfiguration h (m\<lparr>sm_disk := d, subdomains := um_assign full_domain cf (subdomains m)\<rparr>))
             | (Throws e, d) \<Rightarrow> (Throws e, m\<lparr>sm_disk := d\<rparr>)
             | (Undefined e, d) \<Rightarrow> (Undefined e, m\<lparr>sm_disk := d\<rparr>)))"

definition deleteSubdomain :: "subdomain_host \<Rightarrow> string \<Rightarrow> SubdomainManager \<Rightarrow> bool outcome \<times> SubdomainManager" where
  "deleteSubdomain h full_domain m =
     (case map_of (subdomains m) full_domain of
        None \<Rightarrow> (Returns False, m)
      | Some cf \<Rightarrow>
          let m = removeDNSRecord h cf m in
          (case removeSSLCertificate h cf (sm_disk m) of
             (False, d) \<Rightarrow> (Throws ''remove_all'', m\<lparr>sm_disk := d\<rparr>)
           | (True, d) \<Rightarrow>
               (case removeSubdomainDirectory h cf d of
                  (False, d) \<Rightarrow> (Throws ''remove_all'', m\<lparr>sm_disk := d\<rparr>)
                | (True, d) \<Rightarrow>
                    (Returns True, saveConfiguration h (m\<lparr>sm_disk := d, subdomains := um_erase full_domain (subdomains m)\<rparr>)))))"

definition listSubdomains :: "SubdomainManager \<Rightarrow> SubdomainConfig list" where
  "listSubdomains m = map snd (subdomains m)"

definition apply_update :: "string \<times> string \<Rightarrow> SubdomainConfig \<Rightarrow> SubdomainConfig" where
  "apply_update u cf =
     (if fst u = ''template_type'' then cf\<lparr>sc_template := snd u\<rparr>
      else if fst u = ''ssl_enabled'' then cf\<lparr>sc_ssl_enabled := (snd u = ''true'')\<rparr>
      else if fst u = ''status'' then cf\<lparr>sc_status := snd u\<rparr>
      else cf\<lparr>sc_settings := um_assign (fst u) (snd u) (sc_settings cf)\<rparr>)"

definition updateSubdomain ::
  "subdomain_host \<Rightarrow> string \<Rightarrow> (string, string) umap \<Rightarrow> SubdomainManager \<Rightarrow> bool \<times> SubdomainManager" where
  "updateSubdomain h full_domain updates m =
     (case map_of (subdomains m) full_domain of
        None \<Rightarrow> (False, m)
      | Some cf \<Rightarrow>
          let cf = (fold apply_update updates cf)\<lparr>sc_modified := now_text h\<rparr>
          in (True, saveConfiguration h (m\<lparr>subdomains := um_assign full_domain cf (subdomains m)\<rparr>)))"

definition getSubdomainRoute :: "string \<Rightarrow> string \<Rightarrow> SubdomainManager \<Rightarrow> string" where
  "getSubdomainRoute hostname path m =
     (case map_of (subdomains m) hostname of
        None \<Rightarrow> []
      | Some cf \<Rightarrow>
          if sc_status cf \<noteq> ''active'' then []
          else sc_root cf @ path @ (if path = ''/'' then ''index.html'' else []))"

section \<open>The C functions\<close>

text \<open>Before the first initialisation there is only the disk; a null pointer is None.\<close>

datatype subdomain_globals = No_manager disk | Managed SubdomainManager

definition initialize_subdomain_manager :: "string option \<Rightarrow> subdomain_globals \<Rightarrow> int \<times> subdomain_globals" where
  "initialize_subdomain_manager base g =
     (let d = (case g of No_manager d \<Rightarrow> d | Managed m \<Rightarrow> sm_disk m)
      in (1, Managed (SubdomainManager_new (case base of None \<Rightarrow> ''poweredbymedusa.com'' | Some b \<Rightarrow> b) d)))"

definition as_int :: "bool outcome \<Rightarrow> int outcome" where
  "as_int r = outcome_bind r (\<lambda>b. Returns (if b then 1 else 0))"

definition create_subdomain ::
  "subdomain_host \<Rightarrow> string option \<Rightarrow> string option \<Rightarrow> subdomain_globals \<Rightarrow> int outcome \<times> subdomain_globals" where
  "create_subdomain h subdomain template_type g =
     (case g of
        No_manager d \<Rightarrow> (Returns 0, g)
      | Managed m \<Rightarrow>
          (case subdomain of
             None \<Rightarrow> (Undefined ''std::string(nullptr)'', g)
           | Some s \<Rightarrow>
               (case createSubdomain h s (case template_type of None \<Rightarrow> ''basic'' | Some t \<Rightarrow> t) m of
                  (r, m) \<Rightarrow> (as_int r, Managed m))))"

definition delete_subdomain :: "subdomain_host \<Rightarrow> string option \<Rightarrow> subdomain_globals \<Rightarrow> int outcome \<times> subdomain_globals" where
  "delete_subdomain h full_domain g =
     (case g of
        No_manager d \<Rightarrow> (Returns 0, g)
      | Managed m \<Rightarrow>
          (case full_domain of
             None \<Rightarrow> (Undefined ''std::string(nullptr)'', g)
           | Some s \<Rightarrow> (case deleteSubdomain h s m of (r, m) \<Rightarrow> (as_int r, Managed m))))"

definition route_subdomain :: "string option \<Rightarrow> string option \<Rightarrow> subdomain_globals \<Rightarrow> string option outcome" where
  "route_subdomain hostname path g =
     (case g of
        No_manager d \<Rightarrow> Returns None
      | Managed m \<Rightarrow>
          (case (hostname, path) of
             (Some hn, Some p) \<Rightarrow>
               let r = getSubdomainRoute hn p m in Returns (if r = [] then None else Some r)
           | _ \<Rightarrow> Undefined ''std::string(nullptr)''))"

end
