(* ===== verification/Subdomain_Sessions.thy ===== *)
theory Subdomain_Sessions
  imports Subdomain_Manager Pathing_Engine
begin

text \<open>
  That the subdomain manager answers as a map from full domains to directory and status, that its zone file lists
  the subdomains, each once; and what is left behind when a certificate cannot be made, at a new initialisation, and
  by paths and names the manager accepts.
\<close>

section \<open>The map\<close>

datatype subdomain_op =
    Create_sub string string
  | Delete_sub string
  | Update_sub string "(string, string) umap"
  | Route_sub string string

datatype subdomain_answer = Done "bool outcome" | At string

definition sub_step :: "subdomain_host \<times> subdomain_op \<Rightarrow> SubdomainManager \<Rightarrow> subdomain_answer \<times> SubdomainManager" where
  "sub_step e m =
     (case e of (h, p) \<Rightarrow>
        (case p of
           Create_sub s t \<Rightarrow> map_prod Done id (createSubdomain h s t m)
         | Delete_sub fd \<Rightarrow> map_prod Done id (deleteSubdomain h fd m)
         | Update_sub fd us \<Rightarrow> map_prod (\<lambda>b. Done (Returns b)) id (updateSubdomain h fd us m)
         | Route_sub hn path \<Rightarrow> (At (getSubdomainRoute hn path m), m)))"

type_synonym sub_map = "string \<Rightarrow> (string \<times> string) option"

definition new_status :: "(string, string) umap \<Rightarrow> string \<Rightarrow> string" where
  "new_status us st = fold (\<lambda>u st. if fst u = ''status'' then snd u else st) us st"

definition sub_spec :: "string \<Rightarrow> subdomain_host \<times> subdomain_op \<Rightarrow> sub_map \<Rightarrow> subdomain_answer \<times> sub_map" where
  "sub_spec base e f =
     (case snd e of
        Create_sub s t \<Rightarrow>
          if validateSubdomainName s \<and> f (s @ ''.'' @ base) = None
          then (Done (Returns True), f(s @ ''.'' @ base \<mapsto> (''web/subdomains/'' @ s, ''active'')))
          else (Done (Returns False), f)
      | Delete_sub fd \<Rightarrow> if f fd = None then (Done (Returns False), f) else (Done (Returns True), f(fd := None))
      | Update_sub fd us \<Rightarrow>
          (case f fd of
             None \<Rightarrow> (Done (Returns False), f)
           | Some (dir, st) \<Rightarrow> (Done (Returns True), f(fd \<mapsto> (dir, new_status us st))))
      | Route_sub hn path \<Rightarrow>
          (case f hn of
             Some (dir, st) \<Rightarrow> (At (if st = ''active'' then dir @ path @ (if path = ''/'' then ''index.html'' else []) else []), f)
           | None \<Rightarrow> (At [], f)))"

definition directories_work :: "subdomain_host \<times> subdomain_op \<Rightarrow> bool" where
  "directories_work e \<longleftrightarrow> makes (fst e) = (\<lambda>p. True) \<and> removes (fst e) = (\<lambda>p. True)"

definition shown :: "SubdomainManager \<Rightarrow> sub_map" where
  "shown m k = map_option (\<lambda>cf. (sc_root cf, sc_status cf)) (map_of (subdomains m) k)"

definition standard_paths :: "SubdomainManager \<Rightarrow> bool" where
  "standard_paths m \<longleftrightarrow> config_path m = ''/opt/medusaserv/subdomains.lmae'' \<and> dns_config_path m = ''/opt/medusaserv/dns_records.lmae''"

text \<open>What an operation leaves: the subdomains, the records, and the zone file.\<close>

definition leaves ::
  "SubdomainManager \<Rightarrow> SubdomainManager \<Rightarrow> (string, SubdomainConfig) umap \<Rightarrow> DNSRecord list \<Rightarrow> string option \<Rightarrow> bool" where
  "leaves m m' subs recs zone \<longleftrightarrow>
     subdomains m' = subs \<and> dns_records m' = recs \<and> base_domain m' = base_domain m \<and> standard_paths m'
     \<and> files (sm_disk m') zone_path = zone"

definition zone_after :: "subdomain_host \<Rightarrow> SubdomainManager \<Rightarrow> DNSRecord list \<Rightarrow> string option" where
  "zone_after h m recs =
     (if opens h zone_path then Some (zone_text (base_domain m) (now_text h) recs) else files (sm_disk m) zone_path)"

definition a_record :: "string \<Rightarrow> DNSRecord" where
  "a_record s = \<lparr>dns_type = ''A'', dns_name = s, dns_value = ''172.236.28.155'', dns_ttl = 3600, dns_priority = 0\<rparr>"

lemma leaves_saved: "leaves m m' subs recs zone \<Longrightarrow> leaves m (saveConfiguration h m') subs recs zone"
  by (auto simp: leaves_def saveConfiguration_def on_disk_def write_file_def standard_paths_def zone_path_def)

lemma leaves_record:
  assumes "leaves m m' subs recs (files (sm_disk m) zone_path)"
  shows "leaves m (createDNSRecord h cf m') subs (recs @ [a_record (sc_subdomain cf)]) (zone_after h m (recs @ [a_record (sc_subdomain cf)]))"
    and "leaves m (removeDNSRecord h cf m') subs (filter (\<lambda>r. dns_name r \<noteq> sc_subdomain cf) recs)
      (zone_after h m (filter (\<lambda>r. dns_name r \<noteq> sc_subdomain cf) recs))"
  using assms
  by (auto simp: leaves_def createDNSRecord_def removeDNSRecord_def saveDNSConfiguration_def generateDNSZoneFile_def a_record_def
      on_disk_def write_file_def standard_paths_def zone_path_def zone_after_def Let_def)

lemma leaves_disk:
  "leaves m m' subs recs zone \<Longrightarrow> files d zone_path = zone \<Longrightarrow> leaves m (m'\<lparr>sm_disk := d\<rparr>) subs recs zone"
  "leaves m m' subs recs zone \<Longrightarrow> leaves m (m'\<lparr>subdomains := subs'\<rparr>) subs' recs zone"
  by (auto simp: leaves_def standard_paths_def)

lemma directories_made: "makes h = (\<lambda>p. True) \<Longrightarrow> create_directories h ps d = (True, d\<lparr>dirs := dirs d @ ps\<rparr>)"
  by (induction ps arbitrary: d) simp_all

lemma directory_made:
  "makes h = (\<lambda>p. True) \<Longrightarrow> sc_root cf = ''web/subdomains/'' @ s
    \<Longrightarrow> \<exists>d'. createSubdomainDirectory h cf d = (True, d') \<and> files d' zone_path = files d zone_path"
  by (auto simp: createSubdomainDirectory_def createTemplateFile_def directories_made write_file_def zone_path_def
      simp del: create_directories.simps)

lemma certificate_made:
  "makes h = (\<lambda>p. True) \<Longrightarrow> \<exists>b d'. createSSLCertificate h cf d = (Returns b, d') \<and> files d' zone_path = files d zone_path"
  by (auto simp: createSSLCertificate_def directories_made write_file_def zone_path_def ssl_dir_def Let_def
      simp del: create_directories.simps)

lemma directories_removed:
  "removes h = (\<lambda>p. True) \<Longrightarrow> \<exists>d'. removeSSLCertificate h cf d = (True, d') \<and> files d' zone_path = files d zone_path"
  "removes h = (\<lambda>p. True) \<Longrightarrow> \<exists>d'. removeSubdomainDirectory h cf d = (True, d') \<and> files d' zone_path = files d zone_path"
proof -
  show "removes h = (\<lambda>p. True) \<Longrightarrow> \<exists>d'. removeSSLCertificate h cf d = (True, d') \<and> files d' zone_path = files d zone_path"
    by (simp add: removeSSLCertificate_def remove_all_def below_def zone_path_def ssl_dir_def)
  have "\<not> below (sc_root cf) zone_path" if "take 15 (sc_root cf) = ''web/subdomains/''"
  proof -
    from that obtain r where "sc_root cf = ''web/subdomains/'' @ r" by (metis append_take_drop_id)
    then show ?thesis by (simp add: below_def zone_path_def)
  qed
  then show "removes h = (\<lambda>p. True) \<Longrightarrow> \<exists>d'. removeSubdomainDirectory h cf d = (True, d') \<and> files d' zone_path = files d zone_path"
    by (simp add: removeSubdomainDirectory_def remove_all_def)
qed

lemma leaves_refl: "standard_paths m \<Longrightarrow> leaves m m (subdomains m) (dns_records m) (files (sm_disk m) zone_path)"
  by (simp add: leaves_def)

lemma leaves_end:
  assumes "leaves m m1 subs recs zone" "files d zone_path = files (sm_disk m1) zone_path"
  shows "leaves m (saveConfiguration h (m1\<lparr>sm_disk := d, subdomains := subs'\<rparr>)) subs' recs zone"
proof -
  have "files d zone_path = zone" using assms by (simp add: leaves_def)
  then have "leaves m (m1\<lparr>sm_disk := d\<rparr>) subs recs zone" by (rule leaves_disk(1) [OF assms(1)])
  then have "leaves m ((m1\<lparr>sm_disk := d\<rparr>)\<lparr>subdomains := subs'\<rparr>) subs' recs zone" by (rule leaves_disk(2))
  then show ?thesis using leaves_saved by simp
qed

lemma leaves_subs: "leaves m m' subs recs zone \<Longrightarrow> subdomains m' = subs"
  by (simp add: leaves_def)

lemma create_works:
  assumes "makes h = (\<lambda>p. True)" "standard_paths m" "validateSubdomainName s" "map_of (subdomains m) (s @ ''.'' @ base_domain m) = None"
  shows "\<exists>m'. createSubdomain h s t m = (Returns True, m')
    \<and> leaves m m' (um_assign (s @ ''.'' @ base_domain m) (SubdomainConfig_new (now_text h) (base_domain m) s t) (subdomains m))
        (dns_records m @ [a_record s]) (zone_after h m (dns_records m @ [a_record s]))"
proof -
  define cf where "cf = SubdomainConfig_new (now_text h) (base_domain m) s t"
  have cf: "sc_root cf = ''web/subdomains/'' @ s" "sc_subdomain cf = s" by (simp_all add: cf_def SubdomainConfig_new_def)
  obtain d where d: "createSubdomainDirectory h cf (sm_disk m) = (True, d)" "files d zone_path = files (sm_disk m) zone_path"
    using directory_made [OF assms(1) cf(1)] by blast
  define m1 where "m1 = createDNSRecord h cf (m\<lparr>sm_disk := d\<rparr>)"
  have m1: "leaves m m1 (subdomains m) (dns_records m @ [a_record s]) (zone_after h m (dns_records m @ [a_record s]))"
    unfolding m1_def using leaves_record(1) [OF leaves_disk(1) [OF leaves_refl [OF assms(2)] d(2)], of h cf] cf(2) by simp
  obtain b d' where d': "createSSLCertificate h cf (sm_disk m1) = (Returns b, d')" "files d' zone_path = files (sm_disk m1) zone_path"
    using certificate_made [OF assms(1)] by blast
  show ?thesis using assms(3,4) d(1) d'(1) leaves_end [OF m1 d'(2)] leaves_subs [OF m1]
    by (simp add: createSubdomain_def cf_def [symmetric] m1_def [symmetric])
qed

lemma delete_works:
  assumes "removes h = (\<lambda>p. True)" "standard_paths m" "map_of (subdomains m) fd = Some cf"
  shows "\<exists>m'. deleteSubdomain h fd m = (Returns True, m')
    \<and> leaves m m' (um_erase fd (subdomains m)) (filter (\<lambda>r. dns_name r \<noteq> sc_subdomain cf) (dns_records m))
        (zone_after h m (filter (\<lambda>r. dns_name r \<noteq> sc_subdomain cf) (dns_records m)))"
proof -
  let ?recs = "filter (\<lambda>r. dns_name r \<noteq> sc_subdomain cf) (dns_records m)"
  define m1 where "m1 = removeDNSRecord h cf m"
  have m1: "leaves m m1 (subdomains m) ?recs (zone_after h m ?recs)"
    unfolding m1_def by (rule leaves_record(2) [OF leaves_refl [OF assms(2)]])
  obtain d where d: "removeSSLCertificate h cf (sm_disk m1) = (True, d)" "files d zone_path = files (sm_disk m1) zone_path"
    using directories_removed(1) [OF assms(1)] by blast
  obtain d' where d': "removeSubdomainDirectory h cf d = (True, d')" "files d' zone_path = files d zone_path"
    using directories_removed(2) [OF assms(1)] by blast
  have "files d' zone_path = files (sm_disk m1) zone_path" using d(2) d'(2) by simp
  then show ?thesis using assms(3) d(1) d'(1) leaves_end [OF m1] leaves_subs [OF m1]
    by (simp add: deleteSubdomain_def m1_def [symmetric])
qed

lemma update_works:
  assumes "standard_paths m" "map_of (subdomains m) fd = Some cf"
  shows "\<exists>m'. updateSubdomain h fd us m = (True, m')
    \<and> leaves m m' (um_assign fd ((fold apply_update us cf)\<lparr>sc_modified := now_text h\<rparr>) (subdomains m)) (dns_records m)
        (files (sm_disk m) zone_path)"
  using leaves_saved leaves_disk(2) [OF leaves_refl [OF assms(1)]] assms(2)
  by (simp add: updateSubdomain_def Let_def)

section \<open>Sessions\<close>

context simulation
begin

lemma rel_run:
  "rel s m \<Longrightarrow> \<forall>e\<in>set es. ok e \<Longrightarrow> rel (fold (\<lambda>e s. snd (step e s)) es s) (fold (\<lambda>e m. snd (spec e m)) es m)"
  by (induction es arbitrary: s m) (simp_all add: rel_step)

end

lemma updated_status: "sc_status (fold apply_update us cf) = new_status us (sc_status cf) \<and> sc_root (fold apply_update us cf) = sc_root cf
  \<and> sc_subdomain (fold apply_update us cf) = sc_subdomain cf"
proof (induction us arbitrary: cf)
  case (Cons u us)
  show ?case using Cons [of "apply_update u cf"] by (simp add: new_status_def apply_update_def)
qed (simp add: new_status_def)

definition sub_rel :: "string \<Rightarrow> SubdomainManager \<Rightarrow> sub_map \<Rightarrow> bool" where
  "sub_rel base m f \<longleftrightarrow> um_inv (subdomains m) \<and> base_domain m = base \<and> standard_paths m \<and> f = shown m"

lemma leaves_rel:
  "leaves m m' subs recs zone \<Longrightarrow> um_inv subs \<Longrightarrow> base_domain m = base
    \<Longrightarrow> f = (\<lambda>k. map_option (\<lambda>cf. (sc_root cf, sc_status cf)) (map_of subs k)) \<Longrightarrow> sub_rel base m' f"
  by (auto simp: sub_rel_def leaves_def shown_def)

lemma refused: "\<not> (validateSubdomainName s \<and> map_of (subdomains m) (s @ ''.'' @ base_domain m) = None)
  \<Longrightarrow> createSubdomain h s t m = (Returns False, m)"
  by (simp add: createSubdomain_def Let_def)

lemma unknown:
  "map_of (subdomains m) fd = None \<Longrightarrow> deleteSubdomain h fd m = (Returns False, m)"
  "map_of (subdomains m) fd = None \<Longrightarrow> updateSubdomain h fd us m = (False, m)"
  by (simp_all add: deleteSubdomain_def updateSubdomain_def)

lemma create_spec:
  assumes "makes h = (\<lambda>p. True)" "sub_rel base m f"
  shows "fst (sub_step (h, Create_sub s t) m) = fst (sub_spec base (h, Create_sub s t) f)
    \<and> sub_rel base (snd (sub_step (h, Create_sub s t) m)) (snd (sub_spec base (h, Create_sub s t) f))"
proof (cases "validateSubdomainName s \<and> map_of (subdomains m) (s @ ''.'' @ base_domain m) = None")
  case True
  then obtain m' where c: "createSubdomain h s t m = (Returns True, m')"
    "leaves m m' (um_assign (s @ ''.'' @ base_domain m) (SubdomainConfig_new (now_text h) (base_domain m) s t) (subdomains m))
        (dns_records m @ [a_record s]) (zone_after h m (dns_records m @ [a_record s]))"
    using create_works assms by (metis sub_rel_def)
  have "sub_rel base m' (f(s @ ''.'' @ base \<mapsto> (''web/subdomains/'' @ s, ''active'')))"
    by (rule leaves_rel [OF c(2)])
      (use assms(2) in \<open>auto simp: sub_rel_def um_simps shown_def SubdomainConfig_new_def\<close>)
  then show ?thesis using c(1) True assms(2) by (simp add: sub_step_def sub_spec_def sub_rel_def shown_def)
next
  case False
  then show ?thesis using assms(2) refused [OF False]
    by (auto simp: sub_step_def sub_spec_def sub_rel_def shown_def)
qed

lemma delete_spec:
  assumes "removes h = (\<lambda>p. True)" "sub_rel base m f"
  shows "fst (sub_step (h, Delete_sub fd) m) = fst (sub_spec base (h, Delete_sub fd) f)
    \<and> sub_rel base (snd (sub_step (h, Delete_sub fd) m)) (snd (sub_spec base (h, Delete_sub fd) f))"
proof (cases "map_of (subdomains m) fd")
  case None
  then show ?thesis using assms(2) unknown(1) [OF None] by (simp add: sub_step_def sub_spec_def sub_rel_def shown_def)
next
  case (Some cf)
  then obtain m' recs zone where d: "deleteSubdomain h fd m = (Returns True, m')"
    "leaves m m' (um_erase fd (subdomains m)) recs zone"
    using delete_works assms by (metis sub_rel_def)
  have "sub_rel base m' (f(fd := None))"
    by (rule leaves_rel [OF d(2)]) (use assms(2) in \<open>auto simp: sub_rel_def um_simps shown_def\<close>)
  then show ?thesis using d(1) Some assms(2) by (simp add: sub_step_def sub_spec_def sub_rel_def shown_def)
qed

lemma update_spec:
  assumes "sub_rel base m f"
  shows "fst (sub_step (h, Update_sub fd us) m) = fst (sub_spec base (h, Update_sub fd us) f)
    \<and> sub_rel base (snd (sub_step (h, Update_sub fd us) m)) (snd (sub_spec base (h, Update_sub fd us) f))"
proof (cases "map_of (subdomains m) fd")
  case None
  then show ?thesis using assms unknown(2) [OF None] by (simp add: sub_step_def sub_spec_def sub_rel_def shown_def)
next
  case (Some cf)
  then obtain m' recs zone where d: "updateSubdomain h fd us m = (True, m')"
    "leaves m m' (um_assign fd ((fold apply_update us cf)\<lparr>sc_modified := now_text h\<rparr>) (subdomains m)) recs zone"
    using update_works assms by (metis sub_rel_def)
  have "sub_rel base m' (f(fd \<mapsto> (sc_root cf, new_status us (sc_status cf))))"
    by (rule leaves_rel [OF d(2)])
      (use assms Some updated_status [of us cf] in \<open>auto simp: sub_rel_def um_simps shown_def\<close>)
  then show ?thesis using d(1) Some assms by (simp add: sub_step_def sub_spec_def sub_rel_def shown_def)
qed

lemma route_spec:
  assumes "sub_rel base m f"
  shows "sub_step (h, Route_sub hn path) m = (fst (sub_spec base (h, Route_sub hn path) f), m)
    \<and> snd (sub_spec base (h, Route_sub hn path) f) = f"
  using assms by (auto simp: sub_step_def sub_spec_def sub_rel_def shown_def getSubdomainRoute_def split: option.splits)

interpretation subs: simulation sub_step "sub_spec base" directories_work "sub_rel base" for base
proof
  fix m f e
  assume r: "sub_rel base m f" and "directories_work e"
  moreover obtain h p where e: "e = (h, p)" by fastforce
  ultimately have h: "makes h = (\<lambda>p. True)" "removes h = (\<lambda>p. True)" by (simp_all add: directories_work_def)
  have "fst (sub_step e m) = fst (sub_spec base e f) \<and> sub_rel base (snd (sub_step e m)) (snd (sub_spec base e f))"
  proof (cases p)
    case (Create_sub s t)
    then show ?thesis using create_spec [OF h(1) r] e by simp
  next
    case (Delete_sub fd)
    then show ?thesis using delete_spec [OF h(2) r] e by simp
  next
    case (Update_sub fd us)
    then show ?thesis using update_spec [OF r] e by simp
  next
    case (Route_sub hn path)
    then show ?thesis using route_spec [OF r] e r by simp
  qed
  then show "fst (sub_step e m) = fst (sub_spec base e f)" "sub_rel base (snd (sub_step e m)) (snd (sub_spec base e f))"
    by simp_all
qed

lemma new_rel: "sub_rel base (SubdomainManager_new base d) Map.empty"
  by (auto simp: sub_rel_def SubdomainManager_new_def standard_paths_def shown_def)


definition working_host :: "string \<Rightarrow> subdomain_host" where
  "working_host time = \<lparr>makes = (\<lambda>p. True), removes = (\<lambda>p. True), opens = (\<lambda>p. True), now_text = time\<rparr>"


section \<open>The zone file\<close>

definition zone_lists :: "string \<Rightarrow> string list \<Rightarrow> string \<Rightarrow> bool" where
  "zone_lists base names s \<longleftrightarrow>
     (\<exists>time. s = lines_out ([''; DNS Zone file for '' @ base, ''; Generated by MedusaServ Subdomain Manager'', ''; '' @ time, []]
        @ map (\<lambda>n. n @ ''.'' @ base @ ''. 3600 IN A 172.236.28.155'') names))"

lemma zone_of_records: "zone_lists base names (zone_text base time (map a_record names))"
proof -
  have "to_string_int 3600 = ''3600''" by code_simp
  then show ?thesis unfolding zone_lists_def zone_text_def
    by (intro exI [of _ time]) (simp add: zone_line_def a_record_def comp_def)
qed

definition zone_inv :: "string \<Rightarrow> string option \<Rightarrow> SubdomainManager \<Rightarrow> bool" where
  "zone_inv base z m \<longleftrightarrow> um_inv (subdomains m) \<and> base_domain m = base \<and> standard_paths m
     \<and> (\<forall>k cf. map_of (subdomains m) k = Some cf \<longrightarrow> k = sc_subdomain cf @ ''.'' @ base)
     \<and> (\<exists>names. dns_records m = map a_record names \<and> distinct names
          \<and> (\<forall>s. s \<in> set names \<longleftrightarrow> map_of (subdomains m) (s @ ''.'' @ base) \<noteq> None)
          \<and> (case files (sm_disk m) zone_path of
               None \<Rightarrow> names = [] \<and> z = None
             | Some c \<Rightarrow> zone_lists base names c \<or> (names = [] \<and> z = Some c)))"

lemma leaves_inv:
  assumes "leaves m m' subs (map a_record names) zone" "base_domain m = base"
    and "um_inv subs" "\<And>k cf. map_of subs k = Some cf \<Longrightarrow> k = sc_subdomain cf @ ''.'' @ base"
    and "distinct names" "\<And>s. s \<in> set names \<longleftrightarrow> map_of subs (s @ ''.'' @ base) \<noteq> None"
    and "case zone of None \<Rightarrow> names = [] \<and> z = None | Some c \<Rightarrow> zone_lists base names c \<or> (names = [] \<and> z = Some c)"
  shows "zone_inv base z m'"
  using assms unfolding leaves_def zone_inv_def by (intro conjI; fastforce)

lemma zone_written:
  "opens h zone_path \<Longrightarrow> base_domain m = base \<Longrightarrow>
    case zone_after h m (map a_record names) of None \<Rightarrow> names = [] \<and> z = None | Some c \<Rightarrow> zone_lists base names c \<or> (names = [] \<and> z = Some c)"
  using zone_of_records by (auto simp: zone_after_def)

lemma zone_step:
  assumes "zone_inv base z m" "makes h = (\<lambda>p. True)" "removes h = (\<lambda>p. True)" "opens h zone_path"
  shows "zone_inv base z (snd (sub_step (h, p) m))"
proof -
  from assms(1) obtain names where inv: "um_inv (subdomains m)" "base_domain m = base" "standard_paths m"
    "\<And>k cf. map_of (subdomains m) k = Some cf \<Longrightarrow> k = sc_subdomain cf @ ''.'' @ base"
    "dns_records m = map a_record names" "distinct names" "\<And>s. s \<in> set names \<longleftrightarrow> map_of (subdomains m) (s @ ''.'' @ base) \<noteq> None"
    "case files (sm_disk m) zone_path of None \<Rightarrow> names = [] \<and> z = None | Some c \<Rightarrow> zone_lists base names c \<or> (names = [] \<and> z = Some c)"
    unfolding zone_inv_def by blast
  show ?thesis
  proof (cases p)
    case (Create_sub s t)
    show ?thesis
    proof (cases "validateSubdomainName s \<and> map_of (subdomains m) (s @ ''.'' @ base) = None")
      case True
      let ?cf = "SubdomainConfig_new (now_text h) base s t"
      have n: "map a_record names @ [a_record s] = map a_record (names @ [s])" by simp
      obtain m' where c: "createSubdomain h s t m = (Returns True, m')"
        "leaves m m' (um_assign (s @ ''.'' @ base) ?cf (subdomains m)) (map a_record (names @ [s])) (zone_after h m (map a_record (names @ [s])))"
        using create_works [OF assms(2) inv(3) conjunct1 [OF True], of t] conjunct2 [OF True] unfolding inv(2,5) n by metis
      have "zone_inv base z m'"
        by (rule leaves_inv [OF c(2) inv(2) _ _ _ _ zone_written [OF assms(4) inv(2)]])
          (use inv True in \<open>auto simp: um_simps SubdomainConfig_new_def split: if_splits\<close>)
      then show ?thesis using c(1) Create_sub by (simp add: sub_step_def)
    next
      case False
      then show ?thesis using assms(1) refused [of s m h t] inv(2) Create_sub by (simp add: sub_step_def)
    qed
  next
    case (Delete_sub fd)
    show ?thesis
    proof (cases "map_of (subdomains m) fd")
      case None
      then show ?thesis using assms(1) unknown(1) [OF None] Delete_sub by (simp add: sub_step_def)
    next
      case (Some cf)
      have n: "filter (\<lambda>r. dns_name r \<noteq> sc_subdomain cf) (map a_record names) = map a_record (filter (\<lambda>s. s \<noteq> sc_subdomain cf) names)"
        by (simp add: filter_map comp_def a_record_def)
      obtain m' where d: "deleteSubdomain h fd m = (Returns True, m')"
        "leaves m m' (um_erase fd (subdomains m)) (map a_record (filter (\<lambda>s. s \<noteq> sc_subdomain cf) names))
          (zone_after h m (map a_record (filter (\<lambda>s. s \<noteq> sc_subdomain cf) names)))"
        using delete_works [OF assms(3) inv(3) Some] unfolding inv(5) n by blast
      have "zone_inv base z m'"
        by (rule leaves_inv [OF d(2) inv(2) _ _ _ _ zone_written [OF assms(4) inv(2)]])
          (use inv Some in \<open>auto simp: um_simps split: if_splits\<close>)
      then show ?thesis using d(1) Delete_sub by (simp add: sub_step_def)
    qed
  next
    case (Update_sub fd us)
    show ?thesis
    proof (cases "map_of (subdomains m) fd")
      case None
      then show ?thesis using assms(1) unknown(2) [OF None] Update_sub by (simp add: sub_step_def)
    next
      case (Some cf)
      obtain m' where d: "updateSubdomain h fd us m = (True, m')"
        "leaves m m' (um_assign fd ((fold apply_update us cf)\<lparr>sc_modified := now_text h\<rparr>) (subdomains m)) (map a_record names)
          (files (sm_disk m) zone_path)"
        using update_works [OF inv(3) Some, of h us] unfolding inv(5) by blast
      have "zone_inv base z m'"
        by (rule leaves_inv [OF d(2) inv(2) _ _ inv(6) _ inv(8)])
          (use inv Some updated_status [of us cf] in \<open>auto simp: um_simps split: if_splits\<close>)
      then show ?thesis using d(1) Update_sub by (simp add: sub_step_def)
    qed
  next
    case (Route_sub hn path)
    then show ?thesis using assms(1) by (simp add: sub_step_def)
  qed
qed

definition zone_works :: "subdomain_host \<times> subdomain_op \<Rightarrow> bool" where
  "zone_works e \<longleftrightarrow> directories_work e \<and> opens (fst e) zone_path"

interpretation zone: session "\<lambda>e m. snd (sub_step e m)" zone_works "zone_inv base z" for base z
  by unfold_locales (auto simp: zone_works_def directories_work_def intro!: zone_step)

lemma new_zone: "zone_inv base (files d zone_path) (SubdomainManager_new base d)"
  by (auto simp: zone_inv_def SubdomainManager_new_def standard_paths_def split: option.splits)



section \<open>What the manager does not do\<close>

text \<open>When the directory of the certificate cannot be made, the exception leaves a record without a subdomain.\<close>

lemma failed_certificate_leaves_record:
  assumes "\<And>p. makes h p \<longleftrightarrow> take 15 p = ''web/subdomains/''" "validateSubdomainName s"
    "map_of (subdomains m) (s @ ''.'' @ base_domain m) = None"
  shows "fst (createSubdomain h s t m) = Throws ''create_directories''"
    and "subdomains (snd (createSubdomain h s t m)) = subdomains m"
    and "dns_records (snd (createSubdomain h s t m)) = dns_records m @ [a_record s]"
proof -
  define cf where "cf = SubdomainConfig_new (now_text h) (base_domain m) s t"
  have cf: "sc_root cf = ''web/subdomains/'' @ s" "sc_subdomain cf = s" by (simp_all add: cf_def SubdomainConfig_new_def)
  obtain d where d: "createSubdomainDirectory h cf (sm_disk m) = (True, d)"
    by (simp add: createSubdomainDirectory_def assms(1) cf)
  have "createSSLCertificate h cf d' = (Throws ''create_directories'', d')" for d'
    by (simp add: createSSLCertificate_def assms(1) ssl_dir_def Let_def)
  moreover have "subdomains (createDNSRecord h cf (m\<lparr>sm_disk := d\<rparr>)) = subdomains m"
    "dns_records (createDNSRecord h cf (m\<lparr>sm_disk := d\<rparr>)) = dns_records m @ [a_record s]"
    by (simp_all add: createDNSRecord_def generateDNSZoneFile_def saveDNSConfiguration_def on_disk_def a_record_def cf Let_def)
  ultimately show "fst (createSubdomain h s t m) = Throws ''create_directories''"
    "subdomains (snd (createSubdomain h s t m)) = subdomains m"
    "dns_records (snd (createSubdomain h s t m)) = dns_records m @ [a_record s]"
    using assms(2,3) d by (simp_all add: createSubdomain_def cf_def [symmetric])
qed

text \<open>After a new initialisation nothing is routed, whatever the files say.\<close>

lemma initialisation_forgets: "route_subdomain (Some hn) (Some p) (snd (initialize_subdomain_manager base g)) = Returns None"
  by (simp add: initialize_subdomain_manager_def route_subdomain_def SubdomainManager_new_def getSubdomainRoute_def Let_def)

text \<open>A path is appended as it is, and one that climbs leaves the directory; names that differ in case only, which the
  domain name system does not tell apart, are two subdomains.\<close>

lemma route_climbs:
  "map_of (subdomains m) hn = Some cf \<Longrightarrow> sc_status cf = ''active'' \<Longrightarrow> sc_root cf = ''web/subdomains/shop''
    \<Longrightarrow> lexically_normal (getSubdomainRoute hn ''/../../../etc/passwd'' m) = ''etc/passwd''"
proof -
  have "lexically_normal ''web/subdomains/shop/../../../etc/passwd'' = ''etc/passwd''" by code_simp
  then show "map_of (subdomains m) hn = Some cf \<Longrightarrow> sc_status cf = ''active'' \<Longrightarrow> sc_root cf = ''web/subdomains/shop''
    \<Longrightarrow> lexically_normal (getSubdomainRoute hn ''/../../../etc/passwd'' m) = ''etc/passwd''"
    by (simp add: getSubdomainRoute_def)
qed

lemma case_matters:
  "answers sub_step (map (Pair (working_host time)) [Create_sub ''shop'' t, Create_sub ''Shop'' t]) (SubdomainManager_new base d)
    = [Done (Returns True), Done (Returns True)]"
proof -
  have "answers sub_step (map (Pair (working_host time)) [Create_sub ''shop'' t, Create_sub ''Shop'' t]) (SubdomainManager_new base d)
    = answers (sub_spec base) (map (Pair (working_host time)) [Create_sub ''shop'' t, Create_sub ''Shop'' t]) Map.empty"
    by (rule subs.same_answers [OF new_rel]) (simp add: directories_work_def working_host_def)
  then show ?thesis by (simp add: sub_spec_def validateSubdomainName_def name_char_def ctype_defs)
qed

end
