(* ===== verification/Patreon_Client.thy ===== *)
theory Patreon_Client
  imports Discord_Api
begin

text \<open>
  The Patreon client \<open>MedusaPatreonClient\<close> of \<open>medusa_patreon_integration.hpp\<close> and
  \<open>medusa_patreon_integration.cpp\<close>: its requests over the HTTP client with their rate limit, the values it reads
  from their answers, posts, webhooks with their queue, authorisation and the judgements about pledges. A member
  without initialiser is None until it is assigned, and reading it then is undefined; members that nothing writes or
  reads are left out. Handlers are numbers, their calls and the waiting times are logs, one round of the thread is a
  step. An exception that leaves that thread ends the program. Times are nanoseconds, a score is a real number.
\<close>

section \<open>JSON\<close>

definition json_contains :: "string \<Rightarrow> json \<Rightarrow> bool" where
  "json_contains k j = (case j of JObject m \<Rightarrow> map_of m k \<noteq> None | _ \<Rightarrow> False)"

definition json_get :: "string \<Rightarrow> json \<Rightarrow> json" where
  "json_get k j = (case j of JObject m \<Rightarrow> (case map_of m k of Some v \<Rightarrow> v | None \<Rightarrow> JNull) | _ \<Rightarrow> JNull)"

definition json_bool :: "json \<Rightarrow> bool option" where
  "json_bool j = (case j of JBool b \<Rightarrow> Some b | _ \<Rightarrow> None)"

abbreviation text_of :: "string \<Rightarrow> json \<Rightarrow> string option" where
  "text_of k j \<equiv> json_value json_string k [] j"

section \<open>Data\<close>

record PatreonUser =
  pu_id :: string
  pu_email :: string
  pu_first_name :: string
  pu_last_name :: string
  pu_full_name :: string
  pu_vanity :: string
  pu_about :: string
  pu_image_url :: string
  pu_thumb_url :: string
  pu_url :: string
  pu_verified :: "bool option"
  pu_created :: string
  pu_discord :: string
  pu_twitch :: string
  pu_twitter :: string
  pu_youtube :: string
  pu_amount :: int
  pu_active :: bool
  pu_status :: string

record PatreonCampaign =
  ca_id :: string
  ca_summary :: string
  ca_creation_name :: string
  ca_goals :: string
  ca_main_video_embed :: string
  ca_main_video_url :: string
  ca_image_small_url :: string
  ca_image_url :: string
  ca_thanks_embed :: string
  ca_thanks_msg :: string
  ca_thanks_video_url :: string
  ca_immediately :: "bool option"
  ca_monthly :: "bool option"
  ca_nsfw :: "bool option"
  ca_created :: string
  ca_published :: string
  ca_patrons :: "int option"
  ca_pledge_sum :: "int option"
  ca_pledge_url :: string

record PatreonPledge =
  pl_id :: string
  pl_reward_id :: string
  pl_amount :: "int option"
  pl_created :: string
  pl_paused :: "bool option"
  pl_total :: "int option"
  pl_patron :: PatreonUser
  pl_status :: string
  pl_retention :: real
  pl_engagement :: string

record PatreonPost =
  po_id :: string
  po_title :: string
  po_content :: string
  po_paid :: "bool option"
  po_published :: string
  po_url :: string
  po_patreon_url :: string
  po_min_cents :: string
  po_likes :: "int option"
  po_comments :: "int option"

datatype WebhookEventType =
    Pledge_create | Pledge_update | Pledge_delete | Posts_published | Posts_update | Posts_delete | Unknown_event

record PatreonWebhookEvent =
  ev_type :: WebhookEventType
  ev_name :: string
  ev_signature :: string
  ev_payload :: json
  ev_time :: int
  ev_campaign_id :: string
  ev_user_id :: string

text \<open>A variable of each type, and the value of \<open>T()\<close>, which is set to zero.\<close>

definition PatreonUser_declared :: PatreonUser where
  "PatreonUser_declared = \<lparr>pu_id = [], pu_email = [], pu_first_name = [], pu_last_name = [], pu_full_name = [], pu_vanity = [],
     pu_about = [], pu_image_url = [], pu_thumb_url = [], pu_url = [], pu_verified = None, pu_created = [], pu_discord = [],
     pu_twitch = [], pu_twitter = [], pu_youtube = [], pu_amount = 0, pu_active = False, pu_status = []\<rparr>"

definition PatreonUser_zero :: PatreonUser where
  "PatreonUser_zero = PatreonUser_declared\<lparr>pu_verified := Some False\<rparr>"

definition PatreonCampaign_declared :: PatreonCampaign where
  "PatreonCampaign_declared = \<lparr>ca_id = [], ca_summary = [], ca_creation_name = [], ca_goals = [], ca_main_video_embed = [],
     ca_main_video_url = [], ca_image_small_url = [], ca_image_url = [], ca_thanks_embed = [], ca_thanks_msg = [],
     ca_thanks_video_url = [], ca_immediately = None, ca_monthly = None, ca_nsfw = None, ca_created = [], ca_published = [],
     ca_patrons = None, ca_pledge_sum = None, ca_pledge_url = []\<rparr>"

definition PatreonCampaign_zero :: PatreonCampaign where
  "PatreonCampaign_zero = PatreonCampaign_declared\<lparr>ca_immediately := Some False, ca_monthly := Some False, ca_nsfw := Some False,
     ca_patrons := Some 0, ca_pledge_sum := Some 0\<rparr>"

definition PatreonPledge_declared :: PatreonPledge where
  "PatreonPledge_declared = \<lparr>pl_id = [], pl_reward_id = [], pl_amount = None, pl_created = [], pl_paused = None, pl_total = None,
     pl_patron = PatreonUser_declared, pl_status = [], pl_retention = 0, pl_engagement = []\<rparr>"

definition PatreonPledge_zero :: PatreonPledge where
  "PatreonPledge_zero = PatreonPledge_declared\<lparr>pl_amount := Some 0, pl_paused := Some False, pl_total := Some 0,
     pl_patron := PatreonUser_zero\<rparr>"

definition PatreonPost_declared :: PatreonPost where
  "PatreonPost_declared = \<lparr>po_id = [], po_title = [], po_content = [], po_paid = None, po_published = [], po_url = [],
     po_patreon_url = [], po_min_cents = [], po_likes = None, po_comments = None\<rparr>"

definition PatreonPost_zero :: PatreonPost where
  "PatreonPost_zero = PatreonPost_declared\<lparr>po_paid := Some False, po_likes := Some 0, po_comments := Some 0\<rparr>"

section \<open>The client\<close>

datatype AuthType = Creator_access_token | Oauth2_code | Client_credentials

datatype patreon_call =
    On_webhook nat PatreonWebhookEvent
  | On_pledge nat PatreonPledge
  | On_post nat PatreonPost

record MedusaPatreonClient =
  access_token :: string
  pt_client_id :: string
  pt_client_secret :: string
  auth_type :: AuthType
  http_client :: NativeHttpClient
  rate_limit_remaining :: int
  rate_limit_reset :: int
  user_cache :: "(string, PatreonUser) umap"
  webhook_queue :: "PatreonWebhookEvent list"
  processing :: bool
  webhook_processor :: bool
  webhook_handler :: "nat option"
  pledge_handler :: "nat option"
  post_handler :: "nat option"
  patron_handler :: "nat option"
  custom_handlers :: "(string, nat) umap"
  medusa_ai_enabled :: bool
  webhook_secret :: string
  pt_sockets :: "socket_event list"
  pt_waits :: "int list"
  pt_calls :: "patreon_call list"

definition MedusaPatreonClient_new :: "string \<Rightarrow> AuthType \<Rightarrow> MedusaPatreonClient" where
  "MedusaPatreonClient_new token ty = \<lparr>access_token = token, pt_client_id = [], pt_client_secret = [], auth_type = ty,
     http_client = set_ssl_cipher_list
       ''TLS_AES_256_GCM_SHA384:TLS_CHACHA20_POLY1305_SHA256:ECDHE-RSA-AES128-GCM-SHA256:ECDHE-RSA-AES256-GCM_SHA384''
       NativeHttpClient_new,
     rate_limit_remaining = 10000, rate_limit_reset = 0, user_cache = [], webhook_queue = [], processing = False,
     webhook_processor = False, webhook_handler = None, pledge_handler = None, post_handler = None, patron_handler = None,
     custom_handlers = [], medusa_ai_enabled = True, webhook_secret = [], pt_sockets = [], pt_waits = [], pt_calls = []\<rparr>"

section \<open>Requests\<close>

definition strip_line :: "string \<Rightarrow> string" where
  "strip_line s = rev (dropWhile (\<lambda>c. c = CHR '' '' \<or> c = cr \<or> c = nl) (rev s))"

text \<open>One line of the headers; what an earlier line has set stays when a later one throws.\<close>

fun rate_limit_lines :: "string list \<Rightarrow> MedusaPatreonClient \<Rightarrow> unit outcome \<times> MedusaPatreonClient" where
  "rate_limit_lines [] c = (Returns (), c)"
| "rate_limit_lines (l # ls) c =
     (if starts_with ''X-RateLimit-Remaining:'' l then
        (case stoi (strip_line (drop 22 l)) of
           Returns n \<Rightarrow> rate_limit_lines ls (c\<lparr>rate_limit_remaining := n\<rparr>)
         | Throws e \<Rightarrow> (Throws e, c)
         | Undefined e \<Rightarrow> (Undefined e, c))
      else if starts_with ''X-RateLimit-Reset:'' l then
        (case stoi (strip_line (drop 18 l)) of
           Returns n \<Rightarrow> rate_limit_lines ls (c\<lparr>rate_limit_reset := n\<rparr>)
         | Throws e \<Rightarrow> (Throws e, c)
         | Undefined e \<Rightarrow> (Undefined e, c))
      else rate_limit_lines ls c)"

definition handle_rate_limit :: "string \<Rightarrow> MedusaPatreonClient \<Rightarrow> unit outcome \<times> MedusaPatreonClient" where
  "handle_rate_limit hs c = rate_limit_lines (lines_of hs) c"

definition patreon_base_url :: string where
  "patreon_base_url = ''https://www.patreon.com/api/oauth2/v2''"

definition wait_for_limit :: "int \<Rightarrow> MedusaPatreonClient \<Rightarrow> MedusaPatreonClient" where
  "wait_for_limit now c =
     (let reset = rate_limit_reset c * 1000000000 in
      if rate_limit_remaining c \<le> 10 \<and> now < reset then c\<lparr>pt_waits := pt_waits c @ [(reset - now) div 1000000000]\<rparr> else c)"

definition extra_header :: "string \<Rightarrow> (string, string) omap \<Rightarrow> (string, string) omap" where
  "extra_header h m =
     (case str_find h '':'' 0 of None \<Rightarrow> m | Some k \<Rightarrow> om_assign (take k h) (trim_blanks (drop (k + 1) h)) m)"

definition patreon_request :: "string \<Rightarrow> string \<Rightarrow> string \<Rightarrow> string \<Rightarrow> string list \<Rightarrow> HttpRequest" where
  "patreon_request token endpoint meth payload headers =
     \<lparr>rq_method = meth, rq_url = patreon_base_url @ endpoint,
      rq_headers = fold extra_header headers
        (om_assign ''User-Agent'' ''MedusaPatreon/1.0''
          (om_assign ''Content-Type'' ''application/json'' (om_assign ''Authorization'' (''Bearer '' @ token) []))),
      rq_body = payload, verify_ssl = True,
      cipher_list = ''TLS_AES_256_GCM_SHA384:TLS_CHACHA20_POLY1305_SHA256:ECDHE-RSA-AES128-GCM-SHA256:ECDHE-RSA-AES256-GCM-SHA384''\<rparr>"

definition make_request ::
  "'a network \<Rightarrow> int \<Rightarrow> string \<Rightarrow> string \<Rightarrow> string \<Rightarrow> string list \<Rightarrow> MedusaPatreonClient \<Rightarrow> string outcome \<times> MedusaPatreonClient" where
  "make_request net now endpoint meth payload headers c =
     (let c = wait_for_limit now c in
      case perform_request net (patreon_request (access_token c) endpoint meth payload headers) (http_client c) of
        (r, hc, es) \<Rightarrow>
          let c = c\<lparr>http_client := hc, pt_sockets := pt_sockets c @ es\<rparr> in
          (case r of
             Throws e \<Rightarrow> (Throws e, c)
           | Undefined e \<Rightarrow> (Undefined e, c)
           | Returns x \<Rightarrow>
               (case handle_rate_limit (header_text (rs_headers x)) c of
                  (q, c) \<Rightarrow> (outcome_bind q (\<lambda>_. Returns (if \<not> success x \<or> 400 \<le> status_code x then [] else rs_body x)), c))))"

section \<open>Reading answers\<close>

text \<open>A list of assignments of read values to members, the first exception ends it.\<close>

fun assign_all :: "('a \<Rightarrow> 'a option) list \<Rightarrow> 'a \<Rightarrow> 'a option" where
  "assign_all [] x = Some x"
| "assign_all (f # fs) x = Option.bind (f x) (assign_all fs)"

definition sets :: "'b option \<Rightarrow> ('b \<Rightarrow> 'a \<Rightarrow> 'a) \<Rightarrow> 'a \<Rightarrow> 'a option" where
  "sets v f x = map_option (\<lambda>y. f y x) v"

definition social_id :: "string \<Rightarrow> json \<Rightarrow> string option" where
  "social_id site social = Option.bind (json_value Some site (JObject []) social) (text_of ''user_id'')"

definition parse_user :: "json \<Rightarrow> PatreonUser option" where
  "parse_user j =
     Option.bind (sets (text_of ''id'' j) (\<lambda>v u. u\<lparr>pu_id := v\<rparr>) PatreonUser_declared) (\<lambda>u.
       if \<not> json_contains ''attributes'' j then Some u
       else
         let attrs = json_get ''attributes'' j; social = json_get ''social_connections'' attrs in
         assign_all
           ([sets (text_of ''email'' attrs) (\<lambda>v u. u\<lparr>pu_email := v\<rparr>),
             sets (text_of ''first_name'' attrs) (\<lambda>v u. u\<lparr>pu_first_name := v\<rparr>),
             sets (text_of ''last_name'' attrs) (\<lambda>v u. u\<lparr>pu_last_name := v\<rparr>),
             sets (text_of ''full_name'' attrs) (\<lambda>v u. u\<lparr>pu_full_name := v\<rparr>),
             sets (text_of ''vanity'' attrs) (\<lambda>v u. u\<lparr>pu_vanity := v\<rparr>),
             sets (text_of ''about'' attrs) (\<lambda>v u. u\<lparr>pu_about := v\<rparr>),
             sets (text_of ''image_url'' attrs) (\<lambda>v u. u\<lparr>pu_image_url := v\<rparr>),
             sets (text_of ''thumb_url'' attrs) (\<lambda>v u. u\<lparr>pu_thumb_url := v\<rparr>),
             sets (text_of ''url'' attrs) (\<lambda>v u. u\<lparr>pu_url := v\<rparr>),
             sets (json_value json_bool ''is_email_verified'' False attrs) (\<lambda>v u. u\<lparr>pu_verified := Some v\<rparr>),
             sets (text_of ''created'' attrs) (\<lambda>v u. u\<lparr>pu_created := v\<rparr>)]
            @ (if json_contains ''social_connections'' attrs
               then [sets (social_id ''discord'' social) (\<lambda>v u. u\<lparr>pu_discord := v\<rparr>),
                     sets (social_id ''twitter'' social) (\<lambda>v u. u\<lparr>pu_twitter := v\<rparr>),
                     sets (social_id ''youtube'' social) (\<lambda>v u. u\<lparr>pu_youtube := v\<rparr>),
                     sets (social_id ''twitch'' social) (\<lambda>v u. u\<lparr>pu_twitch := v\<rparr>)]
               else [])) u)"

definition parse_campaign :: "json_library \<Rightarrow> json \<Rightarrow> PatreonCampaign option" where
  "parse_campaign lib j =
     Option.bind (sets (text_of ''id'' j) (\<lambda>v u. u\<lparr>ca_id := v\<rparr>) PatreonCampaign_declared) (\<lambda>u.
       if \<not> json_contains ''attributes'' j then Some u
       else
         let attrs = json_get ''attributes'' j in
         assign_all
           [sets (text_of ''summary'' attrs) (\<lambda>v u. u\<lparr>ca_summary := v\<rparr>),
            sets (text_of ''creation_name'' attrs) (\<lambda>v u. u\<lparr>ca_creation_name := v\<rparr>),
            sets (text_of ''display_patron_goals'' attrs) (\<lambda>v u. u\<lparr>ca_goals := v\<rparr>),
            sets (text_of ''main_video_embed'' attrs) (\<lambda>v u. u\<lparr>ca_main_video_embed := v\<rparr>),
            sets (text_of ''main_video_url'' attrs) (\<lambda>v u. u\<lparr>ca_main_video_url := v\<rparr>),
            sets (text_of ''image_small_url'' attrs) (\<lambda>v u. u\<lparr>ca_image_small_url := v\<rparr>),
            sets (text_of ''image_url'' attrs) (\<lambda>v u. u\<lparr>ca_image_url := v\<rparr>),
            sets (text_of ''thanks_embed'' attrs) (\<lambda>v u. u\<lparr>ca_thanks_embed := v\<rparr>),
            sets (text_of ''thanks_msg'' attrs) (\<lambda>v u. u\<lparr>ca_thanks_msg := v\<rparr>),
            sets (text_of ''thanks_video_url'' attrs) (\<lambda>v u. u\<lparr>ca_thanks_video_url := v\<rparr>),
            sets (json_value json_bool ''is_charged_immediately'' False attrs) (\<lambda>v u. u\<lparr>ca_immediately := Some v\<rparr>),
            sets (json_value json_bool ''is_monthly'' True attrs) (\<lambda>v u. u\<lparr>ca_monthly := Some v\<rparr>),
            sets (json_value json_bool ''is_nsfw'' False attrs) (\<lambda>v u. u\<lparr>ca_nsfw := Some v\<rparr>),
            sets (text_of ''created_at'' attrs) (\<lambda>v u. u\<lparr>ca_created := v\<rparr>),
            sets (text_of ''published_at'' attrs) (\<lambda>v u. u\<lparr>ca_published := v\<rparr>),
            sets (json_value (json_int32 lib) ''patron_count'' 0 attrs) (\<lambda>v u. u\<lparr>ca_patrons := Some v\<rparr>),
            sets (json_value (json_int32 lib) ''pledge_sum'' 0 attrs) (\<lambda>v u. u\<lparr>ca_pledge_sum := Some v\<rparr>),
            sets (text_of ''pledge_url'' attrs) (\<lambda>v u. u\<lparr>ca_pledge_url := v\<rparr>)] u)"

definition parse_pledge :: "json_library \<Rightarrow> json \<Rightarrow> PatreonPledge option" where
  "parse_pledge lib j =
     Option.bind (sets (text_of ''id'' j) (\<lambda>v u. u\<lparr>pl_id := v\<rparr>) PatreonPledge_declared) (\<lambda>u.
       if \<not> json_contains ''attributes'' j then Some u
       else
         let attrs = json_get ''attributes'' j in
         assign_all
           [sets (json_value (json_int32 lib) ''currently_entitled_amount_cents'' 0 attrs) (\<lambda>v u. u\<lparr>pl_amount := Some v\<rparr>),
            sets (json_value (json_int32 lib) ''lifetime_support_cents'' 0 attrs) (\<lambda>v u. u\<lparr>pl_total := Some v\<rparr>),
            sets (text_of ''patron_status'' attrs) (\<lambda>v u. u\<lparr>pl_status := v\<rparr>),
            sets (text_of ''pledge_relationship_start'' attrs) (\<lambda>v u. u\<lparr>pl_created := v\<rparr>),
            sets (json_value json_bool ''is_follower'' False attrs) (\<lambda>v u. u\<lparr>pl_paused := Some v\<rparr>)] u)"

definition parse_post :: "json_library \<Rightarrow> json \<Rightarrow> PatreonPost option" where
  "parse_post lib j =
     Option.bind (sets (text_of ''id'' j) (\<lambda>v u. u\<lparr>po_id := v\<rparr>) PatreonPost_declared) (\<lambda>u.
       if \<not> json_contains ''attributes'' j then Some u
       else
         let attrs = json_get ''attributes'' j in
         assign_all
           [sets (text_of ''title'' attrs) (\<lambda>v u. u\<lparr>po_title := v\<rparr>),
            sets (text_of ''content'' attrs) (\<lambda>v u. u\<lparr>po_content := v\<rparr>),
            sets (json_value json_bool ''is_paid'' False attrs) (\<lambda>v u. u\<lparr>po_paid := Some v\<rparr>),
            sets (text_of ''published_at'' attrs) (\<lambda>v u. u\<lparr>po_published := v\<rparr>),
            sets (text_of ''url'' attrs) (\<lambda>v u. u\<lparr>po_url := v\<rparr>),
            sets (text_of ''patreon_url'' attrs) (\<lambda>v u. u\<lparr>po_patreon_url := v\<rparr>),
            sets (json_value (json_int32 lib) ''like_count'' 0 attrs) (\<lambda>v u. u\<lparr>po_likes := Some v\<rparr>),
            sets (json_value (json_int32 lib) ''comment_count'' 0 attrs) (\<lambda>v u. u\<lparr>po_comments := Some v\<rparr>),
            sets (json_value json_string ''min_cents_pledged_to_view'' ''0'' attrs) (\<lambda>v u. u\<lparr>po_min_cents := v\<rparr>)] u)"

section \<open>Users, campaigns, pledges, posts\<close>

definition caught :: "'b \<Rightarrow> 'b outcome \<Rightarrow> 'b outcome" where
  "caught d r = (case r of Throws e \<Rightarrow> Returns d | _ \<Rightarrow> r)"

definition read_option :: "'b option \<Rightarrow> 'b outcome" where
  "read_option x = (case x of Some y \<Rightarrow> Returns y | None \<Rightarrow> Throws ''json'')"

text \<open>An answer that is empty, is not JSON or does not have the form gives the default.\<close>

definition read_answer :: "json_library \<Rightarrow> (json \<Rightarrow> 'b outcome) \<Rightarrow> 'b \<Rightarrow> string \<Rightarrow> 'b outcome" where
  "read_answer lib f d s = (if s = [] then Returns d else caught d (outcome_bind (read_option (jparse lib s)) f))"

definition fetch ::
  "json_library \<Rightarrow> 'a network \<Rightarrow> int \<Rightarrow> string \<Rightarrow> string \<Rightarrow> string \<Rightarrow> (json \<Rightarrow> 'b outcome) \<Rightarrow> 'b \<Rightarrow> MedusaPatreonClient
   \<Rightarrow> 'b outcome \<times> MedusaPatreonClient" where
  "fetch lib net now endpoint meth payload f d c =
     (case make_request net now endpoint meth payload [] c of (r, c) \<Rightarrow> (outcome_bind r (read_answer lib f d), c))"

definition data_of :: "(json \<Rightarrow> 'b option) \<Rightarrow> 'b \<Rightarrow> json \<Rightarrow> 'b outcome" where
  "data_of f d j = (if json_contains ''data'' j then read_option (f (json_get ''data'' j)) else Returns d)"

definition all_data_of :: "(json \<Rightarrow> 'b option) \<Rightarrow> json \<Rightarrow> 'b list outcome" where
  "all_data_of f = data_of (\<lambda>j. those (map f (json_items j))) []"

definition authenticated_user :: "json \<Rightarrow> PatreonUser option outcome" where
  "authenticated_user j =
     (if json_contains ''data'' j \<and> json_contains ''attributes'' (json_get ''data'' j)
      then outcome_bind (read_option (json_value json_string ''full_name'' ''Unknown User'' (json_get ''attributes'' (json_get ''data'' j))))
             (\<lambda>_. outcome_bind (read_option (parse_user (json_get ''data'' j))) (\<lambda>u. Returns (Some u)))
      else Returns None)"

definition patreon_authenticate ::
  "json_library \<Rightarrow> 'a network \<Rightarrow> int \<Rightarrow> MedusaPatreonClient \<Rightarrow> bool outcome \<times> MedusaPatreonClient" where
  "patreon_authenticate lib net now c =
     (case fetch lib net now ''/identity?fields[user]=email,first_name,last_name,full_name,vanity'' ''GET'' [] authenticated_user None c of
        (Returns (Some u), c) \<Rightarrow> (Returns True, c\<lparr>user_cache := um_assign ''authenticated'' u (user_cache c)\<rparr>)
      | (r, c) \<Rightarrow> (outcome_bind r (\<lambda>_. Returns False), c))"

definition is_authenticated :: "MedusaPatreonClient \<Rightarrow> bool" where
  "is_authenticated c \<longleftrightarrow> map_of (user_cache c) ''authenticated'' \<noteq> None"

definition get_user ::
  "json_library \<Rightarrow> 'a network \<Rightarrow> int \<Rightarrow> string \<Rightarrow> MedusaPatreonClient \<Rightarrow> PatreonUser outcome \<times> MedusaPatreonClient" where
  "get_user lib net now user_id =
     fetch lib net now (''/users/'' @ user_id @ ''?fields[user]=email,first_name,last_name,full_name,vanity,thumb_url'') ''GET'' []
       (data_of parse_user PatreonUser_zero) PatreonUser_zero"

definition get_current_user ::
  "json_library \<Rightarrow> 'a network \<Rightarrow> int \<Rightarrow> MedusaPatreonClient \<Rightarrow> PatreonUser outcome \<times> MedusaPatreonClient" where
  "get_current_user lib net now = get_user lib net now ''me''"

definition member_attributes :: "json_library \<Rightarrow> json \<Rightarrow> PatreonUser \<Rightarrow> PatreonUser option" where
  "member_attributes lib j u =
     (if \<not> json_contains ''attributes'' j then Some u
      else
        let attrs = json_get ''attributes'' j in
        assign_all
          [sets (text_of ''full_name'' attrs) (\<lambda>v u. u\<lparr>pu_full_name := v\<rparr>),
           sets (text_of ''patron_status'' attrs) (\<lambda>v u. u\<lparr>pu_status := v\<rparr>),
           sets (json_value (json_int32 lib) ''currently_entitled_amount_cents'' 0 attrs) (\<lambda>v u. u\<lparr>pu_amount := v\<rparr>),
           (\<lambda>u. Some (u\<lparr>pu_active := pu_status u = ''active_patron'' \<and> 0 < pu_amount u\<rparr>))] u)"

text \<open>The first user among the included values, None for an exception.\<close>

fun first_user :: "json list \<Rightarrow> json option option" where
  "first_user [] = Some None"
| "first_user (j # js) =
     (case text_of ''type'' j of
        None \<Rightarrow> None
      | Some ty \<Rightarrow> if ty = ''user'' \<and> json_contains ''attributes'' j then Some (Some j) else first_user js)"

definition from_included :: "json \<Rightarrow> PatreonUser \<Rightarrow> PatreonUser option" where
  "from_included j =
     (let attrs = json_get ''attributes'' j in
      assign_all
        [sets (text_of ''id'' j) (\<lambda>v u. u\<lparr>pu_id := v\<rparr>),
         sets (text_of ''email'' attrs) (\<lambda>v u. u\<lparr>pu_email := v\<rparr>),
         sets (text_of ''first_name'' attrs) (\<lambda>v u. u\<lparr>pu_first_name := v\<rparr>),
         sets (text_of ''last_name'' attrs) (\<lambda>v u. u\<lparr>pu_last_name := v\<rparr>),
         (\<lambda>u. if pu_full_name u = [] then sets (text_of ''full_name'' attrs) (\<lambda>v u. u\<lparr>pu_full_name := v\<rparr>) u else Some u),
         sets (text_of ''vanity'' attrs) (\<lambda>v u. u\<lparr>pu_vanity := v\<rparr>)])"

definition included_user :: "json \<Rightarrow> PatreonUser \<Rightarrow> PatreonUser option" where
  "included_user j u =
     (if json_contains ''included'' j
      then Option.bind (first_user (json_items (json_get ''included'' j)))
             (\<lambda>r. case r of None \<Rightarrow> Some u | Some k \<Rightarrow> from_included k u)
      else Some u)"

definition related_user :: "json \<Rightarrow> string option" where
  "related_user j =
     (let rel = json_get ''relationships'' j in
      if json_contains ''relationships'' j \<and> json_contains ''user'' rel \<and> json_contains ''data'' (json_get ''user'' rel)
      then text_of ''id'' (json_get ''data'' (json_get ''user'' rel)) else Some [])"

definition merge_user :: "PatreonUser \<Rightarrow> PatreonUser \<Rightarrow> PatreonUser" where
  "merge_user v u =
     (if pu_id v = [] then u
      else u\<lparr>pu_id := pu_id v, pu_email := pu_email v, pu_first_name := pu_first_name v, pu_last_name := pu_last_name v,
             pu_full_name := (if pu_full_name u = [] then pu_full_name v else pu_full_name u), pu_vanity := pu_vanity v\<rparr>)"

definition read_member :: "json_library \<Rightarrow> json \<Rightarrow> (PatreonUser \<times> string) outcome" where
  "read_member lib j =
     (if \<not> json_contains ''data'' j then Returns (PatreonUser_zero, [])
      else
        outcome_bind (read_option (Option.bind (member_attributes lib (json_get ''data'' j) PatreonUser_declared) (included_user j)))
          (\<lambda>u. if pu_id u \<noteq> [] then Returns (u, [])
               else outcome_bind (read_option (related_user (json_get ''data'' j))) (\<lambda>i. Returns (u, i))))"

definition get_member ::
  "json_library \<Rightarrow> 'a network \<Rightarrow> int \<Rightarrow> string \<Rightarrow> MedusaPatreonClient \<Rightarrow> PatreonUser outcome \<times> MedusaPatreonClient" where
  "get_member lib net now member_id c =
     (case fetch lib net now (''/members/'' @ member_id
         @ ''?include=user,currently_entitled_tiers&fields[member]=full_name,patron_status,currently_entitled_amount_cents,lifetime_support_cents,pledge_relationship_start&fields[user]=email,first_name,last_name,full_name,vanity'')
         ''GET'' [] (read_member lib) (PatreonUser_zero, []) c of
        (Returns (u, i), c) \<Rightarrow>
          if i = [] then (Returns u, c)
          else (case get_user lib net now i c of
              (r, c) \<Rightarrow> (caught PatreonUser_zero (outcome_bind r (\<lambda>v. Returns (merge_user v u))), c))
      | (r, c) \<Rightarrow> (outcome_bind r (\<lambda>(u, i). Returns u), c))"

definition get_campaigns ::
  "json_library \<Rightarrow> 'a network \<Rightarrow> int \<Rightarrow> MedusaPatreonClient \<Rightarrow> PatreonCampaign list outcome \<times> MedusaPatreonClient" where
  "get_campaigns lib net now =
     fetch lib net now ''/campaigns?fields[campaign]=summary,creation_name,patron_count,pledge_sum,published_at'' ''GET'' []
       (all_data_of (parse_campaign lib)) []"

definition get_campaign ::
  "json_library \<Rightarrow> 'a network \<Rightarrow> int \<Rightarrow> string \<Rightarrow> MedusaPatreonClient \<Rightarrow> PatreonCampaign outcome \<times> MedusaPatreonClient" where
  "get_campaign lib net now campaign =
     fetch lib net now (''/campaigns/'' @ campaign
       @ ''?fields[campaign]=summary,creation_name,patron_count,pledge_sum,published_at,image_url,thanks_msg'') ''GET'' []
       (data_of (parse_campaign lib) PatreonCampaign_zero) PatreonCampaign_zero"

definition get_pledge ::
  "json_library \<Rightarrow> 'a network \<Rightarrow> int \<Rightarrow> string \<Rightarrow> MedusaPatreonClient \<Rightarrow> PatreonPledge outcome \<times> MedusaPatreonClient" where
  "get_pledge lib net now pledge =
     fetch lib net now (''/members/'' @ pledge
       @ ''?include=user&fields[member]=full_name,patron_status,currently_entitled_amount_cents,lifetime_support_cents,pledge_relationship_start'')
       ''GET'' [] (data_of (parse_pledge lib) PatreonPledge_zero) PatreonPledge_zero"

definition get_campaign_members ::
  "json_library \<Rightarrow> 'a network \<Rightarrow> int \<Rightarrow> string \<Rightarrow> MedusaPatreonClient \<Rightarrow> PatreonUser list outcome \<times> MedusaPatreonClient" where
  "get_campaign_members lib net now campaign =
     fetch lib net now (''/campaigns/'' @ campaign
       @ ''/members?include=user&fields[member]=full_name,patron_status,currently_entitled_amount_cents&fields[user]=email,first_name,last_name,full_name'')
       ''GET'' [] (\<lambda>j. all_data_of (\<lambda>m. Option.bind (member_attributes lib m PatreonUser_declared) (included_user j)) j) []"

definition get_campaign_posts ::
  "json_library \<Rightarrow> 'a network \<Rightarrow> int \<Rightarrow> string \<Rightarrow> MedusaPatreonClient \<Rightarrow> PatreonPost list outcome \<times> MedusaPatreonClient" where
  "get_campaign_posts lib net now campaign =
     fetch lib net now (''/campaigns/'' @ campaign @ ''/posts?fields[post]=title,content,published_at,url,like_count,comment_count'')
       ''GET'' [] (all_data_of (parse_post lib)) []"

definition get_post ::
  "json_library \<Rightarrow> 'a network \<Rightarrow> int \<Rightarrow> string \<Rightarrow> MedusaPatreonClient \<Rightarrow> PatreonPost outcome \<times> MedusaPatreonClient" where
  "get_post lib net now post_id =
     fetch lib net now (''/posts/'' @ post_id @ ''?fields[post]=title,content,published_at,url,like_count,comment_count'') ''GET'' []
       (data_of (parse_post lib) PatreonPost_zero) PatreonPost_zero"

text \<open>A value that cannot be printed throws before anything is sent.\<close>

definition submit ::
  "json_library \<Rightarrow> 'a network \<Rightarrow> int \<Rightarrow> string \<Rightarrow> string \<Rightarrow> json \<Rightarrow> (json \<Rightarrow> 'b outcome) \<Rightarrow> 'b \<Rightarrow> MedusaPatreonClient
   \<Rightarrow> 'b outcome \<times> MedusaPatreonClient" where
  "submit lib net now endpoint meth j f d c =
     (case jdump lib j of None \<Rightarrow> (Throws ''type_error'', c) | Some payload \<Rightarrow> fetch lib net now endpoint meth payload f d c)"

definition tier_reference :: "string \<Rightarrow> json" where
  "tier_reference i = JObject [(''id'', JString i), (''type'', JString ''tier'')]"

definition post_json :: "string \<Rightarrow> string \<Rightarrow> string \<Rightarrow> string list \<Rightarrow> json" where
  "post_json campaign title content tiers =
     JObject [(''data'', JObject
       [(''attributes'', JObject [(''content'', JString content), (''title'', JString title)]),
        (''relationships'', JObject
          ((''campaign'', JObject [(''data'', JObject [(''id'', JString campaign), (''type'', JString ''campaign'')])])
           # (if tiers = [] then [] else [(''tiers'', JObject [(''data'', JArray (map tier_reference tiers))])]))),
        (''type'', JString ''post'')])]"

definition create_post ::
  "json_library \<Rightarrow> 'a network \<Rightarrow> int \<Rightarrow> string \<Rightarrow> string \<Rightarrow> string \<Rightarrow> string list \<Rightarrow> MedusaPatreonClient
   \<Rightarrow> PatreonPost outcome \<times> MedusaPatreonClient" where
  "create_post lib net now campaign title content tiers =
     submit lib net now ''/posts'' ''POST'' (post_json campaign title content tiers)
       (data_of (parse_post lib) PatreonPost_zero) PatreonPost_zero"

definition update_post ::
  "json_library \<Rightarrow> 'a network \<Rightarrow> int \<Rightarrow> string \<Rightarrow> json \<Rightarrow> MedusaPatreonClient \<Rightarrow> bool outcome \<times> MedusaPatreonClient" where
  "update_post lib net now post_id updates =
     submit lib net now (''/posts/'' @ post_id) ''PATCH''
       (JObject [(''data'', JObject [(''attributes'', updates), (''id'', JString post_id), (''type'', JString ''post'')])])
       (\<lambda>j. Returns (json_contains ''data'' j)) False"

definition delete_post ::
  "'a network \<Rightarrow> int \<Rightarrow> string \<Rightarrow> MedusaPatreonClient \<Rightarrow> bool outcome \<times> MedusaPatreonClient" where
  "delete_post net now post_id c =
     (case make_request net now (''/posts/'' @ post_id) ''DELETE'' [] [] c of
        (r, c) \<Rightarrow> (outcome_bind r (\<lambda>s. Returns (s \<noteq> [] \<or> True)), c))"

section \<open>Judgements\<close>

definition member :: "'b option \<Rightarrow> 'b outcome" where
  "member x = (case x of Some y \<Rightarrow> Returns y | None \<Rightarrow> Undefined ''uninitialised member'')"

definition analyze_patron_engagement :: "PatreonPledge \<Rightarrow> string outcome" where
  "analyze_patron_engagement p =
     outcome_bind (member (pl_amount p)) (\<lambda>a. Returns
       (if 1000 \<le> a then ''High Engagement'' else if 500 \<le> a then ''Medium Engagement'' else ''Low Engagement''))"

definition classify_patron_risk :: "PatreonPledge \<Rightarrow> string outcome" where
  "classify_patron_risk p =
     (if pl_status p = ''declined_patron'' then Returns ''High Risk - Payment Failed''
      else outcome_bind (member (pl_paused p)) (\<lambda>paused.
        if paused then Returns ''Medium Risk - Paused''
        else outcome_bind (member (pl_amount p)) (\<lambda>a.
          Returns (if 0 < a \<and> pl_status p = ''active_patron'' then ''Low Risk - Active'' else ''Unknown Risk''))))"

definition retention_score :: "int \<Rightarrow> int \<Rightarrow> string \<Rightarrow> bool \<Rightarrow> real" where
  "retention_score a life st paused =
     (let x = 1 / 2 + (if 2000 \<le> a then 3 / 10 else if 1000 \<le> a then 2 / 10 else if 500 \<le> a then 1 / 10 else 0);
          x = x + (if a * 12 < life then 2 / 10 else 0);
          x = x + (if st = ''active_patron'' then 1 / 10 else 0)
      in x - (if paused then 3 / 10 else 0))"

definition calculate_retention_probability :: "PatreonPledge \<Rightarrow> real outcome" where
  "calculate_retention_probability p =
     outcome_bind (member (pl_amount p)) (\<lambda>a.
     outcome_bind (member (pl_total p)) (\<lambda>life.
       if a * 12 < -(2 ^ 31) \<or> 2 ^ 31 \<le> a * 12 then Undefined ''int overflow''
       else outcome_bind (member (pl_paused p)) (\<lambda>paused.
         Returns (min 1 (max 0 (retention_score a life (pl_status p) paused))))))"

definition map_pledge_to_discord_role :: "PatreonPledge \<Rightarrow> string outcome" where
  "map_pledge_to_discord_role p =
     outcome_bind (member (pl_amount p)) (\<lambda>a. Returns
       (if 5000 \<le> a then ''premium_patron'' else if 2000 \<le> a then ''gold_patron'' else if 1000 \<le> a then ''silver_patron''
        else if 500 \<le> a then ''bronze_patron'' else if 0 < a then ''patron'' else ''former_patron''))"

definition is_patron_active :: "PatreonPledge \<Rightarrow> bool outcome" where
  "is_patron_active p =
     (if pl_status p \<noteq> ''active_patron'' then Returns False
      else outcome_bind (member (pl_paused p)) (\<lambda>paused.
        if paused then Returns False else outcome_bind (member (pl_amount p)) (\<lambda>a. Returns (0 < a))))"

definition should_grant_discord_access :: "PatreonPledge \<Rightarrow> string \<Rightarrow> bool outcome" where
  "should_grant_discord_access p channel =
     (if pl_status p \<noteq> ''active_patron'' then Returns False
      else outcome_bind (member (pl_amount p)) (\<lambda>a.
        if a < 100 then Returns False else outcome_bind (member (pl_paused p)) (\<lambda>paused. Returns (\<not> paused))))"

definition get_patron_tier_amount :: "PatreonPledge \<Rightarrow> int outcome" where
  "get_patron_tier_amount p = member (pl_amount p)"

definition get_patron_display_name :: "PatreonUser \<Rightarrow> string" where
  "get_patron_display_name u =
     (if pu_full_name u \<noteq> [] then pu_full_name u
      else if pu_first_name u \<noteq> [] \<and> pu_last_name u \<noteq> [] then pu_first_name u @ '' '' @ pu_last_name u
      else if pu_vanity u \<noteq> [] then pu_vanity u else ''Anonymous Patron'')"

text \<open>Cents over a hundred with two digits, of a positive amount.\<close>

definition dollars :: "int \<Rightarrow> string" where
  "dollars a = to_string_int (a div 100) @ ''.'' @ to_string_int (a mod 100 div 10) @ to_string_int (a mod 10)"

definition format_patron_welcome_message :: "PatreonPledge \<Rightarrow> string outcome" where
  "format_patron_welcome_message p =
     outcome_bind (member (pl_amount p)) (\<lambda>a. Returns
       ([CHR 0xF0, CHR 0x9F, CHR 0x8E, CHR 0x89] @ '' Welcome to our Patreon community!'' @ [nl, nl]
        @ (if pu_full_name (pl_patron p) \<noteq> [] then ''Thank you, '' @ pu_full_name (pl_patron p) @ '', for your support!'' @ [nl]
           else if pu_first_name (pl_patron p) \<noteq> [] then ''Thank you, '' @ pu_first_name (pl_patron p) @ '', for your support!'' @ [nl]
           else ''Thank you for your support!'' @ [nl])
        @ (if 0 < a then ''Your pledge of $'' @ dollars a @ ''/month helps us continue creating amazing content.'' @ [nl] else [])
        @ nl # ''We'' @ squote # ''re excited to have you as part of our community!''))"

fun read_pledges :: "json_library \<Rightarrow> bool \<Rightarrow> json list \<Rightarrow> PatreonPledge list outcome" where
  "read_pledges lib ai [] = Returns []"
| "read_pledges lib ai (j # js) =
     outcome_bind (read_option (parse_pledge lib j)) (\<lambda>p.
     outcome_bind (if ai then outcome_bind (analyze_patron_engagement p) (\<lambda>e.
                     outcome_bind (calculate_retention_probability p) (\<lambda>r. Returns (p\<lparr>pl_engagement := e, pl_retention := r\<rparr>)))
                   else Returns p) (\<lambda>p.
     outcome_bind (read_pledges lib ai js) (\<lambda>ps. Returns (p # ps))))"

definition get_campaign_pledges ::
  "json_library \<Rightarrow> 'a network \<Rightarrow> int \<Rightarrow> string \<Rightarrow> MedusaPatreonClient \<Rightarrow> PatreonPledge list outcome \<times> MedusaPatreonClient" where
  "get_campaign_pledges lib net now campaign c =
     fetch lib net now (''/campaigns/'' @ campaign
       @ ''/members?include=user&fields[member]=full_name,patron_status,currently_entitled_amount_cents,lifetime_support_cents&fields[user]=email,first_name,last_name,full_name'')
       ''GET'' [] (\<lambda>j. if json_contains ''data'' j then read_pledges lib (medusa_ai_enabled c) (json_items (json_get ''data'' j)) else Returns [])
       [] c"

definition reward_title :: "json \<Rightarrow> string list outcome" where
  "reward_title j =
     (if json_contains ''data'' j \<and> json_contains ''attributes'' (json_get ''data'' j)
      then outcome_bind (read_option (text_of ''title'' (json_get ''attributes'' (json_get ''data'' j))))
             (\<lambda>s. Returns (if s = [] then [] else [s]))
      else Returns [])"

definition get_patron_entitled_rewards ::
  "json_library \<Rightarrow> 'a network \<Rightarrow> int \<Rightarrow> PatreonPledge \<Rightarrow> MedusaPatreonClient \<Rightarrow> string list outcome \<times> MedusaPatreonClient" where
  "get_patron_entitled_rewards lib net now p c =
     (if pl_reward_id p = [] then (Returns [], c)
      else fetch lib net now (''/rewards/'' @ pl_reward_id p @ ''?fields[reward]=title,description,amount_cents'') ''GET'' [] reward_title [] c)"

text \<open>The suggestions read before an exception stay.\<close>

fun tier_suggestions :: "json_library \<Rightarrow> int \<Rightarrow> json list \<Rightarrow> string list" where
  "tier_suggestions lib amount [] = []"
| "tier_suggestions lib amount (j # js) =
     (if \<not> json_contains ''attributes'' j then tier_suggestions lib amount js
      else
        let attrs = json_get ''attributes'' j in
        case json_value (json_int32 lib) ''amount_cents'' 0 attrs of
          None \<Rightarrow> []
        | Some cents \<Rightarrow>
            if cents = amount \<or> (0 < cents \<and> cents \<le> amount) then
              (case (text_of ''title'' attrs, text_of ''description'' attrs) of
                 (Some title, Some description) \<Rightarrow>
                   (if title = [] then [] else [title]) @ (if description = [] \<or> description = title then [] else [description])
                   @ tier_suggestions lib amount js
               | _ \<Rightarrow> [])
            else tier_suggestions lib amount js)"

definition suggest_content_for_tier ::
  "json_library \<Rightarrow> 'a network \<Rightarrow> int \<Rightarrow> string \<Rightarrow> int \<Rightarrow> MedusaPatreonClient \<Rightarrow> string list outcome \<times> MedusaPatreonClient" where
  "suggest_content_for_tier lib net now campaign amount =
     fetch lib net now (''/campaigns/'' @ campaign @ ''/tiers?fields[tier]=title,description,amount_cents'') ''GET'' []
       (\<lambda>j. Returns (if json_contains ''data'' j then tier_suggestions lib amount (json_items (json_get ''data'' j)) else [])) []"

section \<open>Webhooks\<close>

definition verify_webhook_signature :: "string \<Rightarrow> string \<Rightarrow> bool" where
  "verify_webhook_signature payload signature \<longleftrightarrow> signature \<noteq> [] \<and> 10 < length signature"

definition event_type_of :: "string \<Rightarrow> WebhookEventType" where
  "event_type_of s =
     (if s = ''members:pledge:create'' then Pledge_create
      else if s = ''members:pledge:update'' then Pledge_update
      else if s = ''members:pledge:delete'' then Pledge_delete
      else if s = ''posts:publish'' then Posts_published else Unknown_event)"

definition related_id :: "string \<Rightarrow> json \<Rightarrow> string option" where
  "related_id k rel =
     (if json_contains k rel \<and> json_contains ''data'' (json_get k rel) then text_of ''id'' (json_get ''data'' (json_get k rel)) else Some [])"

definition read_event :: "int \<Rightarrow> string \<Rightarrow> string \<Rightarrow> json \<Rightarrow> PatreonWebhookEvent option" where
  "read_event now signature name j =
     (let rel = json_get ''relationships'' (json_get ''data'' j) in
      if json_contains ''data'' j \<and> json_contains ''relationships'' (json_get ''data'' j)
      then Option.bind (related_id ''campaign'' rel) (\<lambda>campaign. Option.bind (related_id ''user'' rel) (\<lambda>user. Some
        \<lparr>ev_type = event_type_of name, ev_name = name, ev_signature = signature, ev_payload = j, ev_time = now,
         ev_campaign_id = campaign, ev_user_id = user\<rparr>))
      else Some \<lparr>ev_type = event_type_of name, ev_name = name, ev_signature = signature, ev_payload = j, ev_time = now,
         ev_campaign_id = [], ev_user_id = []\<rparr>)"

text \<open>The text of the exception is the argument \<open>what\<close>.\<close>

definition process_webhook ::
  "json_library \<Rightarrow> string \<Rightarrow> int \<Rightarrow> string \<Rightarrow> string \<Rightarrow> string \<Rightarrow> MedusaPatreonClient \<Rightarrow> string \<times> MedusaPatreonClient" where
  "process_webhook lib what now payload signature event_type c =
     (if webhook_secret c \<noteq> [] \<and> signature \<noteq> [] \<and> \<not> verify_webhook_signature payload signature
      then (''Signature verification failed'', c)
      else case Option.bind (jparse lib payload) (read_event now signature event_type) of
          None \<Rightarrow> (''Parse error: '' @ what, c)
        | Some e \<Rightarrow> (''Event processed successfully'', c\<lparr>webhook_queue := webhook_queue c @ [e]\<rparr>))"

definition start_webhook_processing :: "MedusaPatreonClient \<Rightarrow> MedusaPatreonClient" where
  "start_webhook_processing c = (if processing c then c else c\<lparr>processing := True, webhook_processor := True\<rparr>)"

definition stop_webhook_processing :: "MedusaPatreonClient \<Rightarrow> MedusaPatreonClient" where
  "stop_webhook_processing c = c\<lparr>processing := False, webhook_processor := False\<rparr>"

definition call :: "patreon_call list \<Rightarrow> MedusaPatreonClient \<Rightarrow> MedusaPatreonClient" where
  "call xs c = c\<lparr>pt_calls := pt_calls c @ xs\<rparr>"

definition with_handler :: "(nat \<Rightarrow> 'b \<Rightarrow> patreon_call) \<Rightarrow> nat option \<Rightarrow> 'b \<Rightarrow> patreon_call list" where
  "with_handler k h x = (case h of None \<Rightarrow> [] | Some n \<Rightarrow> [k n x])"

text \<open>The handler of the kind of the event, None for an exception.\<close>

definition specific_calls :: "json_library \<Rightarrow> PatreonWebhookEvent \<Rightarrow> MedusaPatreonClient \<Rightarrow> patreon_call list option" where
  "specific_calls lib e c =
     (let j = json_get ''data'' (ev_payload e); present = json_contains ''data'' (ev_payload e) in
      if ev_type e \<in> {Pledge_create, Pledge_update, Pledge_delete} then
        (if pledge_handler c \<noteq> None \<and> present then map_option (with_handler On_pledge (pledge_handler c)) (parse_pledge lib j) else Some [])
      else if ev_type e \<in> {Posts_published, Posts_update, Posts_delete} then
        (if post_handler c \<noteq> None \<and> present then map_option (with_handler On_post (post_handler c)) (parse_post lib j) else Some [])
      else Some [])"

definition process_webhook_queue :: "json_library \<Rightarrow> MedusaPatreonClient \<Rightarrow> unit outcome \<times> MedusaPatreonClient" where
  "process_webhook_queue lib c =
     (if \<not> processing c then (Returns (), c)
      else case webhook_queue c of
          [] \<Rightarrow> (Returns (), c)
        | e # q \<Rightarrow>
            let c = call (with_handler On_webhook (webhook_handler c) e) (c\<lparr>webhook_queue := q\<rparr>) in
            (case specific_calls lib e c of
               None \<Rightarrow> (Throws ''type_error'', c)
             | Some xs \<Rightarrow> (Returns (), call (with_handler On_webhook (map_of (custom_handlers c) (ev_name e)) e) (call xs c))))"

definition set_webhook_secret :: "string \<Rightarrow> MedusaPatreonClient \<Rightarrow> MedusaPatreonClient" where
  "set_webhook_secret s c = c\<lparr>webhook_secret := s\<rparr>"

definition set_webhook_handler :: "nat option \<Rightarrow> MedusaPatreonClient \<Rightarrow> MedusaPatreonClient" where
  "set_webhook_handler h c = c\<lparr>webhook_handler := h\<rparr>"

definition set_pledge_handler :: "nat option \<Rightarrow> MedusaPatreonClient \<Rightarrow> MedusaPatreonClient" where
  "set_pledge_handler h c = c\<lparr>pledge_handler := h\<rparr>"

definition set_post_handler :: "nat option \<Rightarrow> MedusaPatreonClient \<Rightarrow> MedusaPatreonClient" where
  "set_post_handler h c = c\<lparr>post_handler := h\<rparr>"

definition set_patron_handler :: "nat option \<Rightarrow> MedusaPatreonClient \<Rightarrow> MedusaPatreonClient" where
  "set_patron_handler h c = c\<lparr>patron_handler := h\<rparr>"

definition add_custom_handler :: "string \<Rightarrow> nat \<Rightarrow> MedusaPatreonClient \<Rightarrow> MedusaPatreonClient" where
  "add_custom_handler s h c = c\<lparr>custom_handlers := um_assign s h (custom_handlers c)\<rparr>"

definition enable_medusa_ai :: "bool \<Rightarrow> MedusaPatreonClient \<Rightarrow> MedusaPatreonClient" where
  "enable_medusa_ai b c = c\<lparr>medusa_ai_enabled := b\<rparr>"

section \<open>Authorisation\<close>

definition set_oauth_credentials :: "string \<Rightarrow> string \<Rightarrow> MedusaPatreonClient \<Rightarrow> MedusaPatreonClient" where
  "set_oauth_credentials i s c = c\<lparr>pt_client_id := i, pt_client_secret := s\<rparr>"

fun spaced :: "string list \<Rightarrow> string" where
  "spaced [] = []"
| "spaced [s] = s"
| "spaced (s # ss) = s @ '' '' @ spaced ss"

definition get_oauth_url :: "string \<Rightarrow> string list \<Rightarrow> MedusaPatreonClient \<Rightarrow> string" where
  "get_oauth_url redirect scopes c =
     (if pt_client_id c = [] then []
      else ''https://www.patreon.com/oauth2/authorize?response_type=code&client_id='' @ pt_client_id c @ ''&redirect_uri='' @ redirect @ ''&''
        @ (if scopes = [] then [] else ''scope='' @ spaced scopes))"

definition read_token :: "json \<Rightarrow> string option outcome" where
  "read_token j =
     (if json_contains ''access_token'' j
      then outcome_bind (read_option (json_string (json_get ''access_token'' j))) (\<lambda>s. Returns (Some s)) else Returns None)"

definition exchange_code_for_token ::
  "json_library \<Rightarrow> 'a network \<Rightarrow> int \<Rightarrow> string \<Rightarrow> string \<Rightarrow> MedusaPatreonClient \<Rightarrow> string outcome \<times> MedusaPatreonClient" where
  "exchange_code_for_token lib net now auth_code redirect c =
     (if pt_client_id c = [] \<or> pt_client_secret c = [] then (Returns [], c)
      else
        case submit lib net now ''/token'' ''POST''
               (JObject [(''client_id'', JString (pt_client_id c)), (''client_secret'', JString (pt_client_secret c)), (''code'', JString auth_code),
                  (''grant_type'', JString ''authorization_code''), (''redirect_uri'', JString redirect)]) read_token None c of
          (Returns (Some s), c) \<Rightarrow> (Returns s, c\<lparr>access_token := s\<rparr>)
        | (r, c) \<Rightarrow> (outcome_bind r (\<lambda>_. Returns []), c))"

end
