(* ===== verification/Patreon_Sessions.thy ===== *)
theory Patreon_Sessions
  imports Patreon_Client
begin

text \<open>
  That webhooks are handled once and in the order in which they are accepted, which are accepted, that the rate
  limit an answer names is the one the next request waits for; the judgements about pledges; and what the client does
  not do.
\<close>

section \<open>Webhooks\<close>

datatype webhook_op =
    Hook string int string string string
  | Round
  | Handler "nat option"
  | Pledges "nat option"
  | Posts "nat option"
  | Custom string nat
  | Secret string
  | Start_thread
  | Stop_thread

text \<open>A round whose exception leaves the thread ends the program.\<close>

fun hook_step :: "json_library \<Rightarrow> webhook_op \<Rightarrow> MedusaPatreonClient \<Rightarrow> MedusaPatreonClient option" where
  "hook_step lib (Hook what now payload sig ty) c = Some (snd (process_webhook lib what now payload sig ty c))"
| "hook_step lib Round c = (case process_webhook_queue lib c of (Returns _, c) \<Rightarrow> Some c | _ \<Rightarrow> None)"
| "hook_step lib (Handler h) c = Some (set_webhook_handler h c)"
| "hook_step lib (Pledges h) c = Some (set_pledge_handler h c)"
| "hook_step lib (Posts h) c = Some (set_post_handler h c)"
| "hook_step lib (Custom s h) c = Some (add_custom_handler s h c)"
| "hook_step lib (Secret s) c = Some (set_webhook_secret s c)"
| "hook_step lib Start_thread c = Some (start_webhook_processing c)"
| "hook_step lib Stop_thread c = Some (stop_webhook_processing c)"

fun hook_run :: "json_library \<Rightarrow> webhook_op list \<Rightarrow> MedusaPatreonClient \<Rightarrow> MedusaPatreonClient option" where
  "hook_run lib [] c = Some c"
| "hook_run lib (p # ps) c = Option.bind (hook_step lib p c) (hook_run lib ps)"

text \<open>Which payloads are accepted, as which event.\<close>

definition signature_passes :: "string \<Rightarrow> string \<Rightarrow> bool" where
  "signature_passes secret sig \<longleftrightarrow> secret = [] \<or> sig = [] \<or> 10 < length sig"

definition accepted_event :: "json_library \<Rightarrow> int \<Rightarrow> string \<Rightarrow> string \<Rightarrow> string \<Rightarrow> string \<Rightarrow> PatreonWebhookEvent option" where
  "accepted_event lib now secret payload sig ty =
     (if signature_passes secret sig then Option.bind (jparse lib payload) (read_event now sig ty) else None)"

lemma webhook_answer:
  "process_webhook lib what now payload sig ty c =
     (case accepted_event lib now (webhook_secret c) payload sig ty of
        Some e \<Rightarrow> (''Event processed successfully'', c\<lparr>webhook_queue := webhook_queue c @ [e]\<rparr>)
      | None \<Rightarrow> (if signature_passes (webhook_secret c) sig then ''Parse error: '' @ what else ''Signature verification failed'', c))"
  by (auto simp: process_webhook_def accepted_event_def signature_passes_def verify_webhook_signature_def split: option.split)

text \<open>The calls for an event: the handler of all events, the one of its kind, the one of its name.\<close>

definition calls_for :: "json_library \<Rightarrow> PatreonWebhookEvent \<Rightarrow> MedusaPatreonClient \<Rightarrow> patreon_call list" where
  "calls_for lib e c =
     with_handler On_webhook (webhook_handler c) e @ the (specific_calls lib e c)
     @ with_handler On_webhook (map_of (custom_handlers c) (ev_name e)) e"

fun accepts :: "json_library \<Rightarrow> webhook_op \<Rightarrow> MedusaPatreonClient \<Rightarrow> PatreonWebhookEvent list" where
  "accepts lib (Hook what now payload sig ty) c =
     (case accepted_event lib now (webhook_secret c) payload sig ty of Some e \<Rightarrow> [e] | None \<Rightarrow> [])"
| "accepts lib p c = []"

fun handled :: "json_library \<Rightarrow> webhook_op \<Rightarrow> MedusaPatreonClient \<Rightarrow> (PatreonWebhookEvent \<times> patreon_call list) list" where
  "handled lib Round c =
     (case webhook_queue c of e # q \<Rightarrow> if processing c then [(e, calls_for lib e c)] else [] | [] \<Rightarrow> [])"
| "handled lib p c = []"

fun all_accepted where
  "all_accepted lib [] c = []"
| "all_accepted lib (p # ps) c = accepts lib p c @ (case hook_step lib p c of Some c' \<Rightarrow> all_accepted lib ps c' | None \<Rightarrow> [])"

fun all_handled where
  "all_handled lib [] c = []"
| "all_handled lib (p # ps) c = handled lib p c @ (case hook_step lib p c of Some c' \<Rightarrow> all_handled lib ps c' | None \<Rightarrow> [])"

lemma specific_same [simp]: "specific_calls lib e (c\<lparr>webhook_queue := q, pt_calls := xs\<rparr>) = specific_calls lib e c"
  by (simp add: specific_calls_def Let_def)

lemma hook_step_queue:
  "hook_step lib p c = Some c' \<Longrightarrow>
    webhook_queue c @ accepts lib p c = map fst (handled lib p c) @ webhook_queue c'
    \<and> pt_calls c' = pt_calls c @ concat (map snd (handled lib p c))"
proof (cases p)
  case Round
  assume "hook_step lib p c = Some c'"
  then show ?thesis using Round
    by (auto simp: process_webhook_queue_def calls_for_def call_def Let_def split: if_splits list.splits option.splits outcome.splits)
qed (auto simp: webhook_answer set_webhook_handler_def set_pledge_handler_def set_post_handler_def add_custom_handler_def
    set_webhook_secret_def start_webhook_processing_def stop_webhook_processing_def split: option.splits)


definition fixed_json :: "(string \<Rightarrow> json option) \<Rightarrow> json_library" where
  "fixed_json f = \<lparr>jparse = f, jdump = (\<lambda>j. Some []), real_to_int = (\<lambda>w. 0)\<rparr>"


section \<open>The rate limit\<close>

lemma stoi_space: "stoi (CHR '' '' # s) = stoi s"
  by (simp add: stoi_def stoi_sign_def ctype_defs)

lemma strip_line_cr: "s \<noteq> [] \<Longrightarrow> last s \<notin> {CHR '' '', cr, nl} \<Longrightarrow> strip_line (s @ [cr]) = s"
  by (cases s rule: rev_cases) (auto simp: strip_line_def)

lemma last_digit: "last (to_string_int n) \<notin> {CHR '' '', cr, nl}" "to_string_int n \<noteq> []"
proof -
  have "last (to_string_nat k) \<notin> {CHR '' '', cr, nl}" for k
  proof -
    have "last (to_string_nat k) \<in> set (to_string_nat k)" by (rule last_in_set) simp
    then have "isdigit (last (to_string_nat k))" using to_string_nat_digits by blast
    then show ?thesis by (auto simp: ctype_defs)
  qed
  then show "last (to_string_int n) \<notin> {CHR '' '', cr, nl}" by (simp add: to_string_int_def)
  show "to_string_int n \<noteq> []" by (simp add: to_string_int_def)
qed

lemma limit_value:
  "- 2147483648 \<le> n \<Longrightarrow> n \<le> 2147483647 \<Longrightarrow> stoi (strip_line (CHR '' '' # to_string_int n @ [cr])) = Returns n"
  using strip_line_cr [of "CHR '' '' # to_string_int n"] last_digit [of n] by (simp add: stoi_space stoi_to_string_int)

definition remaining_header :: string where
  "remaining_header = ''X-RateLimit-Remaining''"

definition reset_header :: string where
  "reset_header = ''X-RateLimit-Reset''"

definition clean_header :: "string \<times> string \<Rightarrow> bool" where
  "clean_header h \<longleftrightarrow> CHR '':'' \<notin> set (fst h) \<and> nl \<notin> set (fst h) \<and> nl \<notin> set (snd h)"

definition header_line :: "string \<times> string \<Rightarrow> string" where
  "header_line h = fst h @ CHR '':'' # CHR '' '' # snd h @ [cr]"

lemma line_then: "nl \<notin> set l \<Longrightarrow> getlines cur (l @ nl # r) = (cur @ l) # getlines [] r"
  by (induction l arbitrary: cur) auto

lemma header_lines: "\<forall>h\<in>set hs. clean_header h \<Longrightarrow> lines_of (header_text hs) = map header_line hs"
proof (induction hs)
  case (Cons h hs)
  have "header_text (h # hs) = header_line h @ nl # header_text hs"
    by (simp add: header_text_def header_line_def split: prod.split)
  moreover have "nl \<notin> set (header_line h)" using Cons.prems by (simp add: header_line_def clean_header_def)
  ultimately show ?case using Cons by (simp add: line_then)
qed (simp add: header_text_def)

lemma starts_colon: "CHR '':'' \<notin> set k \<Longrightarrow> CHR '':'' \<notin> set a \<Longrightarrow> starts_with (a @ '':'') (k @ CHR '':'' # r) \<longleftrightarrow> k = a"
proof (induction a arbitrary: k)
  case Nil
  then show ?case by (cases k) auto
next
  case (Cons x a)
  then show ?case by (cases k) auto
qed

lemma header_starts:
  "clean_header h \<Longrightarrow> starts_with ''X-RateLimit-Remaining:'' (header_line h) \<longleftrightarrow> fst h = remaining_header"
  "clean_header h \<Longrightarrow> starts_with ''X-RateLimit-Reset:'' (header_line h) \<longleftrightarrow> fst h = reset_header"
  using starts_colon [of "fst h" remaining_header] starts_colon [of "fst h" reset_header]
  by (simp_all add: clean_header_def header_line_def remaining_header_def reset_header_def)

lemma header_value:
  "fst h = remaining_header \<Longrightarrow> drop 22 (header_line h) = CHR '' '' # snd h @ [cr]"
  "fst h = reset_header \<Longrightarrow> drop 18 (header_line h) = CHR '' '' # snd h @ [cr]"
  by (simp_all add: header_line_def remaining_header_def reset_header_def)

lemma limits_read:
  assumes "\<forall>h\<in>set hs. clean_header h" "um_inv hs"
    and "\<And>k v. (k, v) \<in> set hs \<Longrightarrow> k \<in> {remaining_header, reset_header} \<Longrightarrow> stoi (strip_line (CHR '' '' # v @ [cr])) = Returns (f v)"
  shows "rate_limit_lines (map header_line hs) c = (Returns (), c\<lparr>
     rate_limit_remaining := (case map_of hs remaining_header of Some v \<Rightarrow> f v | None \<Rightarrow> rate_limit_remaining c),
     rate_limit_reset := (case map_of hs reset_header of Some v \<Rightarrow> f v | None \<Rightarrow> rate_limit_reset c)\<rparr>)"
  using assms
proof (induction hs arbitrary: c)
  case (Cons h hs)
  obtain k v where h: "h = (k, v)" by fastforce
  have c: "clean_header h" and u: "um_inv hs" "k \<notin> fst ` set hs" using Cons.prems(1,2) h by auto
  have none: "map_of hs k = None" using u(2) by (simp add: map_of_eq_None_iff)
  have ih: "rate_limit_lines (map header_line hs) d = (Returns (), d\<lparr>
     rate_limit_remaining := (case map_of hs remaining_header of Some v \<Rightarrow> f v | None \<Rightarrow> rate_limit_remaining d),
     rate_limit_reset := (case map_of hs reset_header of Some v \<Rightarrow> f v | None \<Rightarrow> rate_limit_reset d)\<rparr>)" for d
    by (rule Cons.IH) (use Cons.prems u(1) in auto)
  have ne: "remaining_header \<noteq> reset_header" by (simp add: remaining_header_def reset_header_def)
  consider "k = remaining_header" | "k = reset_header" | "k \<noteq> remaining_header" "k \<noteq> reset_header" by blast
  then show ?case
  proof cases
    case 1
    then have "stoi (strip_line (drop 22 (header_line h))) = Returns (f v)"
      using Cons.prems(3) [of k v] header_value(1) [of h] h by simp
    then show ?thesis using 1 h none ne header_starts [OF c] ih by (simp split: option.split)
  next
    case 2
    then have "stoi (strip_line (drop 18 (header_line h))) = Returns (f v)"
      using Cons.prems(3) [of k v] header_value(2) [of h] h by simp
    then show ?thesis using 2 h none ne header_starts [OF c] ih by (simp split: option.split)
  next
    case 3
    then show ?thesis using h header_starts [OF c] ih by simp
  qed
qed simp

lemma limit_is_read:
  assumes "\<forall>h\<in>set hs. clean_header h" "um_inv hs"
    and "map_of hs remaining_header = Some (to_string_int n)" "- 2147483648 \<le> n" "n \<le> 2147483647"
    and "map_of hs reset_header = Some (to_string_int r)" "- 2147483648 \<le> r" "r \<le> 2147483647"
  shows "handle_rate_limit (header_text hs) c = (Returns (), c\<lparr>rate_limit_remaining := n, rate_limit_reset := r\<rparr>)"
proof -
  define f where "f v = (if v = to_string_int n then n else r)" for v
  have same: "to_string_int n = to_string_int r \<Longrightarrow> n = r"
    using stoi_to_string_int assms(4,5,7,8) by (metis outcome.inject(1))
  have f: "f (to_string_int n) = n" "f (to_string_int r) = r" using same by (auto simp: f_def)
  have read: "stoi (strip_line (CHR '' '' # v @ [cr])) = Returns (f v)" if "(k, v) \<in> set hs" "k \<in> {remaining_header, reset_header}" for k v
  proof -
    have "map_of hs k = Some v" using that(1) assms(2) by simp
    then have "v = to_string_int n \<or> v = to_string_int r" using that(2) assms(3,6) by auto
    then show ?thesis using limit_value [OF assms(4,5)] limit_value [OF assms(7,8)] f by metis
  qed
  have "rate_limit_lines (map header_line hs) c = (Returns (), c\<lparr>
     rate_limit_remaining := (case map_of hs remaining_header of Some v \<Rightarrow> f v | None \<Rightarrow> rate_limit_remaining c),
     rate_limit_reset := (case map_of hs reset_header of Some v \<Rightarrow> f v | None \<Rightarrow> rate_limit_reset c)\<rparr>)"
    by (rule limits_read [OF assms(1,2) read])
  then show ?thesis by (simp add: handle_rate_limit_def header_lines [OF assms(1)] assms(3,6) f)
qed

text \<open>The rate limit an answer names in its headers is the one the client keeps, and with ten requests or fewer left
  before the limit is reset the next request first waits the whole seconds until then.\<close>

theorem low_limit_waits:
  fixes c :: MedusaPatreonClient
  assumes "\<forall>h\<in>set hs. clean_header h" "um_inv hs"
    and "map_of hs remaining_header = Some (to_string_int n)" "- 2147483648 \<le> n" "n \<le> 2147483647"
    and "map_of hs reset_header = Some (to_string_int r)" "- 2147483648 \<le> r" "r \<le> 2147483647"
  defines "c' \<equiv> snd (handle_rate_limit (header_text hs) c)"
  shows "fst (handle_rate_limit (header_text hs) c) = Returns ()" "rate_limit_remaining c' = n" "rate_limit_reset c' = r"
    and "pt_waits (wait_for_limit now c') =
      pt_waits c @ (if n \<le> 10 \<and> now < r * 1000000000 then [(r * 1000000000 - now) div 1000000000] else [])"
  using limit_is_read [OF assms(1-8), of c] by (simp_all add: c'_def wait_for_limit_def Let_def)

theorem low_limit_waits_witness:
  "pt_waits (wait_for_limit 3500000000 (snd (handle_rate_limit (header_text
      [(''Content-Type'', ''application/json''), (remaining_header, to_string_int 3), (reset_header, to_string_int 10)])
      (MedusaPatreonClient_new ''t'' Creator_access_token)))) = [6]"
proof -
  let ?hs = "[(''Content-Type'', ''application/json''), (remaining_header, to_string_int 3), (reset_header, to_string_int 10)]"
  have "\<forall>h\<in>set ?hs. clean_header h" "um_inv ?hs"
    by (simp_all add: clean_header_def remaining_header_def reset_header_def no_newline_int)
  from low_limit_waits(4) [OF this, where n = 3 and r = 10 and now = 3500000000 and c = "MedusaPatreonClient_new ''t'' Creator_access_token"]
  show ?thesis by (simp add: remaining_header_def reset_header_def MedusaPatreonClient_new_def)
qed

section \<open>Pledges\<close>

text \<open>Who is granted access is an active patron.\<close>

lemma granted_is_active: "should_grant_discord_access p ch = Returns True \<Longrightarrow> is_patron_active p = Returns True"
  by (cases "pl_amount p"; cases "pl_paused p")
    (auto simp: should_grant_discord_access_def is_patron_active_def member_def split: if_splits)

lemma retention_is_a_probability: "calculate_retention_probability p = Returns x \<Longrightarrow> 0 \<le> x \<and> x \<le> 1"
  by (cases "pl_amount p"; cases "pl_total p"; cases "pl_paused p")
    (auto simp: calculate_retention_probability_def member_def split: if_splits)

section \<open>What the client does not do\<close>

text \<open>The role of a pledge does not depend on its status.\<close>

lemma declined_keeps_role:
  "pl_status p = ''declined_patron'' \<Longrightarrow> pl_amount p = Some 6000 \<Longrightarrow>
    map_pledge_to_discord_role p = Returns ''premium_patron'' \<and> should_grant_discord_access p ch = Returns False"
  by (simp add: map_pledge_to_discord_role_def should_grant_discord_access_def member_def)

text \<open>A secret does not keep out a payload without a signature, or with one of eleven characters.\<close>

lemma unsigned_is_accepted:
  "Option.bind (jparse lib payload) (read_event now [] ty) = Some e \<Longrightarrow>
    fst (process_webhook lib what now payload [] ty (set_webhook_secret s c)) = ''Event processed successfully''"
  by (simp add: process_webhook_def)

lemma made_up_signature_is_accepted:
  "Option.bind (jparse lib payload) (read_event now ''aaaaaaaaaaa'' ty) = Some e \<Longrightarrow>
    fst (process_webhook lib what now payload ''aaaaaaaaaaa'' ty (set_webhook_secret s c)) = ''Event processed successfully''"
  by (simp add: process_webhook_def verify_webhook_signature_def)

text \<open>A payload whose data have a number as identifier is accepted, and ends the program in the thread.\<close>

lemma webhook_ends_the_program:
  assumes "jparse lib payload = Some (JObject [(''data'', JObject [(''id'', JInt 5)])])" "pledge_handler c \<noteq> None" "processing c"
    "webhook_queue c = []"
  shows "hook_step lib Round (snd (process_webhook lib what now payload [] ''members:pledge:create'' c)) = None"
  using assms by (simp add: process_webhook_def read_event_def json_contains_def json_get_def event_type_of_def process_webhook_queue_def
      specific_calls_def call_def parse_pledge_def sets_def json_value_def json_string_def Let_def)

text \<open>A pledge without attributes is read, and asking for its engagement is undefined; an attribute that is null
  makes the whole user unreadable.\<close>

lemma missing_attributes:
  "parse_pledge lib (JObject [(''id'', JString i)]) = Some p \<Longrightarrow> analyze_patron_engagement p = Undefined ''uninitialised member''"
  by (auto simp: parse_pledge_def sets_def json_value_def json_string_def json_contains_def PatreonPledge_declared_def
      analyze_patron_engagement_def member_def)

lemma null_vanity:
  "parse_user (JObject [(''attributes'', JObject [(''vanity'', JNull)]), (''id'', JString i)]) = None"
  by (simp add: parse_user_def sets_def json_value_def json_string_def json_contains_def json_get_def Let_def)

text \<open>Every member of a campaign gets the identifier of the first user included.\<close>

lemma included_id:
  assumes "json_contains ''included'' j" "first_user (json_items (json_get ''included'' j)) = Some (Some k)" "text_of ''id'' k = Some i"
    and "included_user j u = Some v"
  shows "pu_id v = i"
  using assms by (auto simp: included_user_def from_included_def sets_def Let_def Option.bind_eq_Some_conv split: if_splits)

lemma members_share_the_first_user:
  assumes "json_contains ''included'' j" "first_user (json_items (json_get ''included'' j)) = Some (Some k)" "text_of ''id'' k = Some i"
    and "those (map (\<lambda>m. Option.bind (member_attributes lib m PatreonUser_declared) (included_user j)) ms) = Some us" "u \<in> set us"
  shows "pu_id u = i"
  using assms(4,5)
proof (induction ms arbitrary: us)
  case (Cons m ms)
  then show ?case using included_id [OF assms(1-3)]
    by (auto simp: Option.bind_eq_Some_conv split: option.splits)
qed simp

text \<open>Deleting is reported as done whatever the service answers, and a limit that is no number is an exception no call catches.\<close>

lemma deletion_is_always_done: "fst (delete_post net now i c) = Returns b \<Longrightarrow> b"
  by (auto simp: delete_post_def split: prod.splits)

lemma bad_limit_throws: "fst (handle_rate_limit (''X-RateLimit-Remaining: none'' @ [cr, nl]) c) = Throws ''stoi''"
  by (simp add: handle_rate_limit_def strip_line_def stoi_def stoi_sign_def ctype_defs)

end
