(* ===== verification/Spec2Isabelle.thy ===== *)
theory Spec2Isabelle
  imports C_Api Lamia_VM Shared_Library Script_Compiler Block_Editor Extension_Registry Gateway_Client Firewall_Window Url_Router
    Json_Value Real_Transpiler Credential_Sources Pathing_Containment Proxy_Consistency Discord_Sessions Encryption_Sessions Subdomain_Sessions
    Patreon_Sessions
begin

text \<open>
  A verification development of the Lamia repository: the Lamia language with its tools, the editors over it, and
  the Medusa server components that carry its traffic, credentials and messages. File names are those under \<open>src/\<close>.

  \<^bold>\<open>The program.\<close> The language has three compilers in the repository. The library (\<open>src/language/*.cppm\<close>) lexes a
  source into tokens, parses them into a tree and writes a page; \<open>src/capi\<close> gives this to C clients, a bytecode machine
  runs compiled arithmetic, and \<open>src/runtime\<close> loads native plug-ins. The script compiler (\<open>lamia_compiler.cpp\<close> with
  \<open>lamia_language_specification.hpp\<close>) writes files for several targets, and the real compiler
  (\<open>lamia_real_compiler.cpp\<close>) writes a page and a script. The editors are the visual one (\<open>lamia_wysiwyg_editor.hpp\<close>),
  the block editor over it (\<open>lamia_block_editor.hpp\<close>) and the extensible core (\<open>lamia_extensible_architecture.hpp\<close>).
  On the server side a request meets the firewall (\<open>medusa_icewall_firewall_daddy.hpp\<close>) and the security proxy
  (\<open>medusa_security_proxy.hpp\<close>), the gateway (\<open>medusa_api_gateway.*\<close>), which forwards it by the HTTP client
  (\<open>medusa_native_http_client.*\<close>), the router of temporary addresses (\<open>medusaserv_url_router.hpp\<close>) and the pathing
  engine (\<open>MEDUSASERV_PATHING_ENGINE.cpp\<close>), beside the subdomain manager (\<open>SUBDOMAIN_MANAGER.cpp\<close>). The Discord client
  and engine speak over that HTTP client and a WebSocket connection of their own (\<open>medusa_discord_native_*\<close>), the Patreon
  client (\<open>medusa_patreon_integration.*\<close>) over the HTTP client. Credentials live in an encrypted vault
  (\<open>medusa_yorkshire_encryption_vault.hpp\<close>) behind a manager (\<open>medusa_credential_manager.hpp\<close>), passwords in the hashes of
  \<open>MedusaGroundUpSecurity.hpp\<close>, values in \<open>medusa_json_standalone.hpp\<close>.

  \<^bold>\<open>How it is modelled.\<close> A class is a record of its members, an enumeration a datatype, a member function a function
  from arguments and state to result and new state. What a C++ call can do is the datatype \<open>outcome\<close> of
  \<open>Lamia_Prelude\<close>: it returns, throws with a message, or is undefined behaviour. Objects shared by \<open>shared_ptr\<close>
  live in an explicit heap. A callback, a socket call and a message are entries of a log. The clock, the file system, the
  operating system, OpenSSL, the regular expression library, the JSON library and the random generators are arguments.
  Machine integers are words where they can wrap and natural numbers where the code keeps them from it. A thread is a set
  of steps interleaved with the calls in sessions; one call is one step, as its lock makes it.

  \<^bold>\<open>The shared theories.\<close>
  \<^item> \<open>Lamia_Prelude\<close>: outcomes, characters, searching in strings, vectors, and three interfaces as locales: \<open>loop\<close> (a
    measure ends it), \<open>session\<close> (an invariant kept by every step is kept by every session) and \<open>simulation\<close> (a relation
    kept by every step makes the answers those of a specification).
  \<^item> \<open>Std_Containers\<close>: the containers of the C++ library as association lists, behind the locales \<open>finite_map\<close> and
    \<open>finite_set\<close>; \<open>Std_Numbers\<close>: numbers to text and back.

  \<^bold>\<open>The language.\<close>
  \<^item> \<open>Lamia_Core\<close> (\<open>lamia.core.cppm\<close>): error, result, memory pool; a client that keeps the contract of the pool never
    holds a block twice. \<open>Lamia_Lexer\<close>, \<open>Lamia_Parser\<close>, \<open>Lamia_Transpiler\<close> (\<open>lamia.compiler.cppm\<close>): every loop
    ends, tokens carry their places, the parser never leaves the vector and accepts the statement grammar with the trees it
    gives, attribute values add no markup. \<open>C_Api\<close>: the page has no terminator inside and the buffer is never
    overrun. \<open>Lamia_VM\<close> (\<open>lamia.runtime.cppm\<close>): programs whose jumps go forward return, a jump to itself does not, arithmetic is
    that of 64 bits, locals are never left. \<open>Shared_Library\<close> (\<open>shared_library.cpp\<close>): handles are closed exactly once.
  \<^item> \<open>Script_Lexer\<close>, \<open>Script_Language\<close>, \<open>Script_Compiler\<close>: the lexer of the script compiler loses no character; parsing,
    rendering per target, and when a compilation fails and what it writes.
  \<^item> \<open>Real_Lexer\<close>, \<open>Real_Parser\<close>, \<open>Real_Programs\<close>, \<open>Real_Transpiler\<close>: the parser's loops are partial functions, None
    where the code hangs, with the sources on which they end; a program written from its abstract syntax is read back
    to its tree and compiled to its page and script.

  \<^bold>\<open>The editors.\<close> \<open>Editor_Nodes\<close>: nodes, document and visual editor. \<open>Block_Model\<close> and \<open>Block_Editor\<close>: blocks on a heap,
  selection, drag and drop; every session keeps ids, registry and places in agreement, and a drop gives the order its zone
  promises. \<open>Editor_State\<close>: the world is the replay of the history up to its index. \<open>Extension_Registry\<close>: the registry
  offers exactly what registered extensions contribute, and dependencies are checked.

  \<^bold>\<open>The server.\<close>
  \<^item> \<open>Gateway_Traffic\<close> (rate limiter, balancer), \<open>Api_Gateway\<close> (the request path), \<open>Http_Client\<close> (addresses, requests,
    responses, sockets, the CURL interface) and \<open>Gateway_Client\<close>, which puts both ends of a connection together: what is
    forwarded, how much of it in a minute, that sockets are released, and that each end reads what the other writes.
  \<^item> \<open>Firewall_State\<close>, \<open>Firewall\<close>, \<open>Firewall_Window\<close>: lists, bans, policies and the sliding window, whose count is exactly
    the requests of the last minute in every session whose clock does not run backwards.
  \<^item> \<open>Security_Proxy\<close>, \<open>Proxy_Sessions\<close>, \<open>Proxy_Consistency\<close>: which requests are approved, how long an address stays
    refused, that the default rules refuse all, and that the counters count.
  \<^item> \<open>Url_Router\<close>; \<open>Pathing_Engine\<close>, \<open>Pathing_Routes\<close>, \<open>Pathing_Containment\<close>: routes answer as functions of
    directory and request, cache and heap change nothing, arrays are freed once, and the routes that validate the path stay
    below their directory.
  \<^item> \<open>Json_Value\<close>: a heap of shared values, serialised and read back.
  \<^item> \<open>Web_Socket\<close>: base64, the frames of RFC 6455 in both directions, connecting, the two queues and the socket in use.
    \<open>Discord_Api\<close>, \<open>Discord_Engine\<close>, \<open>Discord_Sessions\<close>: the calls and the gateway of the client, commands, handlers and
    the event queue of the engine; events are handled once and in order, and escaped markdown is read back.
    \<open>Patreon_Client\<close>, \<open>Patreon_Sessions\<close> (\<open>medusa_patreon_integration.*\<close>): the calls of the Patreon client, its rate
    limit, its webhooks, which are handled once and in order, and its judgements about pledges.
  \<^item> \<open>Credential_Vault\<close>, \<open>Vault_Session\<close>: over every session of its owner the vault is a map from services to logins.
    \<open>Credential_Manager\<close>, \<open>Credential_Sources\<close>: the sources fulfil one interface, and a stored credential is the one loaded.
  \<^item> \<open>Enigma_Core\<close>, \<open>Enigma_Hashes\<close>: the password hashes; their base64 is that of \<open>Web_Socket\<close>, and none passes
    the verification of the code. \<open>Medusa_Encryption\<close>, \<open>Encryption_Sessions\<close> (\<open>MedusaEncryption.hpp\<close>): over a cipher library
    that opens what it seals, a session decrypts what it encrypted.
  \<^item> \<open>Subdomain_Manager\<close>, \<open>Subdomain_Sessions\<close> (\<open>SUBDOMAIN_MANAGER.cpp\<close>): subdomains over a disk; the manager answers as a map
    from domains to directories, and its zone file lists the subdomains, each once.

  \<^bold>\<open>Where the code does not do what it says.\<close> The last sections of \<open>Api_Gateway\<close>, \<open>Firewall_Window\<close>, \<open>Json_Value\<close>,
  \<open>Web_Socket\<close>, \<open>Vault_Session\<close>, \<open>Credential_Sources\<close>, \<open>Pathing_Containment\<close>, \<open>Proxy_Consistency\<close>,
  \<open>Discord_Sessions\<close>, \<open>Enigma_Hashes\<close>, \<open>Encryption_Sessions\<close>, \<open>Subdomain_Sessions\<close> and \<open>Patreon_Sessions\<close> prove,
  on concrete inputs or in general, behaviour the code has and its comments deny.

  \<^bold>\<open>Parameters, bounds, fuel.\<close> What is said of a library outside the repository stands in predicates that are hypotheses:
  \<open>honest_engine\<close> (what the security engine encrypts it decrypts, as one line without a colon),
  \<open>honest_cipher\<close> (the cipher library opens what it sealed and writes within the buffers),
  \<open>bcrypt_keeps_format\<close> (a bcrypt hash has its three dollar signs), and the readers of the JSON library. Each theorem with a
  hypothesis is followed by its instance at a concrete input. Loops that end have a measure; those that may not
  (\<open>run_loop\<close> of the bytecode machine, the loops of \<open>Real_Parser\<close>, \<open>ser\<close> of \<open>Json_Value\<close> on a cyclic value, the header
  lists of \<open>Http_Client\<close>) are \<open>partial_function (option)\<close>, None where the code does not return, and a theorem or lemma says
  on which inputs they return. No fuel is used. Counters that would need more than 2 to the 64 events to wrap
  are natural numbers, and each theory says so.

  \<^bold>\<open>Not modelled.\<close> The vendored JSON library and the stand-ins for headers of libcurl and OpenSSL; command-line drivers,
  tests, generators, release and plug-in market tools and manufacturing bridges, which print or write fixed texts and
  run shell commands; the experimental compilers, older drivers over the same language; the interface components and
  themes, which print markup and style sheets; the server shells, plug-in systems, database bindings and session managers,
  whose member functions have no bodies in the repository or only open sockets, threads and libraries; measured
  times and percentages in floating point; the messages written to the console. Of the modelled
  parts, \<open>C_Api\<close> leaves out the function that only frees, \<open>Api_Gateway\<close> the listening socket and the TLS context,
  \<open>Firewall\<close> the status maps in floating point, \<open>Enigma_Core\<close> the token and the requests of the callback manager.
\<close>

end
